(* ===== verification/Prelude.thy ===== *)
theory Prelude
  imports Main "HOL-Library.Sublist" "HOL-Library.Multiset" "HOL-Library.Monad_Syntax"
    "HOL-Library.Char_ord" "HOL-Library.List_Lexorder" "HOL-Library.Code_Target_Nat"
begin

text \<open>
  Shared vocabulary of the development: what the Go runtime does on slices and on
  \<open>sort.Slice\<close>, the collections that carry the component proofs, and the generic lemmas on
  lists and options that more than one component needs.

  A Go expression that can panic (an index or a slice expression out of range) is a value of
  type \<open>'a option\<close>, \<open>None\<close> being the panic. Lengths and offsets are \<open>nat\<close>
  where the code keeps them non-negative and \<open>int\<close> where it subtracts; the one component
  whose claims depend on the width of \<open>int\<close> (the token budget) uses 64-bit words.
\<close>

named_theorems go_simps \<open>equations of the Go runtime operations\<close>
named_theorems go_bounds \<open>length bounds of the Go string operations\<close>

subsection \<open>Indexing and slicing with panics\<close>

definition go_nth :: "'a list \<Rightarrow> nat \<Rightarrow> 'a option" where
  "go_nth xs i = (if i < length xs then Some (xs ! i) else None)"

definition subseg :: "'a list \<Rightarrow> nat \<Rightarrow> nat \<Rightarrow> 'a list" where
  "subseg xs i j = take (j - i) (drop i xs)"

definition go_slice :: "'a list \<Rightarrow> nat \<Rightarrow> nat \<Rightarrow> 'a list option" where
  "go_slice xs i j = (if i \<le> j \<and> j \<le> length xs then Some (subseg xs i j) else None)"

lemma go_nth_Some [go_simps]: "i < length xs \<Longrightarrow> go_nth xs i = Some (xs ! i)"
  by (simp add: go_nth_def)

lemma go_slice_Some [go_simps]: "i \<le> j \<Longrightarrow> j \<le> length xs \<Longrightarrow> go_slice xs i j = Some (subseg xs i j)"
  by (simp add: go_slice_def)

lemma go_slice_None [go_simps]: "j < i \<or> length xs < j \<Longrightarrow> go_slice xs i j = None"
  by (auto simp: go_slice_def)

lemma length_subseg [simp]: "j \<le> length xs \<Longrightarrow> length (subseg xs i j) = j - i"
  by (auto simp: subseg_def)

lemma length_subseg_le [go_bounds]: "length (subseg xs i j) \<le> j - i"
  by (auto simp: subseg_def)

lemma subseg_all [simp]: "subseg xs 0 (length xs) = xs"
  by (simp add: subseg_def)

lemma subseg_0: "subseg xs 0 j = take j xs"
  by (simp add: subseg_def)

lemma subseg_append_subseg: "i \<le> j \<Longrightarrow> j \<le> k \<Longrightarrow> subseg xs i j @ subseg xs j k = subseg xs i k"
proof -
  assume le: "i \<le> j" "j \<le> k"
  have "take (k - j) (drop (j - i) (drop i xs)) = subseg xs j k"
    using le by (simp add: subseg_def)
  moreover have "take (k - i) (drop i xs) = take (j - i) (drop i xs) @ take (k - j) (drop (j - i) (drop i xs))"
    using le take_add [of "j - i" "k - j" "drop i xs"] by simp
  ultimately show ?thesis by (simp add: subseg_def)
qed

lemma subseg_infix: "i \<le> j \<Longrightarrow> j \<le> length xs \<Longrightarrow> xs = take i xs @ subseg xs i j @ drop j xs"
  by (metis append_assoc append_take_drop_id subseg_0 subseg_append_subseg zero_le)

lemma sublist_subseg [intro]: "sublist (subseg xs i j) xs"
  unfolding subseg_def by (meson sublist_drop sublist_order.order.trans sublist_take)

lemma subseg_take: "k \<le> j \<Longrightarrow> subseg (take j xs) i k = subseg xs i k"
  by (simp add: subseg_def drop_take min_def)

subsection \<open>Options\<close>

lemma bind_Some_iff: "(m \<bind> f = Some y) \<longleftrightarrow> (\<exists>x. m = Some x \<and> f x = Some y)"
  by (cases m) auto

subsection \<open>sort.Slice\<close>

text \<open>
  Go's \<open>sort.Slice\<close> is not stable: it promises a permutation of its input that is sorted
  by the given order and nothing on the order of equal elements. A component that sorts takes
  the sorting routine as a parameter; the locale below is the contract it relies on.
\<close>

definition sorts_by :: "('a \<Rightarrow> 'a \<Rightarrow> bool) \<Rightarrow> ('a list \<Rightarrow> 'a list) \<Rightarrow> bool" where
  "sorts_by lt srt \<longleftrightarrow> (\<forall>xs. mset (srt xs) = mset xs \<and> sorted_wrt (\<lambda>a b. \<not> lt b a) (srt xs))"

locale slice_sort =
  fixes lt :: "'a \<Rightarrow> 'a \<Rightarrow> bool" and srt :: "'a list \<Rightarrow> 'a list"
  assumes sorts: "sorts_by lt srt"
begin

lemma mset_srt [simp]: "mset (srt xs) = mset xs"
  using sorts by (simp add: sorts_by_def)

lemma set_srt [simp]: "set (srt xs) = set xs"
  by (metis mset_srt set_mset_mset)

lemma length_srt [simp]: "length (srt xs) = length xs"
  by (metis mset_srt size_mset)

lemma sorted_srt: "sorted_wrt (\<lambda>a b. \<not> lt b a) (srt xs)"
  using sorts by (simp add: sorts_by_def)

lemma distinct_srt [simp]: "distinct (srt xs) = distinct xs"
  by (rule mset_eq_imp_distinct_iff) simp

lemma taken_before_dropped:
  "a \<in> set (take n (srt xs)) \<Longrightarrow> b \<in> set (drop n (srt xs)) \<Longrightarrow> \<not> lt b a"
proof -
  assume a: "a \<in> set (take n (srt xs))" and b: "b \<in> set (drop n (srt xs))"
  have "sorted_wrt (\<lambda>a b. \<not> lt b a) (take n (srt xs) @ drop n (srt xs))"
    unfolding append_take_drop_id by (rule sorted_srt)
  with a b show ?thesis unfolding sorted_wrt_append by blast
qed

end

lemma sorts_by_sort_key: "sorts_by (\<lambda>a b. (f a :: 'b::linorder) < f b) (sort_key f)"
proof -
  have "sorted_wrt (\<lambda>a b. \<not> f b < f a) (sort_key f xs)" for xs
    using sorted_sort_key [of f xs] by (auto simp: sorted_map not_less intro: sorted_wrt_mono_rel)
  then show ?thesis by (simp add: sorts_by_def)
qed

interpretation key_sort: slice_sort "\<lambda>a b. (f a :: 'b::linorder) < f b" "sort_key f"
  for f :: "'a \<Rightarrow> 'b::linorder"
  by unfold_locales (rule sorts_by_sort_key)

text \<open>\<open>sort.SliceStable\<close>, and a reference instance of \<open>sort.Slice\<close>: insertion sort by an order,
  in front of the elements it does not order before the inserted one.\<close>

definition insert_by :: "('a \<Rightarrow> 'a \<Rightarrow> bool) \<Rightarrow> 'a \<Rightarrow> 'a list \<Rightarrow> 'a list" where
  "insert_by lt x xs = takeWhile (\<lambda>y. lt y x) xs @ x # dropWhile (\<lambda>y. lt y x) xs"

definition stable_sort :: "('a \<Rightarrow> 'a \<Rightarrow> bool) \<Rightarrow> 'a list \<Rightarrow> 'a list" where
  "stable_sort lt xs = foldr (insert_by lt) xs []"

lemma mset_insert_by [simp]: "mset (insert_by lt x xs) = add_mset x (mset xs)"
proof -
  have "mset xs = mset (takeWhile (\<lambda>y. lt y x) xs) + mset (dropWhile (\<lambda>y. lt y x) xs)"
    by (metis mset_append takeWhile_dropWhile_id)
  then show ?thesis by (simp add: insert_by_def)
qed

lemma mset_stable_sort [simp]: "mset (stable_sort lt xs) = mset xs"
  by (induction xs) (simp_all add: stable_sort_def)

lemma set_stable_sort [simp]: "set (stable_sort lt xs) = set xs"
  by (metis mset_stable_sort set_mset_mset)

lemma length_stable_sort [simp]: "length (stable_sort lt xs) = length xs"
  by (metis mset_stable_sort size_mset)

definition weak_order :: "('a \<Rightarrow> 'a \<Rightarrow> bool) \<Rightarrow> bool" where
  "weak_order lt \<longleftrightarrow> (\<forall>a b. lt a b \<longrightarrow> \<not> lt b a) \<and> (\<forall>a b c. \<not> lt b a \<longrightarrow> \<not> lt c b \<longrightarrow> \<not> lt c a)"

lemma weak_order_asym: "weak_order lt \<Longrightarrow> lt a b \<Longrightarrow> \<not> lt b a"
  unfolding weak_order_def by (drule conjunct1) blast

lemma weak_order_trans: "weak_order lt \<Longrightarrow> \<not> lt b a \<Longrightarrow> \<not> lt c b \<Longrightarrow> \<not> lt c a"
  unfolding weak_order_def by (drule conjunct2) meson

lemma weak_order_key: "weak_order (\<lambda>a b. (f a :: 'b::linorder) < f b)"
  by (auto simp: weak_order_def)

lemma sorted_insert_by:
  assumes "weak_order lt"
  shows "sorted_wrt (\<lambda>a b. \<not> lt b a) xs \<Longrightarrow> sorted_wrt (\<lambda>a b. \<not> lt b a) (insert_by lt x xs)"
proof (induction xs)
  case Nil
  show ?case by (simp add: insert_by_def)
next
  case (Cons a xs)
  show ?case
  proof (cases "lt a x")
    case True
    then have "\<not> lt x a" by (rule weak_order_asym [OF assms])
    moreover have "set (insert_by lt x xs) = insert x (set xs)"
      by (metis mset_insert_by set_mset_add_mset_insert set_mset_mset)
    ultimately show ?thesis using Cons True by (simp add: insert_by_def)
  next
    case False
    have "\<not> lt y x" if "y \<in> set (a # xs)" for y
    proof (cases "y = a")
      case neq: False
      with that Cons.prems have "\<not> lt y a" by simp
      from weak_order_trans [OF assms False this] show ?thesis .
    qed (use False in simp)
    moreover have "insert_by lt x (a # xs) = x # a # xs" using False by (simp add: insert_by_def)
    ultimately show ?thesis using Cons.prems by simp
  qed
qed

lemma sorts_by_stable_sort: "weak_order lt \<Longrightarrow> sorts_by lt (stable_sort lt)"
proof -
  assume "weak_order lt"
  then have "sorted_wrt (\<lambda>a b. \<not> lt b a) (stable_sort lt xs)" for xs
    by (induction xs) (simp_all add: stable_sort_def sorted_insert_by)
  then show ?thesis by (simp add: sorts_by_def)
qed

subsection \<open>Lists\<close>

lemma sum_list_filter_le: "sum_list (map f (filter P xs)) \<le> (sum_list (map f xs) :: nat)"
  by (induction xs) auto

lemma length_concat_filter: "length (concat (filter P xss)) \<le> length (concat xss)"
  by (induction xss) auto

lemma filter_rev_dropWhile_keep:
  "(\<forall>x \<in> set xs. p x \<longrightarrow> \<not> q x) \<Longrightarrow> filter q (rev (dropWhile p (rev xs))) = filter q xs"
proof -
  assume drop: "\<forall>x \<in> set xs. p x \<longrightarrow> \<not> q x"
  have "filter q (dropWhile p ys) = filter q ys" if "\<forall>x \<in> set ys. p x \<longrightarrow> \<not> q x" for ys
    using that by (induction ys) auto
  with drop show ?thesis by (metis rev_filter set_rev rev_rev_ident)
qed

lemma sum_list_map_upt_nth: "sum_list (map f xs) = (\<Sum>i < length xs. f (xs ! i))"
  by (simp add: sum_list_sum_nth atLeast0LessThan)

text \<open>Renumbering: the loops \<open>for i := range chunks { chunks[i].Index = i }\<close>.\<close>

definition renumber :: "(nat \<Rightarrow> 'a \<Rightarrow> 'b) \<Rightarrow> 'a list \<Rightarrow> 'b list" where
  "renumber f xs = map (\<lambda>(i, x). f i x) (enumerate 0 xs)"

lemma length_renumber [simp]: "length (renumber f xs) = length xs"
  by (simp add: renumber_def)

lemma nth_renumber [simp]: "i < length xs \<Longrightarrow> renumber f xs ! i = f i (xs ! i)"
  by (simp add: renumber_def nth_enumerate_eq)

lemma map_renumber: "(\<And>i x. g (f i x) = h x) \<Longrightarrow> map g (renumber f xs) = map h xs"
  by (rule nth_equalityI) auto

lemma renumber_Nil_iff [simp]: "renumber f xs = [] \<longleftrightarrow> xs = []"
  by (metis length_0_conv length_renumber)

lemma set_renumberE: "y \<in> set (renumber f xs) \<Longrightarrow> (\<And>i. i < length xs \<Longrightarrow> y = f i (xs ! i) \<Longrightarrow> P) \<Longrightarrow> P"
  by (auto simp: in_set_conv_nth)

end
