(* ===== verification/GoStrings.thy ===== *)
theory GoStrings
  imports Prelude
begin

text \<open>
  Go strings and the functions of the standard library's \<open>strings\<close>, \<open>unicode/utf8\<close>
  and \<open>encoding/hex\<close> packages that the modelled code calls. A Go string is a sequence of
  bytes: the model's \<open>string\<close> is a list of characters read as bytes (\<open>0 .. 255\<close>), so
  \<open>length\<close> is Go's \<open>len\<close>. Functions that look at code points decode UTF-8 the way Go
  does, an invalid byte being the rune U+FFFD of width 1.

  The one thing not written out is the table of simple lower-case mappings of the Unicode
  database (\<open>unicode.ToLower\<close> beyond ASCII): functions that fold case take it as the
  argument \<open>ul\<close>. ASCII folding is written out.
\<close>

subsection \<open>Bytes and runes\<close>

definition byte :: "char \<Rightarrow> nat" where
  "byte c = of_char c"

lemma byte_less [simp]: "byte c < 256"
  by (simp add: byte_def)

lemma byte_inject [simp]: "byte c = byte d \<longleftrightarrow> c = d"
  by (simp add: byte_def)

lemma byte_char_of [simp]: "byte (char_of n) = n mod 256"
  by (simp add: byte_def)

lemma char_of_byte [simp]: "char_of (byte c) = c"
  by (simp add: byte_def)

definition is_cont :: "char \<Rightarrow> bool" where
  "is_cont c \<longleftrightarrow> 128 \<le> byte c \<and> byte c \<le> 191"

definition rune_error :: nat where
  "rune_error = 65533"

text \<open>\<open>utf8.DecodeRuneInString\<close>: the first rune and its width.\<close>

definition decode2 :: "nat \<Rightarrow> string \<Rightarrow> nat \<times> nat" where
  "decode2 b0 cs =
     (case cs of c1 # _ \<Rightarrow>
        if is_cont c1 then ((b0 - 192) * 64 + (byte c1 - 128), 2) else (rune_error, 1)
      | [] \<Rightarrow> (rune_error, 1))"

definition decode3 :: "nat \<Rightarrow> string \<Rightarrow> nat \<times> nat" where
  "decode3 b0 cs =
     (case cs of c1 # c2 # _ \<Rightarrow>
        if is_cont c1 \<and> is_cont c2 \<and> (b0 = 224 \<longrightarrow> 160 \<le> byte c1) \<and> (b0 = 237 \<longrightarrow> byte c1 \<le> 159)
        then ((b0 - 224) * 4096 + (byte c1 - 128) * 64 + (byte c2 - 128), 3) else (rune_error, 1)
      | _ \<Rightarrow> (rune_error, 1))"

definition decode4 :: "nat \<Rightarrow> string \<Rightarrow> nat \<times> nat" where
  "decode4 b0 cs =
     (case cs of c1 # c2 # c3 # _ \<Rightarrow>
        if is_cont c1 \<and> is_cont c2 \<and> is_cont c3 \<and> (b0 = 240 \<longrightarrow> 144 \<le> byte c1)
           \<and> (b0 = 244 \<longrightarrow> byte c1 \<le> 143)
        then ((b0 - 240) * 262144 + (byte c1 - 128) * 4096 + (byte c2 - 128) * 64 + (byte c3 - 128), 4)
        else (rune_error, 1)
      | _ \<Rightarrow> (rune_error, 1))"

fun decode_rune :: "string \<Rightarrow> nat \<times> nat" where
  "decode_rune [] = (rune_error, 0)"
| "decode_rune (c # cs) =
     (let b0 = byte c in
      if b0 < 128 then (b0, 1)
      else if 194 \<le> b0 \<and> b0 \<le> 223 then decode2 b0 cs
      else if 224 \<le> b0 \<and> b0 \<le> 239 then decode3 b0 cs
      else if 240 \<le> b0 \<and> b0 \<le> 244 then decode4 b0 cs
      else (rune_error, 1))"

lemma decode_rune_width:
  "decode_rune (c # cs) = (r, w) \<Longrightarrow> 1 \<le> w \<and> w \<le> Suc (length cs)"
  by (auto simp: decode2_def decode3_def decode4_def Let_def split: if_splits list.splits)

lemma decode_rune_ascii [simp]: "byte c < 128 \<Longrightarrow> decode_rune (c # cs) = (byte c, 1)"
  by simp

declare decode_rune.simps(2) [simp del]

text \<open>\<open>for _, r := range s\<close>: the runes of a string, each with its bytes.\<close>

fun go_runes :: "string \<Rightarrow> (nat \<times> string) list" where
  "go_runes [] = []"
| "go_runes (c # cs) =
     (case decode_rune (c # cs) of (r, w) \<Rightarrow> (r, c # take (w - 1) cs) # go_runes (drop (w - 1) cs))"

lemma concat_go_runes [simp]: "concat (map snd (go_runes s)) = s"
  by (induction s rule: go_runes.induct) (auto split: prod.splits)

lemma go_runes_nonempty: "(r, b) \<in> set (go_runes s) \<Longrightarrow> b \<noteq> []"
  by (induction s rule: go_runes.induct) (auto split: prod.splits)

lemma go_runes_Nil_iff [simp]: "go_runes s = [] \<longleftrightarrow> s = []"
  by (cases s) (auto split: prod.splits)

definition is_ascii :: "string \<Rightarrow> bool" where
  "is_ascii s \<longleftrightarrow> (\<forall>c \<in> set s. byte c < 128)"

lemma go_runes_ascii: "is_ascii s \<Longrightarrow> go_runes s = map (\<lambda>c. (byte c, [c])) s"
  by (induction s) (auto simp: is_ascii_def)

lemma go_runes_ascii_Cons: "byte c < 128 \<Longrightarrow> go_runes (c # cs) = (byte c, [c]) # go_runes cs"
  by simp

text \<open>\<open>unicode.IsSpace\<close>, all of it.\<close>

definition is_space :: "nat \<Rightarrow> bool" where
  "is_space r \<longleftrightarrow> (9 \<le> r \<and> r \<le> 13) \<or> r = 32 \<or> r = 133 \<or> r = 160 \<or> r = 5760
     \<or> (8192 \<le> r \<and> r \<le> 8202) \<or> r = 8232 \<or> r = 8233 \<or> r = 8239 \<or> r = 8287 \<or> r = 12288"

text \<open>\<open>utf8.AppendRune\<close>: surrogates and values out of range are written as U+FFFD.\<close>

definition encode_rune :: "nat \<Rightarrow> string" where
  "encode_rune r0 =
     (let r = (if r0 > 1114111 \<or> (55296 \<le> r0 \<and> r0 \<le> 57343) then rune_error else r0) in
      if r < 128 then [char_of r]
      else if r < 2048 then [char_of (192 + r div 64), char_of (128 + r mod 64)]
      else if r < 65536 then
        [char_of (224 + r div 4096), char_of (128 + r div 64 mod 64), char_of (128 + r mod 64)]
      else [char_of (240 + r div 262144), char_of (128 + r div 4096 mod 64),
            char_of (128 + r div 64 mod 64), char_of (128 + r mod 64)])"

lemma encode_rune_nonempty [simp]: "encode_rune r \<noteq> []"
  by (simp add: encode_rune_def Let_def)

lemma encode_rune_ascii: "r < 128 \<Longrightarrow> encode_rune r = [char_of r]"
  by (simp add: encode_rune_def Let_def rune_error_def)

subsection \<open>Case folding\<close>

definition lower_rune :: "(nat \<Rightarrow> nat) \<Rightarrow> nat \<Rightarrow> nat" where
  "lower_rune ul r = (if r < 128 then (if 65 \<le> r \<and> r \<le> 90 then r + 32 else r) else ul r)"

text \<open>\<open>strings.ToLower\<close>.\<close>

definition go_tolower :: "(nat \<Rightarrow> nat) \<Rightarrow> string \<Rightarrow> string" where
  "go_tolower ul s = concat (map (\<lambda>(r, b). encode_rune (lower_rune ul r)) (go_runes s))"

definition lower_char :: "char \<Rightarrow> char" where
  "lower_char c = (if 65 \<le> byte c \<and> byte c \<le> 90 then char_of (byte c + 32) else c)"

lemma go_tolower_ascii: "is_ascii s \<Longrightarrow> go_tolower ul s = map lower_char s"
  by (induction s)
    (auto simp: is_ascii_def go_tolower_def encode_rune_ascii lower_rune_def lower_char_def)

lemma go_tolower_Nil_iff [simp]: "go_tolower ul s = [] \<longleftrightarrow> s = []"
  by (cases s) (simp_all add: go_tolower_def case_prod_unfold Let_def)

subsection \<open>Splitting into fields and trimming\<close>

text \<open>\<open>strings.FieldsFunc\<close> over a predicate on runes; \<open>strings.Fields\<close> is its
  instance at \<open>unicode.IsSpace\<close>.\<close>

fun fields_aux :: "(nat \<Rightarrow> bool) \<Rightarrow> (nat \<times> string) list \<Rightarrow> string \<Rightarrow> string list" where
  "fields_aux p [] cur = (if cur = [] then [] else [cur])"
| "fields_aux p ((r, b) # rs) cur =
     (if p r then (if cur = [] then fields_aux p rs [] else cur # fields_aux p rs [])
      else fields_aux p rs (cur @ b))"

definition go_fields_func :: "(nat \<Rightarrow> bool) \<Rightarrow> string \<Rightarrow> string list" where
  "go_fields_func p s = fields_aux p (go_runes s) []"

definition go_fields :: "string \<Rightarrow> string list" where
  "go_fields s = go_fields_func is_space s"

lemma fields_aux_nonempty: "w \<in> set (fields_aux p rs cur) \<Longrightarrow> w \<noteq> []"
  by (induction p rs cur rule: fields_aux.induct) (auto split: if_splits)

lemma go_fields_func_nonempty: "w \<in> set (go_fields_func p s) \<Longrightarrow> w \<noteq> []"
  by (simp add: go_fields_func_def fields_aux_nonempty)

lemma go_fields_nonempty: "w \<in> set (go_fields s) \<Longrightarrow> w \<noteq> []"
  by (simp add: go_fields_def go_fields_func_nonempty)

lemma go_fields_Nil [simp]: "go_fields [] = []"
  by (simp add: go_fields_def go_fields_func_def)

lemma fields_aux_length:
  "length (concat (fields_aux p rs cur)) \<le> length cur + length (concat (map snd rs))"
  by (induction p rs cur rule: fields_aux.induct) auto

lemma go_fields_func_length [go_bounds]: "length (concat (go_fields_func p s)) \<le> length s"
  using fields_aux_length [of p "go_runes s" "[]"] by (simp add: go_fields_func_def)

text \<open>\<open>strings.TrimSpace\<close>.\<close>

definition go_trim_space :: "string \<Rightarrow> string" where
  "go_trim_space s = concat (map snd
     (rev (dropWhile (is_space \<circ> fst) (rev (dropWhile (is_space \<circ> fst) (go_runes s))))))"

lemma suffix_dropWhile': "suffix (dropWhile p xs) xs"
  by (rule suffix_dropWhile)

lemma go_trim_space_sublist: "sublist (go_trim_space s) s"
proof -
  let ?d = "dropWhile (is_space \<circ> fst) (go_runes s)"
  let ?e = "rev (dropWhile (is_space \<circ> fst) (rev ?d))"
  have "suffix ?d (go_runes s)" by (rule suffix_dropWhile)
  then obtain a where a: "go_runes s = a @ ?d" by (auto simp: suffix_def)
  have "suffix (dropWhile (is_space \<circ> fst) (rev ?d)) (rev ?d)" by (rule suffix_dropWhile)
  then obtain z where "rev ?d = z @ dropWhile (is_space \<circ> fst) (rev ?d)" by (auto simp: suffix_def)
  then have z: "?d = ?e @ rev z" by (metis rev_append rev_rev_ident)
  have "s = concat (map snd (go_runes s))" by simp
  also have "\<dots> = concat (map snd a) @ concat (map snd ?e) @ concat (map snd (rev z))"
    by (subst a, subst z) simp
  finally show ?thesis unfolding go_trim_space_def sublist_def by blast
qed

lemma go_trim_space_length [go_bounds]: "length (go_trim_space s) \<le> length s"
  by (rule sublist_length_le) (rule go_trim_space_sublist)

text \<open>\<open>strings.TrimRight\<close> and \<open>strings.TrimLeft\<close> with a cutset of ASCII bytes.\<close>

definition go_trim_right :: "string \<Rightarrow> string \<Rightarrow> string" where
  "go_trim_right s cs = rev (dropWhile (\<lambda>c. c \<in> set cs) (rev s))"

definition go_trim_left :: "string \<Rightarrow> string \<Rightarrow> string" where
  "go_trim_left s cs = dropWhile (\<lambda>c. c \<in> set cs) s"

lemma go_trim_right_prefix: "prefix (go_trim_right s cs) s"
  using suffix_dropWhile [of "\<lambda>c. c \<in> set cs" "rev s"]
  by (simp add: go_trim_right_def suffix_to_prefix)

lemma go_trim_right_length [go_bounds]: "length (go_trim_right s cs) \<le> length s"
  by (rule prefix_length_le) (rule go_trim_right_prefix)

lemma go_trim_right_take: "go_trim_right s cs = take (length (go_trim_right s cs)) s"
  using go_trim_right_prefix [of s cs] by (simp add: prefix_def) (metis append_eq_conv_conj)

subsection \<open>Searching\<close>

definition go_has_prefix :: "string \<Rightarrow> string \<Rightarrow> bool" where
  "go_has_prefix s p \<longleftrightarrow> prefix p s"

definition go_has_suffix :: "string \<Rightarrow> string \<Rightarrow> bool" where
  "go_has_suffix s p \<longleftrightarrow> suffix p s"

text \<open>\<open>strings.Index\<close>: the offset of the first occurrence.\<close>

fun go_index :: "string \<Rightarrow> string \<Rightarrow> nat option" where
  "go_index [] sub = (if sub = [] then Some 0 else None)"
| "go_index (c # cs) sub = (if prefix sub (c # cs) then Some 0 else map_option Suc (go_index cs sub))"

definition go_contains :: "string \<Rightarrow> string \<Rightarrow> bool" where
  "go_contains s sub \<longleftrightarrow> go_index s sub \<noteq> None"

lemma go_index_Some: "go_index s sub = Some i \<Longrightarrow> i + length sub \<le> length s \<and> subseg s i (i + length sub) = sub"
proof (induction s sub arbitrary: i rule: go_index.induct)
  case (1 sub)
  then show ?case by (auto simp: subseg_def split: if_splits)
next
  case (2 c cs sub)
  show ?case
  proof (cases "prefix sub (c # cs)")
    case True
    with 2 have "i = 0" by simp
    with True show ?thesis by (auto simp: subseg_def prefix_def) (metis append_eq_conv_conj length_append le_add1 length_Cons)
  next
    case False
    with "2.prems" obtain j where "i = Suc j" "go_index cs sub = Some j" by auto
    with "2.IH" [OF False] show ?thesis by (auto simp: subseg_def)
  qed
qed

lemma go_contains_iff_sublist: "go_contains s sub \<longleftrightarrow> sublist sub s"
proof -
  have "go_index s sub = None \<longleftrightarrow> \<not> sublist sub s"
    by (induction s sub rule: go_index.induct) (auto simp: sublist_Cons_right)
  then show ?thesis by (auto simp: go_contains_def)
qed

text \<open>\<open>strings.Split\<close> with a non-empty separator, and \<open>strings.Join\<close>.\<close>

function split_aux :: "string \<Rightarrow> string \<Rightarrow> string \<Rightarrow> string list" where
  "split_aux sep [] cur = [cur]"
| "split_aux sep (c # cs) cur =
     (if sep \<noteq> [] \<and> prefix sep (c # cs) then cur # split_aux sep (drop (length sep) (c # cs)) []
      else split_aux sep cs (cur @ [c]))"
  by pat_completeness auto
termination
  by (relation "measure (\<lambda>(sep, s, cur). length s)") (auto simp: neq_Nil_conv)

definition go_split :: "string \<Rightarrow> string \<Rightarrow> string list" where
  "go_split s sep = split_aux sep s []"

fun go_join :: "string list \<Rightarrow> string \<Rightarrow> string" where
  "go_join [] sep = []"
| "go_join [x] sep = x"
| "go_join (x # y # ys) sep = x @ sep @ go_join (y # ys) sep"

lemma split_aux_not_Nil [simp]: "split_aux sep s cur \<noteq> []"
  by (induction sep s cur rule: split_aux.induct) auto

lemma go_split_not_Nil [simp]: "go_split s sep \<noteq> []"
  by (simp add: go_split_def)

lemma go_join_Cons: "ys \<noteq> [] \<Longrightarrow> go_join (x # ys) sep = x @ sep @ go_join ys sep"
  by (cases ys) auto

lemma prefix_append_drop: "prefix p xs \<Longrightarrow> p @ drop (length p) xs = xs"
  by (auto simp: prefix_def)

lemma join_split_aux: "sep \<noteq> [] \<Longrightarrow> go_join (split_aux sep s cur) sep = cur @ s"
proof (induction sep s cur rule: split_aux.induct)
  case (1 sep cur)
  then show ?case by simp
next
  case (2 sep c cs cur)
  show ?case
  proof (cases "prefix sep (c # cs)")
    case True
    then have "sep @ drop (length sep) (c # cs) = c # cs"
      by (rule prefix_append_drop)
    with 2 True show ?thesis by (simp add: go_join_Cons del: drop.simps drop_Cons')
  next
    case False
    with 2 show ?thesis by simp
  qed
qed

lemma join_split [simp]: "sep \<noteq> [] \<Longrightarrow> go_join (go_split s sep) sep = s"
  by (simp add: go_split_def join_split_aux)

text \<open>\<open>strings.Cut\<close>: the text before and after the first separator.\<close>

definition go_cut :: "string \<Rightarrow> string \<Rightarrow> string \<times> string \<times> bool" where
  "go_cut s sep = (case go_index s sep of
       Some i \<Rightarrow> (take i s, drop (i + length sep) s, True)
     | None \<Rightarrow> (s, [], False))"

subsection \<open>Decimal numbers\<close>

text \<open>The \<open>%d\<close> verb on a non-negative integer.\<close>

fun go_itoa :: "nat \<Rightarrow> string" where
  "go_itoa n = (if n < 10 then [char_of (48 + n)] else go_itoa (n div 10) @ [char_of (48 + n mod 10)])"

declare go_itoa.simps [simp del]

lemma go_itoa_not_Nil [simp]: "go_itoa n \<noteq> []"
  by (subst go_itoa.simps) simp

subsection \<open>Hexadecimal digests\<close>

definition is_lower_hex :: "char \<Rightarrow> bool" where
  "is_lower_hex c \<longleftrightarrow> (48 \<le> byte c \<and> byte c \<le> 57) \<or> (97 \<le> byte c \<and> byte c \<le> 102)"

definition is_hex :: "char \<Rightarrow> bool" where
  "is_hex c \<longleftrightarrow> is_lower_hex c \<or> (65 \<le> byte c \<and> byte c \<le> 70)"

end
