(* ===== verification/StoreTypes.thy ===== *)
theory StoreTypes
  imports Complex_Main GoStrings
begin

text \<open>
  The data of \<open>store.go\<close>: formats, sources, chunks, search parameters and matches, statistics.
  Byte counts and identifiers are naturals: they count bytes held in memory and saved records, so
  they stay far below the 63 bits Go gives them. A relevance score is the exact quotient the code
  computes in \<open>float64\<close>.
\<close>

text \<open>\<open>Format\<close> is an integer type with four named values; any other value behaves as
  \<open>FormatOther\<close>.\<close>

datatype format = FormatMarkdown | FormatJSON | FormatPlainText | FormatYAML | FormatOther int

fun format_string :: "format \<Rightarrow> string" where
  "format_string FormatMarkdown = ''markdown''"
| "format_string FormatJSON = ''json''"
| "format_string FormatPlainText = ''plaintext''"
| "format_string FormatYAML = ''yaml''"
| "format_string (FormatOther _) = ''unknown''"

record source =
  src_id :: nat
  src_label :: string
  src_format :: format
  src_bytes_indexed :: nat
  src_chunk_count :: nat

record chunk =
  ck_id :: nat
  ck_source_id :: nat
  ck_heading_path :: string
  ck_content :: string
  ck_content_type :: string
  ck_format :: format
  ck_byte_start :: nat
  ck_byte_end :: nat

record search_params =
  sp_query :: string
  sp_limit :: int
  sp_source_filter :: string

record search_match =
  sm_chunk_id :: nat
  sm_source_id :: nat
  sm_heading_path :: string
  sm_content :: string
  sm_content_type :: string
  sm_score :: rat
  sm_match_layer :: string

record store_stats =
  ss_chunk_count :: nat
  ss_source_count :: nat
  ss_bytes_indexed :: nat

end
