(* ===== verification/Chunking.thy ===== *)
theory Chunking
  imports StoreTypes
begin

text \<open>
  \<open>chunk.go\<close>: plain-text chunking, paragraph splitting that keeps fenced code blocks whole, the
  heading sections of a Markdown document and the chunks made from them. The Markdown parser is a
  third-party package: a document is what the code reads of its syntax tree, the heading nodes in
  document order, and the parser is the parameter \<open>md\<close> of the definitions that call it.
  The structured formats are in \<open>StructuredChunks\<close>.
\<close>

subsection \<open>Chunks and their configuration\<close>

definition default_max_chunk_bytes :: nat where
  "default_max_chunk_bytes = 4096"

record content_chunk =
  cc_content :: string
  cc_heading_path :: string
  cc_content_type :: string
  cc_start_byte :: nat
  cc_end_byte :: nat
  cc_index :: nat

record chunk_config =
  cf_max_chunk_bytes :: nat
  cf_format :: format

definition default_chunk_config :: chunk_config where
  "default_chunk_config = \<lparr>cf_max_chunk_bytes = default_max_chunk_bytes, cf_format = FormatMarkdown\<rparr>"

definition with_max_chunk_bytes :: "int \<Rightarrow> chunk_config \<Rightarrow> chunk_config" where
  "with_max_chunk_bytes n c = (if n > 0 then c\<lparr>cf_max_chunk_bytes := nat n\<rparr> else c)"

definition with_chunk_format :: "format \<Rightarrow> chunk_config \<Rightarrow> chunk_config" where
  "with_chunk_format f c = c\<lparr>cf_format := f\<rparr>"

abbreviation nl :: char where
  "nl \<equiv> CHR 0x0A"

definition para_sep :: string where
  "para_sep = [nl, nl]"

definition code_fence :: string where
  "code_fence = replicate 3 (CHR 0x60)"

lemma length_para_sep [simp]: "length para_sep = 2"
  by (simp add: para_sep_def)

definition mk_chunk :: "string \<Rightarrow> string \<Rightarrow> string \<Rightarrow> nat \<Rightarrow> nat \<Rightarrow> content_chunk" where
  "mk_chunk text path ctype s e = \<lparr>cc_content = text, cc_heading_path = path,
     cc_content_type = ctype, cc_start_byte = s, cc_end_byte = e, cc_index = 0\<rparr>"

lemma mk_chunk_sel [simp]:
  "cc_content (mk_chunk t p c s e) = t" "cc_heading_path (mk_chunk t p c s e) = p"
  "cc_content_type (mk_chunk t p c s e) = c" "cc_start_byte (mk_chunk t p c s e) = s"
  "cc_end_byte (mk_chunk t p c s e) = e" "cc_index (mk_chunk t p c s e) = 0"
  by (simp_all add: mk_chunk_def)

definition assign_indices :: "content_chunk list \<Rightarrow> content_chunk list" where
  "assign_indices cs = renumber (\<lambda>i c. c\<lparr>cc_index := i\<rparr>) cs"

text \<open>The loop \<open>for off := 0; off < len(p); off += maxBytes\<close> that cuts an oversized paragraph by
  bytes: the pieces with their start and end. The size is positive in every call.\<close>

function force_split :: "string \<Rightarrow> nat \<Rightarrow> nat \<Rightarrow> (nat \<times> nat \<times> string) list" where
  "force_split p m off =
     (if off < length p \<and> 0 < m then
        (let e = min (off + m) (length p) in (off, e, subseg p off e) # force_split p m (off + m))
      else [])"
  by pat_completeness auto
termination
  by (relation "measure (\<lambda>(p, m, off). length p - off)") auto

declare force_split.simps [simp del]

subsection \<open>Plain text\<close>

record plain_state =
  ps_chunks :: "content_chunk list"
  ps_current :: string
  ps_offset :: nat
  ps_segment_start :: nat

definition plain_force :: "nat \<Rightarrow> string \<Rightarrow> nat \<Rightarrow> content_chunk list" where
  "plain_force m p off =
     map (\<lambda>(a, b, t). mk_chunk t [] ''prose'' (off + a) (off + b)) (force_split p m 0)"

text \<open>One turn of the loop over the paragraphs; \<open>lst\<close> says that the paragraph is the last one.\<close>

definition plain_step :: "nat \<Rightarrow> bool \<Rightarrow> string \<Rightarrow> plain_state \<Rightarrow> plain_state" where
  "plain_step m lst p0 st =
     (let p = go_trim_space p0; adv = (if lst then 0 else 2 :: nat); off = ps_offset st in
      if p = [] then st\<lparr>ps_offset := off + adv\<rparr>
      else if ps_current st = [] then
        (let st = st\<lparr>ps_segment_start := off\<rparr> in
         if m < length p
         then st\<lparr>ps_chunks := ps_chunks st @ plain_force m p off, ps_offset := off + length p + adv\<rparr>
         else st\<lparr>ps_current := p, ps_offset := off + length p + adv\<rparr>)
      else if m < length (ps_current st) + 2 + length p then
        (let seg = ps_segment_start st;
             st = st\<lparr>ps_chunks := ps_chunks st @
                       [mk_chunk (ps_current st) [] ''prose'' seg (seg + length (ps_current st))],
                     ps_current := [], ps_segment_start := off\<rparr> in
         if m < length p
         then st\<lparr>ps_chunks := ps_chunks st @ plain_force m p off, ps_offset := off + length p + adv\<rparr>
         else st\<lparr>ps_current := p, ps_offset := off + length p + adv\<rparr>)
      else st\<lparr>ps_current := ps_current st @ para_sep @ p, ps_offset := off + 2 + length p + adv\<rparr>)"

fun plain_loop :: "nat \<Rightarrow> string list \<Rightarrow> plain_state \<Rightarrow> plain_state" where
  "plain_loop m [] st = st"
| "plain_loop m (p # ps) st = plain_loop m ps (plain_step m (ps = []) p st)"

definition plain_init :: plain_state where
  "plain_init = \<lparr>ps_chunks = [], ps_current = [], ps_offset = 0, ps_segment_start = 0\<rparr>"

definition plain_finish :: "plain_state \<Rightarrow> content_chunk list" where
  "plain_finish st =
     (if ps_current st = [] then ps_chunks st
      else ps_chunks st @ [mk_chunk (ps_current st) [] ''prose'' (ps_segment_start st)
                             (ps_segment_start st + length (ps_current st))])"

definition chunk_plain_text :: "string \<Rightarrow> nat \<Rightarrow> content_chunk list" where
  "chunk_plain_text content m =
     assign_indices (plain_finish (plain_loop m (go_split content para_sep) plain_init))"

subsection \<open>Fence-preserving paragraphs\<close>

record fence_state =
  fs_parts :: "string list"
  fs_current :: string
  fs_in_fence :: bool
  fs_prev_empty :: bool

definition fence_line :: "string \<Rightarrow> bool" where
  "fence_line trimmed = go_has_prefix trimmed code_fence"

definition flush_part :: "string list \<Rightarrow> string \<Rightarrow> string list" where
  "flush_part parts cur =
     (let text = go_trim_right cur [nl] in if text = [] then parts else parts @ [text])"

definition fence_step :: "string \<Rightarrow> fence_state \<Rightarrow> fence_state" where
  "fence_step line st =
     (let trimmed = go_trim_space line;
          in_fence = (if fence_line trimmed then \<not> fs_in_fence st else fs_in_fence st);
          is_empty = (trimmed = []) in
      if \<not> in_fence \<and> is_empty \<and> fs_prev_empty st then
        \<lparr>fs_parts = flush_part (fs_parts st) (fs_current st), fs_current = [],
         fs_in_fence = in_fence, fs_prev_empty = False\<rparr>
      else
        \<lparr>fs_parts = fs_parts st,
         fs_current =
           (if fs_current st \<noteq> [] \<or> \<not> is_empty
            then (if fs_current st \<noteq> [] then fs_current st @ [nl] else []) @ line
            else fs_current st),
         fs_in_fence = in_fence, fs_prev_empty = is_empty\<rparr>)"

definition split_preserving_code_blocks :: "string \<Rightarrow> string list" where
  "split_preserving_code_blocks content =
     (let st = fold fence_step (go_split content [nl])
                 \<lparr>fs_parts = [], fs_current = [], fs_in_fence = False, fs_prev_empty = False\<rparr>
      in if fs_current st = [] then fs_parts st else flush_part (fs_parts st) (fs_current st))"

record sub_chunk =
  sc_text :: string
  sc_offset :: nat

record para_state =
  pp_result :: "sub_chunk list"
  pp_current :: string
  pp_offset :: nat
  pp_segment_start :: nat

definition sub_force :: "nat \<Rightarrow> string \<Rightarrow> nat \<Rightarrow> sub_chunk list" where
  "sub_force m p off =
     map (\<lambda>(a, b, t). \<lparr>sc_text = t, sc_offset = off + a\<rparr>) (force_split p m 0)"

definition para_step :: "nat \<Rightarrow> string \<Rightarrow> para_state \<Rightarrow> para_state" where
  "para_step m p st =
     (let fence = go_contains p code_fence; off = pp_offset st in
      if pp_current st = [] then
        (if m < length p \<and> \<not> fence
         then st\<lparr>pp_result := pp_result st @ sub_force m p off,
                 pp_offset := off + length p, pp_segment_start := off + length p\<rparr>
         else st\<lparr>pp_current := p, pp_segment_start := off, pp_offset := off + length p\<rparr>)
      else if m < length (pp_current st) + 2 + length p then
        (let st = st\<lparr>pp_result := pp_result st @
                       [\<lparr>sc_text = pp_current st, sc_offset = pp_segment_start st\<rparr>],
                     pp_current := []\<rparr> in
         if m < length p \<and> \<not> fence
         then st\<lparr>pp_result := pp_result st @ sub_force m p off,
                 pp_offset := off + length p, pp_segment_start := off + length p\<rparr>
         else st\<lparr>pp_segment_start := off, pp_current := p, pp_offset := off + length p\<rparr>)
      else st\<lparr>pp_current := pp_current st @ para_sep @ p, pp_offset := off + 2 + length p\<rparr>)"

definition para_finish :: "para_state \<Rightarrow> sub_chunk list" where
  "para_finish st =
     (if pp_current st = [] then pp_result st
      else pp_result st @ [\<lparr>sc_text = pp_current st, sc_offset = pp_segment_start st\<rparr>])"

definition split_on_paragraphs :: "string \<Rightarrow> nat \<Rightarrow> sub_chunk list" where
  "split_on_paragraphs content m =
     para_finish (fold (para_step m) (split_preserving_code_blocks content)
       \<lparr>pp_result = [], pp_current = [], pp_offset = 0, pp_segment_start = 0\<rparr>)"

subsection \<open>Markdown sections\<close>

text \<open>
  What the code reads of a heading node: its level, the values of its text children (\<open>None\<close> for
  a child of another kind) and the start of its first line, when it has lines.
\<close>

record heading_node =
  hn_level :: nat
  hn_children :: "string option list"
  hn_first_line :: "nat option"

record heading_info =
  hi_level :: nat
  hi_text :: string
  hi_pos :: nat

definition extract_text :: "heading_node \<Rightarrow> string" where
  "extract_text h = concat (map (\<lambda>c. case c of Some v \<Rightarrow> v | None \<Rightarrow> []) (hn_children h))"

text \<open>The walk back to the start of the line; reading \<open>source[startByte-1]\<close> is checked.\<close>

fun line_start :: "string \<Rightarrow> nat \<Rightarrow> nat option" where
  "line_start s 0 = Some 0"
| "line_start s (Suc b) = do {
     c \<leftarrow> go_nth s b;
     if c \<noteq> nl then line_start s b else Some (Suc b)
   }"

definition heading_info_of :: "string \<Rightarrow> heading_node \<Rightarrow> heading_info option" where
  "heading_info_of source h = do {
     pos \<leftarrow> line_start source (case hn_first_line h of Some b \<Rightarrow> b | None \<Rightarrow> 0);
     Some \<lparr>hi_level = hn_level h, hi_text = extract_text h, hi_pos = pos\<rparr>
   }"

fun collect_headings :: "string \<Rightarrow> heading_node list \<Rightarrow> heading_info list option" where
  "collect_headings source [] = Some []"
| "collect_headings source (h # hs) = do {
     i \<leftarrow> heading_info_of source h;
     is \<leftarrow> collect_headings source hs;
     Some (i # is)
   }"

text \<open>\<open>detectContentType\<close>. The quotient of two byte counts below \<open>2 ^ 52\<close> exceeds 0.5 in \<open>float64\<close>
  exactly when twice the first exceeds the second.\<close>

fun code_bytes :: "string list \<Rightarrow> bool \<Rightarrow> nat" where
  "code_bytes [] in_fence = 0"
| "code_bytes (line # lines) in_fence =
     (if fence_line (go_trim_space line) then code_bytes lines (\<not> in_fence)
      else (if in_fence then length line + 1 else 0) + code_bytes lines in_fence)"

definition detect_content_type :: "string \<Rightarrow> string" where
  "detect_content_type content =
     (if content \<noteq> [] \<and> length content < 2 * code_bytes (go_split content [nl]) False
      then ''code'' else ''prose'')"

record section_info =
  sec_heading_path :: string
  sec_content :: string
  sec_content_type :: string
  sec_start_byte :: nat
  sec_end_byte :: nat

definition trim_cutset :: string where
  "trim_cutset = [CHR 0x0A, CHR 0x0D, CHR 0x09, CHR 0x20]"

definition path_sep :: string where
  "path_sep = '' > ''"

text \<open>The two parallel stacks are one list of levels and texts, the top first.\<close>

definition push_heading :: "heading_info \<Rightarrow> (nat \<times> string) list \<Rightarrow> (nat \<times> string) list" where
  "push_heading h stack = (hi_level h, hi_text h) # dropWhile (\<lambda>(l, _). hi_level h \<le> l) stack"

definition stack_path :: "(nat \<times> string) list \<Rightarrow> string" where
  "stack_path stack = go_join (map snd (rev stack)) path_sep"

definition mk_section :: "string \<Rightarrow> string \<Rightarrow> nat \<Rightarrow> section_info" where
  "mk_section path content start =
     \<lparr>sec_heading_path = path, sec_content = content, sec_content_type = detect_content_type content,
      sec_start_byte = start, sec_end_byte = start + length content\<rparr>"

fun sections_loop :: "string \<Rightarrow> heading_info list \<Rightarrow> (nat \<times> string) list \<Rightarrow> section_info list option" where
  "sections_loop source [] stack = Some []"
| "sections_loop source (h # hs) stack = do {
     let stack' = push_heading h stack;
     body \<leftarrow> go_slice source (hi_pos h) (case hs of [] \<Rightarrow> length source | h2 # _ \<Rightarrow> hi_pos h2);
     let content = go_trim_right body trim_cutset;
     rest \<leftarrow> sections_loop source hs stack';
     Some (if content = [] then rest else mk_section (stack_path stack') content (hi_pos h) # rest)
   }"

definition pre_section :: "string \<Rightarrow> nat \<Rightarrow> section_info list option" where
  "pre_section source pos =
     (if 0 < pos then do {
        body \<leftarrow> go_slice source 0 pos;
        let content = go_trim_right body trim_cutset;
        Some (if content = [] then [] else [mk_section [] content 0])
      } else Some [])"

definition extract_sections :: "string \<Rightarrow> heading_node list \<Rightarrow> section_info list option" where
  "extract_sections source nodes = do {
     headings \<leftarrow> collect_headings source nodes;
     (case headings of [] \<Rightarrow> Some []
      | h # _ \<Rightarrow> do {
          sections \<leftarrow> sections_loop source headings [];
          pre \<leftarrow> pre_section source (hi_pos h);
          Some (pre @ sections)
        })
   }"

definition section_chunks :: "nat \<Rightarrow> section_info \<Rightarrow> content_chunk list" where
  "section_chunks m sec =
     (if length (sec_content sec) \<le> m
      then [mk_chunk (sec_content sec) (sec_heading_path sec) (sec_content_type sec)
              (sec_start_byte sec) (sec_end_byte sec)]
      else map (\<lambda>s. mk_chunk (sc_text s) (sec_heading_path sec) (sec_content_type sec)
                 (sec_start_byte sec + sc_offset s)
                 (sec_start_byte sec + sc_offset s + length (sc_text s)))
             (split_on_paragraphs (sec_content sec) m))"

definition chunk_markdown ::
  "(string \<Rightarrow> heading_node list) \<Rightarrow> string \<Rightarrow> nat \<Rightarrow> content_chunk list option" where
  "chunk_markdown md content m = do {
     sections \<leftarrow> extract_sections content (md content);
     Some (if sections = [] then chunk_plain_text content m
           else assign_indices (concat (map (section_chunks m) sections)))
   }"

subsection \<open>Byte-wise pieces\<close>

text \<open>The reference for the forced split: consecutive pieces of \<open>m\<close> bytes.\<close>

fun pieces :: "nat \<Rightarrow> string \<Rightarrow> string list" where
  "pieces m p = (if p = [] \<or> m = 0 then [] else take m p # pieces m (drop m p))"

declare pieces.simps [simp del]

lemma pieces_Nil [simp]: "pieces m [] = []"
  by (simp add: pieces.simps)

lemma force_split_drop:
  "0 < m \<Longrightarrow> map (\<lambda>(a, b, t). t) (force_split p m off) = pieces m (drop off p)"
proof (induction p m off rule: force_split.induct)
  case (1 p m off)
  show ?case
  proof (cases "off < length p")
    case True
    with 1 have "map (\<lambda>(a, b, t). t) (force_split p m off)
        = subseg p off (min (off + m) (length p)) # pieces m (drop (off + m) p)"
      by (simp add: force_split.simps [of p m off] Let_def)
    moreover have "subseg p off (min (off + m) (length p)) = take m (drop off p)"
      using True by (simp add: subseg_def min_def)
    ultimately show ?thesis
      using True "1.prems" by (simp add: pieces.simps [of m "drop off p"] add.commute)
  next
    case False
    then show ?thesis by (simp add: force_split.simps [of p m off])
  qed
qed

lemma force_split_texts: "0 < m \<Longrightarrow> map (\<lambda>(a, b, t). t) (force_split p m 0) = pieces m p"
  by (simp add: force_split_drop)

lemma force_split_range:
  "(a, b, t) \<in> set (force_split p m off) \<Longrightarrow> b = a + length t \<and> b \<le> length p \<and> t = subseg p a b"
proof (induction p m off rule: force_split.induct)
  case (1 p m off)
  show ?case
  proof (cases "off < length p \<and> 0 < m")
    case True
    with "1.prems" have "(a, b, t) \<in> set (force_split p m (off + m))
        \<or> a = off \<and> b = min (off + m) (length p) \<and> t = subseg p a b"
      by (auto simp: force_split.simps [of p m off] Let_def)
    with "1.IH" True show ?thesis by auto
  next
    case False
    with "1.prems" show ?thesis by (simp add: force_split.simps [of p m off])
  qed
qed

lemma pieces_bound: "t \<in> set (pieces m p) \<Longrightarrow> t \<noteq> [] \<and> length t \<le> m"
  by (induction m p rule: pieces.induct) (subst (asm) (2) pieces.simps, auto split: if_splits)

lemma concat_pieces: "0 < m \<Longrightarrow> concat (pieces m p) = p"
  by (induction m p rule: pieces.induct) (subst pieces.simps, auto)

subsection \<open>Plain text is packed greedily\<close>

text \<open>
  The specification of plain-text chunking on the trimmed non-empty paragraphs: paragraphs are
  joined by a blank line while the result fits, a paragraph that cannot fit is cut into pieces.
\<close>

fun pack :: "nat \<Rightarrow> string list \<Rightarrow> string \<Rightarrow> string list" where
  "pack m [] cur = (if cur = [] then [] else [cur])"
| "pack m (p # ps) cur =
     (if cur \<noteq> [] \<and> length cur + 2 + length p \<le> m then pack m ps (cur @ para_sep @ p)
      else (if cur = [] then [] else [cur]) @
           (if m < length p then pieces m p @ pack m ps [] else pack m ps p))"

definition paragraphs :: "string \<Rightarrow> string list" where
  "paragraphs content = filter (\<lambda>p. p \<noteq> []) (map go_trim_space (go_split content para_sep))"

lemma plain_force_contents [simp]: "0 < m \<Longrightarrow> map cc_content (plain_force m p off) = pieces m p"
  unfolding plain_force_def using force_split_texts [of m p]
  by (simp add: comp_def case_prod_unfold)

lemma plain_loop_pack:
  "0 < m \<Longrightarrow> map cc_content (plain_finish (plain_loop m ps st)) =
     map cc_content (ps_chunks st) @ pack m (filter (\<lambda>p. p \<noteq> []) (map go_trim_space ps)) (ps_current st)"
proof (induction ps arbitrary: st)
  case Nil
  then show ?case by (simp add: plain_finish_def)
next
  case (Cons p ps)
  then show ?case by (auto simp: plain_step_def Let_def)
qed

lemma pack_bound:
  "t \<in> set (pack m ps cur) \<Longrightarrow> length cur \<le> m \<Longrightarrow> t \<noteq> [] \<and> length t \<le> m"
  by (induction m ps cur rule: pack.induct) (auto split: if_splits dest: pieces_bound)

lemma pack_keeps_text:
  "0 < m \<Longrightarrow> filter (\<lambda>c. c \<noteq> nl) (concat (pack m ps cur)) = filter (\<lambda>c. c \<noteq> nl) (cur @ concat ps)"
  by (induction m ps cur rule: pack.induct) (auto simp: concat_pieces para_sep_def)

lemma assign_indices_nth [simp]:
  "i < length cs \<Longrightarrow> assign_indices cs ! i = (cs ! i)\<lparr>cc_index := i\<rparr>"
  by (simp add: assign_indices_def)

lemma length_assign_indices [simp]: "length (assign_indices cs) = length cs"
  by (simp add: assign_indices_def)

lemma assign_indices_content [simp]: "map cc_content (assign_indices cs) = map cc_content cs"
  unfolding assign_indices_def by (rule map_renumber) simp

lemma set_assign_indicesE:
  "c \<in> set (assign_indices cs) \<Longrightarrow> (\<And>i d. d \<in> set cs \<Longrightarrow> c = d\<lparr>cc_index := i\<rparr> \<Longrightarrow> P) \<Longrightarrow> P"
  unfolding assign_indices_def by (erule set_renumberE) (metis nth_mem)

text \<open>Plain-text chunking refines greedy packing: the contents of the chunks are exactly the
  trimmed non-empty paragraphs packed in order, and the chunks are numbered from zero.\<close>

theorem chunk_plain_text_packs:
  assumes "0 < m"
  shows "map cc_content (chunk_plain_text content m) = pack m (paragraphs content) []
     \<and> (\<forall>i < length (chunk_plain_text content m). cc_index (chunk_plain_text content m ! i) = i)"
  using assms
  by (simp_all add: chunk_plain_text_def paragraphs_def plain_loop_pack plain_init_def)

text \<open>No plain-text chunk is empty or longer than the limit, and nothing but line breaks is lost:
  the chunks hold the bytes of the paragraphs in order.\<close>

theorem chunk_plain_text_bounded_lossless:
  assumes "0 < m"
  shows "(\<forall>c \<in> set (chunk_plain_text content m). cc_content c \<noteq> [] \<and> length (cc_content c) \<le> m)
     \<and> filter (\<lambda>c. c \<noteq> nl) (concat (map cc_content (chunk_plain_text content m)))
       = filter (\<lambda>c. c \<noteq> nl) (concat (paragraphs content))"
proof -
  have eq: "map cc_content (chunk_plain_text content m) = pack m (paragraphs content) []"
    using assms by (simp add: chunk_plain_text_def paragraphs_def plain_loop_pack plain_init_def)
  have "cc_content c \<noteq> [] \<and> length (cc_content c) \<le> m" if "c \<in> set (chunk_plain_text content m)" for c
  proof -
    from that have "cc_content c \<in> set (pack m (paragraphs content) [])"
      by (metis eq image_eqI list.set_map)
    then show ?thesis by (rule pack_bound) simp
  qed
  then show ?thesis using pack_keeps_text [OF assms, of "paragraphs content" "[]"] by (simp add: eq)
qed

theorem chunk_plain_text_packs_witness:
  "map cc_content (chunk_plain_text [CHR ''a'', nl, nl, CHR ''b''] 8) = [[CHR ''a'', nl, nl, CHR ''b'']]"
proof -
  have "map cc_content (chunk_plain_text [CHR ''a'', nl, nl, CHR ''b''] 8)
      = pack 8 (paragraphs [CHR ''a'', nl, nl, CHR ''b'']) []"
    using chunk_plain_text_packs [of 8] by simp
  moreover have "pack 8 (paragraphs [CHR ''a'', nl, nl, CHR ''b'']) [] = [[CHR ''a'', nl, nl, CHR ''b'']]"
    by code_simp
  ultimately show ?thesis by simp
qed

theorem chunk_plain_text_bounded_lossless_witness:
  "length (cc_content (chunk_plain_text ''abcdef'' 4 ! 1)) \<le> 4 \<and> length (chunk_plain_text ''abcdef'' 4) = 2"
proof -
  have n: "length (chunk_plain_text ''abcdef'' 4) = 2" by code_simp
  then have "chunk_plain_text ''abcdef'' 4 ! 1 \<in> set (chunk_plain_text ''abcdef'' 4)" by simp
  with chunk_plain_text_bounded_lossless [of 4 "''abcdef''"] n show ?thesis by simp
qed

text \<open>The byte offsets of plain-text chunks drift: when paragraphs are merged, the separator is
  counted twice, so a later chunk can claim a range past the end of the content, and its range does
  not hold its text.\<close>

theorem chunk_plain_text_offsets_drift:
  "let content = ''a'' @ para_sep @ ''b'' @ para_sep @ ''cdef''; c = chunk_plain_text content 4 ! 1 in
     cc_content c = ''cdef'' \<and> length content = 10 \<and> cc_start_byte c = 8 \<and> cc_end_byte c = 12
     \<and> subseg content 6 10 = ''cdef''"
  by code_simp

subsection \<open>Paragraph splitting of Markdown sections\<close>

definition piece_ok :: "nat \<Rightarrow> string \<Rightarrow> bool" where
  "piece_ok m t \<longleftrightarrow> length t \<le> m \<or> go_contains t code_fence"

lemma sub_force_ok: "0 < m \<Longrightarrow> s \<in> set (sub_force m p off) \<Longrightarrow> piece_ok m (sc_text s)"
proof -
  assume "0 < m" "s \<in> set (sub_force m p off)"
  then obtain a b t where "(a, b, t) \<in> set (force_split p m 0)" "sc_text s = t"
    by (auto simp: sub_force_def)
  then have "sc_text s \<in> set (pieces m p)"
    using force_split_texts [OF \<open>0 < m\<close>, of p] by (metis (mono_tags, lifting) case_prod_conv image_eqI list.set_map)
  then show ?thesis by (auto simp: piece_ok_def dest: pieces_bound)
qed

definition para_inv :: "nat \<Rightarrow> para_state \<Rightarrow> bool" where
  "para_inv m st \<longleftrightarrow> (\<forall>s \<in> set (pp_result st). piece_ok m (sc_text s)) \<and> piece_ok m (pp_current st)"

lemma para_step_inv: "0 < m \<Longrightarrow> para_inv m st \<Longrightarrow> para_inv m (para_step m p st)"
  by (auto simp: para_inv_def para_step_def Let_def dest: sub_force_ok) (auto simp: piece_ok_def)

lemma fold_para_step_inv: "0 < m \<Longrightarrow> para_inv m st \<Longrightarrow> para_inv m (fold (para_step m) ps st)"
  by (induction ps arbitrary: st) (auto simp: para_step_inv)

lemma split_on_paragraphs_pieces:
  assumes "0 < m" and "s \<in> set (split_on_paragraphs content m)"
  shows "piece_ok m (sc_text s)"
proof -
  let ?st = "fold (para_step m) (split_preserving_code_blocks content)
       \<lparr>pp_result = [], pp_current = [], pp_offset = 0, pp_segment_start = 0\<rparr>"
  have "para_inv m ?st"
    by (rule fold_para_step_inv [OF assms(1)]) (simp add: para_inv_def piece_ok_def)
  with assms(2) show ?thesis
    by (auto simp: split_on_paragraphs_def para_finish_def para_inv_def split: if_splits)
qed

definition blank_line :: "string \<Rightarrow> bool" where
  "blank_line line \<longleftrightarrow> go_trim_space line = []"

lemma fold_fence_step_parts:
  "successively (\<lambda>a b. \<not> (blank_line a \<and> blank_line b)) lines \<Longrightarrow>
   (fs_prev_empty st \<longrightarrow> lines = [] \<or> \<not> blank_line (hd lines)) \<Longrightarrow>
   fs_parts (fold fence_step lines st) = fs_parts st"
proof (induction lines arbitrary: st)
  case Nil
  then show ?case by simp
next
  case (Cons line lines)
  have "fs_parts (fence_step line st) = fs_parts st"
    using Cons.prems(2) by (auto simp: fence_step_def Let_def blank_line_def)
  moreover have "fs_prev_empty (fence_step line st) \<Longrightarrow> blank_line line"
    by (auto simp: fence_step_def Let_def blank_line_def split: if_splits)
  ultimately show ?case
    using Cons.IH [of "fence_step line st"] Cons.prems(1)
    by (auto simp: successively_Cons)
qed

text \<open>Paragraphs of a Markdown section separated by a single blank line (a double newline) are not
  separated at all: unless the content has two consecutive blank lines, the paragraph splitter
  returns at most one part.\<close>

theorem split_needs_two_blank_lines:
  assumes "successively (\<lambda>a b. \<not> (blank_line a \<and> blank_line b)) (go_split content [nl])"
  shows "length (split_preserving_code_blocks content) \<le> 1"
proof -
  have "fs_parts (fold fence_step (go_split content [nl])
      \<lparr>fs_parts = [], fs_current = [], fs_in_fence = False, fs_prev_empty = False\<rparr>) = []"
    using fold_fence_step_parts [OF assms] by simp
  then show ?thesis by (simp add: split_preserving_code_blocks_def flush_part_def Let_def)
qed

theorem split_needs_two_blank_lines_witness:
  "length (split_preserving_code_blocks (''one'' @ para_sep @ ''two'')) \<le> 1"
proof -
  have "successively (\<lambda>a b. \<not> (blank_line a \<and> blank_line b)) (go_split (''one'' @ para_sep @ ''two'') [nl])"
    by code_simp
  then show ?thesis by (rule split_needs_two_blank_lines)
qed

subsection \<open>Sections of a Markdown document\<close>

lemma line_start_ok: "b \<le> length s \<Longrightarrow> \<exists>p. line_start s b = Some p \<and> p \<le> b"
  by (induction b) (auto simp: go_nth_def)

lemma line_start_mono:
  "a \<le> b \<Longrightarrow> b \<le> length s \<Longrightarrow> line_start s a = Some p \<Longrightarrow> line_start s b = Some q \<Longrightarrow> p \<le> q"
proof (induction b arbitrary: q)
  case 0
  then show ?case by simp
next
  case (Suc b)
  show ?case
  proof (cases "a = Suc b")
    case True
    with Suc.prems show ?thesis by simp
  next
    case False
    with Suc.prems have "a \<le> b" "a \<le> length s" by auto
    then have "p \<le> a" using line_start_ok [of a s] Suc.prems(3) by auto
    with Suc False show ?thesis by (auto simp: go_nth_def split: if_splits)
  qed
qed

text \<open>What the code relies on of the parser: every heading node has a first line, inside the
  source, and the nodes come in document order.\<close>

definition headings_in_order :: "string \<Rightarrow> heading_node list \<Rightarrow> bool" where
  "headings_in_order source nodes \<longleftrightarrow>
     (\<forall>h \<in> set nodes. \<exists>b \<le> length source. hn_first_line h = Some b) \<and>
     sorted (map (the \<circ> hn_first_line) nodes)"

definition positions_ok :: "string \<Rightarrow> heading_info list \<Rightarrow> bool" where
  "positions_ok source hs \<longleftrightarrow> (\<forall>h \<in> set hs. hi_pos h \<le> length source) \<and> sorted (map hi_pos hs)"

lemma heading_info_of_ok:
  "hn_first_line h = Some b \<Longrightarrow> b \<le> length source \<Longrightarrow>
   \<exists>i. heading_info_of source h = Some i \<and> line_start source b = Some (hi_pos i) \<and> hi_pos i \<le> b"
  using line_start_ok [of b source] by (auto simp: heading_info_of_def)

lemma collect_headings_pos:
  "collect_headings source nodes = Some hs \<Longrightarrow> i \<in> set hs \<Longrightarrow> headings_in_order source nodes \<Longrightarrow>
   \<exists>h \<in> set nodes. line_start source (the (hn_first_line h)) = Some (hi_pos i)"
proof (induction nodes arbitrary: hs)
  case Nil
  then show ?case by simp
next
  case (Cons h nodes)
  then obtain b where b: "hn_first_line h = Some b" "b \<le> length source"
    by (auto simp: headings_in_order_def)
  from Cons.prems(1) obtain j js where js: "heading_info_of source h = Some j"
    "collect_headings source nodes = Some js" "hs = j # js"
    by (auto simp: bind_Some_iff)
  have "headings_in_order source nodes" using Cons.prems(3) by (auto simp: headings_in_order_def)
  with Cons.IH [OF js(2)] js b Cons.prems(2) heading_info_of_ok [OF b] show ?case by auto
qed

lemma collect_headings_ok:
  "headings_in_order source nodes \<Longrightarrow>
   \<exists>hs. collect_headings source nodes = Some hs \<and> positions_ok source hs \<and> length hs = length nodes"
proof (induction nodes)
  case Nil
  then show ?case by (simp add: positions_ok_def)
next
  case (Cons h nodes)
  have tl: "headings_in_order source nodes" using Cons.prems by (auto simp: headings_in_order_def)
  from Cons.prems obtain b where b: "hn_first_line h = Some b" "b \<le> length source"
    by (auto simp: headings_in_order_def)
  obtain i where i: "heading_info_of source h = Some i" "line_start source b = Some (hi_pos i)" "hi_pos i \<le> b"
    using heading_info_of_ok [OF b] by blast
  from Cons.IH [OF tl] obtain hs where hs: "collect_headings source nodes = Some hs"
    "positions_ok source hs" "length hs = length nodes" by blast
  have "hi_pos i \<le> hi_pos j" if "j \<in> set hs" for j
  proof -
    from collect_headings_pos [OF hs(1) that tl] obtain h' where h': "h' \<in> set nodes"
      "line_start source (the (hn_first_line h')) = Some (hi_pos j)" by blast
    with Cons.prems b have "b \<le> the (hn_first_line h')" "the (hn_first_line h') \<le> length source"
      by (auto simp: headings_in_order_def)
    then show ?thesis using line_start_mono i(2) h'(2) by blast
  qed
  with hs i b show ?case by (auto simp: positions_ok_def)
qed

lemma sections_loop_ok:
  "positions_ok source hs \<Longrightarrow> \<exists>secs. sections_loop source hs stack = Some secs"
proof (induction hs arbitrary: stack)
  case Nil
  then show ?case by simp
next
  case (Cons h hs)
  have "positions_ok source hs" using Cons.prems by (auto simp: positions_ok_def)
  with Cons.IH obtain secs where "sections_loop source hs (push_heading h stack) = Some secs" by blast
  moreover have "hi_pos h \<le> (case hs of [] \<Rightarrow> length source | h2 # _ \<Rightarrow> hi_pos h2)"
    "(case hs of [] \<Rightarrow> length source | h2 # _ \<Rightarrow> hi_pos h2) \<le> length source"
    using Cons.prems by (auto simp: positions_ok_def split: list.splits)
  ultimately show ?case by (simp add: go_slice_def Let_def)
qed

lemma extract_sections_ok:
  assumes "headings_in_order source nodes"
  shows "\<exists>secs. extract_sections source nodes = Some secs"
proof -
  obtain hs where hs: "collect_headings source nodes = Some hs" "positions_ok source hs"
    using collect_headings_ok [OF assms] by blast
  obtain secs where "sections_loop source hs [] = Some secs"
    using sections_loop_ok [OF hs(2)] by blast
  moreover have "\<exists>pre. pre_section source (hi_pos h) = Some pre" if "h \<in> set hs" for h
    using that hs(2) by (auto simp: positions_ok_def pre_section_def go_slice_def Let_def)
  ultimately show ?thesis using hs
    by (cases hs) (fastforce simp: extract_sections_def simp del: sections_loop.simps)+
qed

lemma section_chunks_ok: "0 < m \<Longrightarrow> c \<in> set (section_chunks m sec) \<Longrightarrow> piece_ok m (cc_content c)"
  by (auto simp: section_chunks_def piece_ok_def[of m "sec_content sec"]
      dest: split_on_paragraphs_pieces split: if_splits)



text \<open>A heading node without lines (an empty heading) is given position 0. When it follows a
  heading further down, the section of that heading is the slice from its position down to 0, and
  indexing the document panics.\<close>

theorem empty_heading_panics:
  "chunk_markdown (\<lambda>_. [\<lparr>hn_level = 1, hn_children = [Some ''A''], hn_first_line = Some 4\<rparr>,
                        \<lparr>hn_level = 1, hn_children = [], hn_first_line = None\<rparr>])
     (''x'' @ [nl] @ ''# A'' @ [nl] @ ''#'') 4096 = None"
  by code_simp

subsection \<open>Heading paths\<close>

text \<open>
  The specification of the heading stack: a heading \<open>j\<close> is still open at heading \<open>i\<close> when every
  heading after \<open>j\<close> up to \<open>i\<close> is at a deeper level.
\<close>

definition open_headings :: "heading_info list \<Rightarrow> heading_info list" where
  "open_headings hs =
     map (\<lambda>j. hs ! j)
       (filter (\<lambda>j. \<forall>k \<in> {j<..<length hs}. hi_level (hs ! j) < hi_level (hs ! k)) [0..<length hs])"

definition heading_path :: "heading_info list \<Rightarrow> string" where
  "heading_path hs = go_join (map hi_text (open_headings hs)) path_sep"

lemma open_headings_Nil [simp]: "open_headings [] = []"
  by (simp add: open_headings_def)

lemma open_headings_snoc:
  "open_headings (hs @ [h]) = filter (\<lambda>x. hi_level x < hi_level h) (open_headings hs) @ [h]"
proof -
  let ?n = "length hs"
  have last: "{?n<..<length (hs @ [h])} = {}" by auto
  have cut: "(\<forall>k \<in> {j<..<length (hs @ [h])}. hi_level ((hs @ [h]) ! j) < hi_level ((hs @ [h]) ! k))
      \<longleftrightarrow> hi_level (hs ! j) < hi_level h
        \<and> (\<forall>k \<in> {j<..<?n}. hi_level (hs ! j) < hi_level (hs ! k))" if "j < ?n" for j
  proof -
    have "{j<..<length (hs @ [h])} = insert ?n {j<..<?n}" using that by auto
    then show ?thesis using that by (auto simp: nth_append)
  qed
  have "filter (\<lambda>j. \<forall>k \<in> {j<..<length (hs @ [h])}.
        hi_level ((hs @ [h]) ! j) < hi_level ((hs @ [h]) ! k)) [0..<?n]
      = filter (\<lambda>j. hi_level (hs ! j) < hi_level h
        \<and> (\<forall>k \<in> {j<..<?n}. hi_level (hs ! j) < hi_level (hs ! k))) [0..<?n]"
    by (rule filter_cong) (use cut in auto)
  then have "open_headings (hs @ [h])
      = map ((!) (hs @ [h])) (filter (\<lambda>j. hi_level (hs ! j) < hi_level h
        \<and> (\<forall>k \<in> {j<..<?n}. hi_level (hs ! j) < hi_level (hs ! k))) [0..<?n]) @ [h]"
    unfolding open_headings_def using last by simp
  also have "map ((!) (hs @ [h])) (filter (\<lambda>j. hi_level (hs ! j) < hi_level h
        \<and> (\<forall>k \<in> {j<..<?n}. hi_level (hs ! j) < hi_level (hs ! k))) [0..<?n])
      = filter (\<lambda>x. hi_level x < hi_level h) (open_headings hs)"
    by (auto simp: open_headings_def filter_map comp_def nth_append conj_commute intro!: map_cong filter_cong)
  finally show ?thesis .
qed

definition stack_of :: "heading_info list \<Rightarrow> (nat \<times> string) list" where
  "stack_of hs = rev (map (\<lambda>h. (hi_level h, hi_text h)) (open_headings hs))"

lemma dropWhile_levels:
  "sorted_wrt (\<lambda>a b. fst b < fst a) st \<Longrightarrow>
   dropWhile (\<lambda>(l, _). n \<le> l) st = filter (\<lambda>(l, _). l < n) st" for n :: nat
  by (induction st) (auto simp: filter_id_conv split: if_splits intro!: filter_True [symmetric])

lemma stack_of_sorted: "sorted_wrt (\<lambda>a b. fst b < fst a) (stack_of hs)"
proof (induction hs rule: rev_induct)
  case Nil
  then show ?case by (simp add: stack_of_def)
next
  case (snoc h hs)
  then show ?case
    by (auto simp: stack_of_def open_headings_snoc sorted_wrt_rev sorted_wrt_map sorted_wrt_append
        sorted_wrt_filter)
qed

lemma push_heading_stack_of: "push_heading h (stack_of hs) = stack_of (hs @ [h])"
  using dropWhile_levels [OF stack_of_sorted, of "hi_level h" hs]
  by (simp add: push_heading_def stack_of_def open_headings_snoc filter_map comp_def flip: rev_filter)

lemma stack_path_stack_of: "stack_path (stack_of hs) = heading_path hs"
  by (simp add: stack_path_def stack_of_def heading_path_def comp_def)

definition section_of :: "string \<Rightarrow> heading_info list \<Rightarrow> nat \<Rightarrow> section_info" where
  "section_of source hs i =
     (let e = (if Suc i < length hs then hi_pos (hs ! Suc i) else length source)
      in mk_section (heading_path (take (Suc i) hs))
           (go_trim_right (subseg source (hi_pos (hs ! i)) e) trim_cutset) (hi_pos (hs ! i)))"

lemma sections_loop_spec:
  "sections_loop source hs (stack_of done) = Some secs \<Longrightarrow>
   secs = filter (\<lambda>s. sec_content s \<noteq> [])
     (map (section_of source (done @ hs)) [length done..<length (done @ hs)])"
proof (induction hs arbitrary: "done" secs)
  case Nil
  then show ?case by simp
next
  case (Cons h hs)
  let ?e = "case hs of [] \<Rightarrow> length source | h2 # _ \<Rightarrow> hi_pos h2"
  let ?c = "go_trim_right (subseg source (hi_pos h) ?e) trim_cutset"
  from Cons.prems obtain rest where rest: "sections_loop source hs (stack_of (done @ [h])) = Some rest"
    and secs: "secs = (if ?c = [] then rest
      else mk_section (heading_path (done @ [h])) ?c (hi_pos h) # rest)"
    by (auto simp: bind_Some_iff go_slice_def push_heading_stack_of stack_path_stack_of Let_def
        split: if_splits)
  have sec: "section_of source (done @ h # hs) (length done)
      = mk_section (heading_path (done @ [h])) ?c (hi_pos h)"
    by (auto simp: section_of_def nth_append split: list.split)
  have "[length done..<length (done @ h # hs)] = length done # [length (done @ [h])..<length (done @ h # hs)]"
    by (subst upt_conv_Cons) auto
  with Cons.IH [OF rest] secs sec show ?case by (simp add: mk_section_def)
qed

text \<open>The sections of a document are, in order, those of its headings that have text: section
  \<open>i\<close> runs from its heading to the next one, trimmed on the right, and its heading path names
  exactly the headings still open there, outermost first.\<close>

theorem sections_follow_headings:
  assumes "collect_headings source nodes = Some hs" and "hs \<noteq> []"
    and "extract_sections source nodes = Some secs"
  shows "\<exists>pre. pre_section source (hi_pos (hs ! 0)) = Some pre \<and>
     secs = pre @ filter (\<lambda>s. sec_content s \<noteq> []) (map (section_of source hs) [0..<length hs])"
proof -
  from assms obtain h hs' where hs: "hs = h # hs'" by (cases hs) auto
  with assms obtain ss pre where "sections_loop source hs [] = Some ss"
    "pre_section source (hi_pos h) = Some pre" "secs = pre @ ss"
    by (auto simp: extract_sections_def bind_Some_iff simp del: sections_loop.simps)
  moreover have "stack_of [] = []" by (simp add: stack_of_def)
  ultimately show ?thesis using sections_loop_spec [of source hs "[]" ss] hs by simp
qed

theorem sections_follow_headings_witness:
  "\<exists>pre. pre_section (''# A'' @ [nl] @ ''## B'') 0 = Some pre \<and>
     pre @ filter (\<lambda>s. sec_content s \<noteq> []) (map (section_of (''# A'' @ [nl] @ ''## B'')
       [\<lparr>hi_level = 1, hi_text = ''A'', hi_pos = 0\<rparr>, \<lparr>hi_level = 2, hi_text = ''B'', hi_pos = 4\<rparr>]) [0..<2])
     = [mk_section ''A'' ''# A'' 0, mk_section ''A > B'' ''## B'' 4]"
proof -
  let ?s = "''# A'' @ [nl] @ ''## B''"
  let ?n = "[\<lparr>hn_level = 1, hn_children = [Some ''A''], hn_first_line = Some 2\<rparr>,
    \<lparr>hn_level = 2, hn_children = [Some ''B''], hn_first_line = Some 7\<rparr>]"
  let ?h = "[\<lparr>hi_level = 1, hi_text = ''A'', hi_pos = 0\<rparr>, \<lparr>hi_level = 2, hi_text = ''B'', hi_pos = 4\<rparr>]"
  have "collect_headings ?s ?n = Some ?h" by code_simp
  moreover have "extract_sections ?s ?n = Some [mk_section ''A'' ''# A'' 0, mk_section ''A > B'' ''## B'' 4]"
    by code_simp
  ultimately obtain pre where "pre_section ?s (hi_pos (?h ! 0)) = Some pre"
    "[mk_section ''A'' ''# A'' 0, mk_section ''A > B'' ''## B'' 4]
       = pre @ filter (\<lambda>s. sec_content s \<noteq> []) (map (section_of ?s ?h) [0..<length ?h])"
    using sections_follow_headings [of ?s ?n ?h] by blast
  then show ?thesis
    by (intro exI [of _ pre]) (simp only: nth_Cons_0 heading_info.simps list.size add_0 plus_1_eq_Suc
        numeral_2_eq_2 One_nat_def add_Suc add_0_right simp_thms)
qed

end
