(* ===== verification/Snippet.thy ===== *)
theory Snippet
  imports GoStrings "HOL-Library.Word"
begin

text \<open>
  \<open>snippet.go\<close>: the window extraction around match positions, the trimming of a window to word
  and sentence boundaries, and the token budget. Every index and slice expression is checked, so
  a value \<open>None\<close> of these definitions is a run-time panic of the code.
\<close>

definition default_max_snippet_len :: int where
  "default_max_snippet_len = 1500"

record match_position =
  mp_start :: int
  mp_end :: int

subsection \<open>Boundaries\<close>

definition is_sentence_end :: "char \<Rightarrow> bool" where
  "is_sentence_end b \<longleftrightarrow> b = CHR ''.'' \<or> b = CHR ''!'' \<or> b = CHR ''?''"

definition is_word_boundary :: "string \<Rightarrow> nat \<Rightarrow> bool" where
  "is_word_boundary s i \<longleftrightarrow>
     (if i = 0 \<or> length s \<le> i then True else s ! (i - 1) = CHR '' '' \<or> s ! i = CHR '' '')"

text \<open>The loops of \<open>trimToWordBoundary\<close>, one function per loop.\<close>

function sentence_forward :: "string \<Rightarrow> nat \<Rightarrow> nat \<Rightarrow> nat option option" where
  "sentence_forward s i lim =
     (if i < lim then do {
        c \<leftarrow> go_nth s i;
        if is_sentence_end c \<and> i + 1 < length s then do {
          d \<leftarrow> go_nth s (i + 1);
          if d = CHR '' '' then Some (Some (i + 2)) else sentence_forward s (Suc i) lim
        } else sentence_forward s (Suc i) lim
      } else Some None)"
  by pat_completeness auto
termination
  by (relation "measure (\<lambda>(s, i, lim). lim - i)") auto

function boundary_forward :: "string \<Rightarrow> nat \<Rightarrow> nat \<Rightarrow> nat" where
  "boundary_forward s i e =
     (if i < e \<and> \<not> is_word_boundary s i then boundary_forward s (Suc i) e else i)"
  by pat_completeness auto
termination
  by (relation "measure (\<lambda>(s, i, e). e - i)") auto

function skip_spaces :: "string \<Rightarrow> nat \<Rightarrow> nat \<Rightarrow> nat option" where
  "skip_spaces s i e =
     (if i < e then do {
        c \<leftarrow> go_nth s i;
        if c = CHR '' '' then skip_spaces s (Suc i) e else Some i
      } else Some i)"
  by pat_completeness auto
termination
  by (relation "measure (\<lambda>(s, i, e). e - i)") auto

text \<open>Downward loops count with \<open>n = i + 1\<close>, so that the loop variable stays a \<open>nat\<close>.\<close>

fun sentence_backward :: "string \<Rightarrow> nat \<Rightarrow> nat \<Rightarrow> nat option option" where
  "sentence_backward s 0 lim = Some None"
| "sentence_backward s (Suc i) lim =
     (if lim \<le> i then do {
        c \<leftarrow> go_nth s i;
        if is_sentence_end c then Some (Some (i + 1)) else sentence_backward s i lim
      } else Some None)"

fun boundary_backward :: "string \<Rightarrow> nat \<Rightarrow> nat \<Rightarrow> nat" where
  "boundary_backward s 0 lo = 0"
| "boundary_backward s (Suc e) lo =
     (if lo < Suc e \<and> \<not> is_word_boundary s (Suc e) then boundary_backward s e lo else Suc e)"

fun drop_spaces_backward :: "string \<Rightarrow> nat \<Rightarrow> nat \<Rightarrow> nat option" where
  "drop_spaces_backward s 0 lo = Some 0"
| "drop_spaces_backward s (Suc e) lo =
     (if lo < Suc e then do {
        c \<leftarrow> go_nth s e;
        if c = CHR '' '' then drop_spaces_backward s e lo else Some (Suc e)
      } else Some (Suc e))"

declare sentence_forward.simps [simp del] boundary_forward.simps [simp del] skip_spaces.simps [simp del]

definition sentence_search_range :: nat where
  "sentence_search_range = 50"

text \<open>\<open>trimToWordBoundary\<close> in its three parts: the start, the end, the final cut.\<close>

definition trim_start :: "string \<Rightarrow> nat \<Rightarrow> nat \<Rightarrow> nat option" where
  "trim_start s start e =
     (if 0 < start then do {
        r \<leftarrow> sentence_forward s start (min (start + sentence_search_range) e);
        case r of Some i \<Rightarrow> Some i
        | None \<Rightarrow> skip_spaces s (boundary_forward s start e) e
      } else Some start)"

definition trim_end :: "string \<Rightarrow> nat \<Rightarrow> nat \<Rightarrow> nat option" where
  "trim_end s start e =
     (if e < length s then do {
        r \<leftarrow> sentence_backward s e (max (e - sentence_search_range) start);
        case r of Some i \<Rightarrow> Some i
        | None \<Rightarrow> Some (boundary_backward s e start)
      } else Some e)"

definition trim_to_word_boundary :: "string \<Rightarrow> nat \<Rightarrow> nat \<Rightarrow> string option" where
  "trim_to_word_boundary s start e =
     (if start = 0 \<and> length s \<le> e then Some s
      else do {
        start' \<leftarrow> trim_start s start e;
        e' \<leftarrow> trim_end s start' e;
        if e' \<le> start' then Some []
        else do {
          e'' \<leftarrow> drop_spaces_backward s e' start';
          if e'' \<le> start' then Some [] else go_slice s start' e''
        }
      })"

subsection \<open>Window selection\<close>

definition clamp_position :: "string \<Rightarrow> match_position \<Rightarrow> match_position" where
  "clamp_position s p =
     \<lparr>mp_start = (if mp_start p < 0 then 0 else mp_start p),
      mp_end = (if mp_end p > int (length s) then int (length s) else mp_end p)\<rparr>"

definition valid_positions :: "string \<Rightarrow> match_position list \<Rightarrow> match_position list" where
  "valid_positions s ps =
     filter (\<lambda>p. mp_start p < int (length s) \<and> mp_start p < mp_end p) (map (clamp_position s) ps)"

definition in_window :: "int \<Rightarrow> int \<Rightarrow> match_position \<Rightarrow> bool" where
  "in_window ws we q \<longleftrightarrow>
     (ws \<le> mp_start q \<and> mp_end q \<le> we) \<or> (mp_start q < we \<and> ws < mp_end q)"

definition window_count :: "match_position list \<Rightarrow> int \<Rightarrow> int \<Rightarrow> nat" where
  "window_count ps ws w = length (filter (in_window ws (ws + w)) ps)"

fun densest_loop :: "match_position list \<Rightarrow> int \<Rightarrow> match_position list \<Rightarrow> nat \<Rightarrow> int \<Rightarrow> int" where
  "densest_loop all w [] best center = center"
| "densest_loop all w (p # ps) best center =
     (let n = window_count all (mp_start p) w in
      if best < n then densest_loop all w ps n (mp_start p + w div 2)
      else densest_loop all w ps best center)"

text \<open>\<open>densestClusterCenter\<close>: only called with at least two positions, all in range, so the
  division of a sum of non-negative offsets rounds as Go's does.\<close>

definition densest_cluster_center :: "match_position list \<Rightarrow> int \<Rightarrow> int option" where
  "densest_cluster_center ps w =
     (case ps of [] \<Rightarrow> None
      | p # _ \<Rightarrow> Some (densest_loop ps w ps 0 ((mp_start p + mp_end p) div 2)))"

definition snippet_window :: "int \<Rightarrow> int \<Rightarrow> int \<Rightarrow> int \<times> int" where
  "snippet_window len max_len center =
     (let start = center - max_len div 2;
          e = start + max_len;
          (start, e) = (if start < 0 then (0, max_len) else (start, e))
      in if e > len then (if len - max_len < 0 then 0 else len - max_len, len) else (start, e))"

definition snippet_limit :: "int \<Rightarrow> int" where
  "snippet_limit n = (if n \<le> 0 then default_max_snippet_len else n)"

lemma snippet_limit_pos [simp]: "0 < snippet_limit n"
  by (simp add: snippet_limit_def default_max_snippet_len_def)

definition extract_snippet :: "string \<Rightarrow> match_position list \<Rightarrow> int \<Rightarrow> string option" where
  "extract_snippet content ps max_len0 =
     (let max_len = snippet_limit max_len0 in
      if content = [] then Some []
      else if int (length content) \<le> max_len then Some content
      else
        (case valid_positions content ps of
           [] \<Rightarrow> trim_to_word_boundary content 0 (nat max_len)
         | [p] \<Rightarrow>
             (let (start, e) = snippet_window (int (length content)) max_len ((mp_start p + mp_end p) div 2)
              in trim_to_word_boundary content (nat start) (nat e))
         | valid \<Rightarrow> do {
             center \<leftarrow> densest_cluster_center valid max_len;
             (let (start, e) = snippet_window (int (length content)) max_len center
              in trim_to_word_boundary content (nat start) (nat e))
           }))"

subsection \<open>Tokens\<close>

definition estimate_tokens :: "string \<Rightarrow> nat" where
  "estimate_tokens t = (if length t = 0 then 0 else (length t + 3) div 4)"

text \<open>
  \<open>TrimToTokenBudget\<close> on 64-bit integers: \<open>maxTokens * 4\<close> wraps. \<open>sint\<close> reads a word as Go's
  \<open>int\<close>. Reading \<open>text[end]\<close> in the loop and the final slices are checked.
  \<open>unicode.IsSpace(rune(text[end]))\<close> looks at one byte.
\<close>

type_synonym go_int = "64 word"

fun budget_backward :: "string \<Rightarrow> nat \<Rightarrow> nat option" where
  "budget_backward t 0 = Some 0"
| "budget_backward t (Suc e) = do {
     c \<leftarrow> go_nth t (Suc e);
     if is_space (byte c) then Some (Suc e) else budget_backward t e
   }"

definition trim_to_token_budget :: "string \<Rightarrow> go_int \<Rightarrow> string option" where
  "trim_to_token_budget t max_tokens =
     (if sint max_tokens \<le> 0 then Some []
      else
        (let max_bytes = sint (max_tokens * 4) in
         if int (length t) \<le> max_bytes then Some t
         else if max_bytes < 0 then None
         else do {
           e \<leftarrow> budget_backward t (nat max_bytes);
           if e = 0 then go_slice t 0 (nat max_bytes) else go_slice t 0 e
         }))"

subsection \<open>The loops stay inside the text\<close>

lemma sentence_forward_ok:
  "lim \<le> length s \<Longrightarrow> \<exists>r. sentence_forward s i lim = Some r \<and> (\<forall>j. r = Some j \<longrightarrow> i < j \<and> j \<le> lim + 1)"
proof (induction s i lim rule: sentence_forward.induct)
  case (1 s i lim)
  show ?case
  proof (cases "i < lim")
    case True
    with "1.prems" have i: "i < length s" by simp
    have rec: "\<exists>r. sentence_forward s (Suc i) lim = Some r
        \<and> (\<forall>j. r = Some j \<longrightarrow> i < j \<and> j \<le> lim + 1)"
      if "\<not> (is_sentence_end (s ! i) \<and> i + 1 < length s \<and> s ! (i + 1) = CHR '' '')"
    proof (cases "is_sentence_end (s ! i) \<and> i + 1 < length s")
      case True
      with that "1.IH"(1) [OF \<open>i < lim\<close>, of "s ! i" "s ! (i + 1)"] i "1.prems" show ?thesis
        by (fastforce simp: go_nth_def)
    next
      case False
      with "1.IH"(2) [OF \<open>i < lim\<close>, of "s ! i"] i "1.prems" show ?thesis
        by (fastforce simp: go_nth_def)
    qed
    show ?thesis
    proof (cases "is_sentence_end (s ! i) \<and> i + 1 < length s \<and> s ! (i + 1) = CHR '' ''")
      case True
      with \<open>i < lim\<close> i show ?thesis by (simp add: sentence_forward.simps [of s i] go_nth_def)
    next
      case False
      with rec \<open>i < lim\<close> i show ?thesis by (auto simp: sentence_forward.simps [of s i] go_nth_def)
    qed
  next
    case False
    then show ?thesis by (simp add: sentence_forward.simps [of s i])
  qed
qed

lemma boundary_forward_bounds: "i \<le> boundary_forward s i e \<and> boundary_forward s i e \<le> max i e"
proof (induction s i e rule: boundary_forward.induct)
  case (1 s i e)
  then show ?case by (auto simp: boundary_forward.simps [of s i])
qed

lemma skip_spaces_ok:
  "e \<le> length s \<Longrightarrow> \<exists>j. skip_spaces s i e = Some j \<and> i \<le> j \<and> j \<le> max i e"
proof (induction s i e rule: skip_spaces.induct)
  case (1 s i e)
  show ?case
  proof (cases "i < e \<and> s ! i = CHR '' ''")
    case True
    with "1.prems" "1.IH" [of "s ! i"] show ?thesis
      by (fastforce simp: skip_spaces.simps [of s i] go_nth_def)
  next
    case False
    with "1.prems" show ?thesis by (auto simp: skip_spaces.simps [of s i] go_nth_def)
  qed
qed

lemma sentence_backward_ok:
  "e \<le> length s \<Longrightarrow> \<exists>r. sentence_backward s e lim = Some r \<and> (\<forall>j. r = Some j \<longrightarrow> lim < j \<and> j \<le> e)"
  by (induction e) (auto simp: go_nth_def)

lemma boundary_backward_bounds: "boundary_backward s e lo \<le> e"
  by (induction e) auto

lemma drop_spaces_backward_ok:
  "e \<le> length s \<Longrightarrow> \<exists>j. drop_spaces_backward s e lo = Some j \<and> j \<le> e"
  by (induction e) (auto simp: go_nth_def)

lemma trim_start_ok: "e \<le> length s \<Longrightarrow> \<exists>i. trim_start s start e = Some i \<and> start \<le> i"
proof -
  assume e: "e \<le> length s"
  then obtain r where r: "sentence_forward s start (min (start + sentence_search_range) e) = Some r"
    and le: "\<forall>j. r = Some j \<longrightarrow> start < j"
    using sentence_forward_ok [of "min (start + sentence_search_range) e" s start] e
      min.coboundedI2 [OF e] by blast
  obtain j where "skip_spaces s (boundary_forward s start e) e = Some j"
    and "boundary_forward s start e \<le> j"
    using skip_spaces_ok [OF e] by blast
  with r le boundary_forward_bounds [of start s e] show ?thesis
    by (cases r) (auto simp: trim_start_def)
qed

lemma trim_end_ok: "e \<le> length s \<Longrightarrow> \<exists>j. trim_end s start e = Some j \<and> j \<le> e"
proof -
  assume e: "e \<le> length s"
  then obtain r where "sentence_backward s e (max (e - sentence_search_range) start) = Some r"
    and "\<forall>j. r = Some j \<longrightarrow> j \<le> e"
    using sentence_backward_ok [OF e] by blast
  with boundary_backward_bounds [of s e start] show ?thesis
    by (cases r) (auto simp: trim_end_def)
qed

lemma trim_to_word_boundary_ok:
  assumes "start \<le> e" and e: "e \<le> length s"
  shows "\<exists>r. trim_to_word_boundary s start e = Some r \<and> sublist r s \<and> length r \<le> e - start"
proof -
  obtain i where i: "trim_start s start e = Some i" "start \<le> i"
    using trim_start_ok [OF e] by blast
  obtain j where j: "trim_end s i e = Some j" "j \<le> e"
    using trim_end_ok [OF e] by blast
  obtain k where k: "drop_spaces_backward s j i = Some k" "k \<le> j"
    using drop_spaces_backward_ok [of j s i] j e by auto
  show ?thesis
  proof (cases "start = 0 \<and> length s \<le> e")
    case True
    with e show ?thesis by (simp add: trim_to_word_boundary_def)
  next
    case False
    with i j k e show ?thesis
      by (auto simp: trim_to_word_boundary_def go_slice_def)
  qed
qed

lemma snippet_window_bounds:
  assumes "0 < m" and "m < len" and "snippet_window len m c = (a, b)"
  shows "0 \<le> a \<and> a \<le> b \<and> b \<le> len \<and> b - a \<le> m"
  using assms by (auto simp: snippet_window_def Let_def split: if_splits)

lemma snippet_window_trim_ok:
  assumes "0 < m" and "m < int (length s)" and "snippet_window (int (length s)) m c = (a, b)"
  shows "\<exists>r. trim_to_word_boundary s (nat a) (nat b) = Some r \<and> sublist r s \<and> int (length r) \<le> m"
proof -
  have w: "0 \<le> a \<and> a \<le> b \<and> b \<le> int (length s) \<and> b - a \<le> m"
    using assms by (rule snippet_window_bounds)
  then have "nat a \<le> nat b" "nat b \<le> length s" by auto
  then obtain r where "trim_to_word_boundary s (nat a) (nat b) = Some r" "sublist r s"
    "length r \<le> nat b - nat a"
    using trim_to_word_boundary_ok by blast
  with w show ?thesis by force
qed

lemma extract_snippet_total:
  "\<exists>r. extract_snippet content ps max_len = Some r \<and> sublist r content
     \<and> int (length r) \<le> snippet_limit max_len"
proof -
  define m where "m = snippet_limit max_len"
  have m: "0 < m" by (simp add: m_def)
  show ?thesis
  proof (cases "content = [] \<or> int (length content) \<le> m")
    case True
    then show ?thesis using m by (auto simp: extract_snippet_def Let_def simp flip: m_def)
  next
    case False
    then have ne: "content \<noteq> []" and lt: "m < int (length content)" by auto
    have prefix_ok: "\<exists>r. trim_to_word_boundary content 0 (nat m) = Some r \<and> sublist r content
        \<and> int (length r) \<le> m"
      using trim_to_word_boundary_ok [of 0 "nat m" content] lt m by force
    have win: "\<exists>r. (let (a, b) = snippet_window (int (length content)) m c
        in trim_to_word_boundary content (nat a) (nat b)) = Some r \<and> sublist r content
        \<and> int (length r) \<le> m" for c
      using snippet_window_trim_ok [OF m lt] by (auto split: prod.splits)
    have eq: "extract_snippet content ps max_len =
        (case valid_positions content ps of
           [] \<Rightarrow> trim_to_word_boundary content 0 (nat m)
         | [p] \<Rightarrow> (let (a, b) = snippet_window (int (length content)) m ((mp_start p + mp_end p) div 2)
              in trim_to_word_boundary content (nat a) (nat b))
         | valid \<Rightarrow> do {
             c \<leftarrow> densest_cluster_center valid m;
             (let (a, b) = snippet_window (int (length content)) m c
              in trim_to_word_boundary content (nat a) (nat b)) })"
      using ne lt by (simp add: extract_snippet_def Let_def flip: m_def)
    show ?thesis
      unfolding m_def [symmetric] eq
      using prefix_ok win by (auto simp: densest_cluster_center_def split: list.split)
  qed
qed

subsection \<open>Properties of the component\<close>

text \<open>\<open>ExtractSnippet\<close> never panics, for any positions (also negative, reversed or out of range)
  and any limit; what it returns is a contiguous piece of the content and no longer than the limit
  that applies (1500 when the caller gives none).\<close>

theorem extract_snippet_safe:
  "\<exists>r. extract_snippet content ps max_len = Some r \<and> sublist r content
     \<and> int (length r) \<le> snippet_limit max_len"
  by (rule extract_snippet_total)

lemma budget_backward_ok:
  "e < length t \<Longrightarrow> \<exists>j. budget_backward t e = Some j \<and> j \<le> e"
  by (induction e) (auto simp: go_nth_def)

lemma estimate_tokens_le: "length t \<le> 4 * n \<Longrightarrow> estimate_tokens t \<le> n"
  by (auto simp: estimate_tokens_def)

lemma sint_mult4: "0 \<le> sint (w :: go_int) \<Longrightarrow> sint w < 2 ^ 61 \<Longrightarrow> sint (w * 4) = 4 * sint w"
proof -
  assume "0 \<le> sint w" "sint w < 2 ^ 61"
  then have "sint (w * 4) = signed_take_bit 63 (sint w * 4)"
    by (simp add: signed_take_bit_int_eq_self_iff sint_word_ariths)
  also have "\<dots> = 4 * sint w"
    using \<open>0 \<le> sint w\<close> \<open>sint w < 2 ^ 61\<close>
    by (subst signed_take_bit_int_eq_self) auto
  finally show ?thesis .
qed

lemma trim_to_token_budget_spec:
  assumes "sint max_tokens < 2 ^ 61"
  shows "\<exists>r. trim_to_token_budget t max_tokens = Some r \<and> prefix r t
     \<and> int (estimate_tokens r) \<le> max 0 (sint max_tokens)
     \<and> (0 < sint max_tokens \<and> int (estimate_tokens t) \<le> sint max_tokens \<longrightarrow> r = t)"
proof (cases "sint max_tokens \<le> 0")
  case True
  then show ?thesis by (simp add: trim_to_token_budget_def estimate_tokens_def)
next
  case False
  define m where "m = nat (sint max_tokens)"
  have sm: "sint max_tokens = int m" "0 < m" using False by (auto simp: m_def)
  have bytes: "sint (max_tokens * 4) = int (4 * m)"
    using sint_mult4 [of max_tokens] assms False by (simp add: m_def)
  have fits: "estimate_tokens t \<le> m \<longleftrightarrow> length t \<le> 4 * m"
    using sm by (auto simp: estimate_tokens_def)
  show ?thesis
  proof (cases "length t \<le> 4 * m")
    case True
    with sm bytes fits show ?thesis by (simp add: trim_to_token_budget_def)
  next
    case long: False
    then obtain e where e: "budget_backward t (4 * m) = Some e" "e \<le> 4 * m"
      using budget_backward_ok [of "4 * m" t] by auto
    then have "\<exists>k. trim_to_token_budget t max_tokens = Some (take k t) \<and> k \<le> 4 * m"
      using sm bytes long
      by (auto simp: trim_to_token_budget_def Let_def go_slice_def subseg_0 nat_int simp flip: of_nat_mult)
    then obtain k where "trim_to_token_budget t max_tokens = Some (take k t)" "k \<le> 4 * m" by blast
    moreover have "estimate_tokens (take k t) \<le> m"
      using \<open>k \<le> 4 * m\<close> by (intro estimate_tokens_le) simp
    ultimately show ?thesis using sm fits long by (auto simp: take_is_prefix)
  qed
qed

text \<open>\<open>TrimToTokenBudget\<close>, for a budget below \<open>2 ^ 61\<close>: it never panics, returns a prefix whose
  estimated token count is within the budget, and returns a text that fits unchanged.\<close>

theorem trim_to_token_budget_ok:
  assumes "sint max_tokens < 2 ^ 61"
  shows "\<exists>r. trim_to_token_budget t max_tokens = Some r \<and> prefix r t
     \<and> int (estimate_tokens r) \<le> max 0 (sint max_tokens)
     \<and> (0 < sint max_tokens \<and> int (estimate_tokens t) \<le> sint max_tokens \<longrightarrow> r = t)"
  using assms by (rule trim_to_token_budget_spec)

theorem trim_to_token_budget_ok_witness:
  "trim_to_token_budget ''one two three'' 2 = Some ''one two''"
proof -
  have "sint (2 :: go_int) < 2 ^ 61" by simp
  from trim_to_token_budget_ok [OF this, of "''one two three''"]
  obtain r where r: "trim_to_token_budget ''one two three'' 2 = Some r" "prefix r ''one two three''"
    by blast
  moreover have "trim_to_token_budget ''one two three'' 2 = Some ''one two''" by code_simp
  ultimately show ?thesis by simp
qed

text \<open>The product \<open>maxTokens * 4\<close> of \<open>TrimToTokenBudget\<close> is not guarded: at \<open>2 ^ 61\<close> tokens
  it wraps to a negative number and the function panics on every text, and at \<open>2 ^ 62\<close> it wraps
  to zero and a text that is far below the budget is cut to nothing.\<close>

theorem trim_to_token_budget_overflow:
  "trim_to_token_budget t (2 ^ 61) = None
   \<and> trim_to_token_budget t (2 ^ 62) = Some []"
proof -
  have "sint (2 ^ 61 * 4 :: go_int) = - (2 ^ 63)" "sint (2 ^ 61 :: go_int) = 2 ^ 61"
    "sint (2 ^ 62 * 4 :: go_int) = 0" "sint (2 ^ 62 :: go_int) = 2 ^ 62"
    by simp_all
  then show ?thesis by (simp add: trim_to_token_budget_def go_slice_def subseg_def Let_def)
qed

end
