(* ===== verification/StructuredChunks.thy ===== *)
theory StructuredChunks
  imports Chunking "HOL-Library.AList"
begin

text \<open>
  \<open>chunk_json.go\<close>, \<open>chunk_yaml.go\<close> and \<open>ChunkContent\<close>: chunks of a decoded JSON or YAML value.
  A decoded value is a tree; a scalar is the text \<open>json.Marshal\<close> writes for it (so that the
  printing of \<open>float64\<close> values stays outside), \<open>JBad\<close> is a value that \<open>json.Marshal\<close> refuses, such
  as YAML's \<open>.inf\<close>. A map is the list of its entries in the order in which the single \<open>range\<close>
  over it visits them, which Go leaves open; \<open>json.Marshal\<close> sorts them by key. The decoders
  \<open>json.Unmarshal\<close> and \<open>yaml.Unmarshal\<close> are parameters (\<open>None\<close> is a decoding error).
\<close>

datatype json = JScalar string | JBad | JObj "(string \<times> json) list" | JArr "json list"

subsection \<open>\<open>json.Marshal\<close>\<close>

definition hex_digit :: "nat \<Rightarrow> char" where
  "hex_digit n = (if n < 10 then char_of (48 + n) else char_of (87 + n))"

definition json_escape :: "nat \<times> string \<Rightarrow> string" where
  "json_escape rb = (case rb of (r, b) \<Rightarrow>
     if r = 34 \<or> r = 92 then CHR 0x5C # b
     else if r = 8 then [CHR 0x5C, CHR ''b''] else if r = 12 then [CHR 0x5C, CHR ''f'']
     else if r = 10 then [CHR 0x5C, CHR ''n''] else if r = 13 then [CHR 0x5C, CHR ''r'']
     else if r = 9 then [CHR 0x5C, CHR ''t'']
     else if r < 32 \<or> r = 60 \<or> r = 62 \<or> r = 38
       then CHR 0x5C # ''u00'' @ [hex_digit (r div 16), hex_digit (r mod 16)]
     else if r = rune_error \<and> length b = 1 then CHR 0x5C # ''ufffd''
     else if r = 8232 then CHR 0x5C # ''u2028'' else if r = 8233 then CHR 0x5C # ''u2029''
     else b)"

definition json_string :: "string \<Rightarrow> string" where
  "json_string s = [CHR 0x22] @ concat (map json_escape (go_runes s)) @ [CHR 0x22]"

definition member_text :: "string \<Rightarrow> string \<Rightarrow> string" where
  "member_text k v = json_string k @ '':'' @ v"

definition object_text :: "(string \<times> string) list \<Rightarrow> string" where
  "object_text kvs = ''{'' @ go_join (map (\<lambda>(k, v). member_text k v) (sort_key fst kvs)) '','' @ ''}''"

definition array_text :: "string list \<Rightarrow> string" where
  "array_text vs = ''['' @ go_join vs '','' @ '']''"

fun marshal :: "json \<Rightarrow> string option"
  and marshal_members :: "(string \<times> json) list \<Rightarrow> (string \<times> string) list option"
  and marshal_list :: "json list \<Rightarrow> string list option" where
  "marshal (JScalar s) = Some s"
| "marshal JBad = None"
| "marshal (JObj kvs) = map_option object_text (marshal_members kvs)"
| "marshal (JArr vs) = map_option array_text (marshal_list vs)"
| "marshal_members [] = Some []"
| "marshal_members ((k, v) # kvs) = (case marshal v of None \<Rightarrow> None
     | Some t \<Rightarrow> map_option (\<lambda>r. (k, t) # r) (marshal_members kvs))"
| "marshal_list [] = Some []"
| "marshal_list (v # vs) = (case marshal v of None \<Rightarrow> None
     | Some t \<Rightarrow> map_option (\<lambda>r. t # r) (marshal_list vs))"

subsection \<open>Structured chunking\<close>

fun splittable :: "json \<Rightarrow> bool" where
  "splittable (JObj kvs) = (kvs \<noteq> [])"
| "splittable (JArr vs) = (vs \<noteq> [])"
| "splittable _ = False"

definition array_label :: "nat \<Rightarrow> nat \<Rightarrow> string" where
  "array_label start e =
     (if start = e then ''['' @ go_itoa start @ '']''
      else ''['' @ go_itoa start @ ''-'' @ go_itoa e @ '']'')"

definition flush_array_chunk :: "json list \<Rightarrow> string list \<Rightarrow> nat \<Rightarrow> nat \<Rightarrow> content_chunk list" where
  "flush_array_chunk buf path start e =
     (case marshal (JArr buf) of None \<Rightarrow> []
      | Some s \<Rightarrow>
          [mk_chunk s (if path = [] then array_label start e
                       else go_join path path_sep @ path_sep @ array_label start e) ''prose'' 0 0])"

definition elem_path :: "string list \<Rightarrow> nat \<Rightarrow> string list" where
  "elem_path path i = path @ [''['' @ go_itoa i @ '']'']"

definition too_long :: "nat \<Rightarrow> string option \<Rightarrow> bool" where
  "too_long m t = (case t of Some s \<Rightarrow> m < length s | None \<Rightarrow> False)"

text \<open>
  \<open>chunkStructured\<close> on an object is the loop over its entries, on an array \<open>chunkArray\<close>. The loop
  of \<open>chunkArray\<close> carries the index, the buffer and the start of the buffer.
\<close>

fun chunk_structured :: "json \<Rightarrow> string list \<Rightarrow> nat \<Rightarrow> content_chunk list"
  and chunk_object :: "(string \<times> json) list \<Rightarrow> string list \<Rightarrow> nat \<Rightarrow> content_chunk list"
  and chunk_array :: "json list \<Rightarrow> nat \<Rightarrow> json list \<Rightarrow> nat \<Rightarrow> string list \<Rightarrow> nat \<Rightarrow> content_chunk list" where
  "chunk_structured (JObj kvs) path m = chunk_object kvs path m"
| "chunk_structured (JArr vs) path m = (if vs = [] then [] else chunk_array vs 0 [] 0 path m)"
| "chunk_structured (JScalar _) path m = []"
| "chunk_structured JBad path m = []"
| "chunk_object [] path m = []"
| "chunk_object ((k, child) # kvs) path m =
     (case marshal (JObj [(k, child)]) of None \<Rightarrow> []
      | Some s \<Rightarrow>
          if m < length s \<and> splittable child then chunk_structured child (path @ [k]) m
          else [mk_chunk s (go_join (path @ [k]) path_sep) ''prose'' 0 0])
     @ chunk_object kvs path m"
| "chunk_array [] i buf start path m =
     (if buf = [] then [] else flush_array_chunk buf path start (i - 1))"
| "chunk_array (x # xs) i buf start path m =
     (case marshal (JArr (buf @ [x])) of
        None \<Rightarrow> chunk_array xs (Suc i) buf start path m
      | Some s \<Rightarrow>
          if m < length s \<and> buf \<noteq> [] then
            flush_array_chunk buf path start (i - 1) @
            (if too_long m (marshal (JArr [x])) \<and> splittable x
             then chunk_structured x (elem_path path i) m @ chunk_array xs (Suc i) [] (Suc i) path m
             else chunk_array xs (Suc i) [x] i path m)
          else if buf = [] \<and> too_long m (marshal (JArr [x])) \<and> splittable x
          then chunk_structured x (elem_path path i) m @ chunk_array xs (Suc i) [] (Suc i) path m
          else chunk_array xs (Suc i) (buf @ [x]) start path m)"

text \<open>The fallback of both formats: an unsplittable document is one chunk.\<close>

definition structured_or_whole :: "json \<Rightarrow> string \<Rightarrow> nat \<Rightarrow> content_chunk list" where
  "structured_or_whole v content m =
     (let chunks = chunk_structured v [] m in
      assign_indices (if chunks = [] then [mk_chunk content [] ''prose'' 0 0] else chunks))"

definition chunk_json :: "(string \<Rightarrow> json option) \<Rightarrow> string \<Rightarrow> nat \<Rightarrow> content_chunk list" where
  "chunk_json decode content m =
     (case decode content of None \<Rightarrow> chunk_plain_text content m
      | Some v \<Rightarrow> structured_or_whole v content m)"

text \<open>Decoded YAML: maps with string keys, maps with any keys. A key that is not a string is given
  by the text \<open>yaml.Marshal\<close> writes for it.\<close>

datatype yaml_key = YStr string | YOther string

datatype yaml = YScalar string | YBad | YMap "(string \<times> yaml) list"
  | YAnyMap "(yaml_key \<times> yaml) list" | YSeq "yaml list"

fun stringify :: "yaml_key \<Rightarrow> string" where
  "stringify (YStr s) = s"
| "stringify (YOther b) = (if b \<noteq> [] \<and> List.last b = nl then butlast b else b)"

fun normalize_yaml :: "yaml \<Rightarrow> json"
  and normalize_members :: "(string \<times> yaml) list \<Rightarrow> (string \<times> json) list"
  and normalize_any :: "(yaml_key \<times> yaml) list \<Rightarrow> (string \<times> json) list \<Rightarrow> (string \<times> json) list"
  and normalize_list :: "yaml list \<Rightarrow> json list" where
  "normalize_yaml (YScalar s) = JScalar s"
| "normalize_yaml YBad = JBad"
| "normalize_yaml (YMap kvs) = JObj (normalize_members kvs)"
| "normalize_yaml (YAnyMap kvs) = JObj (normalize_any kvs [])"
| "normalize_yaml (YSeq vs) = JArr (normalize_list vs)"
| "normalize_members [] = []"
| "normalize_members ((k, v) # kvs) = (k, normalize_yaml v) # normalize_members kvs"
| "normalize_any [] out = out"
| "normalize_any ((k, v) # kvs) out =
     normalize_any kvs (AList.update (stringify k) (normalize_yaml v) out)"
| "normalize_list [] = []"
| "normalize_list (v # vs) = normalize_yaml v # normalize_list vs"

definition chunk_yaml :: "(string \<Rightarrow> yaml option) \<Rightarrow> string \<Rightarrow> nat \<Rightarrow> content_chunk list" where
  "chunk_yaml decode content m =
     (case decode content of None \<Rightarrow> chunk_plain_text content m
      | Some v \<Rightarrow> structured_or_whole (normalize_yaml v) content m)"

text \<open>The third-party and library parsers \<open>ChunkContent\<close> reaches.\<close>

record parsers =
  pa_markdown :: "string \<Rightarrow> heading_node list"
  pa_json :: "string \<Rightarrow> json option"
  pa_yaml :: "string \<Rightarrow> yaml option"

definition chunk_content ::
  "parsers \<Rightarrow> string \<Rightarrow> (chunk_config \<Rightarrow> chunk_config) list \<Rightarrow> content_chunk list option" where
  "chunk_content pa content opts =
     (if content = [] then Some []
      else
        (let cfg = fold (\<lambda>opt c. opt c) opts default_chunk_config; m = cf_max_chunk_bytes cfg in
         case cf_format cfg of
           FormatPlainText \<Rightarrow> Some (chunk_plain_text content m)
         | FormatJSON \<Rightarrow> Some (chunk_json (pa_json pa) content m)
         | FormatYAML \<Rightarrow> Some (chunk_yaml (pa_yaml pa) content m)
         | _ \<Rightarrow> chunk_markdown (pa_markdown pa) content m))"

subsection \<open>No scalar is lost, no splittable value is oversized\<close>

fun leaves :: "json \<Rightarrow> json list"
  and leaves_members :: "(string \<times> json) list \<Rightarrow> json list"
  and leaves_list :: "json list \<Rightarrow> json list" where
  "leaves (JObj kvs) = (if kvs = [] then [JObj []] else leaves_members kvs)"
| "leaves (JArr vs) = (if vs = [] then [JArr []] else leaves_list vs)"
| "leaves (JScalar s) = [JScalar s]"
| "leaves JBad = [JBad]"
| "leaves_members [] = []"
| "leaves_members ((k, v) # kvs) = leaves v @ leaves_members kvs"
| "leaves_list [] = []"
| "leaves_list (v # vs) = leaves v @ leaves_list vs"

lemma leaves_list_append [simp]: "leaves_list (xs @ ys) = leaves_list xs @ leaves_list ys"
  by (induction xs) auto

lemma marshal_list_append:
  "marshal_list (xs @ ys) = (case marshal_list xs of None \<Rightarrow> None
     | Some a \<Rightarrow> map_option ((@) a) (marshal_list ys))"
  by (induction xs) (auto split: option.splits simp: option.map_comp comp_def option.map_ident cong: map_option_cong)

lemma marshal_list_append_ok:
  "marshal_list (xs @ ys) \<noteq> None \<longleftrightarrow> marshal_list xs \<noteq> None \<and> marshal_list ys \<noteq> None"
  by (auto simp: marshal_list_append split: option.splits)

text \<open>A value a chunk may hold: it fits, or it is a single entry or element that cannot be split.\<close>

definition chunk_value_ok :: "nat \<Rightarrow> json \<Rightarrow> bool" where
  "chunk_value_ok m v \<longleftrightarrow> (\<exists>s. marshal v = Some s \<and> length s \<le> m)
     \<or> (\<exists>k c. v = JObj [(k, c)] \<and> \<not> splittable c) \<or> (\<exists>c. v = JArr [c] \<and> \<not> splittable c)"

definition holds_values :: "nat \<Rightarrow> content_chunk list \<Rightarrow> json list \<Rightarrow> bool" where
  "holds_values m cs vs \<longleftrightarrow>
     map (Some \<circ> cc_content) cs = map marshal vs \<and> (\<forall>v \<in> set vs. chunk_value_ok m v)"

lemma holds_values_Nil [simp]: "holds_values m [] []"
  by (simp add: holds_values_def)

lemma holds_values_append:
  "holds_values m cs vs \<Longrightarrow> holds_values m ds ws \<Longrightarrow> holds_values m (cs @ ds) (vs @ ws)"
  by (auto simp: holds_values_def)

lemma holds_values_single:
  "marshal v = Some s \<Longrightarrow> chunk_value_ok m v \<Longrightarrow> holds_values m [mk_chunk s p t a b] [v]"
  by (simp add: holds_values_def)

lemma flush_array_chunk_holds:
  assumes "marshal_list buf \<noteq> None" and "buf \<noteq> []" and "chunk_value_ok m (JArr buf)"
  shows "holds_values m (flush_array_chunk buf path a b) [JArr buf]"
  using assms by (auto simp: flush_array_chunk_def holds_values_def)

lemma chunk_value_ok_elem:
  "marshal v \<noteq> None \<Longrightarrow> \<not> (too_long m (marshal (JArr [v])) \<and> splittable v) \<Longrightarrow> chunk_value_ok m (JArr [v])"
  by (auto simp: chunk_value_ok_def too_long_def)

lemma chunk_value_ok_fits: "marshal v = Some s \<Longrightarrow> length s \<le> m \<Longrightarrow> chunk_value_ok m v"
  by (auto simp: chunk_value_ok_def)

lemma chunk_structured_holds:
  shows "marshal v \<noteq> None \<Longrightarrow> splittable v \<Longrightarrow>
      \<exists>vs. holds_values m (chunk_structured v path m) vs \<and> leaves_list vs = leaves v"
    and "marshal_members kvs \<noteq> None \<Longrightarrow>
      \<exists>vs. holds_values m (chunk_object kvs path m) vs \<and> leaves_list vs = leaves_members kvs"
    and "marshal_list (buf @ xs) \<noteq> None \<Longrightarrow> buf = [] \<or> chunk_value_ok m (JArr buf) \<Longrightarrow>
      \<exists>vs. holds_values m (chunk_array xs i buf start path m) vs \<and> leaves_list vs = leaves_list (buf @ xs)"
proof (induction v path m and kvs path m and xs i buf start path m
    rule: chunk_structured_chunk_object_chunk_array.induct)
  case (1 kvs path m)
  then show ?case by auto
next
  case (2 vs path m)
  then show ?case by auto
next
  case (3 s path m)
  then show ?case by simp
next
  case (4 path m)
  then show ?case by simp
next
  case (5 path m)
  show ?case by (rule exI [of _ "[]"]) simp
next
  case (6 k child kvs path m)
  from "6.prems" obtain t where child: "marshal child = Some t" and rest: "marshal_members kvs \<noteq> None"
    by (auto split: option.splits)
  then obtain s where s: "marshal (JObj [(k, child)]) = Some s" by simp
  obtain ws where ws: "holds_values m (chunk_object kvs path m) ws" "leaves_list ws = leaves_members kvs"
    using "6.IH"(2) rest by blast
  show ?case
  proof (cases "m < length s \<and> splittable child")
    case True
    then obtain us where "holds_values m (chunk_structured child (path @ [k]) m) us"
      "leaves_list us = leaves child"
      using "6.IH"(1) [OF s] child by auto
    with True s ws show ?thesis
      by (intro exI [of _ "us @ ws"]) (auto intro: holds_values_append)
  next
    case False
    with s have "chunk_value_ok m (JObj [(k, child)])"
      by (fastforce simp: chunk_value_ok_def)
    then have "holds_values m [mk_chunk s (go_join (path @ [k]) path_sep) ''prose'' 0 0] [JObj [(k, child)]]"
      by (rule holds_values_single [OF s])
    from holds_values_append [OF this ws(1)] False s ws(2) show ?thesis
      by (intro exI [of _ "[JObj [(k, child)]] @ ws"]) auto
  qed
next
  case (7 i buf start path m)
  show ?case
  proof (cases "buf = []")
    case True
    then show ?thesis by (intro exI [of _ "[]"]) simp
  next
    case False
    with 7 have "holds_values m (flush_array_chunk buf path start (i - 1)) [JArr buf]"
      by (intro flush_array_chunk_holds) auto
    with False show ?thesis by (intro exI [of _ "[JArr buf]"]) simp
  qed
next
  case (8 x xs i buf start path m)
  let ?split = "too_long m (marshal (JArr [x])) \<and> splittable x"
  from "8.prems"(1) have ok: "marshal_list buf \<noteq> None" "marshal x \<noteq> None" "marshal_list xs \<noteq> None"
    by (auto simp: marshal_list_append split: option.splits)
  then obtain s where s: "marshal (JArr (buf @ [x])) = Some s"
    by (auto simp: marshal_list_append)
  have single: "chunk_value_ok m (JArr [x])" if "\<not> ?split"
    using chunk_value_ok_elem ok(2) that by blast
  show ?case
  proof (cases "m < length s \<and> buf \<noteq> []")
    case full: True
    have flush: "holds_values m (flush_array_chunk buf path start (i - 1)) [JArr buf]"
      using full ok(1) "8.prems"(2) by (intro flush_array_chunk_holds) auto
    show ?thesis
    proof (cases ?split)
      case True
      then obtain us where us: "holds_values m (chunk_structured x (elem_path path i) m) us"
        "leaves_list us = leaves x"
        using "8.IH"(2) [OF s full True] ok by auto
      obtain ws where ws: "holds_values m (chunk_array xs (Suc i) [] (Suc i) path m) ws"
        "leaves_list ws = leaves_list xs"
        using "8.IH"(3) [OF s full True] ok by auto
      from holds_values_append [OF flush holds_values_append [OF us(1) ws(1)]] s full True us ws
      show ?thesis by (intro exI [of _ "[JArr buf] @ us @ ws"]) auto
    next
      case False
      then obtain ws where ws: "holds_values m (chunk_array xs (Suc i) [x] i path m) ws"
        "leaves_list ws = leaves_list ([x] @ xs)"
        using "8.IH"(4) [OF s full False] ok single by (auto split: option.splits)
      from holds_values_append [OF flush ws(1)] s full False ws
      show ?thesis by (intro exI [of _ "[JArr buf] @ ws"]) auto
    qed
  next
    case room: False
    show ?thesis
    proof (cases "buf = [] \<and> ?split")
      case True
      then obtain us where us: "holds_values m (chunk_structured x (elem_path path i) m) us"
        "leaves_list us = leaves x"
        using "8.IH"(5) [OF s room] ok by auto
      obtain ws where ws: "holds_values m (chunk_array xs (Suc i) [] (Suc i) path m) ws"
        "leaves_list ws = leaves_list xs"
        using "8.IH"(6) [OF s room] True ok by auto
      from holds_values_append [OF us(1) ws(1)] s room True us ws
      show ?thesis by (intro exI [of _ "us @ ws"]) auto
    next
      case False
      have "chunk_value_ok m (JArr (buf @ [x]))"
      proof (cases "buf = []")
        case True
        with False single show ?thesis by auto
      next
        case False
        with room s show ?thesis by (intro chunk_value_ok_fits) auto
      qed
      then obtain ws where "holds_values m (chunk_array xs (Suc i) (buf @ [x]) start path m) ws"
        "leaves_list ws = leaves_list ((buf @ [x]) @ xs)"
        using "8.IH"(7) [OF s room] False "8.prems"(1) by auto
      with s room False show ?thesis by (intro exI [of _ ws]) auto
    qed
  qed
qed

text \<open>C39. Structured chunking loses and duplicates nothing: for a value that can be encoded, the chunks
  are the encodings of values whose scalars, in order, are those of the document, and each of those
  values fits the limit or is a single entry that cannot be split.\<close>

theorem chunk_structured_lossless:
  assumes "marshal v \<noteq> None" and "splittable v"
  shows "\<exists>vs. map (\<lambda>c. Some (cc_content c)) (chunk_structured v path m) = map marshal vs
     \<and> leaves_list vs = leaves v \<and> (\<forall>w \<in> set vs. chunk_value_ok m w)"
  using chunk_structured_holds(1) [OF assms, of m path] by (auto simp: holds_values_def comp_def)

theorem chunk_structured_lossless_witness:
  "\<exists>vs. map (\<lambda>c. Some (cc_content c)) (chunk_structured (JArr [JScalar ''1'', JScalar ''2'', JScalar ''3'']) [] 5)
       = map marshal vs
     \<and> leaves_list vs = [JScalar ''1'', JScalar ''2'', JScalar ''3''] \<and> (\<forall>w \<in> set vs. chunk_value_ok 5 w)"
  using chunk_structured_lossless [of "JArr [JScalar ''1'', JScalar ''2'', JScalar ''3'']" "[]" 5] by simp

text \<open>A value that cannot be encoded takes its whole top-level entry with it: encodable scalars
  beside it are dropped without an error, while the other entries are indexed.\<close>

theorem unencodable_sibling_is_dropped:
  "map cc_content (structured_or_whole
      (JObj [(''a'', JObj [(''x'', JBad), (''y'', JScalar ''1'')]), (''b'', JScalar ''2'')]) content 4096)
   = [''{'' @ json_string ''b'' @ '':2}'']"
  by (simp add: structured_or_whole_def object_text_def member_text_def assign_indices_def renumber_def)

text \<open>\<open>ChunkContent\<close> numbers the chunks it returns from zero, in every format and with every
  option.\<close>

theorem chunk_content_numbered:
  assumes "chunk_content pa content opts = Some chunks"
  shows "\<forall>i < length chunks. cc_index (chunks ! i) = i"
proof -
  have plain: "\<forall>i < length (chunk_plain_text content m). cc_index (chunk_plain_text content m ! i) = i" for m
    by (simp add: chunk_plain_text_def)
  have struct: "\<forall>i < length (structured_or_whole v content m). cc_index (structured_or_whole v content m ! i) = i"
    for v m by (auto simp: structured_or_whole_def Let_def)
  have md: "\<forall>i < length cs. cc_index (cs ! i) = i" if "chunk_markdown f content m = Some cs" for f m cs
    using that plain by (auto simp: chunk_markdown_def bind_Some_iff split: if_splits)
  from assms show ?thesis
    using plain struct md
    by (auto simp: chunk_content_def Let_def chunk_json_def chunk_yaml_def split: if_splits format.splits option.splits)
qed

text \<open>Parsers that find no heading and refuse every document: enough for plain text.\<close>

definition no_parsers :: parsers where
  "no_parsers = \<lparr>pa_markdown = (\<lambda>_. []), pa_json = (\<lambda>_. None), pa_yaml = (\<lambda>_. None)\<rparr>"

theorem chunk_content_numbered_witness:
  "\<exists>chunks. chunk_content no_parsers ''abcdef'' [with_chunk_format FormatPlainText, with_max_chunk_bytes 4] = Some chunks
     \<and> length chunks = 2 \<and> cc_index (chunks ! 1) = 1"
proof -
  have "chunk_content no_parsers ''abcdef'' [with_chunk_format FormatPlainText, with_max_chunk_bytes 4]
      = Some (chunk_plain_text ''abcdef'' 4)"
    by (simp add: chunk_content_def with_chunk_format_def with_max_chunk_bytes_def
        default_chunk_config_def)
  moreover have "length (chunk_plain_text ''abcdef'' 4) = 2" by code_simp
  ultimately show ?thesis
    using chunk_content_numbered [of no_parsers "''abcdef''"
        "[with_chunk_format FormatPlainText, with_max_chunk_bytes 4]"] by auto
qed

end
