(* ===== verification/StoreInterface.thy ===== *)
theory StoreInterface
  imports StoreTypes
begin

text \<open>
  The interface \<open>Store\<close> of \<open>store.go\<close>: a table of operations over the store's own state, and the
  contract its clients (\<open>Searcher\<close>, \<open>Gist\<close>) rely on. The contract speaks about a store through
  the list of its sources and the list of its chunks, oldest first.
\<close>

datatype store_error = StoreClosed | StoreFailure string

record 's store_ops =
  so_save_source :: "'s \<Rightarrow> string \<Rightarrow> format \<Rightarrow> (store_error + source) \<times> 's"
  so_save_chunk :: "'s \<Rightarrow> chunk \<Rightarrow> (store_error + chunk) \<times> 's"
  so_search_porter :: "'s \<Rightarrow> search_params \<Rightarrow> store_error + search_match list"
  so_search_trigram :: "'s \<Rightarrow> search_params \<Rightarrow> store_error + search_match list"
  so_vocabulary_terms :: "'s \<Rightarrow> store_error + string list"
  so_sources :: "'s \<Rightarrow> store_error + source list"
  so_stats :: "'s \<Rightarrow> store_error + store_stats"
  so_close :: "'s \<Rightarrow> 's"

definition match_of_chunk :: "chunk \<Rightarrow> rat \<Rightarrow> string \<Rightarrow> search_match" where
  "match_of_chunk c score layer =
     \<lparr>sm_chunk_id = ck_id c, sm_source_id = ck_source_id c, sm_heading_path = ck_heading_path c,
      sm_content = ck_content c, sm_content_type = ck_content_type c, sm_score = score,
      sm_match_layer = layer\<rparr>"

definition source_admits :: "source list \<Rightarrow> nat \<Rightarrow> string \<Rightarrow> bool" where
  "source_admits srcs i flt \<longleftrightarrow> flt = [] \<or> (\<exists>s \<in> set srcs. src_id s = i \<and> src_label s = flt)"

definition hits_ok :: "source list \<Rightarrow> chunk list \<Rightarrow> search_params \<Rightarrow> search_match list \<Rightarrow> bool" where
  "hits_ok srcs cks p ms \<longleftrightarrow>
     (\<forall>m \<in> set ms. \<exists>c \<in> set cks. m = match_of_chunk c (sm_score m) (sm_match_layer m)
        \<and> source_admits srcs (ck_source_id c) (sp_source_filter p))
     \<and> (0 < sp_limit p \<longrightarrow> int (length ms) \<le> sp_limit p)"

definition labels_of :: "source list \<Rightarrow> (nat \<times> string) list" where
  "labels_of srcs = map (\<lambda>s. (src_id s, src_label s)) srcs"

locale store_contract =
  fixes ops :: "'s store_ops"
    and invar :: "'s \<Rightarrow> bool" and closed :: "'s \<Rightarrow> bool"
    and sources :: "'s \<Rightarrow> source list" and chunks :: "'s \<Rightarrow> chunk list"
  assumes save_source_open: "invar s \<Longrightarrow> \<not> closed s \<Longrightarrow>
      \<exists>src s'. so_save_source ops s l f = (Inr src, s') \<and> invar s' \<and> \<not> closed s'
        \<and> sources s' = sources s @ [src] \<and> chunks s' = chunks s
        \<and> src_label src = l \<and> src_format src = f \<and> src_id src \<notin> src_id ` set (sources s)"
    and save_chunk_open: "invar s \<Longrightarrow> \<not> closed s \<Longrightarrow>
      \<exists>c' s'. so_save_chunk ops s c = (Inr c', s') \<and> invar s' \<and> \<not> closed s'
        \<and> chunks s' = chunks s @ [c'] \<and> c'\<lparr>ck_id := ck_id c\<rparr> = c
        \<and> ck_id c' \<notin> ck_id ` set (chunks s) \<and> labels_of (sources s') = labels_of (sources s)"
    and distinct_ids: "invar s \<Longrightarrow> distinct (map src_id (sources s))"
    and save_source_closed: "closed s \<Longrightarrow> so_save_source ops s l f = (Inl StoreClosed, s)"
    and save_chunk_closed: "closed s \<Longrightarrow> so_save_chunk ops s c = (Inl StoreClosed, s)"
    and porter_hits: "invar s \<Longrightarrow> so_search_porter ops s p = Inr ms \<Longrightarrow> hits_ok (sources s) (chunks s) p ms"
    and trigram_hits: "invar s \<Longrightarrow> so_search_trigram ops s p = Inr ms \<Longrightarrow> hits_ok (sources s) (chunks s) p ms"
    and sources_open: "\<not> closed s \<Longrightarrow> so_sources ops s = Inr (sources s)"
    and reads_closed: "closed s \<Longrightarrow> so_sources ops s = Inl StoreClosed"
    and close_closes: "invar s \<Longrightarrow> invar (so_close ops s) \<and> closed (so_close ops s)"

end
