(* ===== verification/MemoryStore.thy ===== *)
theory MemoryStore
  imports StoreInterface
begin

text \<open>
  \<open>store_memory.go\<close>: the in-memory store. Every method runs under the store's mutex, so a method
  call is one step of the state. The identifiers count from 1. Two things are parameters: \<open>ul\<close>, the
  Unicode lower-case table, and \<open>srt\<close>, the routine \<open>sort.Slice\<close> that orders the hits by descending
  score and leaves the order of equal scores open. A score is the exact quotient of two counts; it
  orders as the \<open>float64\<close> quotient of the code does as long as chunks have fewer than \<open>2 ^ 26\<close> words
  and bytes.
\<close>

record memory_store =
  ms_sources :: "source list"
  ms_chunks :: "chunk list"
  ms_next_src :: nat
  ms_next_chk :: nat
  ms_closed :: bool

definition new_memory_store :: memory_store where
  "new_memory_store = \<lparr>ms_sources = [], ms_chunks = [], ms_next_src = 0, ms_next_chk = 0, ms_closed = False\<rparr>"

definition ms_save_source :: "memory_store \<Rightarrow> string \<Rightarrow> format \<Rightarrow> (store_error + source) \<times> memory_store" where
  "ms_save_source m label f =
     (if ms_closed m then (Inl StoreClosed, m)
      else (let n = ms_next_src m + 1;
                s = \<lparr>src_id = n, src_label = label, src_format = f, src_bytes_indexed = 0, src_chunk_count = 0\<rparr>
            in (Inr s, m\<lparr>ms_next_src := n, ms_sources := ms_sources m @ [s]\<rparr>)))"

text \<open>The loop over the sources stops at the first one with the chunk's source id.\<close>

fun credit_source :: "chunk \<Rightarrow> source list \<Rightarrow> source list" where
  "credit_source c [] = []"
| "credit_source c (s # ss) =
     (if src_id s = ck_source_id c
      then s\<lparr>src_chunk_count := src_chunk_count s + 1,
             src_bytes_indexed := src_bytes_indexed s + length (ck_content c)\<rparr> # ss
      else s # credit_source c ss)"

definition ms_save_chunk :: "memory_store \<Rightarrow> chunk \<Rightarrow> (store_error + chunk) \<times> memory_store" where
  "ms_save_chunk m c =
     (if ms_closed m then (Inl StoreClosed, m)
      else (let n = ms_next_chk m + 1; c' = c\<lparr>ck_id := n\<rparr>
            in (Inr c', m\<lparr>ms_next_chk := n, ms_chunks := ms_chunks m @ [c'],
                          ms_sources := credit_source c' (ms_sources m)\<rparr>)))"

definition ms_matches_source_filter :: "memory_store \<Rightarrow> nat \<Rightarrow> string \<Rightarrow> bool" where
  "ms_matches_source_filter m i flt =
     (if flt = [] then True else list_ex (\<lambda>s. src_id s = i \<and> src_label s = flt) (ms_sources m))"

definition take_limit :: "int \<Rightarrow> 'a list \<Rightarrow> 'a list" where
  "take_limit limit xs = (if limit \<le> 0 \<or> limit > int (length xs) then xs else take (nat limit) xs)"

definition porter_score :: "string list \<Rightarrow> string list \<Rightarrow> nat \<times> rat" where
  "porter_score query_words content_words =
     (let matched = length (filter (\<lambda>q. q \<in> set content_words) query_words)
      in (matched, if content_words = [] then 0 else of_nat matched / of_nat (length content_words)))"

definition porter_hit :: "(nat \<Rightarrow> nat) \<Rightarrow> memory_store \<Rightarrow> string \<Rightarrow> string list \<Rightarrow> chunk \<Rightarrow> search_match option" where
  "porter_hit ul m flt query_words c =
     (if \<not> ms_matches_source_filter m (ck_source_id c) flt then None
      else (let (matched, score) = porter_score query_words (go_fields (go_tolower ul (ck_content c)))
            in if matched = 0 then None else Some (match_of_chunk c score ''porter'')))"

definition ms_search_porter ::
  "(nat \<Rightarrow> nat) \<Rightarrow> (search_match list \<Rightarrow> search_match list) \<Rightarrow> memory_store \<Rightarrow> search_params
   \<Rightarrow> store_error + search_match list" where
  "ms_search_porter ul srt m p =
     (if ms_closed m then Inl StoreClosed
      else (let query_words = go_fields (go_tolower ul (sp_query p)) in
            if query_words = [] then Inr []
            else Inr (take_limit (sp_limit p)
                   (srt (List.map_filter (porter_hit ul m (sp_source_filter p) query_words) (ms_chunks m))))))"

definition trigram_hit :: "(nat \<Rightarrow> nat) \<Rightarrow> memory_store \<Rightarrow> string \<Rightarrow> string \<Rightarrow> chunk \<Rightarrow> search_match option" where
  "trigram_hit ul m flt lower_query c =
     (if \<not> ms_matches_source_filter m (ck_source_id c) flt then None
      else (let lower_content = go_tolower ul (ck_content c) in
            if \<not> go_contains lower_content lower_query then None
            else Some (match_of_chunk c
                   (if lower_content = [] then 0
                    else of_nat (length lower_query) / of_nat (length lower_content)) ''trigram'')))"

definition ms_search_trigram ::
  "(nat \<Rightarrow> nat) \<Rightarrow> (search_match list \<Rightarrow> search_match list) \<Rightarrow> memory_store \<Rightarrow> search_params
   \<Rightarrow> store_error + search_match list" where
  "ms_search_trigram ul srt m p =
     (if ms_closed m then Inl StoreClosed
      else (let lower_query = go_tolower ul (sp_query p) in
            if lower_query = [] then Inr []
            else Inr (take_limit (sp_limit p)
                   (srt (List.map_filter (trigram_hit ul m (sp_source_filter p) lower_query) (ms_chunks m))))))"

text \<open>The terms of a Go map come in no fixed order; the model lists each once.\<close>

definition ms_vocabulary_terms :: "(nat \<Rightarrow> nat) \<Rightarrow> memory_store \<Rightarrow> store_error + string list" where
  "ms_vocabulary_terms ul m =
     (if ms_closed m then Inl StoreClosed
      else Inr (remdups (map (go_tolower ul) (concat (map (\<lambda>c. go_fields (ck_content c)) (ms_chunks m))))))"

definition ms_get_sources :: "memory_store \<Rightarrow> store_error + source list" where
  "ms_get_sources m = (if ms_closed m then Inl StoreClosed else Inr (ms_sources m))"

definition ms_stats :: "memory_store \<Rightarrow> store_error + store_stats" where
  "ms_stats m =
     (if ms_closed m then Inl StoreClosed
      else Inr \<lparr>ss_chunk_count = length (ms_chunks m), ss_source_count = length (ms_sources m),
                ss_bytes_indexed = sum_list (map src_bytes_indexed (ms_sources m))\<rparr>)"

definition ms_close :: "memory_store \<Rightarrow> memory_store" where
  "ms_close m = m\<lparr>ms_closed := True\<rparr>"

definition memory_ops ::
  "(nat \<Rightarrow> nat) \<Rightarrow> (search_match list \<Rightarrow> search_match list) \<Rightarrow> memory_store store_ops" where
  "memory_ops ul srt =
     \<lparr>so_save_source = ms_save_source, so_save_chunk = ms_save_chunk,
      so_search_porter = ms_search_porter ul srt, so_search_trigram = ms_search_trigram ul srt,
      so_vocabulary_terms = ms_vocabulary_terms ul, so_sources = ms_get_sources,
      so_stats = ms_stats, so_close = ms_close\<rparr>"

subsection \<open>Reachable stores\<close>

text \<open>The interface asks that a saved chunk references a valid source; the store does not check it,
  so it is the premise of the step.\<close>

inductive memory_step :: "memory_store \<Rightarrow> memory_store \<Rightarrow> bool" where
  step_source: "memory_step m (snd (ms_save_source m l f))"
| step_chunk: "ck_source_id c \<in> src_id ` set (ms_sources m) \<Longrightarrow> memory_step m (snd (ms_save_chunk m c))"
| step_close: "memory_step m (ms_close m)"

inductive_cases memory_stepE: "memory_step m m'"

inductive memory_reachable :: "memory_store \<Rightarrow> bool" where
  reach_new: "memory_reachable new_memory_store"
| reach_step: "memory_reachable m \<Longrightarrow> memory_step m m' \<Longrightarrow> memory_reachable m'"

text \<open>The chunks credited to a source.\<close>

definition chunks_of :: "memory_store \<Rightarrow> nat \<Rightarrow> chunk list" where
  "chunks_of m i = filter (\<lambda>c. ck_source_id c = i) (ms_chunks m)"

definition source_tally :: "chunk list \<Rightarrow> source \<Rightarrow> bool" where
  "source_tally cks s \<longleftrightarrow>
     src_chunk_count s = length (filter (\<lambda>c. ck_source_id c = src_id s) cks) \<and>
     src_bytes_indexed s = sum_list (map (\<lambda>c. length (ck_content c)) (filter (\<lambda>c. ck_source_id c = src_id s) cks))"

definition memory_inv :: "memory_store \<Rightarrow> bool" where
  "memory_inv m \<longleftrightarrow>
     map src_id (ms_sources m) = [1..<Suc (ms_next_src m)] \<and>
     map ck_id (ms_chunks m) = [1..<Suc (ms_next_chk m)]"

lemma memory_inv_new: "memory_inv new_memory_store"
  by (simp add: memory_inv_def new_memory_store_def)

lemma credit_source_ids [simp]: "map src_id (credit_source c ss) = map src_id ss"
  by (induction ss) auto

lemma credit_source_labels [simp]: "labels_of (credit_source c ss) = labels_of ss"
  by (induction ss) (auto simp: labels_of_def)

lemma memory_step_inv: "memory_step m m' \<Longrightarrow> memory_inv m \<Longrightarrow> memory_inv m'"
  by (induction rule: memory_step.induct)
    (auto simp: memory_inv_def ms_save_source_def ms_save_chunk_def ms_close_def Let_def)

lemma reachable_inv: "memory_reachable m \<Longrightarrow> memory_inv m"
  by (induction rule: memory_reachable.induct) (auto simp: memory_inv_new intro: memory_step_inv)

lemma memory_inv_fresh:
  "memory_inv m \<Longrightarrow> Suc (ms_next_src m) \<notin> src_id ` set (ms_sources m)
     \<and> Suc (ms_next_chk m) \<notin> ck_id ` set (ms_chunks m)"
  unfolding memory_inv_def image_set by (metis atLeastLessThan_iff less_irrefl set_upt)

lemma memory_inv_distinct: "memory_inv m \<Longrightarrow> distinct (map src_id (ms_sources m))"
  by (simp add: memory_inv_def del: upt_Suc)

lemma source_admits_filter [simp]: "ms_matches_source_filter m i flt = source_admits (ms_sources m) i flt"
  by (auto simp: ms_matches_source_filter_def source_admits_def list_ex_iff)

lemma take_limit_bound: "0 < limit \<Longrightarrow> int (length (take_limit limit xs)) \<le> limit"
  by (auto simp: take_limit_def)

lemma take_limit_take: "\<exists>n. take_limit limit xs = take n xs"
  unfolding take_limit_def by (metis take_all order_refl)

lemma set_take_limit: "x \<in> set (take_limit limit xs) \<Longrightarrow> x \<in> set xs"
  using take_limit_take [of limit xs] by (auto dest: in_set_takeD)

lemma set_map_filter: "set (List.map_filter f xs) = {y. \<exists>x \<in> set xs. f x = Some y}"
  by (force simp: List.map_filter_def)

lemma porter_hit_SomeD:
  "porter_hit ul m flt qs c = Some h \<Longrightarrow>
   h = match_of_chunk c (sm_score h) (sm_match_layer h) \<and> source_admits (ms_sources m) (ck_source_id c) flt"
  by (auto simp: porter_hit_def match_of_chunk_def Let_def split: if_splits prod.splits)

lemma trigram_hit_SomeD:
  "trigram_hit ul m flt q c = Some h \<Longrightarrow>
   h = match_of_chunk c (sm_score h) (sm_match_layer h) \<and> source_admits (ms_sources m) (ck_source_id c) flt"
  by (auto simp: trigram_hit_def match_of_chunk_def Let_def split: if_splits)

lemma memory_hits:
  assumes "\<And>hits. set (srt hits) = set hits"
    and "\<And>c h. hit c = Some h \<Longrightarrow> h = match_of_chunk c (sm_score h) (sm_match_layer h)
      \<and> source_admits (ms_sources m) (ck_source_id c) (sp_source_filter p)"
  shows "hits_ok (ms_sources m) (ms_chunks m) p
    (take_limit (sp_limit p) (srt (List.map_filter hit (ms_chunks m))))"
proof -
  have "\<exists>c \<in> set (ms_chunks m). h = match_of_chunk c (sm_score h) (sm_match_layer h)
      \<and> source_admits (ms_sources m) (ck_source_id c) (sp_source_filter p)"
    if "h \<in> set (take_limit (sp_limit p) (srt (List.map_filter hit (ms_chunks m))))" for h
  proof -
    from set_take_limit [OF that] obtain c where "c \<in> set (ms_chunks m)" "hit c = Some h"
      by (auto simp: assms(1) set_map_filter)
    with assms(2) show ?thesis by blast
  qed
  then show ?thesis
    using take_limit_bound unfolding hits_ok_def by blast
qed

lemma no_hits_ok [simp]: "hits_ok srcs cks p []"
  by (simp add: hits_ok_def)

text \<open>The order \<open>sort.Slice\<close> is asked for: descending score.\<close>

definition higher_score :: "search_match \<Rightarrow> search_match \<Rightarrow> bool" where
  "higher_score a b \<longleftrightarrow> sm_score b < sm_score a"

lemma sorts_by_score: "sorts_by higher_score (sort_key (\<lambda>m. - sm_score m))"
  using sorts_by_sort_key [of "\<lambda>m. - sm_score m"] by (simp add: higher_score_def sorts_by_def)

interpretation by_score: slice_sort higher_score "sort_key (\<lambda>m. - sm_score m)"
  by unfold_locales (rule sorts_by_score)

text \<open>The in-memory store keeps the contract of the interface, whatever routine sorts the hits.\<close>

lemma memory_store_contract:
  assumes "sorts_by higher_score srt"
  shows "store_contract (memory_ops ul srt) memory_inv ms_closed ms_sources ms_chunks"
proof -
  have set_srt: "set (srt hits) = set hits" for hits
    using slice_sort.set_srt [of higher_score srt] assms by (simp add: slice_sort_def)
  show ?thesis
  proof
    fix m :: memory_store and l f
    assume inv: "memory_inv m" and "\<not> ms_closed m"
    then show "\<exists>src s'. so_save_source (memory_ops ul srt) m l f = (Inr src, s') \<and> memory_inv s'
        \<and> \<not> ms_closed s' \<and> ms_sources s' = ms_sources m @ [src] \<and> ms_chunks s' = ms_chunks m
        \<and> src_label src = l \<and> src_format src = f \<and> src_id src \<notin> src_id ` set (ms_sources m)"
      using memory_step_inv [OF step_source inv, of l f] memory_inv_fresh [OF inv]
      by (auto simp: memory_ops_def ms_save_source_def Let_def)
  next
    fix m :: memory_store and c
    assume inv: "memory_inv m" and "\<not> ms_closed m"
    moreover have "memory_inv (snd (ms_save_chunk m c))"
      using inv by (auto simp: memory_inv_def ms_save_chunk_def Let_def)
    ultimately show "\<exists>c' s'. so_save_chunk (memory_ops ul srt) m c = (Inr c', s') \<and> memory_inv s'
        \<and> \<not> ms_closed s' \<and> ms_chunks s' = ms_chunks m @ [c'] \<and> c'\<lparr>ck_id := ck_id c\<rparr> = c
        \<and> ck_id c' \<notin> ck_id ` set (ms_chunks m) \<and> labels_of (ms_sources s') = labels_of (ms_sources m)"
      using memory_inv_fresh [OF inv] by (auto simp: memory_ops_def ms_save_chunk_def Let_def)
  next
    fix m :: memory_store
    assume "memory_inv m"
    then show "distinct (map src_id (ms_sources m))" by (rule memory_inv_distinct)
  next
    fix m :: memory_store and p ms
    assume "so_search_porter (memory_ops ul srt) m p = Inr ms"
    then show "hits_ok (ms_sources m) (ms_chunks m) p ms"
      using memory_hits [OF set_srt porter_hit_SomeD]
      by (auto simp: memory_ops_def ms_search_porter_def Let_def split: if_splits)
  next
    fix m :: memory_store and p ms
    assume "so_search_trigram (memory_ops ul srt) m p = Inr ms"
    then show "hits_ok (ms_sources m) (ms_chunks m) p ms"
      using memory_hits [OF set_srt trigram_hit_SomeD]
      by (auto simp: memory_ops_def ms_search_trigram_def Let_def split: if_splits)
  qed (auto simp: memory_ops_def ms_save_source_def ms_save_chunk_def ms_get_sources_def ms_close_def
      memory_inv_def)
qed

interpretation mem: store_contract "memory_ops ul (sort_key (\<lambda>m. - sm_score m))" memory_inv ms_closed
    ms_sources ms_chunks for ul
  by (rule memory_store_contract) (rule sorts_by_score)

subsection \<open>Counts\<close>

lemma credit_source_tally:
  assumes "distinct (map src_id ss)" and "\<forall>s \<in> set ss. source_tally cks s" and "s \<in> set (credit_source c ss)"
  shows "source_tally (cks @ [c]) s"
  using assms
proof (induction ss)
  case Nil
  then show ?case by simp
next
  case (Cons a ss)
  have tail: "source_tally (cks @ [c]) t" if "t \<in> set ss" "src_id t \<noteq> ck_source_id c" for t
    using Cons.prems(2) that by (auto simp: source_tally_def)
  show ?case
  proof (cases "src_id a = ck_source_id c")
    case True
    then have "\<forall>t \<in> set ss. src_id t \<noteq> ck_source_id c" using Cons.prems(1) by force
    with tail True Cons.prems show ?thesis by (auto simp: source_tally_def)
  next
    case False
    with Cons tail show ?thesis by (auto simp: source_tally_def)
  qed
qed

definition tally_inv :: "memory_store \<Rightarrow> bool" where
  "tally_inv m \<longleftrightarrow> (\<forall>s \<in> set (ms_sources m). source_tally (ms_chunks m) s)
     \<and> (\<forall>c \<in> set (ms_chunks m). ck_source_id c \<in> src_id ` set (ms_sources m))"

lemma source_tally_new: "\<forall>c \<in> set cks. ck_source_id c \<noteq> i \<Longrightarrow>
    source_tally cks \<lparr>src_id = i, src_label = l, src_format = f, src_bytes_indexed = 0, src_chunk_count = 0\<rparr>"
  by (auto simp: source_tally_def filter_empty_conv)

lemma memory_step_tally:
  "memory_step m m' \<Longrightarrow> memory_inv m \<Longrightarrow> tally_inv m \<Longrightarrow> tally_inv m'"
proof (induction rule: memory_step.induct)
  case (step_source m l f)
  have "\<forall>c \<in> set (ms_chunks m). ck_source_id c \<noteq> Suc (ms_next_src m)"
    using step_source memory_inv_fresh [of m] unfolding tally_inv_def by metis
  with step_source source_tally_new show ?case
    by (auto simp: tally_inv_def ms_save_source_def Let_def)
next
  case (step_chunk c m)
  have ids: "src_id ` set (credit_source c' ss) = src_id ` set ss" for c' ss
    by (metis credit_source_ids image_set)
  show ?case
  proof (cases "ms_closed m")
    case True
    with step_chunk show ?thesis by (simp add: ms_save_chunk_def)
  next
    case False
    with step_chunk credit_source_tally [OF memory_inv_distinct, of m "ms_chunks m"] show ?thesis
      by (auto simp: tally_inv_def ms_save_chunk_def Let_def ids)
  qed
next
  case (step_close m)
  then show ?case by (simp add: tally_inv_def ms_close_def)
qed

lemma reachable_tally: "memory_reachable m \<Longrightarrow> tally_inv m"
proof (induction rule: memory_reachable.induct)
  case reach_new
  show ?case by (simp add: tally_inv_def new_memory_store_def)
next
  case (reach_step m m')
  then show ?case using memory_step_tally reachable_inv by blast
qed

lemma sum_list_one_source:
  "distinct (map src_id ss) \<Longrightarrow> i \<in> src_id ` set ss \<Longrightarrow>
   sum_list (map (\<lambda>s. if i = src_id s then k else 0) ss) = (k :: nat)"
proof (induction ss)
  case (Cons a ss)
  have "sum_list (map (\<lambda>s. if i = src_id s then k else 0) ss) = 0" if "i \<notin> src_id ` set ss"
    using that by (induction ss) auto
  with Cons show ?case by auto
qed simp

lemma sum_by_source:
  assumes "distinct (map src_id ss)" and "\<forall>c \<in> set cks. ck_source_id c \<in> src_id ` set ss"
  shows "sum_list (map (\<lambda>s. sum_list (map f (filter (\<lambda>c. ck_source_id c = src_id s) cks))) ss)
     = (sum_list (map f cks) :: nat)"
  using assms(2)
proof (induction cks)
  case Nil
  then show ?case by simp
next
  case (Cons c cks)
  have one: "sum_list (map (\<lambda>s. if ck_source_id c = src_id s then f c else 0) ss) = f c"
    using assms(1) Cons.prems by (intro sum_list_one_source) auto
  have "sum_list (map (\<lambda>s. sum_list (map f (filter (\<lambda>c. ck_source_id c = src_id s) (c # cks)))) ss)
      = sum_list (map (\<lambda>s. (if ck_source_id c = src_id s then f c else 0)
          + sum_list (map f (filter (\<lambda>c. ck_source_id c = src_id s) cks))) ss)"
    by (rule arg_cong [where f = sum_list], rule map_cong) auto
  also have "\<dots> = f c + sum_list (map f cks)"
    using one Cons by (simp add: sum_list_addf)
  finally show ?case by simp
qed

text \<open>In every store reached by its methods, with chunks saved under existing sources, identifiers
  count up from 1, each source's counters are those of its own chunks, and the statistics report
  exactly the chunks, sources and bytes stored.\<close>

theorem memory_store_counts:
  assumes "memory_reachable m"
  shows "map src_id (ms_sources m) = [1..<Suc (length (ms_sources m))]
     \<and> map ck_id (ms_chunks m) = [1..<Suc (length (ms_chunks m))]
     \<and> (\<forall>s \<in> set (ms_sources m). source_tally (ms_chunks m) s)
     \<and> (\<not> ms_closed m \<longrightarrow> ms_stats m = Inr \<lparr>ss_chunk_count = length (ms_chunks m),
          ss_source_count = length (ms_sources m),
          ss_bytes_indexed = sum_list (map (\<lambda>c. length (ck_content c)) (ms_chunks m))\<rparr>)"
proof -
  have inv: "memory_inv m" and tally: "tally_inv m"
    using assms by (auto intro: reachable_inv reachable_tally)
  have "length (map src_id (ms_sources m)) = ms_next_src m" "length (map ck_id (ms_chunks m)) = ms_next_chk m"
    using inv unfolding memory_inv_def by (metis diff_Suc_1 length_upt)+
  then have len: "length (ms_sources m) = ms_next_src m" "length (ms_chunks m) = ms_next_chk m" by auto
  have "sum_list (map src_bytes_indexed (ms_sources m)) =
      sum_list (map (\<lambda>s. sum_list (map (\<lambda>c. length (ck_content c))
        (filter (\<lambda>c. ck_source_id c = src_id s) (ms_chunks m)))) (ms_sources m))"
    using tally by (intro arg_cong [where f = sum_list] map_cong) (auto simp: tally_inv_def source_tally_def)
  also have "\<dots> = sum_list (map (\<lambda>c. length (ck_content c)) (ms_chunks m))"
    using tally by (intro sum_by_source memory_inv_distinct [OF inv]) (simp add: tally_inv_def)
  finally show ?thesis
    using inv tally len by (simp add: memory_inv_def tally_inv_def ms_stats_def)
qed

theorem memory_store_counts_witness:
  "\<exists>m. memory_reachable m \<and> ms_stats m = Inr \<lparr>ss_chunk_count = 0, ss_source_count = 1, ss_bytes_indexed = 0\<rparr>"
proof -
  let ?m = "snd (ms_save_source new_memory_store ''a'' FormatMarkdown)"
  have r: "memory_reachable ?m" by (rule reach_step [OF reach_new step_source])
  have "\<not> ms_closed ?m" "ms_chunks ?m = []" "length (ms_sources ?m) = 1"
    by (simp_all add: ms_save_source_def new_memory_store_def Let_def)
  with memory_store_counts [OF r] r show ?thesis by auto
qed

subsection \<open>Search results\<close>

text \<open>What a search must return out of the chunks it matches: a ranking of all matching chunks by
  descending score, cut at the limit.\<close>

definition ranks_hits :: "search_params \<Rightarrow> chunk list \<Rightarrow> search_match list \<Rightarrow> bool" where
  "ranks_hits p cks ms \<longleftrightarrow>
     (\<exists>rest. mset (map sm_chunk_id (ms @ rest)) = mset (map ck_id cks)
        \<and> sorted_wrt (\<lambda>a b. sm_score b \<le> sm_score a) (ms @ rest)
        \<and> (rest = [] \<or> int (length ms) = sp_limit p))"

definition word_match :: "(nat \<Rightarrow> nat) \<Rightarrow> memory_store \<Rightarrow> search_params \<Rightarrow> chunk \<Rightarrow> bool" where
  "word_match ul m p c \<longleftrightarrow> source_admits (ms_sources m) (ck_source_id c) (sp_source_filter p)
     \<and> set (go_fields (go_tolower ul (sp_query p))) \<inter> set (go_fields (go_tolower ul (ck_content c))) \<noteq> {}"

definition substring_match :: "(nat \<Rightarrow> nat) \<Rightarrow> memory_store \<Rightarrow> search_params \<Rightarrow> chunk \<Rightarrow> bool" where
  "substring_match ul m p c \<longleftrightarrow> source_admits (ms_sources m) (ck_source_id c) (sp_source_filter p)
     \<and> sublist (go_tolower ul (sp_query p)) (go_tolower ul (ck_content c))"

lemma map_filter_ids:
  assumes "\<And>c h. hit c = Some h \<Longrightarrow> sm_chunk_id h = ck_id c"
  shows "map sm_chunk_id (List.map_filter hit cks) = map ck_id (filter (\<lambda>c. hit c \<noteq> None) cks)"
  by (induction cks) (auto simp: map_filter_simps assms split: option.split)

lemma ranks_map_filter:
  assumes "sorts_by higher_score srt" and "\<And>c h. hit c = Some h \<Longrightarrow> sm_chunk_id h = ck_id c"
    and "\<And>c. hit c \<noteq> None \<longleftrightarrow> P c"
  shows "ranks_hits p (filter P cks) (take_limit (sp_limit p) (srt (List.map_filter hit cks)))"
proof -
  let ?all = "srt (List.map_filter hit cks)" and ?n = "nat (sp_limit p)"
  have "mset ?all = mset (List.map_filter hit cks)" and sorted: "sorted_wrt (\<lambda>a b. sm_score b \<le> sm_score a) ?all"
    using assms(1) by (auto simp: sorts_by_def higher_score_def not_less)
  then have "mset (map sm_chunk_id ?all) = mset (map sm_chunk_id (List.map_filter hit cks))"
    by simp
  then have ids: "mset (map sm_chunk_id ?all) = mset (map ck_id (filter P cks))"
    by (simp only: map_filter_ids [of hit, OF assms(2)] assms(3))
  show ?thesis
  proof (cases "sp_limit p \<le> 0 \<or> sp_limit p > int (length ?all)")
    case True
    with ids sorted show ?thesis
      by (auto simp: ranks_hits_def take_limit_def intro!: exI [of _ "[]"])
  next
    case False
    with ids sorted show ?thesis
      unfolding ranks_hits_def take_limit_def
      by (intro exI [of _ "drop ?n ?all"]) (simp del: map_append mset_map, linarith)
  qed
qed

lemma porter_hit_ids: "porter_hit ul m flt qs c = Some h \<Longrightarrow> sm_chunk_id h = ck_id c"
  by (auto simp: porter_hit_def match_of_chunk_def Let_def split: if_splits prod.splits)

lemma trigram_hit_ids: "trigram_hit ul m flt q c = Some h \<Longrightarrow> sm_chunk_id h = ck_id c"
  by (auto simp: trigram_hit_def match_of_chunk_def Let_def split: if_splits)

lemma porter_hit_iff:
  "porter_hit ul m (sp_source_filter p) (go_fields (go_tolower ul (sp_query p))) c \<noteq> None \<longleftrightarrow> word_match ul m p c"
  by (auto simp: porter_hit_def word_match_def porter_score_def Let_def filter_empty_conv)

lemma trigram_hit_iff:
  "trigram_hit ul m (sp_source_filter p) (go_tolower ul (sp_query p)) c \<noteq> None \<longleftrightarrow> substring_match ul m p c"
  by (auto simp: trigram_hit_def substring_match_def Let_def go_contains_iff_sublist)

text \<open>C40. For every sorting routine that meets the contract of \<open>sort.Slice\<close>, an open store answers a
  porter search with the chunks of the admitted sources that share a lower-cased word with the query,
  and a trigram search with those that contain the lower-cased query, ranked by descending score;
  only chunks ranked after a full page of results are left out.\<close>

theorem memory_search_exact:
  assumes "sorts_by higher_score srt" and "\<not> ms_closed m"
    and "go_fields (go_tolower ul (sp_query p)) \<noteq> []"
  shows "(\<exists>ms. ms_search_porter ul srt m p = Inr ms \<and> ranks_hits p (filter (word_match ul m p) (ms_chunks m)) ms)
     \<and> (\<exists>ms. ms_search_trigram ul srt m p = Inr ms \<and> ranks_hits p (filter (substring_match ul m p) (ms_chunks m)) ms)"
proof -
  have "go_tolower ul (sp_query p) \<noteq> []" using assms(3) by (metis go_fields_Nil)
  with assms ranks_map_filter [OF assms(1) porter_hit_ids porter_hit_iff]
    ranks_map_filter [OF assms(1) trigram_hit_ids trigram_hit_iff]
  show ?thesis by (simp add: ms_search_porter_def ms_search_trigram_def Let_def)
qed

theorem memory_search_exact_witness:
  "\<exists>ms. ms_search_porter id (sort_key (\<lambda>m. - sm_score m))
      (snd (ms_save_chunk (snd (ms_save_source new_memory_store ''s'' FormatJSON))
        \<lparr>ck_id = 0, ck_source_id = 1, ck_heading_path = [], ck_content = ''One two'', ck_content_type = ''prose'',
         ck_format = FormatJSON, ck_byte_start = 0, ck_byte_end = 7\<rparr>))
      \<lparr>sp_query = ''TWO'', sp_limit = 5, sp_source_filter = ''s''\<rparr> = Inr ms \<and> map sm_chunk_id ms = [1]"
proof -
  let ?m = "snd (ms_save_chunk (snd (ms_save_source new_memory_store ''s'' FormatJSON))
        \<lparr>ck_id = 0, ck_source_id = 1, ck_heading_path = [], ck_content = ''One two'', ck_content_type = ''prose'',
         ck_format = FormatJSON, ck_byte_start = 0, ck_byte_end = 7\<rparr>)"
  let ?p = "\<lparr>sp_query = ''TWO'', sp_limit = 5, sp_source_filter = ''s''\<rparr>"
  have "\<not> ms_closed ?m" and "go_fields (go_tolower id (sp_query ?p)) \<noteq> []"
    and one: "map ck_id (filter (word_match id ?m ?p) (ms_chunks ?m)) = [1]"
    by code_simp+
  from memory_search_exact [OF sorts_by_score this(1,2)] obtain ms where
    ms: "ms_search_porter id (sort_key (\<lambda>m. - sm_score m)) ?m ?p = Inr ms"
      and "ranks_hits ?p (filter (word_match id ?m ?p) (ms_chunks ?m)) ms" by blast
  then obtain rest where "mset (map sm_chunk_id (ms @ rest)) = {#1#}" and "rest = [] \<or> length ms = 5"
    unfolding ranks_hits_def one by auto
  moreover from this(1) have "length (ms @ rest) = 1" by (metis length_map size_mset size_single)
  ultimately have "length ms = 1" "rest = []" by auto
  then obtain h where "ms = [h]" by (auto simp: length_Suc_conv)
  with \<open>rest = []\<close> \<open>mset _ = {#1#}\<close> have "map sm_chunk_id ms = [1]" by simp
  with ms show ?thesis by (intro exI [of _ ms] conjI)
qed

end
