(* ===== verification/Fuzzy.thy ===== *)
theory Fuzzy
  imports StoreTypes
begin

text \<open>
  \<open>fuzzy.go\<close>: the vocabulary and the terms within an edit distance of a query. The set of terms is
  a list without duplicates, in any order (a Go map has none). The edit distance comes from another
  module and is the parameter \<open>ed\<close>; \<open>srt\<close> is the routine \<open>sort.Slice\<close>.
\<close>

type_synonym vocabulary = "string list"

record fuzzy_result =
  fz_term :: string
  fz_distance :: nat

definition new_vocabulary :: vocabulary where
  "new_vocabulary = []"

definition vocab_add :: "(nat \<Rightarrow> nat) \<Rightarrow> string list \<Rightarrow> vocabulary \<Rightarrow> vocabulary" where
  "vocab_add ul ts v = fold (\<lambda>t v. List.insert (go_tolower ul t) v) ts v"

definition vocab_terms :: "vocabulary \<Rightarrow> string list" where
  "vocab_terms v = sort v"

definition vocab_len :: "vocabulary \<Rightarrow> nat" where
  "vocab_len v = length v"

definition fuzzy_before :: "fuzzy_result \<Rightarrow> fuzzy_result \<Rightarrow> bool" where
  "fuzzy_before a b =
     (if fz_distance a \<noteq> fz_distance b then fz_distance a < fz_distance b else fz_term a < fz_term b)"

definition fuzzy_match ::
  "(string \<Rightarrow> string \<Rightarrow> nat) \<Rightarrow> (nat \<Rightarrow> nat) \<Rightarrow> (fuzzy_result list \<Rightarrow> fuzzy_result list)
   \<Rightarrow> string \<Rightarrow> vocabulary \<Rightarrow> int \<Rightarrow> fuzzy_result list" where
  "fuzzy_match ed ul srt query v max_distance0 =
     (let max_distance = (if max_distance0 \<le> 0 then 2 else max_distance0);
          q = go_tolower ul query
      in srt (map (\<lambda>t. \<lparr>fz_term = t, fz_distance = ed q t\<rparr>)
           (filter (\<lambda>t. int (ed q t) \<le> max_distance) v)))"

text \<open>The vocabulary is a set of lower-cased terms.\<close>

lemma set_vocab_add [simp]: "set (vocab_add ul ts v) = go_tolower ul ` set ts \<union> set v"
  by (induction ts arbitrary: v) (auto simp: vocab_add_def)

lemma distinct_vocab_add [simp]: "distinct v \<Longrightarrow> distinct (vocab_add ul ts v)"
  by (induction ts arbitrary: v) (auto simp: vocab_add_def)

definition fuzzy_sort :: "fuzzy_result list \<Rightarrow> fuzzy_result list" where
  "fuzzy_sort = stable_sort fuzzy_before"

lemma fuzzy_before_trans: "fuzzy_before a b \<Longrightarrow> fuzzy_before b c \<Longrightarrow> fuzzy_before a c"
  by (auto simp: fuzzy_before_def split: if_splits)

lemma fuzzy_before_irrefl: "\<not> fuzzy_before a a"
  by (simp add: fuzzy_before_def)

lemma fuzzy_before_linear: "a \<noteq> b \<Longrightarrow> fuzzy_before a b \<or> fuzzy_before b a"
  by (cases a; cases b) (auto simp: fuzzy_before_def)

lemma sorts_by_fuzzy_sort: "sorts_by fuzzy_before fuzzy_sort"
proof -
  have "weak_order fuzzy_before"
    unfolding weak_order_def by (metis fuzzy_before_irrefl fuzzy_before_linear fuzzy_before_trans)
  then show ?thesis by (simp add: fuzzy_sort_def sorts_by_stable_sort)
qed

interpretation fuzzy_order: slice_sort fuzzy_before fuzzy_sort
  by unfold_locales (rule sorts_by_fuzzy_sort)

text \<open>The order is total, so the contract of \<open>sort.Slice\<close> leaves one result.\<close>

lemma fuzzy_sorted_unique:
  assumes "mset xs = mset ys" and "sorted_wrt (\<lambda>a b. \<not> fuzzy_before b a) xs"
    and "sorted_wrt (\<lambda>a b. \<not> fuzzy_before b a) ys"
  shows "xs = ys"
  using assms
proof (induction xs arbitrary: ys)
  case (Cons x xs)
  then obtain y ys' where ys: "ys = y # ys'" by (cases ys) auto
  have "x \<in> set ys" "y \<in> set (x # xs)"
    using Cons.prems(1) ys by (metis list.set_intros(1) set_mset_mset)+
  then have "x = y \<or> (\<not> fuzzy_before x y \<and> \<not> fuzzy_before y x)"
    using Cons.prems(2,3) ys by auto
  then have "x = y" using fuzzy_before_linear by blast
  with Cons ys show ?case by simp
qed simp

lemma fuzzy_sort_unique: "sorts_by fuzzy_before srt \<Longrightarrow> srt xs = fuzzy_sort xs"
  using sorts_by_fuzzy_sort by (intro fuzzy_sorted_unique) (simp_all add: sorts_by_def)

text \<open>The result of \<open>FuzzyMatch\<close> does not depend on the order of the map's iteration nor on the
  sorting routine: for two vocabularies with the same terms and any routines meeting the contract of
  \<open>sort.Slice\<close> it is the same list, of the terms within the distance (2 when the caller gives none),
  without repetition, the nearest first and ties in byte order.\<close>

theorem fuzzy_match_deterministic:
  assumes "sorts_by fuzzy_before srt" "sorts_by fuzzy_before srt'"
    and "distinct v" "distinct v'" "set v = set v'"
  shows "fuzzy_match ed ul srt q v d = fuzzy_match ed ul srt' q v' d
     \<and> fz_term ` set (fuzzy_match ed ul srt q v d)
        = {t \<in> set v. int (ed (go_tolower ul q) t) \<le> (if d \<le> 0 then 2 else d)}
     \<and> sorted_wrt fuzzy_before (fuzzy_match ed ul srt q v d)"
proof -
  define f where "f = (\<lambda>t. \<lparr>fz_term = t, fz_distance = ed (go_tolower ul q) t\<rparr>)"
  define ok where "ok = (\<lambda>t. int (ed (go_tolower ul q) t) \<le> (if d \<le> 0 then 2 else d))"
  have eq: "fuzzy_match ed ul s q u d = s (map f (filter ok u))" for s u
    by (simp add: fuzzy_match_def f_def ok_def Let_def)
  have "mset v = mset v'" using assms(3-5) by (simp add: set_eq_iff_mset_eq_distinct)
  then have "mset (map f (filter ok v)) = mset (map f (filter ok v'))" by simp
  then have same: "srt (map f (filter ok v)) = srt' (map f (filter ok v'))"
    using assms(1,2) by (intro fuzzy_sorted_unique) (simp_all add: sorts_by_def)
  have "inj f" by (auto simp: inj_def f_def)
  then have "distinct (map f (filter ok v))" using assms(3) by (simp add: distinct_map inj_def inj_on_def)
  then have dst: "distinct (srt (map f (filter ok v)))" and
    sorted: "sorted_wrt (\<lambda>a b. \<not> fuzzy_before b a) (srt (map f (filter ok v)))" and
    sets: "set (srt (map f (filter ok v))) = f ` {t \<in> set v. ok t}"
    using slice_sort.distinct_srt [of fuzzy_before srt] slice_sort.sorted_srt [of fuzzy_before srt]
      slice_sort.set_srt [of fuzzy_before srt] assms(1) by (simp_all add: slice_sort_def set_filter)
  have "fuzzy_before a b" if "\<not> fuzzy_before b a" "a \<noteq> b" for a b
    using that fuzzy_before_linear by blast
  with dst sorted have "sorted_wrt fuzzy_before (srt (map f (filter ok v)))"
    by (induction "srt (map f (filter ok v))" arbitrary: rule: list.induct) (auto simp: distinct_conv_nth sorted_wrt_iff_nth_less)
  with same sets show ?thesis by (auto simp: eq f_def ok_def image_iff)
qed

theorem fuzzy_match_deterministic_witness:
  "map fz_term (fuzzy_match (\<lambda>a b. length b - length a) id fuzzy_sort ''ab'' [''abcde'', ''abcd'', ''abc''] 2)
     = [''abc'', ''abcd'']
   \<and> fuzzy_match (\<lambda>a b. length b - length a) id fuzzy_sort ''ab'' [''abcde'', ''abcd'', ''abc''] 2
     = fuzzy_match (\<lambda>a b. length b - length a) id fuzzy_sort ''ab'' [''abc'', ''abcde'', ''abcd''] 2"
proof -
  have "distinct [''abcde'', ''abcd'', ''abc'']" "distinct [''abc'', ''abcde'', ''abcd'']"
    "set [''abcde'', ''abcd'', ''abc''] = set [''abc'', ''abcde'', ''abcd'']" by auto
  moreover have "map fz_term (fuzzy_match (\<lambda>a b. length b - length a) id fuzzy_sort ''ab''
      [''abcde'', ''abcd'', ''abc''] 2) = [''abc'', ''abcd'']"
    by code_simp
  moreover note fuzzy_match_deterministic [OF sorts_by_fuzzy_sort sorts_by_fuzzy_sort calculation(1-3),
      of "\<lambda>a b. length b - length a" id "''ab''" 2]
  ultimately show ?thesis by blast
qed

end
