(* ===== verification/Searching.thy ===== *)
theory Searching
  imports MemoryStore Fuzzy Snippet
begin

text \<open>
  \<open>search.go\<close>: the three-tier search over a store. The store is any table of operations
  (\<open>store_ops\<close>); \<open>None\<close> is a panic or a loop that does not end, \<open>Some (Inl e)\<close> an error of the
  store. The results proved inside the contract of the interface hold for every store that keeps it
  and are instantiated for the in-memory store.
\<close>

record search_result =
  sr_title :: string
  sr_snippet :: string
  sr_source :: string
  sr_score :: rat
  sr_content_type :: string
  sr_match_layer :: string
  sr_bytes_used :: nat

record search_config =
  sc_limit :: int
  sc_source_filter :: string
  sc_snippet_len :: int
  sc_budget :: int

datatype search_option = WithLimit int | WithSourceFilter string | WithSnippetLen int | WithBudget int

definition default_search_config :: search_config where
  "default_search_config =
     \<lparr>sc_limit = 5, sc_source_filter = [], sc_snippet_len = default_max_snippet_len, sc_budget = 0\<rparr>"

fun apply_search_option :: "search_option \<Rightarrow> search_config \<Rightarrow> search_config" where
  "apply_search_option (WithLimit n) c = (if n > 0 then c\<lparr>sc_limit := n\<rparr> else c)"
| "apply_search_option (WithSourceFilter s) c = c\<lparr>sc_source_filter := s\<rparr>"
| "apply_search_option (WithSnippetLen n) c = (if n > 0 then c\<lparr>sc_snippet_len := n\<rparr> else c)"
| "apply_search_option (WithBudget n) c = (if n > 0 then c\<lparr>sc_budget := n\<rparr> else c)"

definition search_config_of :: "search_option list \<Rightarrow> search_config" where
  "search_config_of opts = fold apply_search_option opts default_search_config"

text \<open>The inner loop of \<open>findMatchPositions\<close> over the text from \<open>offset\<close> on. With an empty term it
  would never advance; \<open>None\<close> is that loop.\<close>

partial_function (option) term_positions ::
  "string \<Rightarrow> string \<Rightarrow> nat \<Rightarrow> match_position list option" where
  "term_positions lower t offset =
     (case go_index (drop offset lower) t of
        None \<Rightarrow> Some []
      | Some idx \<Rightarrow> (let start = offset + idx in do {
          ps \<leftarrow> term_positions lower t (start + length t);
          Some (\<lparr>mp_start = int start, mp_end = int (start + length t)\<rparr> # ps)
        }))"

fun find_terms :: "(nat \<Rightarrow> nat) \<Rightarrow> string \<Rightarrow> string list \<Rightarrow> match_position list option" where
  "find_terms ul lower [] = Some []"
| "find_terms ul lower (t # ts) = do {
     ps \<leftarrow> term_positions lower (go_tolower ul t) 0;
     qs \<leftarrow> find_terms ul lower ts;
     Some (ps @ qs)
   }"

definition find_match_positions ::
  "(nat \<Rightarrow> nat) \<Rightarrow> string \<Rightarrow> string list \<Rightarrow> match_position list option" where
  "find_match_positions ul content ts =
     (if ts = [] then Some [] else find_terms ul (go_tolower ul content) ts)"

definition source_labels :: "source list \<Rightarrow> nat \<rightharpoonup> string" where
  "source_labels srcs = fold (\<lambda>s m. m(src_id s \<mapsto> src_label s)) srcs Map.empty"

definition label_of :: "(nat \<rightharpoonup> string) \<Rightarrow> nat \<Rightarrow> string" where
  "label_of labels i = (case labels i of None \<Rightarrow> [] | Some l \<Rightarrow> l)"

definition snippet_of :: "(nat \<Rightarrow> nat) \<Rightarrow> search_config \<Rightarrow> search_match \<Rightarrow> string option" where
  "snippet_of ul cfg m = do {
     ps \<leftarrow> find_match_positions ul (sm_content m) (go_fields (sc_source_filter cfg));
     extract_snippet (sm_content m) ps (sc_snippet_len cfg)
   }"

definition result_of :: "(nat \<rightharpoonup> string) \<Rightarrow> search_match \<Rightarrow> string \<Rightarrow> search_result" where
  "result_of labels m snippet =
     \<lparr>sr_title = sm_heading_path m, sr_snippet = snippet, sr_source = label_of labels (sm_source_id m),
      sr_score = sm_score m, sr_content_type = sm_content_type m, sr_match_layer = sm_match_layer m,
      sr_bytes_used = length snippet\<rparr>"

text \<open>The loop of \<open>convertMatches\<close>; \<open>results\<close> are those appended so far, \<open>used\<close> the tokens they cost.\<close>

fun convert_loop ::
  "(nat \<Rightarrow> nat) \<Rightarrow> (nat \<rightharpoonup> string) \<Rightarrow> search_config \<Rightarrow> search_result list \<Rightarrow> nat \<Rightarrow> search_match list
   \<Rightarrow> search_result list option" where
  "convert_loop ul labels cfg results used [] = Some results"
| "convert_loop ul labels cfg results used (m # ms) = do {
     snippet \<leftarrow> snippet_of ul cfg m;
     (let tokens = estimate_tokens snippet in
      if sc_budget cfg > 0 \<and> int (used + tokens) > sc_budget cfg \<and> results \<noteq> [] then Some results
      else convert_loop ul labels cfg (results @ [result_of labels m snippet])
             (if sc_budget cfg > 0 then used + tokens else used) ms)
   }"

definition convert_matches ::
  "(nat \<Rightarrow> nat) \<Rightarrow> search_match list \<Rightarrow> (nat \<rightharpoonup> string) \<Rightarrow> search_config \<Rightarrow> search_result list option" where
  "convert_matches ul ms labels cfg = convert_loop ul labels cfg [] 0 ms"

definition params_of :: "string \<Rightarrow> search_config \<Rightarrow> search_params" where
  "params_of query cfg = \<lparr>sp_query = query, sp_limit = sc_limit cfg, sp_source_filter = sc_source_filter cfg\<rparr>"

definition run_search :: "'s store_ops \<Rightarrow> 's \<Rightarrow> search_params \<Rightarrow> store_error + search_match list" where
  "run_search ops s p =
     (case so_search_porter ops s p of
        Inl e \<Rightarrow> Inl e
      | Inr ms \<Rightarrow> if ms \<noteq> [] then Inr ms else so_search_trigram ops s p)"

definition mark_fuzzy :: "search_match \<Rightarrow> search_match" where
  "mark_fuzzy m = m\<lparr>sm_match_layer := ''fuzzy''\<rparr>"

definition search_store ::
  "(string \<Rightarrow> string \<Rightarrow> nat) \<Rightarrow> (nat \<Rightarrow> nat) \<Rightarrow> (fuzzy_result list \<Rightarrow> fuzzy_result list) \<Rightarrow> 's store_ops
   \<Rightarrow> 's \<Rightarrow> vocabulary option \<Rightarrow> string \<Rightarrow> search_option list \<Rightarrow> (store_error + search_result list) option" where
  "search_store ed ul fsrt ops s vocab query opts =
     (let cfg = search_config_of opts in
      case so_sources ops s of
        Inl e \<Rightarrow> Some (Inl e)
      | Inr srcs \<Rightarrow>
          (let labels = source_labels srcs; convert = (\<lambda>ms. map_option Inr (convert_matches ul ms labels cfg)) in
           case run_search ops s (params_of query cfg) of
             Inl e \<Rightarrow> Some (Inl e)
           | Inr ms \<Rightarrow>
               if ms \<noteq> [] then convert ms
               else (case vocab of
                   None \<Rightarrow> Some (Inr [])
                 | Some v \<Rightarrow>
                     (case fuzzy_match ed ul fsrt query v 2 of
                        [] \<Rightarrow> Some (Inr [])
                      | r # _ \<Rightarrow>
                          (case run_search ops s (params_of (fz_term r) cfg) of
                             Inl e \<Rightarrow> Some (Inl e)
                           | Inr ms' \<Rightarrow> convert (map mark_fuzzy ms'))))))"

subsection \<open>Snippets of matches\<close>

declare term_positions.simps [simp del]

lemma term_positions_total: "t \<noteq> [] \<Longrightarrow> \<exists>ps. term_positions lower t offset = Some ps"
proof (induction "length lower - offset" arbitrary: offset rule: less_induct)
  case less
  show ?case
  proof (cases "go_index (drop offset lower) t")
    case None
    then show ?thesis by (simp add: term_positions.simps [of lower])
  next
    case (Some idx)
    then have "idx + length t \<le> length lower - offset" using go_index_Some by fastforce
    moreover have "0 < length t" using less.prems by simp
    ultimately have "length lower - (offset + idx + length t) < length lower - offset" by arith
    then obtain ps where "term_positions lower t (offset + idx + length t) = Some ps"
      using less.hyps less.prems by blast
    with Some show ?thesis by (simp add: term_positions.simps [of lower _ offset] Let_def)
  qed
qed

lemma find_terms_total: "\<forall>t \<in> set ts. t \<noteq> [] \<Longrightarrow> \<exists>ps. find_terms ul lower ts = Some ps"
proof (induction ts)
  case (Cons t ts)
  moreover obtain ps where "term_positions lower (go_tolower ul t) 0 = Some ps"
    using Cons.prems term_positions_total by fastforce
  ultimately show ?case by auto
qed simp

lemma snippet_of_total:
  "\<exists>r. snippet_of ul cfg m = Some r \<and> sublist r (sm_content m)
     \<and> int (length r) \<le> snippet_limit (sc_snippet_len cfg)"
proof -
  have "\<exists>ps. find_match_positions ul (sm_content m) (go_fields (sc_source_filter cfg)) = Some ps"
    using find_terms_total [of "go_fields (sc_source_filter cfg)"] go_fields_nonempty
    by (auto simp: find_match_positions_def)
  then obtain ps where "find_match_positions ul (sm_content m) (go_fields (sc_source_filter cfg)) = Some ps"
    by blast
  with extract_snippet_total [of "sm_content m" ps "sc_snippet_len cfg"] show ?thesis
    by (simp add: snippet_of_def)
qed

text \<open>What the conversion makes of the matches it keeps.\<close>

definition converted ::
  "(nat \<rightharpoonup> string) \<Rightarrow> search_config \<Rightarrow> search_match list \<Rightarrow> search_result list \<Rightarrow> bool" where
  "converted labels cfg ms rs \<longleftrightarrow>
     list_all2 (\<lambda>m r. r = result_of labels m (sr_snippet r) \<and> sublist (sr_snippet r) (sm_content m)
       \<and> int (length (sr_snippet r)) \<le> snippet_limit (sc_snippet_len cfg)) ms rs"

definition tokens_of :: "search_result list \<Rightarrow> nat" where
  "tokens_of rs = sum_list (map (\<lambda>r. estimate_tokens (sr_snippet r)) rs)"

definition within_budget :: "search_config \<Rightarrow> search_result list \<Rightarrow> bool" where
  "within_budget cfg rs \<longleftrightarrow> 0 < sc_budget cfg \<longrightarrow> length rs \<le> 1 \<or> int (tokens_of rs) \<le> sc_budget cfg"

lemma convert_loop_spec:
  assumes "0 < sc_budget cfg \<longrightarrow> used = tokens_of results" and "within_budget cfg results"
  shows "\<exists>n rs. convert_loop ul labels cfg results used ms = Some (results @ rs)
     \<and> converted labels cfg (take n ms) rs \<and> within_budget cfg (results @ rs)
     \<and> (rs = [] \<longrightarrow> ms = [] \<or> results \<noteq> []) \<and> (sc_budget cfg \<le> 0 \<longrightarrow> length ms \<le> n)"
  using assms
proof (induction ms arbitrary: results used)
  case Nil
  then show ?case by (intro exI [of _ 0] exI [of _ "[]"]) (simp add: converted_def)
next
  case (Cons m ms)
  obtain sn where sn: "snippet_of ul cfg m = Some sn" "sublist sn (sm_content m)"
    "int (length sn) \<le> snippet_limit (sc_snippet_len cfg)"
    using snippet_of_total by blast
  define r where "r = result_of labels m sn"
  have snip [simp]: "sr_snippet r = sn" by (simp add: r_def result_of_def)
  show ?case
  proof (cases "sc_budget cfg > 0 \<and> int (used + estimate_tokens sn) > sc_budget cfg \<and> results \<noteq> []")
    case True
    with sn Cons.prems show ?thesis
      by (intro exI [of _ 0] exI [of _ "[]"]) (simp add: converted_def)
  next
    case False
    let ?used = "if sc_budget cfg > 0 then used + estimate_tokens sn else used"
    have "0 < sc_budget cfg \<longrightarrow> ?used = tokens_of (results @ [r])"
      using Cons.prems by (simp add: tokens_of_def)
    moreover have "within_budget cfg (results @ [r])"
      using False Cons.prems by (auto simp: within_budget_def tokens_of_def)
    ultimately obtain n rs where
      ih: "convert_loop ul labels cfg (results @ [r]) ?used ms = Some ((results @ [r]) @ rs)"
        "converted labels cfg (take n ms) rs" "within_budget cfg ((results @ [r]) @ rs)"
        "sc_budget cfg \<le> 0 \<longrightarrow> length ms \<le> n"
      using Cons.IH by blast
    then show ?thesis
      using sn False
      by (intro exI [of _ "Suc n"] exI [of _ "r # rs"])
        (auto simp: converted_def Let_def r_def [symmetric] simp del: not_less)
  qed
qed

lemma convert_matches_spec:
  "\<exists>n rs. convert_matches ul ms labels cfg = Some rs \<and> converted labels cfg (take n ms) rs
     \<and> within_budget cfg rs \<and> (rs = [] \<longleftrightarrow> ms = []) \<and> (sc_budget cfg \<le> 0 \<longrightarrow> length ms \<le> n)"
proof -
  obtain n rs where rs: "convert_loop ul labels cfg [] 0 ms = Some rs" "converted labels cfg (take n ms) rs"
    "within_budget cfg rs" "rs = [] \<longrightarrow> ms = []" "sc_budget cfg \<le> 0 \<longrightarrow> length ms \<le> n"
    using convert_loop_spec [of cfg 0 "[]" ul labels ms] by (auto simp: tokens_of_def within_budget_def)
  moreover from rs(2) have "ms = [] \<longrightarrow> rs = []" by (auto simp: converted_def)
  ultimately show ?thesis unfolding convert_matches_def by blast
qed

subsection \<open>Answers of a search\<close>

definition answer_of :: "source list \<Rightarrow> chunk list \<Rightarrow> search_config \<Rightarrow> search_result \<Rightarrow> bool" where
  "answer_of srcs cks cfg r \<longleftrightarrow>
     (\<exists>c \<in> set cks. sr_title r = ck_heading_path c \<and> sublist (sr_snippet r) (ck_content c)
        \<and> sr_source r = label_of (source_labels srcs) (ck_source_id c))
     \<and> sr_bytes_used r = length (sr_snippet r) \<and> int (sr_bytes_used r) \<le> sc_snippet_len cfg
     \<and> (sc_source_filter cfg = [] \<or> sr_source r = sc_source_filter cfg)"

definition answers :: "source list \<Rightarrow> chunk list \<Rightarrow> search_config \<Rightarrow> search_result list \<Rightarrow> bool" where
  "answers srcs cks cfg rs \<longleftrightarrow>
     (\<forall>r \<in> set rs. answer_of srcs cks cfg r) \<and> int (length rs) \<le> sc_limit cfg \<and> within_budget cfg rs"

lemma search_config_pos: "0 < sc_limit (search_config_of opts) \<and> 0 < sc_snippet_len (search_config_of opts)"
proof -
  have "0 < sc_limit c \<and> 0 < sc_snippet_len c \<Longrightarrow>
      0 < sc_limit (fold apply_search_option opts c) \<and> 0 < sc_snippet_len (fold apply_search_option opts c)" for c
  proof (induction opts arbitrary: c)
    case (Cons opt opts)
    then show ?case by (cases opt) auto
  qed simp
  then show ?thesis
    by (simp add: search_config_of_def default_search_config_def default_max_snippet_len_def)
qed

lemma source_labels_notin: "i \<notin> src_id ` set srcs \<Longrightarrow>
    fold (\<lambda>s m. m(src_id s \<mapsto> src_label s)) srcs labels i = labels i"
  by (induction srcs arbitrary: labels) auto

lemma label_of_source:
  assumes "distinct (map src_id srcs)" and "s \<in> set srcs"
  shows "label_of (source_labels srcs) (src_id s) = src_label s"
proof -
  have "fold (\<lambda>s m. m(src_id s \<mapsto> src_label s)) srcs labels (src_id s) = Some (src_label s)" for labels
    using assms by (induction srcs arbitrary: labels) (auto simp: source_labels_notin)
  then show ?thesis by (simp add: label_of_def source_labels_def)
qed

lemma converted_member:
  "converted labels cfg ms rs \<Longrightarrow> r \<in> set rs \<Longrightarrow>
   \<exists>m \<in> set ms. r = result_of labels m (sr_snippet r) \<and> sublist (sr_snippet r) (sm_content m)
     \<and> int (length (sr_snippet r)) \<le> snippet_limit (sc_snippet_len cfg)"
  unfolding converted_def list_all2_conv_all_nth by (metis (no_types, lifting) in_set_conv_nth)

context store_contract
begin

lemma run_search_hits: "invar s \<Longrightarrow> run_search ops s p = Inr ms \<Longrightarrow> hits_ok (sources s) (chunks s) p ms"
  by (auto simp: run_search_def porter_hits trigram_hits split: sum.splits if_splits)

lemma convert_hits:
  assumes "invar s" and hits: "hits_ok (sources s) (chunks s) (params_of q cfg) ms"
    and "0 < sc_limit cfg" "0 < sc_snippet_len cfg"
  shows "\<exists>rs. convert_matches ul (map f ms) (source_labels (sources s)) cfg = Some rs
     \<and> ((\<forall>m. sm_heading_path (f m) = sm_heading_path m \<and> sm_content (f m) = sm_content m
          \<and> sm_source_id (f m) = sm_source_id m) \<longrightarrow> answers (sources s) (chunks s) cfg rs)"
proof -
  obtain n rs where rs: "convert_matches ul (map f ms) (source_labels (sources s)) cfg = Some rs"
    "converted (source_labels (sources s)) cfg (take n (map f ms)) rs" "within_budget cfg rs"
    using convert_matches_spec by blast
  have "answers (sources s) (chunks s) cfg rs" if f: "\<And>m. sm_heading_path (f m) = sm_heading_path m
      \<and> sm_content (f m) = sm_content m \<and> sm_source_id (f m) = sm_source_id m"
  proof -
    have "answer_of (sources s) (chunks s) cfg r" if "r \<in> set rs" for r
    proof -
      from that rs(2) obtain m where m: "m \<in> set ms" "r = result_of (source_labels (sources s)) (f m) (sr_snippet r)"
        "sublist (sr_snippet r) (sm_content (f m))" "int (length (sr_snippet r)) \<le> snippet_limit (sc_snippet_len cfg)"
        using converted_member by (fastforce dest: in_set_takeD)
      with hits obtain c where c: "c \<in> set (chunks s)" "m = match_of_chunk c (sm_score m) (sm_match_layer m)"
        "source_admits (sources s) (ck_source_id c) (sc_source_filter cfg)"
        by (auto simp: hits_ok_def params_of_def)
      have flt: "sc_source_filter cfg = []
          \<or> label_of (source_labels (sources s)) (ck_source_id c) = sc_source_filter cfg"
        using c(3) label_of_source [OF distinct_ids [OF assms(1)]] unfolding source_admits_def by metis
      have fields: "sm_heading_path m = ck_heading_path c" "sm_content m = ck_content c"
        "sm_source_id m = ck_source_id c"
        using arg_cong [OF c(2), of sm_heading_path] arg_cong [OF c(2), of sm_content]
          arg_cong [OF c(2), of sm_source_id] by (simp_all add: match_of_chunk_def)
      have "sr_title r = ck_heading_path c" "sr_source r = label_of (source_labels (sources s)) (ck_source_id c)"
        "sr_bytes_used r = length (sr_snippet r)"
        using arg_cong [OF m(2), of sr_title] arg_cong [OF m(2), of sr_source]
          arg_cong [OF m(2), of sr_bytes_used] by (simp_all add: result_of_def f fields)
      with c(1) m flt assms(4) show ?thesis
        by (auto simp: answer_of_def f fields snippet_limit_def)
    qed
    moreover have "length rs \<le> length ms" using rs(2) by (auto simp: converted_def dest!: list_all2_lengthD)
    then have "int (length rs) \<le> sc_limit cfg"
      using hits assms(3) by (auto simp: hits_ok_def params_of_def)
    ultimately show ?thesis using rs(3) by (auto simp: answers_def)
  qed
  with rs show ?thesis by blast
qed

lemma search_answers:
  assumes "invar s"
  shows "\<exists>r. search_store ed ul fsrt ops s vocab q opts = Some r
     \<and> (\<forall>rs. r = Inr rs \<longrightarrow> \<not> closed s \<and> answers (sources s) (chunks s) (search_config_of opts) rs)"
proof (cases "closed s")
  case True
  then show ?thesis by (simp add: search_store_def reads_closed)
next
  case False
  define cfg where "cfg = search_config_of opts"
  have pos: "0 < sc_limit cfg" "0 < sc_snippet_len cfg" by (simp_all add: cfg_def search_config_pos)
  have plain: "\<exists>rs. convert_matches ul ms (source_labels (sources s)) cfg = Some rs
      \<and> answers (sources s) (chunks s) cfg rs" if "run_search ops s (params_of q' cfg) = Inr ms" for q' ms
    using convert_hits [OF assms run_search_hits [OF assms that] pos, of ul id] by auto
  have fuzzy: "\<exists>rs. convert_matches ul (map mark_fuzzy ms) (source_labels (sources s)) cfg = Some rs
      \<and> answers (sources s) (chunks s) cfg rs" if "run_search ops s (params_of q' cfg) = Inr ms" for q' ms
    using convert_hits [OF assms run_search_hits [OF assms that] pos, of ul mark_fuzzy]
    by (auto simp: mark_fuzzy_def)
  have none: "answers (sources s) (chunks s) cfg []"
    using pos by (simp add: answers_def within_budget_def)
  show ?thesis
    unfolding search_store_def cfg_def [symmetric] Let_def sources_open [OF False]
    using False none plain fuzzy
    by (fastforce split: sum.splits option.splits list.splits)
qed

end

text \<open>A search of the in-memory store never panics and always returns. It fails only when the store
  is closed; otherwise every result is a piece of a stored chunk, within the snippet limit, labelled
  with the source of that chunk and from the source asked for, there are at most \<open>limit\<close> of them, and
  either there is a single result or their tokens stay within the budget.\<close>

theorem memory_search_answers:
  assumes "sorts_by higher_score srt" and "memory_reachable m"
  shows "\<exists>r. search_store ed ul fsrt (memory_ops ul srt) m vocab q opts = Some r
     \<and> (case r of Inl e \<Rightarrow> ms_closed m \<and> e = StoreClosed
        | Inr rs \<Rightarrow> \<not> ms_closed m \<and> answers (ms_sources m) (ms_chunks m) (search_config_of opts) rs)"
proof -
  have searches: "\<exists>ms. run_search (memory_ops ul srt) m p = Inr ms" if "\<not> ms_closed m" for p
    using that by (auto simp: run_search_def memory_ops_def ms_search_porter_def ms_search_trigram_def Let_def)
  obtain r where r: "search_store ed ul fsrt (memory_ops ul srt) m vocab q opts = Some r"
    "\<And>rs. r = Inr rs \<Longrightarrow> \<not> ms_closed m \<and> answers (ms_sources m) (ms_chunks m) (search_config_of opts) rs"
    using store_contract.search_answers [OF memory_store_contract [OF assms(1)] reachable_inv [OF assms(2)]]
    by blast
  have "ms_closed m \<and> e = StoreClosed" if "r = Inl e" for e
  proof (cases "ms_closed m")
    case True
    with r(1) that show ?thesis by (auto simp: search_store_def memory_ops_def ms_get_sources_def)
  next
    case False
    then have "so_sources (memory_ops ul srt) m = Inr (ms_sources m)"
      by (simp add: memory_ops_def ms_get_sources_def)
    with r(1) that have "\<exists>p e. run_search (memory_ops ul srt) m p = Inl e"
      by (auto simp: search_store_def Let_def split: sum.splits option.splits list.splits if_splits)
    with searches [OF False] show ?thesis by (metis sum.distinct(1))
  qed
  with r show ?thesis by (cases r) auto
qed

definition sample_store :: memory_store where
  "sample_store = snd (ms_save_chunk (snd (ms_save_source new_memory_store ''s'' FormatJSON))
     \<lparr>ck_id = 0, ck_source_id = 1, ck_heading_path = ''T'', ck_content = ''One two'', ck_content_type = ''prose'',
      ck_format = FormatJSON, ck_byte_start = 0, ck_byte_end = 7\<rparr>)"

lemma sample_store_reachable: "memory_reachable sample_store"
  unfolding sample_store_def
  by (rule reach_step [OF reach_step [OF reach_new step_source] step_chunk])
    (simp add: ms_save_source_def new_memory_store_def Let_def)

theorem memory_search_answers_witness:
  "\<exists>r. search_store (\<lambda>a b. 0) id id (memory_ops id (sort_key (\<lambda>m. - sm_score m))) sample_store None ''two'' []
       = Some (Inr [r])
     \<and> sr_source r = ''s'' \<and> answers (ms_sources sample_store) (ms_chunks sample_store) default_search_config [r]"
proof -
  have eq: "map_option (map_sum id (map sr_source)) (search_store (\<lambda>a b. 0) id id
      (memory_ops id (sort_key (\<lambda>m. - sm_score m))) sample_store None ''two'' []) = Some (Inr [''s''])"
    by code_simp
  from eq obtain z where "search_store (\<lambda>a b. 0) id id (memory_ops id (sort_key (\<lambda>m. - sm_score m)))
      sample_store None ''two'' [] = Some z" "map_sum id (map sr_source) z = Inr [''s'']" by auto
  then obtain r where r: "search_store (\<lambda>a b. 0) id id (memory_ops id (sort_key (\<lambda>m. - sm_score m)))
      sample_store None ''two'' [] = Some (Inr [r])" "sr_source r = ''s''"
    by (cases z) (auto simp: map_eq_Cons_conv)
  moreover have "answers (ms_sources sample_store) (ms_chunks sample_store) default_search_config [r]"
    using memory_search_answers [OF sorts_by_score sample_store_reachable, of "\<lambda>a b. 0" id id None "''two''" "[]"]
      r(1) by (auto simp: search_config_of_def)
  ultimately show ?thesis by blast
qed

text \<open>The positions handed to the snippet extraction are those of the words of the source filter:
  without a filter no position is ever found, and a snippet of a long chunk is its beginning, wherever
  the query matched.\<close>

theorem snippets_ignore_query:
  assumes "sc_source_filter cfg = []" and "snippet_limit (sc_snippet_len cfg) < int (length (sm_content m))"
  shows "snippet_of ul cfg m = trim_to_word_boundary (sm_content m) 0 (nat (snippet_limit (sc_snippet_len cfg)))"
proof -
  have "snippet_of ul cfg m = extract_snippet (sm_content m) [] (sc_snippet_len cfg)"
    using assms(1) by (simp add: snippet_of_def find_match_positions_def)
  moreover have "0 < int (length (sm_content m))"
    using assms(2) snippet_limit_pos less_trans by blast
  then have "sm_content m \<noteq> []" by auto
  ultimately show ?thesis using assms(2) by (simp add: extract_snippet_def valid_positions_def Let_def)
qed

theorem snippets_ignore_query_witness:
  "map_option (map_sum id (map sr_snippet)) (search_store (\<lambda>a b. 0) id id
      (memory_ops id (sort_key (\<lambda>m. - sm_score m))) sample_store None ''two'' [WithSnippetLen 5])
      = Some (Inr [''One''])
   \<and> snippet_of id (search_config_of [WithSnippetLen 5]) (match_of_chunk (hd (ms_chunks sample_store)) 0 [])
      = trim_to_word_boundary ''One two'' 0 5"
proof -
  let ?cfg = "search_config_of [WithSnippetLen 5]" and ?m = "match_of_chunk (hd (ms_chunks sample_store)) 0 []"
  have "sc_source_filter ?cfg = []" "snippet_limit (sc_snippet_len ?cfg) < int (length (sm_content ?m))"
    "snippet_limit (sc_snippet_len ?cfg) = 5" "sm_content ?m = ''One two''"
    by code_simp+
  moreover have "map_option (map_sum id (map sr_snippet)) (search_store (\<lambda>a b. 0) id id
      (memory_ops id (sort_key (\<lambda>m. - sm_score m))) sample_store None ''two'' [WithSnippetLen 5])
      = Some (Inr [''One''])"
    by code_simp
  ultimately show ?thesis using snippets_ignore_query [of ?cfg ?m id] by simp
qed

end
