(* ===== verification/GistApi.thy ===== *)
theory GistApi
  imports StructuredChunks Searching
begin

text \<open>
  \<open>gist.go\<close>: the top-level object that ties chunking, the store, the searcher and the vocabulary
  together. \<open>Index\<close> and \<open>Search\<close> are functions of the object's state; \<open>BatchIndex\<close> runs one \<open>Index\<close>
  per item on a pool of goroutines and is a step relation, one step per atomic action of a goroutine
  (a locked store call with the vocabulary update that follows it, or the locked update of the
  counters). \<open>None\<close> is a panic of the chunker.
\<close>

record 's gist =
  g_store :: 's
  g_vocab :: vocabulary
  g_token_budget :: int
  g_source_count :: nat
  g_chunk_count :: nat
  g_search_count :: nat
  g_bytes_idx :: nat
  g_bytes_ret :: nat

record index_result =
  ir_source_id :: nat
  ir_label :: string
  ir_total_chunks :: nat
  ir_code_chunks :: nat

record index_config =
  ic_source :: string
  ic_format :: format
  ic_max_chunk_bytes :: int

datatype index_option = WithSource string | WithFormat format | WithIndexMaxChunkBytes int

definition default_index_config :: index_config where
  "default_index_config =
     \<lparr>ic_source = ''unnamed'', ic_format = FormatMarkdown, ic_max_chunk_bytes = int default_max_chunk_bytes\<rparr>"

fun apply_index_option :: "index_option \<Rightarrow> index_config \<Rightarrow> index_config" where
  "apply_index_option (WithSource l) c = (if l \<noteq> [] then c\<lparr>ic_source := l\<rparr> else c)"
| "apply_index_option (WithFormat f) c = c\<lparr>ic_format := f\<rparr>"
| "apply_index_option (WithIndexMaxChunkBytes n) c = (if n > 0 then c\<lparr>ic_max_chunk_bytes := n\<rparr> else c)"

definition index_config_of :: "index_option list \<Rightarrow> index_config" where
  "index_config_of opts = fold apply_index_option opts default_index_config"

text \<open>\<open>New\<close> with a store already made; \<open>WithTokenBudget\<close> ignores a budget that is not positive.\<close>

definition new_gist :: "'s \<Rightarrow> int \<Rightarrow> 's gist" where
  "new_gist s budget =
     \<lparr>g_store = s, g_vocab = new_vocabulary, g_token_budget = (if budget > 0 then budget else 0),
      g_source_count = 0, g_chunk_count = 0, g_search_count = 0, g_bytes_idx = 0, g_bytes_ret = 0\<rparr>"

definition chunk_from :: "nat \<Rightarrow> format \<Rightarrow> content_chunk \<Rightarrow> chunk" where
  "chunk_from i f cc =
     \<lparr>ck_id = 0, ck_source_id = i, ck_heading_path = cc_heading_path cc, ck_content = cc_content cc,
      ck_content_type = cc_content_type cc, ck_format = f, ck_byte_start = cc_start_byte cc,
      ck_byte_end = cc_end_byte cc\<rparr>"

definition index_chunk ::
  "(nat \<Rightarrow> nat) \<Rightarrow> 's store_ops \<Rightarrow> nat \<Rightarrow> format \<Rightarrow> content_chunk \<Rightarrow> 's gist \<Rightarrow> store_error option \<times> 's gist" where
  "index_chunk ul ops i f cc g =
     (case so_save_chunk ops (g_store g) (chunk_from i f cc) of
        (Inl e, s) \<Rightarrow> (Some e, g\<lparr>g_store := s\<rparr>)
      | (Inr _, s) \<Rightarrow> (None, g\<lparr>g_store := s, g_vocab := vocab_add ul (go_fields (cc_content cc)) (g_vocab g)\<rparr>))"

definition is_code :: "content_chunk \<Rightarrow> bool" where
  "is_code cc \<longleftrightarrow> cc_content_type cc = ''code''"

definition code_count :: "content_chunk list \<Rightarrow> nat" where
  "code_count ccs = length (filter is_code ccs)"

fun index_chunks ::
  "(nat \<Rightarrow> nat) \<Rightarrow> 's store_ops \<Rightarrow> nat \<Rightarrow> format \<Rightarrow> content_chunk list \<Rightarrow> nat \<Rightarrow> 's gist
   \<Rightarrow> (store_error + nat) \<times> 's gist" where
  "index_chunks ul ops i f [] code g = (Inr code, g)"
| "index_chunks ul ops i f (cc # ccs) code g =
     (case index_chunk ul ops i f cc g of
        (Some e, g') \<Rightarrow> (Inl e, g')
      | (None, g') \<Rightarrow> index_chunks ul ops i f ccs (if is_code cc then code + 1 else code) g')"

definition count_index :: "nat \<Rightarrow> nat \<Rightarrow> 's gist \<Rightarrow> 's gist" where
  "count_index nchunks nbytes g =
     g\<lparr>g_source_count := g_source_count g + 1, g_chunk_count := g_chunk_count g + nchunks,
       g_bytes_idx := g_bytes_idx g + nbytes\<rparr>"

definition index_chunking :: "parsers \<Rightarrow> index_config \<Rightarrow> string \<Rightarrow> content_chunk list option" where
  "index_chunking pa ic content =
     chunk_content pa content [with_max_chunk_bytes (ic_max_chunk_bytes ic), with_chunk_format (ic_format ic)]"

definition gist_index ::
  "parsers \<Rightarrow> (nat \<Rightarrow> nat) \<Rightarrow> 's store_ops \<Rightarrow> 's gist \<Rightarrow> string \<Rightarrow> index_option list
   \<Rightarrow> ((store_error + index_result) \<times> 's gist) option" where
  "gist_index pa ul ops g content opts =
     (let ic = index_config_of opts in do {
        chunks \<leftarrow> index_chunking pa ic content;
        Some (case so_save_source ops (g_store g) (ic_source ic) (ic_format ic) of
            (Inl e, s) \<Rightarrow> (Inl e, g\<lparr>g_store := s\<rparr>)
          | (Inr src, s) \<Rightarrow>
              (case index_chunks ul ops (src_id src) (ic_format ic) chunks 0 (g\<lparr>g_store := s\<rparr>) of
                 (Inl e, g') \<Rightarrow> (Inl e, g')
               | (Inr code, g') \<Rightarrow>
                   (Inr \<lparr>ir_source_id = src_id src, ir_label = ic_source ic,
                         ir_total_chunks = length chunks, ir_code_chunks = code\<rparr>,
                    count_index (length chunks) (length content) g')))
      })"

definition gist_search ::
  "(string \<Rightarrow> string \<Rightarrow> nat) \<Rightarrow> (nat \<Rightarrow> nat) \<Rightarrow> (fuzzy_result list \<Rightarrow> fuzzy_result list) \<Rightarrow> 's store_ops
   \<Rightarrow> 's gist \<Rightarrow> string \<Rightarrow> search_option list \<Rightarrow> ((store_error + search_result list) \<times> 's gist) option" where
  "gist_search ed ul fsrt ops g query opts0 =
     (let opts = (if g_token_budget g > 0 then WithBudget (g_token_budget g) # opts0 else opts0) in do {
        r \<leftarrow> search_store ed ul fsrt ops (g_store g) (Some (g_vocab g)) query opts;
        Some (case r of
            Inl e \<Rightarrow> (Inl e, g)
          | Inr rs \<Rightarrow> (Inr rs, g\<lparr>g_search_count := g_search_count g + 1,
              g_bytes_ret := g_bytes_ret g + sum_list (map (\<lambda>r. length (sr_snippet r)) rs)\<rparr>))
      })"

record gist_stats =
  gs_bytes_indexed :: nat
  gs_bytes_returned :: nat
  gs_bytes_saved :: nat
  gs_saved_percent :: rat
  gs_source_count :: nat
  gs_chunk_count :: nat
  gs_search_count :: nat

definition gist_stats_of :: "'s gist \<Rightarrow> gist_stats" where
  "gist_stats_of g =
     (let saved = nat (max 0 (int (g_bytes_idx g) - int (g_bytes_ret g))) in
      \<lparr>gs_bytes_indexed = g_bytes_idx g, gs_bytes_returned = g_bytes_ret g, gs_bytes_saved = saved,
       gs_saved_percent = (if g_bytes_idx g > 0 then of_nat saved / of_nat (g_bytes_idx g) * 100 else 0),
       gs_source_count = g_source_count g, gs_chunk_count = g_chunk_count g,
       gs_search_count = g_search_count g\<rparr>)"

definition gist_close :: "'s store_ops \<Rightarrow> 's gist \<Rightarrow> 's gist" where
  "gist_close ops g = g\<lparr>g_store := so_close ops (g_store g)\<rparr>"

subsection \<open>BatchIndex\<close>

record batch_item =
  bi_content :: string
  bi_source :: string
  bi_format :: format

definition item_options :: "batch_item \<Rightarrow> index_option list" where
  "item_options it = (if bi_source it \<noteq> [] then [WithSource (bi_source it)] else []) @ [WithFormat (bi_format it)]"

definition item_config :: "batch_item \<Rightarrow> index_config" where
  "item_config it = index_config_of (item_options it)"

text \<open>One goroutine of the pool: not yet started; with its source saved and chunks left to save; done.\<close>

datatype job =
  Queued
| Saving (job_source_id: nat) (job_todo: "content_chunk list") (job_code: nat)
| Finished (job_result: "store_error + index_result")

definition is_active :: "job \<Rightarrow> bool" where
  "is_active j \<longleftrightarrow> (case j of Saving _ _ _ \<Rightarrow> True | _ \<Rightarrow> False)"

lemma is_active_iff: "is_active j \<longleftrightarrow> (\<exists>sid todo code. j = Saving sid todo code)"
  by (cases j) (auto simp: is_active_def)

record 's batch =
  b_gist :: "'s gist"
  b_jobs :: "job list"

definition start_batch :: "'s gist \<Rightarrow> batch_item list \<Rightarrow> 's batch" where
  "start_batch g items = \<lparr>b_gist = g, b_jobs = map (\<lambda>_. Queued) items\<rparr>"

text \<open>\<open>eg.Go\<close> blocks the loop over the items until a slot of the pool is free, so items start in order.\<close>

inductive batch_step ::
  "parsers \<Rightarrow> (nat \<Rightarrow> nat) \<Rightarrow> 's store_ops \<Rightarrow> batch_item list \<Rightarrow> nat \<Rightarrow> 's batch \<Rightarrow> 's batch \<Rightarrow> bool"
  for pa ul ops items limit
  where
  start: "i < length (b_jobs b) \<Longrightarrow> b_jobs b ! i = Queued \<Longrightarrow> \<forall>j < i. b_jobs b ! j \<noteq> Queued
      \<Longrightarrow> length (filter is_active (b_jobs b)) < limit
      \<Longrightarrow> index_chunking pa (item_config (items ! i)) (bi_content (items ! i)) = Some chunks
      \<Longrightarrow> so_save_source ops (g_store (b_gist b)) (ic_source (item_config (items ! i))) (ic_format (item_config (items ! i)))
          = (r, s)
      \<Longrightarrow> batch_step pa ul ops items limit b
          \<lparr>b_gist = (b_gist b)\<lparr>g_store := s\<rparr>,
           b_jobs = (b_jobs b)[i := (case r of Inl e \<Rightarrow> Finished (Inl e) | Inr src \<Rightarrow> Saving (src_id src) chunks 0)]\<rparr>"
| save: "i < length (b_jobs b) \<Longrightarrow> b_jobs b ! i = Saving sid (cc # todo) code
      \<Longrightarrow> index_chunk ul ops sid (ic_format (item_config (items ! i))) cc (b_gist b) = (r, g)
      \<Longrightarrow> batch_step pa ul ops items limit b
          \<lparr>b_gist = g,
           b_jobs = (b_jobs b)[i := (case r of Some e \<Rightarrow> Finished (Inl e)
              | None \<Rightarrow> Saving sid todo (if is_code cc then code + 1 else code))]\<rparr>"
| finish: "i < length (b_jobs b) \<Longrightarrow> b_jobs b ! i = Saving sid [] code
      \<Longrightarrow> index_chunking pa (item_config (items ! i)) (bi_content (items ! i)) = Some chunks
      \<Longrightarrow> batch_step pa ul ops items limit b
          \<lparr>b_gist = count_index (length chunks) (length (bi_content (items ! i))) (b_gist b),
           b_jobs = (b_jobs b)[i := Finished (Inr \<lparr>ir_source_id = sid, ir_label = ic_source (item_config (items ! i)),
              ir_total_chunks = length chunks, ir_code_chunks = code\<rparr>)]\<rparr>"

inductive_cases batch_stepE: "batch_step pa ul ops items limit b b'"

abbreviation batch_steps ::
  "parsers \<Rightarrow> (nat \<Rightarrow> nat) \<Rightarrow> 's store_ops \<Rightarrow> batch_item list \<Rightarrow> nat \<Rightarrow> 's batch \<Rightarrow> 's batch \<Rightarrow> bool" where
  "batch_steps pa ul ops items limit \<equiv> (batch_step pa ul ops items limit)\<^sup>*\<^sup>*"

text \<open>The return value of \<open>BatchIndex\<close> once every goroutine is done.\<close>

definition batch_results :: "'s batch \<Rightarrow> index_result option list \<times> store_error list" where
  "batch_results b =
     (map (\<lambda>j. case j of Finished (Inr r) \<Rightarrow> Some r | _ \<Rightarrow> None) (b_jobs b),
      List.map_filter (\<lambda>j. case j of Finished (Inl e) \<Rightarrow> Some e | _ \<Rightarrow> None) (b_jobs b))"

subsection \<open>Indexing one document\<close>

text \<open>The chunks stored under a source, up to the identifiers the store gave them.\<close>

definition saved :: "chunk list \<Rightarrow> nat \<Rightarrow> chunk list" where
  "saved cks i = map (\<lambda>c. c\<lparr>ck_id := 0\<rparr>) (filter (\<lambda>c. ck_source_id c = i) cks)"

lemma saved_append [simp]: "saved (xs @ ys) i = saved xs i @ saved ys i"
  by (simp add: saved_def)

lemma saved_one [simp]: "saved [c] i = (if ck_source_id c = i then [c\<lparr>ck_id := 0\<rparr>] else [])"
  by (simp add: saved_def)

lemma saved_unknown: "i \<notin> ck_source_id ` set cks \<Longrightarrow> saved cks i = []"
  by (auto simp: saved_def filter_empty_conv)

lemma src_ids_labels: "src_id ` set srcs = fst ` set (labels_of srcs)"
  by (simp add: labels_of_def image_image)

lemma index_config_of_item:
  "ic_source (item_config it) = (if bi_source it = [] then ''unnamed'' else bi_source it)
   \<and> ic_format (item_config it) = bi_format it"
  by (simp add: item_config_def item_options_def index_config_of_def default_index_config_def)

definition chunks_known :: "source list \<Rightarrow> chunk list \<Rightarrow> bool" where
  "chunks_known srcs cks \<longleftrightarrow> ck_source_id ` set cks \<subseteq> fst ` set (labels_of srcs)"

context store_contract
begin

lemma index_chunk_ok:
  assumes "invar (g_store g)" and "\<not> closed (g_store g)"
  shows "\<exists>s c. index_chunk ul ops i f cc g =
      (None, g\<lparr>g_store := s, g_vocab := vocab_add ul (go_fields (cc_content cc)) (g_vocab g)\<rparr>)
    \<and> invar s \<and> \<not> closed s \<and> chunks s = chunks (g_store g) @ [c] \<and> c\<lparr>ck_id := 0\<rparr> = chunk_from i f cc
    \<and> ck_source_id c = i \<and> labels_of (sources s) = labels_of (sources (g_store g))"
proof -
  obtain c s where s: "so_save_chunk ops (g_store g) (chunk_from i f cc) = (Inr c, s)" "invar s" "\<not> closed s"
    "chunks s = chunks (g_store g) @ [c]" "c\<lparr>ck_id := ck_id (chunk_from i f cc)\<rparr> = chunk_from i f cc"
    "labels_of (sources s) = labels_of (sources (g_store g))"
    using save_chunk_open [OF assms] by blast
  have z: "ck_id (chunk_from i f cc) = 0" by (simp add: chunk_from_def)
  have "ck_source_id c = ck_source_id (c\<lparr>ck_id := 0\<rparr>)" by simp
  also have "\<dots> = i" using s(5) z by (simp add: chunk_from_def)
  finally show ?thesis
    using s z by (intro exI [of _ s] exI [of _ c]) (simp add: index_chunk_def)
qed

lemma index_chunks_ok:
  assumes "invar (g_store g)" and "\<not> closed (g_store g)"
  shows "\<exists>s new. index_chunks ul ops i f ccs code g =
      (Inr (code + code_count ccs),
       g\<lparr>g_store := s, g_vocab := fold (\<lambda>cc. vocab_add ul (go_fields (cc_content cc))) ccs (g_vocab g)\<rparr>)
    \<and> invar s \<and> \<not> closed s \<and> chunks s = chunks (g_store g) @ new
    \<and> map (\<lambda>c. c\<lparr>ck_id := 0\<rparr>) new = map (chunk_from i f) ccs
    \<and> labels_of (sources s) = labels_of (sources (g_store g))"
  using assms
proof (induction ccs arbitrary: g code)
  case Nil
  then show ?case by (intro exI [of _ "g_store g"] exI [of _ "[]"]) (simp add: code_count_def)
next
  case (Cons cc ccs)
  obtain s c where s: "index_chunk ul ops i f cc g =
      (None, g\<lparr>g_store := s, g_vocab := vocab_add ul (go_fields (cc_content cc)) (g_vocab g)\<rparr>)"
    "invar s" "\<not> closed s" "chunks s = chunks (g_store g) @ [c]" "c\<lparr>ck_id := 0\<rparr> = chunk_from i f cc"
    "labels_of (sources s) = labels_of (sources (g_store g))"
    using index_chunk_ok [OF Cons.prems] by blast
  let ?g = "g\<lparr>g_store := s, g_vocab := vocab_add ul (go_fields (cc_content cc)) (g_vocab g)\<rparr>"
  obtain s' new where "index_chunks ul ops i f ccs (if is_code cc then code + 1 else code) ?g =
      (Inr ((if is_code cc then code + 1 else code) + code_count ccs),
       ?g\<lparr>g_store := s', g_vocab := fold (\<lambda>cc. vocab_add ul (go_fields (cc_content cc))) ccs (g_vocab ?g)\<rparr>)"
    "invar s'" "\<not> closed s'" "chunks s' = chunks s @ new"
    "map (\<lambda>c. c\<lparr>ck_id := 0\<rparr>) new = map (chunk_from i f) ccs" "labels_of (sources s') = labels_of (sources s)"
    using Cons.IH [of ?g "if is_code cc then code + 1 else code"] s(2,3) by auto
  with s show ?case
    by (intro exI [of _ s'] exI [of _ "c # new"]) (simp add: code_count_def)
qed

lemma index_open:
  assumes "invar (g_store g)" and "\<not> closed (g_store g)"
    and chunks: "index_chunking pa (index_config_of opts) content = Some ccs"
  shows "\<exists>sid s new. gist_index pa ul ops g content opts =
      Some (Inr \<lparr>ir_source_id = sid, ir_label = ic_source (index_config_of opts),
              ir_total_chunks = length ccs, ir_code_chunks = code_count ccs\<rparr>,
            count_index (length ccs) (length content)
              (g\<lparr>g_store := s, g_vocab := fold (\<lambda>cc. vocab_add ul (go_fields (cc_content cc))) ccs (g_vocab g)\<rparr>))
    \<and> labels_of (sources s) = labels_of (sources (g_store g)) @ [(sid, ic_source (index_config_of opts))]
    \<and> sid \<notin> src_id ` set (sources (g_store g))
    \<and> chunks s = chunks (g_store g) @ new
    \<and> map (\<lambda>c. c\<lparr>ck_id := 0\<rparr>) new = map (chunk_from (sid) (ic_format (index_config_of opts))) ccs
    \<and> invar s \<and> \<not> closed s"
proof -
  let ?ic = "index_config_of opts"
  obtain src s where s: "so_save_source ops (g_store g) (ic_source ?ic) (ic_format ?ic) = (Inr src, s)"
    "invar s" "\<not> closed s" "sources s = sources (g_store g) @ [src]" "chunks s = chunks (g_store g)"
    "src_label src = ic_source ?ic" "src_id src \<notin> src_id ` set (sources (g_store g))"
    using save_source_open [OF assms(1,2)] by metis
  obtain s' new where s': "index_chunks ul ops (src_id src) (ic_format ?ic) ccs 0 (g\<lparr>g_store := s\<rparr>) =
      (Inr (0 + code_count ccs), g\<lparr>g_store := s\<rparr>\<lparr>g_store := s',
        g_vocab := fold (\<lambda>cc. vocab_add ul (go_fields (cc_content cc))) ccs (g_vocab (g\<lparr>g_store := s\<rparr>))\<rparr>)"
    "invar s'" "\<not> closed s'" "chunks s' = chunks s @ new"
    "map (\<lambda>c. c\<lparr>ck_id := 0\<rparr>) new = map (chunk_from (src_id src) (ic_format ?ic)) ccs"
    "labels_of (sources s') = labels_of (sources s)"
    using index_chunks_ok [of "g\<lparr>g_store := s\<rparr>" ul "src_id src" "ic_format ?ic" ccs 0] s(2,3) by auto
  then have "gist_index pa ul ops g content opts =
      Some (Inr \<lparr>ir_source_id = src_id src, ir_label = ic_source ?ic,
              ir_total_chunks = length ccs, ir_code_chunks = code_count ccs\<rparr>,
            count_index (length ccs) (length content)
              (g\<lparr>g_store := s', g_vocab := fold (\<lambda>cc. vocab_add ul (go_fields (cc_content cc))) ccs (g_vocab g)\<rparr>))"
    using s(1) chunks by (simp add: gist_index_def Let_def)
  with s s' show ?thesis
    by (intro exI [of _ "src_id src"] exI [of _ s'] exI [of _ new]) (simp add: labels_of_def)
qed

end

subsection \<open>The invariant of a batch\<close>

text \<open>What a goroutine has done so far: the chunks stored under its source are those of its item, in
  order, as far as it has got.\<close>

definition job_ok :: "parsers \<Rightarrow> source list \<Rightarrow> chunk list \<Rightarrow> batch_item \<Rightarrow> job \<Rightarrow> bool" where
  "job_ok pa srcs cks it j \<longleftrightarrow>
     (case j of
        Queued \<Rightarrow> True
      | Saving sid todo code \<Rightarrow> (\<exists>ready. index_chunking pa (item_config it) (bi_content it) = Some (ready @ todo)
          \<and> code = code_count ready \<and> (sid, ic_source (item_config it)) \<in> set (labels_of srcs)
          \<and> saved cks sid = map (chunk_from sid (ic_format (item_config it))) ready)
      | Finished r \<Rightarrow> (\<exists>ccs sid. index_chunking pa (item_config it) (bi_content it) = Some ccs
          \<and> r = Inr \<lparr>ir_source_id = sid, ir_label = ic_source (item_config it),
                    ir_total_chunks = length ccs, ir_code_chunks = code_count ccs\<rparr>
          \<and> (sid, ic_source (item_config it)) \<in> set (labels_of srcs)
          \<and> saved cks sid = map (chunk_from sid (ic_format (item_config it))) ccs))"

fun job_source :: "job \<Rightarrow> nat option" where
  "job_source (Saving sid _ _) = Some sid"
| "job_source (Finished (Inr r)) = Some (ir_source_id r)"
| "job_source _ = None"

fun job_chunks :: "job \<Rightarrow> nat" where
  "job_chunks (Finished (Inr r)) = ir_total_chunks r"
| "job_chunks _ = 0"

definition own_sources :: "job list \<Rightarrow> bool" where
  "own_sources js \<longleftrightarrow> (\<forall>i < length js. \<forall>k < length js. i \<noteq> k \<longrightarrow> job_source (js ! i) \<noteq> None
     \<longrightarrow> job_source (js ! i) \<noteq> job_source (js ! k))"

lemma own_sources_keep:
  assumes "own_sources js" and "i < length js" and "job_source j = job_source (js ! i)"
  shows "own_sources (js[i := j])"
  using assms unfolding own_sources_def by (metis length_list_update nth_list_update_eq nth_list_update_neq)

lemma own_sources_new:
  assumes "own_sources js" and "\<forall>k < length js. job_source (js ! k) \<noteq> job_source j"
  shows "own_sources (js[i := j])"
  using assms unfolding own_sources_def by (metis length_list_update nth_list_update_eq nth_list_update_neq)

lemma job_source_known: "job_ok pa srcs cks it j \<Longrightarrow> job_source j = Some sid \<Longrightarrow> sid \<in> fst ` set (labels_of srcs)"
  by (cases j) (force simp: job_ok_def)+

lemma job_ok_frame:
  assumes "job_ok pa srcs cks it j" and "set (labels_of srcs) \<subseteq> set (labels_of srcs')"
    and "\<And>sid. job_source j = Some sid \<Longrightarrow> saved cks' sid = saved cks sid"
  shows "job_ok pa srcs' cks' it j"
  using assms by (cases j) (force simp: job_ok_def)+

lemma code_count_snoc: "code_count (xs @ [c]) = (if is_code c then code_count xs + 1 else code_count xs)"
  by (simp add: code_count_def)

lemma active_update:
  "i < length js \<Longrightarrow> length (filter is_active (js[i := j])) + (if is_active (js ! i) then 1 else 0)
     = length (filter is_active js) + (if is_active j then 1 else 0)"
proof (induction js arbitrary: i)
  case (Cons a js)
  then show ?case by (cases i) fastforce+
qed simp

lemma job_chunks_update:
  "i < length js \<Longrightarrow> sum_list (map job_chunks (js[i := j])) + job_chunks (js ! i)
     = sum_list (map job_chunks js) + job_chunks j"
proof (induction js arbitrary: i)
  case (Cons a js)
  then show ?case by (cases i) fastforce+
qed simp

context store_contract
begin

definition batch_inv :: "'s gist \<Rightarrow> parsers \<Rightarrow> batch_item list \<Rightarrow> nat \<Rightarrow> 's batch \<Rightarrow> bool" where
  "batch_inv g0 pa items limit b \<longleftrightarrow>
     invar (g_store (b_gist b)) \<and> \<not> closed (g_store (b_gist b))
     \<and> chunks_known (sources (g_store (b_gist b))) (chunks (g_store (b_gist b)))
     \<and> prefix (chunks (g_store g0)) (chunks (g_store (b_gist b)))
     \<and> length (b_jobs b) = length items
     \<and> (\<forall>i < length items. job_ok pa (sources (g_store (b_gist b))) (chunks (g_store (b_gist b))) (items ! i) (b_jobs b ! i))
     \<and> own_sources (b_jobs b)
     \<and> length (filter is_active (b_jobs b)) \<le> limit
     \<and> g_chunk_count (b_gist b) = g_chunk_count g0 + sum_list (map job_chunks (b_jobs b))"

lemma batch_inv_start:
  assumes "invar (g_store g)" and "\<not> closed (g_store g)"
    and "chunks_known (sources (g_store g)) (chunks (g_store g))"
  shows "batch_inv g pa items limit (start_batch g items)"
proof -
  have "sum_list (map job_chunks (map (\<lambda>_. Queued) items)) = 0" "filter is_active (map (\<lambda>_. Queued) items) = []"
    by (induction items) (auto simp: is_active_def)
  with assms show ?thesis
    by (auto simp: batch_inv_def start_batch_def job_ok_def own_sources_def)
qed

lemma batch_inv_begin:
  assumes inv: "batch_inv g0 pa items limit b" and i: "i < length (b_jobs b)" "b_jobs b ! i = Queued"
    and room: "length (filter is_active (b_jobs b)) < limit"
    and ccs: "index_chunking pa (item_config (items ! i)) (bi_content (items ! i)) = Some ccs"
    and save: "so_save_source ops (g_store (b_gist b)) (ic_source (item_config (items ! i))) f = (r, s)"
  shows "\<exists>src. r = Inr src \<and> batch_inv g0 pa items limit
     \<lparr>b_gist = (b_gist b)\<lparr>g_store := s\<rparr>, b_jobs = (b_jobs b)[i := Saving (src_id src) ccs 0]\<rparr>"
proof -
  let ?s = "g_store (b_gist b)" and ?ic = "item_config (items ! i)"
  obtain src where src: "r = Inr src" "invar s" "\<not> closed s" "sources s = sources ?s @ [src]"
    "chunks s = chunks ?s" "src_label src = ic_source ?ic" "src_id src \<notin> src_id ` set (sources ?s)"
    using save_source_open [of ?s "ic_source ?ic" f] inv save by (auto simp: batch_inv_def)
  have fresh: "src_id src \<notin> fst ` set (labels_of (sources ?s))" using src(7) by (simp add: src_ids_labels)
  have labels: "labels_of (sources s) = labels_of (sources ?s) @ [(src_id src, ic_source ?ic)]"
    using src(4,6) by (simp add: labels_of_def)
  have "src_id src \<notin> ck_source_id ` set (chunks ?s)"
    using inv fresh by (auto simp: batch_inv_def chunks_known_def)
  then have "saved (chunks s) (src_id src) = []" using src(5) by (simp add: saved_unknown)
  then have new: "job_ok pa (sources s) (chunks s) (items ! i) (Saving (src_id src) ccs 0)"
    using ccs labels by (simp add: job_ok_def code_count_def)
  have old: "job_ok pa (sources s) (chunks s) (items ! k) (b_jobs b ! k)" if "k < length items" for k
    using inv that labels src(5) by - (rule job_ok_frame [of pa "sources ?s" "chunks ?s"], auto simp: batch_inv_def)
  have "own_sources ((b_jobs b)[i := Saving (src_id src) ccs 0])"
    using inv fresh job_source_known by (intro own_sources_new) (fastforce simp: batch_inv_def)+
  moreover have "length (filter is_active ((b_jobs b)[i := Saving (src_id src) ccs 0])) \<le> limit"
    using active_update [OF i(1), of "Saving (src_id src) ccs 0"] i(2) room by (simp add: is_active_def)
  moreover have "sum_list (map job_chunks ((b_jobs b)[i := Saving (src_id src) ccs 0])) = sum_list (map job_chunks (b_jobs b))"
    using job_chunks_update [OF i(1), of "Saving (src_id src) ccs 0"] i(2) by simp
  moreover have "\<forall>k < length items. job_ok pa (sources s) (chunks s) (items ! k) ((b_jobs b)[i := Saving (src_id src) ccs 0] ! k)"
    using new old i(1) by (auto simp: nth_list_update)
  moreover have "chunks_known (sources s) (chunks s)"
    using inv src(5) labels by (auto simp: batch_inv_def chunks_known_def)
  ultimately have "batch_inv g0 pa items limit
      \<lparr>b_gist = (b_gist b)\<lparr>g_store := s\<rparr>, b_jobs = (b_jobs b)[i := Saving (src_id src) ccs 0]\<rparr>"
    using inv src(2,3,5) by (simp add: batch_inv_def)
  with src(1) show ?thesis by blast
qed

lemma batch_inv_save:
  assumes inv: "batch_inv g0 pa items limit b" and i: "i < length (b_jobs b)" "b_jobs b ! i = Saving sid (cc # todo) code"
    and save: "index_chunk ul ops sid (ic_format (item_config (items ! i))) cc (b_gist b) = (r, g)"
  shows "r = None \<and> batch_inv g0 pa items limit
     \<lparr>b_gist = g, b_jobs = (b_jobs b)[i := Saving sid todo (if is_code cc then code + 1 else code)]\<rparr>"
proof -
  let ?s = "g_store (b_gist b)" and ?f = "ic_format (item_config (items ! i))"
    and ?j = "Saving sid todo (if is_code cc then code + 1 else code)"
  obtain s c where s: "r = None"
    "g = (b_gist b)\<lparr>g_store := s, g_vocab := vocab_add ul (go_fields (cc_content cc)) (g_vocab (b_gist b))\<rparr>"
    "invar s" "\<not> closed s" "chunks s = chunks ?s @ [c]" "c\<lparr>ck_id := 0\<rparr> = chunk_from sid ?f cc"
    "ck_source_id c = sid" "labels_of (sources s) = labels_of (sources ?s)"
    using index_chunk_ok [of "b_gist b" ul sid ?f cc] inv save by (auto simp: batch_inv_def)
  have ok: "job_ok pa (sources ?s) (chunks ?s) (items ! i) (Saving sid (cc # todo) code)"
    using inv i by (metis batch_inv_def)
  then have new: "job_ok pa (sources s) (chunks s) (items ! i) ?j" and known: "sid \<in> fst ` set (labels_of (sources ?s))"
    using s(5-8) by (force simp: job_ok_def code_count_def)+
  have old: "job_ok pa (sources s) (chunks s) (items ! k) (b_jobs b ! k)" if "k < length items" "k \<noteq> i" for k
  proof (rule job_ok_frame [of pa "sources ?s" "chunks ?s"])
    show "saved (chunks s) sid' = saved (chunks ?s) sid'" if "job_source (b_jobs b ! k) = Some sid'" for sid'
      using that inv i \<open>k < length items\<close> \<open>k \<noteq> i\<close> s(5,7) by (force simp: batch_inv_def own_sources_def)
  qed (use inv that s(8) in \<open>auto simp: batch_inv_def\<close>)
  have "own_sources ((b_jobs b)[i := ?j])"
    using inv i by (intro own_sources_keep) (auto simp: batch_inv_def)
  moreover have "length (filter is_active ((b_jobs b)[i := ?j])) \<le> limit"
    using active_update [OF i(1), of ?j] i(2) inv by (simp add: is_active_def batch_inv_def)
  moreover have "sum_list (map job_chunks ((b_jobs b)[i := ?j])) = sum_list (map job_chunks (b_jobs b))"
    using job_chunks_update [OF i(1), of ?j] i(2) by simp
  moreover have "\<forall>k < length items. job_ok pa (sources s) (chunks s) (items ! k) ((b_jobs b)[i := ?j] ! k)"
    using new old i(1) by (auto simp: nth_list_update)
  moreover have "chunks_known (sources s) (chunks s)"
    using inv s(5,7,8) known by (auto simp: batch_inv_def chunks_known_def)
  ultimately show ?thesis
    using inv s by (auto simp: batch_inv_def)
qed

lemma batch_inv_finish:
  assumes inv: "batch_inv g0 pa items limit b" and i: "i < length (b_jobs b)" "b_jobs b ! i = Saving sid [] code"
    and ccs: "index_chunking pa (item_config (items ! i)) (bi_content (items ! i)) = Some ccs"
  shows "batch_inv g0 pa items limit
     \<lparr>b_gist = count_index (length ccs) n (b_gist b),
      b_jobs = (b_jobs b)[i := Finished (Inr \<lparr>ir_source_id = sid, ir_label = ic_source (item_config (items ! i)),
        ir_total_chunks = length ccs, ir_code_chunks = code\<rparr>)]\<rparr>"
proof -
  let ?s = "g_store (b_gist b)"
  let ?j = "Finished (Inr \<lparr>ir_source_id = sid, ir_label = ic_source (item_config (items ! i)),
        ir_total_chunks = length ccs, ir_code_chunks = code\<rparr>)"
  have ok: "job_ok pa (sources ?s) (chunks ?s) (items ! i) (Saving sid [] code)"
    using inv i by (metis batch_inv_def)
  then have "job_ok pa (sources ?s) (chunks ?s) (items ! i) ?j"
    using ccs by (auto simp: job_ok_def)
  then have "\<forall>k < length items. job_ok pa (sources ?s) (chunks ?s) (items ! k) ((b_jobs b)[i := ?j] ! k)"
    using inv i by (auto simp: nth_list_update batch_inv_def)
  moreover have "own_sources ((b_jobs b)[i := ?j])"
    using inv i by (intro own_sources_keep) (auto simp: batch_inv_def)
  moreover have "length (filter is_active ((b_jobs b)[i := ?j])) \<le> limit"
    using active_update [OF i(1), of ?j] i(2) inv by (simp add: is_active_def batch_inv_def)
  moreover have "sum_list (map job_chunks ((b_jobs b)[i := ?j])) = sum_list (map job_chunks (b_jobs b)) + length ccs"
    using job_chunks_update [OF i(1), of ?j] i(2) by simp
  ultimately show ?thesis
    using inv by (auto simp: batch_inv_def count_index_def)
qed

lemma batch_inv_step:
  assumes "batch_step pa ul ops items limit b b'" and "batch_inv g0 pa items limit b"
  shows "batch_inv g0 pa items limit b'"
  using assms(1)
proof (cases rule: batch_step.cases)
  case (start i ccs r s)
  then show ?thesis using batch_inv_begin [OF assms(2)] by fastforce
next
  case (save i sid cc todo code r g)
  then show ?thesis using batch_inv_save [OF assms(2)] by fastforce
next
  case (finish i sid code ccs)
  then show ?thesis using batch_inv_finish [OF assms(2)] by simp
qed

lemma batch_inv_steps:
  "batch_steps pa ul ops items limit b b' \<Longrightarrow> batch_inv g0 pa items limit b \<Longrightarrow> batch_inv g0 pa items limit b'"
  by (induction rule: rtranclp_induct) (auto intro: batch_inv_step)

end

subsection \<open>Progress of a batch\<close>

definition job_work :: "parsers \<Rightarrow> batch_item \<Rightarrow> job \<Rightarrow> nat" where
  "job_work pa it j =
     (case j of
        Queued \<Rightarrow> 2 + (case index_chunking pa (item_config it) (bi_content it) of None \<Rightarrow> 0 | Some ccs \<Rightarrow> length ccs)
      | Saving _ todo _ \<Rightarrow> 1 + length todo
      | Finished _ \<Rightarrow> 0)"

definition batch_work :: "parsers \<Rightarrow> batch_item list \<Rightarrow> 's batch \<Rightarrow> nat" where
  "batch_work pa items b = (\<Sum>i < length (b_jobs b). job_work pa (items ! i) (b_jobs b ! i))"

definition batch_done :: "'s batch \<Rightarrow> bool" where
  "batch_done b \<longleftrightarrow> list_all (\<lambda>j. case j of Finished _ \<Rightarrow> True | _ \<Rightarrow> False) (b_jobs b)"

lemma batch_work_update:
  assumes "i < length (b_jobs b)" and "job_work pa (items ! i) j < job_work pa (items ! i) (b_jobs b ! i)"
  shows "batch_work pa items \<lparr>b_gist = g, b_jobs = (b_jobs b)[i := j]\<rparr> < batch_work pa items b"
proof -
  have "(\<Sum>k < length (b_jobs b). job_work pa (items ! k) ((b_jobs b)[i := j] ! k))
      < (\<Sum>k < length (b_jobs b). job_work pa (items ! k) (b_jobs b ! k))"
  proof (rule sum_strict_mono_ex1)
    show "\<exists>k \<in> {..<length (b_jobs b)}. job_work pa (items ! k) ((b_jobs b)[i := j] ! k)
        < job_work pa (items ! k) (b_jobs b ! k)"
      using assms by (intro bexI [of _ i]) auto
  qed (use assms in \<open>auto simp: nth_list_update\<close>)
  then show ?thesis by (simp add: batch_work_def)
qed

lemma batch_step_work: "batch_step pa ul ops items limit b b' \<Longrightarrow> batch_work pa items b' < batch_work pa items b"
  by (induction rule: batch_step.induct)
    (rule batch_work_update; simp add: job_work_def split: sum.split option.split)+

lemma batch_steps_bounded:
  "(batch_step pa ul ops items limit ^^ n) b b' \<Longrightarrow> n + batch_work pa items b' \<le> batch_work pa items b"
proof (induction n arbitrary: b')
  case (Suc n)
  then obtain c where "(batch_step pa ul ops items limit ^^ n) b c" "batch_step pa ul ops items limit c b'"
    by auto
  with Suc.IH batch_step_work show ?case by fastforce
qed simp

lemma batch_not_stuck:
  assumes len: "length (b_jobs b) = length items" and "0 < limit"
    and chunkable: "\<forall>it \<in> set items. index_chunking pa (item_config it) (bi_content it) \<noteq> None"
    and "\<not> batch_done b"
  shows "\<exists>b'. batch_step pa ul ops items limit b b'"
proof (cases "\<exists>i < length (b_jobs b). is_active (b_jobs b ! i)")
  case True
  then obtain i sid todo code where i: "i < length (b_jobs b)" "b_jobs b ! i = Saving sid todo code"
    by (metis is_active_iff)
  obtain ccs where "index_chunking pa (item_config (items ! i)) (bi_content (items ! i)) = Some ccs"
    using chunkable i(1) len by (metis not_None_eq nth_mem)
  with i show ?thesis
    by (cases todo) (metis finish, metis save surj_pair)
next
  case False
  then have none: "filter is_active (b_jobs b) = []"
    by (auto simp: filter_empty_conv in_set_conv_nth)
  have "\<exists>i. i < length (b_jobs b) \<and> b_jobs b ! i = Queued"
    using False assms(4) by (force simp: batch_done_def list_all_length is_active_def split: job.splits)
  then obtain i where i: "i < length (b_jobs b)" "b_jobs b ! i = Queued"
    "\<forall>k < i. \<not> (k < length (b_jobs b) \<and> b_jobs b ! k = Queued)"
    using exists_least_iff [of "\<lambda>i. i < length (b_jobs b) \<and> b_jobs b ! i = Queued"] by blast
  obtain ccs where "index_chunking pa (item_config (items ! i)) (bi_content (items ! i)) = Some ccs"
    using chunkable i(1) len by (metis not_None_eq nth_mem)
  obtain r s where rs: "so_save_source ops (g_store (b_gist b)) (ic_source (item_config (items ! i)))
      (ic_format (item_config (items ! i))) = (r, s)" by fastforce
  have "\<forall>k < i. b_jobs b ! k \<noteq> Queued" using i by auto
  moreover have "length (filter is_active (b_jobs b)) < limit" using none assms(2) by simp
  ultimately show ?thesis using start [OF i(1,2) _ _ \<open>_ = Some ccs\<close> rs] by blast
qed

lemma batch_step_length: "batch_step pa ul ops items limit b b' \<Longrightarrow> length (b_jobs b') = length (b_jobs b)"
  by (induction rule: batch_step.induct) auto

lemma batch_steps_length: "batch_steps pa ul ops items limit b b' \<Longrightarrow> length (b_jobs b') = length (b_jobs b)"
  by (induction rule: rtranclp_induct) (auto simp: batch_step_length)

lemma batch_completes:
  assumes "0 < limit" and "\<forall>it \<in> set items. index_chunking pa (item_config it) (bi_content it) \<noteq> None"
    and "length (b_jobs b) = length items"
  shows "\<exists>b'. batch_steps pa ul ops items limit b b' \<and> batch_done b'"
  using assms(3)
proof (induction "batch_work pa items b" arbitrary: b rule: less_induct)
  case less
  show ?case
  proof (cases "batch_done b")
    case False
    then obtain c where c: "batch_step pa ul ops items limit b c"
      using batch_not_stuck [OF less.prems assms(1,2)] by blast
    then have "length (b_jobs c) = length items" using batch_step_length less.prems by metis
    then obtain b' where "batch_steps pa ul ops items limit c b'" "batch_done b'"
      using less.hyps [OF batch_step_work [OF c]] by blast
    with c show ?thesis by (meson converse_rtranclp_into_rtranclp)
  qed auto
qed

subsection \<open>Properties of the component\<close>

definition sample_items :: "batch_item list" where
  "sample_items = [\<lparr>bi_content = ''ab'', bi_source = ''s'', bi_format = FormatPlainText\<rparr>,
                   \<lparr>bi_content = ''cd'', bi_source = [], bi_format = FormatPlainText\<rparr>]"

lemma sample_chunking: "it \<in> set sample_items \<Longrightarrow>
    index_chunking no_parsers (item_config it) (bi_content it) = Some (chunk_plain_text (bi_content it) 4096)"
  by (auto simp: sample_items_def index_chunking_def chunk_content_def with_chunk_format_def with_max_chunk_bytes_def
      item_config_def item_options_def index_config_of_def default_index_config_def default_chunk_config_def
      default_max_chunk_bytes_def)

lemma sample_completes:
  "\<exists>b. batch_steps no_parsers id (memory_ops id (sort_key (\<lambda>m. - sm_score m))) sample_items 2
         (start_batch (new_gist new_memory_store 0) sample_items) b \<and> batch_done b"
  using sample_chunking by (intro batch_completes) (auto simp: start_batch_def)

lemma memory_batch_start:
  assumes "sorts_by higher_score srt" and "memory_reachable (g_store g)" and "\<not> ms_closed (g_store g)"
  shows "store_contract.batch_inv memory_inv ms_closed ms_sources ms_chunks g pa items limit (start_batch g items)"
proof -
  have "chunks_known (ms_sources (g_store g)) (ms_chunks (g_store g))"
    using reachable_tally [OF assms(2)] by (auto simp: chunks_known_def tally_inv_def simp flip: src_ids_labels)
  with assms show ?thesis
    by (intro store_contract.batch_inv_start [OF memory_store_contract] reachable_inv)
qed





text \<open>\<open>Index\<close> on an open in-memory store with chunkable content saves one new source and appends
  exactly the chunks of the content under it, in order, leaves the earlier chunks alone, adds the
  lower-cased words of every chunk to the vocabulary and counts the work; on a closed store it reports
  the error and changes nothing.\<close>

theorem gist_index_functional:
  assumes "sorts_by higher_score srt" and "memory_reachable (g_store g)"
    and ccs: "index_chunking pa (index_config_of opts) content = Some ccs"
  shows "\<exists>res g'. gist_index pa ul (memory_ops ul srt) g content opts = Some (res, g')
     \<and> (case res of
          Inl e \<Rightarrow> ms_closed (g_store g) \<and> e = StoreClosed \<and> g' = g
        | Inr r \<Rightarrow> \<not> ms_closed (g_store g)
            \<and> ir_source_id r \<notin> src_id ` set (ms_sources (g_store g))
            \<and> (\<exists>new. ms_chunks (g_store g') = ms_chunks (g_store g) @ new
                 \<and> saved new (ir_source_id r) = map (chunk_from (ir_source_id r) (ic_format (index_config_of opts))) ccs
                 \<and> length new = ir_total_chunks r)
            \<and> set (g_vocab g') = set (g_vocab g) \<union> (\<Union>cc \<in> set ccs. go_tolower ul ` set (go_fields (cc_content cc)))
            \<and> g_source_count g' = g_source_count g + 1 \<and> g_chunk_count g' = g_chunk_count g + length ccs
            \<and> g_bytes_idx g' = g_bytes_idx g + length content)"
proof (cases "ms_closed (g_store g)")
  case True
  then show ?thesis
    using ccs by (auto simp: gist_index_def Let_def memory_ops_def ms_save_source_def)
next
  case False
  obtain sid s new where ix: "gist_index pa ul (memory_ops ul srt) g content opts =
      Some (Inr \<lparr>ir_source_id = sid, ir_label = ic_source (index_config_of opts),
              ir_total_chunks = length ccs, ir_code_chunks = code_count ccs\<rparr>,
            count_index (length ccs) (length content)
              (g\<lparr>g_store := s, g_vocab := fold (\<lambda>cc. vocab_add ul (go_fields (cc_content cc))) ccs (g_vocab g)\<rparr>))"
    "sid \<notin> src_id ` set (ms_sources (g_store g))" "ms_chunks s = ms_chunks (g_store g) @ new"
    "map (\<lambda>c. c\<lparr>ck_id := 0\<rparr>) new = map (chunk_from sid (ic_format (index_config_of opts))) ccs"
    using store_contract.index_open [OF memory_store_contract [OF assms(1)] reachable_inv [OF assms(2)] False ccs]
    by blast
  have "map ck_source_id new = map (ck_source_id \<circ> (\<lambda>c. c\<lparr>ck_id := 0\<rparr>)) new" by simp
  also have "\<dots> = map ck_source_id (map (chunk_from sid (ic_format (index_config_of opts))) ccs)"
    using ix(4) by (metis map_map)
  finally have "set (map ck_source_id new) \<subseteq> {sid}" by (auto simp: chunk_from_def)
  then have "\<forall>c \<in> set new. ck_source_id c = sid" by (simp add: subset_iff)
  then have "saved new sid = map (chunk_from sid (ic_format (index_config_of opts))) ccs"
    using ix(4) by (simp add: saved_def)
  moreover have "length new = length ccs" using ix(4) by (metis length_map)
  moreover have "set (fold (\<lambda>cc. vocab_add ul (go_fields (cc_content cc))) xs v) =
      set v \<union> (\<Union>cc \<in> set xs. go_tolower ul ` set (go_fields (cc_content cc)))" for xs v
    by (induction xs arbitrary: v) auto
  ultimately show ?thesis using ix False by (simp add: count_index_def)
qed

theorem gist_index_functional_witness:
  "\<exists>r g'. gist_index no_parsers id (memory_ops id (sort_key (\<lambda>m. - sm_score m))) (new_gist sample_store 0) ''Ab''
      [WithFormat FormatPlainText] = Some (Inr r, g') \<and> g_chunk_count g' = 1 \<and> set (g_vocab g') = {''ab''}"
proof -
  let ?g = "new_gist sample_store 0"
  have ch: "index_chunking no_parsers (index_config_of [WithFormat FormatPlainText]) ''Ab'' = Some (chunk_plain_text ''Ab'' 4096)"
    by (simp add: index_chunking_def chunk_content_def with_chunk_format_def with_max_chunk_bytes_def
        index_config_of_def default_index_config_def default_chunk_config_def default_max_chunk_bytes_def)
  have "memory_reachable (g_store ?g)" by (simp add: new_gist_def sample_store_reachable)
  note spec = gist_index_functional [OF sorts_by_score this ch, of id]
  then obtain res g' where ix: "gist_index no_parsers id (memory_ops id (sort_key (\<lambda>m. - sm_score m))) ?g ''Ab''
      [WithFormat FormatPlainText] = Some (res, g')" by (elim exE conjE)
  have res: "case res of Inl e \<Rightarrow> ms_closed (g_store ?g) | Inr r \<Rightarrow>
      set (g_vocab g') = set (g_vocab ?g) \<union> (\<Union>cc \<in> set (chunk_plain_text ''Ab'' 4096). go_tolower id ` set (go_fields (cc_content cc)))
      \<and> g_chunk_count g' = g_chunk_count ?g + length (chunk_plain_text ''Ab'' 4096)"
    using spec unfolding ix by (cases res) simp_all
  have words: "map (\<lambda>cc. map (go_tolower id) (go_fields (cc_content cc))) (chunk_plain_text ''Ab'' 4096) = [[''ab'']]"
    by code_simp
  then have "length (chunk_plain_text ''Ab'' 4096) = 1" by (metis length_map length_Cons list.size(3) One_nat_def)
  moreover have "(\<Union>cc \<in> set (chunk_plain_text ''Ab'' 4096). go_tolower id ` set (go_fields (cc_content cc)))
      = \<Union> (set (map set (map (\<lambda>cc. map (go_tolower id) (go_fields (cc_content cc))) (chunk_plain_text ''Ab'' 4096))))"
    by simp
  moreover have "g_vocab ?g = []" "g_chunk_count ?g = 0" by (simp_all add: new_gist_def new_vocabulary_def)
  moreover have "\<not> ms_closed (g_store ?g)" by code_simp
  ultimately show ?thesis
    using ix res unfolding words by (cases res) auto
qed

end
