(* ===== verification/RemoteSessions.thy ===== *)
theory RemoteSessions
  imports GoStrings "HOL-Library.AList"
begin

text \<open>
  \<open>hosted/internal/remotemcp/transport.go\<close>: the session table of the remote MCP endpoint and the
  handling of a request up to the tool call. The table keeps every live session in a map by id and in
  three recency lists (all sessions, those of each principal, those of each workspace, most recently
  used first); every method runs under the handler's mutex and is one function of the table. A list
  element is the id of its session: ids are 16 random bytes, and a run never draws one that is live.
  Times are nanoseconds of the monotonic clock.
\<close>

record mcp_session =
  ses_id :: string
  ses_principal :: string
  ses_workspace :: string
  ses_last :: int

record session_table =
  t_sessions :: "(string \<times> mcp_session) list"
  t_lru :: "string list"
  t_by_principal :: "string \<rightharpoonup> string list"
  t_by_workspace :: "string \<rightharpoonup> string list"
  t_calls :: "string \<Rightarrow> nat"

record mcp_config =
  mc_max_body_bytes :: int
  mc_max_calls :: int
  mc_session_ttl :: int
  mc_max_sessions :: int
  mc_max_per_principal :: int
  mc_max_per_workspace :: int
  mc_max_concurrent :: int

definition or_default :: "int \<Rightarrow> int \<Rightarrow> int" where
  "or_default v d = (if v \<le> 0 then d else v)"

text \<open>The normalisation of the configuration in \<open>New\<close>; \<open>rate_limit\<close> is \<open>Services.Limits.RateLimit\<close>.\<close>

definition normalise_config :: "int \<Rightarrow> mcp_config \<Rightarrow> mcp_config" where
  "normalise_config rate_limit c =
     (let max_s = or_default (mc_max_sessions c) 10000;
          max_w = min (or_default (mc_max_per_workspace c) 2000) max_s;
          max_p = min (or_default (mc_max_per_principal c) 32) max_w
      in \<lparr>mc_max_body_bytes = or_default (mc_max_body_bytes c) (10 * 2 ^ 20),
          mc_max_calls = or_default (mc_max_calls c) 100,
          mc_session_ttl = or_default (mc_session_ttl c) (3600 * 10 ^ 9),
          mc_max_sessions = max_s, mc_max_per_principal = max_p, mc_max_per_workspace = max_w,
          mc_max_concurrent = or_default (or_default (mc_max_concurrent c) rate_limit) 100\<rparr>)"

definition new_table :: session_table where
  "new_table = \<lparr>t_sessions = [], t_lru = [], t_by_principal = Map.empty, t_by_workspace = Map.empty,
                t_calls = (\<lambda>_. 0)\<rparr>"

text \<open>\<open>list.MoveToFront\<close>, \<open>list.PushFront\<close> and \<open>list.Remove\<close> on a list kept in a map.\<close>

definition move_to_front :: "'a \<Rightarrow> 'a list \<Rightarrow> 'a list" where
  "move_to_front x xs = (if x \<in> set xs then x # remove1 x xs else xs)"

definition index_front :: "string \<Rightarrow> string \<Rightarrow> (string \<rightharpoonup> string list) \<Rightarrow> (string \<rightharpoonup> string list)" where
  "index_front k x m = (case m k of None \<Rightarrow> m | Some l \<Rightarrow> m(k \<mapsto> move_to_front x l))"

definition index_push :: "string \<Rightarrow> string \<Rightarrow> (string \<rightharpoonup> string list) \<Rightarrow> (string \<rightharpoonup> string list)" where
  "index_push k x m = m(k \<mapsto> x # (case m k of None \<Rightarrow> [] | Some l \<Rightarrow> l))"

definition index_remove :: "string \<Rightarrow> string \<Rightarrow> (string \<rightharpoonup> string list) \<Rightarrow> (string \<rightharpoonup> string list)" where
  "index_remove k x m =
     (case m k of None \<Rightarrow> m
      | Some l \<Rightarrow> (let l' = remove1 x l in if l' = [] then m(k := None) else m(k \<mapsto> l')))"

definition remove_session :: "mcp_session \<Rightarrow> session_table \<Rightarrow> session_table" where
  "remove_session s h =
     h\<lparr>t_lru := remove1 (ses_id s) (t_lru h),
       t_by_principal := index_remove (ses_principal s) (ses_id s) (t_by_principal h),
       t_by_workspace := index_remove (ses_workspace s) (ses_id s) (t_by_workspace h),
       t_sessions := AList.delete (ses_id s) (t_sessions h)\<rparr>"

definition touch :: "mcp_config \<Rightarrow> int \<Rightarrow> string \<Rightarrow> string \<Rightarrow> session_table \<Rightarrow> bool \<times> session_table" where
  "touch c now i owner h =
     (case map_of (t_sessions h) i of
        None \<Rightarrow> (False, h)
      | Some s \<Rightarrow>
          if ses_principal s \<noteq> owner then (False, h)
          else if now - ses_last s > mc_session_ttl c
          then (False, if t_calls h i = 0 then remove_session s h else h)
          else (True, h\<lparr>t_sessions := AList.update i (s\<lparr>ses_last := now\<rparr>) (t_sessions h),
                        t_lru := move_to_front i (t_lru h),
                        t_by_principal := index_front owner i (t_by_principal h),
                        t_by_workspace := index_front (ses_workspace s) i (t_by_workspace h)\<rparr>))"

definition session_ok :: "mcp_config \<Rightarrow> int \<Rightarrow> string \<Rightarrow> string \<Rightarrow> session_table \<Rightarrow> bool \<times> session_table" where
  "session_ok c now i owner h = (if i = [] then (False, h) else touch c now i owner h)"

definition admit_call ::
  "mcp_config \<Rightarrow> int \<Rightarrow> string \<Rightarrow> string \<Rightarrow> session_table \<Rightarrow> (bool \<times> bool) \<times> session_table" where
  "admit_call c now i owner h =
     (if i = [] then ((False, False), h)
      else (case touch c now i owner h of
              (False, h') \<Rightarrow> ((False, False), h')
            | (True, h') \<Rightarrow>
                (let n = t_calls h' i + 1
                 in ((True, int n > mc_max_calls c), h'\<lparr>t_calls := (t_calls h')(i := n)\<rparr>))))"

definition release_call :: "string \<Rightarrow> session_table \<Rightarrow> session_table" where
  "release_call i h = h\<lparr>t_calls := (t_calls h)(i := t_calls h i - 1)\<rparr>"

text \<open>The walks from the cold end of a list; the argument is the list read backwards.\<close>

fun sweep_walk :: "mcp_config \<Rightarrow> int \<Rightarrow> string list \<Rightarrow> session_table \<Rightarrow> session_table" where
  "sweep_walk c now [] h = h"
| "sweep_walk c now (i # is) h =
     (case map_of (t_sessions h) i of
        None \<Rightarrow> h
      | Some s \<Rightarrow>
          if now - ses_last s \<le> mc_session_ttl c then h
          else sweep_walk c now is (if t_calls h (ses_id s) = 0 then remove_session s h else h))"

definition sweep_expired :: "mcp_config \<Rightarrow> int \<Rightarrow> session_table \<Rightarrow> session_table" where
  "sweep_expired c now h = sweep_walk c now (rev (t_lru h)) h"

fun evict_walk :: "string list \<Rightarrow> session_table \<Rightarrow> bool \<times> session_table" where
  "evict_walk [] h = (False, h)"
| "evict_walk (i # is) h =
     (case map_of (t_sessions h) i of
        None \<Rightarrow> (False, h)
      | Some s \<Rightarrow> if t_calls h (ses_id s) > 0 then evict_walk is h else (True, remove_session s h))"

definition evict_idle :: "string list \<Rightarrow> session_table \<Rightarrow> bool \<times> session_table" where
  "evict_idle l h = evict_walk (rev l) h"

definition evict_at_cap :: "string list option \<Rightarrow> int \<Rightarrow> session_table \<Rightarrow> bool \<times> session_table" where
  "evict_at_cap l cap h =
     (case l of None \<Rightarrow> (True, h) | Some l \<Rightarrow> if int (length l) \<ge> cap then evict_idle l h else (True, h))"

definition insert_session :: "mcp_session \<Rightarrow> session_table \<Rightarrow> session_table" where
  "insert_session s h =
     h\<lparr>t_lru := ses_id s # t_lru h,
       t_by_principal := index_push (ses_principal s) (ses_id s) (t_by_principal h),
       t_by_workspace := index_push (ses_workspace s) (ses_id s) (t_by_workspace h),
       t_sessions := AList.update (ses_id s) s (t_sessions h)\<rparr>"

definition add_session ::
  "mcp_config \<Rightarrow> int \<Rightarrow> string \<Rightarrow> string \<Rightarrow> string \<Rightarrow> session_table \<Rightarrow> bool \<times> session_table" where
  "add_session c now i owner workspace h0 =
     (let h = sweep_expired c now h0 in
      case evict_at_cap (t_by_principal h owner) (mc_max_per_principal c) h of
        (False, h1) \<Rightarrow> (False, h1)
      | (True, h1) \<Rightarrow>
          (case evict_at_cap (t_by_workspace h1 workspace) (mc_max_per_workspace c) h1 of
             (False, h2) \<Rightarrow> (False, h2)
           | (True, h2) \<Rightarrow>
               (case (if int (length (t_sessions h2)) \<ge> mc_max_sessions c then evict_idle (t_lru h2) h2 else (True, h2)) of
                  (False, h3) \<Rightarrow> (False, h3)
                | (True, h3) \<Rightarrow>
                    (True, insert_session \<lparr>ses_id = i, ses_principal = owner, ses_workspace = workspace,
                                           ses_last = now\<rparr> h3))))"

subsection \<open>Handling a request\<close>

record mcp_principal =
  pr_issuer :: string
  pr_subject :: string
  pr_workspace :: string

definition principal_key :: "mcp_principal \<Rightarrow> string" where
  "principal_key p = pr_issuer p @ [CHR 0x00] @ pr_subject p @ [CHR 0x00] @ pr_workspace p"

text \<open>A request with what the libraries make of it: the principal the identity service authenticates,
  the bytes read from the body (\<open>None\<close> is a read error), the decoded envelope and the protocol version
  in its parameters (\<open>None\<close> where the JSON does not decode).\<close>

record rpc =
  rpc_method :: string
  rpc_version :: "string option"

record mcp_request =
  rq_method :: string
  rq_origin :: string
  rq_principal :: "mcp_principal option"
  rq_content_length :: int
  rq_body :: "int option"
  rq_rpc :: "rpc option"
  rq_session :: string

datatype mcp_reply =
  MethodNotAllowed | ForbiddenOrigin | RateLimited | Unauthorized | BodyTooLarge | InvalidRequest
| UnsupportedVersion | TooManySessions | SessionCreated string | NotificationAccepted | SessionRequired
| ToolList | MethodNotFound | CallAdmitted bool

definition negotiate :: "string \<Rightarrow> bool" where
  "negotiate offered \<longleftrightarrow> offered = ''2025-06-18''"

definition initialize ::
  "mcp_config \<Rightarrow> int \<Rightarrow> string \<Rightarrow> rpc \<Rightarrow> mcp_principal \<Rightarrow> session_table \<Rightarrow> mcp_reply \<times> session_table" where
  "initialize c now i r p h =
     (case rpc_version r of
        None \<Rightarrow> (UnsupportedVersion, h)
      | Some v \<Rightarrow>
          if \<not> negotiate v then (UnsupportedVersion, h)
          else (case add_session c now i (principal_key p) (pr_workspace p) h of
                  (False, h') \<Rightarrow> (TooManySessions, h')
                | (True, h') \<Rightarrow> (SessionCreated i, h')))"

text \<open>\<open>ServeHTTP\<close> up to the tool call, which runs afterwards and ends with \<open>release_call\<close>; \<open>used\<close> is the
  number of requests in flight, \<open>i\<close> the session id drawn by \<open>newSession\<close>.\<close>

definition serve_http ::
  "mcp_config \<Rightarrow> (string \<Rightarrow> bool) \<Rightarrow> int \<Rightarrow> int \<Rightarrow> string \<Rightarrow> mcp_request \<Rightarrow> session_table \<Rightarrow> mcp_reply \<times> session_table" where
  "serve_http c allowed used now i rq h =
     (if rq_method rq \<noteq> ''POST'' then (MethodNotAllowed, h)
      else if \<not> (rq_origin rq = [] \<or> allowed (rq_origin rq)) then (ForbiddenOrigin, h)
      else if used \<ge> mc_max_concurrent c then (RateLimited, h)
      else (case rq_principal rq of
        None \<Rightarrow> (Unauthorized, h)
      | Some p \<Rightarrow>
          if rq_content_length rq > mc_max_body_bytes c then (BodyTooLarge, h)
          else (case rq_body rq of
            None \<Rightarrow> (BodyTooLarge, h)
          | Some n \<Rightarrow>
              if n > mc_max_body_bytes c then (BodyTooLarge, h)
              else (case rq_rpc rq of
                None \<Rightarrow> (InvalidRequest, h)
              | Some r \<Rightarrow>
                  if rpc_method r = ''initialize'' then initialize c now i r p h
                  else if rpc_method r = ''notifications/initialized'' then (NotificationAccepted, h)
                  else if rpc_method r = ''tools/call'' then
                    (case admit_call c now (rq_session rq) (principal_key p) h of
                       ((admitted, limited), h') \<Rightarrow> (if admitted then CallAdmitted limited else SessionRequired, h'))
                  else (case session_ok c now (rq_session rq) (principal_key p) h of
                       (False, h') \<Rightarrow> (SessionRequired, h')
                     | (True, h') \<Rightarrow> (if rpc_method r = ''tools/list'' then ToolList else MethodNotFound, h'))))))"

subsection \<open>The reference table: one list in order of recency\<close>

text \<open>What the four indexes implement: a list of sessions, most recently used first.\<close>

definition idle_expired :: "mcp_config \<Rightarrow> int \<Rightarrow> (string \<Rightarrow> nat) \<Rightarrow> mcp_session \<Rightarrow> bool" where
  "idle_expired c now calls s \<longleftrightarrow> now - ses_last s > mc_session_ttl c \<and> calls (ses_id s) = 0"

definition drop_id :: "string \<Rightarrow> mcp_session list \<Rightarrow> mcp_session list" where
  "drop_id i xs = filter (\<lambda>s. ses_id s \<noteq> i) xs"

definition evict_coldest :: "(mcp_session \<Rightarrow> bool) \<Rightarrow> mcp_session list \<Rightarrow> mcp_session list option" where
  "evict_coldest P xs = map_option (\<lambda>s. drop_id (ses_id s) xs) (List.find P (rev xs))"

definition count_by :: "(mcp_session \<Rightarrow> string) \<Rightarrow> string \<Rightarrow> mcp_session list \<Rightarrow> nat" where
  "count_by f k xs = length (filter (\<lambda>s. f s = k) xs)"

definition room_for :: "(mcp_session \<Rightarrow> bool) \<Rightarrow> (string \<Rightarrow> nat) \<Rightarrow> int \<Rightarrow> mcp_session list \<Rightarrow> mcp_session list option" where
  "room_for P calls cap xs =
     (if int (length (filter P xs)) \<ge> cap then evict_coldest (\<lambda>s. P s \<and> calls (ses_id s) = 0) xs else Some xs)"

definition spec_add ::
  "mcp_config \<Rightarrow> int \<Rightarrow> mcp_session \<Rightarrow> (string \<Rightarrow> nat) \<Rightarrow> mcp_session list \<Rightarrow> mcp_session list option" where
  "spec_add c now s calls xs =
     do { xs1 \<leftarrow> room_for (\<lambda>x. ses_principal x = ses_principal s) calls (mc_max_per_principal c) xs;
          xs2 \<leftarrow> room_for (\<lambda>x. ses_workspace x = ses_workspace s) calls (mc_max_per_workspace c) xs1;
          xs3 \<leftarrow> room_for (\<lambda>_. True) calls (mc_max_sessions c) xs2;
          Some (s # xs3) }"

subsection \<open>The table represents such a list\<close>

definition grouped :: "(mcp_session \<Rightarrow> string) \<Rightarrow> mcp_session list \<Rightarrow> (string \<rightharpoonup> string list)" where
  "grouped f xs k = (case filter (\<lambda>s. f s = k) xs of [] \<Rightarrow> None | ys \<Rightarrow> Some (map ses_id ys))"

definition represents :: "session_table \<Rightarrow> mcp_session list \<Rightarrow> bool" where
  "represents h xs \<longleftrightarrow>
     distinct (map ses_id xs) \<and> t_lru h = map ses_id xs
     \<and> distinct (map fst (t_sessions h)) \<and> map_of (t_sessions h) = map_of (map (\<lambda>s. (ses_id s, s)) xs)
     \<and> t_by_principal h = grouped ses_principal xs \<and> t_by_workspace h = grouped ses_workspace xs"

lemma grouped_eq: "grouped f xs k = (let ys = filter (\<lambda>s. f s = k) xs in if ys = [] then None else Some (map ses_id ys))"
  by (simp add: grouped_def Let_def split: list.split)

lemma grouped_Nil [simp]: "grouped f [] = Map.empty"
  by (rule ext) (simp add: grouped_def)

lemma remove1_ids: "distinct (map ses_id xs) \<Longrightarrow> remove1 i (map ses_id xs) = map ses_id (drop_id i xs)"
proof (induction xs)
  case (Cons a xs)
  show ?case
  proof (cases "ses_id a = i")
    case True
    then have "\<forall>s \<in> set xs. ses_id s \<noteq> i"
      using Cons.prems by (metis distinct.simps(2) image_eqI list.set_map list.simps(9))
    then have "drop_id i xs = xs" by (simp add: drop_id_def)
    with True show ?thesis by (simp add: drop_id_def)
  next
    case False
    with Cons show ?thesis by (simp add: drop_id_def)
  qed
qed (simp add: drop_id_def)

lemma drop_id_filter: "filter P (drop_id i xs) = drop_id i (filter P xs)"
  by (simp add: drop_id_def conj_commute)

lemma distinct_filter_ids: "distinct (map ses_id xs) \<Longrightarrow> distinct (map ses_id (filter P xs))"
  by (simp add: distinct_map_filter)

lemma index_remove_grouped:
  assumes d: "distinct (map ses_id xs)" and s: "s \<in> set xs"
  shows "index_remove (f s) (ses_id s) (grouped f xs) = grouped f (drop_id (ses_id s) xs)"
proof (rule ext)
  fix k
  let ?ys = "filter (\<lambda>x. f x = f s) xs"
  have ne: "?ys \<noteq> []" using s by (auto simp: filter_empty_conv)
  have rem: "remove1 (ses_id s) (map ses_id ?ys) = map ses_id (drop_id (ses_id s) ?ys)"
    by (rule remove1_ids) (rule distinct_filter_ids [OF d])
  show "index_remove (f s) (ses_id s) (grouped f xs) k = grouped f (drop_id (ses_id s) xs) k"
  proof (cases "k = f s")
    case True
    with ne rem show ?thesis by (simp add: index_remove_def grouped_eq Let_def drop_id_filter)
  next
    case False
    have "x = s" if "x \<in> set xs" "ses_id x = ses_id s" for x
      using that d s by (auto simp: distinct_map dest: inj_onD)
    then have "filter (\<lambda>x. f x = k) (drop_id (ses_id s) xs) = filter (\<lambda>x. f x = k) xs"
      using False by (auto simp: drop_id_def intro: filter_cong)
    with False ne show ?thesis by (simp add: index_remove_def grouped_eq Let_def)
  qed
qed

lemma map_of_ids: "distinct (map ses_id xs) \<Longrightarrow> map_of (map (\<lambda>s. (ses_id s, s)) xs) i = Some s \<longleftrightarrow> s \<in> set xs \<and> ses_id s = i"
  by (subst map_of_eq_Some_iff) (auto simp: comp_def)

lemma map_of_drop_id: "map_of (map (\<lambda>s. (ses_id s, s)) (drop_id i xs)) = (map_of (map (\<lambda>s. (ses_id s, s)) xs))(i := None)"
  by (induction xs) (auto simp: drop_id_def)

lemma represents_find: "represents h xs \<Longrightarrow> map_of (t_sessions h) i = Some s \<longleftrightarrow> s \<in> set xs \<and> ses_id s = i"
  by (simp add: represents_def map_of_ids)

lemma represents_ids: "represents h xs \<Longrightarrow> fst ` set (t_sessions h) = ses_id ` set xs"
proof -
  assume "represents h xs"
  then have "map_of (t_sessions h) = map_of (map (\<lambda>s. (ses_id s, s)) xs)" by (simp add: represents_def)
  from arg_cong [OF this, of dom] show ?thesis by (simp add: dom_map_of_conv_image_fst image_image)
qed

lemma represents_size:
  assumes "represents h xs"
  shows "length (t_sessions h) = length xs"
proof -
  have "distinct (map fst (t_sessions h))" "distinct (map ses_id xs)"
    using assms by (auto simp: represents_def)
  moreover have "set (map fst (t_sessions h)) = set (map ses_id xs)" using represents_ids [OF assms] by simp
  ultimately show ?thesis by (metis distinct_card length_map)
qed

lemma represents_new: "represents new_table []"
  by (simp add: represents_def new_table_def)

lemma represents_calls [simp]: "represents (h\<lparr>t_calls := f\<rparr>) xs = represents h xs"
  by (simp add: represents_def)

lemma remove_session_calls [simp]: "t_calls (remove_session s h) = t_calls h"
  by (simp add: remove_session_def)

lemma represents_remove:
  assumes "represents h xs" and "s \<in> set xs"
  shows "represents (remove_session s h) (drop_id (ses_id s) xs)"
proof -
  have d: "distinct (map ses_id xs)" using assms(1) by (simp add: represents_def)
  then have "distinct (map ses_id (drop_id (ses_id s) xs))" by (simp add: drop_id_def distinct_filter_ids)
  with assms d index_remove_grouped [OF d assms(2), of ses_principal] index_remove_grouped [OF d assms(2), of ses_workspace]
  show ?thesis
    by (simp add: represents_def remove_session_def remove1_ids map_of_drop_id delete_conv' distinct_delete)
qed

lemma index_push_grouped: "index_push (f s) (ses_id s) (grouped f xs) = grouped f (s # xs)"
  by (rule ext) (simp add: index_push_def grouped_eq Let_def)

lemma represents_insert:
  assumes "represents h xs" and "ses_id s \<notin> ses_id ` set xs"
  shows "represents (insert_session s h) (s # xs)"
  using assms
  by (simp add: represents_def insert_session_def index_push_grouped update_conv' distinct_update)

text \<open>Touching a session puts it at the front with a new time.\<close>

definition refresh :: "int \<Rightarrow> mcp_session \<Rightarrow> mcp_session list \<Rightarrow> mcp_session list" where
  "refresh now s xs = s\<lparr>ses_last := now\<rparr> # drop_id (ses_id s) xs"

lemma move_to_front_ids:
  "distinct (map ses_id xs) \<Longrightarrow> s \<in> set xs \<Longrightarrow> move_to_front (ses_id s) (map ses_id xs) = ses_id s # map ses_id (drop_id (ses_id s) xs)"
  by (auto simp: move_to_front_def remove1_ids)

lemma index_front_grouped:
  assumes d: "distinct (map ses_id xs)" and s: "s \<in> set xs" and f: "f (s\<lparr>ses_last := now\<rparr>) = f s"
  shows "index_front (f s) (ses_id s) (grouped f xs) = grouped f (refresh now s xs)"
proof (rule ext)
  fix k
  let ?ys = "filter (\<lambda>x. f x = f s) xs"
  have ys: "?ys \<noteq> []" "distinct (map ses_id ?ys)" "s \<in> set ?ys"
    using s by (auto simp: filter_empty_conv distinct_filter_ids [OF d])
  show "index_front (f s) (ses_id s) (grouped f xs) k = grouped f (refresh now s xs) k"
  proof (cases "k = f s")
    case True
    with ys move_to_front_ids [OF ys(2,3)] f show ?thesis
      by (simp add: index_front_def grouped_eq Let_def refresh_def drop_id_filter)
  next
    case False
    have "x = s" if "x \<in> set xs" "ses_id x = ses_id s" for x
      using that d s by (auto simp: distinct_map dest: inj_onD)
    then have "filter (\<lambda>x. f x = k) (drop_id (ses_id s) xs) = filter (\<lambda>x. f x = k) xs"
      using False by (auto simp: drop_id_def intro: filter_cong)
    with False ys f show ?thesis by (simp add: index_front_def grouped_eq Let_def refresh_def)
  qed
qed

lemma represents_refresh:
  assumes "represents h xs" and "s \<in> set xs"
  shows "represents (h\<lparr>t_sessions := AList.update (ses_id s) (s\<lparr>ses_last := now\<rparr>) (t_sessions h),
      t_lru := move_to_front (ses_id s) (t_lru h),
      t_by_principal := index_front (ses_principal s) (ses_id s) (t_by_principal h),
      t_by_workspace := index_front (ses_workspace s) (ses_id s) (t_by_workspace h)\<rparr>) (refresh now s xs)"
proof -
  have d: "distinct (map ses_id xs)" using assms(1) by (simp add: represents_def)
  have "distinct (map ses_id (refresh now s xs))"
    using d by (auto simp: refresh_def drop_id_def distinct_filter_ids)
  with assms index_front_grouped [OF d assms(2), of ses_principal now]
    index_front_grouped [OF d assms(2), of ses_workspace now] move_to_front_ids [OF d assms(2)]
  show ?thesis
    by (simp add: represents_def refresh_def update_conv' distinct_update map_of_drop_id)
qed

subsection \<open>The operations refine the reference table\<close>

lemma find_rev_ids:
  assumes "represents h xs" and "set ys \<subseteq> set xs"
  shows "evict_walk (map ses_id ys) h =
     (case List.find (\<lambda>s. t_calls h (ses_id s) = 0) ys of None \<Rightarrow> (False, h) | Some s \<Rightarrow> (True, remove_session s h))"
  using assms
proof (induction ys)
  case (Cons s ys)
  then have "map_of (t_sessions h) (ses_id s) = Some s" using represents_find by fastforce
  with Cons show ?case by simp
qed simp

lemma find_SomeD: "List.find P xs = Some x \<Longrightarrow> x \<in> set xs \<and> P x"
  by (induction xs) (auto split: if_splits)

lemma find_filter: "List.find Q (filter P xs) = List.find (\<lambda>x. P x \<and> Q x) xs"
  by (induction xs) auto

lemma evict_idle_filter:
  assumes "represents h xs"
  shows "(case evict_coldest (\<lambda>s. P s \<and> t_calls h (ses_id s) = 0) xs of
      None \<Rightarrow> evict_idle (map ses_id (filter P xs)) h = (False, h)
    | Some ys \<Rightarrow> \<exists>h'. evict_idle (map ses_id (filter P xs)) h = (True, h') \<and> represents h' ys \<and> t_calls h' = t_calls h)"
proof -
  have walk: "evict_idle (map ses_id (filter P xs)) h =
      (case List.find (\<lambda>s. P s \<and> t_calls h (ses_id s) = 0) (rev xs) of None \<Rightarrow> (False, h) | Some s \<Rightarrow> (True, remove_session s h))"
  proof -
    have "rev (map ses_id (filter P xs)) = map ses_id (filter P (rev xs))" by (simp add: rev_map rev_filter)
    moreover have "set (filter P (rev xs)) \<subseteq> set xs" by auto
    ultimately show ?thesis using find_rev_ids [OF assms] by (simp add: evict_idle_def find_filter)
  qed
  show ?thesis
  proof (cases "List.find (\<lambda>s. P s \<and> t_calls h (ses_id s) = 0) (rev xs)")
    case None
    then show ?thesis by (simp add: evict_coldest_def walk)
  next
    case (Some s)
    then have "s \<in> set xs" by (auto dest: find_SomeD)
    with Some assms show ?thesis by (simp add: evict_coldest_def walk represents_remove)
  qed
qed

lemma evict_at_cap_refines:
  assumes r: "represents h xs" and g: "m = grouped f xs" and cap: "0 < cap"
  shows "(case room_for (\<lambda>x. f x = k) (t_calls h) cap xs of
      None \<Rightarrow> evict_at_cap (m k) cap h = (False, h)
    | Some ys \<Rightarrow> \<exists>h'. evict_at_cap (m k) cap h = (True, h') \<and> represents h' ys \<and> t_calls h' = t_calls h)"
  using evict_idle_filter [OF r, of "\<lambda>x. f x = k"] r cap
  by (auto simp: room_for_def evict_at_cap_def g grouped_eq Let_def split: option.splits)

lemma evict_all_refines:
  assumes r: "represents h xs"
  shows "(case room_for (\<lambda>_. True) (t_calls h) cap xs of
      None \<Rightarrow> (if int (length (t_sessions h)) \<ge> cap then evict_idle (t_lru h) h else (True, h)) = (False, h)
    | Some ys \<Rightarrow> \<exists>h'. (if int (length (t_sessions h)) \<ge> cap then evict_idle (t_lru h) h else (True, h)) = (True, h')
        \<and> represents h' ys \<and> t_calls h' = t_calls h)"
  using evict_idle_filter [OF r, of "\<lambda>_. True"] r
  by (auto simp: room_for_def represents_size [OF r] represents_def split: option.splits)

text \<open>In a table ordered by time the sweep removes every idle expired session.\<close>

definition by_recency :: "mcp_session list \<Rightarrow> bool" where
  "by_recency xs \<longleftrightarrow> sorted_wrt (\<lambda>a b. ses_last b \<le> ses_last a) xs"

lemma sweep_walk_refines:
  assumes "represents h xs" and "set ys \<subseteq> set xs" and "distinct ys"
    and "sorted_wrt (\<lambda>a b. ses_last a \<le> ses_last b) ys"
  shows "represents (sweep_walk c now (map ses_id ys) h)
      (filter (\<lambda>x. \<not> (x \<in> set ys \<and> idle_expired c now (t_calls h) x)) xs)
    \<and> t_calls (sweep_walk c now (map ses_id ys) h) = t_calls h"
  using assms
proof (induction ys arbitrary: h xs)
  case (Cons s ys)
  have s: "s \<in> set xs" "map_of (t_sessions h) (ses_id s) = Some s"
    using Cons.prems represents_find by fastforce+
  have same: "x = s" if "x \<in> set xs" "ses_id x = ses_id s" for x
    using that Cons.prems(1) s(1) by (auto simp: represents_def distinct_map dest: inj_onD)
  consider "now - ses_last s \<le> mc_session_ttl c"
    | "\<not> now - ses_last s \<le> mc_session_ttl c" "t_calls h (ses_id s) = 0"
    | "\<not> now - ses_last s \<le> mc_session_ttl c" "t_calls h (ses_id s) \<noteq> 0" by blast
  then show ?case
  proof cases
    case 1
    then have "\<forall>x \<in> set (s # ys). \<not> idle_expired c now (t_calls h) x"
      using Cons.prems(4) by (force simp: idle_expired_def)
    then have "filter (\<lambda>x. \<not> (x \<in> set (s # ys) \<and> idle_expired c now (t_calls h) x)) xs = xs"
      by (intro filter_True) auto
    with 1 s Cons.prems(1) show ?thesis by simp
  next
    case 2
    have "set ys \<subseteq> set (drop_id (ses_id s) xs)"
      using Cons.prems(2,3) same by (auto simp: drop_id_def)
    then have ih: "represents (sweep_walk c now (map ses_id ys) (remove_session s h))
        (filter (\<lambda>x. \<not> (x \<in> set ys \<and> idle_expired c now (t_calls h) x)) (drop_id (ses_id s) xs))
      \<and> t_calls (sweep_walk c now (map ses_id ys) (remove_session s h)) = t_calls h"
      using Cons.IH [OF represents_remove [OF Cons.prems(1) s(1)]] Cons.prems(3,4) by simp
    have "idle_expired c now (t_calls h) s" using 2 by (simp add: idle_expired_def)
    then have "filter (\<lambda>x. \<not> (x \<in> set ys \<and> idle_expired c now (t_calls h) x)) (drop_id (ses_id s) xs)
        = filter (\<lambda>x. \<not> (x \<in> set (s # ys) \<and> idle_expired c now (t_calls h) x)) xs"
      unfolding drop_id_def filter_filter using same by (intro filter_cong) auto
    with ih 2 s show ?thesis by simp
  next
    case 3
    then have "\<not> idle_expired c now (t_calls h) s" by (simp add: idle_expired_def)
    then have "filter (\<lambda>x. \<not> (x \<in> set ys \<and> idle_expired c now (t_calls h) x)) xs
        = filter (\<lambda>x. \<not> (x \<in> set (s # ys) \<and> idle_expired c now (t_calls h) x)) xs"
      by (intro filter_cong) auto
    with 3 s Cons.IH [OF Cons.prems(1)] Cons.prems show ?thesis by simp
  qed
qed simp

lemma sweep_refines:
  assumes r: "represents h xs" and "by_recency xs"
  shows "represents (sweep_expired c now h) (filter (\<lambda>x. \<not> idle_expired c now (t_calls h) x) xs)
    \<and> t_calls (sweep_expired c now h) = t_calls h"
proof -
  have "distinct (rev xs)" using r by (auto simp: represents_def simp: distinct_map)
  moreover have "sorted_wrt (\<lambda>a b. ses_last a \<le> ses_last b) (rev xs)"
    using assms(2) by (simp add: by_recency_def sorted_wrt_rev)
  ultimately have "represents (sweep_walk c now (map ses_id (rev xs)) h)
      (filter (\<lambda>x. \<not> (x \<in> set (rev xs) \<and> idle_expired c now (t_calls h) x)) xs)
    \<and> t_calls (sweep_walk c now (map ses_id (rev xs)) h) = t_calls h"
    by (intro sweep_walk_refines [OF r]) auto
  moreover have "filter (\<lambda>x. \<not> (x \<in> set (rev xs) \<and> idle_expired c now (t_calls h) x)) xs
      = filter (\<lambda>x. \<not> idle_expired c now (t_calls h) x) xs"
    by (intro filter_cong) auto
  moreover have "rev (t_lru h) = map ses_id (rev xs)" using r by (simp add: represents_def rev_map)
  ultimately show ?thesis by (simp add: sweep_expired_def)
qed

text \<open>Bounds and the workspaces of principals, on the reference list.\<close>

definition within_caps :: "mcp_config \<Rightarrow> mcp_session list \<Rightarrow> bool" where
  "within_caps c xs \<longleftrightarrow> int (length xs) \<le> mc_max_sessions c
     \<and> (\<forall>p. int (count_by ses_principal p xs) \<le> mc_max_per_principal c)
     \<and> (\<forall>w. int (count_by ses_workspace w xs) \<le> mc_max_per_workspace c)"

definition one_workspace :: "mcp_session list \<Rightarrow> bool" where
  "one_workspace xs \<longleftrightarrow> (\<forall>a \<in> set xs. \<forall>b \<in> set xs. ses_principal a = ses_principal b \<longrightarrow> ses_workspace a = ses_workspace b)"

definition config_ok :: "mcp_config \<Rightarrow> bool" where
  "config_ok c \<longleftrightarrow> 0 < mc_max_per_principal c \<and> mc_max_per_principal c \<le> mc_max_per_workspace c
     \<and> mc_max_per_workspace c \<le> mc_max_sessions c \<and> 0 < mc_session_ttl c"

lemma normalise_config_ok: "config_ok (normalise_config rl c)"
  by (auto simp: config_ok_def normalise_config_def or_default_def Let_def min_def)

lemma evict_coldest_SomeD:
  "evict_coldest P xs = Some ys \<Longrightarrow> \<exists>s \<in> set xs. P s \<and> ys = drop_id (ses_id s) xs"
  by (auto simp: evict_coldest_def dest!: find_SomeD)

lemma evict_coldest_None: "evict_coldest P xs = None \<longleftrightarrow> (\<forall>s \<in> set xs. \<not> P s)"
  by (auto simp: evict_coldest_def find_None_iff)

lemma drop_id_length:
  "distinct (map ses_id xs) \<Longrightarrow> s \<in> set xs \<Longrightarrow> length (drop_id (ses_id s) xs) = length xs - 1"
  by (metis (no_types, lifting) image_eqI length_map length_remove1 list.set_map remove1_ids)

lemma drop_id_count:
  assumes "distinct (map ses_id xs)" and "s \<in> set xs" and "P s"
  shows "length (filter P (drop_id (ses_id s) xs)) = length (filter P xs) - 1"
  using drop_id_length [of "filter P xs" s] assms distinct_filter_ids [OF assms(1)]
  by (simp add: drop_id_filter)

lemma filter_drop_id_le: "length (filter P (drop_id i xs)) \<le> length (filter P xs)"
  unfolding drop_id_filter unfolding drop_id_def by (rule length_filter_le)

definition busy :: "(string \<Rightarrow> nat) \<Rightarrow> mcp_session \<Rightarrow> bool" where
  "busy calls s \<longleftrightarrow> 0 < calls (ses_id s)"

text \<open>Why the new session \<open>s\<close> may push out the session \<open>v\<close>: a cap that \<open>v\<close> counts against is reached.\<close>

definition evictable :: "mcp_config \<Rightarrow> mcp_session \<Rightarrow> mcp_session list \<Rightarrow> mcp_session \<Rightarrow> bool" where
  "evictable c s xs v \<longleftrightarrow>
     (ses_principal v = ses_principal s \<and> int (count_by ses_principal (ses_principal s) xs) = mc_max_per_principal c)
   \<or> (ses_workspace v = ses_workspace s \<and> int (count_by ses_workspace (ses_workspace s) xs) = mc_max_per_workspace c)
   \<or> int (length xs) = mc_max_sessions c"

definition all_busy_at_cap :: "mcp_config \<Rightarrow> mcp_session \<Rightarrow> (string \<Rightarrow> nat) \<Rightarrow> mcp_session list \<Rightarrow> bool" where
  "all_busy_at_cap c s calls xs \<longleftrightarrow>
     (int (count_by ses_principal (ses_principal s) xs) = mc_max_per_principal c
        \<and> (\<forall>v \<in> set xs. ses_principal v = ses_principal s \<longrightarrow> busy calls v))
   \<or> (int (count_by ses_workspace (ses_workspace s) xs) = mc_max_per_workspace c
        \<and> (\<forall>v \<in> set xs. ses_workspace v = ses_workspace s \<longrightarrow> busy calls v))
   \<or> (int (length xs) = mc_max_sessions c \<and> (\<forall>v \<in> set xs. busy calls v))"

definition small_enough :: "mcp_config \<Rightarrow> mcp_session \<Rightarrow> mcp_session list \<Rightarrow> bool" where
  "small_enough c s xs \<longleftrightarrow> int (count_by ses_principal (ses_principal s) xs) < mc_max_per_principal c
     \<and> int (count_by ses_workspace (ses_workspace s) xs) < mc_max_per_workspace c
     \<and> int (length xs) < mc_max_sessions c"

lemma room_for_less: "int (length (filter P xs)) < cap \<Longrightarrow> room_for P calls cap xs = Some xs"
  by (simp add: room_for_def)

lemma room_for_full:
  assumes "int (length (filter P xs)) \<ge> cap"
  shows "(room_for P calls cap xs = None \<and> (\<forall>v \<in> set xs. P v \<longrightarrow> busy calls v))
    \<or> (\<exists>v \<in> set xs. P v \<and> \<not> busy calls v \<and> room_for P calls cap xs = Some (drop_id (ses_id v) xs))"
proof (cases "evict_coldest (\<lambda>s. P s \<and> calls (ses_id s) = 0) xs")
  case None
  with assms show ?thesis by (auto simp: room_for_def evict_coldest_None busy_def)
next
  case (Some ys)
  with assms evict_coldest_SomeD [OF Some] show ?thesis by (auto simp: room_for_def busy_def)
qed

lemma small_enough_drop:
  assumes "distinct (map ses_id xs)" and "within_caps c xs" and "v \<in> set xs"
    and "0 < mc_max_per_principal c" "mc_max_per_principal c \<le> mc_max_per_workspace c"
      "mc_max_per_workspace c \<le> mc_max_sessions c"
    and "ses_principal v = ses_principal s \<or> int (count_by ses_principal (ses_principal s) xs) < mc_max_per_principal c"
    and "ses_workspace v = ses_workspace s \<or> int (count_by ses_workspace (ses_workspace s) xs) < mc_max_per_workspace c"
  shows "small_enough c s (drop_id (ses_id v) xs)"
proof -
  have p: "int (count_by ses_principal (ses_principal s) (drop_id (ses_id v) xs)) < mc_max_per_principal c"
  proof (cases "ses_principal v = ses_principal s")
    case True
    then have "0 < count_by ses_principal (ses_principal s) xs"
      using assms(3) by (auto simp: count_by_def filter_empty_conv)
    moreover have "int (count_by ses_principal (ses_principal s) xs) \<le> mc_max_per_principal c"
      using assms(2) by (simp add: within_caps_def)
    ultimately show ?thesis
      using drop_id_count [of xs v "\<lambda>x. ses_principal x = ses_principal s", OF assms(1,3) True]
      unfolding count_by_def by linarith
  next
    case False
    with assms(7) filter_drop_id_le [of "\<lambda>x. ses_principal x = ses_principal s" "ses_id v" xs] show ?thesis
      unfolding count_by_def by linarith
  qed
  have w: "int (count_by ses_workspace (ses_workspace s) (drop_id (ses_id v) xs)) < mc_max_per_workspace c"
  proof (cases "ses_workspace v = ses_workspace s")
    case True
    then have "0 < count_by ses_workspace (ses_workspace s) xs"
      using assms(3) by (auto simp: count_by_def filter_empty_conv)
    moreover have "int (count_by ses_workspace (ses_workspace s) xs) \<le> mc_max_per_workspace c"
      using assms(2) by (simp add: within_caps_def)
    ultimately show ?thesis
      using drop_id_count [of xs v "\<lambda>x. ses_workspace x = ses_workspace s", OF assms(1,3) True]
      unfolding count_by_def by linarith
  next
    case False
    with assms(8) filter_drop_id_le [of "\<lambda>x. ses_workspace x = ses_workspace s" "ses_id v" xs] show ?thesis
      unfolding count_by_def by linarith
  qed
  have "0 < length xs" using assms(3) by auto
  then have "int (length (drop_id (ses_id v) xs)) < mc_max_sessions c"
    using drop_id_length [OF assms(1,3)] assms(2) unfolding within_caps_def by linarith
  with p w show ?thesis by (simp add: small_enough_def)
qed

lemma spec_add_small: "small_enough c s xs \<Longrightarrow> spec_add c now s calls xs = Some (s # xs)"
  by (simp add: spec_add_def small_enough_def room_for_less count_by_def)

text \<open>The three steps of making room evict at most one session in all.\<close>

lemma spec_add_cases:
  assumes d: "distinct (map ses_id xs)" and caps: "within_caps c xs" and cfg: "config_ok c"
    and ws: "\<forall>v \<in> set xs. ses_principal v = ses_principal s \<longrightarrow> ses_workspace v = ses_workspace s"
  shows "(spec_add c now s calls xs = None \<and> all_busy_at_cap c s calls xs
      \<and> (\<forall>xs1 xs2. room_for (\<lambda>x. ses_principal x = ses_principal s) calls (mc_max_per_principal c) xs = Some xs1 \<longrightarrow>
           xs1 = xs \<and> (room_for (\<lambda>x. ses_workspace x = ses_workspace s) calls (mc_max_per_workspace c) xs1 = Some xs2 \<longrightarrow> xs2 = xs)))
    \<or> (spec_add c now s calls xs = Some (s # xs) \<and> small_enough c s xs)
    \<or> (\<exists>v \<in> set xs. \<not> busy calls v \<and> evictable c s xs v \<and> small_enough c s (drop_id (ses_id v) xs)
        \<and> spec_add c now s calls xs = Some (s # drop_id (ses_id v) xs))"
proof -
  let ?P = "\<lambda>x. ses_principal x = ses_principal s" and ?W = "\<lambda>x. ses_workspace x = ses_workspace s"
  have le: "int (length (filter ?P xs)) \<le> mc_max_per_principal c" "int (length (filter ?W xs)) \<le> mc_max_per_workspace c"
    "int (length xs) \<le> mc_max_sessions c"
    using caps by (simp_all add: within_caps_def count_by_def)
  have cfg': "0 < mc_max_per_principal c" "mc_max_per_principal c \<le> mc_max_per_workspace c"
      "mc_max_per_workspace c \<le> mc_max_sessions c" using cfg by (simp_all add: config_ok_def)
  have evict: "?thesis" if v: "v \<in> set xs" "\<not> busy calls v" "evictable c s xs v"
      "small_enough c s (drop_id (ses_id v) xs)" "spec_add c now s calls xs = Some (s # drop_id (ses_id v) xs)" for v
    using v by blast
  show ?thesis
  proof (cases "int (length (filter ?P xs)) \<ge> mc_max_per_principal c")
    case full: True
    then have at_cap: "int (length (filter ?P xs)) = mc_max_per_principal c" using le by simp
    from room_for_full [OF full, of calls] show ?thesis
    proof (elim disjE conjE bexE)
      assume "room_for ?P calls (mc_max_per_principal c) xs = None" "\<forall>v \<in> set xs. ?P v \<longrightarrow> busy calls v"
      with at_cap show ?thesis by (auto simp: spec_add_def all_busy_at_cap_def count_by_def)
    next
      fix v
      assume v: "v \<in> set xs" "?P v" "\<not> busy calls v"
        "room_for ?P calls (mc_max_per_principal c) xs = Some (drop_id (ses_id v) xs)"
      have small: "small_enough c s (drop_id (ses_id v) xs)"
        using v ws by (intro small_enough_drop [OF d caps v(1) cfg']) auto
      with v(4) have "spec_add c now s calls xs = Some (s # drop_id (ses_id v) xs)"
        by (simp add: spec_add_def small_enough_def room_for_less count_by_def)
      with v small at_cap show ?thesis by (intro evict [of v]) (auto simp: evictable_def count_by_def)
    qed
  next
    case noP: False
    then have r1: "room_for ?P calls (mc_max_per_principal c) xs = Some xs" by (simp add: room_for_less)
    show ?thesis
    proof (cases "int (length (filter ?W xs)) \<ge> mc_max_per_workspace c")
      case full: True
      then have at_cap: "int (length (filter ?W xs)) = mc_max_per_workspace c" using le by simp
      from room_for_full [OF full, of calls] show ?thesis
      proof (elim disjE conjE bexE)
        assume "room_for ?W calls (mc_max_per_workspace c) xs = None" "\<forall>v \<in> set xs. ?W v \<longrightarrow> busy calls v"
        with at_cap r1 show ?thesis by (auto simp: spec_add_def all_busy_at_cap_def count_by_def)
      next
        fix v
        assume v: "v \<in> set xs" "?W v" "\<not> busy calls v"
          "room_for ?W calls (mc_max_per_workspace c) xs = Some (drop_id (ses_id v) xs)"
        have small: "small_enough c s (drop_id (ses_id v) xs)"
          using v noP by (intro small_enough_drop [OF d caps v(1) cfg']) (auto simp: count_by_def)
        with v(4) r1 have "spec_add c now s calls xs = Some (s # drop_id (ses_id v) xs)"
          by (simp add: spec_add_def small_enough_def room_for_less count_by_def)
        with v small at_cap show ?thesis by (intro evict [of v]) (auto simp: evictable_def count_by_def)
      qed
    next
      case noW: False
      then have r2: "room_for ?W calls (mc_max_per_workspace c) xs = Some xs" by (simp add: room_for_less)
      show ?thesis
      proof (cases "int (length (filter (\<lambda>_. True) xs)) \<ge> mc_max_sessions c")
        case full: True
        then have at_cap: "int (length xs) = mc_max_sessions c" using le by simp
        from room_for_full [OF full, of calls] show ?thesis
        proof (elim disjE conjE bexE)
          assume "room_for (\<lambda>_. True) calls (mc_max_sessions c) xs = None" "\<forall>v \<in> set xs. True \<longrightarrow> busy calls v"
          with at_cap r1 r2 show ?thesis by (auto simp: spec_add_def all_busy_at_cap_def)
        next
          fix v
          assume v: "v \<in> set xs" "\<not> busy calls v"
            "room_for (\<lambda>_. True) calls (mc_max_sessions c) xs = Some (drop_id (ses_id v) xs)"
          have small: "small_enough c s (drop_id (ses_id v) xs)"
            using v noP noW by (intro small_enough_drop [OF d caps v(1) cfg']) (auto simp: count_by_def)
          with v r1 r2 at_cap show ?thesis
            by (intro evict [of v]) (auto simp: evictable_def spec_add_def)
        qed
      next
        case False
        with noP noW have "small_enough c s xs" by (simp add: small_enough_def count_by_def)
        then show ?thesis by (simp add: spec_add_small)
      qed
    qed
  qed
qed

lemma by_recency_filter: "by_recency xs \<Longrightarrow> by_recency (filter P xs)"
  by (simp add: by_recency_def sorted_wrt_filter)

lemma filter_filter_le: "length (filter Q (filter P xs)) \<le> length (filter Q xs)"
  by (induction xs) auto

lemma within_caps_mono:
  assumes "within_caps c ys" and "length xs \<le> length ys"
    and "\<And>k. count_by ses_principal k xs \<le> count_by ses_principal k ys"
    and "\<And>k. count_by ses_workspace k xs \<le> count_by ses_workspace k ys"
  shows "within_caps c xs"
  unfolding within_caps_def
proof (intro conjI allI)
  show "int (length xs) \<le> mc_max_sessions c"
    using assms(1,2) by (simp add: within_caps_def)
  show "int (count_by ses_principal k xs) \<le> mc_max_per_principal c" for k
    using assms(1) assms(3) [of k] unfolding within_caps_def by (meson of_nat_le_iff order_trans)
  show "int (count_by ses_workspace k xs) \<le> mc_max_per_workspace c" for k
    using assms(1) assms(4) [of k] unfolding within_caps_def by (meson of_nat_le_iff order_trans)
qed

lemma within_caps_filter: "within_caps c xs \<Longrightarrow> within_caps c (filter P xs)"
  by (erule within_caps_mono) (simp_all add: count_by_def filter_filter_le del: filter_filter)

lemma add_session_refines:
  fixes h i p w now c
  defines "s \<equiv> \<lparr>ses_id = i, ses_principal = p, ses_workspace = w, ses_last = now\<rparr>"
  assumes r: "represents h xs" and rec: "by_recency xs" and cfg: "config_ok c" and caps: "within_caps c xs"
    and ws: "\<forall>v \<in> set xs. ses_principal v = p \<longrightarrow> ses_workspace v = w" and fresh: "i \<notin> ses_id ` set xs"
  shows "\<exists>h'. add_session c now i p w h =
      (spec_add c now s (t_calls h) (filter (\<lambda>x. \<not> idle_expired c now (t_calls h) x) xs) \<noteq> None, h')
    \<and> t_calls h' = t_calls h
    \<and> represents h' (case spec_add c now s (t_calls h) (filter (\<lambda>x. \<not> idle_expired c now (t_calls h) x) xs) of
         None \<Rightarrow> filter (\<lambda>x. \<not> idle_expired c now (t_calls h) x) xs | Some zs \<Rightarrow> zs)"
proof -
  define ys where "ys = filter (\<lambda>x. \<not> idle_expired c now (t_calls h) x) xs"
  define h1 where "h1 = sweep_expired c now h"
  have h1: "represents h1 ys" "t_calls h1 = t_calls h"
    using sweep_refines [OF r rec] by (simp_all add: h1_def ys_def)
  have dy: "distinct (map ses_id ys)" using h1(1) by (simp add: represents_def)
  have pos: "0 < mc_max_per_principal c" "0 < mc_max_per_workspace c" using cfg by (auto simp: config_ok_def)
  have "\<forall>v \<in> set ys. ses_principal v = ses_principal s \<longrightarrow> ses_workspace v = ses_workspace s"
    using ws by (auto simp: ys_def s_def)
  note cases = spec_add_cases [OF dy within_caps_filter [OF caps, of "\<lambda>x. \<not> idle_expired c now (t_calls h) x",
        folded ys_def] cfg this, of now "t_calls h"]
  have add: "add_session c now i p w h =
     (case evict_at_cap (t_by_principal h1 p) (mc_max_per_principal c) h1 of
        (False, h1) \<Rightarrow> (False, h1)
      | (True, h1) \<Rightarrow>
          (case evict_at_cap (t_by_workspace h1 w) (mc_max_per_workspace c) h1 of
             (False, h2) \<Rightarrow> (False, h2)
           | (True, h2) \<Rightarrow>
               (case (if int (length (t_sessions h2)) \<ge> mc_max_sessions c then evict_idle (t_lru h2) h2 else (True, h2)) of
                  (False, h3) \<Rightarrow> (False, h3)
                | (True, h3) \<Rightarrow> (True, insert_session s h3))))"
    unfolding add_session_def h1_def s_def Let_def by (rule refl)
  note step1 = evict_at_cap_refines [OF h1(1) _ pos(1), of "t_by_principal h1" ses_principal p, unfolded h1(2)]
  have g1: "t_by_principal h1 = grouped ses_principal ys" using h1(1) by (simp add: represents_def)
  show ?thesis
  proof (cases "room_for (\<lambda>x. ses_principal x = p) (t_calls h) (mc_max_per_principal c) ys")
    case None
    then have "spec_add c now s (t_calls h) ys = None" by (simp add: spec_add_def s_def)
    with None step1 [OF g1] h1 show ?thesis by (simp add: add flip: ys_def)
  next
    case (Some xs1)
    note room1 = Some
    then obtain h2 where h2: "evict_at_cap (t_by_principal h1 p) (mc_max_per_principal c) h1 = (True, h2)"
      "represents h2 xs1" "t_calls h2 = t_calls h" using step1 [OF g1] by auto
    have g2: "t_by_workspace h2 = grouped ses_workspace xs1" using h2(2) by (simp add: represents_def)
    note step2 = evict_at_cap_refines [OF h2(2) g2 pos(2), of w, unfolded h2(3)]
    show ?thesis
    proof (cases "room_for (\<lambda>x. ses_workspace x = w) (t_calls h) (mc_max_per_workspace c) xs1")
      case None
      then have none: "spec_add c now s (t_calls h) ys = None" using room1 by (simp add: spec_add_def s_def)
      then have "xs1 = ys" using cases room1 by (auto simp: s_def)
      with None none step2 h2 show ?thesis by (simp add: add flip: ys_def)
    next
      case (Some xs2)
      note room2 = Some
      then obtain h3 where h3: "evict_at_cap (t_by_workspace h2 w) (mc_max_per_workspace c) h2 = (True, h3)"
        "represents h3 xs2" "t_calls h3 = t_calls h" using step2 by auto
      note step3 = evict_all_refines [OF h3(2), of "mc_max_sessions c", unfolded h3(3)]
      show ?thesis
      proof (cases "room_for (\<lambda>_. True) (t_calls h) (mc_max_sessions c) xs2")
        case None
        then have none: "spec_add c now s (t_calls h) ys = None" using room1 room2 by (simp add: spec_add_def s_def)
        then have "xs2 = ys" using cases room1 room2 by (auto simp: s_def)
        with None none step3 h2 h3 show ?thesis by (simp add: add flip: ys_def)
      next
        case (Some xs3)
        then obtain h4 where h4: "(if int (length (t_sessions h3)) \<ge> mc_max_sessions c then evict_idle (t_lru h3) h3
            else (True, h3)) = (True, h4)" "represents h4 xs3" "t_calls h4 = t_calls h" using step3 by auto
        have some: "spec_add c now s (t_calls h) ys = Some (s # xs3)"
          using room1 room2 Some by (simp add: spec_add_def s_def)
        with cases have "set xs3 \<subseteq> set ys" by (auto simp: drop_id_def)
        then have "ses_id s \<notin> ses_id ` set xs3" using fresh by (auto simp: ys_def s_def)
        then have "represents (insert_session s h4) (s # xs3)" by (rule represents_insert [OF h4(2)])
        with some h2 h3 h4 show ?thesis by (simp add: add insert_session_def flip: ys_def)
      qed
    qed
  qed
qed

subsection \<open>Runs of the endpoint\<close>

text \<open>A run interleaves requests, each at a time no earlier than the last, with the ends of the tool
  calls in flight. A drawn session id is not in use, and workspace ids hold no zero byte.\<close>

record mcp_system =
  sy_table :: session_table
  sy_clock :: int
  sy_inflight :: "string list"

definition call_started :: "mcp_request \<Rightarrow> mcp_reply \<Rightarrow> string list" where
  "call_started rq reply = (case reply of CallAdmitted _ \<Rightarrow> [rq_session rq] | _ \<Rightarrow> [])"

inductive mcp_step :: "mcp_config \<Rightarrow> (string \<Rightarrow> bool) \<Rightarrow> mcp_system \<Rightarrow> mcp_system \<Rightarrow> bool" for c allowed where
  request: "sy_clock y \<le> t \<Longrightarrow> i \<notin> fst ` set (t_sessions (sy_table y))
      \<Longrightarrow> (\<And>p. rq_principal rq = Some p \<Longrightarrow> CHR 0x00 \<notin> set (pr_workspace p))
      \<Longrightarrow> serve_http c allowed used t i rq (sy_table y) = (reply, h)
      \<Longrightarrow> mcp_step c allowed y \<lparr>sy_table = h, sy_clock = t, sy_inflight = call_started rq reply @ sy_inflight y\<rparr>"
| call_done: "i \<in> set (sy_inflight y)
      \<Longrightarrow> mcp_step c allowed y (y\<lparr>sy_table := release_call i (sy_table y), sy_inflight := remove1 i (sy_inflight y)\<rparr>)"

inductive mcp_reachable :: "mcp_config \<Rightarrow> (string \<Rightarrow> bool) \<Rightarrow> mcp_system \<Rightarrow> bool" for c allowed where
  initial: "mcp_reachable c allowed \<lparr>sy_table = new_table, sy_clock = t, sy_inflight = []\<rparr>"
| stepped: "mcp_reachable c allowed y \<Longrightarrow> mcp_step c allowed y z \<Longrightarrow> mcp_reachable c allowed z"

inductive_cases mcp_stepE: "mcp_step c allowed y z"

definition keyed :: "mcp_session \<Rightarrow> mcp_principal \<Rightarrow> bool" where
  "keyed s p \<longleftrightarrow> ses_principal s = principal_key p \<and> ses_workspace s = pr_workspace p \<and> CHR 0x00 \<notin> set (pr_workspace p)"

definition list_ok :: "mcp_config \<Rightarrow> int \<Rightarrow> string list \<Rightarrow> mcp_session list \<Rightarrow> bool" where
  "list_ok c t inflight xs \<longleftrightarrow> by_recency xs \<and> (\<forall>s \<in> set xs. ses_last s \<le> t) \<and> within_caps c xs
     \<and> (\<forall>s \<in> set xs. \<exists>p. keyed s p) \<and> set inflight \<subseteq> ses_id ` set xs"

definition table_ok :: "mcp_config \<Rightarrow> mcp_system \<Rightarrow> mcp_session list \<Rightarrow> bool" where
  "table_ok c y xs \<longleftrightarrow> represents (sy_table y) xs \<and> list_ok c (sy_clock y) (sy_inflight y) xs
     \<and> t_calls (sy_table y) = count_list (sy_inflight y)"

lemma key_workspace:
  assumes "principal_key p = principal_key q" and "CHR 0x00 \<notin> set (pr_workspace p)" and "CHR 0x00 \<notin> set (pr_workspace q)"
  shows "pr_workspace p = pr_workspace q"
proof -
  have last_part: "takeWhile (\<lambda>x. x \<noteq> CHR 0x00) (rev (principal_key r)) = rev (pr_workspace r)"
    if "CHR 0x00 \<notin> set (pr_workspace r)" for r
    using that by (auto simp: principal_key_def takeWhile_append takeWhile_eq_all_conv)
  show ?thesis using last_part assms by (metis rev_rev_ident)
qed

lemma small_enough_caps:
  assumes small: "small_enough c s xs" and caps: "within_caps c xs"
  shows "within_caps c (s # xs)"
proof -
  have "count_by f k (s # xs) = count_by f k xs + (if f s = k then 1 else 0)" for f k
    by (simp add: count_by_def)
  with small caps show ?thesis by (auto simp: within_caps_def small_enough_def)
qed

lemma list_ok_time: "list_ok c t fl xs \<Longrightarrow> t \<le> t' \<Longrightarrow> list_ok c t' fl xs"
  by (fastforce simp: list_ok_def)

lemma list_ok_filter:
  assumes "list_ok c t fl xs" and "\<And>s. s \<in> set xs \<Longrightarrow> ses_id s \<in> set fl \<Longrightarrow> P s"
  shows "list_ok c t fl (filter P xs)"
  using assms by (fastforce simp: list_ok_def by_recency_filter within_caps_filter)

lemma list_ok_refresh:
  assumes ok: "list_ok c t fl xs" and s: "s \<in> set xs" and d: "distinct (map ses_id xs)" and "t \<le> t'"
  shows "list_ok c t' fl (refresh t' s xs)"
proof -
  have n: "count_by f k (refresh t' s xs) = count_by f k xs" if f: "f (s\<lparr>ses_last := t'\<rparr>) = f s" for f k
  proof (cases "f s = k")
    case True
    then have "0 < count_by f k xs" using s by (auto simp: count_by_def filter_empty_conv)
    moreover have "count_by f k (refresh t' s xs) = Suc (length (filter (\<lambda>x. f x = k) (drop_id (ses_id s) xs)))"
      using True f by (simp add: count_by_def refresh_def)
    ultimately show ?thesis
      using drop_id_count [of xs s "\<lambda>x. f x = k", OF d s True] unfolding count_by_def by linarith
  next
    case False
    have "x = s" if "x \<in> set xs" "ses_id x = ses_id s" for x
      using that d s by (auto simp: distinct_map dest: inj_onD)
    then have "filter (\<lambda>x. f x = k) (drop_id (ses_id s) xs) = filter (\<lambda>x. f x = k) xs"
      using False by (auto simp: drop_id_def intro: filter_cong)
    with False f show ?thesis by (simp add: count_by_def refresh_def)
  qed
  have "length (refresh t' s xs) = length xs"
    using drop_id_length [OF d s] s by (cases xs) (auto simp: refresh_def)
  then have "within_caps c (refresh t' s xs)"
    using ok by - (rule within_caps_mono [of c xs], simp_all add: n list_ok_def)
  moreover have le: "\<forall>x \<in> set xs. ses_last x \<le> t'" using ok \<open>t \<le> t'\<close> by (fastforce simp: list_ok_def)
  moreover have "by_recency (drop_id (ses_id s) xs)"
    using ok by (simp add: drop_id_def by_recency_filter list_ok_def)
  then have "by_recency (refresh t' s xs)"
    using le by (simp add: by_recency_def refresh_def drop_id_def)
  moreover have "\<exists>p. keyed (s\<lparr>ses_last := t'\<rparr>) p" using ok s by (auto simp: list_ok_def keyed_def)
  moreover have "ses_id ` set (refresh t' s xs) = ses_id ` set xs"
    using s by (auto simp: refresh_def drop_id_def)
  ultimately show ?thesis
    using ok by (auto simp: list_ok_def refresh_def drop_id_def)
qed

lemma touch_refines:
  assumes r: "represents h xs" and touch: "touch c now i k h = (b, h')"
  shows "t_calls h' = t_calls h \<and>
    ((b \<and> (\<exists>s \<in> set xs. ses_id s = i \<and> ses_principal s = k \<and> represents h' (refresh now s xs)))
     \<or> (\<not> b \<and> (h' = h \<or> (\<exists>s \<in> set xs. ses_id s = i \<and> ses_principal s = k \<and> idle_expired c now (t_calls h) s
           \<and> represents h' (drop_id i xs)))))"
proof (cases "map_of (t_sessions h) i")
  case None
  with touch show ?thesis by (simp add: touch_def)
next
  case (Some s)
  then have s: "s \<in> set xs" "ses_id s = i" using represents_find [OF r] by auto
  consider "ses_principal s \<noteq> k" | "ses_principal s = k" "now - ses_last s > mc_session_ttl c"
    | "ses_principal s = k" "\<not> now - ses_last s > mc_session_ttl c" by blast
  then show ?thesis
  proof cases
    case 1
    with Some touch show ?thesis by (simp add: touch_def)
  next
    case 2
    with Some touch s represents_remove [OF r s(1)] show ?thesis
      by (auto simp: touch_def idle_expired_def split: if_splits)
  next
    case 3
    with Some touch s represents_refresh [OF r s(1), of now] show ?thesis
      by (auto simp: touch_def)
  qed
qed

lemma table_ok_step_touch:
  assumes ok: "table_ok c y xs" and t: "sy_clock y \<le> t" and touch: "touch c t i k (sy_table y) = (b, h')"
  shows "\<exists>zs. represents h' zs \<and> list_ok c t (sy_inflight y) zs \<and> t_calls h' = t_calls (sy_table y)
    \<and> (b \<longrightarrow> i \<in> ses_id ` set zs)"
proof -
  let ?h = "sy_table y"
  have r: "represents ?h xs" and l: "list_ok c (sy_clock y) (sy_inflight y) xs"
    and calls: "t_calls ?h = count_list (sy_inflight y)" using ok by (simp_all add: table_ok_def)
  have d: "distinct (map ses_id xs)" using r by (simp add: represents_def)
  from touch_refines [OF r touch] show ?thesis
  proof (elim conjE disjE bexE)
    fix s assume s: "t_calls h' = t_calls ?h" b "s \<in> set xs" "ses_id s = i" "represents h' (refresh t s xs)"
    moreover have "i \<in> ses_id ` set (refresh t s xs)" using s(4) by (simp add: refresh_def)
    ultimately show ?thesis using list_ok_refresh [OF l s(3) d t] by blast
  next
    assume "t_calls h' = t_calls ?h" "\<not> b" "h' = ?h"
    with r list_ok_time [OF l t] show ?thesis by blast
  next
    fix s assume s: "t_calls h' = t_calls ?h" "\<not> b" "s \<in> set xs" "ses_id s = i"
      "idle_expired c t (t_calls ?h) s" "represents h' (drop_id i xs)"
    have "i \<notin> set (sy_inflight y)" using s(4,5) calls by (simp add: idle_expired_def count_list_0_iff)
    then have "list_ok c t (sy_inflight y) (drop_id i xs)"
      unfolding drop_id_def by (intro list_ok_filter list_ok_time [OF l t]) auto
    with s show ?thesis by blast
  qed
qed

lemma table_ok_step_add:
  assumes ok: "table_ok c y xs" and cfg: "config_ok c" and t: "sy_clock y \<le> t"
    and fresh: "i \<notin> fst ` set (t_sessions (sy_table y))" and p: "CHR 0x00 \<notin> set (pr_workspace p)"
    and add: "add_session c t i (principal_key p) (pr_workspace p) (sy_table y) = (b, h')"
  defines "s \<equiv> \<lparr>ses_id = i, ses_principal = principal_key p, ses_workspace = pr_workspace p, ses_last = t\<rparr>"
    and "ys \<equiv> filter (\<lambda>x. \<not> idle_expired c t (t_calls (sy_table y)) x) xs"
  shows "\<exists>zs. represents h' zs \<and> list_ok c t (sy_inflight y) zs \<and> t_calls h' = t_calls (sy_table y)
    \<and> ((\<not> b \<and> zs = ys \<and> all_busy_at_cap c s (t_calls (sy_table y)) ys)
       \<or> (b \<and> zs = s # ys)
       \<or> (b \<and> (\<exists>v \<in> set ys. \<not> busy (t_calls (sy_table y)) v \<and> evictable c s ys v \<and> zs = s # drop_id (ses_id v) ys)))"
proof -
  let ?h = "sy_table y"
  have r: "represents ?h xs" and l: "list_ok c (sy_clock y) (sy_inflight y) xs"
    and calls: "t_calls ?h = count_list (sy_inflight y)" using ok by (simp_all add: table_ok_def)
  have d: "distinct (map ses_id ys)" using r by (simp add: ys_def represents_def distinct_filter_ids)
  have ws: "\<forall>v \<in> set xs. ses_principal v = principal_key p \<longrightarrow> ses_workspace v = pr_workspace p"
    using l p key_workspace by (fastforce simp: list_ok_def keyed_def)
  have new: "i \<notin> ses_id ` set xs" using fresh represents_ids [OF r] by simp
  have ly: "list_ok c t (sy_inflight y) ys"
    unfolding ys_def using calls
    by (intro list_ok_filter list_ok_time [OF l t]) (auto simp: idle_expired_def count_list_0_iff)
  have "within_caps c xs" "by_recency xs" using l by (simp_all add: list_ok_def)
  from add_session_refines [OF r this(2) cfg this(1) ws new, of t, folded s_def ys_def]
  have h': "b \<longleftrightarrow> spec_add c t s (t_calls ?h) ys \<noteq> None" "t_calls h' = t_calls ?h"
    "represents h' (case spec_add c t s (t_calls ?h) ys of None \<Rightarrow> ys | Some zs \<Rightarrow> zs)" using add by auto
  have cy: "within_caps c ys" using ly by (simp add: list_ok_def)
  have wy: "\<forall>v \<in> set ys. ses_principal v = ses_principal s \<longrightarrow> ses_workspace v = ses_workspace s"
    using ws by (simp add: ys_def s_def)
  have grow: "list_ok c t (sy_inflight y) (s # us)" if "list_ok c t (sy_inflight y) us" "small_enough c s us" for us
  proof -
    have "keyed s p" using p by (simp add: keyed_def s_def)
    moreover have "within_caps c (s # us)" using that by (intro small_enough_caps) (simp_all add: list_ok_def)
    ultimately show ?thesis using that by (auto simp: list_ok_def by_recency_def s_def)
  qed
  from spec_add_cases [OF d cy cfg wy, of t "t_calls ?h"] show ?thesis
  proof (elim disjE conjE bexE)
    assume "spec_add c t s (t_calls ?h) ys = None" "all_busy_at_cap c s (t_calls ?h) ys"
    with h' ly show ?thesis by (intro exI [of _ ys]) simp
  next
    assume a: "spec_add c t s (t_calls ?h) ys = Some (s # ys)" "small_enough c s ys"
    with h' grow [OF ly] show ?thesis by (intro exI [of _ "s # ys"]) simp
  next
    fix v
    assume v: "v \<in> set ys" "\<not> busy (t_calls ?h) v" "evictable c s ys v" "small_enough c s (drop_id (ses_id v) ys)"
      "spec_add c t s (t_calls ?h) ys = Some (s # drop_id (ses_id v) ys)"
    have "ses_id v \<notin> set (sy_inflight y)" using v(2) calls by (simp add: busy_def count_list_0_iff)
    then have "list_ok c t (sy_inflight y) (drop_id (ses_id v) ys)"
      unfolding drop_id_def by (intro list_ok_filter ly) auto
    with v h' grow show ?thesis by (intro exI [of _ "s # drop_id (ses_id v) ys"]) auto
  qed
qed

text \<open>What a request can do to the table.\<close>

lemma serve_http_cases:
  assumes "serve_http c allowed used t i rq h = (reply, h')"
  obtains (unchanged) "h' = h" "call_started rq reply = []"
  | (added) p b where "rq_principal rq = Some p" "add_session c t i (principal_key p) (pr_workspace p) h = (b, h')"
      "reply = (if b then SessionCreated i else TooManySessions)"
  | (touched) p b where "rq_principal rq = Some p" "touch c t (rq_session rq) (principal_key p) h = (b, h')"
      "call_started rq reply = []"
  | (called) p h1 where "rq_principal rq = Some p" "touch c t (rq_session rq) (principal_key p) h = (True, h1)"
      "h' = h1\<lparr>t_calls := (t_calls h1)(rq_session rq := t_calls h1 (rq_session rq) + 1)\<rparr>"
      "call_started rq reply = [rq_session rq]"
proof -
  consider "h' = h" "call_started rq reply = []"
    | p r where "rq_principal rq = Some p" "rq_rpc rq = Some r" "initialize c t i r p h = (reply, h')"
    | p adm lim where "rq_principal rq = Some p" "admit_call c t (rq_session rq) (principal_key p) h = ((adm, lim), h')"
        "reply = (if adm then CallAdmitted lim else SessionRequired)"
    | p b where "rq_principal rq = Some p" "session_ok c t (rq_session rq) (principal_key p) h = (b, h')"
        "call_started rq reply = []"
    using assms by (auto simp: serve_http_def call_started_def split: if_splits option.splits prod.splits bool.splits)
  then show thesis
  proof cases
    case 2
    then show thesis
      by (auto simp: initialize_def split: option.splits if_splits prod.splits bool.splits
          intro: unchanged added simp: call_started_def)
  next
    case 3
    then show thesis
      by (auto simp: admit_call_def Let_def call_started_def split: if_splits prod.splits bool.splits
          intro: unchanged touched called)
  next
    case 4
    then show thesis
      by (auto simp: session_ok_def call_started_def split: if_splits intro: unchanged touched)
  qed (rule unchanged)
qed

lemma count_list_remove1: "count_list (remove1 a xs) = (count_list xs)(a := count_list xs a - 1)"
proof (rule ext)
  show "count_list (remove1 a xs) x = ((count_list xs)(a := count_list xs a - 1)) x" for x
    by (induction xs) (auto simp: count_list_0_iff)
qed

lemma mcp_step_table_ok:
  assumes "mcp_step c allowed y z" and cfg: "config_ok c" and ok: "table_ok c y xs"
  shows "\<exists>zs. table_ok c z zs"
  using assms(1)
proof (cases rule: mcp_step.cases)
  case (request t i rq used reply h)
  from request(5) show ?thesis
  proof (cases rule: serve_http_cases)
    case unchanged
    with ok request show ?thesis by (auto simp: table_ok_def intro: list_ok_time)
  next
    case (added p b)
    with request table_ok_step_add [OF ok cfg, of t i p b h] ok show ?thesis
      by (auto simp: table_ok_def call_started_def)
  next
    case (touched p b)
    with request table_ok_step_touch [OF ok, of t "rq_session rq" "principal_key p" b h] ok show ?thesis
      by (auto simp: table_ok_def)
  next
    case (called p h1)
    with request table_ok_step_touch [OF ok, of t "rq_session rq" "principal_key p" True h1] obtain zs where
      zs: "represents h1 zs" "list_ok c t (sy_inflight y) zs" "t_calls h1 = t_calls (sy_table y)"
        "rq_session rq \<in> ses_id ` set zs" by auto
    have "list_ok c t (rq_session rq # sy_inflight y) zs" using zs by (simp add: list_ok_def)
    moreover have "t_calls h = count_list (rq_session rq # sy_inflight y)"
      using called(3) zs(3) ok by (auto simp: table_ok_def)
    ultimately show ?thesis using zs(1) called(3,4) request(1) by (auto simp: table_ok_def)
  qed
next
  case (call_done i)
  have "list_ok c (sy_clock y) (remove1 i (sy_inflight y)) xs"
    using ok set_remove1_subset [of i "sy_inflight y"] by (auto simp: table_ok_def list_ok_def)
  with ok call_done show ?thesis
    by (auto simp: table_ok_def release_call_def count_list_remove1)
qed

lemma reachable_table_ok:
  assumes "mcp_reachable c allowed y" and "config_ok c"
  shows "\<exists>xs. table_ok c y xs"
  using assms(1)
proof (induction rule: mcp_reachable.induct)
  case (initial t)
  have "table_ok c \<lparr>sy_table = new_table, sy_clock = t, sy_inflight = []\<rparr> []"
    using assms(2) represents_new
    by (auto simp: table_ok_def list_ok_def by_recency_def within_caps_def count_by_def config_ok_def new_table_def)
  then show ?case by blast
next
  case (stepped y z)
  then show ?case using mcp_step_table_ok assms(2) by blast
qed

subsection \<open>Properties of the endpoint\<close>

text \<open>C1. In every run of the endpoint, under any configuration, the map and the three recency lists
  describe one list of sessions in order of last use: no list keeps an id the map has lost, no principal
  or workspace keeps an empty list, the caps on the table, on each principal and on each workspace hold,
  the call counters are the numbers of calls in flight, and a session with a call in flight is still in
  the table.\<close>

theorem mcp_table_coherent:
  assumes "mcp_reachable (normalise_config rl c) allowed y"
  shows "\<exists>xs. represents (sy_table y) xs \<and> by_recency xs \<and> within_caps (normalise_config rl c) xs
     \<and> t_calls (sy_table y) = count_list (sy_inflight y) \<and> set (sy_inflight y) \<subseteq> ses_id ` set xs"
  using reachable_table_ok [OF assms normalise_config_ok] by (auto simp: table_ok_def list_ok_def)

definition sample_principal :: mcp_principal where
  "sample_principal = \<lparr>pr_issuer = ''iss'', pr_subject = ''sub'', pr_workspace = ''ws''\<rparr>"

definition sample_mcp_request :: "string \<Rightarrow> string \<Rightarrow> mcp_request" where
  "sample_mcp_request m sid = \<lparr>rq_method = ''POST'', rq_origin = [], rq_principal = Some sample_principal,
     rq_content_length = 10, rq_body = Some 10, rq_rpc = Some \<lparr>rpc_method = m, rpc_version = Some ''2025-06-18''\<rparr>,
     rq_session = sid\<rparr>"

definition zero_config :: mcp_config where
  "zero_config = \<lparr>mc_max_body_bytes = 0, mc_max_calls = 0, mc_session_ttl = 0, mc_max_sessions = 0,
     mc_max_per_principal = 0, mc_max_per_workspace = 0, mc_max_concurrent = 0\<rparr>"

definition sample_mcp :: mcp_system where
  "sample_mcp = \<lparr>sy_table = snd (serve_http (normalise_config 0 zero_config) (\<lambda>_. False) 0 5 ''gist-1''
     (sample_mcp_request ''initialize'' []) new_table), sy_clock = 5, sy_inflight = []\<rparr>"

lemma sample_mcp_reachable: "mcp_reachable (normalise_config 0 zero_config) (\<lambda>_. False) sample_mcp"
proof -
  let ?y = "\<lparr>sy_table = new_table, sy_clock = 0, sy_inflight = []\<rparr>" and ?c = "normalise_config 0 zero_config"
    and ?rq = "sample_mcp_request ''initialize'' []"
  have created: "fst (serve_http ?c (\<lambda>_. False) 0 5 ''gist-1'' ?rq new_table) = SessionCreated ''gist-1''"
    by code_simp
  have "mcp_step ?c (\<lambda>_. False) ?y \<lparr>sy_table = snd (serve_http ?c (\<lambda>_. False) 0 5 ''gist-1'' ?rq (sy_table ?y)),
      sy_clock = 5, sy_inflight = call_started ?rq (SessionCreated ''gist-1'') @ sy_inflight ?y\<rparr>"
  proof (rule mcp_step.request [where used = 0])
    show "serve_http ?c (\<lambda>_. False) 0 5 ''gist-1'' ?rq (sy_table ?y)
        = (SessionCreated ''gist-1'', snd (serve_http ?c (\<lambda>_. False) 0 5 ''gist-1'' ?rq (sy_table ?y)))"
      using created by (simp add: prod_eq_iff)
  qed (auto simp: new_table_def sample_mcp_request_def sample_principal_def)
  then show ?thesis
    using stepped [OF initial [of ?c "\<lambda>_. False" 0]] by (simp add: sample_mcp_def call_started_def)
qed

theorem mcp_table_coherent_witness:
  "\<exists>xs. represents (sy_table sample_mcp) xs \<and> map ses_id xs = [''gist-1'']"
proof -
  obtain xs where "represents (sy_table sample_mcp) xs"
    using mcp_table_coherent [OF sample_mcp_reachable] by blast
  moreover have "t_lru (sy_table sample_mcp) = [''gist-1'']" by code_simp
  ultimately show ?thesis by (auto simp: represents_def)
qed

text \<open>C17. Opening a session in a run: the request first drops the idle sessions past their time to live,
  then pushes out at most one more session, an idle one counted by a cap that is reached, its principal's,
  its workspace's or the table's; a refusal means that every session counted by a reached cap has a call
  in flight, and pushes nothing out. While the table has room, no unexpired session of another workspace
  is lost.\<close>

theorem mcp_admission_isolated:
  fixes p t i rl c
  defines "s \<equiv> \<lparr>ses_id = i, ses_principal = principal_key p, ses_workspace = pr_workspace p, ses_last = t\<rparr>"
    and "cfg \<equiv> normalise_config rl c"
  assumes "mcp_reachable cfg allowed y" and "sy_clock y \<le> t"
    and "i \<notin> fst ` set (t_sessions (sy_table y))" and "CHR 0x00 \<notin> set (pr_workspace p)"
    and "add_session cfg t i (principal_key p) (pr_workspace p) (sy_table y) = (admitted, h)"
  shows "\<exists>xs ys zs. represents (sy_table y) xs \<and> represents h zs
     \<and> ys = filter (\<lambda>v. \<not> idle_expired cfg t (t_calls (sy_table y)) v) xs
     \<and> (if admitted
        then zs = s # ys \<or> (\<exists>v \<in> set ys. \<not> busy (t_calls (sy_table y)) v \<and> evictable cfg s ys v \<and> zs = s # drop_id (ses_id v) ys)
        else zs = ys \<and> all_busy_at_cap cfg s (t_calls (sy_table y)) ys)
     \<and> (int (length ys) < mc_max_sessions cfg \<longrightarrow>
          (\<forall>v \<in> set ys. ses_workspace v \<noteq> pr_workspace p \<longrightarrow> v \<in> set zs))"
proof -
  obtain xs where ok: "table_ok cfg y xs"
    using reachable_table_ok [OF assms(3)] normalise_config_ok by (auto simp: cfg_def)
  define ys where "ys = filter (\<lambda>v. \<not> idle_expired cfg t (t_calls (sy_table y)) v) xs"
  have r: "represents (sy_table y) xs" using ok by (simp add: table_ok_def)
  have inj: "a = b" if "a \<in> set ys" "b \<in> set ys" "ses_id a = ses_id b" for a b
    using that r by (auto simp: ys_def represents_def distinct_map dest: inj_onD)
  have ws: "ses_workspace v = pr_workspace p" if "v \<in> set ys" "ses_principal v = principal_key p" for v
    using that ok assms(6) key_workspace by (fastforce simp: ys_def table_ok_def list_ok_def keyed_def)
  obtain zs where zs: "represents h zs"
    "(\<not> admitted \<and> zs = ys \<and> all_busy_at_cap cfg s (t_calls (sy_table y)) ys) \<or> (admitted \<and> zs = s # ys)
     \<or> (admitted \<and> (\<exists>v \<in> set ys. \<not> busy (t_calls (sy_table y)) v \<and> evictable cfg s ys v \<and> zs = s # drop_id (ses_id v) ys))"
    using table_ok_step_add [OF ok _ assms(4-7)] normalise_config_ok by (auto simp: ys_def s_def cfg_def)
  have "v \<in> set zs" if "int (length ys) < mc_max_sessions cfg" "v \<in> set ys" "ses_workspace v \<noteq> pr_workspace p" for v
    using zs(2)
  proof (elim disjE conjE bexE)
    fix u assume u: "u \<in> set ys" "evictable cfg s ys u" "zs = s # drop_id (ses_id u) ys"
    then have "ses_workspace u = pr_workspace p"
      using that(1) ws by (auto simp: evictable_def s_def)
    with u that inj show ?thesis by (auto simp: drop_id_def)
  qed (use that in auto)
  with r zs show ?thesis by (intro exI [of _ xs] exI [of _ ys] exI [of _ zs]) (auto simp: ys_def)
qed

theorem mcp_admission_isolated_witness:
  "\<exists>zs. represents (snd (add_session (normalise_config 0 zero_config) 6 ''gist-2'' (principal_key sample_principal) ''ws''
      (sy_table sample_mcp))) zs \<and> map ses_id zs = [''gist-2'', ''gist-1'']"
proof -
  let ?c = "normalise_config 0 zero_config"
  let ?r = "add_session ?c 6 ''gist-2'' (principal_key sample_principal) ''ws'' (sy_table sample_mcp)"
  have lru: "t_lru (snd ?r) = [''gist-2'', ''gist-1'']" by code_simp
  have "sy_clock sample_mcp \<le> 6" by (simp add: sample_mcp_def)
  moreover have "''gist-2'' \<notin> fst ` set (t_sessions (sy_table sample_mcp))" by code_simp
  moreover have "CHR 0x00 \<notin> set (pr_workspace sample_principal)" "pr_workspace sample_principal = ''ws''"
    by (simp_all add: sample_principal_def)
  ultimately have "\<exists>zs. represents (snd ?r) zs"
    using mcp_admission_isolated [OF sample_mcp_reachable, of 6 "''gist-2''" sample_principal "fst ?r" "snd ?r"] by auto
  with lru show ?thesis by (auto simp: represents_def)
qed

text \<open>A caller without a valid token, or naming a session of another principal (or none), leaves the
  table as it is and gets neither a tool call nor a tool list.\<close>

theorem mcp_foreign_request_harmless:
  assumes "rq_principal rq = None \<or> (\<exists>p r. rq_principal rq = Some p \<and> rq_rpc rq = Some r \<and> rpc_method r \<noteq> ''initialize''
      \<and> (\<forall>s. map_of (t_sessions h) (rq_session rq) = Some s \<longrightarrow> ses_principal s \<noteq> principal_key p))"
  shows "snd (serve_http c allowed used t i rq h) = h
     \<and> fst (serve_http c allowed used t i rq h) \<notin> {ToolList, MethodNotFound} \<union> range CallAdmitted \<union> range SessionCreated"
  using assms
proof (elim disjE exE conjE)
  assume "rq_principal rq = None"
  then show ?thesis by (auto simp: serve_http_def)
next
  fix p r
  assume rq: "rq_principal rq = Some p" "rq_rpc rq = Some r" "rpc_method r \<noteq> ''initialize''"
    and "\<forall>s. map_of (t_sessions h) (rq_session rq) = Some s \<longrightarrow> ses_principal s \<noteq> principal_key p"
  then have t: "touch c t (rq_session rq) (principal_key p) h = (False, h)"
    by (simp add: touch_def split: option.split)
  then have "admit_call c t (rq_session rq) (principal_key p) h = ((False, False), h)"
    "session_ok c t (rq_session rq) (principal_key p) h = (False, h)"
    by (simp_all add: admit_call_def session_ok_def)
  with rq have "serve_http c allowed used t i rq h \<in>
      (\<lambda>x. (x, h)) ` {MethodNotAllowed, ForbiddenOrigin, RateLimited, BodyTooLarge, NotificationAccepted, SessionRequired}"
    by (simp add: serve_http_def split: option.split)
  then show ?thesis by auto
qed

theorem mcp_foreign_request_harmless_witness:
  "fst (serve_http (normalise_config 0 zero_config) (\<lambda>_. False) 0 6 ''gist-2''
      ((sample_mcp_request ''tools/list'' ''gist-1'')\<lparr>rq_principal := Some (sample_principal\<lparr>pr_subject := ''eve''\<rparr>)\<rparr>)
      (sy_table sample_mcp)) = SessionRequired
   \<and> snd (serve_http (normalise_config 0 zero_config) (\<lambda>_. False) 0 6 ''gist-2''
      ((sample_mcp_request ''tools/list'' ''gist-1'')\<lparr>rq_principal := Some (sample_principal\<lparr>pr_subject := ''eve''\<rparr>)\<rparr>)
      (sy_table sample_mcp)) = sy_table sample_mcp"
proof
  let ?rq = "(sample_mcp_request ''tools/list'' ''gist-1'')\<lparr>rq_principal := Some (sample_principal\<lparr>pr_subject := ''eve''\<rparr>)\<rparr>"
  show "fst (serve_http (normalise_config 0 zero_config) (\<lambda>_. False) 0 6 ''gist-2'' ?rq (sy_table sample_mcp)) = SessionRequired"
    by code_simp
  have "map_option ses_principal (map_of (t_sessions (sy_table sample_mcp)) ''gist-1'') = Some (principal_key sample_principal)"
    by code_simp
  then have "\<forall>s. map_of (t_sessions (sy_table sample_mcp)) (rq_session ?rq) = Some s \<longrightarrow>
      ses_principal s \<noteq> principal_key (sample_principal\<lparr>pr_subject := ''eve''\<rparr>)"
    by (auto simp: sample_mcp_request_def sample_principal_def principal_key_def)
  then show "snd (serve_http (normalise_config 0 zero_config) (\<lambda>_. False) 0 6 ''gist-2'' ?rq (sy_table sample_mcp)) = sy_table sample_mcp"
    using mcp_foreign_request_harmless [of ?rq "sy_table sample_mcp"] by (simp add: sample_mcp_request_def)
qed

end
