(* ===== verification/GoJson.thy ===== *)
theory GoJson
  imports GoStrings
begin

text \<open>
  The part of \<open>encoding/json\<close> the catalog uses to encode structures of strings, numbers, flags and
  lists: string quoting with the HTML-safe escapes, and objects whose members come in declaration
  order, with members left out by \<open>omitempty\<close>. Encoding such values never fails.
\<close>

definition hex_digit :: "nat \<Rightarrow> char" where
  "hex_digit n = (if n < 10 then char_of (48 + n) else char_of (87 + n))"

text \<open>One rune with its bytes, as \<open>appendString\<close> writes it.\<close>

definition json_rune :: "nat \<times> string \<Rightarrow> string" where
  "json_rune rb =
     (case rb of (r, b) \<Rightarrow>
        if r < 128 then
          (if r = 34 \<or> r = 92 then CHR 0x5C # b
           else if r = 8 then [CHR 0x5C, CHR ''b'']
           else if r = 12 then [CHR 0x5C, CHR ''f'']
           else if r = 10 then [CHR 0x5C, CHR ''n'']
           else if r = 13 then [CHR 0x5C, CHR ''r'']
           else if r = 9 then [CHR 0x5C, CHR ''t'']
           else if r < 32 \<or> r = 60 \<or> r = 62 \<or> r = 38 then
             [CHR 0x5C, CHR ''u'', CHR ''0'', CHR ''0'', hex_digit (r div 16), hex_digit (r mod 16)]
           else b)
        else if r = rune_error \<and> length b = 1 then CHR 0x5C # ''ufffd''
        else if r = 8232 \<or> r = 8233 then CHR 0x5C # ''u202'' @ [hex_digit (r mod 16)]
        else b)"

definition json_string :: "string \<Rightarrow> string" where
  "json_string s = [CHR 0x22] @ concat (map json_rune (go_runes s)) @ [CHR 0x22]"

definition json_int :: "int \<Rightarrow> string" where
  "json_int i = (if i < 0 then CHR ''-'' # go_itoa (nat (- i)) else go_itoa (nat i))"

definition json_bool :: "bool \<Rightarrow> string" where
  "json_bool b = (if b then ''true'' else ''false'')"

definition json_list :: "string list \<Rightarrow> string" where
  "json_list xs = ''['' @ go_join xs '','' @ '']''"

text \<open>An object; a member \<open>None\<close> is one left out by \<open>omitempty\<close>.\<close>

definition json_object :: "(string \<times> string option) list \<Rightarrow> string" where
  "json_object ms =
     ''{'' @ go_join (List.map_filter (\<lambda>(k, v). map_option (\<lambda>v. json_string k @ '':'' @ v) v) ms) '','' @ ''}''"

definition omit_empty :: "string \<Rightarrow> string option" where
  "omit_empty s = (if s = [] then None else Some (json_string s))"

lemma json_string_nonempty [simp]: "json_string s \<noteq> []"
  by (simp add: json_string_def)

lemma json_object_nonempty [simp]: "json_object ms \<noteq> []"
  by (simp add: json_object_def)

end
