(* ===== verification/CatalogTypes.thy ===== *)
theory CatalogTypes
  imports GoJson
begin

text \<open>
  The data of \<open>catalog/ports\<close>: artifact references, digests, catalog records, principals, cursors and
  policy decisions, with the JSON encodings the discovery services measure. An \<open>ArtifactKind\<close> and an
  \<open>Action\<close> are strings in the code and here.
\<close>

record artifact_ref =
  ar_workspace :: string
  ar_kind :: string
  ar_id :: string
  ar_version :: string

record digest =
  dg_algorithm :: string
  dg_value :: string

record artifact_pin =
  ap_ref :: artifact_ref
  ap_digest :: digest
  ap_manifest :: digest

record catalog_record =
  cr_ref :: artifact_ref
  cr_state :: string
  cr_digest :: digest
  cr_manifest_digest :: digest
  cr_document_digest :: digest
  cr_package_digest :: digest
  cr_object_key :: string
  cr_artifact_size :: int
  cr_metadata :: string

record principal_rec =
  pn_issuer :: string
  pn_subject :: string
  pn_audience :: string
  pn_workspace :: string
  pn_scopes :: "string list"
  pn_generation :: nat
  pn_subject_type :: string

record decision =
  dc_allowed :: bool
  dc_status :: int
  dc_reason :: string

record cursor =
  cu_id :: string
  cu_principal_hash :: string
  cu_workspace :: string
  cu_expires_at :: int

definition kind_skill :: string where "kind_skill = ''skill''"
definition kind_capability :: string where "kind_capability = ''capability''"
definition kind_tool :: string where "kind_tool = ''tool''"
definition kind_provider :: string where "kind_provider = ''provider''"
definition kind_binding :: string where "kind_binding = ''binding''"
definition action_read :: string where "action_read = ''catalog:read''"

text \<open>An authorizer may fail or decide.\<close>

type_synonym authorizer = "principal_rec \<Rightarrow> string \<Rightarrow> artifact_ref \<Rightarrow> decision option"

definition empty_cursor :: cursor where
  "empty_cursor = \<lparr>cu_id = [], cu_principal_hash = [], cu_workspace = [], cu_expires_at = 0\<rparr>"

definition json_ref :: "artifact_ref \<Rightarrow> string" where
  "json_ref r = json_object [(''WorkspaceID'', Some (json_string (ar_workspace r))), (''Kind'', Some (json_string (ar_kind r))),
     (''ID'', Some (json_string (ar_id r))), (''Version'', Some (json_string (ar_version r)))]"

definition json_cursor :: "cursor \<Rightarrow> string" where
  "json_cursor c = json_object [(''ID'', Some (json_string (cu_id c))),
     (''PrincipalHash'', Some (json_string (cu_principal_hash c))),
     (''WorkspaceID'', Some (json_string (cu_workspace c))), (''ExpiresAt'', Some (json_int (cu_expires_at c)))]"

definition listed_state :: "string \<Rightarrow> bool" where
  "listed_state st \<longleftrightarrow> st = ''published'' \<or> st = ''deprecated''"

end
