(* ===== verification/Lexical.thy ===== *)
theory Lexical
  imports GoStrings
begin

text \<open>
  \<open>internal/cataloglexical/lexical.go\<close>: the lexical retrieval model shared by the catalog store and the
  discovery services. Two tables of the Unicode database are parameters: \<open>ul\<close> lower-cases and \<open>alnum\<close>
  tells letters and digits among the runes beyond ASCII.
\<close>

definition stopwords :: "string list" where
  "stopwords = [''a'', ''an'', ''and'', ''are'', ''as'', ''at'', ''be'', ''by'', ''for'', ''from'', ''in'', ''into'',
     ''is'', ''it'', ''its'', ''of'', ''on'', ''or'', ''that'', ''the'', ''these'', ''this'', ''those'', ''through'',
     ''to'', ''via'', ''with'', ''without'']"

definition suffixes :: "(string \<times> string) list" where
  "suffixes = [(''sses'', ''ss''), (''ies'', ''y''), (''ational'', ''ate''), (''ation'', ''ate''), (''ing'', []),
     (''ed'', []), (''er'', []), (''s'', [])]"

definition is_alnum :: "(nat \<Rightarrow> bool) \<Rightarrow> nat \<Rightarrow> bool" where
  "is_alnum alnum r =
     (if r < 128 then (97 \<le> r \<and> r \<le> 122) \<or> (65 \<le> r \<and> r \<le> 90) \<or> (48 \<le> r \<and> r \<le> 57) else alnum r)"

text \<open>The loop over the suffix table: the first suffix the word has decides.\<close>

fun strip_suffix :: "(string \<times> string) list \<Rightarrow> string \<Rightarrow> string" where
  "strip_suffix [] w = w"
| "strip_suffix ((sfx, rep) # rest) w =
     (if \<not> go_has_suffix w sfx then strip_suffix rest w
      else if sfx = ''s'' \<and> (go_has_suffix w ''ss'' \<or> go_has_suffix w ''us'' \<or> go_has_suffix w ''is'') then w
      else (let base = take (length w - length sfx) w @ rep in if length base \<ge> 3 then base else w))"

definition stem :: "string \<Rightarrow> string" where
  "stem w0 =
     (if length w0 \<le> 3 then w0
      else (let w = strip_suffix suffixes w0
            in if length w > 3 \<and> go_has_suffix w ''e'' then take (length w - 1) w else w))"

definition terms :: "(nat \<Rightarrow> nat) \<Rightarrow> (nat \<Rightarrow> bool) \<Rightarrow> string \<Rightarrow> string list" where
  "terms ul alnum text =
     map stem (filter (\<lambda>w. w \<notin> set stopwords)
       (go_fields_func (\<lambda>r. \<not> is_alnum alnum r) (go_tolower ul text)))"

text \<open>Distinct terms in the order of their first occurrence; \<open>seen\<close> is the map of the loop.\<close>

fun query_loop :: "string list \<Rightarrow> string list \<Rightarrow> string list" where
  "query_loop seen [] = []"
| "query_loop seen (t # ts) = (if t \<in> set seen then query_loop seen ts else t # query_loop (t # seen) ts)"

definition query :: "(nat \<Rightarrow> nat) \<Rightarrow> (nat \<Rightarrow> bool) \<Rightarrow> string \<Rightarrow> string list" where
  "query ul alnum text = query_loop [] (terms ul alnum text)"

record document =
  doc_id :: string
  doc_logical_name :: string
  doc_kind :: string
  doc_capabilities :: "string list"
  doc_taxonomy :: "string list"
  doc_description :: string

text \<open>The metadata as \<open>encoding/json\<close> decodes it: a required capability is a string, an object with an
  \<open>id\<close> (empty when absent), or something that decodes as neither.\<close>

datatype raw_capability = CapString string | CapObject string | CapInvalid

record lexical_metadata =
  lm_logical_name :: string
  lm_summary :: string
  lm_description :: string
  lm_tags :: "string list"
  lm_taxonomy :: "string list"
  lm_required :: "raw_capability list"
  lm_capability_ref :: string

definition empty_metadata :: lexical_metadata where
  "empty_metadata = \<lparr>lm_logical_name = [], lm_summary = [], lm_description = [], lm_tags = [], lm_taxonomy = [],
                     lm_required = [], lm_capability_ref = []\<rparr>"

text \<open>\<open>strings.LastIndex(ref, "@")\<close>: a position greater than zero cuts the pin.\<close>

definition unpin :: "string \<Rightarrow> string" where
  "unpin ref =
     (let after = takeWhile (\<lambda>c. c \<noteq> CHR ''@'') (rev ref); i = length ref - length after
      in if length after < length ref \<and> i - 1 > 0 then take (i - 1) ref else ref)"

fun capability_ids :: "raw_capability list \<Rightarrow> string list option" where
  "capability_ids [] = Some []"
| "capability_ids (c # cs) =
     (case c of
        CapInvalid \<Rightarrow> None
      | CapString i \<Rightarrow> map_option (Cons (unpin i)) (capability_ids cs)
      | CapObject i \<Rightarrow> map_option (Cons (unpin i)) (capability_ids cs))"

text \<open>\<open>None\<close> is metadata that does not decode. The argument is \<open>None\<close> for raw metadata that is not
  decodable and \<open>Some empty_metadata\<close> for a record without metadata.\<close>

definition document_from_metadata :: "string \<Rightarrow> string \<Rightarrow> lexical_metadata option \<Rightarrow> document option" where
  "document_from_metadata kind i raw = do {
     m \<leftarrow> raw;
     caps \<leftarrow> capability_ids (lm_required m);
     Some \<lparr>doc_id = i, doc_logical_name = lm_logical_name m, doc_kind = kind,
           doc_capabilities = caps @ (if lm_capability_ref m \<noteq> [] then [unpin (lm_capability_ref m)] else []),
           doc_taxonomy = lm_tags m @ lm_taxonomy m,
           doc_description = go_trim_space (lm_summary m @ '' '' @ lm_description m)\<rparr>
   }"

record lexical_match =
  mt_terms :: nat
  mt_weight :: nat

definition matched :: "lexical_match \<Rightarrow> bool" where
  "matched m \<longleftrightarrow> mt_terms m > 0"

definition sign :: "int \<Rightarrow> int" where
  "sign v = (if v > 0 then 1 else if v < 0 then -1 else 0)"

definition better :: "lexical_match \<Rightarrow> lexical_match \<Rightarrow> int" where
  "better m o' =
     (if mt_terms m \<noteq> mt_terms o' then sign (int (mt_terms m) - int (mt_terms o'))
      else if mt_weight m \<noteq> mt_weight o' then sign (int (mt_weight m) - int (mt_weight o'))
      else 0)"

text \<open>An index holds the terms of the naming, the classifying and the descriptive fields.\<close>

type_synonym lexical_index = "string list list"

definition field_terms :: "(nat \<Rightarrow> nat) \<Rightarrow> (nat \<Rightarrow> bool) \<Rightarrow> string list \<Rightarrow> string list" where
  "field_terms ul alnum texts = concat (map (terms ul alnum) texts)"

definition new_index :: "(nat \<Rightarrow> nat) \<Rightarrow> (nat \<Rightarrow> bool) \<Rightarrow> document \<Rightarrow> lexical_index" where
  "new_index ul alnum d =
     [field_terms ul alnum [doc_id d, doc_logical_name d],
      field_terms ul alnum (doc_kind d # doc_capabilities d @ doc_taxonomy d),
      field_terms ul alnum [doc_description d]]"

definition weights :: "nat list" where
  "weights = [3, 2, 1]"

text \<open>The inner loop: the weight of the first field that has the term.\<close>

fun field_weight :: "nat list \<Rightarrow> lexical_index \<Rightarrow> string \<Rightarrow> nat option" where
  "field_weight (w # ws) (f # fs) t = (if t \<in> set f then Some w else field_weight ws fs t)"
| "field_weight _ _ t = None"

fun score_loop :: "lexical_index \<Rightarrow> lexical_match \<Rightarrow> string list \<Rightarrow> lexical_match" where
  "score_loop ix m [] = m"
| "score_loop ix m (t # ts) =
     score_loop ix (case field_weight weights ix t of
         None \<Rightarrow> m | Some w \<Rightarrow> m\<lparr>mt_terms := mt_terms m + 1, mt_weight := mt_weight m + w\<rparr>) ts"

definition index_score :: "lexical_index \<Rightarrow> string list \<Rightarrow> lexical_match" where
  "index_score ix ts = score_loop ix \<lparr>mt_terms = 0, mt_weight = 0\<rparr> ts"

definition score :: "(nat \<Rightarrow> nat) \<Rightarrow> (nat \<Rightarrow> bool) \<Rightarrow> string \<Rightarrow> document \<Rightarrow> lexical_match" where
  "score ul alnum q d = index_score (new_index ul alnum d) (query ul alnum q)"

subsection \<open>Stemming\<close>

lemma strip_suffix_length: "length w > 3 \<Longrightarrow> 3 \<le> length (strip_suffix tbl w)"
  by (induction tbl w rule: strip_suffix.induct) (auto simp: Let_def)

lemma strip_suffix_bound:
  "\<forall>(s, r) \<in> set tbl. length r \<le> length s \<Longrightarrow> length (strip_suffix tbl w) \<le> length w"
proof (induction tbl w rule: strip_suffix.induct)
  case (2 sfx rep rest w)
  then have "length sfx \<le> length w" if "go_has_suffix w sfx"
    using that by (auto simp: go_has_suffix_def suffix_length_le)
  with 2 show ?case by (auto simp: Let_def)
qed simp

lemma stem_bounds: "min 3 (length w) \<le> length (stem w) \<and> length (stem w) \<le> length w"
proof -
  have "\<forall>(s, r) \<in> set suffixes. length r \<le> length s" by (simp add: suffixes_def)
  then have "length (strip_suffix suffixes w) \<le> length w" by (rule strip_suffix_bound)
  then show ?thesis using strip_suffix_length [of w suffixes] by (auto simp: stem_def Let_def)
qed

subsection \<open>Queries\<close>

lemma set_query_loop: "set (query_loop seen ts) = set ts - set seen"
  by (induction seen ts rule: query_loop.induct) auto

lemma distinct_query_loop: "distinct (query_loop seen ts)"
  by (induction seen ts rule: query_loop.induct) (auto simp: set_query_loop)

lemma set_query [simp]: "set (query ul alnum q) = set (terms ul alnum q)"
  by (simp add: query_def set_query_loop)

lemma distinct_query [simp]: "distinct (query ul alnum q)"
  by (simp add: query_def distinct_query_loop)

lemma query_loop_terms: "set seen \<inter> set ts = {} \<Longrightarrow> distinct ts \<Longrightarrow> query_loop seen ts = ts"
  by (induction seen ts rule: query_loop.induct) auto

lemma terms_nonempty: "t \<in> set (terms ul alnum q) \<Longrightarrow> t \<noteq> []"
proof -
  assume "t \<in> set (terms ul alnum q)"
  then obtain w where "t = stem w" "w \<noteq> []"
    by (auto simp: terms_def go_fields_func_nonempty)
  then show ?thesis using stem_bounds [of w] by (cases w) auto
qed

subsection \<open>Scores\<close>

lemma field_weight_Some: "field_weight ws ix t = Some w \<Longrightarrow> w \<in> set ws \<and> t \<in> \<Union> (set ` set ix)"
  by (induction ws ix t rule: field_weight.induct) (auto split: if_splits)

lemma field_weight_None: "length ix \<le> length ws \<Longrightarrow> field_weight ws ix t = None \<longleftrightarrow> t \<notin> \<Union> (set ` set ix)"
  by (induction ws ix t rule: field_weight.induct) auto

lemma score_loop_spec:
  assumes "length ix \<le> 3"
  shows "mt_terms (score_loop ix m ts) = mt_terms m + length (filter (\<lambda>t. t \<in> \<Union> (set ` set ix)) ts)
     \<and> mt_weight (score_loop ix m ts) = mt_weight m + sum_list (map (\<lambda>t. case field_weight weights ix t of None \<Rightarrow> 0 | Some w \<Rightarrow> w) ts)"
  using assms field_weight_None [of ix weights]
  by (induction ix m ts rule: score_loop.induct)
    (auto simp: weights_def split: option.splits dest!: field_weight_Some)

definition best_weight :: "(nat \<Rightarrow> nat) \<Rightarrow> (nat \<Rightarrow> bool) \<Rightarrow> document \<Rightarrow> string \<Rightarrow> nat" where
  "best_weight ul alnum d t =
     (if \<exists>x \<in> {doc_id d, doc_logical_name d}. t \<in> set (terms ul alnum x) then 3
      else if \<exists>x \<in> insert (doc_kind d) (set (doc_capabilities d) \<union> set (doc_taxonomy d)). t \<in> set (terms ul alnum x) then 2
      else if t \<in> set (terms ul alnum (doc_description d)) then 1 else 0)"

lemma field_weight_best:
  "(case field_weight weights (new_index ul alnum d) t of None \<Rightarrow> 0 | Some w \<Rightarrow> w) = best_weight ul alnum d t"
  by (auto simp: weights_def new_index_def field_terms_def best_weight_def)

lemma in_index_best: "t \<in> \<Union> (set ` set (new_index ul alnum d)) \<longleftrightarrow> best_weight ul alnum d t \<noteq> 0"
  by (auto simp: new_index_def field_terms_def best_weight_def)

lemma best_weight_le: "best_weight ul alnum d t \<le> 3"
  by (simp add: best_weight_def)

text \<open>A score counts the distinct query terms that occur in some field of the document and sums, per
  term, the weight of the best field it occurs in; so a document is a candidate exactly when a query term
  occurs in it, the weight lies between the number of matched terms and three times that number, and a
  query of stopwords matches nothing.\<close>

theorem score_counts_best_fields:
  "let m = score ul alnum q d; hits = {t \<in> set (query ul alnum q). best_weight ul alnum d t \<noteq> 0} in
     mt_terms m = card hits \<and> mt_weight m = (\<Sum>t \<in> hits. best_weight ul alnum d t)
     \<and> (matched m \<longleftrightarrow> hits \<noteq> {}) \<and> mt_terms m \<le> mt_weight m \<and> mt_weight m \<le> 3 * mt_terms m"
proof -
  define hits where "hits = {t \<in> set (query ul alnum q). best_weight ul alnum d t \<noteq> 0}"
  define m where "m = score ul alnum q d"
  have len: "length (new_index ul alnum d) \<le> 3" by (simp add: new_index_def)
  have "mt_terms m = length (filter (\<lambda>t. best_weight ul alnum d t \<noteq> 0) (query ul alnum q))"
    using score_loop_spec [OF len, of "\<lparr>mt_terms = 0, mt_weight = 0\<rparr>" "query ul alnum q"]
    unfolding in_index_best m_def score_def index_score_def by simp
  also have "\<dots> = card (set (filter (\<lambda>t. best_weight ul alnum d t \<noteq> 0) (query ul alnum q)))"
    by (rule distinct_card [symmetric]) simp
  also have "\<dots> = card hits" by (simp add: hits_def)
  finally have terms: "mt_terms m = card hits" .
  have "mt_weight m = sum_list (map (best_weight ul alnum d) (query ul alnum q))"
    using score_loop_spec [OF len, of "\<lparr>mt_terms = 0, mt_weight = 0\<rparr>" "query ul alnum q"]
    by (simp add: m_def score_def index_score_def field_weight_best)
  also have "\<dots> = (\<Sum>t \<in> set (query ul alnum q). best_weight ul alnum d t)"
    by (rule sum_list_distinct_conv_sum_set) simp
  also have "\<dots> = (\<Sum>t \<in> hits. best_weight ul alnum d t)"
    unfolding hits_def by (rule sum.mono_neutral_right) auto
  finally have weight: "mt_weight m = (\<Sum>t \<in> hits. best_weight ul alnum d t)" .
  have fin: "finite hits" by (simp add: hits_def)
  have "(\<Sum>t \<in> hits. 1) \<le> (\<Sum>t \<in> hits. best_weight ul alnum d t)"
    by (rule sum_mono) (auto simp: hits_def)
  moreover have "(\<Sum>t \<in> hits. best_weight ul alnum d t) \<le> (\<Sum>t \<in> hits. 3)"
    by (rule sum_mono) (rule best_weight_le)
  ultimately show ?thesis
    unfolding Let_def m_def [symmetric] hits_def [symmetric]
    using terms weight fin by (simp add: matched_def card_gt_0_iff)
qed

text \<open>The order of matches, as used to rank.\<close>

lemma better_antisym: "better b a = - better a b"
  by (auto simp: better_def sign_def)

lemma better_trans: "better a b \<ge> 0 \<Longrightarrow> better b c \<ge> 0 \<Longrightarrow> better a c \<ge> 0"
  by (auto simp: better_def sign_def split: if_splits)

lemma better_zero: "better a b = 0 \<longleftrightarrow> mt_terms a = mt_terms b \<and> mt_weight a = mt_weight b"
  by (auto simp: better_def sign_def)

subsection \<open>Texts joined by spaces\<close>

lemma decode_rune_before_ascii: "byte d < 128 \<Longrightarrow> decode_rune (c # cs @ d # t) = decode_rune (c # cs)"
  by (auto simp: decode_rune.simps(2) decode2_def decode3_def decode4_def Let_def is_cont_def split: list.splits)

lemma go_runes_at_ascii: "byte d < 128 \<Longrightarrow> go_runes (s @ d # t) = go_runes s @ (byte d, [d]) # go_runes t"
proof (induction s rule: go_runes.induct)
  case (2 c cs)
  obtain r w where rw: "decode_rune (c # cs) = (r, w)" by (cases "decode_rune (c # cs)")
  have "w - 1 \<le> length cs" using decode_rune_width [OF rw] by linarith
  then show ?case using 2 rw decode_rune_before_ascii [of d c cs t] by simp
qed simp

lemma go_tolower_at_ascii:
  "byte d < 128 \<Longrightarrow> go_tolower ul (s @ d # t) = go_tolower ul s @ encode_rune (lower_rune ul (byte d)) @ go_tolower ul t"
  by (simp add: go_tolower_def go_runes_at_ascii)

lemma fields_aux_at_sep: "p r \<Longrightarrow> fields_aux p (rs @ (r, b) # ss) cur = fields_aux p rs cur @ fields_aux p ss []"
  by (induction p rs cur rule: fields_aux.induct) auto

lemma terms_at_space: "terms ul alnum (s @ CHR '' '' # t) = terms ul alnum s @ terms ul alnum t"
proof -
  have b: "byte (CHR '' '') = 32" by code_simp
  have "go_tolower ul (s @ CHR '' '' # t) = go_tolower ul s @ CHR '' '' # go_tolower ul t"
    using go_tolower_at_ascii [of "CHR '' ''" ul s t] by (simp add: b lower_rune_def encode_rune_ascii) (metis b char_of_byte)
  then show ?thesis
    by (simp add: terms_def go_fields_func_def go_runes_at_ascii b fields_aux_at_sep is_alnum_def)
qed

lemma terms_Nil [simp]: "terms ul alnum [] = []"
  by (simp add: terms_def go_fields_func_def go_tolower_def)

lemma terms_join: "terms ul alnum (go_join ss '' '') = concat (map (terms ul alnum) ss)"
  by (induction ss "'' ''" rule: go_join.induct) (simp_all add: terms_at_space)

end
