(* ===== verification/Discovery.thy ===== *)
theory Discovery
  imports CatalogTypes Lexical "HOL-Library.Product_Lexorder"
begin

text \<open>
  \<open>catalog/discovery/index.go\<close> and \<open>cache.go\<close>: the discovery service over a catalog search and an
  authorizer, and the bounded cache. Parameters: the catalog search, the authorizer, the decoding of a
  record's metadata (as the discovery and the lexical structures), the hash of a principal, the Unicode
  tables (\<open>canon\<close> is the representative of a rune's case-folding orbit) and the clock.
\<close>

record candidate =
  cd_ref :: artifact_ref
  cd_logical_name :: string
  cd_summary :: string
  cd_trust :: string
  cd_tags :: "string list"
  cd_required :: nat
  cd_estimated_bytes :: int

text \<open>The fields \<open>Kind\<close>, \<open>ID\<close>, \<open>Version\<close> and \<open>ResolutionRequired\<close> of the code repeat the reference and
  the number of required capabilities.\<close>

definition json_candidate :: "candidate \<Rightarrow> string" where
  "json_candidate c = json_object [(''ref'', Some (json_ref (cd_ref c))),
     (''kind'', Some (json_string (ar_kind (cd_ref c)))), (''id'', Some (json_string (ar_id (cd_ref c)))),
     (''version'', Some (json_string (ar_version (cd_ref c)))), (''logical_name'', omit_empty (cd_logical_name c)),
     (''summary'', omit_empty (cd_summary c)), (''trust'', omit_empty (cd_trust c)),
     (''tags'', if cd_tags c = [] then None else Some (json_list (map json_string (cd_tags c)))),
     (''required_capability_count'', Some (json_int (int (cd_required c)))),
     (''resolution_required'', Some (json_bool (cd_required c > 0))),
     (''estimated_bytes'', if cd_estimated_bytes c = 0 then None else Some (json_int (cd_estimated_bytes c)))]"

record discovery_request =
  dr_principal :: principal_rec
  dr_query :: string
  dr_kinds :: "string list"
  dr_tags :: "string list"
  dr_cursor :: cursor
  dr_limit :: int
  dr_max_bytes :: int

record discovery_response =
  dp_candidates :: "candidate list"
  dp_next :: "cursor option"
  dp_token_estimate :: nat

definition json_response :: "discovery_response \<Rightarrow> string" where
  "json_response r = json_object [(''candidates'', Some (json_list (map json_candidate (dp_candidates r)))),
     (''next_cursor'', Some (case dp_next r of None \<Rightarrow> ''null'' | Some c \<Rightarrow> json_cursor c)),
     (''token_estimate'', Some (json_int (int (dp_token_estimate r))))]"

record discovery_metadata =
  dm_logical_name :: string
  dm_summary :: string
  dm_trust :: string
  dm_tags :: "string list"
  dm_required :: nat
  dm_estimated_bytes :: int

record search_page =
  pg_records :: "catalog_record list"
  pg_next :: cursor

datatype discovery_error =
  InvalidDiscovery | CursorRejected | CursorOfOther | CatalogFailed | ForeignWorkspace
| AuthorizationFailed string | MetadataUndecodable string | DiscoveryBudget nat

text \<open>What the service needs from elsewhere.\<close>

record discovery_env =
  de_search :: "discovery_request \<Rightarrow> search_page option"
  de_decide :: authorizer
  de_metadata :: "string \<Rightarrow> discovery_metadata option"
  de_lexical :: "string \<Rightarrow> lexical_metadata option"
  de_hash :: "principal_rec \<Rightarrow> string"
  de_lower :: "nat \<Rightarrow> nat"
  de_alnum :: "nat \<Rightarrow> bool"
  de_canon :: "nat \<Rightarrow> nat"

definition go_equal_fold :: "(nat \<Rightarrow> nat) \<Rightarrow> string \<Rightarrow> string \<Rightarrow> bool" where
  "go_equal_fold canon s t \<longleftrightarrow> map (canon \<circ> fst) (go_runes s) = map (canon \<circ> fst) (go_runes t)"

definition candidate_from_record :: "(string \<Rightarrow> discovery_metadata option) \<Rightarrow> catalog_record \<Rightarrow> candidate option" where
  "candidate_from_record meta r = do {
     m \<leftarrow> (if cr_metadata r = [] then Some \<lparr>dm_logical_name = [], dm_summary = [], dm_trust = [], dm_tags = [],
             dm_required = 0, dm_estimated_bytes = 0\<rparr> else meta (cr_metadata r));
     Some \<lparr>cd_ref = cr_ref r, cd_logical_name = dm_logical_name m, cd_summary = dm_summary m, cd_trust = dm_trust m,
           cd_tags = dm_tags m, cd_required = dm_required m, cd_estimated_bytes = dm_estimated_bytes m\<rparr>
   }"

definition matches_filters :: "(nat \<Rightarrow> nat) \<Rightarrow> candidate \<Rightarrow> string list \<Rightarrow> string list \<Rightarrow> bool" where
  "matches_filters canon c kinds tags \<longleftrightarrow>
     (kinds = [] \<or> list_ex (\<lambda>k. ar_kind (cd_ref c) = k) kinds)
     \<and> list_all (\<lambda>wanted. list_ex (\<lambda>tag. go_equal_fold canon tag wanted) (cd_tags c)) tags"

definition record_document :: "discovery_env \<Rightarrow> catalog_record \<Rightarrow> document option" where
  "record_document env r =
     document_from_metadata (ar_kind (cr_ref r)) (ar_id (cr_ref r))
       (if cr_metadata r = [] then Some empty_metadata else de_lexical env (cr_metadata r))"

text \<open>One round of the loop over the page: an error, nothing to show, or a ranked candidate.\<close>

definition consider_record ::
  "discovery_env \<Rightarrow> discovery_request \<Rightarrow> catalog_record \<Rightarrow> discovery_error + (candidate \<times> lexical_match) option" where
  "consider_record env rq r =
     (let ref = cr_ref r in
      if ar_workspace ref \<noteq> pn_workspace (dr_principal rq) then Inl ForeignWorkspace
      else if \<not> listed_state (cr_state r) then Inr None
      else (case de_decide env (dr_principal rq) action_read ref of
        None \<Rightarrow> Inl (AuthorizationFailed (ar_id ref))
      | Some d \<Rightarrow>
          if \<not> dc_allowed d then Inr None
          else (case candidate_from_record (de_metadata env) r of
            None \<Rightarrow> Inl (MetadataUndecodable (ar_id ref))
          | Some c \<Rightarrow>
              if \<not> matches_filters (de_canon env) c (dr_kinds rq) (dr_tags rq) then Inr None
              else if go_trim_space (dr_query rq) = [] then Inr (Some (c, \<lparr>mt_terms = 0, mt_weight = 0\<rparr>))
              else (case record_document env r of
                None \<Rightarrow> Inl (MetadataUndecodable (ar_id ref))
              | Some doc \<Rightarrow>
                  (let m = index_score (new_index (de_lower env) (de_alnum env) doc)
                             (query (de_lower env) (de_alnum env) (dr_query rq))
                   in if matched m then Inr (Some (c, m)) else Inr None)))))"

fun visible_loop ::
  "discovery_env \<Rightarrow> discovery_request \<Rightarrow> catalog_record list \<Rightarrow> discovery_error + (candidate \<times> lexical_match) list" where
  "visible_loop env rq [] = Inr []"
| "visible_loop env rq (r # rs) =
     (case consider_record env rq r of
        Inl e \<Rightarrow> Inl e
      | Inr v \<Rightarrow> (case visible_loop env rq rs of
            Inl e \<Rightarrow> Inl e
          | Inr vs \<Rightarrow> Inr (case v of None \<Rightarrow> vs | Some x \<Rightarrow> x # vs)))"

definition ref_before :: "artifact_ref \<Rightarrow> artifact_ref \<Rightarrow> bool" where
  "ref_before a b =
     (if ar_kind a \<noteq> ar_kind b then ar_kind a < ar_kind b
      else if ar_id a \<noteq> ar_id b then ar_id a < ar_id b
      else ar_version a < ar_version b)"

definition ranked_before :: "candidate \<times> lexical_match \<Rightarrow> candidate \<times> lexical_match \<Rightarrow> bool" where
  "ranked_before x y =
     (let c = better (snd x) (snd y) in if c \<noteq> 0 then c > 0 else ref_before (cd_ref (fst x)) (cd_ref (fst y)))"

fun fill_candidates :: "int \<Rightarrow> int \<Rightarrow> candidate list \<Rightarrow> candidate list \<Rightarrow> candidate list" where
  "fill_candidates limit max_bytes acc [] = acc"
| "fill_candidates limit max_bytes acc (c # cs) =
     (if int (length acc) = limit then acc
      else (let trial = acc @ [c] in
            if int (length (json_response \<lparr>dp_candidates = trial, dp_next = None, dp_token_estimate = 0\<rparr>)) > max_bytes
            then acc else fill_candidates limit max_bytes trial cs))"

function shrink_response :: "int \<Rightarrow> discovery_response \<Rightarrow> discovery_error + discovery_response" where
  "shrink_response max_bytes r0 =
     (let r = r0\<lparr>dp_token_estimate := (length (json_response r0) + 3) div 4\<rparr>;
          n = length (json_response r)
      in if int n \<le> max_bytes then Inr r
         else if dp_candidates r = [] then Inl (DiscoveryBudget n)
         else shrink_response max_bytes (r\<lparr>dp_candidates := butlast (dp_candidates r)\<rparr>))"
  by pat_completeness auto
termination
  by (relation "measure (\<lambda>(m, r). length (dp_candidates r))") auto

definition cursor_error :: "discovery_env \<Rightarrow> int \<Rightarrow> discovery_request \<Rightarrow> discovery_error option" where
  "cursor_error env now rq =
     (let c = dr_cursor rq in
      if cu_id c = [] then None
      else if cu_workspace c \<noteq> pn_workspace (dr_principal rq) \<or> cu_expires_at c \<le> now then Some CursorRejected
      else if cu_principal_hash c \<noteq> [] \<and> cu_principal_hash c \<noteq> de_hash env (dr_principal rq) then Some CursorOfOther
      else None)"

definition answer_page ::
  "discovery_env \<Rightarrow> discovery_request \<Rightarrow> search_page \<Rightarrow> discovery_error + discovery_response" where
  "answer_page env rq page =
     (case visible_loop env rq (pg_records page) of
        Inl e \<Rightarrow> Inl e
      | Inr visible \<Rightarrow>
          shrink_response (dr_max_bytes rq)
            \<lparr>dp_candidates = fill_candidates (dr_limit rq) (dr_max_bytes rq) [] (map fst (stable_sort ranked_before visible)),
             dp_next = (if cu_id (pg_next page) \<noteq> [] then Some (pg_next page) else None), dp_token_estimate = 0\<rparr>)"

definition discover ::
  "discovery_env \<Rightarrow> int \<Rightarrow> discovery_request \<Rightarrow> discovery_error + discovery_response" where
  "discover env now rq0 =
     (if pn_workspace (dr_principal rq0) = [] \<or> pn_subject (dr_principal rq0) = [] \<or> dr_max_bytes rq0 \<le> 0
      then Inl InvalidDiscovery
      else (let rq = (if dr_limit rq0 \<le> 0 then rq0\<lparr>dr_limit := 20\<rparr> else rq0) in
            case cursor_error env now rq of
              Some e \<Rightarrow> Inl e
            | None \<Rightarrow> (case de_search env rq of None \<Rightarrow> Inl CatalogFailed | Some page \<Rightarrow> answer_page env rq page)))"

subsection \<open>The ranking\<close>

definition rank_key :: "candidate \<times> lexical_match \<Rightarrow> int \<times> int \<times> string \<times> string \<times> string" where
  "rank_key x = (- int (mt_terms (snd x)), - int (mt_weight (snd x)), ar_kind (cd_ref (fst x)), ar_id (cd_ref (fst x)),
     ar_version (cd_ref (fst x)))"

lemma ranked_before_key: "ranked_before x y \<longleftrightarrow> rank_key x < rank_key y"
  by (auto simp: ranked_before_def rank_key_def better_def sign_def ref_before_def less_prod_def' Let_def)

lemma ranked_before_weak: "weak_order ranked_before"
proof -
  have eq: "ranked_before = (\<lambda>x y. rank_key x < rank_key y)" by (intro ext) (rule ranked_before_key)
  show ?thesis unfolding eq by (rule weak_order_key)
qed

interpretation ranking: slice_sort ranked_before "stable_sort ranked_before"
  by unfold_locales (rule sorts_by_stable_sort [OF ranked_before_weak])

subsection \<open>What a response is made of\<close>

lemma visible_loop_member:
  "visible_loop env rq rs = Inr vs \<Longrightarrow> x \<in> set vs \<Longrightarrow> \<exists>r \<in> set rs. consider_record env rq r = Inr (Some x)"
  by (induction rs arbitrary: vs) (auto split: sum.splits option.splits)

lemma visible_loop_skip:
  "\<forall>r \<in> set rs. \<not> P r \<longrightarrow> consider_record env rq r = Inr None \<Longrightarrow>
   visible_loop env rq (filter P rs) = visible_loop env rq rs"
  by (induction rs) (auto split: sum.split option.split)

lemma fill_candidates_prefix:
  "0 \<le> limit \<Longrightarrow> int (length acc) \<le> limit \<Longrightarrow>
   \<exists>k. fill_candidates limit m acc cs = acc @ take k cs \<and> int (length (fill_candidates limit m acc cs)) \<le> limit"
proof (induction limit m acc cs rule: fill_candidates.induct)
  case (1 limit m acc)
  then show ?case by simp
next
  case (2 limit m acc c cs)
  show ?case
  proof (cases "int (length acc) = limit \<or>
      int (length (json_response \<lparr>dp_candidates = acc @ [c], dp_next = None, dp_token_estimate = 0\<rparr>)) > m")
    case True
    then have "fill_candidates limit m acc (c # cs) = acc" by (auto simp: Let_def)
    with 2 show ?thesis by (metis append_Nil2 take0)
  next
    case False
    then obtain k where "fill_candidates limit m (acc @ [c]) cs = (acc @ [c]) @ take k cs"
      "int (length (fill_candidates limit m (acc @ [c]) cs)) \<le> limit"
      using "2.IH" "2.prems" by (auto simp: Let_def)
    moreover have "fill_candidates limit m acc (c # cs) = fill_candidates limit m (acc @ [c]) cs"
      using False by (simp add: Let_def)
    ultimately show ?thesis by (intro exI [of _ "Suc k"]) simp
  qed
qed

declare shrink_response.simps [simp del]

lemma shrink_response_spec:
  "shrink_response m r0 = Inr r \<Longrightarrow>
   prefix (dp_candidates r) (dp_candidates r0) \<and> dp_next r = dp_next r0 \<and> int (length (json_response r)) \<le> m"
proof (induction m r0 rule: shrink_response.induct)
  case (1 m r0)
  show ?case
    using "1.prems" "1.IH" [OF refl refl]
    by (subst (asm) shrink_response.simps) (auto simp: Let_def split: if_splits dest: prefix_order.trans [OF _ prefixeq_butlast])
qed

text \<open>A record the caller may see.\<close>

definition record_visible :: "discovery_env \<Rightarrow> discovery_request \<Rightarrow> catalog_record \<Rightarrow> bool" where
  "record_visible env rq r \<longleftrightarrow>
     listed_state (cr_state r) \<and> (\<exists>d. de_decide env (dr_principal rq) action_read (cr_ref r) = Some d \<and> dc_allowed d)"

lemma consider_hidden:
  assumes "ar_workspace (cr_ref r) = pn_workspace (dr_principal rq)"
    and "de_decide env (dr_principal rq) action_read (cr_ref r) \<noteq> None" and "\<not> record_visible env rq r"
  shows "consider_record env rq r = Inr None"
  using assms by (auto simp: consider_record_def record_visible_def Let_def split: option.split)

lemma consider_shown:
  assumes "consider_record env rq r = Inr (Some (c, m))"
  shows "record_visible env rq r \<and> ar_workspace (cr_ref r) = pn_workspace (dr_principal rq)
    \<and> cd_ref c = cr_ref r \<and> matches_filters (de_canon env) c (dr_kinds rq) (dr_tags rq)
    \<and> (go_trim_space (dr_query rq) = [] \<or> matched m)"
proof -
  have "cd_ref c' = cr_ref r" if "candidate_from_record f r = Some c'" for f c'
    using that by (auto simp: candidate_from_record_def bind_Some_iff)
  with assms show ?thesis
    by (auto simp: consider_record_def record_visible_def Let_def split: if_splits option.splits)
qed


text \<open>Records the caller may not see leave no trace: with an authorizer that always decides and a page
  of the caller's workspace, the answer (candidates, order, estimate, budget errors) is the answer to the
  page without them.\<close>

theorem discover_ignores_hidden:
  assumes "\<forall>r \<in> set (pg_records page). ar_workspace (cr_ref r) = pn_workspace (dr_principal rq)
      \<and> de_decide env (dr_principal rq) action_read (cr_ref r) \<noteq> None"
  shows "answer_page env rq page = answer_page env rq (page\<lparr>pg_records := filter (record_visible env rq) (pg_records page)\<rparr>)"
proof -
  have "visible_loop env rq (filter (record_visible env rq) (pg_records page)) = visible_loop env rq (pg_records page)"
    using assms consider_hidden by (intro visible_loop_skip) blast
  then show ?thesis
    by (cases "visible_loop env rq (pg_records page)") (simp_all add: answer_page_def)
qed

text \<open>A small catalog: two published records and an authorizer that hides the second.\<close>

definition sample_ref :: "string \<Rightarrow> artifact_ref" where
  "sample_ref i = \<lparr>ar_workspace = ''w'', ar_kind = ''skill'', ar_id = i, ar_version = ''1.0.0''\<rparr>"

definition no_digest :: digest where
  "no_digest = \<lparr>dg_algorithm = [], dg_value = []\<rparr>"

definition sample_record :: "string \<Rightarrow> catalog_record" where
  "sample_record i = \<lparr>cr_ref = sample_ref i, cr_state = ''published'', cr_digest = no_digest, cr_manifest_digest = no_digest,
     cr_document_digest = no_digest, cr_package_digest = no_digest, cr_object_key = [], cr_artifact_size = 0, cr_metadata = []\<rparr>"

definition sample_principal_rec :: principal_rec where
  "sample_principal_rec = \<lparr>pn_issuer = ''i'', pn_subject = ''s'', pn_audience = [], pn_workspace = ''w'', pn_scopes = [],
     pn_generation = 1, pn_subject_type = []\<rparr>"

definition sample_page :: search_page where
  "sample_page = \<lparr>pg_records = [sample_record ''b'', sample_record ''a''], pg_next = empty_cursor\<rparr>"

definition sample_env :: "(string \<Rightarrow> bool) \<Rightarrow> discovery_env" where
  "sample_env ok = \<lparr>de_search = (\<lambda>_. Some sample_page),
     de_decide = (\<lambda>p a r. Some \<lparr>dc_allowed = ok (ar_id r), dc_status = 0, dc_reason = []\<rparr>),
     de_metadata = (\<lambda>_. None), de_lexical = (\<lambda>_. None), de_hash = (\<lambda>_. []), de_lower = id, de_alnum = (\<lambda>_. False), de_canon = id\<rparr>"

definition sample_request :: "int \<Rightarrow> discovery_request" where
  "sample_request n = \<lparr>dr_principal = sample_principal_rec, dr_query = [], dr_kinds = [], dr_tags = [], dr_cursor = empty_cursor,
     dr_limit = 0, dr_max_bytes = n\<rparr>"

definition found_ids :: "discovery_error + discovery_response \<Rightarrow> string list" where
  "found_ids r = (case r of Inl _ \<Rightarrow> [] | Inr p \<Rightarrow> map (ar_id \<circ> cd_ref) (dp_candidates p))"


theorem discover_ignores_hidden_witness:
  "found_ids (answer_page (sample_env (\<lambda>i. i = ''a'')) (sample_request 1000\<lparr>dr_limit := 20\<rparr>) sample_page) = [''a'']
   \<and> answer_page (sample_env (\<lambda>i. i = ''a'')) (sample_request 1000) sample_page
     = answer_page (sample_env (\<lambda>i. i = ''a'')) (sample_request 1000) (sample_page\<lparr>pg_records := [sample_record ''a'']\<rparr>)"
proof
  show "found_ids (answer_page (sample_env (\<lambda>i. i = ''a'')) (sample_request 1000\<lparr>dr_limit := 20\<rparr>) sample_page) = [''a'']"
    by code_simp
  have "filter (record_visible (sample_env (\<lambda>i. i = ''a'')) (sample_request 1000)) (pg_records sample_page) = [sample_record ''a'']"
    by (simp add: sample_page_def record_visible_def sample_env_def sample_record_def sample_ref_def listed_state_def)
  then show "answer_page (sample_env (\<lambda>i. i = ''a'')) (sample_request 1000) sample_page
     = answer_page (sample_env (\<lambda>i. i = ''a'')) (sample_request 1000) (sample_page\<lparr>pg_records := [sample_record ''a'']\<rparr>)"
    using discover_ignores_hidden [of sample_page "sample_request 1000" "sample_env (\<lambda>i. i = ''a'')"]
    by (simp add: sample_page_def sample_request_def sample_env_def sample_record_def sample_ref_def sample_principal_rec_def)
qed

lemma discover_next_cursor:
  assumes "discover env now rq = Inr resp"
  shows "\<exists>rq' page. de_search env rq' = Some page
     \<and> dp_next resp = (if cu_id (pg_next page) \<noteq> [] then Some (pg_next page) else None)"
proof -
  obtain rq' page where "de_search env rq' = Some page" "answer_page env rq' page = Inr resp"
    using assms by (auto simp: discover_def Let_def split: if_splits option.splits)
  then show ?thesis
    by (intro exI [of _ rq'] exI [of _ page])
      (auto simp: answer_page_def split: sum.splits dest!: shrink_response_spec)
qed

text \<open>A candidate left out because the response would exceed the byte budget is lost to pagination: the
  next cursor is the catalog's, past the whole page, or absent. Here the budget holds one of two visible
  candidates, and the answer says there is no next page.\<close>

theorem discover_loses_candidates:
  "found_ids (discover (sample_env (\<lambda>_. True)) 0 (sample_request 300)) = [''a'']
   \<and> found_ids (discover (sample_env (\<lambda>_. True)) 0 (sample_request 1000)) = [''a'', ''b'']
   \<and> (\<forall>env now rq. case discover env now rq of Inl _ \<Rightarrow> True
        | Inr resp \<Rightarrow> \<exists>rq' page. de_search env rq' = Some page
          \<and> dp_next resp = (if cu_id (pg_next page) \<noteq> [] then Some (pg_next page) else None))"
proof (intro conjI allI)
  fix env now rq
  show "case discover env now rq of Inl _ \<Rightarrow> True
      | Inr resp \<Rightarrow> \<exists>rq' page. de_search env rq' = Some page
          \<and> dp_next resp = (if cu_id (pg_next page) \<noteq> [] then Some (pg_next page) else None)"
  proof (cases "discover env now rq")
    case (Inr resp)
    show ?thesis unfolding Inr sum.case by (rule discover_next_cursor [OF Inr])
  qed (simp only: sum.case)
qed code_simp+

end
