(* ===== verification/Schema.thy ===== *)
theory Schema
  imports Complex_Main GoStrings
begin

text \<open>
  \<open>catalog/composition/schema.go\<close>: the closed, bounded schema subset of portable recipes, the check of
  a schema, JSON pointers into one, assignability of one schema to another and the check of a decoded
  value. Errors carry their message; \<open>Inr\<close> is the nil error. A Go map is an association list without
  repeated keys. A value is what \<open>json.Decoder\<close> with \<open>UseNumber\<close> yields, a number being its literal.
\<close>

datatype schema = Schema (sch_type: string) (sch_properties: "(string \<times> schema) list") (sch_required: "string list")
  (sch_additional: "bool option") (sch_items: "schema option") (sch_max_items: int) (sch_max_length: int)

definition zero_schema :: schema where
  "zero_schema = Schema [] [] [] None None 0 0"

definition property_of :: "schema \<Rightarrow> string \<Rightarrow> schema" where
  "property_of s k = (case map_of (sch_properties s) k of None \<Rightarrow> zero_schema | Some p \<Rightarrow> p)"

text \<open>The loop over \<open>Required\<close> with its map of keys seen.\<close>

fun required_ok :: "(string \<times> schema) list \<Rightarrow> string list \<Rightarrow> string list \<Rightarrow> bool" where
  "required_ok props seen [] = True"
| "required_ok props seen (k # ks) =
     (if map_of props k = None \<or> k \<in> set seen then False else required_ok props (k # seen) ks)"

text \<open>The counter \<open>n\<close> is threaded through the walk; the second function is the loop over the properties.\<close>

fun schema_valid :: "schema \<Rightarrow> nat \<Rightarrow> nat \<Rightarrow> string + nat"
  and properties_valid :: "(string \<times> schema) list \<Rightarrow> nat \<Rightarrow> nat \<Rightarrow> string + nat" where
  "schema_valid (Schema ty props req add items max_items max_len) depth n0 =
     (let n = n0 + 1 in
      if depth > 16 \<or> n > 4096 then Inl ''schema complexity limit''
      else if ty \<noteq> ''object'' \<and> (props \<noteq> [] \<or> req \<noteq> [] \<or> add \<noteq> None) then Inl ''object keywords on non-object''
      else if ty \<noteq> ''array'' \<and> (items \<noteq> None \<or> max_items \<noteq> 0) then Inl ''array keywords on non-array''
      else if ty \<noteq> ''string'' \<and> max_len \<noteq> 0 then Inl ''string bound on non-string''
      else if ty = ''object'' then
        (if add \<noteq> Some False then Inl ''objects must be explicitly closed''
         else if \<not> required_ok props [] req then Inl ''invalid required property''
         else properties_valid props (depth + 1) n)
      else if ty = ''array'' then
        (if max_items < 1 \<or> max_items > 1024 then Inl ''bounded array required''
         else (case items of None \<Rightarrow> Inl ''bounded array required'' | Some it \<Rightarrow> schema_valid it (depth + 1) n))
      else if ty = ''string'' then
        (if max_len < 1 \<or> max_len > 2 ^ 20 then Inl ''bounded string required'' else Inr n)
      else if ty = ''boolean'' \<or> ty = ''integer'' \<or> ty = ''number'' then Inr n
      else Inl ''unsupported schema type'')"
| "properties_valid [] depth n = Inr n"
| "properties_valid ((k, p) # ps) depth n =
     (if k = [] \<or> length k > 256 then Inl ''invalid property''
      else (case schema_valid p depth n of Inl e \<Rightarrow> Inl e | Inr n' \<Rightarrow> properties_valid ps depth n'))"

subsection \<open>Pointers\<close>

fun unescape :: "string \<Rightarrow> string option" where
  "unescape [] = Some []"
| "unescape (c # cs) =
     (if c = CHR ''~'' then
        (case cs of
           [] \<Rightarrow> None
         | d # ds \<Rightarrow>
             if d = CHR ''0'' then map_option (Cons (CHR ''~'')) (unescape ds)
             else if d = CHR ''1'' then map_option (Cons (CHR ''/'')) (unescape ds)
             else None)
      else map_option (Cons c) (unescape cs))"

fun unescape_all :: "string list \<Rightarrow> string list option" where
  "unescape_all [] = Some []"
| "unescape_all (s # ss) = (case unescape s of None \<Rightarrow> None | Some t \<Rightarrow> map_option (Cons t) (unescape_all ss))"

definition pointer :: "string \<Rightarrow> string + string list" where
  "pointer p =
     (if p = [] then Inr []
      else if length p > 1024 \<or> \<not> go_has_prefix p ''/'' then Inl ''invalid JSON pointer''
      else (let parts = go_split (tl p) ''/'' in
            if length parts > 16 then Inl ''pointer depth limit''
            else (case unescape_all parts of None \<Rightarrow> Inl ''invalid pointer escape'' | Some ps \<Rightarrow> Inr ps)))"

fun at_parts :: "schema \<Rightarrow> string list \<Rightarrow> string + schema" where
  "at_parts s [] = Inr s"
| "at_parts s (k # ks) =
     (if sch_type s \<noteq> ''object'' \<or> k \<notin> set (sch_required s) then Inl ''pointer source is not guaranteed present''
      else at_parts (property_of s k) ks)"

definition at_pointer :: "schema \<Rightarrow> string \<Rightarrow> string + schema" where
  "at_pointer s p = (case pointer p of Inl e \<Rightarrow> Inl e | Inr ks \<Rightarrow> at_parts s ks)"

subsection \<open>Assignability\<close>

lemma property_size: "map_of props k = Some p \<Longrightarrow> size p < size (Schema ty props req add items mi ml)"
  by (induction props) (auto split: if_splits)

function assignable :: "schema \<Rightarrow> schema \<Rightarrow> bool" where
  "assignable src dst =
     (if sch_type src \<noteq> sch_type dst then False
      else if sch_type src = ''string'' then sch_max_length src \<le> sch_max_length dst
      else if sch_type src = ''array'' then
        sch_max_items src \<le> sch_max_items dst
        \<and> (case sch_items src of None \<Rightarrow> False | Some a \<Rightarrow>
             (case sch_items dst of None \<Rightarrow> False | Some b \<Rightarrow> assignable a b))
      else if sch_type src = ''object'' then
        list_all (\<lambda>k. k \<in> set (sch_required src)) (sch_required dst)
        \<and> list_all (\<lambda>(k, s). case map_of (sch_properties dst) k of None \<Rightarrow> False | Some d \<Rightarrow> assignable s d)
            (sch_properties src)
      else True)"
  by pat_completeness auto

lemma member_size: "(k, p) \<in> set (sch_properties s) \<Longrightarrow> size p < size s"
proof -
  have "(k, p) \<in> set props \<Longrightarrow> size p < Suc (size_list (size_prod (\<lambda>_. 0) size) props)" for props
    by (induction props) auto
  then show "(k, p) \<in> set (sch_properties s) \<Longrightarrow> size p < size s" by (cases s) fastforce
qed

lemma items_size: "sch_items s = Some a \<Longrightarrow> size a < size s"
  by (cases s) auto

termination assignable
  by (relation "measure (\<lambda>(s, d). size s)") (auto simp: items_size member_size)

declare assignable.simps [simp del]

subsection \<open>Values\<close>

datatype jvalue = VNull | VBool bool | VNumber string | VString string | VArray "jvalue list"
  | VObject "(string \<times> jvalue) list"

definition digit_value :: "string \<Rightarrow> int" where
  "digit_value ds = foldl (\<lambda>n c. 10 * n + (int (byte c) - 48)) 0 ds"

definition is_digit :: "char \<Rightarrow> bool" where
  "is_digit c \<longleftrightarrow> 48 \<le> byte c \<and> byte c \<le> 57"

text \<open>A JSON number literal: sign, integer digits, fraction digits and exponent.\<close>

definition number_exponent :: "string \<Rightarrow> int" where
  "number_exponent s =
     (case dropWhile (\<lambda>c. c \<noteq> CHR ''e'' \<and> c \<noteq> CHR ''E'') s of
        [] \<Rightarrow> 0
      | _ # e \<Rightarrow> (case e of
            [] \<Rightarrow> 0
          | c # ds \<Rightarrow> if c = CHR ''-'' then - digit_value ds else if c = CHR ''+'' then digit_value ds else digit_value e))"

definition number_value :: "string \<Rightarrow> rat" where
  "number_value s =
     (let m = takeWhile (\<lambda>c. c \<noteq> CHR ''e'' \<and> c \<noteq> CHR ''E'') s;
          u = (if go_has_prefix m ''-'' then tl m else m);
          i = takeWhile is_digit u;
          f = takeWhile is_digit (drop (length i + 1) u);
          n = of_int (digit_value (i @ f)) / 10 ^ length f;
          e = number_exponent s;
          v = (if e \<ge> 0 then n * 10 ^ nat e else n / 10 ^ nat (- e))
      in if go_has_prefix m ''-'' then - v else v)"

text \<open>\<open>strconv.ParseFloat\<close> fails where the nearest double is infinite.\<close>

definition float_overflow :: rat where
  "float_overflow = 2 ^ 1024 - 2 ^ 970"

definition number_ok :: "string \<Rightarrow> bool \<Rightarrow> bool" where
  "number_ok x integer =
     (if length x > 128 then False
      else if \<bar>number_value x\<bar> \<ge> float_overflow then False
      else if integer then \<bar>number_exponent x\<bar> \<le> 1024 \<and> snd (quotient_of (number_value x)) = 1
      else True)"

definition rune_count :: "string \<Rightarrow> nat" where
  "rune_count s = length (go_runes s)"

text \<open>\<open>value\<close> is only reached with valid schemas, where an array has items.\<close>

function value_ok :: "schema \<Rightarrow> jvalue \<Rightarrow> bool" where
  "value_ok s v =
     (if sch_type s = ''object'' then
        (case v of
           VObject m \<Rightarrow>
             list_all (\<lambda>k. k \<in> fst ` set m) (sch_required s)
             \<and> list_all (\<lambda>(k, w). case map_of (sch_properties s) k of None \<Rightarrow> False | Some p \<Rightarrow> value_ok p w) m
         | _ \<Rightarrow> False)
      else if sch_type s = ''array'' then
        (case v of
           VArray a \<Rightarrow> int (length a) \<le> sch_max_items s
             \<and> list_all (\<lambda>w. case sch_items s of None \<Rightarrow> False | Some it \<Rightarrow> value_ok it w) a
         | _ \<Rightarrow> False)
      else if sch_type s = ''string'' then
        (case v of VString x \<Rightarrow> int (rune_count x) \<le> sch_max_length s | _ \<Rightarrow> False)
      else if sch_type s = ''boolean'' then (case v of VBool _ \<Rightarrow> True | _ \<Rightarrow> False)
      else if sch_type s = ''number'' \<or> sch_type s = ''integer'' then
        (case v of VNumber x \<Rightarrow> number_ok x (sch_type s = ''integer'') | _ \<Rightarrow> False)
      else False)"
  by pat_completeness auto

lemma array_member_size: "w \<in> set a \<Longrightarrow> size w < size (VArray a)"
  by (induction a) auto

lemma object_member_size: "(k, w) \<in> set m \<Longrightarrow> size w < size (VObject m)"
  by (induction m) auto

termination value_ok
  by (relation "measure (\<lambda>(s, v). size v)") (auto dest: array_member_size object_member_size)

declare value_ok.simps [simp del]

subsection \<open>Soundness of assignability and of pointers\<close>

lemma case_option_ex: "(case x of None \<Rightarrow> False | Some d \<Rightarrow> P d) \<longleftrightarrow> (\<exists>d. x = Some d \<and> P d)"
  by (cases x) auto

lemma value_ok_type: "value_ok s v \<Longrightarrow> sch_type s \<in> {''object'', ''array'', ''string'', ''boolean'', ''number'', ''integer''}"
  by (subst (asm) value_ok.simps) (auto split: if_splits)

lemma value_ok_object:
  "sch_type s = ''object'' \<Longrightarrow> value_ok s v \<longleftrightarrow> (\<exists>m. v = VObject m \<and> set (sch_required s) \<subseteq> fst ` set m
     \<and> (\<forall>(k, w) \<in> set m. \<exists>p. map_of (sch_properties s) k = Some p \<and> value_ok p w))"
  by (subst value_ok.simps) (auto simp: list_all_iff split: jvalue.split option.splits)

lemma value_ok_array:
  "sch_type s = ''array'' \<Longrightarrow> value_ok s v \<longleftrightarrow> (\<exists>a. v = VArray a \<and> int (length a) \<le> sch_max_items s
     \<and> (\<forall>w \<in> set a. \<exists>it. sch_items s = Some it \<and> value_ok it w))"
  by (subst value_ok.simps) (auto simp: list_all_iff split: jvalue.split option.splits)

lemma value_ok_string:
  "sch_type s = ''string'' \<Longrightarrow> value_ok s v \<longleftrightarrow> (\<exists>x. v = VString x \<and> int (rune_count x) \<le> sch_max_length s)"
  by (subst value_ok.simps) (auto split: jvalue.split)

lemma value_ok_scalar:
  "sch_type s = sch_type d \<Longrightarrow> sch_type s \<notin> {''object'', ''array'', ''string''} \<Longrightarrow> value_ok s v = value_ok d v"
  unfolding value_ok.simps [of s v] value_ok.simps [of d v] by (cases v) simp_all

lemma assignable_object:
  "sch_type src = ''object'' \<Longrightarrow> assignable src dst \<longleftrightarrow> sch_type dst = ''object''
     \<and> set (sch_required dst) \<subseteq> set (sch_required src)
     \<and> (\<forall>(k, s) \<in> set (sch_properties src). \<exists>d. map_of (sch_properties dst) k = Some d \<and> assignable s d)"
  by (subst assignable.simps) (auto simp: list_all_iff case_option_ex)

lemma assignable_sound: "assignable src dst \<Longrightarrow> value_ok src v \<Longrightarrow> value_ok dst v"
proof (induction src dst arbitrary: v rule: assignable.induct)
  case (1 src dst)
  have ty: "sch_type src = sch_type dst" using "1.prems"(1) by (subst (asm) assignable.simps) (simp split: if_splits)
  consider "sch_type src = ''object''" | "sch_type src = ''array''" | "sch_type src = ''string''"
    | "sch_type src \<notin> {''object'', ''array'', ''string''}" by blast
  then show ?case
  proof cases
    case 1
    note obj = this
    obtain m where m: "v = VObject m" "set (sch_required src) \<subseteq> fst ` set m"
      "\<forall>(k, w) \<in> set m. \<exists>p. map_of (sch_properties src) k = Some p \<and> value_ok p w"
      using "1.prems"(2) value_ok_object [OF obj] by blast
    have as: "set (sch_required dst) \<subseteq> set (sch_required src)"
      "\<forall>(k, s) \<in> set (sch_properties src). \<exists>d. map_of (sch_properties dst) k = Some d \<and> assignable s d"
      using "1.prems"(1) assignable_object [OF obj] by blast+
    have "\<exists>d. map_of (sch_properties dst) k = Some d \<and> value_ok d w" if kw: "(k, w) \<in> set m" for k w
    proof -
      obtain p where p: "map_of (sch_properties src) k = Some p" "value_ok p w" using m(3) kw by blast
      then have mem: "(k, p) \<in> set (sch_properties src)" by (meson map_of_SomeD)
      then obtain d where d: "map_of (sch_properties dst) k = Some d" "assignable p d" using as(2) by blast
      have "value_ok d w"
        using "1.IH"(2) [OF _ _ _ _ mem, of k p d] ty obj d p by simp
      with d show ?thesis by blast
    qed
    then show ?thesis using m as(1) ty obj by (subst value_ok_object) auto
  next
    case 2
    note arr = this
    obtain a where a: "v = VArray a" "int (length a) \<le> sch_max_items src"
      "\<forall>w \<in> set a. \<exists>it. sch_items src = Some it \<and> value_ok it w"
      using "1.prems"(2) value_ok_array [OF arr] by blast
    obtain i j where ij: "sch_items src = Some i" "sch_items dst = Some j" "assignable i j" "sch_max_items src \<le> sch_max_items dst"
      using "1.prems"(1) arr ty by (subst (asm) assignable.simps) (auto split: option.splits)
    have "value_ok j w" if "w \<in> set a" for w
      using that a(3) ij "1.IH"(1) [of i j w] arr ty by auto
    then show ?thesis using a ij arr ty by (subst value_ok_array) auto
  next
    case 3
    then have "sch_max_length src \<le> sch_max_length dst"
      using "1.prems"(1) ty by (subst (asm) assignable.simps) simp
    with 3 "1.prems"(2) ty show ?thesis by (auto simp: value_ok_string)
  next
    case 4
    with "1.prems"(2) value_ok_scalar [OF ty] show ?thesis by blast
  qed
qed

fun lookup_value :: "jvalue \<Rightarrow> string list \<Rightarrow> jvalue option" where
  "lookup_value v [] = Some v"
| "lookup_value v (k # ks) =
     (case v of VObject m \<Rightarrow> (case map_of m k of None \<Rightarrow> None | Some w \<Rightarrow> lookup_value w ks) | _ \<Rightarrow> None)"

lemma at_parts_sound:
  "value_ok s v \<Longrightarrow> at_parts s ks = Inr s' \<Longrightarrow> \<exists>w. lookup_value v ks = Some w \<and> value_ok s' w"
proof (induction s ks arbitrary: v rule: at_parts.induct)
  case (2 s k ks)
  then have obj: "sch_type s = ''object''" and k: "k \<in> set (sch_required s)"
    and rest: "at_parts (property_of s k) ks = Inr s'" by (auto split: if_splits)
  obtain m where m: "v = VObject m" "set (sch_required s) \<subseteq> fst ` set m"
    "\<forall>(k, w) \<in> set m. \<exists>p. map_of (sch_properties s) k = Some p \<and> value_ok p w"
    using "2.prems"(1) value_ok_object [OF obj] by blast
  then obtain w where w: "map_of m k = Some w"
    using k by (metis map_of_eq_None_iff not_None_eq subsetD)
  then have "(k, w) \<in> set m" by (rule map_of_SomeD)
  then obtain p where "map_of (sch_properties s) k = Some p" "value_ok p w" using m(3) by blast
  then have "value_ok (property_of s k) w" by (simp add: property_of_def)
  then show ?case using 2 obj k rest m(1) w by auto
qed simp

end
