(* ===== verification/Composition.thy ===== *)
theory Composition
  imports Schema
begin

text \<open>
  \<open>catalog/composition/types.go\<close> and \<open>validate.go\<close>: portable recipes (a graph of tool calls with typed
  dataflow between them), their validation, and the runtime accounting of a recipe. Errors carry their
  message; \<open>None\<close> is the nil error. Parameters: the hash of bytes and the JSON decoding of a contract.
\<close>

record recipe_limits =
  li_max_steps :: int
  li_max_iterations :: int
  li_max_calls :: int
  li_max_input_bytes :: int
  li_max_output_bytes :: int
  li_max_guide_bytes :: int

record requirement =
  rq_key :: string
  rq_capability :: string
  rq_contract_version :: string
  rq_contract_digest :: string
  rq_optional :: bool

record req_group =
  gr_id :: string
  gr_requirements :: "string list"

record data_source =
  so_step :: string
  so_pointer :: string

record iteration =
  it_step :: string
  it_pointer :: string
  it_max :: int

record recipe_step =
  st_id :: string
  st_requirement :: string
  st_after :: "string list"
  st_inputs :: "(string \<times> data_source) list"
  st_foreach :: "iteration option"

record recipe =
  rc_schema_version :: string
  rc_skill_id :: string
  rc_skill_version :: string
  rc_requirements :: "requirement list"
  rc_groups :: "req_group list"
  rc_task_schema :: schema
  rc_steps :: "recipe_step list"
  rc_limits :: recipe_limits

record contract =
  ct_id :: string
  ct_version :: string
  ct_input :: schema
  ct_output :: schema
  ct_bytes :: string

definition identifier_ok :: "string \<Rightarrow> bool \<Rightarrow> bool" where
  "identifier_ok s slash \<longleftrightarrow>
     \<not> (s = [] \<or> length s > 256) \<and>
     list_all (\<lambda>(r, _). (97 \<le> r \<and> r \<le> 122) \<or> (65 \<le> r \<and> r \<le> 90) \<or> (48 \<le> r \<and> r \<le> 57) \<or> r = 46 \<or> r = 95 \<or> r = 45
        \<or> (slash \<and> r = 47)) (go_runes s)"

text \<open>A digest is the lower-case hex form of 32 bytes.\<close>

definition digest_valid :: "string \<Rightarrow> bool" where
  "digest_valid s \<longleftrightarrow> length s = 64 \<and> list_all is_lower_hex s"

definition valid_limits :: "recipe_limits \<Rightarrow> bool" where
  "valid_limits l \<longleftrightarrow> li_max_steps l > 0 \<and> li_max_steps l \<le> 64 \<and> li_max_iterations l > 0 \<and> li_max_iterations l \<le> 20
     \<and> li_max_calls l > 0 \<and> li_max_calls l \<le> 128 \<and> li_max_input_bytes l > 0 \<and> li_max_input_bytes l \<le> 2 ^ 20
     \<and> li_max_output_bytes l > 0 \<and> li_max_output_bytes l \<le> 4 * 2 ^ 20
     \<and> li_max_guide_bytes l > 0 \<and> li_max_guide_bytes l \<le> 64 * 2 ^ 10"

text \<open>The environment of a validation: the digest of bytes, and the JSON decoding of a contract into its
  identity, version and two schemas.\<close>

record validation_env =
  ve_hash :: "string \<Rightarrow> string"
  ve_decode :: "string \<Rightarrow> (string \<times> string \<times> schema \<times> schema) option"

text \<open>\<open>ParseContract\<close>: the two schemas share one complexity counter.\<close>

definition parse_contract :: "(string \<Rightarrow> (string \<times> string \<times> schema \<times> schema) option) \<Rightarrow> string \<Rightarrow> string + contract" where
  "parse_contract decode b =
     (case decode b of
        None \<Rightarrow> Inl ''decode''
      | Some (i, v, inp, outp) \<Rightarrow> (case schema_valid inp 0 0 of
            Inl e \<Rightarrow> Inl e
          | Inr n \<Rightarrow> (case schema_valid outp 0 n of
                Inl e \<Rightarrow> Inl e
              | Inr _ \<Rightarrow>
                  if \<not> identifier_ok i True \<or> \<not> identifier_ok v False \<or> sch_type inp \<noteq> ''object''
                    \<or> sch_type outp \<noteq> ''object'' then Inl ''invalid contract identity or root''
                  else Inr \<lparr>ct_id = i, ct_version = v, ct_input = inp, ct_output = outp, ct_bytes = b\<rparr>)))"

text \<open>\<open>equal\<close> compares the JSON encodings, in which the keys of a map are sorted: two schemas are equal up
  to the order of their properties. The bytes of a parsed contract are those it was parsed from.\<close>

function same_schema :: "schema \<Rightarrow> schema \<Rightarrow> bool" where
  "same_schema a b \<longleftrightarrow>
     sch_type a = sch_type b \<and> sch_required a = sch_required b \<and> sch_additional a = sch_additional b
     \<and> sch_max_items a = sch_max_items b \<and> sch_max_length a = sch_max_length b
     \<and> (case sch_items a of None \<Rightarrow> sch_items b = None
        | Some i \<Rightarrow> (case sch_items b of None \<Rightarrow> False | Some j \<Rightarrow> same_schema i j))
     \<and> length (sch_properties a) = length (sch_properties b)
     \<and> list_all (\<lambda>(k, p). case map_of (sch_properties b) k of None \<Rightarrow> False | Some q \<Rightarrow> same_schema p q) (sch_properties a)"
  by pat_completeness auto

termination same_schema
  by (relation "measure (\<lambda>(s, d). size s)") (auto simp: items_size member_size)

declare same_schema.simps [simp del]

definition same_contract :: "contract \<Rightarrow> contract \<Rightarrow> bool" where
  "same_contract a b \<longleftrightarrow> ct_id a = ct_id b \<and> ct_version a = ct_version b \<and> same_schema (ct_input a) (ct_input b)
     \<and> same_schema (ct_output a) (ct_output b) \<and> ct_bytes a = ct_bytes b"

definition capability_pin :: "requirement \<Rightarrow> string" where
  "capability_pin r = rq_capability r @ ''@'' @ rq_contract_version r"

text \<open>The loops over the requirements, the groups and the steps, with the maps they build.\<close>

fun requirements_error ::
  "validation_env \<Rightarrow> (string \<rightharpoonup> contract) \<Rightarrow> requirement list \<Rightarrow> requirement list \<Rightarrow> string option" where
  "requirements_error env cs seen [] = None"
| "requirements_error env cs seen (r # rs) =
     (if \<not> identifier_ok (rq_key r) False \<or> \<not> identifier_ok (rq_capability r) True \<or> \<not> identifier_ok (rq_contract_version r) False
        \<or> \<not> digest_valid (rq_contract_digest r) \<or> rq_key r \<in> rq_key ` set seen \<or> capability_pin r \<in> capability_pin ` set seen
      then Some ''duplicate or invalid requirement''
      else (case cs (rq_key r) of
          None \<Rightarrow> Some ''contract identity or digest mismatch''
        | Some c \<Rightarrow>
            if ct_id c \<noteq> rq_capability r \<or> ct_version c \<noteq> rq_contract_version r \<or> ve_hash env (ct_bytes c) \<noteq> rq_contract_digest r
            then Some ''contract identity or digest mismatch''
            else (case parse_contract (ve_decode env) (ct_bytes c) of
                Inl e \<Rightarrow> Some e
              | Inr checked \<Rightarrow> if \<not> same_contract checked c then Some ''contract schema differs from pinned bytes''
                  else requirements_error env cs (r # seen) rs)))"

fun group_members_error :: "string list \<Rightarrow> string list \<Rightarrow> string list \<Rightarrow> string + string list" where
  "group_members_error keys grouped [] = Inr grouped"
| "group_members_error keys grouped (k # ks) =
     (if k \<notin> set keys \<or> k \<in> set grouped then Inl ''missing or overlapping group requirement''
      else group_members_error keys (k # grouped) ks)"

fun groups_error :: "string list \<Rightarrow> string list \<Rightarrow> string list \<Rightarrow> req_group list \<Rightarrow> string option" where
  "groups_error keys seen grouped [] = None"
| "groups_error keys seen grouped (g # gs) =
     (if \<not> identifier_ok (gr_id g) False \<or> gr_id g \<in> set seen \<or> length (gr_requirements g) < 2 \<or> length (gr_requirements g) > 64
      then Some ''invalid connection group''
      else (case group_members_error keys grouped (gr_requirements g) of
          Inl e \<Rightarrow> Some e | Inr grouped' \<Rightarrow> groups_error keys (gr_id g # seen) grouped' gs))"

fun steps_error :: "string list \<Rightarrow> string list \<Rightarrow> recipe_step list \<Rightarrow> string option" where
  "steps_error keys seen [] = None"
| "steps_error keys seen (s # ss) =
     (if \<not> identifier_ok (st_id s) False \<or> st_id s = ''$item'' \<or> st_id s \<in> set seen \<or> length (st_after s) > 64
        \<or> length (st_inputs s) > 64 then Some ''invalid or duplicate step''
      else if st_requirement s \<notin> set keys then Some ''unknown step requirement''
      else steps_error keys (st_id s # seen) ss)"

definition step_map :: "recipe_step list \<Rightarrow> string \<rightharpoonup> recipe_step" where
  "step_map ss = map_of (map (\<lambda>s. (st_id s, s)) ss)"

definition requirement_map :: "requirement list \<Rightarrow> string \<rightharpoonup> requirement" where
  "requirement_map rs = map_of (map (\<lambda>r. (rq_key r, r)) rs)"

definition is_optional :: "(string \<rightharpoonup> requirement) \<Rightarrow> string \<Rightarrow> bool" where
  "is_optional reqs k = (case reqs k of None \<Rightarrow> False | Some r \<Rightarrow> rq_optional r)"

text \<open>The depth-first search for cycles: \<open>visit\<close> and its loop over the predecessors, with the colour map
  \<open>state\<close> (0 new, 1 open, 2 done). The first argument bounds the recursion depth; one more than the number
  of steps is never used up, as shown below.\<close>

fun visit :: "nat \<Rightarrow> (string \<rightharpoonup> recipe_step) \<Rightarrow> (string \<rightharpoonup> requirement) \<Rightarrow> string \<Rightarrow> (string \<Rightarrow> nat) \<Rightarrow> string + (string \<Rightarrow> nat)"
  and visit_all :: "nat \<Rightarrow> (string \<rightharpoonup> recipe_step) \<Rightarrow> (string \<rightharpoonup> requirement) \<Rightarrow> recipe_step \<Rightarrow> string list \<Rightarrow> string list
     \<Rightarrow> (string \<Rightarrow> nat) \<Rightarrow> string + (string \<Rightarrow> nat)" where
  "visit 0 steps reqs i state = Inl ''depth''"
| "visit (Suc n) steps reqs i state =
     (if state i = 1 then Inl ''cycle''
      else if state i = 2 then Inr state
      else (case steps i of
          None \<Rightarrow> Inr (state(i := 2))
        | Some s \<Rightarrow> (case visit_all n steps reqs s [] (st_after s) (state(i := 1)) of
              Inl e \<Rightarrow> Inl e | Inr state' \<Rightarrow> Inr (state'(i := 2)))))"
| "visit_all n steps reqs s seen [] state = Inr state"
| "visit_all n steps reqs s seen (p # ps) state =
     (case steps p of
        None \<Rightarrow> Inl ''unknown or duplicate predecessor''
      | Some q \<Rightarrow>
          if p \<in> set seen then Inl ''unknown or duplicate predecessor''
          else if is_optional reqs (st_requirement q) \<and> \<not> is_optional reqs (st_requirement s)
          then Inl ''required step depends on optional step''
          else (case visit n steps reqs p state of
              Inl e \<Rightarrow> Inl e | Inr state' \<Rightarrow> visit_all n steps reqs s (p # seen) ps state'))"

text \<open>The schema a source of data has: the task's, or that of an output of a predecessor.\<close>

definition output_schema :: "(string \<rightharpoonup> contract) \<Rightarrow> (string \<rightharpoonup> recipe_step) \<Rightarrow> string \<Rightarrow> schema" where
  "output_schema cs steps i =
     (case steps i of None \<Rightarrow> zero_schema
      | Some s \<Rightarrow> (case cs (st_requirement s) of None \<Rightarrow> zero_schema | Some c \<Rightarrow> ct_output c))"

definition source_schema ::
  "schema \<Rightarrow> (string \<rightharpoonup> contract) \<Rightarrow> (string \<rightharpoonup> recipe_step) \<Rightarrow> recipe_step \<Rightarrow> string \<Rightarrow> string \<Rightarrow> string + schema" where
  "source_schema task cs steps s i p =
     (if i = [] then at_pointer task p
      else if i \<notin> set (st_after s) then Inl ''source not a predecessor''
      else at_pointer (output_schema cs steps i) p)"

definition iterates :: "(string \<rightharpoonup> recipe_step) \<Rightarrow> string \<Rightarrow> bool" where
  "iterates steps i = (case steps i of None \<Rightarrow> False | Some s \<Rightarrow> st_foreach s \<noteq> None)"

definition foreach_item ::
  "schema \<Rightarrow> (string \<rightharpoonup> contract) \<Rightarrow> (string \<rightharpoonup> recipe_step) \<Rightarrow> recipe_limits \<Rightarrow> recipe_step \<Rightarrow> iteration \<Rightarrow> string + schema option" where
  "foreach_item task cs steps l s f =
     (if it_step f = [] \<or> it_max f < 1 \<or> it_max f > li_max_iterations l then Inl ''invalid foreach''
      else (case source_schema task cs steps s (it_step f) (it_pointer f) of
          Inl e \<Rightarrow> Inl e
        | Inr arr \<Rightarrow>
            if sch_type arr \<noteq> ''array'' \<or> sch_max_items arr > it_max f then Inl ''foreach bound cannot cover source array''
            else if iterates steps (it_step f) then Inl ''nested/aggregated iteration source unsupported''
            else Inr (sch_items arr)))"

fun inputs_error ::
  "schema \<Rightarrow> (string \<rightharpoonup> contract) \<Rightarrow> (string \<rightharpoonup> recipe_step) \<Rightarrow> recipe_step \<Rightarrow> schema option \<Rightarrow> contract
   \<Rightarrow> (string \<times> data_source) list \<Rightarrow> string option" where
  "inputs_error task cs steps s item c [] = None"
| "inputs_error task cs steps s item c ((k, m) # rest) =
     (case map_of (sch_properties (ct_input c)) k of
        None \<Rightarrow> Some ''unknown input property''
      | Some dst \<Rightarrow>
          (case (if so_step m = ''$item'' then
                   (case item of None \<Rightarrow> Inl ''item outside iteration'' | Some it \<Rightarrow> at_pointer it (so_pointer m))
                 else if so_step m \<noteq> [] \<and> iterates steps (so_step m)
                 then Inl ''iteration outputs cannot be consumed as scalar''
                 else source_schema task cs steps s (so_step m) (so_pointer m)) of
             Inl e \<Rightarrow> Some e
           | Inr src \<Rightarrow> if \<not> assignable src dst then Some ''incompatible dataflow types or bounds''
               else inputs_error task cs steps s item c rest))"

text \<open>One round of the loop over the steps after the visit: the calls and iterations it adds.\<close>

definition dataflow_step ::
  "recipe \<Rightarrow> (string \<rightharpoonup> contract) \<Rightarrow> (string \<rightharpoonup> recipe_step) \<Rightarrow> recipe_step \<Rightarrow> string + int \<times> int" where
  "dataflow_step d cs steps s =
     (case cs (st_requirement s) of
        None \<Rightarrow> Inl ''contract''
      | Some c \<Rightarrow>
          (case (case st_foreach s of
                   None \<Rightarrow> Inr (None, 1, 0)
                 | Some f \<Rightarrow> (case foreach_item (rc_task_schema d) cs steps (rc_limits d) s f of
                     Inl e \<Rightarrow> Inl e | Inr it \<Rightarrow> Inr (it, it_max f, it_max f))) of
             Inl e \<Rightarrow> Inl e
           | Inr (item, calls, iters) \<Rightarrow>
               if list_ex (\<lambda>k. k \<notin> fst ` set (st_inputs s)) (sch_required (ct_input c)) then Inl ''missing required input''
               else (case inputs_error (rc_task_schema d) cs steps s item c (st_inputs s) of
                   Some e \<Rightarrow> Inl e | None \<Rightarrow> Inr (calls, iters))))"

fun check_steps ::
  "recipe \<Rightarrow> (string \<rightharpoonup> contract) \<Rightarrow> (string \<rightharpoonup> recipe_step) \<Rightarrow> (string \<rightharpoonup> requirement) \<Rightarrow> (string \<Rightarrow> nat) \<Rightarrow> int \<Rightarrow> int
   \<Rightarrow> recipe_step list \<Rightarrow> string + int \<times> int" where
  "check_steps d cs steps reqs state calls iters [] = Inr (calls, iters)"
| "check_steps d cs steps reqs state calls iters (s # ss) =
     (case visit (Suc (length (rc_steps d))) steps reqs (st_id s) state of
        Inl e \<Rightarrow> Inl e
      | Inr state' \<Rightarrow> (case dataflow_step d cs steps s of
            Inl e \<Rightarrow> Inl e
          | Inr (c, i) \<Rightarrow> check_steps d cs steps reqs state' (calls + c) (iters + i) ss))"

definition recipe_version :: string where
  "recipe_version = ''gist.composition/v1''"

definition validate :: "validation_env \<Rightarrow> recipe \<Rightarrow> (string \<rightharpoonup> contract) \<Rightarrow> string option" where
  "validate env d cs =
     (if rc_schema_version d \<noteq> recipe_version \<or> \<not> identifier_ok (rc_skill_id d) True \<or> \<not> identifier_ok (rc_skill_version d) False
      then Some ''unsupported version or skill identity''
      else if \<not> valid_limits (rc_limits d) \<or> length (rc_requirements d) < 1 \<or> length (rc_requirements d) > 64
        \<or> length (rc_steps d) < 1 \<or> int (length (rc_steps d)) > li_max_steps (rc_limits d) \<or> length (rc_groups d) > 32
      then Some ''structure/limit bounds''
      else (case schema_valid (rc_task_schema d) 0 0 of
          Inl e \<Rightarrow> Some e
        | Inr _ \<Rightarrow>
            if sch_type (rc_task_schema d) \<noteq> ''object'' then Some ''task must be an object''
            else (case requirements_error env cs [] (rc_requirements d) of
                Some e \<Rightarrow> Some e
              | None \<Rightarrow>
                  (let keys = map rq_key (rc_requirements d) in
                   case groups_error keys [] [] (rc_groups d) of
                     Some e \<Rightarrow> Some e
                   | None \<Rightarrow> (case steps_error keys [] (rc_steps d) of
                         Some e \<Rightarrow> Some e
                       | None \<Rightarrow>
                           if list_ex (\<lambda>k. k \<notin> st_requirement ` set (rc_steps d)) keys then Some ''unused requirement''
                           else (case check_steps d cs (step_map (rc_steps d)) (requirement_map (rc_requirements d))
                                        (\<lambda>_. 0) 0 0 (rc_steps d) of
                               Inl e \<Rightarrow> Some e
                             | Inr (calls, iters) \<Rightarrow>
                                 if calls > li_max_calls (rc_limits d) \<or> iters > li_max_iterations (rc_limits d)
                                 then Some ''recipe exceeds call/iteration budget'' else None))))))"

subsection \<open>The search for cycles\<close>

text \<open>A graph of steps is well formed when every predecessor is a step, is named once, is not optional
  where its successor is required, and comes before it in some numbering.\<close>

definition graph_ok :: "(string \<rightharpoonup> recipe_step) \<Rightarrow> (string \<rightharpoonup> requirement) \<Rightarrow> (string \<Rightarrow> nat) \<Rightarrow> recipe_step \<Rightarrow> bool" where
  "graph_ok steps reqs rank s \<longleftrightarrow> distinct (st_after s) \<and>
     (\<forall>p \<in> set (st_after s). \<exists>q. steps p = Some q \<and> rank p < rank (st_id s)
        \<and> \<not> (is_optional reqs (st_requirement q) \<and> \<not> is_optional reqs (st_requirement s)))"

definition done_ok :: "(string \<rightharpoonup> recipe_step) \<Rightarrow> (string \<rightharpoonup> requirement) \<Rightarrow> (string \<Rightarrow> nat) \<Rightarrow> (string \<Rightarrow> nat) \<Rightarrow> bool" where
  "done_ok steps reqs rank state \<longleftrightarrow>
     (\<forall>i s. state i = 2 \<longrightarrow> steps i = Some s \<longrightarrow> graph_ok steps reqs rank s \<and> (\<forall>p \<in> set (st_after s). state p = 2))"

definition own_ids :: "(string \<rightharpoonup> recipe_step) \<Rightarrow> bool" where
  "own_ids steps \<longleftrightarrow> (\<forall>i s. steps i = Some s \<longrightarrow> st_id s = i)"

definition advances :: "(string \<Rightarrow> nat) \<Rightarrow> (string \<Rightarrow> nat) \<Rightarrow> bool" where
  "advances a b \<longleftrightarrow> (\<forall>j. (a j = 1 \<longleftrightarrow> b j = 1) \<and> (a j = 2 \<longrightarrow> b j = 2) \<and> (b j = 0 \<longrightarrow> a j = 0))"

lemma advances_refl [simp]: "advances a a"
  by (simp add: advances_def)

lemma advances_trans: "advances a b \<Longrightarrow> advances b c \<Longrightarrow> advances a c"
  unfolding advances_def by blast

lemma advances_close:
  assumes "advances (a(i := 1)) c" "a i \<noteq> 1" "a i \<noteq> 2"
  shows "advances a (c(i := 2))"
  unfolding advances_def
proof
  fix j
  have c: "((a(i := 1)) j = 1) = (c j = 1)" "(a(i := 1)) j = 2 \<Longrightarrow> c j = 2" "c j = 0 \<Longrightarrow> (a(i := 1)) j = 0"
    using assms(1) unfolding advances_def by blast+
  show "(a j = 1 \<longleftrightarrow> (c(i := 2)) j = 1) \<and> (a j = 2 \<longrightarrow> (c(i := 2)) j = 2) \<and> ((c(i := 2)) j = 0 \<longrightarrow> a j = 0)"
  proof (cases "j = i")
    case True
    with assms show ?thesis by simp
  next
    case False
    with c show ?thesis by simp
  qed
qed

lemma advances_done: "advances a b \<Longrightarrow> a j = 2 \<Longrightarrow> b j = 2"
  unfolding advances_def by blast

lemma advances_open: "advances a b \<Longrightarrow> b j = 1 \<longleftrightarrow> a j = 1"
  unfolding advances_def by blast

lemma visit_advances:
  "visit n steps reqs i a = Inr b \<Longrightarrow> advances a b \<and> b i = 2"
  "visit_all n steps reqs s seen ps a = Inr b \<Longrightarrow> advances a b \<and> (\<forall>p \<in> set ps. b p = 2)"
proof (induction n steps reqs i a and n steps reqs s seen ps a arbitrary: b and b rule: visit_visit_all.induct)
  case (2 n steps reqs i state)
  show ?case
  proof (cases "state i = 1 \<or> state i = 2")
    case True
    with "2.prems" show ?thesis by (auto split: if_splits)
  next
    case new: False
    show ?thesis
    proof (cases "steps i")
      case None
      with new "2.prems" have b: "b = state(i := 2)" by simp
      have "advances state (state(i := 1, i := 2))" using advances_close [OF advances_refl, of state i] new by blast
      then have "advances state b" unfolding b fun_upd_upd .
      moreover have "b i = 2" by (simp add: b)
      ultimately show ?thesis by blast
    next
      case (Some s)
      with new "2.prems" obtain c where c: "visit_all n steps reqs s [] (st_after s) (state(i := 1)) = Inr c" "b = c(i := 2)"
        by (auto split: sum.splits)
      have "advances (state(i := 1)) c" using "2.IH" [OF _ _ Some c(1)] new by blast
      then have "advances state b" using advances_close [of state i c] new unfolding c(2) by blast
      moreover have "b i = 2" by (simp add: c(2))
      ultimately show ?thesis by blast
    qed
  qed
next
  case (4 n steps reqs s seen p ps state)
  then obtain q c where q: "steps p = Some q" "visit n steps reqs p state = Inr c"
      "visit_all n steps reqs s (p # seen) ps c = Inr b" "p \<notin> set seen"
      "\<not> (is_optional reqs (st_requirement q) \<and> \<not> is_optional reqs (st_requirement s))"
    by (auto split: option.splits if_splits sum.splits)
  have 1: "advances state c \<and> c p = 2" using "4.IH"(1) q by simp
  have "advances c b \<and> (\<forall>p \<in> set ps. b p = 2)" using "4.IH"(2) q by simp
  with 1 show ?case by (auto intro: advances_trans advances_done)
qed auto

lemma graph_ok_rank:
  assumes "graph_ok steps reqs rank s" "own_ids steps" "steps i = None \<or> steps i = Some s'" "i \<notin> set (st_after s)" "st_id s \<noteq> i"
  shows "graph_ok steps reqs (rank(i := k)) s"
  using assms unfolding graph_ok_def by (metis fun_upd_other)

text \<open>A finished search orders what it has finished.\<close>

lemma visit_orders:
  "visit n steps reqs i a = Inr b \<Longrightarrow> own_ids steps \<Longrightarrow> \<exists>r. done_ok steps reqs r a \<Longrightarrow> \<exists>r. done_ok steps reqs r b"
  "visit_all n steps reqs s seen ps a = Inr b \<Longrightarrow> own_ids steps \<Longrightarrow> \<exists>r. done_ok steps reqs r a
     \<Longrightarrow> (\<exists>r. done_ok steps reqs r b) \<and> distinct ps \<and> set ps \<inter> set seen = {}
         \<and> (\<forall>p \<in> set ps. \<exists>q. steps p = Some q \<and> \<not> (is_optional reqs (st_requirement q) \<and> \<not> is_optional reqs (st_requirement s)))"
proof (induction n steps reqs i a and n steps reqs s seen ps a arbitrary: b and b rule: visit_visit_all.induct)
  case (2 n steps reqs i state)
  show ?case
  proof (cases "state i = 1 \<or> state i = 2")
    case True
    with "2.prems" show ?thesis by (auto split: if_splits)
  next
    case new: False
    show ?thesis
    proof (cases "steps i")
      case None
      with new "2.prems"(1) have b: "b = state(i := 2)" by simp
      obtain r where r: "done_ok steps reqs r state" using "2.prems"(3) by blast
      have "done_ok steps reqs r b" using r None unfolding b done_ok_def by (metis fun_upd_apply option.distinct(1))
      then show ?thesis by blast
    next
      case (Some s)
      with new "2.prems"(1) obtain c where c: "visit_all n steps reqs s [] (st_after s) (state(i := 1)) = Inr c" "b = c(i := 2)"
        by (auto split: sum.splits)
      obtain r0 where "done_ok steps reqs r0 state" using "2.prems"(3) by blast
      then have "done_ok steps reqs r0 (state(i := 1))" using new unfolding done_ok_def
        by (metis fun_upd_apply numeral_eq_one_iff semiring_norm(85))
      then have ih: "(\<exists>r. done_ok steps reqs r c) \<and> distinct (st_after s)
          \<and> (\<forall>p \<in> set (st_after s). \<exists>q. steps p = Some q \<and> \<not> (is_optional reqs (st_requirement q) \<and> \<not> is_optional reqs (st_requirement s)))"
        using "2.IH" [OF _ _ Some c(1) "2.prems"(2)] new by blast
      then obtain r where r: "done_ok steps reqs r c" by blast
      have adv: "advances (state(i := 1)) c" "\<forall>p \<in> set (st_after s). c p = 2" using visit_advances(2) [OF c(1)] by blast+
      then have ci: "c i = 1" using advances_open [of "state(i := 1)" c i] by simp
      define r' where "r' = r(i := Suc (Max (insert 0 (r ` set (st_after s)))))"
      have notin: "i \<notin> set (st_after s)" using adv(2) ci by auto
      have "st_id s = i" using Some "2.prems"(2) by (simp add: own_ids_def)
      then have "graph_ok steps reqs r' s" using ih notin unfolding graph_ok_def r'_def
        by (auto simp: less_Suc_eq_le intro!: Max_ge)
      moreover have "graph_ok steps reqs r' t \<and> (\<forall>p \<in> set (st_after t). b p = 2)" if t: "b j = 2" "steps j = Some t" "j \<noteq> i" for j t
      proof -
        have g: "graph_ok steps reqs r t" "\<forall>p \<in> set (st_after t). c p = 2" using r t c(2) unfolding done_ok_def by auto
        then have "i \<notin> set (st_after t)" using ci by auto
        moreover have "st_id t \<noteq> i" using t "2.prems"(2) by (simp add: own_ids_def)
        ultimately show ?thesis using g graph_ok_rank [OF g(1) "2.prems"(2), of i s] Some c(2) unfolding r'_def by auto
      qed
      ultimately have "done_ok steps reqs r' b" using Some adv(2) notin c(2) unfolding done_ok_def by (metis fun_upd_apply option.inject)
      then show ?thesis by blast
    qed
  qed
next
  case (4 n steps reqs s seen p ps state)
  then obtain q c where q: "steps p = Some q" "visit n steps reqs p state = Inr c"
      "visit_all n steps reqs s (p # seen) ps c = Inr b" "p \<notin> set seen"
      "\<not> (is_optional reqs (st_requirement q) \<and> \<not> is_optional reqs (st_requirement s))"
    by (auto split: option.splits if_splits sum.splits)
  have 1: "\<exists>r. done_ok steps reqs r c" using "4.IH"(1) [OF q(1,4,5) q(2)] "4.prems" by blast
  have "(\<exists>r. done_ok steps reqs r b) \<and> distinct ps \<and> set ps \<inter> set (p # seen) = {}
      \<and> (\<forall>p \<in> set ps. \<exists>q. steps p = Some q \<and> \<not> (is_optional reqs (st_requirement q) \<and> \<not> is_optional reqs (st_requirement s)))"
    using "4.IH"(2) [OF q(1,4,5) q(2) q(3)] "4.prems" 1 by blast
  with q show ?case by auto
qed auto

text \<open>The bound on the depth is never reached: every call opens a new step.\<close>

definition fresh_steps :: "(string \<rightharpoonup> recipe_step) \<Rightarrow> (string \<Rightarrow> nat) \<Rightarrow> string set" where
  "fresh_steps steps state = {j \<in> dom steps. state j = 0}"

lemma fresh_advances: "finite (dom steps) \<Longrightarrow> advances a b \<Longrightarrow> card (fresh_steps steps b) \<le> card (fresh_steps steps a)"
  unfolding fresh_steps_def advances_def by (rule card_mono) auto

lemma fresh_open:
  "finite (dom steps) \<Longrightarrow> steps i = Some s \<Longrightarrow> a i = 0 \<Longrightarrow> card (fresh_steps steps a) = Suc (card (fresh_steps steps (a(i := 1))))"
proof -
  assume a: "finite (dom steps)" "steps i = Some s" "a i = 0"
  have "fresh_steps steps a = insert i (fresh_steps steps (a(i := 1)))" "i \<notin> fresh_steps steps (a(i := 1))"
    using a by (auto simp: fresh_steps_def)
  moreover have "finite (fresh_steps steps (a(i := 1)))" using a by (simp add: fresh_steps_def)
  ultimately show ?thesis by simp
qed

definition colours :: "(string \<Rightarrow> nat) \<Rightarrow> bool" where
  "colours state \<longleftrightarrow> (\<forall>j. state j \<le> 2)"

lemma colours_upd [simp]: "colours a \<Longrightarrow> k \<le> 2 \<Longrightarrow> colours (a(i := k))"
  by (simp add: colours_def)

lemma visit_colours:
  "visit n steps reqs i a = Inr b \<Longrightarrow> colours a \<Longrightarrow> colours b"
  "visit_all n steps reqs s seen ps a = Inr b \<Longrightarrow> colours a \<Longrightarrow> colours b"
  by (induction n steps reqs i a and n steps reqs s seen ps a arbitrary: b and b rule: visit_visit_all.induct)
    (auto simp: colours_def split: if_splits option.splits sum.splits)

lemma visit_depth:
  "finite (dom steps) \<Longrightarrow> colours a \<Longrightarrow> steps i \<noteq> None \<Longrightarrow> card (fresh_steps steps a) < n \<Longrightarrow> visit n steps reqs i a \<noteq> Inl ''depth''"
  "finite (dom steps) \<Longrightarrow> colours a \<Longrightarrow> card (fresh_steps steps a) < n \<Longrightarrow> visit_all n steps reqs s seen ps a \<noteq> Inl ''depth''"
proof (induction n steps reqs i a and n steps reqs s seen ps a rule: visit_visit_all.induct)
  case (2 n steps reqs i state)
  show ?case
  proof (cases "state i = 1 \<or> state i = 2")
    case new: False
    obtain s where s: "steps i = Some s" using "2.prems"(3) by blast
    have "state i = 0" using new "2.prems"(2) unfolding colours_def by (metis One_nat_def le_SucE le_zero_eq numeral_2_eq_2)
    then have f: "card (fresh_steps steps (state(i := 1))) < n" using fresh_open [of steps i s state] s "2.prems" by simp
    have col: "colours (state(i := 1))" using "2.prems"(2) by (intro colours_upd) simp_all
    have "visit_all n steps reqs s [] (st_after s) (state(i := 1)) \<noteq> Inl ''depth''"
      using "2.IH" [OF _ _ s "2.prems"(1) col f] new by blast
    then show ?thesis using new s by (auto split: sum.splits)
  qed auto
next
  case (4 n steps reqs s seen p ps state)
  show ?case
  proof (cases "steps p")
    case (Some q)
    show ?thesis
    proof (cases "p \<in> set seen \<or> (is_optional reqs (st_requirement q) \<and> \<not> is_optional reqs (st_requirement s))")
      case False
      have 1: "visit n steps reqs p state \<noteq> Inl ''depth''" using "4.IH"(1) [OF Some] False "4.prems" Some by blast
      show ?thesis
      proof (cases "visit n steps reqs p state")
        case (Inr c)
        have "card (fresh_steps steps c) < n"
          using fresh_advances [OF "4.prems"(1)] visit_advances(1) [OF Inr] "4.prems"(3) by (meson le_less_trans)
        then have "visit_all n steps reqs s (p # seen) ps c \<noteq> Inl ''depth''"
          using "4.IH"(2) [OF Some _ _ Inr] False "4.prems"(1,2) visit_colours(1) [OF Inr] by blast
        with Inr Some False show ?thesis by simp
      qed (use 1 Some False in simp)
    qed (use Some in auto)
  qed simp
qed auto

text \<open>A well-formed graph is never rejected: no predecessor is still open, since its rank is lower.\<close>

lemma visit_accepts:
  "finite (dom steps) \<Longrightarrow> colours a \<Longrightarrow> own_ids steps \<Longrightarrow> (\<forall>j t. steps j = Some t \<longrightarrow> graph_ok steps reqs r t)
     \<Longrightarrow> steps i \<noteq> None \<Longrightarrow> (\<forall>j. a j = 1 \<longrightarrow> r i < r j) \<Longrightarrow> card (fresh_steps steps a) < n
     \<Longrightarrow> \<exists>b. visit n steps reqs i a = Inr b"
  "finite (dom steps) \<Longrightarrow> colours a \<Longrightarrow> own_ids steps \<Longrightarrow> (\<forall>j t. steps j = Some t \<longrightarrow> graph_ok steps reqs r t)
     \<Longrightarrow> distinct ps \<Longrightarrow> set ps \<inter> set seen = {} \<Longrightarrow> set ps \<subseteq> set (st_after s) \<Longrightarrow> graph_ok steps reqs r s
     \<Longrightarrow> (\<forall>p \<in> set ps. \<forall>j. a j = 1 \<longrightarrow> r p < r j) \<Longrightarrow> card (fresh_steps steps a) < n
     \<Longrightarrow> \<exists>b. visit_all n steps reqs s seen ps a = Inr b"
proof (induction n steps reqs i a and n steps reqs s seen ps a rule: visit_visit_all.induct)
  case (2 n steps reqs i state)
  show ?case
  proof (cases "state i = 2")
    case new: False
    have no: "state i \<noteq> 1" using "2.prems"(6) by blast
    obtain s where s: "steps i = Some s" using "2.prems"(5) by blast
    have "state i = 0" using new no "2.prems"(2) unfolding colours_def by (metis One_nat_def le_SucE le_zero_eq numeral_2_eq_2)
    then have f: "card (fresh_steps steps (state(i := 1))) < n" using fresh_open [of steps i s state] s "2.prems" by simp
    have g: "graph_ok steps reqs r s" using "2.prems"(4) s by blast
    have id: "st_id s = i" using "2.prems"(3) s by (simp add: own_ids_def)
    have r: "\<forall>p \<in> set (st_after s). \<forall>j. (state(i := 1)) j = 1 \<longrightarrow> r p < r j"
    proof (intro ballI allI impI)
      fix p j assume p: "p \<in> set (st_after s)" and j: "(state(i := 1)) j = 1"
      have pi: "r p < r i" using g p id unfolding graph_ok_def by blast
      show "r p < r j"
      proof (cases "j = i")
        case False
        then have "state j = 1" using j by simp
        then have "r i < r j" using "2.prems"(6) by blast
        with pi show ?thesis by simp
      qed (use pi in simp)
    qed
    have d: "distinct (st_after s)" using g unfolding graph_ok_def by blast
    have col: "colours (state(i := 1))" using "2.prems"(2) by (intro colours_upd) simp_all
    have "\<exists>c. visit_all n steps reqs s [] (st_after s) (state(i := 1)) = Inr c"
      by (rule "2.IH" [OF no new s "2.prems"(1) col "2.prems"(3,4) d _ _ g r f]) simp_all
    with new no s show ?thesis by auto
  qed simp
next
  case (4 n steps reqs s seen p ps state)
  have "p \<in> set (st_after s)" using "4.prems"(7) by simp
  then obtain q where q: "steps p = Some q" "\<not> (is_optional reqs (st_requirement q) \<and> \<not> is_optional reqs (st_requirement s))"
    using "4.prems"(8) unfolding graph_ok_def by blast
  have ps: "p \<notin> set seen" using "4.prems"(6) by simp
  obtain c where c: "visit n steps reqs p state = Inr c"
    using "4.IH"(1) [OF q(1) ps q(2) "4.prems"(1-4) _ _ "4.prems"(10)] q(1) "4.prems"(9) by auto
  have f: "card (fresh_steps steps c) < n"
    using fresh_advances [OF "4.prems"(1)] visit_advances(1) [OF c] "4.prems"(10) by (meson le_less_trans)
  have o: "\<forall>p \<in> set ps. \<forall>j. c j = 1 \<longrightarrow> r p < r j"
    using "4.prems"(9) advances_open visit_advances(1) [OF c] by (metis list.set_intros(2))
  obtain b where "visit_all n steps reqs s (p # seen) ps c = Inr b"
    using "4.IH"(2) [OF q(1) ps q(2) c "4.prems"(1) visit_colours(1) [OF c "4.prems"(2)] "4.prems"(3,4) _ _ _ "4.prems"(8) o f] "4.prems"(5-7)
    by auto
  with q ps c show ?case by simp
qed auto

subsection \<open>What validation establishes\<close>

lemma steps_error_none:
  "steps_error keys seen ss = None \<Longrightarrow> distinct (map st_id ss) \<and> st_id ` set ss \<inter> set seen = {}
     \<and> (\<forall>s \<in> set ss. st_id s \<noteq> ''$item'' \<and> st_id s \<noteq> [] \<and> st_requirement s \<in> set keys)"
proof (induction keys seen ss rule: steps_error.induct)
  case (2 keys seen s ss)
  then have here: "identifier_ok (st_id s) False" "st_id s \<noteq> ''$item''" "st_id s \<notin> set seen" "st_requirement s \<in> set keys"
    and rest: "steps_error keys (st_id s # seen) ss = None"
    by (simp_all split: if_splits)
  have "st_id s \<noteq> []" using here(1) by (simp add: identifier_ok_def)
  moreover have "distinct (map st_id ss) \<and> st_id ` set ss \<inter> set (st_id s # seen) = {}
     \<and> (\<forall>s \<in> set ss. st_id s \<noteq> ''$item'' \<and> st_id s \<noteq> [] \<and> st_requirement s \<in> set keys)"
    using "2.IH" [OF _ _ rest] "2.prems" by (simp split: if_splits)
  ultimately show ?case using here by simp
qed simp

lemma requirements_error_none:
  "requirements_error env cs seen rs = None \<Longrightarrow> r \<in> set rs \<Longrightarrow>
     \<exists>c. cs (rq_key r) = Some c \<and> sch_type (ct_input c) = ''object''"
proof (induction env cs seen rs rule: requirements_error.induct)
  case (2 env cs seen x xs)
  let ?bad = "\<not> identifier_ok (rq_key x) False \<or> \<not> identifier_ok (rq_capability x) True
        \<or> \<not> identifier_ok (rq_contract_version x) False \<or> \<not> digest_valid (rq_contract_digest x)
        \<or> rq_key x \<in> rq_key ` set seen \<or> capability_pin x \<in> capability_pin ` set seen"
  have nok: "\<not> ?bad"
  proof
    assume bad: ?bad
    show False using "2.prems"(1) unfolding requirements_error.simps if_P [OF bad] by simp
  qed
  note err = "2.prems"(1) [unfolded requirements_error.simps if_not_P [OF nok]]
  obtain c where c: "cs (rq_key x) = Some c" using err by (cases "cs (rq_key x)") simp_all
  let ?off = "ct_id c \<noteq> rq_capability x \<or> ct_version c \<noteq> rq_contract_version x \<or> ve_hash env (ct_bytes c) \<noteq> rq_contract_digest x"
  have ok: "\<not> ?off" using err c by (auto split: if_splits)
  note err' = err [unfolded c option.case if_not_P [OF ok]]
  obtain k where k: "parse_contract (ve_decode env) (ct_bytes c) = Inr k"
    using err' by (cases "parse_contract (ve_decode env) (ct_bytes c)") simp_all
  have same: "same_contract k c" and rest: "requirements_error env cs (x # seen) xs = None"
    using err' k by (simp_all split: if_splits)
  have "sch_type (ct_input k) = ''object''" using k by (auto simp: parse_contract_def split: option.splits sum.splits if_splits)
  moreover have "sch_type (ct_input k) = sch_type (ct_input c)"
    using same unfolding same_contract_def by (subst (asm) same_schema.simps) blast
  ultimately have x: "sch_type (ct_input c) = ''object''" by simp
  show ?case
  proof (cases "r = x")
    case True
    with c x show ?thesis by blast
  next
    case False
    with "2.prems" have "r \<in> set xs" by simp
    then show ?thesis using "2.IH" [OF nok c ok k _ rest] same by blast
  qed
qed simp

lemma step_map_own: "own_ids (step_map ss)"
  unfolding own_ids_def step_map_def by (auto dest: map_of_SomeD)

lemma step_map_finite: "finite (dom (step_map ss))"
  by (simp add: step_map_def finite_dom_map_of)

lemma step_map_dom: "dom (step_map ss) = st_id ` set ss"
  by (simp add: step_map_def dom_map_of_conv_image_fst image_image)

lemma step_map_mem: "distinct (map st_id ss) \<Longrightarrow> s \<in> set ss \<Longrightarrow> step_map ss (st_id s) = Some s"
  by (simp add: step_map_def comp_def map_of_eq_Some_iff)

lemma step_map_in: "step_map ss i = Some s \<Longrightarrow> s \<in> set ss \<and> st_id s = i"
  by (auto simp: step_map_def dest: map_of_SomeD)

lemma check_steps_ok:
  "check_steps d cs steps reqs state calls iters ss = Inr (c, i) \<Longrightarrow> own_ids steps \<Longrightarrow> \<exists>r. done_ok steps reqs r state \<Longrightarrow>
     \<exists>b. (\<exists>r. done_ok steps reqs r b) \<and> advances state b \<and> (\<forall>s \<in> set ss. b (st_id s) = 2)
       \<and> (\<forall>s \<in> set ss. \<exists>x. dataflow_step d cs steps s = Inr x)"
proof (induction d cs steps reqs state calls iters ss rule: check_steps.induct)
  case (2 d cs steps reqs state calls iters s ss)
  obtain b x y where v: "visit (Suc (length (rc_steps d))) steps reqs (st_id s) state = Inr b"
      "dataflow_step d cs steps s = Inr (x, y)" "check_steps d cs steps reqs b (calls + x) (iters + y) ss = Inr (c, i)"
    using "2.prems"(1) by (auto split: sum.splits)
  have r: "\<exists>r. done_ok steps reqs r b" using visit_orders(1) [OF v(1) "2.prems"(2,3)] .
  have a: "advances state b" "b (st_id s) = 2" using visit_advances(1) [OF v(1)] by blast+
  obtain b' where b': "\<exists>r. done_ok steps reqs r b'" "advances b b'" "\<forall>s \<in> set ss. b' (st_id s) = 2"
      "\<forall>s \<in> set ss. \<exists>x. dataflow_step d cs steps s = Inr x"
    using "2.IH" [OF v(1,2) refl v(3) "2.prems"(2) r] by blast
  have "b' (st_id s) = 2" using advances_done [OF b'(2) a(2)] .
  then have "\<forall>t \<in> set (s # ss). b' (st_id t) = 2" "\<forall>t \<in> set (s # ss). \<exists>x. dataflow_step d cs steps t = Inr x"
    using b'(3,4) v(2) by simp_all
  with b'(1) advances_trans [OF a(1) b'(2)] show ?case by blast
qed auto

lemma check_steps_accepts:
  "check_steps d cs steps reqs state calls iters ss = Inl e \<Longrightarrow> finite (dom steps) \<Longrightarrow> card (dom steps) \<le> length (rc_steps d)
     \<Longrightarrow> own_ids steps \<Longrightarrow> (\<forall>j t. steps j = Some t \<longrightarrow> graph_ok steps reqs r t) \<Longrightarrow> (\<forall>s \<in> set ss. steps (st_id s) \<noteq> None)
     \<Longrightarrow> colours state \<Longrightarrow> (\<forall>j. state j \<noteq> 1) \<Longrightarrow> \<exists>s \<in> set ss. dataflow_step d cs steps s = Inl e"
proof (induction d cs steps reqs state calls iters ss rule: check_steps.induct)
  case (2 d cs steps reqs state calls iters s ss)
  have "card (fresh_steps steps state) \<le> card (dom steps)" using "2.prems"(2) by (auto simp: fresh_steps_def intro: card_mono)
  then have f: "card (fresh_steps steps state) < Suc (length (rc_steps d))" using "2.prems"(3) by simp
  have "steps (st_id s) \<noteq> None" "\<forall>j. state j = 1 \<longrightarrow> r (st_id s) < r j" using "2.prems"(6,8) by simp_all
  then obtain b where b: "visit (Suc (length (rc_steps d))) steps reqs (st_id s) state = Inr b"
    using visit_accepts(1) [OF "2.prems"(2,7,4,5) _ _ f] by blast
  show ?case
  proof (cases "dataflow_step d cs steps s")
    case (Inr xy)
    obtain x y where xy: "dataflow_step d cs steps s = Inr (x, y)" using Inr by (cases xy) simp
    then have "check_steps d cs steps reqs b (calls + x) (iters + y) ss = Inl e" using "2.prems"(1) b by simp
    moreover have "\<forall>j. b j \<noteq> 1" using visit_advances(1) [OF b] advances_open "2.prems"(8) by metis
    ultimately have "\<exists>s \<in> set ss. dataflow_step d cs steps s = Inl e"
      using "2.IH" [OF b xy refl _ "2.prems"(2-5) _ visit_colours(1) [OF b "2.prems"(7)]] "2.prems"(6) by simp
    then show ?thesis by simp
  qed (use "2.prems"(1) b in auto)
qed simp

lemma requirements_error_keys:
  "requirements_error env cs seen rs = None \<Longrightarrow>
     distinct (map rq_key rs) \<and> rq_key ` set rs \<inter> rq_key ` set seen = {}
     \<and> (\<forall>r \<in> set rs. \<exists>c. cs (rq_key r) = Some c \<and> ct_id c = rq_capability r \<and> ct_version c = rq_contract_version r
          \<and> ve_hash env (ct_bytes c) = rq_contract_digest r)"
proof (induction env cs seen rs rule: requirements_error.induct)
  case (2 env cs seen x xs)
  let ?bad = "\<not> identifier_ok (rq_key x) False \<or> \<not> identifier_ok (rq_capability x) True
        \<or> \<not> identifier_ok (rq_contract_version x) False \<or> \<not> digest_valid (rq_contract_digest x)
        \<or> rq_key x \<in> rq_key ` set seen \<or> capability_pin x \<in> capability_pin ` set seen"
  have nok: "\<not> ?bad"
  proof
    assume bad: ?bad
    show False using "2.prems"(1) unfolding requirements_error.simps if_P [OF bad] by simp
  qed
  note err = "2.prems"(1) [unfolded requirements_error.simps if_not_P [OF nok]]
  obtain c where c: "cs (rq_key x) = Some c" using err by (cases "cs (rq_key x)") simp_all
  let ?off = "ct_id c \<noteq> rq_capability x \<or> ct_version c \<noteq> rq_contract_version x \<or> ve_hash env (ct_bytes c) \<noteq> rq_contract_digest x"
  have ok: "\<not> ?off" using err c by (auto split: if_splits)
  note err' = err [unfolded c option.case if_not_P [OF ok]]
  obtain k where k: "parse_contract (ve_decode env) (ct_bytes c) = Inr k"
    using err' by (cases "parse_contract (ve_decode env) (ct_bytes c)") simp_all
  have same: "same_contract k c" and rest: "requirements_error env cs (x # seen) xs = None"
    using err' k by (simp_all split: if_splits)
  have tail: "distinct (map rq_key xs) \<and> rq_key ` set xs \<inter> rq_key ` set (x # seen) = {}
      \<and> (\<forall>r \<in> set xs. \<exists>c. cs (rq_key r) = Some c \<and> ct_id c = rq_capability r \<and> ct_version c = rq_contract_version r
          \<and> ve_hash env (ct_bytes c) = rq_contract_digest r)"
    using "2.IH" [OF nok c ok k _ rest] same by simp
  have fresh: "rq_key x \<notin> rq_key ` set seen" using nok by simp
  show ?case using tail fresh ok c by auto
qed simp

lemma group_members_none:
  "group_members_error keys grouped ks = Inr grouped' \<Longrightarrow>
     distinct ks \<and> set ks \<inter> set grouped = {} \<and> set ks \<subseteq> set keys \<and> set grouped' = set ks \<union> set grouped"
proof (induction keys grouped ks rule: group_members_error.induct)
  case (2 keys grouped k ks)
  then have k: "k \<in> set keys" "k \<notin> set grouped" and rest: "group_members_error keys (k # grouped) ks = Inr grouped'"
    by (simp_all split: if_splits)
  from "2.IH" [OF _ rest] k show ?case by auto
qed simp

lemma groups_error_none:
  "groups_error keys seen grouped gs = None \<Longrightarrow>
     distinct (concat (map gr_requirements gs)) \<and> set (concat (map gr_requirements gs)) \<inter> set grouped = {}
     \<and> (\<forall>g \<in> set gs. set (gr_requirements g) \<subseteq> set keys)"
proof (induction keys seen grouped gs rule: groups_error.induct)
  case (2 keys seen grouped g gs)
  then obtain grouped' where m: "group_members_error keys grouped (gr_requirements g) = Inr grouped'"
    and rest: "groups_error keys (gr_id g # seen) grouped' gs = None" by (auto split: if_splits sum.splits)
  have "distinct (concat (map gr_requirements gs)) \<and> set (concat (map gr_requirements gs)) \<inter> set grouped' = {}
      \<and> (\<forall>g \<in> set gs. set (gr_requirements g) \<subseteq> set keys)"
    using "2.IH" [OF _ m rest] "2.prems" by (auto split: if_splits)
  with group_members_none [OF m] show ?case by auto
qed simp

lemma validate_checks:
  assumes "validate env d cs = None"
  shows "requirements_error env cs [] (rc_requirements d) = None"
    "groups_error (map rq_key (rc_requirements d)) [] [] (rc_groups d) = None"
    "steps_error (map rq_key (rc_requirements d)) [] (rc_steps d) = None"
proof -
  let ?keys = "map rq_key (rc_requirements d)"
  note a = assms [unfolded validate_def Let_def]
  obtain n where n: "schema_valid (rc_task_schema d) 0 0 = Inr n"
    using a by (cases "schema_valid (rc_task_schema d) 0 0") (simp_all split: if_splits)
  show r: "requirements_error env cs [] (rc_requirements d) = None"
    using a n by (cases "requirements_error env cs [] (rc_requirements d)") (simp_all split: if_splits)
  show g: "groups_error ?keys [] [] (rc_groups d) = None"
    using a n r by (cases "groups_error ?keys [] [] (rc_groups d)") (simp_all split: if_splits)
  show "steps_error ?keys [] (rc_steps d) = None"
    using a n r g by (cases "steps_error ?keys [] (rc_steps d)") (simp_all split: if_splits)
qed

lemma validate_parts:
  assumes "validate env d cs = None"
  obtains calls iters where
    "distinct (map st_id (rc_steps d))"
    "\<forall>s \<in> set (rc_steps d). st_id s \<noteq> ''$item'' \<and> st_id s \<noteq> []"
    "\<forall>s \<in> set (rc_steps d). \<exists>c. cs (st_requirement s) = Some c \<and> sch_type (ct_input c) = ''object''"
    "check_steps d cs (step_map (rc_steps d)) (requirement_map (rc_requirements d)) (\<lambda>_. 0) 0 0 (rc_steps d) = Inr (calls, iters)"
    "calls \<le> li_max_calls (rc_limits d)" "iters \<le> li_max_iterations (rc_limits d)" "valid_limits (rc_limits d)"
proof -
  let ?keys = "map rq_key (rc_requirements d)"
  have lim: "valid_limits (rc_limits d)" using assms unfolding validate_def by (rule contrapos_pp) simp
  note a = assms [unfolded validate_def Let_def]
  obtain n where n: "schema_valid (rc_task_schema d) 0 0 = Inr n"
    using a by (cases "schema_valid (rc_task_schema d) 0 0") (simp_all split: if_splits)
  note r = validate_checks(1) [OF assms] and g = validate_checks(2) [OF assms] and st = validate_checks(3) [OF assms]
  let ?chk = "check_steps d cs (step_map (rc_steps d)) (requirement_map (rc_requirements d)) (\<lambda>_. 0) 0 0 (rc_steps d)"
  obtain ci where ci: "?chk = Inr ci" using a n r g st by (cases ?chk) (simp_all split: if_splits)
  have bud: "fst ci \<le> li_max_calls (rc_limits d)" "snd ci \<le> li_max_iterations (rc_limits d)"
    using a n r g st ci by (cases ci; simp split: if_splits)+
  have parts: "distinct (map st_id (rc_steps d))"
      "\<forall>s \<in> set (rc_steps d). st_id s \<noteq> ''$item'' \<and> st_id s \<noteq> [] \<and> st_requirement s \<in> set ?keys"
    using steps_error_none [OF st] by blast+
  have "\<exists>c. cs (st_requirement s) = Some c \<and> sch_type (ct_input c) = ''object''" if "s \<in> set (rc_steps d)" for s
  proof -
    have "st_requirement s \<in> rq_key ` set (rc_requirements d)" using parts(2) that by simp
    then obtain q where "q \<in> set (rc_requirements d)" "rq_key q = st_requirement s" by (metis imageE)
    with requirements_error_none [OF r] show ?thesis by metis
  qed
  with parts ci bud lim show thesis by (cases ci) (intro that; auto)
qed

lemma no_done: "\<exists>r. done_ok steps reqs r (\<lambda>_. 0)"
  by (simp add: done_ok_def)

lemma validate_graph:
  assumes "validate env d cs = None"
  shows "\<exists>r. \<forall>s \<in> set (rc_steps d). graph_ok (step_map (rc_steps d)) (requirement_map (rc_requirements d)) r s"
proof -
  obtain c i where v: "distinct (map st_id (rc_steps d))"
      "check_steps d cs (step_map (rc_steps d)) (requirement_map (rc_requirements d)) (\<lambda>_. 0) 0 0 (rc_steps d) = Inr (c, i)"
    using validate_parts [OF assms] by metis
  obtain b r where b: "done_ok (step_map (rc_steps d)) (requirement_map (rc_requirements d)) r b" "\<forall>s \<in> set (rc_steps d). b (st_id s) = 2"
    using check_steps_ok [OF v(2) step_map_own no_done] by blast
  have "graph_ok (step_map (rc_steps d)) (requirement_map (rc_requirements d)) r s" if s: "s \<in> set (rc_steps d)" for s
    using b step_map_mem [OF v(1) s] s unfolding done_ok_def by blast
  then show ?thesis by blast
qed

subsection \<open>What a recipe's steps receive at run time\<close>

definition source_value :: "jvalue \<Rightarrow> (string \<Rightarrow> jvalue) \<Rightarrow> jvalue \<Rightarrow> data_source \<Rightarrow> jvalue option" where
  "source_value task out item m =
     (case pointer (so_pointer m) of Inl _ \<Rightarrow> None
      | Inr ks \<Rightarrow> lookup_value (if so_step m = ''$item'' then item else if so_step m = [] then task else out (so_step m)) ks)"

fun step_input :: "jvalue \<Rightarrow> (string \<Rightarrow> jvalue) \<Rightarrow> jvalue \<Rightarrow> (string \<times> data_source) list \<Rightarrow> (string \<times> jvalue) list option" where
  "step_input task out item [] = Some []"
| "step_input task out item ((k, m) # rest) =
     (case source_value task out item m of None \<Rightarrow> None
      | Some v \<Rightarrow> map_option (Cons (k, v)) (step_input task out item rest))"

text \<open>The items a step runs for: those of the array it iterates over, or a single round.\<close>

definition step_items :: "(string \<Rightarrow> jvalue) \<Rightarrow> recipe_step \<Rightarrow> jvalue list option" where
  "step_items out s =
     (case st_foreach s of None \<Rightarrow> Some [VNull]
      | Some f \<Rightarrow> (case pointer (it_pointer f) of Inl _ \<Rightarrow> None
          | Inr ks \<Rightarrow> (case lookup_value (out (it_step f)) ks of Some (VArray xs) \<Rightarrow> Some xs | _ \<Rightarrow> None)))"

definition outputs_ok :: "(string \<rightharpoonup> contract) \<Rightarrow> (string \<rightharpoonup> recipe_step) \<Rightarrow> (string \<Rightarrow> jvalue) \<Rightarrow> recipe_step \<Rightarrow> bool" where
  "outputs_ok cs steps out s \<longleftrightarrow>
     list_all (\<lambda>p. iterates steps p \<or> value_ok (output_schema cs steps p) (out p)) (st_after s)"

lemma at_pointer_sound:
  "at_pointer s p = Inr s' \<Longrightarrow> value_ok s v \<Longrightarrow> \<exists>ks w. pointer p = Inr ks \<and> lookup_value v ks = Some w \<and> value_ok s' w"
  using at_parts_sound by (auto simp: at_pointer_def split: sum.splits)

lemma source_schema_sound:
  assumes "source_schema task_schema cs steps s i p = Inr s'" "value_ok task_schema task" "outputs_ok cs steps out s"
    "i \<noteq> [] \<longrightarrow> \<not> iterates steps i"
  shows "\<exists>ks w. pointer p = Inr ks \<and> lookup_value (if i = [] then task else out i) ks = Some w \<and> value_ok s' w"
proof (cases "i = []")
  case True
  with assms at_pointer_sound show ?thesis by (simp add: source_schema_def)
next
  case False
  with assms have "i \<in> set (st_after s)" "at_pointer (output_schema cs steps i) p = Inr s'"
    by (simp_all add: source_schema_def split: if_splits)
  moreover have "value_ok (output_schema cs steps i) (out i)"
    using assms(3,4) False calculation(1) by (auto simp: outputs_ok_def list_all_iff)
  ultimately show ?thesis using at_pointer_sound False by simp
qed

lemma inputs_error_sound:
  assumes "inputs_error task_schema cs steps s item_schema c ins = None"
    "value_ok task_schema task" "outputs_ok cs steps out s" "\<forall>it. item_schema = Some it \<longrightarrow> value_ok it item"
  shows "\<exists>m. step_input task out item ins = Some m \<and> map fst m = map fst ins
     \<and> (\<forall>(k, w) \<in> set m. \<exists>p. map_of (sch_properties (ct_input c)) k = Some p \<and> value_ok p w)"
  using assms(1)
proof (induction ins)
  case (Cons km ins)
  obtain k src where km: "km = (k, src)" by (cases km)
  let ?from = "if so_step src = ''$item'' then
                   (case item_schema of None \<Rightarrow> Inl ''item outside iteration'' | Some it \<Rightarrow> at_pointer it (so_pointer src))
                 else if so_step src \<noteq> [] \<and> iterates steps (so_step src)
                 then Inl ''iteration outputs cannot be consumed as scalar''
                 else source_schema task_schema cs steps s (so_step src) (so_pointer src)"
  obtain dst where dst: "map_of (sch_properties (ct_input c)) k = Some dst"
    using Cons.prems km by (cases "map_of (sch_properties (ct_input c)) k") simp_all
  note e1 = Cons.prems [unfolded km inputs_error.simps dst option.case]
  obtain from_schema where fs: "?from = Inr from_schema"
    using e1 by (cases ?from) (simp_all only: sum.case option.distinct option.simps)
  have as: "assignable from_schema dst" and rest: "inputs_error task_schema cs steps s item_schema c ins = None"
    using e1 unfolding fs by (simp_all split: if_splits)
  have "\<exists>w. source_value task out item src = Some w \<and> value_ok from_schema w"
  proof (cases "so_step src = ''$item''")
    case True
    then obtain it where "item_schema = Some it" "at_pointer it (so_pointer src) = Inr from_schema"
      using fs by (cases item_schema) simp_all
    with at_pointer_sound [of it "so_pointer src" from_schema item] assms(4) True show ?thesis by (auto simp: source_value_def)
  next
    case False
    then have n: "so_step src \<noteq> [] \<longrightarrow> \<not> iterates steps (so_step src)"
      and ss: "source_schema task_schema cs steps s (so_step src) (so_pointer src) = Inr from_schema"
      using fs by (simp_all split: if_splits) blast
    from source_schema_sound [OF ss assms(2,3) n] False show ?thesis by (auto simp: source_value_def)
  qed
  then obtain w where w: "source_value task out item src = Some w" "value_ok dst w" using assignable_sound [OF as] by blast
  obtain m where "step_input task out item ins = Some m" "map fst m = map fst ins"
      "\<forall>(k, w) \<in> set m. \<exists>p. map_of (sch_properties (ct_input c)) k = Some p \<and> value_ok p w"
    using Cons.IH [OF rest] by blast
  with w dst km show ?case by simp
qed simp

lemma dataflow_step_sound:
  assumes "dataflow_step d cs steps s = Inr (calls, iters)" "cs (st_requirement s) = Some c" "sch_type (ct_input c) = ''object''"
    "value_ok (rc_task_schema d) task" "outputs_ok cs steps out s"
  shows "\<exists>items. step_items out s = Some items \<and> int (length items) \<le> calls
      \<and> iters = (if st_foreach s = None then 0 else calls)
      \<and> (\<forall>item \<in> set items. \<exists>m. step_input task out item (st_inputs s) = Some m \<and> value_ok (ct_input c) (VObject m))"
proof -
  let ?round = "case st_foreach s of None \<Rightarrow> Inr (None, 1, 0)
      | Some f \<Rightarrow> (case foreach_item (rc_task_schema d) cs steps (rc_limits d) s f of Inl e \<Rightarrow> Inl e | Inr it \<Rightarrow> Inr (it, it_max f, it_max f))"
  note e = assms(1) [unfolded dataflow_step_def assms(2) option.case]
  obtain r where "?round = Inr r" using e by (cases ?round) simp_all
  then obtain item_schema c1 i1 where round: "?round = Inr (item_schema, c1, i1)" by (cases r) simp
  have req: "\<not> list_ex (\<lambda>k. k \<notin> fst ` set (st_inputs s)) (sch_required (ct_input c))"
    and ins: "inputs_error (rc_task_schema d) cs steps s item_schema c (st_inputs s) = None"
    and ci: "calls = c1" "iters = i1"
    using e unfolding round by (simp_all split: if_splits option.splits)
  have input: "\<exists>m. step_input task out item (st_inputs s) = Some m \<and> value_ok (ct_input c) (VObject m)"
    if it: "\<forall>it. item_schema = Some it \<longrightarrow> value_ok it item" for item
  proof -
    obtain m where m: "step_input task out item (st_inputs s) = Some m" "map fst m = map fst (st_inputs s)"
        "\<forall>(k, w) \<in> set m. \<exists>p. map_of (sch_properties (ct_input c)) k = Some p \<and> value_ok p w"
      using inputs_error_sound [OF ins assms(4,5) it] by blast
    have "fst ` set m = fst ` set (st_inputs s)" using m(2) by (metis list.set_map)
    then have "set (sch_required (ct_input c)) \<subseteq> fst ` set m" using req by (auto simp: list_ex_iff)
    with m(1,3) value_ok_object [OF assms(3)] show ?thesis by blast
  qed
  show ?thesis
  proof (cases "st_foreach s")
    case None
    then have "item_schema = None" "c1 = 1" "i1 = 0" using round by simp_all
    with None ci input show ?thesis by (simp add: step_items_def)
  next
    case (Some f)
    then have fi: "foreach_item (rc_task_schema d) cs steps (rc_limits d) s f = Inr item_schema" "c1 = it_max f" "i1 = it_max f"
      using round by (simp_all split: sum.splits)
    obtain arr where arr: "source_schema (rc_task_schema d) cs steps s (it_step f) (it_pointer f) = Inr arr"
      using fi(1) by (cases "source_schema (rc_task_schema d) cs steps s (it_step f) (it_pointer f)")
        (simp_all add: foreach_item_def split: if_splits)
    have f: "it_step f \<noteq> []" "sch_type arr = ''array''" "sch_max_items arr \<le> it_max f" "\<not> iterates steps (it_step f)" "sch_items arr = item_schema"
      using fi(1) arr by (simp_all add: foreach_item_def split: if_splits)
    obtain ks w where w: "pointer (it_pointer f) = Inr ks" "lookup_value (out (it_step f)) ks = Some w" "value_ok arr w"
      using source_schema_sound [OF arr assms(4,5)] f(1,4) by auto
    obtain a where a: "w = VArray a" "int (length a) \<le> sch_max_items arr" "\<forall>x \<in> set a. \<exists>it. sch_items arr = Some it \<and> value_ok it x"
      using w(3) value_ok_array [OF f(2)] by blast
    have "step_items out s = Some a" using Some w a(1) by (simp add: step_items_def)
    moreover have "\<exists>m. step_input task out item (st_inputs s) = Some m \<and> value_ok (ct_input c) (VObject m)" if "item \<in> set a" for item
      using input a(3) f(5) that by fastforce
    ultimately show ?thesis using a(2) f(3) fi(2,3) ci Some by (intro exI [of _ a] conjI) auto
  qed
qed

lemma validate_dataflow:
  assumes "validate env d cs = None" "s \<in> set (rc_steps d)" "value_ok (rc_task_schema d) task"
    "outputs_ok cs (step_map (rc_steps d)) out s"
  shows "\<exists>c items. cs (st_requirement s) = Some c \<and> step_items out s = Some items
      \<and> (\<forall>item \<in> set items. \<exists>m. step_input task out item (st_inputs s) = Some m \<and> value_ok (ct_input c) (VObject m))"
proof -
  obtain c i where v: "\<forall>s \<in> set (rc_steps d). \<exists>c. cs (st_requirement s) = Some c \<and> sch_type (ct_input c) = ''object''"
      "check_steps d cs (step_map (rc_steps d)) (requirement_map (rc_requirements d)) (\<lambda>_. 0) 0 0 (rc_steps d) = Inr (c, i)"
    using validate_parts [OF assms(1)] by metis
  obtain k where k: "cs (st_requirement s) = Some k" "sch_type (ct_input k) = ''object''" using v(1) assms(2) by blast
  obtain x where "dataflow_step d cs (step_map (rc_steps d)) s = Inr x"
    using check_steps_ok [OF v(2) step_map_own no_done] assms(2) by blast
  then obtain c1 i1 where "dataflow_step d cs (step_map (rc_steps d)) s = Inr (c1, i1)" by (cases x) simp
  from dataflow_step_sound [OF this k assms(3,4)] k(1) show ?thesis by blast
qed
text \<open>The calls a run makes, with the arrays it really iterates over.\<close>

definition step_calls :: "(string \<Rightarrow> jvalue) \<Rightarrow> recipe_step \<Rightarrow> int" where
  "step_calls out s = (case step_items out s of None \<Rightarrow> 0 | Some xs \<Rightarrow> int (length xs))"

definition run_calls :: "(string \<Rightarrow> jvalue) \<Rightarrow> recipe_step list \<Rightarrow> int" where
  "run_calls out ss = sum_list (map (step_calls out) ss)"

definition run_iterations :: "(string \<Rightarrow> jvalue) \<Rightarrow> recipe_step list \<Rightarrow> int" where
  "run_iterations out ss = run_calls out (filter (\<lambda>s. st_foreach s \<noteq> None) ss)"

lemma check_steps_budget:
  "check_steps d cs steps reqs state calls iters ss = Inr (c, i) \<Longrightarrow>
     (\<forall>s \<in> set ss. \<exists>k. cs (st_requirement s) = Some k \<and> sch_type (ct_input k) = ''object'') \<Longrightarrow>
     value_ok (rc_task_schema d) task \<Longrightarrow> (\<forall>s \<in> set ss. outputs_ok cs steps out s) \<Longrightarrow>
     calls + run_calls out ss \<le> c \<and> iters + run_iterations out ss \<le> i"
proof (induction d cs steps reqs state calls iters ss rule: check_steps.induct)
  case (2 d cs steps reqs state calls iters s ss)
  obtain b x y where v: "visit (Suc (length (rc_steps d))) steps reqs (st_id s) state = Inr b"
      "dataflow_step d cs steps s = Inr (x, y)" "check_steps d cs steps reqs b (calls + x) (iters + y) ss = Inr (c, i)"
    using "2.prems"(1) by (auto split: sum.splits)
  have ih: "calls + x + run_calls out ss \<le> c \<and> iters + y + run_iterations out ss \<le> i"
    using "2.IH" [OF v(1,2) refl v(3)] "2.prems"(2-4) by simp
  obtain k where k: "cs (st_requirement s) = Some k" "sch_type (ct_input k) = ''object''" using "2.prems"(2) by auto
  have "outputs_ok cs steps out s" using "2.prems"(4) by simp
  from dataflow_step_sound [OF v(2) k "2.prems"(3) this]
  have "step_calls out s \<le> x" "y = (if st_foreach s = None then 0 else x)" by (auto simp: step_calls_def)
  with ih show ?case by (auto simp: run_calls_def run_iterations_def)
qed (simp add: run_calls_def run_iterations_def)

lemma validate_budget:
  assumes "validate env d cs = None" "value_ok (rc_task_schema d) task"
    "\<forall>s \<in> set (rc_steps d). outputs_ok cs (step_map (rc_steps d)) out s"
  shows "run_calls out (rc_steps d) \<le> li_max_calls (rc_limits d)
      \<and> run_iterations out (rc_steps d) \<le> li_max_iterations (rc_limits d)"
proof -
  obtain c i where v: "\<forall>s \<in> set (rc_steps d). \<exists>c. cs (st_requirement s) = Some c \<and> sch_type (ct_input c) = ''object''"
      "check_steps d cs (step_map (rc_steps d)) (requirement_map (rc_requirements d)) (\<lambda>_. 0) 0 0 (rc_steps d) = Inr (c, i)"
      "c \<le> li_max_calls (rc_limits d)" "i \<le> li_max_iterations (rc_limits d)"
    using validate_parts [OF assms(1)] by metis
  from check_steps_budget [OF v(2,1) assms(2,3)] v(3,4) show ?thesis by simp
qed

subsection \<open>Runtime accounting\<close>

record usage =
  us_calls :: int
  us_iterations :: int
  us_input_bytes :: int
  us_output_bytes :: int

text \<open>\<open>Consume\<close>: \<open>None\<close> is the error, after which the accounting is unchanged.\<close>

definition consume :: "recipe_limits \<Rightarrow> bool \<Rightarrow> int \<Rightarrow> int \<Rightarrow> usage \<Rightarrow> usage option" where
  "consume l iteration input_bytes output_bytes u =
     (if \<not> valid_limits l \<or> input_bytes < 0 \<or> output_bytes < 0 \<or> us_calls u < 0 \<or> us_iterations u < 0
        \<or> us_input_bytes u < 0 \<or> us_output_bytes u < 0 then None
      else (let i = (if iteration then 1 else 0) in
        if us_calls u \<ge> li_max_calls l \<or> us_iterations u > li_max_iterations l - i
          \<or> input_bytes > li_max_input_bytes l - us_input_bytes u \<or> output_bytes > li_max_output_bytes l - us_output_bytes u
        then None
        else Some \<lparr>us_calls = us_calls u + 1, us_iterations = us_iterations u + i,
                   us_input_bytes = us_input_bytes u + input_bytes, us_output_bytes = us_output_bytes u + output_bytes\<rparr>))"

text \<open>A run reports its operations one by one and stops at the first that is refused.\<close>

fun consume_all :: "recipe_limits \<Rightarrow> (bool \<times> int \<times> int) list \<Rightarrow> usage \<Rightarrow> usage option" where
  "consume_all l [] u = Some u"
| "consume_all l ((it, i, x) # ops) u = (case consume l it i x u of None \<Rightarrow> None | Some u' \<Rightarrow> consume_all l ops u')"

definition usage_total :: "(bool \<times> int \<times> int) list \<Rightarrow> usage \<Rightarrow> usage" where
  "usage_total ops u = \<lparr>us_calls = us_calls u + int (length ops),
     us_iterations = us_iterations u + int (length (filter fst ops)),
     us_input_bytes = us_input_bytes u + sum_list (map (fst \<circ> snd) ops),
     us_output_bytes = us_output_bytes u + sum_list (map (snd \<circ> snd) ops)\<rparr>"

definition usage_within :: "recipe_limits \<Rightarrow> usage \<Rightarrow> bool" where
  "usage_within l u \<longleftrightarrow> 0 \<le> us_calls u \<and> us_calls u \<le> li_max_calls l \<and> 0 \<le> us_iterations u \<and> us_iterations u \<le> li_max_iterations l
     \<and> 0 \<le> us_input_bytes u \<and> us_input_bytes u \<le> li_max_input_bytes l
     \<and> 0 \<le> us_output_bytes u \<and> us_output_bytes u \<le> li_max_output_bytes l"

definition ops_ok :: "(bool \<times> int \<times> int) list \<Rightarrow> bool" where
  "ops_ok ops \<longleftrightarrow> list_all (\<lambda>(_, i, x). 0 \<le> i \<and> 0 \<le> x) ops"

lemma ops_ok_sums: "ops_ok ops \<Longrightarrow> 0 \<le> sum_list (map (fst \<circ> snd) ops) \<and> 0 \<le> sum_list (map (snd \<circ> snd) ops)"
  by (induction ops) (auto simp: ops_ok_def)

lemma consume_some:
  assumes "valid_limits l" "usage_within l u"
  shows "consume l it i x u = Some u' \<longleftrightarrow> 0 \<le> i \<and> 0 \<le> x \<and> u' = usage_total [(it, i, x)] u \<and> usage_within l u'"
  using assms unfolding consume_def usage_within_def usage_total_def Let_def by (cases it) auto

lemma usage_total_cons: "usage_total (op # ops) u = usage_total ops (usage_total [op] u)"
  by (simp add: usage_total_def)

lemma usage_total_within:
  assumes "ops_ok (op # ops)" "usage_within l u" "usage_within l (usage_total (op # ops) u)"
  shows "usage_within l (usage_total [op] u)"
proof -
  have "ops_ok ops" using assms(1) by (simp add: ops_ok_def)
  with assms ops_ok_sums [of ops] show ?thesis
    by (cases op) (auto simp: usage_within_def usage_total_def ops_ok_def split: if_splits)
qed

lemma consume_all_exact:
  assumes "valid_limits l" "usage_within l u"
  shows "consume_all l ops u = Some u' \<longleftrightarrow> ops_ok ops \<and> u' = usage_total ops u \<and> usage_within l u'"
  using assms(2)
proof (induction ops arbitrary: u)
  case Nil
  then show ?case by (auto simp: ops_ok_def usage_total_def)
next
  case (Cons op ops)
  obtain it i x where op: "op = (it, i, x)" by (cases op) auto
  note c = consume_some [OF assms(1) Cons.prems, of it i x]
  show ?case
  proof (cases "consume l it i x u")
    case None
    then have "\<not> (ops_ok [op] \<and> usage_within l (usage_total [op] u))" using c op by (auto simp: ops_ok_def)
    then have "\<not> (ops_ok (op # ops) \<and> usage_within l (usage_total (op # ops) u))"
      using usage_total_within [OF _ Cons.prems] by (auto simp: ops_ok_def)
    then show ?thesis using None op by auto
  next
    case (Some v)
    then have v: "0 \<le> i" "0 \<le> x" "v = usage_total [op] u" "usage_within l v" using c op by auto
    have "consume_all l (op # ops) u = consume_all l ops v" using Some op by simp
    moreover have "ops_ok (op # ops) \<longleftrightarrow> ops_ok ops" using v(1,2) op by (simp add: ops_ok_def)
    ultimately show ?thesis using Cons.IH [OF v(4)] v(3) usage_total_cons by metis
  qed
qed

end
