(* ===== verification/RecipeProperties.thy ===== *)
theory RecipeProperties
  imports Composition
begin

text \<open>
  What an admitted recipe guarantees: its steps can be ordered, every call receives input of the schema of
  its contract, and the calls stay within the declared budget. A two-step recipe that lists items and
  sends one message for each serves as the concrete instance.
\<close>

definition text_schema :: "int \<Rightarrow> schema" where
  "text_schema n = Schema ''string'' [] [] None None 0 n"

definition object_schema :: "(string \<times> schema) list \<Rightarrow> schema" where
  "object_schema ps = Schema ''object'' ps (map fst ps) (Some False) None 0 0"

definition list_contract :: contract where
  "list_contract = \<lparr>ct_id = ''mail.list'', ct_version = ''1'', ct_input = object_schema [(''q'', text_schema 8)],
     ct_output = object_schema [(''items'', Schema ''array'' [] [] None (Some (text_schema 4)) 2 0)], ct_bytes = ''L''\<rparr>"

definition send_contract :: contract where
  "send_contract = \<lparr>ct_id = ''mail.send'', ct_version = ''1'', ct_input = object_schema [(''to'', text_schema 9)],
     ct_output = object_schema [], ct_bytes = ''S''\<rparr>"

definition demo_contracts :: "string \<rightharpoonup> contract" where
  "demo_contracts = [''l'' \<mapsto> list_contract, ''s'' \<mapsto> send_contract]"

definition demo_digest :: string where
  "demo_digest = replicate 64 CHR ''0''"

definition demo_env :: validation_env where
  "demo_env = \<lparr>ve_hash = (\<lambda>_. demo_digest),
     ve_decode = (\<lambda>b. if b = ''L'' then Some (''mail.list'', ''1'', ct_input list_contract, ct_output list_contract)
                      else Some (''mail.send'', ''1'', ct_input send_contract, ct_output send_contract))\<rparr>"

definition demo_list :: recipe_step where
  "demo_list = \<lparr>st_id = ''a'', st_requirement = ''l'', st_after = [],
     st_inputs = [(''q'', \<lparr>so_step = [], so_pointer = ''/q''\<rparr>)], st_foreach = None\<rparr>"

definition demo_send :: recipe_step where
  "demo_send = \<lparr>st_id = ''b'', st_requirement = ''s'', st_after = [''a''],
     st_inputs = [(''to'', \<lparr>so_step = ''$item'', so_pointer = []\<rparr>)],
     st_foreach = Some \<lparr>it_step = ''a'', it_pointer = ''/items'', it_max = 2\<rparr>\<rparr>"

definition demo_limits :: recipe_limits where
  "demo_limits = \<lparr>li_max_steps = 4, li_max_iterations = 2, li_max_calls = 3, li_max_input_bytes = 100,
     li_max_output_bytes = 100, li_max_guide_bytes = 100\<rparr>"

definition demo_recipe :: recipe where
  "demo_recipe = \<lparr>rc_schema_version = recipe_version, rc_skill_id = ''mail/digest'', rc_skill_version = ''1.0'',
     rc_requirements =
       [\<lparr>rq_key = ''l'', rq_capability = ''mail.list'', rq_contract_version = ''1'', rq_contract_digest = demo_digest, rq_optional = False\<rparr>,
        \<lparr>rq_key = ''s'', rq_capability = ''mail.send'', rq_contract_version = ''1'', rq_contract_digest = demo_digest, rq_optional = True\<rparr>],
     rc_groups = [], rc_task_schema = object_schema [(''q'', text_schema 8)], rc_steps = [demo_list, demo_send],
     rc_limits = demo_limits\<rparr>"

definition demo_task :: jvalue where
  "demo_task = VObject [(''q'', VString ''new'')]"

definition demo_out :: "string \<Rightarrow> jvalue" where
  "demo_out i = VObject [(''items'', VArray [VString ''ann'', VString ''bob''])]"

lemma demo_valid: "validate demo_env demo_recipe demo_contracts = None"
  by code_simp

lemma demo_task_ok: "value_ok (rc_task_schema demo_recipe) demo_task"
  by code_simp

lemma demo_outputs:
  "outputs_ok demo_contracts (step_map (rc_steps demo_recipe)) demo_out demo_list"
  "outputs_ok demo_contracts (step_map (rc_steps demo_recipe)) demo_out demo_send"
  by code_simp+

lemma demo_steps: "rc_steps demo_recipe = [demo_list, demo_send]"
  by (simp add: demo_recipe_def)

text \<open>C5. Dataflow of an admitted recipe is type-sound. If \<open>Validate\<close> accepts a recipe, then for every step,
  whatever task value of the task schema and whatever outputs of the output schemas its predecessors gave,
  the items the step runs for exist and, for each of them, every mapped pointer resolves and the assembled
  input object satisfies the closed input schema of the contract the step calls.\<close>

theorem recipe_dataflow_sound:
  assumes "validate env d cs = None" "s \<in> set (rc_steps d)" "value_ok (rc_task_schema d) task"
    "outputs_ok cs (step_map (rc_steps d)) out s"
  shows "\<exists>c items. cs (st_requirement s) = Some c \<and> step_items out s = Some items
      \<and> (\<forall>item \<in> set items. \<exists>m. step_input task out item (st_inputs s) = Some m \<and> value_ok (ct_input c) (VObject m))"
  using assms by (rule validate_dataflow)

theorem recipe_dataflow_sound_witness:
  "\<exists>c items. demo_contracts (st_requirement demo_send) = Some c \<and> step_items demo_out demo_send = Some items
     \<and> (\<forall>item \<in> set items. \<exists>m. step_input demo_task demo_out item (st_inputs demo_send) = Some m \<and> value_ok (ct_input c) (VObject m))"
  by (rule recipe_dataflow_sound [OF demo_valid _ demo_task_ok demo_outputs(2)]) (simp add: demo_steps)

text \<open>C30. An admitted recipe can be run in order: there is a numbering of the steps in which every predecessor a
  step names is a step of the recipe with a smaller number, named once, and never optional where the step
  itself is required.\<close>

theorem recipe_graph_ordered:
  assumes "validate env d cs = None"
  shows "\<exists>r. \<forall>s \<in> set (rc_steps d). graph_ok (step_map (rc_steps d)) (requirement_map (rc_requirements d)) r s"
  using assms by (rule validate_graph)

theorem recipe_graph_ordered_witness:
  "\<exists>r. \<forall>s \<in> set (rc_steps demo_recipe).
     graph_ok (step_map (rc_steps demo_recipe)) (requirement_map (rc_requirements demo_recipe)) r s"
  by (rule recipe_graph_ordered [OF demo_valid])

text \<open>The cycle search is exact and ends. On a list of steps with distinct identifiers whose graph has such a
  numbering, the loop over the steps fails only when the dataflow check of some step fails, with that
  step's error; in particular neither a cycle nor a used-up recursion bound is ever reported.\<close>

theorem recipe_cycle_search_complete:
  assumes "distinct (map st_id (rc_steps d))"
    and "\<forall>s \<in> set (rc_steps d). graph_ok (step_map (rc_steps d)) reqs r s"
    and "check_steps d cs (step_map (rc_steps d)) reqs (\<lambda>_. 0) 0 0 (rc_steps d) = Inl e"
  shows "\<exists>s \<in> set (rc_steps d). dataflow_step d cs (step_map (rc_steps d)) s = Inl e"
proof (rule check_steps_accepts [OF assms(3) step_map_finite _ step_map_own])
  show "card (dom (step_map (rc_steps d))) \<le> length (rc_steps d)"
    unfolding step_map_dom by (metis card_image_le card_length finite_set le_trans)
  show "\<forall>j t. step_map (rc_steps d) j = Some t \<longrightarrow> graph_ok (step_map (rc_steps d)) reqs r t"
    using assms(2) step_map_in by blast
qed (use assms(1) step_map_mem in \<open>auto simp: colours_def\<close>)

definition bad_recipe :: recipe where
  "bad_recipe = demo_recipe\<lparr>rc_steps := [demo_list, demo_send\<lparr>st_inputs := []\<rparr>]\<rparr>"

theorem recipe_cycle_search_complete_witness:
  "\<exists>s \<in> set (rc_steps bad_recipe). dataflow_step bad_recipe demo_contracts (step_map (rc_steps bad_recipe)) s
     = Inl ''missing required input''"
proof (rule recipe_cycle_search_complete [where r = "\<lambda>i. if i = ''a'' then 0 else 1" and reqs = "requirement_map (rc_requirements bad_recipe)"])
  show "distinct (map st_id (rc_steps bad_recipe))" by code_simp
  show "\<forall>s \<in> set (rc_steps bad_recipe).
      graph_ok (step_map (rc_steps bad_recipe)) (requirement_map (rc_requirements bad_recipe)) (\<lambda>i. if i = ''a'' then 0 else 1) s"
    by (simp add: bad_recipe_def demo_recipe_def demo_list_def demo_send_def graph_ok_def step_map_def is_optional_def requirement_map_def)
  show "check_steps bad_recipe demo_contracts (step_map (rc_steps bad_recipe)) (requirement_map (rc_requirements bad_recipe))
     (\<lambda>_. 0) 0 0 (rc_steps bad_recipe) = Inl ''missing required input''" by code_simp
qed

text \<open>C31. An admitted recipe never needs more calls or iterations than it declares: with outputs of the declared
  schemas, the number of calls all its steps make, one per item of the arrays really iterated over, is
  within \<open>max_calls\<close>, and the calls made inside iterations are within \<open>max_iterations\<close>.\<close>

theorem recipe_within_budget:
  assumes "validate env d cs = None" "value_ok (rc_task_schema d) task"
    "\<forall>s \<in> set (rc_steps d). outputs_ok cs (step_map (rc_steps d)) out s"
  shows "run_calls out (rc_steps d) \<le> li_max_calls (rc_limits d)
      \<and> run_iterations out (rc_steps d) \<le> li_max_iterations (rc_limits d)"
  using assms by (rule validate_budget)

theorem recipe_within_budget_witness:
  "run_calls demo_out (rc_steps demo_recipe) \<le> li_max_calls (rc_limits demo_recipe)
      \<and> run_iterations demo_out (rc_steps demo_recipe) \<le> li_max_iterations (rc_limits demo_recipe)"
  by (rule recipe_within_budget [OF demo_valid demo_task_ok]) (use demo_outputs in \<open>simp add: demo_steps\<close>)

text \<open>The runtime accounting is exact. Starting within the limits, a sequence of reported operations is
  accepted as a whole exactly when no size is negative and the totals it adds up to are within every limit,
  and the accounting then holds those totals: nothing over a limit is ever admitted and nothing within the
  limits is refused.\<close>

theorem usage_accounting_exact:
  assumes "valid_limits l" "usage_within l u"
  shows "consume_all l ops u = Some u' \<longleftrightarrow> ops_ok ops \<and> u' = usage_total ops u \<and> usage_within l u'"
  using assms by (rule consume_all_exact)

definition no_usage :: usage where
  "no_usage = \<lparr>us_calls = 0, us_iterations = 0, us_input_bytes = 0, us_output_bytes = 0\<rparr>"

theorem usage_accounting_exact_witness:
  "consume_all demo_limits [(False, 60, 10), (True, 40, 90)] no_usage
     = Some (usage_total [(False, 60, 10), (True, 40, 90)] no_usage)"
  by (subst usage_accounting_exact; code_simp)

end
