(* ===== verification/ScopedIndex.thy ===== *)
theory ScopedIndex
  imports Discovery Composition "HOL-Library.AList" "HOL-Library.Multiset"
begin

text \<open>
  \<open>catalog/discovery/scoped_index.go\<close>: the inverted index of one authority scope. A Go map is an
  association list without repeated keys and a set of references a list without repetitions; where the
  code ranges over a map, the results below do not depend on the order. The policy gate and the
  authorizer may answer differently every time they are asked: an operation gets a schedule, the answers
  at its successive instants. The JSON of a candidate binding, by which \<open>Lookup\<close> sorts, is a parameter.
\<close>

record tool_connection =
  tc_scope :: string
  tc_id :: string
  tc_version :: string
  tc_account :: string
  tc_generation :: string

record binding_candidate =
  bc_binding :: artifact_pin
  bc_tool :: artifact_pin
  bc_provider :: artifact_pin
  bc_contract_digest :: string
  bc_adapter_version :: string
  bc_fixture_digest :: string
  bc_connection :: tool_connection
  bc_admitted :: bool

record index_scope =
  is_principal :: principal_rec
  is_runtime :: string

record indexed_binding =
  ib_requirement :: requirement
  ib_candidate :: binding_candidate

record index_entry =
  ie_record :: catalog_record
  ie_bindings :: "indexed_binding list"

type_synonym capability_key = "string \<times> string \<times> string"

record indexed_entry =
  xe_candidate :: candidate
  xe_terms :: "string list"
  xe_lexical :: lexical_index
  xe_bindings :: "indexed_binding list"

record index_snapshot =
  sn_generation :: nat
  sn_entries :: "(artifact_ref \<times> indexed_entry) list"
  sn_postings :: "(string \<times> artifact_ref list) list"
  sn_bindings :: "(capability_key \<times> binding_candidate list) list"

record scoped_index =
  si_scope :: index_scope
  si_current :: index_snapshot
  si_previous :: "index_snapshot option"

text \<open>The tables and decoders that do not change, and the answers of the gate and of the authorizer at one
  instant: \<open>iw_check\<close> is the context being live and the policy accepting the scope.\<close>

record index_tables =
  it_metadata :: "string \<Rightarrow> discovery_metadata option"
  it_lexical :: "string \<Rightarrow> lexical_metadata option"
  it_lower :: "nat \<Rightarrow> nat"
  it_alnum :: "nat \<Rightarrow> bool"
  it_canon :: "nat \<Rightarrow> nat"
  it_row_json :: "binding_candidate \<Rightarrow> string"

record index_world =
  iw_check :: "index_scope \<Rightarrow> bool"
  iw_decide :: authorizer

datatype index_error =
  IndexInvalid | ScopeMismatch | PolicyRejected | GenerationChanged | AccessDenied | InvalidEntry
| DuplicateReference | InvalidSearchBudget | TooManyTerms | ResponseBudget | NoPrevious

definition max_index_query_bytes :: nat where "max_index_query_bytes = 1024"
definition max_index_query_terms :: nat where "max_index_query_terms = 32"
definition max_index_examined :: int where "max_index_examined = 4096"
definition max_index_results :: int where "max_index_results = 64"
definition max_index_response_bytes :: int where "max_index_response_bytes = 256 * 2 ^ 10"
definition max_index_metadata_bytes :: nat where "max_index_metadata_bytes = 256 * 2 ^ 10"

definition scope_key :: "index_scope \<Rightarrow> index_scope" where
  "scope_key s = s\<lparr>is_principal := (is_principal s)\<lparr>pn_scopes := sort (pn_scopes (is_principal s))\<rparr>\<rparr>"

definition begin_read :: "index_world \<Rightarrow> scoped_index \<Rightarrow> index_scope \<Rightarrow> nat \<Rightarrow> index_error + index_snapshot" where
  "begin_read w x scope generation =
     (if scope_key scope \<noteq> scope_key (si_scope x) then Inl ScopeMismatch
      else if \<not> iw_check w (si_scope x) then Inl PolicyRejected
      else if generation \<noteq> 0 \<and> sn_generation (si_current x) \<noteq> generation then Inl GenerationChanged
      else Inr (si_current x))"

text \<open>\<open>finish\<close> compares pointers; a snapshot holds the generation it was published under, so two published
  snapshots that are equal are the same one.\<close>

definition finish_read :: "index_world \<Rightarrow> scoped_index \<Rightarrow> index_snapshot \<Rightarrow> index_error option" where
  "finish_read w x s =
     (if \<not> iw_check w (si_scope x) then Some PolicyRejected
      else if si_current x \<noteq> s then Some GenerationChanged else None)"

definition authorize_ref :: "index_world \<Rightarrow> index_scope \<Rightarrow> artifact_ref \<Rightarrow> bool" where
  "authorize_ref w scope ref =
     (case iw_decide w (is_principal scope) action_read ref of None \<Rightarrow> False | Some d \<Rightarrow> dc_allowed d)"

definition key_for :: "requirement \<Rightarrow> capability_key" where
  "key_for r = (rq_capability r, rq_contract_version r, rq_contract_digest r)"

text \<open>Lower-case hexadecimal digits, 64 of them; the loop is over runes, but the length is in bytes.\<close>

definition valid_digest :: "string \<Rightarrow> bool" where
  "valid_digest s \<longleftrightarrow> length s = 64 \<and> list_all is_lower_hex s"

definition entry_texts :: "document \<Rightarrow> string list" where
  "entry_texts d = [doc_id d, doc_logical_name d, doc_kind d, doc_description d] @ doc_capabilities d @ doc_taxonomy d"

definition binding_evidence_ok :: "catalog_record \<Rightarrow> indexed_binding \<Rightarrow> bool" where
  "binding_evidence_ok r b =
     (let v = ib_candidate b; q = ib_requirement b in
      ar_kind (cr_ref r) = kind_binding \<and> ap_ref (bc_binding v) = cr_ref r \<and> ap_digest (bc_binding v) = cr_digest r
      \<and> bc_admitted v \<and> bc_contract_digest v = rq_contract_digest q \<and> valid_digest (bc_contract_digest v)
      \<and> rq_capability q \<noteq> [] \<and> rq_contract_version q \<noteq> []
      \<and> ar_workspace (ap_ref (bc_tool v)) = ar_workspace (cr_ref r)
      \<and> ar_workspace (ap_ref (bc_provider v)) = ar_workspace (cr_ref r)
      \<and> ar_kind (ap_ref (bc_tool v)) = kind_tool \<and> ar_kind (ap_ref (bc_provider v)) = kind_provider
      \<and> ar_id (ap_ref (bc_tool v)) \<noteq> [] \<and> ar_version (ap_ref (bc_tool v)) \<noteq> []
      \<and> ar_id (ap_ref (bc_provider v)) \<noteq> [] \<and> ar_version (ap_ref (bc_provider v)) \<noteq> [])"

fun bindings_error :: "index_world \<Rightarrow> index_scope \<Rightarrow> catalog_record \<Rightarrow> indexed_binding list \<Rightarrow> index_error option" where
  "bindings_error w scope r [] = None"
| "bindings_error w scope r (b # bs) =
     (if \<not> binding_evidence_ok r b then Some InvalidEntry
      else if \<not> (authorize_ref w scope (ap_ref (bc_tool (ib_candidate b)))
                 \<and> authorize_ref w scope (ap_ref (bc_provider (ib_candidate b)))) then Some AccessDenied
      else bindings_error w scope r bs)"

definition analyze :: "index_tables \<Rightarrow> index_world \<Rightarrow> index_scope \<Rightarrow> index_entry \<Rightarrow> index_error + indexed_entry" where
  "analyze tb w scope e =
     (let r = ie_record e; ref = cr_ref r in
      if ar_workspace ref \<noteq> pn_workspace (is_principal scope) \<or> ar_id ref = [] \<or> ar_version ref = [] \<or> ar_kind ref = []
      then Inl InvalidEntry
      else if \<not> listed_state (cr_state r) then Inl InvalidEntry
      else if length (cr_metadata r) > max_index_metadata_bytes then Inl InvalidEntry
      else if \<not> authorize_ref w scope ref then Inl AccessDenied
      else (case candidate_from_record (it_metadata tb) r of
          None \<Rightarrow> Inl InvalidEntry
        | Some c \<Rightarrow>
            (case document_from_metadata (ar_kind ref) (ar_id ref)
                    (if cr_metadata r = [] then Some empty_metadata else it_lexical tb (cr_metadata r)) of
               None \<Rightarrow> Inl InvalidEntry
             | Some d \<Rightarrow>
                 if int (length (ie_bindings e)) > max_index_results then Inl InvalidEntry
                 else (case bindings_error w scope r (ie_bindings e) of
                     Some err \<Rightarrow> Inl err
                   | None \<Rightarrow> Inr \<lparr>xe_candidate = c,
                        xe_terms = query (it_lower tb) (it_alnum tb) (go_join (entry_texts d) '' ''),
                        xe_lexical = new_index (it_lower tb) (it_alnum tb) d, xe_bindings = ie_bindings e\<rparr>))))"

subsection \<open>Building a snapshot\<close>

definition rows_at :: "('k \<times> 'v list) list \<Rightarrow> 'k \<Rightarrow> 'v list" where
  "rows_at m k = (case map_of m k of None \<Rightarrow> [] | Some xs \<Rightarrow> xs)"

definition empty_snapshot :: index_snapshot where
  "empty_snapshot = \<lparr>sn_generation = 0, sn_entries = [], sn_postings = [], sn_bindings = []\<rparr>"

definition add_entry :: "artifact_ref \<Rightarrow> indexed_entry \<Rightarrow> index_snapshot \<Rightarrow> index_snapshot" where
  "add_entry ref v s = s\<lparr>sn_entries := AList.update ref v (sn_entries s),
     sn_postings := foldl (\<lambda>p t. AList.update t (List.insert ref (rows_at p t)) p) (sn_postings s) (xe_terms v),
     sn_bindings := foldl (\<lambda>m b. AList.update (key_for (ib_requirement b))
                               (rows_at m (key_for (ib_requirement b)) @ [ib_candidate b]) m) (sn_bindings s) (xe_bindings v)\<rparr>"

fun build_loop ::
  "index_tables \<Rightarrow> index_world \<Rightarrow> index_scope \<Rightarrow> index_snapshot \<Rightarrow> index_entry list \<Rightarrow> index_error + index_snapshot" where
  "build_loop tb w scope s [] = Inr s"
| "build_loop tb w scope s (e # es) =
     (if map_of (sn_entries s) (cr_ref (ie_record e)) \<noteq> None then Inl DuplicateReference
      else (case analyze tb w scope e of
          Inl err \<Rightarrow> Inl err
        | Inr v \<Rightarrow> build_loop tb w scope (add_entry (cr_ref (ie_record e)) v s) es))"

type_synonym schedule = "nat \<Rightarrow> index_world"

definition build :: "index_tables \<Rightarrow> schedule \<Rightarrow> index_scope \<Rightarrow> index_entry list \<Rightarrow> index_error + index_snapshot" where
  "build tb sch scope entries =
     (if \<not> iw_check (sch 0) scope then Inl PolicyRejected
      else (case build_loop tb (sch 1) scope empty_snapshot entries of
          Inl err \<Rightarrow> Inl err
        | Inr s \<Rightarrow> if \<not> iw_check (sch 2) scope then Inl PolicyRejected else Inr s))"

definition new_scoped_index ::
  "index_tables \<Rightarrow> schedule \<Rightarrow> index_scope \<Rightarrow> index_entry list \<Rightarrow> index_error + scoped_index" where
  "new_scoped_index tb sch scope entries =
     (if pn_workspace (is_principal scope) = [] \<or> pn_subject (is_principal scope) = [] \<or> is_runtime scope = []
      then Inl IndexInvalid
      else (case build tb sch scope entries of
          Inl err \<Rightarrow> Inl err
        | Inr s \<Rightarrow> Inr \<lparr>si_scope = scope, si_current = s\<lparr>sn_generation := 1\<rparr>, si_previous = None\<rparr>))"

subsection \<open>Reading\<close>

definition exact_lookup ::
  "schedule \<Rightarrow> scoped_index \<Rightarrow> scoped_index \<Rightarrow> index_scope \<Rightarrow> artifact_ref \<Rightarrow> index_error + candidate option" where
  "exact_lookup sch x1 x2 scope ref =
     (case begin_read (sch 0) x1 scope 0 of
        Inl err \<Rightarrow> Inl err
      | Inr s \<Rightarrow>
          if ar_workspace ref \<noteq> pn_workspace (is_principal scope) then Inl ScopeMismatch
          else (let e = map_of (sn_entries s) ref in
            if e \<noteq> None \<and> \<not> authorize_ref (sch 1) (si_scope x1) ref then Inl AccessDenied
            else (case finish_read (sch 2) x2 s of
                Some err \<Rightarrow> Inl err
              | None \<Rightarrow> Inr (map_option xe_candidate e))))"

record index_search =
  iq_scope :: index_scope
  iq_generation :: nat
  iq_query :: string
  iq_kinds :: "string list"
  iq_tags :: "string list"
  iq_limit :: int
  iq_max_examined :: int
  iq_max_bytes :: int

record index_answer =
  ir_complete :: bool
  ir_generation :: nat
  ir_candidates :: "candidate list"

definition json_result :: "index_answer \<Rightarrow> string" where
  "json_result r = json_object [(''status'', Some (json_string (if ir_complete r then ''complete'' else ''incomplete_budget''))),
     (''generation'', Some (json_int (int (ir_generation r)))),
     (''candidates'', Some (json_list (map json_candidate (ir_candidates r))))]"

text \<open>The loop over the postings of the query terms; \<open>None\<close> is the budget used up.\<close>

fun examine :: "int \<Rightarrow> int \<Rightarrow> artifact_ref list \<Rightarrow> artifact_ref list \<Rightarrow> artifact_ref list option" where
  "examine max_examined n seen [] = Some seen"
| "examine max_examined n seen (r # rs) =
     (if n = max_examined then None else examine max_examined (n + 1) (List.insert r seen) rs)"

definition complete_search :: "index_world \<Rightarrow> scoped_index \<Rightarrow> index_snapshot \<Rightarrow> int \<Rightarrow> index_answer \<Rightarrow> index_error + index_answer" where
  "complete_search w x2 s max_bytes out =
     (case finish_read w x2 s of
        Some err \<Rightarrow> Inl err
      | None \<Rightarrow> if int (length (json_result out)) > max_bytes then Inl ResponseBudget else Inr out)"

definition rank_entries ::
  "index_tables \<Rightarrow> index_search \<Rightarrow> string list \<Rightarrow> index_snapshot \<Rightarrow> artifact_ref list \<Rightarrow> (candidate \<times> lexical_match) list" where
  "rank_entries tb q ts s refs = List.map_filter (\<lambda>ref.
     (case map_of (sn_entries s) ref of
        None \<Rightarrow> None
      | Some e \<Rightarrow> if matches_filters (it_canon tb) (xe_candidate e) (iq_kinds q) (iq_tags q)
                  then Some (xe_candidate e, index_score (xe_lexical e) ts) else None)) refs"

definition search_budget_ok :: "index_search \<Rightarrow> bool" where
  "search_budget_ok q \<longleftrightarrow> \<not> (length (iq_query q) > max_index_query_bytes \<or> iq_limit q \<le> 0 \<or> iq_limit q > max_index_results
     \<or> iq_max_examined q \<le> 0 \<or> iq_max_examined q > max_index_examined \<or> iq_max_bytes q \<le> 0
     \<or> iq_max_bytes q > max_index_response_bytes \<or> length (iq_kinds q) > 64 \<or> length (iq_tags q) > 64)"

definition search_index ::
  "index_tables \<Rightarrow> schedule \<Rightarrow> scoped_index \<Rightarrow> scoped_index \<Rightarrow> index_search \<Rightarrow> index_error + index_answer" where
  "search_index tb sch x1 x2 q =
     (case begin_read (sch 0) x1 (iq_scope q) (iq_generation q) of
        Inl err \<Rightarrow> Inl err
      | Inr s \<Rightarrow>
          if \<not> search_budget_ok q then Inl InvalidSearchBudget
          else (let ts = query (it_lower tb) (it_alnum tb) (iq_query q) in
            if length ts > max_index_query_terms then Inl TooManyTerms
            else (let out = \<lparr>ir_complete = True, ir_generation = sn_generation s, ir_candidates = []\<rparr> in
              case examine (iq_max_examined q) 0 [] (concat (map (rows_at (sn_postings s)) ts)) of
                None \<Rightarrow> complete_search (sch 2) x2 s (iq_max_bytes q) (out\<lparr>ir_complete := False\<rparr>)
              | Some seen \<Rightarrow>
                  if \<not> list_all (authorize_ref (sch 1) (si_scope x1)) seen then Inl AccessDenied
                  else (let ranked = stable_sort ranked_before (rank_entries tb q ts s seen);
                            out' = out\<lparr>ir_candidates := take (nat (iq_limit q)) (map fst ranked)\<rparr>
                    in complete_search (sch 2) x2 s (iq_max_bytes q)
                         (if int (length (json_result out')) > iq_max_bytes q
                          then out\<lparr>ir_complete := False\<rparr> else out')))))"

record binding_query =
  bq_principal :: principal_rec
  bq_runtime :: string
  bq_requirement :: requirement
  bq_limit :: int

record binding_rows =
  br_items :: "binding_candidate list"
  br_complete :: bool

definition lookup_bindings ::
  "index_tables \<Rightarrow> schedule \<Rightarrow> scoped_index \<Rightarrow> scoped_index \<Rightarrow> binding_query \<Rightarrow> index_error + binding_rows" where
  "lookup_bindings tb sch x1 x2 q =
     (case begin_read (sch 0) x1 \<lparr>is_principal = bq_principal q, is_runtime = bq_runtime q\<rparr> 0 of
        Inl err \<Rightarrow> Inl err
      | Inr s \<Rightarrow>
          if bq_limit q \<le> 0 \<or> bq_limit q > max_index_results then Inl InvalidSearchBudget
          else (let rows = rows_at (sn_bindings s) (key_for (bq_requirement q));
                    complete = (int (length rows) \<le> bq_limit q)
            in if complete \<and> \<not> list_all (\<lambda>v. authorize_ref (sch 1) (si_scope x1) (ap_ref (bc_binding v))
                      \<and> authorize_ref (sch 1) (si_scope x1) (ap_ref (bc_tool v))
                      \<and> authorize_ref (sch 1) (si_scope x1) (ap_ref (bc_provider v))) rows
               then Inl AccessDenied
               else (case finish_read (sch 2) x2 s of
                   Some err \<Rightarrow> Inl err
                 | None \<Rightarrow> Inr \<lparr>br_items = (if complete then stable_sort (\<lambda>a b. it_row_json tb a < it_row_json tb b) rows else []),
                                br_complete = complete\<rparr>)))"

subsection \<open>Writing\<close>

definition publish :: "index_world \<Rightarrow> scoped_index \<Rightarrow> nat \<Rightarrow> index_snapshot \<Rightarrow> index_error + scoped_index" where
  "publish w x expected s =
     (if \<not> iw_check w (si_scope x) then Inl PolicyRejected
      else if sn_generation (si_current x) \<noteq> expected \<or> expected = 2 ^ 64 - 1 then Inl GenerationChanged
      else Inr (x\<lparr>si_current := s\<lparr>sn_generation := expected + 1\<rparr>, si_previous := Some (si_current x)\<rparr>))"

type_synonym index_changes = "(artifact_ref \<times> indexed_entry option) list"

fun removal_changes :: "index_scope \<Rightarrow> artifact_ref list \<Rightarrow> index_changes \<Rightarrow> index_error + index_changes" where
  "removal_changes scope [] ch = Inr ch"
| "removal_changes scope (ref # refs) ch =
     (if ar_workspace ref \<noteq> pn_workspace (is_principal scope) then Inl ScopeMismatch
      else removal_changes scope refs (AList.update ref None ch))"

fun upsert_changes ::
  "index_tables \<Rightarrow> index_world \<Rightarrow> index_scope \<Rightarrow> index_entry list \<Rightarrow> index_changes \<Rightarrow> index_error + index_changes" where
  "upsert_changes tb w scope [] ch = Inr ch"
| "upsert_changes tb w scope (e # es) ch =
     (if map_of ch (cr_ref (ie_record e)) \<noteq> None then Inl DuplicateReference
      else (case analyze tb w scope e of
          Inl err \<Rightarrow> Inl err
        | Inr v \<Rightarrow> upsert_changes tb w scope es (AList.update (cr_ref (ie_record e)) (Some v) ch)))"

definition touched_terms :: "index_snapshot \<Rightarrow> index_changes \<Rightarrow> string list" where
  "touched_terms old ch = remdups (concat (map (\<lambda>(ref, v).
     (case map_of (sn_entries old) ref of None \<Rightarrow> [] | Some e \<Rightarrow> xe_terms e)
     @ (case v of None \<Rightarrow> [] | Some e \<Rightarrow> xe_terms e)) ch))"

definition touched_bindings :: "index_snapshot \<Rightarrow> index_changes \<Rightarrow> capability_key list" where
  "touched_bindings old ch = remdups (concat (map (\<lambda>(ref, v).
     (case map_of (sn_entries old) ref of None \<Rightarrow> [] | Some e \<Rightarrow> map (key_for \<circ> ib_requirement) (xe_bindings e))
     @ (case v of None \<Rightarrow> [] | Some e \<Rightarrow> map (key_for \<circ> ib_requirement) (xe_bindings e))) ch))"

definition change_entry :: "(artifact_ref \<times> indexed_entry) list \<Rightarrow> artifact_ref \<times> indexed_entry option \<Rightarrow> (artifact_ref \<times> indexed_entry) list" where
  "change_entry es c = (case snd c of None \<Rightarrow> AList.delete (fst c) es | Some v \<Rightarrow> AList.update (fst c) v es)"

definition new_posting :: "index_snapshot \<Rightarrow> index_changes \<Rightarrow> string \<Rightarrow> artifact_ref list" where
  "new_posting old ch t =
     filter (\<lambda>ref. map_of ch ref = None) (rows_at (sn_postings old) t)
     @ map fst (filter (\<lambda>(ref, v). case v of None \<Rightarrow> False | Some e \<Rightarrow> t \<in> set (xe_terms e)) ch)"

definition entry_rows :: "capability_key \<Rightarrow> indexed_entry \<Rightarrow> binding_candidate list" where
  "entry_rows k e = map ib_candidate (filter (\<lambda>b. key_for (ib_requirement b) = k) (xe_bindings e))"

definition new_rows :: "index_snapshot \<Rightarrow> index_changes \<Rightarrow> capability_key \<Rightarrow> binding_candidate list" where
  "new_rows old ch k =
     filter (\<lambda>v. map_of ch (ap_ref (bc_binding v)) = None) (rows_at (sn_bindings old) k)
     @ concat (map (\<lambda>(ref, v). case v of None \<Rightarrow> [] | Some e \<Rightarrow> entry_rows k e) ch)"

definition put_rows :: "('k \<Rightarrow> 'v list) \<Rightarrow> ('k \<times> 'v list) list \<Rightarrow> 'k \<Rightarrow> ('k \<times> 'v list) list" where
  "put_rows f m k = (if f k = [] then AList.delete k m else AList.update k (f k) m)"

definition apply_changes :: "index_snapshot \<Rightarrow> index_changes \<Rightarrow> index_snapshot" where
  "apply_changes old ch =
     \<lparr>sn_generation = 0, sn_entries = foldl change_entry (sn_entries old) ch,
      sn_postings = foldl (put_rows (new_posting old ch)) (sn_postings old) (touched_terms old ch),
      sn_bindings = foldl (put_rows (new_rows old ch)) (sn_bindings old) (touched_bindings old ch)\<rparr>"

definition prepare_update ::
  "index_tables \<Rightarrow> schedule \<Rightarrow> scoped_index \<Rightarrow> nat \<Rightarrow> index_entry list \<Rightarrow> artifact_ref list \<Rightarrow> index_error + index_snapshot" where
  "prepare_update tb sch x expected upserts refs =
     (case begin_read (sch 0) x (si_scope x) expected of
        Inl err \<Rightarrow> Inl err
      | Inr old \<Rightarrow> (case removal_changes (si_scope x) refs [] of
            Inl err \<Rightarrow> Inl err
          | Inr ch0 \<Rightarrow> (case upsert_changes tb (sch 1) (si_scope x) upserts ch0 of
                Inl err \<Rightarrow> Inl err
              | Inr ch \<Rightarrow> Inr (apply_changes old ch))))"

definition prepare_rollback :: "index_world \<Rightarrow> scoped_index \<Rightarrow> nat \<Rightarrow> index_error + index_snapshot" where
  "prepare_rollback w x expected =
     (if \<not> iw_check w (si_scope x) then Inl PolicyRejected
      else if sn_generation (si_current x) \<noteq> expected then Inl GenerationChanged
      else (case si_previous x of None \<Rightarrow> Inl NoPrevious | Some p \<Rightarrow> Inr (p\<lparr>sn_generation := 0\<rparr>)))"

text \<open>The three writing operations, each prepared on the index it saw first and published on the index at
  its end.\<close>

definition update_index ::
  "index_tables \<Rightarrow> schedule \<Rightarrow> scoped_index \<Rightarrow> scoped_index \<Rightarrow> nat \<Rightarrow> index_entry list \<Rightarrow> artifact_ref list \<Rightarrow> index_error + scoped_index" where
  "update_index tb sch x1 x2 expected upserts refs =
     (case prepare_update tb sch x1 expected upserts refs of Inl err \<Rightarrow> Inl err | Inr s \<Rightarrow> publish (sch 2) x2 expected s)"

definition rebuild_index ::
  "index_tables \<Rightarrow> schedule \<Rightarrow> scoped_index \<Rightarrow> scoped_index \<Rightarrow> nat \<Rightarrow> index_entry list \<Rightarrow> index_error + scoped_index" where
  "rebuild_index tb sch x1 x2 expected entries =
     (case build tb sch (si_scope x1) entries of Inl err \<Rightarrow> Inl err | Inr s \<Rightarrow> publish (sch 3) x2 expected s)"

definition rollback_index :: "schedule \<Rightarrow> scoped_index \<Rightarrow> scoped_index \<Rightarrow> nat \<Rightarrow> index_error + scoped_index" where
  "rollback_index sch x1 x2 expected =
     (case prepare_rollback (sch 0) x1 expected of Inl err \<Rightarrow> Inl err | Inr s \<Rightarrow> publish (sch 1) x2 expected s)"

subsection \<open>Coherence of a snapshot\<close>

text \<open>The entries have one row per reference, a posting lists exactly the references whose entry has the term,
  and the rows of a capability are, counting repetitions, those of the entries.\<close>

definition entry_sound :: "index_tables \<Rightarrow> index_scope \<Rightarrow> artifact_ref \<Rightarrow> indexed_entry \<Rightarrow> bool" where
  "entry_sound tb scope ref e \<longleftrightarrow> ar_workspace ref = pn_workspace (is_principal scope) \<and> cd_ref (xe_candidate e) = ref
     \<and> (\<forall>b \<in> set (xe_bindings e). ap_ref (bc_binding (ib_candidate b)) = ref \<and> bc_admitted (ib_candidate b)
          \<and> bc_contract_digest (ib_candidate b) = rq_contract_digest (ib_requirement b))
     \<and> (\<exists>d. xe_terms e = query (it_lower tb) (it_alnum tb) (go_join (entry_texts d) '' '')
          \<and> xe_lexical e = new_index (it_lower tb) (it_alnum tb) d)"

definition coherent :: "index_tables \<Rightarrow> index_scope \<Rightarrow> index_snapshot \<Rightarrow> bool" where
  "coherent tb scope s \<longleftrightarrow> distinct (map fst (sn_entries s))
     \<and> (\<forall>(ref, e) \<in> set (sn_entries s). entry_sound tb scope ref e)
     \<and> (\<forall>t. set (rows_at (sn_postings s) t) = {ref. \<exists>e. (ref, e) \<in> set (sn_entries s) \<and> t \<in> set (xe_terms e)})
     \<and> (\<forall>k. mset (rows_at (sn_bindings s) k) = (\<Sum>(ref, e) \<in> set (sn_entries s). mset (entry_rows k e)))"

lemma rows_at_update [simp]: "rows_at (AList.update k xs m) j = (if j = k then xs else rows_at m j)"
  by (simp add: rows_at_def update_conv')

lemma rows_at_delete [simp]: "rows_at (AList.delete k m) j = (if j = k then [] else rows_at m j)"
  by (simp add: rows_at_def delete_conv')

lemma rows_at_put [simp]: "rows_at (put_rows f m k) j = (if j = k then f k else rows_at m j)"
  by (simp add: put_rows_def)

lemma rows_at_put_all: "rows_at (foldl (put_rows f) m ks) j = (if j \<in> set ks then f j else rows_at m j)"
  by (induction ks arbitrary: m) auto

lemma update_fresh: "k \<notin> fst ` set m \<Longrightarrow> AList.update k v m = m @ [(k, v)]"
  by (induction m) auto

lemma set_update_subset: "p \<in> set (AList.update k v m) \<Longrightarrow> p = (k, v) \<or> p \<in> set m"
  by (induction m) (auto split: if_splits)

lemma distinct_map_of_set: "distinct (map fst m) \<Longrightarrow> (k, v) \<in> set m \<longleftrightarrow> map_of m k = Some v"
  by simp

lemma bindings_error_none:
  "bindings_error w scope r bs = None \<Longrightarrow> b \<in> set bs \<Longrightarrow> binding_evidence_ok r b
     \<and> authorize_ref w scope (ap_ref (bc_tool (ib_candidate b))) \<and> authorize_ref w scope (ap_ref (bc_provider (ib_candidate b)))"
  by (induction bs) (auto split: if_splits)

lemma analyze_sound:
  assumes "analyze tb w scope e = Inr v"
  shows "entry_sound tb scope (cr_ref (ie_record e)) v \<and> authorize_ref w scope (cr_ref (ie_record e))
     \<and> listed_state (cr_state (ie_record e)) \<and> xe_bindings v = ie_bindings e"
proof -
  let ?r = "ie_record e"
  obtain c d where v: "ar_workspace (cr_ref ?r) = pn_workspace (is_principal scope)" "listed_state (cr_state ?r)"
      "authorize_ref w scope (cr_ref ?r)" "candidate_from_record (it_metadata tb) ?r = Some c"
      "bindings_error w scope ?r (ie_bindings e) = None"
      "v = \<lparr>xe_candidate = c, xe_terms = query (it_lower tb) (it_alnum tb) (go_join (entry_texts d) '' ''),
            xe_lexical = new_index (it_lower tb) (it_alnum tb) d, xe_bindings = ie_bindings e\<rparr>"
    using assms by (auto simp: analyze_def Let_def split: if_splits option.splits)
  have "cd_ref c = cr_ref ?r" using v(4) by (auto simp: candidate_from_record_def bind_Some_iff split: if_splits)
  moreover have "ap_ref (bc_binding (ib_candidate b)) = cr_ref ?r \<and> bc_admitted (ib_candidate b)
      \<and> bc_contract_digest (ib_candidate b) = rq_contract_digest (ib_requirement b)" if "b \<in> set (ie_bindings e)" for b
    using bindings_error_none [OF v(5) that] by (simp add: binding_evidence_ok_def Let_def)
  ultimately show ?thesis using v(1-3) unfolding entry_sound_def v(6) by auto
qed

lemma coherent_distinct: "coherent tb scope s \<Longrightarrow> distinct (map fst (sn_entries s))"
  unfolding coherent_def by blast

lemma coherent_sound: "coherent tb scope s \<Longrightarrow> (ref, e) \<in> set (sn_entries s) \<Longrightarrow> entry_sound tb scope ref e"
  unfolding coherent_def by blast

lemma coherent_posting:
  "coherent tb scope s \<Longrightarrow> set (rows_at (sn_postings s) t) = {ref. \<exists>e. (ref, e) \<in> set (sn_entries s) \<and> t \<in> set (xe_terms e)}"
  unfolding coherent_def by blast

lemma coherent_rows:
  "coherent tb scope s \<Longrightarrow> mset (rows_at (sn_bindings s) k) = (\<Sum>(ref, e) \<in> set (sn_entries s). mset (entry_rows k e))"
  unfolding coherent_def by blast

lemma in_sum_mset: "finite A \<Longrightarrow> v \<in># sum f A \<longleftrightarrow> (\<exists>x \<in> A. v \<in># f x)"
  by (induction A rule: finite_induct) auto

lemma coherent_empty: "coherent tb scope empty_snapshot"
  by (simp add: coherent_def empty_snapshot_def rows_at_def)

lemma rows_at_add_terms:
  "set (rows_at (foldl (\<lambda>p t. AList.update t (List.insert ref (rows_at p t)) p) m ts) t)
     = set (rows_at m t) \<union> (if t \<in> set ts then {ref} else {})"
  by (induction ts arbitrary: m) auto

lemma rows_at_add_bindings:
  "rows_at (foldl (\<lambda>m b. AList.update (f b) (rows_at m (f b) @ [g b]) m) m bs) k
     = rows_at m k @ map g (filter (\<lambda>b. f b = k) bs)"
  by (induction bs arbitrary: m) auto

lemma coherent_add:
  assumes "coherent tb scope s" "entry_sound tb scope ref v" "map_of (sn_entries s) ref = None"
  shows "coherent tb scope (add_entry ref v s)"
proof -
  have es: "sn_entries (add_entry ref v s) = sn_entries s @ [(ref, v)]"
    using assms(3) by (simp add: add_entry_def map_of_eq_None_iff update_fresh)
  have new: "ref \<notin> fst ` set (sn_entries s)" using assms(3) by (simp add: map_of_eq_None_iff)
  then have nin: "(ref, v) \<notin> set (sn_entries s)" by force
  have rows: "mset (rows_at (sn_bindings (add_entry ref v s)) k) = mset (rows_at (sn_bindings s) k) + mset (entry_rows k v)" for k
    by (simp add: add_entry_def rows_at_add_bindings entry_rows_def)
  have terms: "set (rows_at (sn_postings (add_entry ref v s)) t)
      = set (rows_at (sn_postings s) t) \<union> (if t \<in> set (xe_terms v) then {ref} else {})" for t
    by (simp add: add_entry_def rows_at_add_terms)
  show ?thesis
    using assms(1,2) new nin unfolding coherent_def es rows terms by (auto simp: add.commute)
qed

lemma coherent_build_loop:
  "build_loop tb w scope s es = Inr s' \<Longrightarrow> coherent tb scope s \<Longrightarrow> coherent tb scope s'"
  by (induction tb w scope s es rule: build_loop.induct)
    (auto split: if_splits sum.splits intro: coherent_add dest!: analyze_sound)

lemma coherent_generation [simp]: "coherent tb scope (s\<lparr>sn_generation := g\<rparr>) = coherent tb scope s"
  by (simp add: coherent_def)

lemma coherent_build: "build tb sch scope es = Inr s \<Longrightarrow> coherent tb scope s"
  by (auto simp: build_def coherent_empty split: if_splits sum.splits dest: coherent_build_loop)

text \<open>Changes have one row per reference, and their new entries are sound.\<close>

definition changes_sound :: "index_tables \<Rightarrow> index_scope \<Rightarrow> index_changes \<Rightarrow> bool" where
  "changes_sound tb scope ch \<longleftrightarrow> distinct (map fst ch) \<and> (\<forall>(ref, v) \<in> set ch. \<forall>e. v = Some e \<longrightarrow> entry_sound tb scope ref e)"

lemma changes_sound_update:
  "changes_sound tb scope ch \<Longrightarrow> (\<And>e. v = Some e \<Longrightarrow> entry_sound tb scope ref e) \<Longrightarrow> changes_sound tb scope (AList.update ref v ch)"
  unfolding changes_sound_def by (auto simp: distinct_update dest!: set_update_subset)

subsection \<open>An incremental update is coherent\<close>

lemma change_entry_map: "map_of (change_entry es c) = (map_of es)(fst c := snd c)"
  by (cases "snd c") (auto simp: change_entry_def update_conv' delete_conv')

lemma change_entries_distinct: "distinct (map fst es) \<Longrightarrow> distinct (map fst (foldl change_entry es ch))"
proof (induction ch arbitrary: es)
  case (Cons c ch)
  have "distinct (map fst (change_entry es c))" using Cons.prems
    by (cases "snd c") (simp_all add: change_entry_def distinct_update distinct_delete)
  then show ?case using Cons.IH by simp
qed simp

lemma change_entries_map:
  "distinct (map fst ch) \<Longrightarrow> map_of (foldl change_entry es ch) ref = (case map_of ch ref of None \<Rightarrow> map_of es ref | Some v \<Rightarrow> v)"
proof (induction ch arbitrary: es)
  case (Cons c ch)
  obtain r v where c: "c = (r, v)" by (cases c)
  have "map_of ch r = None" using Cons.prems c by (simp add: map_of_eq_None_iff)
  with Cons c show ?case by (auto simp: change_entry_map split: option.splits)
qed simp

lemma change_entries_set:
  assumes "distinct (map fst es)" "distinct (map fst ch)"
  shows "set (foldl change_entry es ch) = {(ref, e) \<in> set es. map_of ch ref = None} \<union> {(ref, e). (ref, Some e) \<in> set ch}"
proof -
  have "(ref, e) \<in> set (foldl change_entry es ch) \<longleftrightarrow> (case map_of ch ref of None \<Rightarrow> map_of es ref | Some v \<Rightarrow> v) = Some e" for ref e
    unfolding distinct_map_of_set [OF change_entries_distinct [OF assms(1)]] change_entries_map [OF assms(2)] ..
  moreover have "(ref, e) \<in> set es \<longleftrightarrow> map_of es ref = Some e" "(ref, Some e) \<in> set ch \<longleftrightarrow> map_of ch ref = Some (Some e)" for ref e
    using distinct_map_of_set [OF assms(1)] distinct_map_of_set [OF assms(2)] by blast+
  ultimately have "(ref, e) \<in> set (foldl change_entry es ch)
      \<longleftrightarrow> (ref, e) \<in> {(ref, e) \<in> set es. map_of ch ref = None} \<union> {(ref, e). (ref, Some e) \<in> set ch}" for ref e
    by (cases "map_of ch ref") simp_all
  note pair = this
  show ?thesis
  proof (rule set_eqI)
    fix p show "p \<in> set (foldl change_entry es ch)
        \<longleftrightarrow> p \<in> {(ref, e) \<in> set es. map_of ch ref = None} \<union> {(ref, e). (ref, Some e) \<in> set ch}"
      by (cases p) (simp only: pair)
  qed
qed

lemma new_posting_set:
  "set (new_posting old ch t) = {ref \<in> set (rows_at (sn_postings old) t). map_of ch ref = None}
     \<union> {ref. \<exists>e. (ref, Some e) \<in> set ch \<and> t \<in> set (xe_terms e)}"
  by (force simp: new_posting_def split: option.splits)

lemma touched_terms_set:
  "t \<in> set (touched_terms old ch) \<longleftrightarrow> (\<exists>(ref, v) \<in> set ch. (\<exists>e. map_of (sn_entries old) ref = Some e \<and> t \<in> set (xe_terms e))
     \<or> (\<exists>e. v = Some e \<and> t \<in> set (xe_terms e)))"
  unfolding touched_terms_def set_remdups set_concat set_map UN_iff bex_simps
proof (rule bex_cong [OF refl])
  fix p assume "p \<in> set ch"
  obtain ref v where p: "p = (ref, v)" by (cases p)
  show "t \<in> set (case p of (ref, v) \<Rightarrow> (case map_of (sn_entries old) ref of None \<Rightarrow> [] | Some e \<Rightarrow> xe_terms e)
            @ (case v of None \<Rightarrow> [] | Some e \<Rightarrow> xe_terms e))
      \<longleftrightarrow> (case p of (ref, v) \<Rightarrow> (\<exists>e. map_of (sn_entries old) ref = Some e \<and> t \<in> set (xe_terms e))
            \<or> (\<exists>e. v = Some e \<and> t \<in> set (xe_terms e)))"
    unfolding p prod.case by (cases "map_of (sn_entries old) ref"; cases v) simp_all
qed

lemma touched_bindings_set:
  "k \<in> set (touched_bindings old ch) \<longleftrightarrow> (\<exists>(ref, v) \<in> set ch. (\<exists>e. map_of (sn_entries old) ref = Some e \<and> entry_rows k e \<noteq> [])
     \<or> (\<exists>e. v = Some e \<and> entry_rows k e \<noteq> []))"
  unfolding touched_bindings_def set_remdups set_concat set_map UN_iff bex_simps
proof (rule bex_cong [OF refl])
  fix p assume "p \<in> set ch"
  obtain ref v where p: "p = (ref, v)" by (cases p)
  have k: "k \<in> set (map (key_for \<circ> ib_requirement) (xe_bindings e)) \<longleftrightarrow> entry_rows k e \<noteq> []" for e
    by (auto simp: entry_rows_def filter_empty_conv)
  show "k \<in> set (case p of (ref, v) \<Rightarrow>
            (case map_of (sn_entries old) ref of None \<Rightarrow> [] | Some e \<Rightarrow> map (key_for \<circ> ib_requirement) (xe_bindings e))
            @ (case v of None \<Rightarrow> [] | Some e \<Rightarrow> map (key_for \<circ> ib_requirement) (xe_bindings e)))
      \<longleftrightarrow> (case p of (ref, v) \<Rightarrow> (\<exists>e. map_of (sn_entries old) ref = Some e \<and> entry_rows k e \<noteq> [])
            \<or> (\<exists>e. v = Some e \<and> entry_rows k e \<noteq> []))"
    unfolding p prod.case set_append Un_iff by (cases "map_of (sn_entries old) ref"; cases v) (simp_all add: k del: set_map)
qed

lemma filter_mset_sum: "finite A \<Longrightarrow> filter_mset P (sum f A) = sum (\<lambda>x. filter_mset P (f x)) A"
  by (induction A rule: finite_induct) auto

lemma entry_rows_ref: "entry_sound tb scope ref e \<Longrightarrow> v \<in> set (entry_rows k e) \<Longrightarrow> ap_ref (bc_binding v) = ref"
  by (auto simp: entry_rows_def entry_sound_def)

lemma old_rows_mset:
  assumes "coherent tb scope old"
  shows "mset (filter (\<lambda>v. map_of ch (ap_ref (bc_binding v)) = None) (rows_at (sn_bindings old) k))
     = (\<Sum>(ref, e) \<in> {(ref, e) \<in> set (sn_entries old). map_of ch ref = None}. mset (entry_rows k e))"
proof -
  let ?S = "set (sn_entries old)" let ?P = "\<lambda>v. map_of ch (ap_ref (bc_binding v)) = None"
  have "mset (filter ?P (rows_at (sn_bindings old) k)) = filter_mset ?P (\<Sum>(ref, e) \<in> ?S. mset (entry_rows k e))"
    unfolding mset_filter coherent_rows [OF assms] ..
  also have "\<dots> = (\<Sum>p \<in> ?S. filter_mset ?P (case p of (ref, e) \<Rightarrow> mset (entry_rows k e)))" by (simp add: filter_mset_sum)
  also have "\<dots> = (\<Sum>(ref, e) \<in> {(ref, e) \<in> ?S. map_of ch ref = None}. mset (entry_rows k e))"
  proof (rule sum.mono_neutral_cong_right)
    have own: "ap_ref (bc_binding v) = ref" if "(ref, e) \<in> ?S" "v \<in> set (entry_rows k e)" for ref e v
      using entry_rows_ref [OF coherent_sound [OF assms that(1)] that(2)] .
    show "\<forall>p \<in> ?S - {(ref, e) \<in> ?S. map_of ch ref = None}. filter_mset ?P (case p of (ref, e) \<Rightarrow> mset (entry_rows k e)) = {#}"
      using own by (auto simp: mset_filter [symmetric] filter_empty_conv simp del: mset_filter)
    show "filter_mset ?P (case p of (ref, e) \<Rightarrow> mset (entry_rows k e)) = (case p of (ref, e) \<Rightarrow> mset (entry_rows k e))"
      if "p \<in> {(ref, e) \<in> ?S. map_of ch ref = None}" for p
      using that own by (auto simp: mset_filter [symmetric] filter_id_conv simp del: mset_filter)
  qed auto
  finally show ?thesis .
qed

lemma changed_rows_mset:
  assumes "distinct (map fst ch)"
  shows "mset (concat (map (\<lambda>(ref, v). case v of None \<Rightarrow> [] | Some e \<Rightarrow> entry_rows k e) ch))
     = (\<Sum>(ref, e) \<in> {(ref, e). (ref, Some e) \<in> set ch}. mset (entry_rows k e))"
proof -
  let ?g = "\<lambda>(ref, v). case v of None \<Rightarrow> [] | Some e \<Rightarrow> entry_rows k e"
  let ?T = "{(ref, e). (ref, Some e) \<in> set ch}" let ?h = "\<lambda>(ref, e). (ref, Some e)"
  have d: "distinct ch" using assms by (simp add: distinct_map)
  have "mset (concat (map ?g ch)) = sum_list (map (mset \<circ> ?g) ch)" by (simp add: mset_concat)
  also have "\<dots> = sum (mset \<circ> ?g) (set ch)" using d by (simp add: sum_list_distinct_conv_sum_set)
  also have "\<dots> = sum (mset \<circ> ?g) (?h ` ?T)"
  proof (rule sum.mono_neutral_right)
    show "\<forall>p \<in> set ch - ?h ` ?T. (mset \<circ> ?g) p = {#}"
    proof
      fix p assume p: "p \<in> set ch - ?h ` ?T"
      obtain ref v where rv: "p = (ref, v)" by (cases p)
      have "v = None"
      proof (cases v)
        case (Some e)
        then have "p \<in> ?h ` ?T" using p rv by force
        with p show ?thesis by simp
      qed
      with rv show "(mset \<circ> ?g) p = {#}" by simp
    qed
  qed auto
  also have "\<dots> = (\<Sum>(ref, e) \<in> ?T. mset (entry_rows k e))"
    by (subst sum.reindex) (auto simp: inj_on_def intro!: sum.cong)
  finally show ?thesis .
qed

lemma new_rows_mset:
  assumes "coherent tb scope old" "distinct (map fst ch)"
  shows "mset (new_rows old ch k) = (\<Sum>(ref, e) \<in> set (foldl change_entry (sn_entries old) ch). mset (entry_rows k e))"
proof -
  let ?A = "{(ref, e) \<in> set (sn_entries old). map_of ch ref = None}" let ?T = "{(ref, e). (ref, Some e) \<in> set ch}"
  have d: "distinct (map fst (sn_entries old))" using assms(1) by (simp add: coherent_def)
  have "(\<lambda>(ref, e). (ref, Some e)) ` ?T \<subseteq> set ch" by auto
  then have "finite ((\<lambda>(ref, e). (ref, Some e)) ` ?T)" by (rule finite_subset) simp
  then have fin: "finite ?T" by (rule finite_imageD) (auto simp: inj_on_def)
  have "?A \<inter> ?T = {}" using assms(2) by auto
  then show ?thesis
    unfolding new_rows_def mset_append old_rows_mset [OF assms(1)] changed_rows_mset [OF assms(2)] change_entries_set [OF d assms(2)]
    by (subst sum.union_disjoint) (auto simp: fin intro: finite_subset [of _ "set (sn_entries old)"])
qed

lemma untouched_rows:
  assumes "coherent tb scope old" "distinct (map fst ch)" "k \<notin> set (touched_bindings old ch)"
  shows "mset (new_rows old ch k) = mset (rows_at (sn_bindings old) k)"
proof -
  have none: "entry_rows k e = []" if "(ref, Some e) \<in> set ch" for ref e
    using assms(3) that unfolding touched_bindings_set by blast
  have d: "distinct (map fst (sn_entries old))" using assms(1) by (simp add: coherent_def)
  have keep: "map_of ch (ap_ref (bc_binding v)) = None" if v: "v \<in> set (rows_at (sn_bindings old) k)" for v
  proof -
    have "v \<in># (\<Sum>(ref, e) \<in> set (sn_entries old). mset (entry_rows k e))" using v unfolding coherent_rows [OF assms(1), symmetric] by simp
    then obtain ref e where re: "(ref, e) \<in> set (sn_entries old)" "v \<in> set (entry_rows k e)" by (auto simp: in_sum_mset)
    then have "entry_sound tb scope ref e" using coherent_sound [OF assms(1)] by blast
    then have "ap_ref (bc_binding v) = ref" using re(2) by (rule entry_rows_ref)
    moreover have "map_of (sn_entries old) ref = Some e" using re(1) d by simp
    moreover have "entry_rows k e \<noteq> []" using re(2) by auto
    moreover have False if c: "map_of ch ref = Some w" for w
    proof -
      have "(ref, w) \<in> set ch" using c by (rule map_of_SomeD)
      with calculation show False using assms(3) unfolding touched_bindings_set by blast
    qed
    ultimately show ?thesis by (cases "map_of ch ref") simp_all
  qed
  have "filter (\<lambda>v. map_of ch (ap_ref (bc_binding v)) = None) (rows_at (sn_bindings old) k) = rows_at (sn_bindings old) k"
    using keep by (simp add: filter_id_conv)
  moreover have "concat (map (\<lambda>(ref, v). case v of None \<Rightarrow> [] | Some e \<Rightarrow> entry_rows k e) ch) = []"
    using none by (auto split: option.splits)
  ultimately show ?thesis by (simp add: new_rows_def)
qed

lemma untouched_posting:
  assumes "coherent tb scope old" "distinct (map fst ch)" "t \<notin> set (touched_terms old ch)"
  shows "set (new_posting old ch t) = set (rows_at (sn_postings old) t)"
proof -
  have d: "distinct (map fst (sn_entries old))" using assms(1) by (simp add: coherent_def)
  have "map_of ch ref = None" if r: "ref \<in> set (rows_at (sn_postings old) t)" for ref
  proof -
    obtain e where "(ref, e) \<in> set (sn_entries old)" "t \<in> set (xe_terms e)" using r unfolding coherent_posting [OF assms(1)] by blast
    then have e: "map_of (sn_entries old) ref = Some e" "t \<in> set (xe_terms e)" using d by simp_all
    have False if c: "map_of ch ref = Some w" for w
    proof -
      have "(ref, w) \<in> set ch" using c by (rule map_of_SomeD)
      with e show False using assms(3) unfolding touched_terms_set by blast
    qed
    then show ?thesis by (cases "map_of ch ref") simp_all
  qed
  moreover have "\<not> (\<exists>e. (ref, Some e) \<in> set ch \<and> t \<in> set (xe_terms e))" for ref
    using assms(3) unfolding touched_terms_set by blast
  ultimately show ?thesis unfolding new_posting_set by blast
qed

lemma coherent_apply:
  assumes "coherent tb scope old" "changes_sound tb scope ch"
  shows "coherent tb scope (apply_changes old ch)"
proof -
  have dch: "distinct (map fst ch)" using assms(2) by (simp add: changes_sound_def)
  have d: "distinct (map fst (sn_entries old))" using assms(1) by (simp add: coherent_def)
  let ?es = "foldl change_entry (sn_entries old) ch"
  have sound: "entry_sound tb scope ref e" if "(ref, e) \<in> set ?es" for ref e
    using that assms(2) coherent_sound [OF assms(1)] unfolding change_entries_set [OF d dch] changes_sound_def by blast
  have post: "set (rows_at (sn_postings (apply_changes old ch)) t) = {ref. \<exists>e. (ref, e) \<in> set ?es \<and> t \<in> set (xe_terms e)}" for t
  proof -
    have "set (rows_at (sn_postings (apply_changes old ch)) t) = set (new_posting old ch t)"
      using untouched_posting [OF assms(1) dch] by (simp add: apply_changes_def rows_at_put_all)
    also have "\<dots> = {ref. \<exists>e. (ref, e) \<in> set ?es \<and> t \<in> set (xe_terms e)}"
      unfolding new_posting_set change_entries_set [OF d dch] coherent_posting [OF assms(1)] by auto
    finally show ?thesis .
  qed
  have rows: "mset (rows_at (sn_bindings (apply_changes old ch)) k) = (\<Sum>(ref, e) \<in> set ?es. mset (entry_rows k e))" for k
    using untouched_rows [OF assms(1) dch, of k] new_rows_mset [OF assms(1) dch, of k]
    by (simp add: apply_changes_def rows_at_put_all)
  show ?thesis unfolding coherent_def
    using change_entries_distinct [OF d, of ch] sound post rows by (auto simp: apply_changes_def)
qed

end
