(* ===== verification/IndexHistory.thy ===== *)
theory IndexHistory
  imports ScopedIndex
begin

text \<open>
  Concurrent writers of the scoped index. An update, a rebuild or a rollback first prepares a snapshot,
  reading the index as it is then, and later publishes it; between the two other writers may publish. The
  step relation interleaves the two halves of any number of writers in any way.
\<close>

definition entry_value :: "index_tables \<Rightarrow> index_entry \<Rightarrow> indexed_entry option" where
  "entry_value tb e =
     (let r = ie_record e; ref = cr_ref r in
      case candidate_from_record (it_metadata tb) r of
        None \<Rightarrow> None
      | Some c \<Rightarrow>
          (case document_from_metadata (ar_kind ref) (ar_id ref)
                  (if cr_metadata r = [] then Some empty_metadata else it_lexical tb (cr_metadata r)) of
             None \<Rightarrow> None
           | Some d \<Rightarrow> Some \<lparr>xe_candidate = c,
                 xe_terms = query (it_lower tb) (it_alnum tb) (go_join (entry_texts d) '' ''),
                 xe_lexical = new_index (it_lower tb) (it_alnum tb) d, xe_bindings = ie_bindings e\<rparr>))"

text \<open>The abstract index is the map of its entries; an operation is a function on it.\<close>

datatype index_op = UpdateOp "index_entry list" "artifact_ref list" | RebuildOp "index_entry list" | RollbackOp

fun is_rebuild :: "index_op \<Rightarrow> bool" where
  "is_rebuild (RebuildOp es) = True"
| "is_rebuild op = False"

definition entry_for :: "index_entry list \<Rightarrow> artifact_ref \<Rightarrow> index_entry option" where
  "entry_for es ref = find (\<lambda>e. cr_ref (ie_record e) = ref) es"

definition op_effect :: "index_tables \<Rightarrow> scoped_index \<Rightarrow> index_op \<Rightarrow> artifact_ref \<Rightarrow> indexed_entry option" where
  "op_effect tb x op ref =
     (case op of
        UpdateOp upserts refs \<Rightarrow>
          (case entry_for upserts ref of Some e \<Rightarrow> entry_value tb e
           | None \<Rightarrow> if ref \<in> set refs then None else map_of (sn_entries (si_current x)) ref)
      | RebuildOp entries \<Rightarrow> (case entry_for entries ref of Some e \<Rightarrow> entry_value tb e | None \<Rightarrow> None)
      | RollbackOp \<Rightarrow> (case si_previous x of None \<Rightarrow> None | Some p \<Rightarrow> map_of (sn_entries p) ref))"

record index_system =
  sy_index :: scoped_index
  sy_pending :: "(nat \<times> index_op \<times> index_snapshot) list"

inductive index_step :: "index_tables \<Rightarrow> index_system \<Rightarrow> index_system \<Rightarrow> bool" for tb where
  prepares_update:
    "prepare_update tb sch (sy_index s) expected upserts refs = Inr snap \<Longrightarrow>
     index_step tb s (s\<lparr>sy_pending := (expected, UpdateOp upserts refs, snap) # sy_pending s\<rparr>)"
| prepares_rebuild:
    "build tb sch (si_scope (sy_index s)) entries = Inr snap \<Longrightarrow>
     index_step tb s (s\<lparr>sy_pending := (expected, RebuildOp entries, snap) # sy_pending s\<rparr>)"
| prepares_rollback:
    "prepare_rollback w (sy_index s) expected = Inr snap \<Longrightarrow>
     index_step tb s (s\<lparr>sy_pending := (expected, RollbackOp, snap) # sy_pending s\<rparr>)"
| publishes:
    "(expected, op, snap) \<in> set (sy_pending s) \<Longrightarrow> publish w (sy_index s) expected snap = Inr x \<Longrightarrow>
     index_step tb s \<lparr>sy_index = x, sy_pending = remove1 (expected, op, snap) (sy_pending s)\<rparr>"
| abandons:
    "(expected, op, snap) \<in> set (sy_pending s) \<Longrightarrow>
     index_step tb s (s\<lparr>sy_pending := remove1 (expected, op, snap) (sy_pending s)\<rparr>)"

definition index_start :: "scoped_index \<Rightarrow> index_system" where
  "index_start x = \<lparr>sy_index = x, sy_pending = []\<rparr>"

lemma analyze_value: "analyze tb w scope e = Inr v \<Longrightarrow> entry_value tb e = Some v"
  by (auto simp: analyze_def entry_value_def Let_def split: if_splits option.splits)

lemma removal_changes_map:
  "removal_changes scope refs ch = Inr ch' \<Longrightarrow> map_of ch' ref = (if ref \<in> set refs then Some None else map_of ch ref)"
  by (induction scope refs ch rule: removal_changes.induct) (auto simp: update_conv' split: if_splits)

lemma removal_changes_sound:
  "removal_changes scope refs ch = Inr ch' \<Longrightarrow> changes_sound tb scope ch \<Longrightarrow> changes_sound tb scope ch'"
  by (induction scope refs ch rule: removal_changes.induct) (auto intro: changes_sound_update split: if_splits)

lemma upsert_changes_map:
  "upsert_changes tb w scope es ch = Inr ch' \<Longrightarrow>
     map_of ch' ref = (case entry_for es ref of Some e \<Rightarrow> Some (entry_value tb e) | None \<Rightarrow> map_of ch ref)"
proof (induction tb w scope es ch rule: upsert_changes.induct)
  case (2 tb w scope e es ch)
  then obtain v where v: "map_of ch (cr_ref (ie_record e)) = None" "analyze tb w scope e = Inr v"
      "upsert_changes tb w scope es (AList.update (cr_ref (ie_record e)) (Some v) ch) = Inr ch'"
    by (auto split: if_splits sum.splits)
  note ih = "2.IH" [OF _ v(2,3)]
  have dup: "upsert_changes tb w scope es ch0 = Inr ch1 \<Longrightarrow> map_of ch0 r \<noteq> None \<Longrightarrow> entry_for es r = None" for ch0 ch1 r
    by (induction es arbitrary: ch0) (auto simp: entry_for_def update_conv' split: if_splits sum.splits)
  have "entry_for es (cr_ref (ie_record e)) = None" using dup [OF v(3)] by (simp add: update_conv')
  then show ?case using ih v(1) analyze_value [OF v(2)] by (auto simp: entry_for_def update_conv' split: option.splits)
qed (simp add: entry_for_def)

lemma upsert_changes_sound:
  "upsert_changes tb w scope es ch = Inr ch' \<Longrightarrow> changes_sound tb scope ch \<Longrightarrow> changes_sound tb scope ch'"
proof (induction tb w scope es ch rule: upsert_changes.induct)
  case (2 tb w scope e es ch)
  then obtain v where v: "map_of ch (cr_ref (ie_record e)) = None" "analyze tb w scope e = Inr v"
      "upsert_changes tb w scope es (AList.update (cr_ref (ie_record e)) (Some v) ch) = Inr ch'"
    by (auto split: if_splits sum.splits)
  have "changes_sound tb scope (AList.update (cr_ref (ie_record e)) (Some v) ch)"
    using "2.prems"(2) analyze_sound [OF v(2)] by (intro changes_sound_update) auto
  then show ?case using "2.IH" [OF _ v(2,3)] v(1) by simp
qed simp

lemma build_loop_map:
  "build_loop tb w scope s es = Inr s' \<Longrightarrow>
     map_of (sn_entries s') ref = (case entry_for es ref of Some e \<Rightarrow> entry_value tb e | None \<Rightarrow> map_of (sn_entries s) ref)"
proof (induction tb w scope s es rule: build_loop.induct)
  case (2 tb w scope s e es)
  then obtain v where v: "map_of (sn_entries s) (cr_ref (ie_record e)) = None" "analyze tb w scope e = Inr v"
      "build_loop tb w scope (add_entry (cr_ref (ie_record e)) v s) es = Inr s'"
    by (auto split: if_splits sum.splits)
  note ih = "2.IH" [OF _ v(2,3)]
  have dup: "build_loop tb w scope s0 es = Inr s1 \<Longrightarrow> map_of (sn_entries s0) r \<noteq> None \<Longrightarrow> entry_for es r = None" for s0 s1 r
    by (induction es arbitrary: s0) (auto simp: entry_for_def add_entry_def update_conv' split: if_splits sum.splits)
  have "entry_for es (cr_ref (ie_record e)) = None" using dup [OF v(3)] by (simp add: add_entry_def update_conv')
  then show ?case using ih v(1) analyze_value [OF v(2)] by (auto simp: entry_for_def add_entry_def update_conv' split: option.splits)
qed (simp add: entry_for_def)

lemma prepare_update_effect:
  assumes "prepare_update tb sch x expected upserts refs = Inr snap" "coherent tb (si_scope x) (si_current x)"
  shows "coherent tb (si_scope x) snap \<and> map_of (sn_entries snap) = op_effect tb x (UpdateOp upserts refs)
     \<and> (expected = 0 \<or> expected = sn_generation (si_current x))"
proof -
  obtain ch0 ch where ch: "removal_changes (si_scope x) refs [] = Inr ch0" "upsert_changes tb (sch 1) (si_scope x) upserts ch0 = Inr ch"
      "snap = apply_changes (si_current x) ch" "expected = 0 \<or> expected = sn_generation (si_current x)"
    using assms(1) by (auto simp: prepare_update_def begin_read_def split: sum.splits if_splits)
  have "changes_sound tb (si_scope x) []" by (simp add: changes_sound_def)
  then have sound: "changes_sound tb (si_scope x) ch" using removal_changes_sound [OF ch(1)] upsert_changes_sound [OF ch(2)] by blast
  then have "distinct (map fst ch)" by (simp add: changes_sound_def)
  then have "map_of (sn_entries snap) ref = op_effect tb x (UpdateOp upserts refs) ref" for ref
    unfolding ch(3) apply_changes_def
    by (simp add: change_entries_map upsert_changes_map [OF ch(2)] removal_changes_map [OF ch(1)] op_effect_def split: option.split)
  then show ?thesis using coherent_apply [OF assms(2) sound] ch(3,4) by auto
qed

lemma build_effect:
  assumes "build tb sch (si_scope x) entries = Inr snap"
  shows "coherent tb (si_scope x) snap \<and> map_of (sn_entries snap) = op_effect tb x (RebuildOp entries)"
proof -
  have "build_loop tb (sch 1) (si_scope x) empty_snapshot entries = Inr snap"
    using assms by (auto simp: build_def split: sum.splits if_splits)
  from build_loop_map [OF this] have "map_of (sn_entries snap) ref = op_effect tb x (RebuildOp entries) ref" for ref
    by (simp add: op_effect_def empty_snapshot_def split: option.split)
  then show ?thesis using coherent_build [OF assms] by auto
qed

lemma publish_some:
  "publish w x expected snap = Inr x' \<longleftrightarrow> iw_check w (si_scope x) \<and> expected = sn_generation (si_current x) \<and> expected \<noteq> 2 ^ 64 - 1
     \<and> x' = x\<lparr>si_current := snap\<lparr>sn_generation := expected + 1\<rparr>, si_previous := Some (si_current x)\<rparr>"
  by (auto simp: publish_def)

text \<open>The invariant: what is waiting to be published is coherent and, should its generation still be the
  current one, is the effect of its operation on the current index.\<close>

definition system_ok :: "index_tables \<Rightarrow> index_scope \<Rightarrow> index_system \<Rightarrow> bool" where
  "system_ok tb scope s \<longleftrightarrow> (let x = sy_index s in
     si_scope x = scope \<and> 1 \<le> sn_generation (si_current x) \<and> coherent tb scope (si_current x)
     \<and> (\<forall>p. si_previous x = Some p \<longrightarrow> coherent tb scope p)
     \<and> (\<forall>(expected, op, snap) \<in> set (sy_pending s). coherent tb scope snap
          \<and> (is_rebuild op \<or> expected = sn_generation (si_current x) \<longrightarrow> map_of (sn_entries snap) = op_effect tb x op)
          \<and> (is_rebuild op \<or> expected \<le> sn_generation (si_current x))))"

lemma op_effect_rebuild: "is_rebuild op \<Longrightarrow> op_effect tb x op = op_effect tb y op"
  by (cases op) (auto simp: op_effect_def)

lemma system_pending:
  "system_ok tb scope s \<Longrightarrow> (expected, op, snap) \<in> set (sy_pending s) \<Longrightarrow> coherent tb scope snap
     \<and> (is_rebuild op \<or> expected = sn_generation (si_current (sy_index s)) \<longrightarrow> map_of (sn_entries snap) = op_effect tb (sy_index s) op)
     \<and> (is_rebuild op \<or> expected \<le> sn_generation (si_current (sy_index s)))"
  unfolding system_ok_def Let_def by blast

lemma system_ok_add:
  assumes "system_ok tb scope s" "coherent tb scope snap"
    "is_rebuild op \<or> expected = sn_generation (si_current (sy_index s)) \<longrightarrow> map_of (sn_entries snap) = op_effect tb (sy_index s) op"
    "is_rebuild op \<or> expected \<le> sn_generation (si_current (sy_index s))"
  shows "system_ok tb scope (s\<lparr>sy_pending := (expected, op, snap) # sy_pending s\<rparr>)"
  using assms unfolding system_ok_def Let_def by simp

text \<open>A published snapshot is the effect of its operation on the index it replaces.\<close>

lemma publish_effect:
  assumes "system_ok tb scope s" "(expected, op, snap) \<in> set (sy_pending s)" "publish w (sy_index s) expected snap = Inr x"
  shows "map_of (sn_entries (si_current x)) = op_effect tb (sy_index s) op
     \<and> sn_generation (si_current x) = Suc (sn_generation (si_current (sy_index s)))
     \<and> si_previous x = Some (si_current (sy_index s)) \<and> si_scope x = scope \<and> coherent tb scope (si_current x)"
  using system_pending [OF assms(1,2)] assms(1,3) unfolding publish_some system_ok_def Let_def by simp

lemma system_ok_publish:
  assumes "system_ok tb scope s" "(expected, op, snap) \<in> set (sy_pending s)" "publish w (sy_index s) expected snap = Inr x"
  shows "system_ok tb scope \<lparr>sy_index = x, sy_pending = remove1 (expected, op, snap) (sy_pending s)\<rparr>"
proof -
  note pe = publish_effect [OF assms]
  have "coherent tb scope sn \<and> (is_rebuild p \<or> e = sn_generation (si_current x) \<longrightarrow> map_of (sn_entries sn) = op_effect tb x p)
      \<and> (is_rebuild p \<or> e \<le> sn_generation (si_current x))"
    if m: "(e, p, sn) \<in> set (sy_pending s)" for e p sn
    using system_pending [OF assms(1) m] pe op_effect_rebuild [of p tb "sy_index s" x] by auto
  moreover have "set (remove1 (expected, op, snap) (sy_pending s)) \<subseteq> set (sy_pending s)" by (rule set_remove1_subset)
  moreover have "coherent tb scope (si_current (sy_index s))" using assms(1) by (simp add: system_ok_def Let_def)
  ultimately show ?thesis using pe unfolding system_ok_def Let_def by auto
qed

lemma system_ok_remove:
  "system_ok tb scope s \<Longrightarrow> system_ok tb scope (s\<lparr>sy_pending := remove1 p (sy_pending s)\<rparr>)"
  unfolding system_ok_def Let_def by (auto dest!: set_mp [OF set_remove1_subset])

lemma system_ok_step:
  assumes "index_step tb s s'" "system_ok tb scope s"
  shows "system_ok tb scope s'"
  using assms
proof (induction rule: index_step.induct)
  case (prepares_update sch s expected upserts refs snap)
  then have "si_scope (sy_index s) = scope" "coherent tb (si_scope (sy_index s)) (si_current (sy_index s))"
    by (simp_all add: system_ok_def Let_def)
  with prepare_update_effect [OF prepares_update(1)] show ?case by (intro system_ok_add [OF prepares_update(2)]) auto
next
  case (prepares_rebuild sch s entries snap expected)
  then have "si_scope (sy_index s) = scope" by (simp add: system_ok_def Let_def)
  with build_effect [OF prepares_rebuild(1)] show ?case by (intro system_ok_add [OF prepares_rebuild(2)]) auto
next
  case (prepares_rollback w s expected snap)
  then obtain p where p: "si_previous (sy_index s) = Some p" "snap = p\<lparr>sn_generation := 0\<rparr>" "expected = sn_generation (si_current (sy_index s))"
    by (auto simp: prepare_rollback_def split: if_splits option.splits)
  moreover have "coherent tb scope p" using prepares_rollback(2) p(1) by (simp add: system_ok_def Let_def)
  ultimately show ?case by (intro system_ok_add [OF prepares_rollback(2)]) (auto simp: op_effect_def)
next
  case (publishes expected op snap s w x)
  then show ?case by (intro system_ok_publish)
next
  case (abandons expected op snap s)
  then show ?case by (intro system_ok_remove)
qed

lemma new_index_ok:
  assumes "new_scoped_index tb sch scope entries = Inr x"
  shows "system_ok tb scope (index_start x) \<and> map_of (sn_entries (si_current x)) = op_effect tb x (RebuildOp entries)"
proof -
  obtain s where s: "build tb sch scope entries = Inr s" "x = \<lparr>si_scope = scope, si_current = s\<lparr>sn_generation := 1\<rparr>, si_previous = None\<rparr>"
    using assms by (auto simp: new_scoped_index_def split: if_splits sum.splits)
  have "build tb sch (si_scope x) entries = Inr s" using s by simp
  from build_effect [OF this] s(2) show ?thesis by (simp add: system_ok_def index_start_def)
qed

lemma index_reachable_ok:
  assumes "new_scoped_index tb sch scope entries = Inr x" "(index_step tb)\<^sup>*\<^sup>* (index_start x) s"
  shows "system_ok tb scope s"
  using assms(2)
proof (induction rule: rtranclp_induct)
  case base
  show ?case using new_index_ok [OF assms(1)] by blast
next
  case (step y z)
  then show ?case using system_ok_step by blast
qed

end
