(* ===== verification/IndexProperties.thy ===== *)
theory IndexProperties
  imports IndexHistory
begin

text \<open>
  The scoped index against its specifications: a search over postings is the scan of all entries, a lookup
  returns every admission, and concurrent writers are serialised by the generation they expected.
\<close>

subsection \<open>Search is a scan\<close>

definition entry_hit :: "index_tables \<Rightarrow> index_search \<Rightarrow> indexed_entry \<Rightarrow> (candidate \<times> lexical_match) option" where
  "entry_hit tb q e =
     (let m = index_score (xe_lexical e) (query (it_lower tb) (it_alnum tb) (iq_query q)) in
      if matched m \<and> matches_filters (it_canon tb) (xe_candidate e) (iq_kinds q) (iq_tags q)
      then Some (xe_candidate e, m) else None)"

definition scan_entries :: "index_tables \<Rightarrow> index_search \<Rightarrow> index_snapshot \<Rightarrow> (candidate \<times> lexical_match) list" where
  "scan_entries tb q s = List.map_filter (entry_hit tb q \<circ> snd) (sn_entries s)"

lemma examine_some:
  "examine m n seen rs = Some out \<Longrightarrow> set out = set seen \<union> set rs \<and> (distinct seen \<longrightarrow> distinct out)"
  by (induction m n seen rs rule: examine.induct) (auto split: if_splits)

lemma matched_iff:
  "matched (index_score (new_index ul alnum d) ts) \<longleftrightarrow> (\<exists>t \<in> set ts. t \<in> \<Union> (set ` set (new_index ul alnum d)))"
proof -
  have "length (new_index ul alnum d) \<le> 3" by (simp add: new_index_def)
  from score_loop_spec [OF this] show ?thesis unfolding matched_def index_score_def
    by (auto simp: filter_empty_conv)
qed

lemma entry_texts_terms:
  "set (terms ul alnum (go_join (entry_texts d) '' '')) = \<Union> (set ` set (new_index ul alnum d))"
  unfolding terms_join by (auto simp: entry_texts_def new_index_def field_terms_def)

lemma map_filter_set: "set (List.map_filter f xs) = {y. \<exists>x \<in> set xs. f x = Some y}"
  by (force simp: List.map_filter_def)

lemma stable_sort_unique:
  fixes f :: "'a \<Rightarrow> 'b::linorder"
  assumes "mset xs = mset ys" "inj_on f (set xs)"
  shows "stable_sort (\<lambda>a b. f a < f b) xs = stable_sort (\<lambda>a b. f a < f b) ys"
proof -
  let ?s = "stable_sort (\<lambda>a b. f a < f b)"
  have st: "sorted (map f (?s zs))" for zs
    using sorts_by_stable_sort [OF weak_order_key [of f]] unfolding sorts_by_def
    by (auto simp: sorted_map not_less elim: sorted_wrt_mono_rel [rotated])
  have "mset (map f (?s xs)) = mset (map f (?s ys))" using assms(1) by simp
  then have "map f (?s xs) = map f (?s ys)" using st by (metis properties_for_sort)
  moreover have "set (?s xs) \<union> set (?s ys) = set xs" using assms(1) by (metis mset_eq_setD set_stable_sort sup.idem)
  ultimately show ?thesis using assms(2) by (metis map_inj_on)
qed
lemma rank_entries_member:
  "x \<in> set (rank_entries tb q ts s refs) \<longleftrightarrow> (\<exists>ref e. ref \<in> set refs \<and> map_of (sn_entries s) ref = Some e
      \<and> matches_filters (it_canon tb) (xe_candidate e) (iq_kinds q) (iq_tags q)
      \<and> x = (xe_candidate e, index_score (xe_lexical e) ts))"
  by (auto simp: rank_entries_def map_filter_set split: option.splits if_splits)

lemma entry_hit_iff:
  assumes "entry_sound tb scope ref e"
  shows "entry_hit tb q e = Some x \<longleftrightarrow>
     (\<exists>t \<in> set (query (it_lower tb) (it_alnum tb) (iq_query q)). t \<in> set (xe_terms e))
      \<and> matches_filters (it_canon tb) (xe_candidate e) (iq_kinds q) (iq_tags q)
      \<and> x = (xe_candidate e, index_score (xe_lexical e) (query (it_lower tb) (it_alnum tb) (iq_query q)))"
proof -
  obtain d where d: "xe_terms e = query (it_lower tb) (it_alnum tb) (go_join (entry_texts d) '' '')"
      "xe_lexical e = new_index (it_lower tb) (it_alnum tb) d" using assms by (auto simp: entry_sound_def)
  have "matched (index_score (xe_lexical e) ts) \<longleftrightarrow> (\<exists>t \<in> set ts. t \<in> set (xe_terms e))" for ts
    unfolding d matched_iff set_query entry_texts_terms ..
  then show ?thesis by (auto simp: entry_hit_def Let_def)
qed

lemma scan_member:
  assumes "coherent tb scope s"
  shows "x \<in> set (scan_entries tb q s) \<longleftrightarrow> (\<exists>ref e. (ref, e) \<in> set (sn_entries s) \<and> entry_hit tb q e = Some x)"
  unfolding scan_entries_def map_filter_set by force

lemma hit_ref:
  assumes "entry_sound tb scope ref e" "entry_hit tb q e = Some x"
  shows "cd_ref (fst x) = ref"
  using assms by (auto simp: entry_hit_def entry_sound_def Let_def split: if_splits)

lemma distinct_map_filter:
  "distinct (map g xs) \<Longrightarrow> (\<And>x y. x \<in> set xs \<Longrightarrow> f x = Some y \<Longrightarrow> h y = g x) \<Longrightarrow> distinct (map h (List.map_filter f xs))"
proof (induction xs)
  case (Cons x xs)
  then have ih: "distinct (map h (List.map_filter f xs))" by simp
  show ?case
  proof (cases "f x")
    case (Some y)
    have "h y = g x" using Cons.prems(2) Some by simp
    moreover have "h z \<noteq> g x" if z: "z \<in> set (List.map_filter f xs)" for z
    proof -
      obtain w where "w \<in> set xs" "f w = Some z" using z unfolding map_filter_set by blast
      then have "h z = g w" "g w \<noteq> g x" using Cons.prems by (auto simp: image_iff)
      then show ?thesis by simp
    qed
    ultimately have "h y \<notin> h ` set (List.map_filter f xs)" by (metis imageE)
    then show ?thesis using ih Some by (simp add: map_filter_simps)
  qed (use ih in \<open>simp add: map_filter_simps\<close>)
qed simp

lemma scan_distinct:
  assumes "coherent tb scope s"
  shows "distinct (map (cd_ref \<circ> fst) (scan_entries tb q s))"
  unfolding scan_entries_def
proof (rule distinct_map_filter [OF coherent_distinct [OF assms]])
  fix p y assume "p \<in> set (sn_entries s)" "(entry_hit tb q \<circ> snd) p = Some y"
  moreover obtain ref e where "p = (ref, e)" by (rule prod.exhaust)
  ultimately show "(cd_ref \<circ> fst) y = fst p" using hit_ref [OF coherent_sound [OF assms]] by simp
qed

lemma ranked_refs_inj:
  assumes "coherent tb scope s"
  shows "inj_on rank_key (set (scan_entries tb q s))"
proof (rule inj_onI)
  fix x y assume xy: "x \<in> set (scan_entries tb q s)" "y \<in> set (scan_entries tb q s)" "rank_key x = rank_key y"
  have ws: "ar_workspace (cd_ref (fst z)) = pn_workspace (is_principal scope)" if z: "z \<in> set (scan_entries tb q s)" for z
  proof -
    obtain ref e where "(ref, e) \<in> set (sn_entries s)" "entry_hit tb q e = Some z" using z scan_member [OF assms] by blast
    moreover from this have "entry_sound tb scope ref e" using coherent_sound [OF assms] by blast
    ultimately show ?thesis using hit_ref by (metis entry_sound_def)
  qed
  have "cd_ref (fst x) = cd_ref (fst y)"
    using xy(3) ws [OF xy(1)] ws [OF xy(2)] by (intro artifact_ref.equality) (simp_all add: rank_key_def)
  then show "x = y" using xy scan_distinct [OF assms] by (auto simp: distinct_map inj_on_def)
qed

lemma scan_reordered:
  assumes coh: "coherent tb scope s"
    and refs: "distinct refs" "set refs = {ref. \<exists>e. (ref, e) \<in> set (sn_entries s) \<and> (\<exists>t \<in> set ts. t \<in> set (xe_terms e))}"
    and ts: "ts = query (it_lower tb) (it_alnum tb) (iq_query q)"
  shows "mset (rank_entries tb q ts s refs) = mset (scan_entries tb q s)"
proof -
  have d: "distinct (map fst (sn_entries s))" using coherent_distinct [OF coh] .
  have "distinct (map (cd_ref \<circ> fst) (rank_entries tb q ts s refs))"
    unfolding rank_entries_def
  proof (rule distinct_map_filter [where g = "\<lambda>r. r"])
    fix ref y
    assume "(case map_of (sn_entries s) ref of None \<Rightarrow> None
        | Some e \<Rightarrow> if matches_filters (it_canon tb) (xe_candidate e) (iq_kinds q) (iq_tags q)
                    then Some (xe_candidate e, index_score (xe_lexical e) ts) else None) = Some y"
    then obtain e where e: "map_of (sn_entries s) ref = Some e" "y = (xe_candidate e, index_score (xe_lexical e) ts)"
      by (auto split: option.splits if_splits)
    then have "entry_sound tb scope ref e" using coherent_sound [OF coh] by (blast dest: map_of_SomeD)
    with e(2) show "(cd_ref \<circ> fst) y = ref" by (simp add: entry_sound_def)
  qed (simp add: refs(1))
  then have d1: "distinct (rank_entries tb q ts s refs)" by (simp add: distinct_map)
  have d2: "distinct (scan_entries tb q s)" using scan_distinct [OF coh] by (simp add: distinct_map)
  have "x \<in> set (rank_entries tb q ts s refs) \<longleftrightarrow> x \<in> set (scan_entries tb q s)" for x
  proof -
    have "x \<in> set (rank_entries tb q ts s refs) \<longleftrightarrow> (\<exists>ref e. (ref, e) \<in> set (sn_entries s) \<and> (\<exists>t \<in> set ts. t \<in> set (xe_terms e))
        \<and> matches_filters (it_canon tb) (xe_candidate e) (iq_kinds q) (iq_tags q) \<and> x = (xe_candidate e, index_score (xe_lexical e) ts))"
      unfolding rank_entries_member refs(2) distinct_map_of_set [OF d, symmetric] using eq_key_imp_eq_value [OF d] by blast
    also have "\<dots> \<longleftrightarrow> (\<exists>ref e. (ref, e) \<in> set (sn_entries s) \<and> entry_hit tb q e = Some x)"
      using entry_hit_iff [OF coherent_sound [OF coh]] unfolding ts by blast
    finally show ?thesis unfolding scan_member [OF coh] .
  qed
  then show ?thesis using d1 d2 by (metis set_eq_iff_mset_eq_distinct subsetI subset_antisym)
qed

lemma search_is_scan:
  assumes "coherent tb scope (si_current x1)" "search_index tb sch x1 x2 q = Inr out" "ir_complete out"
  shows "ir_candidates out = take (nat (iq_limit q)) (map fst (stable_sort ranked_before (scan_entries tb q (si_current x1))))
     \<and> list_all (authorize_ref (sch 1) (si_scope x1)) (map (cd_ref \<circ> fst) (scan_entries tb q (si_current x1)))"
proof -
  let ?s = "si_current x1" let ?ts = "query (it_lower tb) (it_alnum tb) (iq_query q)"
  have b: "begin_read (sch 0) x1 (iq_scope q) (iq_generation q) = Inr ?s"
    using assms(2) by (auto simp: search_index_def begin_read_def split: sum.splits if_splits)
  note run = assms(2) [unfolded search_index_def b sum.case Let_def]
  obtain seen where seen: "examine (iq_max_examined q) 0 [] (concat (map (rows_at (sn_postings ?s)) ?ts)) = Some seen"
    using run assms(3) by (auto simp: complete_search_def split: if_splits option.splits)
  note ex = examine_some [OF seen]
  have set_seen: "set seen = {ref. \<exists>e. (ref, e) \<in> set (sn_entries ?s) \<and> (\<exists>t \<in> set ?ts. t \<in> set (xe_terms e))}"
    using ex coherent_posting [OF assms(1)] by auto
  note re = scan_reordered [OF assms(1) _ set_seen refl]
  have ms: "mset (rank_entries tb q ?ts ?s seen) = mset (scan_entries tb q ?s)" using re ex by simp
  have key: "ranked_before = (\<lambda>x y. rank_key x < rank_key y)" by (intro ext) (rule ranked_before_key)
  have "stable_sort ranked_before (rank_entries tb q ?ts ?s seen) = stable_sort ranked_before (scan_entries tb q ?s)"
    unfolding key using stable_sort_unique [OF ms [symmetric] ranked_refs_inj [OF assms(1)]] by simp
  moreover have auth: "list_all (authorize_ref (sch 1) (si_scope x1)) seen"
    using run seen by (auto split: if_splits)
  ultimately have "ir_candidates out = take (nat (iq_limit q)) (map fst (stable_sort ranked_before (scan_entries tb q ?s)))"
    using run seen assms(3) by (auto simp: complete_search_def split: if_splits option.splits)
  moreover have "cd_ref (fst x) \<in> set seen" if x: "x \<in> set (scan_entries tb q ?s)" for x
  proof -
    obtain ref e where re: "(ref, e) \<in> set (sn_entries ?s)" "entry_hit tb q e = Some x"
      using x scan_member [OF assms(1)] by blast
    note es = coherent_sound [OF assms(1) re(1)]
    have "\<exists>t \<in> set ?ts. t \<in> set (xe_terms e)" using re(2) entry_hit_iff [OF es] by blast
    then show ?thesis using hit_ref [OF es re(2)] re(1) unfolding set_seen by auto
  qed
  ultimately show ?thesis using auth by (auto simp: list_all_iff)
qed

lemma search_incomplete_empty:
  assumes "search_index tb sch x1 x2 q = Inr out" "\<not> ir_complete out"
  shows "ir_candidates out = []"
  using assms by (auto simp: search_index_def complete_search_def Let_def split: sum.splits if_splits option.splits)

lemma search_current:
  assumes "search_index tb sch x1 x2 q = Inr out"
  shows "si_current x2 = si_current x1 \<and> ir_generation out = sn_generation (si_current x1) \<and> iw_check (sch 2) (si_scope x2)
     \<and> int (length (json_result out)) \<le> iq_max_bytes q"
  using assms
  by (auto simp: search_index_def begin_read_def complete_search_def finish_read_def Let_def split: sum.splits if_splits option.splits)

lemma lookup_rows:
  assumes "coherent tb scope (si_current x1)" "lookup_bindings tb sch x1 x2 q = Inr out"
  shows "if br_complete out
    then mset (br_items out) = (\<Sum>(ref, e) \<in> set (sn_entries (si_current x1)). mset (entry_rows (key_for (bq_requirement q)) e))
      \<and> length (br_items out) \<le> nat (bq_limit q)
    else br_items out = [] \<and> size (\<Sum>(ref, e) \<in> set (sn_entries (si_current x1)). mset (entry_rows (key_for (bq_requirement q)) e)) > nat (bq_limit q)"
proof -
  let ?s = "si_current x1"
  have b: "begin_read (sch 0) x1 \<lparr>is_principal = bq_principal q, is_runtime = bq_runtime q\<rparr> 0 = Inr ?s"
    using assms(2) by (auto simp: lookup_bindings_def begin_read_def split: sum.splits if_splits)
  note run = assms(2) [unfolded lookup_bindings_def b sum.case Let_def]
  have "out = \<lparr>br_items = (if int (length (rows_at (sn_bindings ?s) (key_for (bq_requirement q)))) \<le> bq_limit q
        then stable_sort (\<lambda>a b. it_row_json tb a < it_row_json tb b) (rows_at (sn_bindings ?s) (key_for (bq_requirement q))) else []),
      br_complete = (int (length (rows_at (sn_bindings ?s) (key_for (bq_requirement q)))) \<le> bq_limit q)\<rparr>"
    using run by (auto split: if_splits option.splits)
  moreover have "bq_limit q > 0" using run by (auto split: if_splits)
  ultimately show ?thesis
    unfolding coherent_rows [OF assms(1), symmetric] size_mset by (auto simp: le_nat_iff nat_less_iff)
qed

subsection \<open>A small index\<close>

lemma not_left: "\<not> isl x \<Longrightarrow> x = Inr (projr x)"
  by (cases x) simp_all

definition demo_tables :: index_tables where
  "demo_tables = \<lparr>it_metadata = (\<lambda>_. None), it_lexical = (\<lambda>_. None), it_lower = (\<lambda>r. r), it_alnum = (\<lambda>_. False),
     it_canon = (\<lambda>r. r), it_row_json = bc_contract_digest\<rparr>"

definition demo_schedule :: schedule where
  "demo_schedule n = \<lparr>iw_check = (\<lambda>_. True), iw_decide = (\<lambda>_ _ _. Some \<lparr>dc_allowed = True, dc_status = 200, dc_reason = []\<rparr>)\<rparr>"

definition demo_scope :: index_scope where
  "demo_scope = \<lparr>is_principal = \<lparr>pn_issuer = ''i'', pn_subject = ''s'', pn_audience = ''a'', pn_workspace = ''w'',
     pn_scopes = [], pn_generation = 1, pn_subject_type = ''user''\<rparr>, is_runtime = ''r''\<rparr>"

definition demo_digest_rec :: digest where
  "demo_digest_rec = \<lparr>dg_algorithm = ''sha256'', dg_value = replicate 64 CHR ''0''\<rparr>"

definition demo_ref :: "string \<Rightarrow> string \<Rightarrow> artifact_ref" where
  "demo_ref k i = \<lparr>ar_workspace = ''w'', ar_kind = k, ar_id = i, ar_version = ''1''\<rparr>"

definition demo_record :: "string \<Rightarrow> string \<Rightarrow> catalog_record" where
  "demo_record k i = \<lparr>cr_ref = demo_ref k i, cr_state = ''published'', cr_digest = demo_digest_rec, cr_manifest_digest = demo_digest_rec,
     cr_document_digest = demo_digest_rec, cr_package_digest = demo_digest_rec, cr_object_key = [], cr_artifact_size = 0,
     cr_metadata = []\<rparr>"

definition demo_pin :: "string \<Rightarrow> string \<Rightarrow> artifact_pin" where
  "demo_pin k i = \<lparr>ap_ref = demo_ref k i, ap_digest = demo_digest_rec, ap_manifest = demo_digest_rec\<rparr>"

definition demo_need :: requirement where
  "demo_need = \<lparr>rq_key = ''k'', rq_capability = ''mail'', rq_contract_version = ''1'',
     rq_contract_digest = dg_value demo_digest_rec, rq_optional = False\<rparr>"

definition demo_row :: binding_candidate where
  "demo_row = \<lparr>bc_binding = demo_pin kind_binding ''mail binding'', bc_tool = demo_pin kind_tool ''t'', bc_provider = demo_pin kind_provider ''p'',
     bc_contract_digest = dg_value demo_digest_rec, bc_adapter_version = ''1'', bc_fixture_digest = dg_value demo_digest_rec,
     bc_connection = \<lparr>tc_scope = ''w'', tc_id = ''c'', tc_version = ''1'', tc_account = ''a'', tc_generation = ''1''\<rparr>, bc_admitted = True\<rparr>"

definition demo_entries :: "index_entry list" where
  "demo_entries = [\<lparr>ie_record = demo_record kind_capability ''mail'', ie_bindings = []\<rparr>,
     \<lparr>ie_record = demo_record kind_binding ''mail binding'', ie_bindings = [\<lparr>ib_requirement = demo_need, ib_candidate = demo_row\<rparr>]\<rparr>]"

definition demo_index :: scoped_index where
  "demo_index = projr (new_scoped_index demo_tables demo_schedule demo_scope demo_entries)"

lemma demo_index_new: "new_scoped_index demo_tables demo_schedule demo_scope demo_entries = Inr demo_index"
  unfolding demo_index_def by (rule not_left) code_simp

lemma demo_start: "sy_index (index_start demo_index) = demo_index"
  by (simp add: index_start_def)

definition demo_search :: index_search where
  "demo_search = \<lparr>iq_scope = demo_scope, iq_generation = 0, iq_query = ''mail'', iq_kinds = [], iq_tags = [], iq_limit = 5,
     iq_max_examined = 10, iq_max_bytes = 2000\<rparr>"

definition demo_query :: binding_query where
  "demo_query = \<lparr>bq_principal = is_principal demo_scope, bq_runtime = ''r'', bq_requirement = demo_need, bq_limit = 4\<rparr>"

definition small_index :: scoped_index where
  "small_index = projr (new_scoped_index demo_tables demo_schedule demo_scope [\<lparr>ie_record = demo_record kind_capability ''mail'', ie_bindings = []\<rparr>])"

lemma small_index_new:
  "new_scoped_index demo_tables demo_schedule demo_scope [\<lparr>ie_record = demo_record kind_capability ''mail'', ie_bindings = []\<rparr>] = Inr small_index"
  unfolding small_index_def by (rule not_left) code_simp

lemma small_start: "sy_index (index_start small_index) = small_index"
  by (simp add: index_start_def)

text \<open>C15. Whatever updates, rebuilds and rollbacks were published before, in any interleaving, a search that
  answers from the inverted index gives what a scan of every entry with the lexical model gives: on status
  complete the candidates are the best \<open>Limit\<close> entries that match a query term and the filters, in ranking
  order, and every matching entry was authorized during the search; otherwise there are none. The index was
  still current, the policy still valid, when the search ended, and the answer fits its byte budget.\<close>

theorem scoped_search_is_scan:
  assumes "new_scoped_index tb sch0 scope entries = Inr x0" "(index_step tb)\<^sup>*\<^sup>* (index_start x0) s"
    and "search_index tb sch (sy_index s) x2 q = Inr out"
  shows "(if ir_complete out
       then ir_candidates out = take (nat (iq_limit q)) (map fst (stable_sort ranked_before (scan_entries tb q (si_current (sy_index s)))))
          \<and> list_all (authorize_ref (sch 1) scope) (map (cd_ref \<circ> fst) (scan_entries tb q (si_current (sy_index s))))
       else ir_candidates out = [])
     \<and> si_current x2 = si_current (sy_index s) \<and> ir_generation out = sn_generation (si_current x2)
     \<and> iw_check (sch 2) (si_scope x2) \<and> int (length (json_result out)) \<le> iq_max_bytes q"
proof -
  have ok: "si_scope (sy_index s) = scope" "coherent tb scope (si_current (sy_index s))"
    using index_reachable_ok [OF assms(1,2)] by (simp_all add: system_ok_def Let_def)
  show ?thesis using search_is_scan [OF ok(2) assms(3)] search_incomplete_empty [OF assms(3)] search_current [OF assms(3)] ok(1)
    by simp
qed

theorem scoped_search_is_scan_witness:
  "ir_candidates (projr (search_index demo_tables demo_schedule small_index small_index demo_search))
     = take 5 (map fst (stable_sort ranked_before (scan_entries demo_tables demo_search (si_current small_index))))
   \<and> length (ir_candidates (projr (search_index demo_tables demo_schedule small_index small_index demo_search))) = 1"
proof
  let ?r = "search_index demo_tables demo_schedule small_index small_index demo_search"
  have ok: "\<not> isl ?r" "ir_complete (projr ?r)" by code_simp+
  have run: "search_index demo_tables demo_schedule (sy_index (index_start small_index)) small_index demo_search = Inr (projr ?r)"
    unfolding small_start by (rule not_left [OF ok(1)])
  have lim: "nat (iq_limit demo_search) = 5" by code_simp
  show "ir_candidates (projr ?r) = take 5 (map fst (stable_sort ranked_before (scan_entries demo_tables demo_search (si_current small_index))))"
    using scoped_search_is_scan [OF small_index_new rtranclp.rtrancl_refl run] unfolding small_start if_P [OF ok(2)] lim by blast
  show "length (ir_candidates (projr ?r)) = 1" by code_simp
qed

text \<open>A binding lookup never hides an admission: on any reachable index it either returns every candidate
  admitted for exactly the required capability, version and contract digest, counting repetitions, or says
  it is incomplete and returns none, and that only when there are more than the limit.\<close>

theorem scoped_lookup_exact:
  assumes "new_scoped_index tb sch0 scope entries = Inr x0" "(index_step tb)\<^sup>*\<^sup>* (index_start x0) s"
    and "lookup_bindings tb sch (sy_index s) x2 q = Inr out"
  shows "if br_complete out
    then mset (br_items out) = (\<Sum>(ref, e) \<in> set (sn_entries (si_current (sy_index s))). mset (entry_rows (key_for (bq_requirement q)) e))
      \<and> length (br_items out) \<le> nat (bq_limit q)
    else br_items out = []
      \<and> size (\<Sum>(ref, e) \<in> set (sn_entries (si_current (sy_index s))). mset (entry_rows (key_for (bq_requirement q)) e)) > nat (bq_limit q)"
proof -
  have "coherent tb scope (si_current (sy_index s))"
    using index_reachable_ok [OF assms(1,2)] by (simp add: system_ok_def Let_def)
  from lookup_rows [OF this assms(3)] show ?thesis .
qed

theorem scoped_lookup_exact_witness:
  "mset (br_items (projr (lookup_bindings demo_tables demo_schedule demo_index demo_index demo_query)))
     = (\<Sum>(ref, e) \<in> set (sn_entries (si_current demo_index)). mset (entry_rows (key_for demo_need) e))
   \<and> br_items (projr (lookup_bindings demo_tables demo_schedule demo_index demo_index demo_query)) = [demo_row]"
proof
  let ?r = "lookup_bindings demo_tables demo_schedule demo_index demo_index demo_query"
  have ok: "\<not> isl ?r" "br_complete (projr ?r)" by code_simp+
  have run: "lookup_bindings demo_tables demo_schedule (sy_index (index_start demo_index)) demo_index demo_query = Inr (projr ?r)"
    unfolding demo_start by (rule not_left [OF ok(1)])
  have need: "bq_requirement demo_query = demo_need" by (simp add: demo_query_def)
  show "mset (br_items (projr ?r)) = (\<Sum>(ref, e) \<in> set (sn_entries (si_current demo_index)). mset (entry_rows (key_for demo_need) e))"
    using scoped_lookup_exact [OF demo_index_new rtranclp.rtrancl_refl run] unfolding demo_start if_P [OF ok(2)] need by blast
  show "br_items (projr ?r) = [demo_row]" by code_simp
qed

text \<open>C3. Writers do not lose each other's work. In every run of any number of concurrent updates, rebuilds and
  rollbacks, a snapshot is published only as the next generation of the very index it was prepared for: the
  entries become the effect of its operation on the entries it replaces, which are kept as the one previous
  snapshot, and postings and binding rows stay those of the entries.\<close>

theorem scoped_writes_serialised:
  assumes "new_scoped_index tb sch0 scope entries = Inr x0" "(index_step tb)\<^sup>*\<^sup>* (index_start x0) s"
    and "(expected, op, snap) \<in> set (sy_pending s)" "publish w (sy_index s) expected snap = Inr x"
  shows "map_of (sn_entries (si_current x)) = op_effect tb (sy_index s) op
     \<and> sn_generation (si_current x) = Suc (sn_generation (si_current (sy_index s)))
     \<and> si_previous x = Some (si_current (sy_index s)) \<and> si_scope x = scope \<and> coherent tb scope (si_current x)"
  using publish_effect [OF index_reachable_ok [OF assms(1,2)] assms(3,4)] .

definition demo_removed :: index_snapshot where
  "demo_removed = projr (prepare_update demo_tables demo_schedule demo_index 1 [] [demo_ref kind_capability ''mail''])"

definition demo_after :: scoped_index where
  "demo_after = projr (publish (demo_schedule 0) demo_index 1 demo_removed)"

theorem scoped_writes_serialised_witness:
  "map_of (sn_entries (si_current demo_after)) = op_effect demo_tables demo_index (UpdateOp [] [demo_ref kind_capability ''mail''])
   \<and> map fst (sn_entries (si_current demo_after)) = [demo_ref kind_binding ''mail binding'']"
proof
  let ?op = "UpdateOp [] [demo_ref kind_capability ''mail'']"
  let ?s = "(index_start demo_index)\<lparr>sy_pending := [(1, ?op, demo_removed)]\<rparr>"
  have "\<not> isl (prepare_update demo_tables demo_schedule demo_index 1 [] [demo_ref kind_capability ''mail''])" by code_simp
  then have "prepare_update demo_tables demo_schedule (sy_index (index_start demo_index)) 1 [] [demo_ref kind_capability ''mail''] = Inr demo_removed"
    by (simp add: demo_removed_def index_start_def)
  from prepares_update [OF this] have st: "(index_step demo_tables)\<^sup>*\<^sup>* (index_start demo_index) ?s"
    by (simp add: index_start_def)
  have "\<not> isl (publish (demo_schedule 0) demo_index 1 demo_removed)" by code_simp
  then have pub: "publish (demo_schedule 0) (sy_index ?s) 1 demo_removed = Inr demo_after"
    by (simp add: demo_after_def index_start_def)
  have "(1, ?op, demo_removed) \<in> set (sy_pending ?s)" by simp
  from scoped_writes_serialised [OF demo_index_new st this pub]
  show "map_of (sn_entries (si_current demo_after)) = op_effect demo_tables demo_index ?op" by (simp add: index_start_def)
  show "map fst (sn_entries (si_current demo_after)) = [demo_ref kind_binding ''mail binding'']" by code_simp
qed

end
