(* ===== verification/Semver.thy ===== *)
theory Semver
  imports GoStrings "HOL-Library.Product_Lexorder"
begin

text \<open>
  \<open>hosted/internal/storage/semver.go\<close>: the order of version strings. The reference is a key in a linear
  order, in which numeric parts are numbers.
\<close>

definition go_compare :: "string \<Rightarrow> string \<Rightarrow> int" where
  "go_compare a b = (if a < b then -1 else if a = b then 0 else 1)"

definition compare_int :: "nat \<Rightarrow> nat \<Rightarrow> int" where
  "compare_int a b = (if a < b then -1 else if a > b then 1 else 0)"

definition dec_digit :: "char \<Rightarrow> bool" where
  "dec_digit c \<longleftrightarrow> c \<in> set ''0123456789''"

text \<open>\<open>strings.Trim(s, digits)\<close> is empty exactly when all bytes are digits.\<close>

definition is_numeric :: "string \<Rightarrow> bool" where
  "is_numeric s \<longleftrightarrow> s \<noteq> [] \<and> go_trim_right (go_trim_left s ''0123456789'') ''0123456789'' = []"

definition compare_numeric :: "string \<Rightarrow> string \<Rightarrow> int" where
  "compare_numeric a0 b0 =
     (let a = go_trim_left a0 ''0''; b = go_trim_left b0 ''0''; c = compare_int (length a) (length b) in
      if c \<noteq> 0 then c else go_compare a b)"

definition compare_identifier :: "string \<Rightarrow> string \<Rightarrow> int" where
  "compare_identifier x y =
     (if is_numeric x \<and> is_numeric y then compare_numeric x y
      else if is_numeric x then -1 else if is_numeric y then 1 else go_compare x y)"

text \<open>The loop over the common prefix of the two lists, and the comparison of their lengths after it.\<close>

fun compare_lists :: "string list \<Rightarrow> string list \<Rightarrow> int" where
  "compare_lists (x # xs) (y # ys) = (let c = compare_identifier x y in if c \<noteq> 0 then c else compare_lists xs ys)"
| "compare_lists xs ys = compare_int (length xs) (length ys)"

definition compare_prerelease :: "string list \<Rightarrow> string list \<Rightarrow> int" where
  "compare_prerelease a b =
     (if a = [] \<and> b = [] then 0 else if a = [] then 1 else if b = [] then -1 else compare_lists a b)"

record semver =
  sv_core :: "string list"
  sv_pre :: "string list"

definition cut_at :: "char \<Rightarrow> string \<Rightarrow> string \<times> string option" where
  "cut_at c v = (takeWhile (\<lambda>x. x \<noteq> c) v, if c \<in> set v then Some (tl (dropWhile (\<lambda>x. x \<noteq> c) v)) else None)"

definition parse_semver :: "string \<Rightarrow> semver option" where
  "parse_semver v0 =
     (let v = fst (cut_at CHR ''+'' v0) in
      case cut_at CHR ''-'' v of
        (core, pre) \<Rightarrow>
          if pre = Some [] then None
          else (let parts = go_split core ''.'' in
            if length parts \<noteq> 3 then None
            else if \<not> list_all is_numeric parts then None
            else Some \<lparr>sv_core = parts, sv_pre = (case pre of None \<Rightarrow> [] | Some p \<Rightarrow> go_split p ''.'')\<rparr>))"

fun compare_core :: "string list \<Rightarrow> string list \<Rightarrow> int" where
  "compare_core (x # xs) (y # ys) = (let c = compare_numeric x y in if c \<noteq> 0 then c else compare_core xs ys)"
| "compare_core xs ys = 0"

definition compare_semver :: "string \<Rightarrow> string \<Rightarrow> int" where
  "compare_semver a b =
     (case parse_semver a of
        None \<Rightarrow> (case parse_semver b of None \<Rightarrow> go_compare a b | Some _ \<Rightarrow> 1)
      | Some pa \<Rightarrow> (case parse_semver b of
          None \<Rightarrow> -1
        | Some pb \<Rightarrow> (let c = compare_core (sv_core pa) (sv_core pb) in
            if c \<noteq> 0 then c else compare_prerelease (sv_pre pa) (sv_pre pb))))"

subsection \<open>Numbers\<close>

definition num_value :: "string \<Rightarrow> nat" where
  "num_value s = foldl (\<lambda>n c. 10 * n + (byte c - 48)) 0 s"

lemma dec_digit_byte: "dec_digit c \<longleftrightarrow> 48 \<le> byte c \<and> byte c \<le> 57"
proof -
  have "map byte ''0123456789'' = [48..<58]" by code_simp
  then have "byte ` set ''0123456789'' = set [48..<58]" by (metis list.set_map)
  moreover have "c \<in> set ''0123456789'' \<longleftrightarrow> byte c \<in> byte ` set ''0123456789''"
    by (rule inj_image_mem_iff [symmetric]) (simp add: inj_def)
  ultimately have "dec_digit c \<longleftrightarrow> byte c \<in> set [48..<58]" unfolding dec_digit_def by blast
  then show ?thesis unfolding set_upt atLeastLessThan_iff by linarith
qed

lemma is_numeric_digits: "is_numeric s \<longleftrightarrow> s \<noteq> [] \<and> list_all dec_digit s"
proof -
  have "go_trim_right t ''0123456789'' = [] \<longleftrightarrow> (\<forall>c \<in> set t. dec_digit c)" for t
    by (auto simp: go_trim_right_def dec_digit_def simp del: set_simps)
  moreover have "(\<forall>c \<in> set (dropWhile P s). P c) \<longleftrightarrow> (\<forall>c \<in> set s. P c)" for P :: "char \<Rightarrow> bool" and s
    by (induction s) auto
  ultimately show ?thesis
    unfolding is_numeric_def go_trim_left_def dec_digit_def [symmetric] list_all_iff by simp
qed

lemma num_value_acc: "foldl (\<lambda>n c. 10 * n + (byte c - 48)) k s = k * 10 ^ length s + num_value s"
proof (induction s arbitrary: k)
  case (Cons c s)
  show ?case using Cons [of "10 * k + (byte c - 48)"] Cons [of "byte c - 48"] by (simp add: num_value_def algebra_simps)
qed (simp add: num_value_def)

lemma num_value_Cons: "num_value (c # s) = (byte c - 48) * 10 ^ length s + num_value s"
  using num_value_acc [of "byte c - 48" s] by (simp add: num_value_def)

lemma num_value_bound: "list_all dec_digit s \<Longrightarrow> num_value s < 10 ^ length s"
proof (induction s)
  case (Cons c s)
  then have "48 \<le> byte c \<and> byte c \<le> 57" "num_value s < 10 ^ length s" by (simp_all add: dec_digit_byte)
  then have "byte c - 48 \<le> 9" "num_value s < 10 ^ length s" by linarith+
  then have "(byte c - 48) * 10 ^ length s + num_value s < 9 * 10 ^ length s + 10 ^ length s"
    by (intro add_le_less_mono mult_le_mono1)
  then show ?case by (simp add: num_value_Cons)
qed (simp add: num_value_def)

lemma trim_zeros_value: "num_value (go_trim_left s ''0'') = num_value s"
  by (induction s) (auto simp: go_trim_left_def num_value_Cons byte_def)

lemma trim_zeros_digits: "list_all dec_digit s \<Longrightarrow> list_all dec_digit (go_trim_left s ''0'')"
  by (induction s) (auto simp: go_trim_left_def)

lemma trim_zeros_head: "go_trim_left s ''0'' = c # cs \<Longrightarrow> c \<noteq> CHR ''0''"
  by (induction s) (auto simp: go_trim_left_def split: if_splits)

lemma num_value_lower: "list_all dec_digit (c # cs) \<Longrightarrow> c \<noteq> CHR ''0'' \<Longrightarrow> 10 ^ length cs \<le> num_value (c # cs)"
proof -
  assume d: "list_all dec_digit (c # cs)" and z: "c \<noteq> CHR ''0''"
  have "byte (CHR ''0'') = 48" by (simp add: byte_def)
  then have "byte c \<noteq> 48" using z byte_inject [of c "CHR ''0''"] by simp
  moreover have "48 \<le> byte c" using d by (simp add: dec_digit_byte)
  ultimately have "1 \<le> byte c - 48" by linarith
  then have "1 * 10 ^ length cs \<le> (byte c - 48) * 10 ^ length cs" by (rule mult_le_mono1)
  then show ?thesis unfolding num_value_Cons by linarith
qed

lemma byte_less_iff: "c < d \<longleftrightarrow> byte c < byte d"
  by (simp add: byte_def less_char_def)

lemma go_compare_sign: "go_compare a b = (if a < b then -1 else if b < a then 1 else 0)"
  by (auto simp: go_compare_def)

lemma same_length_value:
  "length a = length b \<Longrightarrow> list_all dec_digit a \<Longrightarrow> list_all dec_digit b \<Longrightarrow> (a < b \<longleftrightarrow> num_value a < num_value b)"
proof (induction a b rule: list_induct2)
  case (Cons c cs d ds)
  have dig: "48 \<le> byte c" "48 \<le> byte d" using Cons.prems by (simp_all add: dec_digit_byte)
  have bnd: "num_value cs < 10 ^ length cs" "num_value ds < 10 ^ length ds"
    using Cons.prems num_value_bound by simp_all
  have ih: "cs < ds \<longleftrightarrow> num_value cs < num_value ds" using Cons by simp
  let ?P = "10 ^ length cs :: nat"
  have lt: "x < y \<Longrightarrow> n < ?P \<Longrightarrow> x * ?P + n < y * ?P + m" for x y n m :: nat
  proof -
    assume "x < y" "n < ?P"
    have "(x + 1) * ?P \<le> y * ?P" using \<open>x < y\<close> by (intro mult_le_mono1) simp
    moreover have "(x + 1) * ?P = x * ?P + ?P" by (simp add: add_mult_distrib)
    ultimately show ?thesis using \<open>n < ?P\<close> by linarith
  qed
  consider "byte c < byte d" | "byte d < byte c" | "c = d" using byte_inject by (metis linorder_neqE_nat)
  then show ?case
  proof cases
    case 1
    then have "byte c - 48 < byte d - 48" using dig by linarith
    then have "num_value (c # cs) < num_value (d # ds)" unfolding num_value_Cons Cons.hyps(1) [symmetric] using lt bnd(1) by blast
    with 1 show ?thesis by (simp add: byte_less_iff)
  next
    case 2
    then have "byte d - 48 < byte c - 48" using dig by linarith
    then have "num_value (d # ds) < num_value (c # cs)" unfolding num_value_Cons Cons.hyps(1) [symmetric] using lt bnd(2) Cons.hyps(1) by simp
    with 2 show ?thesis by (auto simp: byte_less_iff)
  next
    case 3
    then show ?thesis using ih Cons.hyps(1) by (simp add: num_value_Cons)
  qed
qed simp

lemma shorter_value:
  assumes "list_all dec_digit a" "list_all dec_digit (c # cs)" "c \<noteq> CHR ''0''" "length a < length (c # cs)"
  shows "num_value a < num_value (c # cs)"
proof -
  have "num_value a < 10 ^ length a" using num_value_bound [OF assms(1)] .
  also have "\<dots> \<le> 10 ^ length cs" using assms(4) by simp
  also have "\<dots> \<le> num_value (c # cs)" using num_value_lower [OF assms(2,3)] .
  finally show ?thesis .
qed

text \<open>\<open>compareNumeric\<close> compares the numbers, however long the strings are.\<close>

lemma compare_numeric_value:
  assumes "list_all dec_digit a" "list_all dec_digit b"
  shows "compare_numeric a b = compare_int (num_value a) (num_value b)"
proof -
  let ?a = "go_trim_left a ''0''" let ?b = "go_trim_left b ''0''"
  have d: "list_all dec_digit ?a" "list_all dec_digit ?b" using assms trim_zeros_digits by blast+
  have v: "num_value ?a = num_value a" "num_value ?b = num_value b" by (rule trim_zeros_value)+
  consider "length ?a < length ?b" | "length ?b < length ?a" | "length ?a = length ?b" by linarith
  then show ?thesis
  proof cases
    case 1
    then obtain c cs where b: "?b = c # cs" by (cases ?b) auto
    have "num_value ?a < num_value ?b" unfolding b
      by (rule shorter_value) (use d 1 b trim_zeros_head [OF b] in simp_all)
    with 1 v show ?thesis by (simp add: compare_numeric_def compare_int_def Let_def)
  next
    case 2
    then obtain c cs where a: "?a = c # cs" by (cases ?a) auto
    have "num_value ?b < num_value ?a" unfolding a
      by (rule shorter_value) (use d 2 a trim_zeros_head [OF a] in simp_all)
    with 2 v show ?thesis by (simp add: compare_numeric_def compare_int_def Let_def)
  next
    case 3
    have "compare_numeric a b = go_compare ?a ?b" using 3 by (simp add: compare_numeric_def compare_int_def Let_def)
    then show ?thesis
      using same_length_value [OF 3 d] same_length_value [OF 3 [symmetric] d(2,1)] v by (simp add: go_compare_sign compare_int_def)
  qed
qed

subsection \<open>The order\<close>

text \<open>The key of an identifier puts numbers before texts; the key of a version puts valid versions before
  others, compares the three numbers, and puts a release after its pre-releases.\<close>

definition identifier_key :: "string \<Rightarrow> nat \<times> nat \<times> string" where
  "identifier_key x = (if is_numeric x then (0, num_value x, []) else (1, 0, x))"

definition version_key :: "string \<Rightarrow> nat \<times> nat list \<times> nat \<times> (nat \<times> nat \<times> string) list \<times> string" where
  "version_key v =
     (case parse_semver v of
        None \<Rightarrow> (1, [], 0, [], v)
      | Some s \<Rightarrow> (0, map num_value (sv_core s), if sv_pre s = [] then 1 else 0, map identifier_key (sv_pre s), []))"

definition key_compare :: "'a::linorder \<Rightarrow> 'a \<Rightarrow> int" where
  "key_compare a b = (if a < b then -1 else if a = b then 0 else 1)"

lemma key_compare_pair:
  "key_compare (a, x) (b, y) = (let c = key_compare a b in if c \<noteq> 0 then c else key_compare x y)"
  by (auto simp: key_compare_def Let_def)

lemma key_compare_cons:
  "key_compare (a # x) (b # y) = (let c = key_compare a b in if c \<noteq> 0 then c else key_compare x y)"
  by (auto simp: key_compare_def Let_def)

lemma compare_int_key: "compare_int a b = key_compare a b"
  by (simp add: compare_int_def key_compare_def)

lemma go_compare_key: "go_compare a b = key_compare a b"
  by (simp add: go_compare_def key_compare_def)

lemma compare_identifier_key: "compare_identifier x y = key_compare (identifier_key x) (identifier_key y)"
  by (auto simp: compare_identifier_def identifier_key_def is_numeric_digits compare_numeric_value compare_int_key go_compare_key
      key_compare_def)

lemma compare_lists_key: "compare_lists xs ys = key_compare (map identifier_key xs) (map identifier_key ys)"
proof (induction xs arbitrary: ys)
  case Nil
  then show ?case by (cases ys) (simp_all add: compare_int_def key_compare_def)
next
  case (Cons x xs)
  then show ?case by (cases ys) (simp_all add: key_compare_cons compare_identifier_key compare_int_def key_compare_def [of "[]"] key_compare_def [of "_ # _" "[]"] Let_def)
qed

lemma compare_core_key:
  "length xs = length ys \<Longrightarrow> list_all is_numeric xs \<Longrightarrow> list_all is_numeric ys \<Longrightarrow>
     compare_core xs ys = key_compare (map num_value xs) (map num_value ys)"
proof (induction xs ys rule: list_induct2)
  case (Cons x xs y ys)
  then show ?case by (simp add: key_compare_cons is_numeric_digits compare_numeric_value compare_int_key Let_def)
qed (simp add: key_compare_def)

lemma compare_prerelease_key:
  "compare_prerelease a b = key_compare (if a = [] then 1 else 0 :: nat, map identifier_key a) (if b = [] then 1 else 0, map identifier_key b)"
  by (auto simp: compare_prerelease_def compare_lists_key key_compare_pair key_compare_def)

lemma parse_semver_core: "parse_semver v = Some s \<Longrightarrow> length (sv_core s) = 3 \<and> list_all is_numeric (sv_core s)"
  by (auto simp: parse_semver_def Let_def split: prod.splits if_splits option.splits)

lemma compare_semver_key: "compare_semver a b = key_compare (version_key a) (version_key b)"
proof (cases "parse_semver a")
  case None
  then show ?thesis by (cases "parse_semver b") (auto simp: compare_semver_def version_key_def go_compare_key key_compare_def)
next
  case (Some pa)
  show ?thesis
  proof (cases "parse_semver b")
    case None
    with Some show ?thesis by (auto simp: compare_semver_def version_key_def key_compare_def)
  next
    case sb: (Some pb)
    have "compare_core (sv_core pa) (sv_core pb) = key_compare (map num_value (sv_core pa)) (map num_value (sv_core pb))"
      using parse_semver_core [OF Some] parse_semver_core [OF sb] by (intro compare_core_key) simp_all
    with Some sb show ?thesis
      by (simp add: compare_semver_def version_key_def compare_prerelease_key key_compare_pair Let_def) (simp add: key_compare_def)
  qed
qed


end
