(* ===== verification/Resolution.thy ===== *)
theory Resolution
  imports CatalogTypes
begin

text \<open>
  \<open>catalog/resolution/resolve.go\<close>, \<open>lease.go\<close> and \<open>connections.go\<close>: resolving the capabilities a skill
  requires to exact, admitted bindings. Parameters: the catalog, the authorizer, the store, SHA-256, the
  random identifier, the clock, the connection broker, and the decoding of metadata (which includes the
  rejection of duplicate fields) into the structures below.
\<close>

datatype res_error =
  ResInvalid | ResForeignSkill | ResDenied | ResAuthFailed | ResRevoked | ResNotFound | ResCatalog | ResIncompletePin
| ResDecode | ResIdentity | ResClosure | ResSearch | ResBudget | ResRandom | ResStore

record res_request =
  rr_principal :: principal_rec
  rr_skill :: artifact_ref
  rr_runtime :: string
  rr_owned_connections :: bool
  rr_max_bytes :: int
  rr_lease :: int

text \<open>The pin of a finding: the reference is \<open>id@version\<close>.\<close>

record res_pin =
  rp_reference :: string
  rp_kind :: string
  rp_digest :: digest
  rp_manifest :: digest

record res_finding =
  rf_capability :: string
  rf_required :: bool
  rf_status :: string
  rf_binding :: "res_pin option"
  rf_closure :: "res_pin list"
  rf_provenance :: string
  rf_reason :: string

record res_result =
  rs_id :: string
  rs_status :: string
  rs_skill :: res_pin
  rs_findings :: "res_finding list"

record runtime_requirements =
  ru_local :: bool
  ru_filesystem :: "string list"

record capability_requirement =
  cq_id :: string
  cq_version :: string
  cq_optional :: bool

record skill_metadata =
  sk_id :: string
  sk_version :: string
  sk_required :: "capability_requirement list"
  sk_runtime :: runtime_requirements

record binding_metadata =
  bm_id :: string
  bm_version :: string
  bm_capability :: string
  bm_tool :: string
  bm_provider :: string
  bm_adapter :: string
  bm_fixture :: digest
  bm_conformance :: string
  bm_exact :: bool

record tool_contract =
  to_id :: string
  to_version :: string
  to_lifecycle :: string
  to_location :: string
  to_action_id :: string
  to_action_version :: string
  to_credentials :: string

text \<open>What is persisted.\<close>

record stored_finding =
  sf_capability :: string
  sf_status :: string
  sf_binding :: artifact_ref
  sf_closure :: "artifact_pin list"
  sf_required :: bool
  sf_provenance :: string

record stored_resolution =
  so_id :: string
  so_principal :: principal_rec
  so_skill :: artifact_ref
  so_skill_pin :: artifact_pin
  so_expires_at :: int
  so_findings :: "stored_finding list"

record record_page =
  pa_records :: "catalog_record list"
  pa_next_id :: string

record resolver =
  rv_get :: "artifact_ref \<Rightarrow> res_error + catalog_record"
  rv_bindings :: "principal_rec \<Rightarrow> int \<Rightarrow> record_page option"
  rv_decide :: authorizer
  rv_hash :: "string \<Rightarrow> string"
  rv_skill :: "string \<Rightarrow> skill_metadata option"
  rv_capability :: "string \<Rightarrow> (string \<times> string) option"
  rv_binding :: "string \<Rightarrow> binding_metadata option"
  rv_tool :: "string \<Rightarrow> tool_contract option"
  rv_provider :: "string \<Rightarrow> string option"
  rv_new_id :: "string option"
  rv_now :: int
  rv_put :: "stored_resolution \<Rightarrow> bool"

definition status_ready :: string where "status_ready = ''ready''"
definition status_requires_connection :: string where "status_requires_connection = ''requires_connection''"
definition status_requires_selection :: string where "status_requires_selection = ''requires_selection''"
definition status_incomplete :: string where "status_incomplete = ''incomplete''"
definition status_unsupported :: string where "status_unsupported = ''unsupported_runtime''"
definition status_requires_gateway :: string where "status_requires_gateway = ''requires_gateway''"
definition max_binding_scan :: nat where "max_binding_scan = 100"

definition digest_ok :: "digest \<Rightarrow> bool" where
  "digest_ok d \<longleftrightarrow> dg_algorithm d = ''sha256'' \<and> length (dg_value d) = 64 \<and> list_all is_lower_hex (dg_value d)"

definition document_alias :: "(string \<Rightarrow> string) \<Rightarrow> catalog_record \<Rightarrow> digest option" where
  "document_alias hash r =
     (if \<not> digest_ok (cr_document_digest r) \<or> dg_algorithm (cr_document_digest r) \<noteq> ''sha256'' then None
      else if hash (cr_metadata r) \<noteq> dg_value (cr_document_digest r) then None
      else Some (cr_document_digest r))"

definition aliased :: "(string \<Rightarrow> string) \<Rightarrow> catalog_record \<Rightarrow> catalog_record" where
  "aliased hash r =
     (if \<not> digest_ok (cr_manifest_digest r) \<and> ar_kind (cr_ref r) \<noteq> kind_skill
      then (case document_alias hash r of None \<Rightarrow> r | Some d \<Rightarrow> r\<lparr>cr_manifest_digest := d\<rparr>) else r)"

definition get_admitted :: "resolver \<Rightarrow> artifact_ref \<Rightarrow> res_error + catalog_record" where
  "get_admitted rv ref =
     (case rv_get rv ref of
        Inl e \<Rightarrow> Inl e
      | Inr r \<Rightarrow>
          if cr_state r = ''revoked'' then Inl ResRevoked
          else if cr_ref r \<noteq> ref \<or> \<not> listed_state (cr_state r) \<or> \<not> digest_ok (cr_digest r) then Inl ResIncompletePin
          else (let r' = aliased (rv_hash rv) r in
                if \<not> digest_ok (cr_manifest_digest r') then Inl ResIncompletePin else Inr r'))"

definition capability_ref :: "artifact_ref \<Rightarrow> string" where
  "capability_ref ref = ar_id ref @ ''@'' @ ar_version ref"

definition pin_record :: "resolver \<Rightarrow> catalog_record \<Rightarrow> res_pin option" where
  "pin_record rv r0 =
     (let r = aliased (rv_hash rv) r0 in
      if \<not> digest_ok (cr_digest r) \<or> \<not> digest_ok (cr_manifest_digest r) then None
      else Some \<lparr>rp_reference = capability_ref (cr_ref r), rp_kind = ar_kind (cr_ref r), rp_digest = cr_digest r,
                 rp_manifest = cr_manifest_digest r\<rparr>)"

definition parse_ref :: "string \<Rightarrow> string \<Rightarrow> string \<Rightarrow> artifact_ref option" where
  "parse_ref workspace kind v =
     (case go_cut v ''@'' of (i, ver, found) \<Rightarrow>
        if \<not> found \<or> i = [] \<or> ver = [] \<or> go_contains ver ''@'' then None
        else Some \<lparr>ar_workspace = workspace, ar_kind = kind, ar_id = i, ar_version = ver\<rparr>)"

definition port_ref :: "string \<Rightarrow> res_pin \<Rightarrow> artifact_ref" where
  "port_ref workspace p =
     (case go_cut (rp_reference p) ''@'' of (i, ver, found) \<Rightarrow>
        \<lparr>ar_workspace = workspace, ar_kind = rp_kind p, ar_id = i, ar_version = ver\<rparr>)"

definition authorize :: "resolver \<Rightarrow> principal_rec \<Rightarrow> artifact_ref \<Rightarrow> res_error option" where
  "authorize rv p ref =
     (case rv_decide rv p action_read ref of
        None \<Rightarrow> Some ResAuthFailed
      | Some d \<Rightarrow> if \<not> dc_allowed d then Some ResDenied else None)"

text \<open>The loop over the page of bindings; \<open>None\<close> is a candidate whose metadata does not decode.\<close>

fun match_bindings :: "resolver \<Rightarrow> string \<Rightarrow> string \<Rightarrow> catalog_record list \<Rightarrow> catalog_record list option" where
  "match_bindings rv ws cap [] = Some []"
| "match_bindings rv ws cap (c # cs) =
     (if ar_workspace (cr_ref c) \<noteq> ws \<or> ar_kind (cr_ref c) \<noteq> kind_binding then match_bindings rv ws cap cs
      else (case rv_binding rv (cr_metadata c) of
          None \<Rightarrow> None
        | Some bm \<Rightarrow> if bm_capability bm = cap then map_option (Cons c) (match_bindings rv ws cap cs)
                     else match_bindings rv ws cap cs))"

definition binding_ok :: "artifact_ref \<Rightarrow> catalog_record \<Rightarrow> binding_metadata \<Rightarrow> bool" where
  "binding_ok cap b bm \<longleftrightarrow> \<not> (bm_id bm \<noteq> ar_id (cr_ref b) \<or> bm_version bm \<noteq> ar_version (cr_ref b)
     \<or> bm_capability bm \<noteq> capability_ref cap \<or> bm_conformance bm \<noteq> ''passed'' \<or> \<not> bm_exact bm \<or> bm_adapter bm = []
     \<or> \<not> digest_ok (bm_fixture bm))"

definition tool_ok :: "artifact_ref \<Rightarrow> artifact_ref \<Rightarrow> tool_contract \<Rightarrow> bool" where
  "tool_ok tool provider t \<longleftrightarrow> to_location t \<in> {''client'', ''runtime'', ''gist_gateway''}
     \<and> to_id t = ar_id tool \<and> to_version t = ar_version tool \<and> listed_state (to_lifecycle t)
     \<and> to_action_id t = ar_id provider \<and> to_action_version t = ar_version provider"

text \<open>The branch repeated after every \<open>getAdmitted\<close>: a revoked artifact and any other failure abort the
  resolution, a missing one becomes the reason of the finding.\<close>

definition unless_missing ::
  "res_error + catalog_record \<Rightarrow> res_finding \<Rightarrow> string \<Rightarrow> (catalog_record \<Rightarrow> res_error + res_finding) \<Rightarrow> res_error + res_finding" where
  "unless_missing x f why k =
     (case x of
        Inl e \<Rightarrow> if e = ResRevoked then Inl e else if e \<noteq> ResNotFound then Inl e else Inr (f\<lparr>rf_reason := why\<rparr>)
      | Inr r \<Rightarrow> k r)"

text \<open>The end of \<open>resolveCapability\<close>, once the four records of the closure are known.\<close>

definition judge_closure ::
  "res_request \<Rightarrow> runtime_requirements \<Rightarrow> res_finding \<Rightarrow> res_pin \<Rightarrow> res_pin list \<Rightarrow> tool_contract \<Rightarrow> res_finding" where
  "judge_closure rq rt f0 binding closure t =
     (let f = f0\<lparr>rf_binding := Some binding, rf_closure := closure\<rparr>;
          needs = (to_credentials t \<noteq> [] \<and> to_credentials t \<noteq> ''none'')
      in if to_location t = ''gist_gateway''
         then f\<lparr>rf_status := status_requires_gateway, rf_reason := ''binding requires an execution gateway''\<rparr>
         else if ru_local rt \<and> to_location t \<noteq> ''client''
         then f\<lparr>rf_status := status_unsupported, rf_reason := ''skill requires client-local execution''\<rparr>
         else if ru_filesystem rt \<noteq> []
         then f\<lparr>rf_status := status_unsupported, rf_reason := ''runtime filesystem permissions are not present in the v1 request''\<rparr>
         else if needs \<and> \<not> rr_owned_connections rq
         then f\<lparr>rf_status := status_requires_connection, rf_reason := ''runtime connection required''\<rparr>
         else (if needs then f\<lparr>rf_provenance := ''client_asserted'', rf_status := status_ready\<rparr> else f\<lparr>rf_status := status_ready\<rparr>))"

text \<open>Its tool and provider are known: their pins and their contracts are checked.\<close>

definition judge_records ::
  "resolver \<Rightarrow> res_request \<Rightarrow> runtime_requirements \<Rightarrow> res_finding \<Rightarrow> res_pin \<Rightarrow> res_pin \<Rightarrow> catalog_record \<Rightarrow> catalog_record \<Rightarrow> res_finding" where
  "judge_records rv rq rt f cap_pin binding_pin tool provider =
     (case pin_record rv tool of
        None \<Rightarrow> f\<lparr>rf_reason := ''tool closure incomplete''\<rparr>
      | Some tool_pin \<Rightarrow>
        (case pin_record rv provider of
           None \<Rightarrow> f\<lparr>rf_reason := ''provider closure incomplete''\<rparr>
         | Some provider_pin \<Rightarrow>
           (case rv_tool rv (cr_metadata tool) of
              None \<Rightarrow> f\<lparr>rf_reason := ''execution schema is incompatible or incomplete''\<rparr>
            | Some t \<Rightarrow>
              if \<not> tool_ok (cr_ref tool) (cr_ref provider) t
              then f\<lparr>rf_reason := ''execution schema is incompatible or incomplete''\<rparr>
              else (case rv_provider rv (cr_metadata provider) of
                  None \<Rightarrow> f\<lparr>rf_reason := ''provider is not admitted for resolution''\<rparr>
                | Some support \<Rightarrow>
                  if support \<noteq> ''resolvable'' \<and> support \<noteq> ''executable''
                  then f\<lparr>rf_reason := ''provider is not admitted for resolution''\<rparr>
                  else judge_closure rq rt f binding_pin [cap_pin, binding_pin, tool_pin, provider_pin] t))))"

definition resolve_tool ::
  "resolver \<Rightarrow> res_request \<Rightarrow> runtime_requirements \<Rightarrow> res_finding \<Rightarrow> res_pin \<Rightarrow> res_pin \<Rightarrow> binding_metadata \<Rightarrow> res_error + res_finding" where
  "resolve_tool rv rq rt f cap_pin binding_pin bm =
     (let ws = pn_workspace (rr_principal rq) in
      case parse_ref ws kind_tool (bm_tool bm) of
        None \<Rightarrow> Inr (f\<lparr>rf_reason := ''binding tool reference is invalid''\<rparr>)
      | Some tool_ref \<Rightarrow>
        (case parse_ref ws kind_provider (bm_provider bm) of
           None \<Rightarrow> Inr (f\<lparr>rf_reason := ''binding provider reference is invalid''\<rparr>)
         | Some provider_ref \<Rightarrow>
           (case authorize rv (rr_principal rq) tool_ref of
              Some e \<Rightarrow> Inl e
            | None \<Rightarrow>
              (case authorize rv (rr_principal rq) provider_ref of
                 Some e \<Rightarrow> Inl e
               | None \<Rightarrow>
                 unless_missing (get_admitted rv tool_ref) f ''binding tool unavailable'' (\<lambda>tool.
                 unless_missing (get_admitted rv provider_ref) f ''binding provider unavailable'' (\<lambda>provider.
                   Inr (judge_records rv rq rt f cap_pin binding_pin tool provider)))))))"

definition resolve_binding ::
  "resolver \<Rightarrow> res_request \<Rightarrow> runtime_requirements \<Rightarrow> artifact_ref \<Rightarrow> res_finding \<Rightarrow> res_pin \<Rightarrow> catalog_record \<Rightarrow> res_error + res_finding" where
  "resolve_binding rv rq rt cap f cap_pin found =
     (case authorize rv (rr_principal rq) (cr_ref found) of
        Some e \<Rightarrow> Inl e
      | None \<Rightarrow>
        unless_missing (get_admitted rv (cr_ref found)) f ''binding unavailable'' (\<lambda>b.
          case rv_binding rv (cr_metadata b) of
            None \<Rightarrow> Inr (f\<lparr>rf_reason := ''binding metadata is invalid''\<rparr>)
          | Some bm \<Rightarrow>
            if \<not> binding_ok cap b bm then Inr (f\<lparr>rf_reason := ''binding is incompatible or incomplete''\<rparr>)
            else if bm_id bm = [] \<or> bm_version bm = [] then Inr (f\<lparr>rf_reason := ''binding version is incomplete''\<rparr>)
            else (case pin_record rv b of
                None \<Rightarrow> Inr (f\<lparr>rf_reason := ''binding closure incomplete''\<rparr>)
              | Some binding_pin \<Rightarrow> resolve_tool rv rq rt f cap_pin binding_pin bm)))"

definition resolve_capability ::
  "resolver \<Rightarrow> res_request \<Rightarrow> capability_requirement \<Rightarrow> artifact_ref \<Rightarrow> runtime_requirements \<Rightarrow> res_error + res_finding" where
  "resolve_capability rv rq need cap rt =
     (let ws = pn_workspace (rr_principal rq);
          f = \<lparr>rf_capability = cq_id need, rf_required = \<not> cq_optional need, rf_status = status_incomplete, rf_binding = None,
               rf_closure = [], rf_provenance = [], rf_reason = []\<rparr>
      in if cq_id need = [] \<or> cq_version need = [] then Inr (f\<lparr>rf_reason := ''invalid capability reference''\<rparr>)
         else (case authorize rv (rr_principal rq) cap of
             Some e \<Rightarrow> Inl e
           | None \<Rightarrow>
             unless_missing (get_admitted rv cap) f ''capability unavailable'' (\<lambda>c.
               case rv_capability rv (cr_metadata c) of
                 None \<Rightarrow> Inl ResDecode
               | Some (i, ver) \<Rightarrow>
                 if i \<noteq> ar_id cap \<or> ver \<noteq> ar_version cap then Inr (f\<lparr>rf_reason := ''capability manifest identity mismatch''\<rparr>)
                 else (case pin_record rv c of
                     None \<Rightarrow> Inr (f\<lparr>rf_reason := ''capability closure incomplete''\<rparr>)
                   | Some cap_pin \<Rightarrow>
                     (case rv_bindings rv (rr_principal rq) (int max_binding_scan) of
                        None \<Rightarrow> Inl ResSearch
                      | Some page \<Rightarrow>
                        if length (pa_records page) \<ge> max_binding_scan \<or> pa_next_id page \<noteq> []
                        then Inr (f\<lparr>rf_reason := ''binding catalog exceeds resolution scan limit''\<rparr>)
                        else (case match_bindings rv ws (capability_ref cap) (pa_records page) of
                            None \<Rightarrow> Inr (f\<lparr>rf_reason := ''binding metadata is invalid''\<rparr>)
                          | Some matches \<Rightarrow>
                            (case matches of
                               [] \<Rightarrow> Inr (f\<lparr>rf_reason := ''no admitted binding''\<rparr>)
                             | [found] \<Rightarrow> resolve_binding rv rq rt cap f cap_pin found
                             | _ \<Rightarrow> Inr (f\<lparr>rf_status := status_requires_selection, rf_reason := ''multiple admitted bindings''\<rparr>)))))))) "

fun resolve_all ::
  "resolver \<Rightarrow> res_request \<Rightarrow> runtime_requirements \<Rightarrow> capability_requirement list \<Rightarrow> res_error + res_finding list" where
  "resolve_all rv rq rt [] = Inr []"
| "resolve_all rv rq rt (need # needs) =
     (case resolve_capability rv rq need
            \<lparr>ar_workspace = pn_workspace (rr_principal rq), ar_kind = kind_capability, ar_id = cq_id need, ar_version = cq_version need\<rparr> rt of
        Inl e \<Rightarrow> Inl e
      | Inr f \<Rightarrow> (case resolve_all rv rq rt needs of Inl e \<Rightarrow> Inl e | Inr fs \<Rightarrow> Inr (f # fs)))"

definition aggregate :: "res_finding list \<Rightarrow> string" where
  "aggregate fs = (if list_ex (\<lambda>f. rf_required f \<and> rf_status f \<noteq> status_ready) fs then status_incomplete else status_ready)"

subsection \<open>Persisting\<close>

definition json_digest :: "digest \<Rightarrow> string" where
  "json_digest d = json_object [(''algorithm'', Some (json_string (dg_algorithm d))), (''value'', Some (json_string (dg_value d)))]"

definition json_pin :: "res_pin \<Rightarrow> string" where
  "json_pin p = json_object [(''reference'', Some (json_string (rp_reference p))), (''kind'', Some (json_string (rp_kind p))),
     (''digest'', Some (json_digest (rp_digest p))), (''manifest_digest'', Some (json_digest (rp_manifest p)))]"

definition json_finding :: "res_finding \<Rightarrow> string" where
  "json_finding f = json_object [(''capability_id'', Some (json_string (rf_capability f))), (''required'', Some (json_bool (rf_required f))),
     (''status'', Some (json_string (rf_status f))), (''binding'', map_option json_pin (rf_binding f)),
     (''closure'', if rf_closure f = [] then None else Some (json_list (map json_pin (rf_closure f)))),
     (''provenance'', omit_empty (rf_provenance f)), (''reason'', omit_empty (rf_reason f))]"

definition json_resolution :: "res_result \<Rightarrow> string" where
  "json_resolution r = json_object [(''resolution_id'', Some (json_string (rs_id r))), (''aggregate'', Some (json_string (rs_status r))),
     (''skill'', Some (json_pin (rs_skill r))), (''findings'', Some (json_list (map json_finding (rs_findings r))))]"

text \<open>Times are in nanoseconds, stored expiries in seconds.\<close>

definition max_lease :: int where "max_lease = 60 * 10 ^ 9"

definition lease_expiry :: "int \<Rightarrow> int \<Rightarrow> int" where
  "lease_expiry now requested = now + (if requested \<le> 0 \<or> requested > max_lease then max_lease else requested)"

definition stored_pin_of :: "string \<Rightarrow> res_pin \<Rightarrow> artifact_pin" where
  "stored_pin_of ws p = \<lparr>ap_ref = port_ref ws p, ap_digest = rp_digest p, ap_manifest = rp_manifest p\<rparr>"

definition empty_ref :: artifact_ref where
  "empty_ref = \<lparr>ar_workspace = [], ar_kind = [], ar_id = [], ar_version = []\<rparr>"

definition stored_finding_of :: "string \<Rightarrow> res_finding \<Rightarrow> stored_finding" where
  "stored_finding_of ws f = \<lparr>sf_capability = rf_capability f, sf_status = rf_status f,
     sf_binding = (case rf_binding f of None \<Rightarrow> empty_ref | Some p \<Rightarrow> port_ref ws p),
     sf_closure = map (stored_pin_of ws) (rf_closure f), sf_required = rf_required f, sf_provenance = rf_provenance f\<rparr>"

text \<open>The result goes to the caller, the stored resolution to the store.\<close>

definition persist ::
  "resolver \<Rightarrow> res_request \<Rightarrow> res_pin \<Rightarrow> res_finding list \<Rightarrow> string \<Rightarrow> res_error + res_result \<times> stored_resolution" where
  "persist rv rq skill findings status =
     (case rv_new_id rv of
        None \<Rightarrow> Inl ResRandom
      | Some i \<Rightarrow>
          (let ws = pn_workspace (rr_principal rq);
               result = \<lparr>rs_id = i, rs_status = status, rs_skill = skill, rs_findings = findings\<rparr>
           in if int (length (json_resolution result)) > rr_max_bytes rq then Inl ResBudget
              else (let stored = \<lparr>so_id = i, so_principal = rr_principal rq, so_skill = rr_skill rq,
                        so_skill_pin = stored_pin_of ws skill, so_expires_at = lease_expiry (rv_now rv) (rr_lease rq) div 10 ^ 9,
                        so_findings = map (stored_finding_of ws) findings\<rparr>
                    in if rv_put rv stored then Inr (result, stored) else Inl ResStore)))"

definition resolve :: "resolver \<Rightarrow> res_request \<Rightarrow> res_error + res_result \<times> stored_resolution" where
  "resolve rv rq =
     (let p = rr_principal rq; skill = rr_skill rq in
      if pn_workspace p = [] \<or> pn_subject p = [] \<or> ar_id skill = [] \<or> ar_version skill = [] \<or> rr_max_bytes rq \<le> 0
         \<or> go_trim_space (rr_runtime rq) = [] then Inl ResInvalid
      else if ar_workspace skill \<noteq> pn_workspace p \<or> ar_kind skill \<noteq> kind_skill then Inl ResForeignSkill
      else (case authorize rv p skill of
          Some e \<Rightarrow> Inl e
        | None \<Rightarrow> (case get_admitted rv skill of
            Inl e \<Rightarrow> Inl e
          | Inr r \<Rightarrow> (case rv_skill rv (cr_metadata r) of
              None \<Rightarrow> Inl ResDecode
            | Some sm \<Rightarrow>
                if sk_id sm \<noteq> ar_id skill \<or> sk_version sm \<noteq> ar_version skill then Inl ResIdentity
                else (case pin_record rv r of
                    None \<Rightarrow> Inl ResClosure
                  | Some skill_pin \<Rightarrow> (case resolve_all rv rq (sk_runtime sm) (sk_required sm) of
                        Inl e \<Rightarrow> Inl e
                      | Inr findings \<Rightarrow> persist rv rq skill_pin findings (aggregate findings)))))))"

subsection \<open>Connections\<close>

text \<open>\<open>ConnectionService\<close>: the broker is \<open>None\<close> when absent.\<close>

datatype connection_error = BrokerUnavailable | InvalidCapability | InvalidConnection | BrokerFailed

definition begin_connection ::
  "(principal_rec \<Rightarrow> artifact_ref \<Rightarrow> 'c option) option \<Rightarrow> principal_rec \<Rightarrow> artifact_ref \<Rightarrow> connection_error + 'c" where
  "begin_connection broker p cap =
     (case broker of
        None \<Rightarrow> Inl BrokerUnavailable
      | Some start \<Rightarrow>
          if ar_id cap = [] \<or> ar_version cap = [] then Inl InvalidCapability
          else (case start p cap of None \<Rightarrow> Inl BrokerFailed | Some c \<Rightarrow> Inr c))"

definition get_connection ::
  "(principal_rec \<Rightarrow> string \<Rightarrow> 'c option) option \<Rightarrow> principal_rec \<Rightarrow> string \<Rightarrow> connection_error + 'c" where
  "get_connection broker p i =
     (case broker of
        None \<Rightarrow> Inl BrokerUnavailable
      | Some fetch \<Rightarrow> if i = [] then Inl InvalidConnection else (case fetch p i of None \<Rightarrow> Inl BrokerFailed | Some c \<Rightarrow> Inr c))"

end
