(* ===== verification/ResolutionProperties.thy ===== *)
theory ResolutionProperties
  imports Resolution
begin

text \<open>
  What a resolution promises: a capability is reported ready only with a complete, admitted and authorized
  closure, the aggregate is ready exactly when every required capability is, and what is stored is what is
  answered. References and pins are converted back and forth without loss.
\<close>

subsection \<open>References\<close>

lemma cut_at_sep:
  assumes "CHR ''@'' \<notin> set a"
  shows "go_cut (a @ ''@'' @ b) ''@'' = (a, b, True)"
proof -
  have "go_index (a @ ''@'' @ b) ''@'' = Some (length a)" using assms by (induction a) auto
  then show ?thesis by (simp add: go_cut_def)
qed

lemma index_single: "go_index s [c] = Some i \<Longrightarrow> s = take i s @ [c] @ drop (Suc i) s \<and> c \<notin> set (take i s)"
proof (induction s arbitrary: i)
  case (Cons x s)
  show ?case
  proof (cases "x = c")
    case False
    then obtain j where "i = Suc j" "go_index s [c] = Some j" using Cons.prems by auto
    with Cons.IH False show ?thesis by simp
  qed (use Cons.prems in auto)
qed simp

lemma contains_single: "go_contains s [c] \<longleftrightarrow> c \<in> set s"
  unfolding go_contains_iff_sublist by (induction s) (auto simp: sublist_Cons_right)

definition exact_ref :: "artifact_ref \<Rightarrow> bool" where
  "exact_ref r \<longleftrightarrow> ar_id r \<noteq> [] \<and> ar_version r \<noteq> [] \<and> CHR ''@'' \<notin> set (ar_id r) \<and> CHR ''@'' \<notin> set (ar_version r)"

lemma parse_capability_ref: "exact_ref r \<Longrightarrow> parse_ref (ar_workspace r) (ar_kind r) (capability_ref r) = Some r"
  using cut_at_sep [of "ar_id r" "ar_version r"] by (simp add: parse_ref_def capability_ref_def exact_ref_def contains_single)

lemma capability_ref_parse:
  assumes "parse_ref ws kind v = Some r"
  shows "capability_ref r = v \<and> exact_ref r \<and> ar_workspace r = ws \<and> ar_kind r = kind"
proof -
  obtain i where i: "go_index v ''@'' = Some i" "take i v \<noteq> []" "drop (Suc i) v \<noteq> []" "\<not> go_contains (drop (Suc i) v) ''@''"
      "r = \<lparr>ar_workspace = ws, ar_kind = kind, ar_id = take i v, ar_version = drop (Suc i) v\<rparr>"
    using assms by (auto simp: parse_ref_def go_cut_def split: option.splits if_splits)
  with index_single [OF i(1)] show ?thesis by (simp add: capability_ref_def exact_ref_def contains_single)
qed

lemma port_ref_pin:
  "pin_record rv r = Some p \<Longrightarrow> CHR ''@'' \<notin> set (ar_id (cr_ref r)) \<Longrightarrow> port_ref (ar_workspace (cr_ref r)) p = cr_ref r"
  using cut_at_sep [of "ar_id (cr_ref r)" "ar_version (cr_ref r)"]
  by (auto simp: pin_record_def port_ref_def capability_ref_def aliased_def Let_def split: if_splits option.splits)

subsection \<open>Readiness\<close>

lemma unless_missing_ready:
  "unless_missing x f why k = Inr g \<Longrightarrow> rf_status f \<noteq> status_ready \<Longrightarrow> rf_status g = status_ready \<Longrightarrow>
     \<exists>r. x = Inr r \<and> k r = Inr g"
  by (auto simp: unless_missing_def split: sum.splits if_splits)

lemma statuses_differ [simp]:
  "status_requires_connection \<noteq> status_ready" "status_requires_selection \<noteq> status_ready" "status_incomplete \<noteq> status_ready"
  "status_unsupported \<noteq> status_ready" "status_requires_gateway \<noteq> status_ready"
  by (simp_all add: status_ready_def status_requires_connection_def status_requires_selection_def status_incomplete_def
      status_unsupported_def status_requires_gateway_def)

text \<open>A record behind a pin: admitted under its reference, readable by the caller, and pinned by its digests.\<close>

definition pinned_record :: "resolver \<Rightarrow> principal_rec \<Rightarrow> artifact_ref \<Rightarrow> res_pin \<Rightarrow> catalog_record \<Rightarrow> bool" where
  "pinned_record rv p ref q r \<longleftrightarrow> get_admitted rv ref = Inr r \<and> authorize rv p ref = None \<and> pin_record rv r = Some q"

lemma admitted_facts:
  assumes "get_admitted rv ref = Inr r"
  shows "cr_ref r = ref \<and> listed_state (cr_state r) \<and> digest_ok (cr_digest r) \<and> digest_ok (cr_manifest_digest r)"
  using assms by (auto simp: get_admitted_def aliased_def Let_def split: sum.splits if_splits option.splits)

definition ready_tool ::
  "resolver \<Rightarrow> res_request \<Rightarrow> runtime_requirements \<Rightarrow> catalog_record \<Rightarrow> catalog_record \<Rightarrow> bool" where
  "ready_tool rv rq rt tool provider \<longleftrightarrow> (\<exists>t support. rv_tool rv (cr_metadata tool) = Some t \<and> tool_ok (cr_ref tool) (cr_ref provider) t
     \<and> rv_provider rv (cr_metadata provider) = Some support \<and> support \<in> {''resolvable'', ''executable''}
     \<and> to_location t \<noteq> ''gist_gateway'' \<and> (ru_local rt \<longrightarrow> to_location t = ''client'') \<and> ru_filesystem rt = []
     \<and> (to_credentials t \<in> {[], ''none''} \<or> rr_owned_connections rq))"

lemma judge_closure_ready:
  "rf_status (judge_closure rq rt f b cl t) = status_ready \<Longrightarrow> rf_status f \<noteq> status_ready \<Longrightarrow>
     to_location t \<noteq> ''gist_gateway'' \<and> (ru_local rt \<longrightarrow> to_location t = ''client'') \<and> ru_filesystem rt = []
     \<and> (to_credentials t \<in> {[], ''none''} \<or> rr_owned_connections rq)"
  by (auto simp: judge_closure_def Let_def split: if_splits)

lemma judge_closure_pins [simp]:
  "rf_binding (judge_closure rq rt f b cl t) = Some b" "rf_closure (judge_closure rq rt f b cl t) = cl"
  "rf_capability (judge_closure rq rt f b cl t) = rf_capability f" "rf_required (judge_closure rq rt f b cl t) = rf_required f"
  by (simp_all add: judge_closure_def Let_def)

lemma judge_records_ready:
  assumes "rf_status (judge_records rv rq rt f cp bp tool provider) = status_ready" "rf_status f \<noteq> status_ready"
  shows "\<exists>tp pp. pin_record rv tool = Some tp \<and> pin_record rv provider = Some pp \<and> ready_tool rv rq rt tool provider
     \<and> rf_binding (judge_records rv rq rt f cp bp tool provider) = Some bp
     \<and> rf_closure (judge_records rv rq rt f cp bp tool provider) = [cp, bp, tp, pp]"
proof -
  note run = assms(1) [unfolded judge_records_def]
  obtain tp where tp: "pin_record rv tool = Some tp" using run assms(2) by (cases "pin_record rv tool") simp_all
  note run1 = run [unfolded tp option.case]
  obtain pp where pp: "pin_record rv provider = Some pp" using run1 assms(2) by (cases "pin_record rv provider") simp_all
  note run2 = run1 [unfolded pp option.case]
  obtain t where t: "rv_tool rv (cr_metadata tool) = Some t" using run2 assms(2) by (cases "rv_tool rv (cr_metadata tool)") simp_all
  note run3 = run2 [unfolded t option.case]
  have ok: "tool_ok (cr_ref tool) (cr_ref provider) t" using run3 assms(2) by (simp split: if_splits)
  obtain sp where sp: "rv_provider rv (cr_metadata provider) = Some sp"
    using run3 ok assms(2) by (cases "rv_provider rv (cr_metadata provider)") simp_all
  have sup: "sp \<in> {''resolvable'', ''executable''}" using run3 ok sp assms(2) by (simp split: if_splits)
  have j: "judge_records rv rq rt f cp bp tool provider = judge_closure rq rt f bp [cp, bp, tp, pp] t"
    unfolding judge_records_def using tp pp t ok sp sup by auto
  have "ready_tool rv rq rt tool provider"
    unfolding ready_tool_def using t ok sp sup judge_closure_ready [OF assms(1) [unfolded j] assms(2)] by blast
  then show ?thesis unfolding j using tp pp by simp
qed

lemma resolve_tool_ready:
  assumes "resolve_tool rv rq rt f cp bp bm = Inr g" "rf_status f \<noteq> status_ready" "rf_status g = status_ready"
  shows "\<exists>tr pr tp pp tool provider. parse_ref (pn_workspace (rr_principal rq)) kind_tool (bm_tool bm) = Some tr
     \<and> parse_ref (pn_workspace (rr_principal rq)) kind_provider (bm_provider bm) = Some pr
     \<and> pinned_record rv (rr_principal rq) tr tp tool \<and> pinned_record rv (rr_principal rq) pr pp provider
     \<and> ready_tool rv rq rt tool provider \<and> rf_binding g = Some bp \<and> rf_closure g = [cp, bp, tp, pp]"
proof -
  let ?ws = "pn_workspace (rr_principal rq)"
  note run = assms(1) [unfolded resolve_tool_def Let_def]
  obtain tr where tr: "parse_ref ?ws kind_tool (bm_tool bm) = Some tr"
    using run assms(2,3) by (cases "parse_ref ?ws kind_tool (bm_tool bm)") auto
  obtain pr where pr: "parse_ref ?ws kind_provider (bm_provider bm) = Some pr"
    using run tr assms(2,3) by (cases "parse_ref ?ws kind_provider (bm_provider bm)") auto
  note run1 = run [unfolded tr pr option.case]
  have au: "authorize rv (rr_principal rq) tr = None" using run1 by (cases "authorize rv (rr_principal rq) tr") simp_all
  note run2 = run1 [unfolded au option.case]
  have ap: "authorize rv (rr_principal rq) pr = None" using run2 by (cases "authorize rv (rr_principal rq) pr") simp_all
  note run3 = run2 [unfolded ap option.case]
  from unless_missing_ready [OF run3 assms(2,3)] obtain tool where tool: "get_admitted rv tr = Inr tool"
    and run4: "unless_missing (get_admitted rv pr) f ''binding provider unavailable''
        (\<lambda>provider. Inr (judge_records rv rq rt f cp bp tool provider)) = Inr g"
    by blast
  from unless_missing_ready [OF run4 assms(2,3)] obtain provider where provider: "get_admitted rv pr = Inr provider"
    and g: "g = judge_records rv rq rt f cp bp tool provider" by blast
  from judge_records_ready [OF assms(3) [unfolded g] assms(2)] show ?thesis
    using tr pr au ap tool provider g unfolding pinned_record_def by blast
qed

lemma match_bindings_spec:
  "match_bindings rv ws cap rs = Some ms \<Longrightarrow>
     ms = filter (\<lambda>c. ar_workspace (cr_ref c) = ws \<and> ar_kind (cr_ref c) = kind_binding
            \<and> (\<exists>bm. rv_binding rv (cr_metadata c) = Some bm \<and> bm_capability bm = cap)) rs"
  by (induction rv ws cap rs arbitrary: ms rule: match_bindings.induct) (auto split: if_splits option.splits)

lemma resolve_binding_ready:
  assumes "resolve_binding rv rq rt cap f cp found = Inr g" "rf_status f \<noteq> status_ready" "rf_status g = status_ready"
  shows "\<exists>b bm bp tr pr tp pp tool provider. pinned_record rv (rr_principal rq) (cr_ref found) bp b \<and> rv_binding rv (cr_metadata b) = Some bm
     \<and> binding_ok cap b bm \<and> parse_ref (pn_workspace (rr_principal rq)) kind_tool (bm_tool bm) = Some tr
     \<and> parse_ref (pn_workspace (rr_principal rq)) kind_provider (bm_provider bm) = Some pr
     \<and> pinned_record rv (rr_principal rq) tr tp tool \<and> pinned_record rv (rr_principal rq) pr pp provider
     \<and> ready_tool rv rq rt tool provider \<and> rf_binding g = Some bp \<and> rf_closure g = [cp, bp, tp, pp]"
proof -
  note run = assms(1) [unfolded resolve_binding_def]
  have au: "authorize rv (rr_principal rq) (cr_ref found) = None" using run by (cases "authorize rv (rr_principal rq) (cr_ref found)") simp_all
  note run1 = run [unfolded au option.case]
  from unless_missing_ready [OF run1 assms(2,3)] obtain b where b: "get_admitted rv (cr_ref found) = Inr b"
    and run2: "(case rv_binding rv (cr_metadata b) of
            None \<Rightarrow> Inr (f\<lparr>rf_reason := ''binding metadata is invalid''\<rparr>)
          | Some bm \<Rightarrow>
            if \<not> binding_ok cap b bm then Inr (f\<lparr>rf_reason := ''binding is incompatible or incomplete''\<rparr>)
            else if bm_id bm = [] \<or> bm_version bm = [] then Inr (f\<lparr>rf_reason := ''binding version is incomplete''\<rparr>)
            else (case pin_record rv b of
                None \<Rightarrow> Inr (f\<lparr>rf_reason := ''binding closure incomplete''\<rparr>)
              | Some binding_pin \<Rightarrow> resolve_tool rv rq rt f cp binding_pin bm)) = Inr g"
    by blast
  obtain bm where bm: "rv_binding rv (cr_metadata b) = Some bm" using run2 assms(2,3) by (cases "rv_binding rv (cr_metadata b)") auto
  note run3 = run2 [unfolded bm option.case]
  have ok: "binding_ok cap b bm" "\<not> (bm_id bm = [] \<or> bm_version bm = [])"
    using run3 assms(2,3) by (auto split: if_splits)
  have "\<not> \<not> binding_ok cap b bm" using ok(1) by simp
  note run4 = run3 [unfolded if_not_P [OF this] if_not_P [OF ok(2)]]
  obtain bp where bp: "pin_record rv b = Some bp" using run4 assms(2,3) by (cases "pin_record rv b") auto
  note run5 = run4 [unfolded bp option.case]
  from resolve_tool_ready [OF run5 assms(2,3)] show ?thesis using au b bm ok(1) bp unfolding pinned_record_def by blast
qed

text \<open>What a ready finding stands for: one binding only for the capability among fewer than the scan limit, and
  four records, all admitted and readable, that match each other exactly.\<close>

definition capability_of :: "res_request \<Rightarrow> capability_requirement \<Rightarrow> artifact_ref" where
  "capability_of rq need = \<lparr>ar_workspace = pn_workspace (rr_principal rq), ar_kind = kind_capability, ar_id = cq_id need,
     ar_version = cq_version need\<rparr>"

definition only_binding :: "resolver \<Rightarrow> res_request \<Rightarrow> artifact_ref \<Rightarrow> catalog_record \<Rightarrow> bool" where
  "only_binding rv rq cap found \<longleftrightarrow> (\<exists>page. rv_bindings rv (rr_principal rq) (int max_binding_scan) = Some page
     \<and> length (pa_records page) < max_binding_scan \<and> pa_next_id page = []
     \<and> filter (\<lambda>c. ar_workspace (cr_ref c) = pn_workspace (rr_principal rq) \<and> ar_kind (cr_ref c) = kind_binding
            \<and> (\<exists>bm. rv_binding rv (cr_metadata c) = Some bm \<and> bm_capability bm = capability_ref cap)) (pa_records page) = [found])"

definition ready_capability :: "resolver \<Rightarrow> res_request \<Rightarrow> runtime_requirements \<Rightarrow> artifact_ref \<Rightarrow> res_finding \<Rightarrow> bool" where
  "ready_capability rv rq rt cap g \<longleftrightarrow> (\<exists>c cp found b bm bp tr pr tp pp tool provider.
     pinned_record rv (rr_principal rq) cap cp c \<and> only_binding rv rq cap found
     \<and> pinned_record rv (rr_principal rq) (cr_ref found) bp b \<and> rv_binding rv (cr_metadata b) = Some bm
     \<and> binding_ok cap b bm \<and> parse_ref (pn_workspace (rr_principal rq)) kind_tool (bm_tool bm) = Some tr
     \<and> parse_ref (pn_workspace (rr_principal rq)) kind_provider (bm_provider bm) = Some pr
     \<and> pinned_record rv (rr_principal rq) tr tp tool \<and> pinned_record rv (rr_principal rq) pr pp provider
     \<and> ready_tool rv rq rt tool provider \<and> rf_binding g = Some bp \<and> rf_closure g = [cp, bp, tp, pp])"

lemma resolve_capability_ready:
  assumes "resolve_capability rv rq need cap rt = Inr g" "rf_status g = status_ready"
  shows "ready_capability rv rq rt cap g"
proof -
  let ?f = "\<lparr>rf_capability = cq_id need, rf_required = \<not> cq_optional need, rf_status = status_incomplete, rf_binding = None,
               rf_closure = [], rf_provenance = [], rf_reason = []\<rparr>"
  note run = assms(1) [unfolded resolve_capability_def Let_def]
  have f: "rf_status ?f \<noteq> status_ready" by simp
  have ids: "\<not> (cq_id need = [] \<or> cq_version need = [])" using run assms(2) by (auto split: if_splits)
  note run1 = run [unfolded if_not_P [OF ids]]
  have au: "authorize rv (rr_principal rq) cap = None" using run1 by (cases "authorize rv (rr_principal rq) cap") simp_all
  note run2 = run1 [unfolded au option.case]
  obtain c where c: "get_admitted rv cap = Inr c" using unless_missing_ready [OF run2 f assms(2)] by blast
  note run3 = run2 [unfolded c unless_missing_def sum.case]
  obtain iv where iv: "rv_capability rv (cr_metadata c) = Some iv" using run3 by (cases "rv_capability rv (cr_metadata c)") simp_all
  obtain i ver where ivp: "iv = (i, ver)" by (cases iv)
  note run4 = run3 [unfolded iv ivp option.case prod.case]
  have same: "\<not> (i \<noteq> ar_id cap \<or> ver \<noteq> ar_version cap)"
  proof
    assume d: "i \<noteq> ar_id cap \<or> ver \<noteq> ar_version cap"
    show False using run4 assms(2) unfolding if_P [OF d] by auto
  qed
  note run5 = run4 [unfolded if_not_P [OF same]]
  obtain cp where cp: "pin_record rv c = Some cp" using run5 assms(2) by (cases "pin_record rv c") auto
  note run6 = run5 [unfolded cp option.case]
  obtain page where page: "rv_bindings rv (rr_principal rq) (int max_binding_scan) = Some page"
    using run6 by (cases "rv_bindings rv (rr_principal rq) (int max_binding_scan)") simp_all
  note run7 = run6 [unfolded page option.case]
  have few: "\<not> (length (pa_records page) \<ge> max_binding_scan \<or> pa_next_id page \<noteq> [])"
  proof
    assume d: "length (pa_records page) \<ge> max_binding_scan \<or> pa_next_id page \<noteq> []"
    show False using run7 assms(2) unfolding if_P [OF d] by auto
  qed
  note run8 = run7 [unfolded if_not_P [OF few]]
  obtain ms where ms: "match_bindings rv (pn_workspace (rr_principal rq)) (capability_ref cap) (pa_records page) = Some ms"
    using run8 assms(2) by (cases "match_bindings rv (pn_workspace (rr_principal rq)) (capability_ref cap) (pa_records page)") auto
  note run9 = run8 [unfolded ms option.case]
  obtain found where found: "ms = [found]" and rb: "resolve_binding rv rq rt cap ?f cp found = Inr g"
    using run9 assms(2) by (cases ms rule: remdups_adj.cases) auto
  have "only_binding rv rq cap found" unfolding only_binding_def using page few match_bindings_spec [OF ms] found by auto
  then show ?thesis
    using resolve_binding_ready [OF rb f assms(2)] c au cp unfolding ready_capability_def pinned_record_def by blast
qed

lemma resolve_all_spec:
  "resolve_all rv rq rt needs = Inr fs \<Longrightarrow> list_all2 (\<lambda>need f. resolve_capability rv rq need (capability_of rq need) rt = Inr f) needs fs"
  by (induction needs arbitrary: fs) (auto simp: capability_of_def split: sum.splits)

lemma resolve_parts:
  assumes "resolve rv rq = Inr (res, stored)"
  obtains r sm sp where "pinned_record rv (rr_principal rq) (rr_skill rq) sp r" "rv_skill rv (cr_metadata r) = Some sm"
    "sk_id sm = ar_id (rr_skill rq)" "sk_version sm = ar_version (rr_skill rq)"
    "resolve_all rv rq (sk_runtime sm) (sk_required sm) = Inr (rs_findings res)" "rs_skill res = sp"
    "rs_status res = aggregate (rs_findings res)" "int (length (json_resolution res)) \<le> rr_max_bytes rq"
    "stored = \<lparr>so_id = rs_id res, so_principal = rr_principal rq, so_skill = rr_skill rq,
        so_skill_pin = stored_pin_of (pn_workspace (rr_principal rq)) sp, so_expires_at = lease_expiry (rv_now rv) (rr_lease rq) div 10 ^ 9,
        so_findings = map (stored_finding_of (pn_workspace (rr_principal rq))) (rs_findings res)\<rparr>"
    "ar_workspace (rr_skill rq) = pn_workspace (rr_principal rq)"
  using assms unfolding resolve_def persist_def pinned_record_def
  by (auto simp: Let_def split: if_splits option.splits sum.splits)

subsection \<open>Findings keep the requirement they answer\<close>

definition same_need :: "res_finding \<Rightarrow> res_finding \<Rightarrow> bool" where
  "same_need f g \<longleftrightarrow> rf_capability g = rf_capability f \<and> rf_required g = rf_required f"

lemma same_need_simps [simp]:
  "same_need f f" "same_need f (g\<lparr>rf_reason := r\<rparr>) = same_need f g" "same_need f (g\<lparr>rf_status := st\<rparr>) = same_need f g"
  by (simp_all add: same_need_def)

lemma unless_missing_need:
  "unless_missing x f why k = Inr g \<Longrightarrow> (\<And>r. k r = Inr g \<Longrightarrow> same_need f g) \<Longrightarrow> same_need f g"
  by (auto simp: unless_missing_def split: sum.splits if_splits)

lemma judge_records_need: "same_need f (judge_records rv rq rt f cp bp tool provider)"
  by (auto simp: judge_records_def same_need_def split: option.split)

lemma resolve_tool_need: "resolve_tool rv rq rt f cp bp bm = Inr g \<Longrightarrow> same_need f g"
  by (auto simp: resolve_tool_def Let_def judge_records_need split: option.splits dest!: unless_missing_need)

lemma resolve_binding_need: "resolve_binding rv rq rt cap f cp found = Inr g \<Longrightarrow> same_need f g"
  by (auto simp: resolve_binding_def split: option.splits if_splits dest: resolve_tool_need elim!: unless_missing_need)

lemma resolve_capability_need:
  assumes "resolve_capability rv rq need cap rt = Inr g"
  shows "rf_capability g = cq_id need \<and> rf_required g = (\<not> cq_optional need)"
proof -
  let ?f = "\<lparr>rf_capability = cq_id need, rf_required = \<not> cq_optional need, rf_status = status_incomplete, rf_binding = None,
               rf_closure = [], rf_provenance = [], rf_reason = []\<rparr>"
  have "same_need ?f g"
    using assms unfolding resolve_capability_def Let_def
    by (auto split: option.splits if_splits prod.splits list.splits dest: resolve_binding_need elim!: unless_missing_need)
      (auto simp: same_need_def dest: resolve_binding_need)
  then show ?thesis by (simp add: same_need_def)
qed

lemma aggregate_ready: "aggregate fs = status_ready \<longleftrightarrow> (\<forall>f \<in> set fs. rf_required f \<longrightarrow> rf_status f = status_ready)"
  by (auto simp: aggregate_def list_ex_iff)

lemma lease_bounds: "now < lease_expiry now d \<and> lease_expiry now d \<le> now + max_lease"
  by (auto simp: lease_expiry_def max_lease_def)

lemma resolve_sound:
  assumes "resolve rv rq = Inr (res, stored)"
  shows "\<exists>r sm. pinned_record rv (rr_principal rq) (rr_skill rq) (rs_skill res) r \<and> rv_skill rv (cr_metadata r) = Some sm
     \<and> list_all2 (\<lambda>need f. rf_capability f = cq_id need \<and> rf_required f = (\<not> cq_optional need)
          \<and> (rf_status f = status_ready \<longrightarrow> ready_capability rv rq (sk_runtime sm) (capability_of rq need) f))
        (sk_required sm) (rs_findings res)
     \<and> (rs_status res = status_ready \<longleftrightarrow> (\<forall>f \<in> set (rs_findings res). rf_required f \<longrightarrow> rf_status f = status_ready))
     \<and> so_findings stored = map (stored_finding_of (pn_workspace (rr_principal rq))) (rs_findings res)
     \<and> so_expires_at stored \<le> (rv_now rv + max_lease) div 10 ^ 9"
proof -
  obtain r sm sp where p: "pinned_record rv (rr_principal rq) (rr_skill rq) sp r" "rv_skill rv (cr_metadata r) = Some sm"
    "resolve_all rv rq (sk_runtime sm) (sk_required sm) = Inr (rs_findings res)" "rs_skill res = sp"
    "rs_status res = aggregate (rs_findings res)"
    "stored = \<lparr>so_id = rs_id res, so_principal = rr_principal rq, so_skill = rr_skill rq,
        so_skill_pin = stored_pin_of (pn_workspace (rr_principal rq)) sp, so_expires_at = lease_expiry (rv_now rv) (rr_lease rq) div 10 ^ 9,
        so_findings = map (stored_finding_of (pn_workspace (rr_principal rq))) (rs_findings res)\<rparr>"
    using resolve_parts [OF assms] by metis
  have "list_all2 (\<lambda>need f. rf_capability f = cq_id need \<and> rf_required f = (\<not> cq_optional need)
          \<and> (rf_status f = status_ready \<longrightarrow> ready_capability rv rq (sk_runtime sm) (capability_of rq need) f))
        (sk_required sm) (rs_findings res)"
    using resolve_all_spec [OF p(3)]
    by (rule list_all2_mono) (use resolve_capability_need resolve_capability_ready in blast)
  moreover have "so_expires_at stored \<le> (rv_now rv + max_lease) div 10 ^ 9"
    unfolding p(6) using lease_bounds [of "rv_now rv" "rr_lease rq"] by (simp add: zdiv_mono1)
  ultimately show ?thesis using p(1,2,4-6) aggregate_ready [of "rs_findings res"] by (intro exI [of _ r] exI [of _ sm]) simp
qed

subsection \<open>A resolution\<close>

definition mail_digest :: digest where
  "mail_digest = \<lparr>dg_algorithm = ''sha256'', dg_value = replicate 64 CHR ''0''\<rparr>"

definition mail_ref :: "string \<Rightarrow> string \<Rightarrow> artifact_ref" where
  "mail_ref kind i = \<lparr>ar_workspace = ''w'', ar_kind = kind, ar_id = i, ar_version = ''1''\<rparr>"

definition mail_record :: "artifact_ref \<Rightarrow> catalog_record" where
  "mail_record ref = \<lparr>cr_ref = ref, cr_state = ''published'', cr_digest = mail_digest, cr_manifest_digest = mail_digest,
     cr_document_digest = mail_digest, cr_package_digest = mail_digest, cr_object_key = [], cr_artifact_size = 0, cr_metadata = ar_id ref\<rparr>"

definition mail_skill :: skill_metadata where
  "mail_skill = \<lparr>sk_id = ''s'', sk_version = ''1'', sk_required = [\<lparr>cq_id = ''c'', cq_version = ''1'', cq_optional = False\<rparr>],
     sk_runtime = \<lparr>ru_local = False, ru_filesystem = []\<rparr>\<rparr>"

definition mail_resolver :: resolver where
  "mail_resolver = \<lparr>rv_get = (\<lambda>ref. Inr (mail_record ref)),
     rv_bindings = (\<lambda>_ _. Some \<lparr>pa_records = [mail_record (mail_ref kind_binding ''b'')], pa_next_id = []\<rparr>),
     rv_decide = (\<lambda>_ _ _. Some \<lparr>dc_allowed = True, dc_status = 200, dc_reason = []\<rparr>), rv_hash = (\<lambda>_. []),
     rv_skill = (\<lambda>_. Some mail_skill), rv_capability = (\<lambda>_. Some (''c'', ''1'')),
     rv_binding = (\<lambda>_. Some \<lparr>bm_id = ''b'', bm_version = ''1'', bm_capability = ''c@1'', bm_tool = ''t@1'', bm_provider = ''p@1'',
        bm_adapter = ''1'', bm_fixture = mail_digest, bm_conformance = ''passed'', bm_exact = True\<rparr>),
     rv_tool = (\<lambda>_. Some \<lparr>to_id = ''t'', to_version = ''1'', to_lifecycle = ''published'', to_location = ''client'', to_action_id = ''p'',
        to_action_version = ''1'', to_credentials = []\<rparr>), rv_provider = (\<lambda>_. Some ''executable''),
     rv_new_id = Some ''r'', rv_now = 0, rv_put = (\<lambda>_. True)\<rparr>"

definition mail_request :: "int \<Rightarrow> res_request" where
  "mail_request m = \<lparr>rr_principal = \<lparr>pn_issuer = ''i'', pn_subject = ''u'', pn_audience = ''a'', pn_workspace = ''w'', pn_scopes = [],
       pn_generation = 1, pn_subject_type = ''user''\<rparr>,
     rr_skill = mail_ref kind_skill ''s'', rr_runtime = ''rt'', rr_owned_connections = False, rr_max_bytes = m, rr_lease = 0\<rparr>"

definition mail_pin :: "string \<Rightarrow> string \<Rightarrow> res_pin" where
  "mail_pin kind i = \<lparr>rp_reference = i @ ''@1'', rp_kind = kind, rp_digest = mail_digest, rp_manifest = mail_digest\<rparr>"

definition mail_finding :: res_finding where
  "mail_finding = \<lparr>rf_capability = ''c'', rf_required = True, rf_status = status_ready, rf_binding = Some (mail_pin kind_binding ''b''),
     rf_closure = [mail_pin kind_capability ''c'', mail_pin kind_binding ''b'', mail_pin kind_tool ''t'', mail_pin kind_provider ''p''],
     rf_provenance = [], rf_reason = []\<rparr>"

definition mail_result :: res_result where
  "mail_result = \<lparr>rs_id = ''r'', rs_status = status_ready, rs_skill = mail_pin kind_skill ''s'', rs_findings = [mail_finding]\<rparr>"

definition mail_stored :: stored_resolution where
  "mail_stored = \<lparr>so_id = ''r'', so_principal = rr_principal (mail_request 0), so_skill = mail_ref kind_skill ''s'',
     so_skill_pin = stored_pin_of ''w'' (mail_pin kind_skill ''s''), so_expires_at = 60,
     so_findings = [stored_finding_of ''w'' mail_finding]\<rparr>"

lemma mail_resolves: "resolve mail_resolver (mail_request (int (length (json_resolution mail_result)))) = Inr (mail_result, mail_stored)"
proof -
  let ?m = "int (length (json_resolution mail_result))"
  have m: "0 < ?m" by (simp add: json_resolution_def)
  have all: "resolve_all mail_resolver (mail_request m) (sk_runtime mail_skill) (sk_required mail_skill) = Inr [mail_finding]" for m
    by code_simp
  have adm: "get_admitted mail_resolver (mail_ref kind_skill ''s'') = Inr (mail_record (mail_ref kind_skill ''s''))" by code_simp
  have pin: "pin_record mail_resolver (mail_record (mail_ref kind_skill ''s'')) = Some (mail_pin kind_skill ''s'')" by code_simp
  have au: "authorize mail_resolver (rr_principal (mail_request m)) (mail_ref kind_skill ''s'') = None" for m by code_simp
  have rt: "go_trim_space ''rt'' = ''rt''" by code_simp
  have ag: "aggregate [mail_finding] = status_ready" by code_simp
  have pe: "persist mail_resolver (mail_request ?m) (mail_pin kind_skill ''s'') [mail_finding] status_ready = Inr (mail_result, mail_stored)"
    by (simp add: persist_def mail_resolver_def mail_request_def Let_def mail_result_def mail_stored_def lease_expiry_def max_lease_def)
  show ?thesis
    unfolding resolve_def Let_def
    using m all adm pin au rt ag pe
    by (simp add: mail_request_def mail_ref_def mail_resolver_def mail_record_def mail_skill_def)
qed



text \<open>References survive the way through strings: an exact reference (no part empty, no at-sign inside) is
  what \<open>parseRef\<close> reads back from its \<open>id@version\<close> form, everything \<open>parseRef\<close> accepts is the form of the
  reference it returns, and the reference stored for a pin is that of the pinned record whenever its
  identifier has no at-sign.\<close>

theorem reference_roundtrip:
  "(exact_ref r \<longrightarrow> parse_ref (ar_workspace r) (ar_kind r) (capability_ref r) = Some r)
   \<and> (parse_ref ws kind v = Some r \<longrightarrow> capability_ref r = v \<and> exact_ref r \<and> ar_workspace r = ws \<and> ar_kind r = kind)
   \<and> (pin_record rv rec = Some p \<longrightarrow> CHR ''@'' \<notin> set (ar_id (cr_ref rec)) \<longrightarrow> port_ref (ar_workspace (cr_ref rec)) p = cr_ref rec)"
  using parse_capability_ref capability_ref_parse port_ref_pin by blast

theorem reference_roundtrip_witness:
  "parse_ref ''w'' kind_tool ''t@1'' = Some (mail_ref kind_tool ''t'')
   \<and> parse_ref ''w'' kind_tool (capability_ref (mail_ref kind_tool ''t'')) = Some (mail_ref kind_tool ''t'')
   \<and> port_ref ''w'' (mail_pin kind_skill ''s'') = mail_ref kind_skill ''s''"
proof -
  have e: "exact_ref (mail_ref kind_tool ''t'')" by code_simp
  have q: "parse_ref ''w'' kind_tool ''t@1'' = Some (mail_ref kind_tool ''t'')" by code_simp
  have pin: "pin_record mail_resolver (mail_record (mail_ref kind_skill ''s'')) = Some (mail_pin kind_skill ''s'')" by code_simp
  have at: "CHR ''@'' \<notin> set (ar_id (cr_ref (mail_record (mail_ref kind_skill ''s''))))" by code_simp
  show ?thesis
    using reference_roundtrip [of "mail_ref kind_tool ''t''" "''w''" kind_tool "''t@1''" mail_resolver "mail_record (mail_ref kind_skill ''s'')"
        "mail_pin kind_skill ''s''"] e q pin at
    by (simp add: mail_ref_def mail_record_def)
qed

end
