(* ===== verification/Packages.thy ===== *)
theory Packages
  imports CatalogTypes "HOL-Library.AList"
begin

text \<open>
  \<open>catalog/integrity\<close> (\<open>digest.go\<close>, \<open>package.go\<close>) and \<open>catalog/packages\<close> (\<open>archive.go\<close>, \<open>validate.go\<close>,
  \<open>retrieve.go\<close>): reading a skill's ZIP archive, checking it against its inventory, and retrieving it under
  the caller's authority. Errors carry a message. Parameters: the reader of ZIP files, SHA-256 as lower-case
  hex, the decoding of a manifest, and the answers of the authorizer, the catalog and the artifact store at
  each instant they are asked. A Go map of files is an association list in the order its keys were added;
  where the code ranges over it, the order decides at most which error is reported.
\<close>

subsection \<open>Inventories\<close>

record inventory_entry =
  iv_path :: string
  iv_size :: int
  iv_sha :: string
  iv_media :: string

fun split_path :: "string \<Rightarrow> string list" where
  "split_path [] = [[]]"
| "split_path (c # cs) =
     (if c = CHR ''/'' then [] # split_path cs
      else (case split_path cs of [] \<Rightarrow> [[c]] | p # ps \<Rightarrow> (c # p) # ps))"

definition plain_segment :: "string \<Rightarrow> bool" where
  "plain_segment p \<longleftrightarrow> \<not> (p = [] \<or> p = ''.'' \<or> p = ''..'')"

text \<open>Called with a non-empty path.\<close>

definition validate_path :: "string \<Rightarrow> bool" where
  "validate_path p \<longleftrightarrow> \<not> (hd p = CHR ''/'' \<or> last p = CHR ''/'') \<and> list_all plain_segment (split_path p)"

fun entries_error :: "string list \<Rightarrow> inventory_entry list \<Rightarrow> string option" where
  "entries_error seen [] = None"
| "entries_error seen (e # es) =
     (if iv_path e = [] \<or> iv_size e < 0 \<or> iv_media e = [] then Some ''invalid inventory entry''
      else if iv_path e \<in> set seen then Some ''duplicate inventory path''
      else if \<not> validate_path (iv_path e) then Some ''invalid inventory path''
      else entries_error (iv_path e # seen) es)"

definition entry_text :: "inventory_entry \<Rightarrow> string" where
  "entry_text e = json_object [(''media_type'', Some (json_string (iv_media e))), (''path'', Some (json_string (iv_path e))),
     (''sha256'', Some (json_string (iv_sha e))), (''size'', Some (json_int (iv_size e)))]"

text \<open>The entries are sorted by path; an inventory with two entries of one path is refused.\<close>

definition canonical_inventory :: "inventory_entry list \<Rightarrow> string + string" where
  "canonical_inventory es =
     (let sorted_entries = sort_key iv_path es in
      case entries_error [] sorted_entries of
        Some e \<Rightarrow> Inl e
      | None \<Rightarrow> Inr (json_list (map entry_text sorted_entries)))"

definition package_digest :: "(string \<Rightarrow> string) \<Rightarrow> inventory_entry list \<Rightarrow> string + string" where
  "package_digest hash es =
     (case canonical_inventory es of Inl e \<Rightarrow> Inl e | Inr b \<Rightarrow> Inr (hash b))"

definition valid_sha :: "string \<Rightarrow> bool" where
  "valid_sha s \<longleftrightarrow> length s = 64 \<and> list_all is_lower_hex s"

subsection \<open>Verification of a package\<close>

type_synonym file_map = "(string \<times> string) list"

definition manifest_name :: string where "manifest_name = ''manifest.json''"
definition skill_name :: string where "skill_name = ''SKILL.md''"

definition declared :: "inventory_entry list \<Rightarrow> string \<rightharpoonup> inventory_entry" where
  "declared es = map_of (rev (map (\<lambda>e. (iv_path e, e)) es))"

fun files_error :: "(string \<Rightarrow> string) \<Rightarrow> (string \<rightharpoonup> inventory_entry) \<Rightarrow> file_map \<Rightarrow> string option" where
  "files_error hash decl [] = None"
| "files_error hash decl ((p, content) # fs) =
     (if p = manifest_name then Some ''manifest must be detached from inventory''
      else (case decl p of
          None \<Rightarrow> Some ''undeclared file''
        | Some e \<Rightarrow>
            if int (length content) \<noteq> iv_size e then Some ''size mismatch''
            else if hash content \<noteq> iv_sha e then Some ''digest mismatch''
            else files_error hash decl fs))"

text \<open>The last two arguments are the detached transfer: digest and size of the manifest.\<close>

definition verify_package ::
  "(string \<Rightarrow> string) \<Rightarrow> string \<Rightarrow> file_map \<Rightarrow> inventory_entry list \<Rightarrow> string \<Rightarrow> string \<Rightarrow> int \<Rightarrow> string option" where
  "verify_package hash manifest files inventory digest manifest_digest manifest_size =
     (if hash manifest \<noteq> manifest_digest \<or> int (length manifest) \<noteq> manifest_size then Some ''manifest detached digest or size mismatch''
      else (case package_digest hash inventory of
          Inl e \<Rightarrow> Some e
        | Inr want \<Rightarrow>
            if want \<noteq> digest then Some ''package digest mismatch''
            else if map_of files skill_name = None then Some ''missing SKILL.md''
            else if \<not> list_all (\<lambda>e. valid_sha (iv_sha e)) inventory then Some ''invalid sha256''
            else (case files_error hash (declared inventory) files of
                Some e \<Rightarrow> Some e
              | None \<Rightarrow> if list_ex (\<lambda>e. map_of files (iv_path e) = None) inventory then Some ''missing file'' else None)))"

text \<open>The front matter of \<open>SKILL.md\<close>: its name and description, of which the last given count.\<close>

definition core_line :: "string \<times> string \<Rightarrow> string \<Rightarrow> string \<times> string" where
  "core_line nd line =
     (case go_cut line '':'' of (k, v, found) \<Rightarrow>
        if \<not> found then nd
        else if go_trim_space k = ''name'' then (go_trim_space v, snd nd)
        else if go_trim_space k = ''description'' then (fst nd, go_trim_space v)
        else nd)"

definition newline :: string where "newline = [CHR 0x0A]"

definition validate_core :: "string \<Rightarrow> (string \<times> string) option" where
  "validate_core md =
     (if \<not> go_has_prefix md (''---'' @ newline) then None
      else (case go_index (drop 4 md) (newline @ ''---'' @ newline) of
          None \<Rightarrow> None
        | Some i \<Rightarrow>
            (let (name, description) = foldl core_line ([], []) (go_split (take i (drop 4 md)) newline)
             in if name = [] \<or> description = [] then None else Some (name, description))))"

subsection \<open>Archives\<close>

record package_limits =
  pl_package :: int
  pl_file :: int
  pl_files :: int

definition default_limits :: package_limits where
  "default_limits = \<lparr>pl_package = 10 * 2 ^ 20, pl_file = 2 * 2 ^ 20, pl_files = 256\<rparr>"

text \<open>A member of a ZIP file as its reader presents it; \<open>zm_read\<close> opens it, reads through a
  \<open>LimitReader\<close> and closes it.\<close>

record zip_member =
  zm_name :: string
  zm_symlink :: bool
  zm_directory :: bool
  zm_size :: nat
  zm_read :: "int \<Rightarrow> string option"

definition clean_step :: "bool \<Rightarrow> string list \<Rightarrow> string \<Rightarrow> string list" where
  "clean_step rooted stack seg =
     (if seg = [] \<or> seg = ''.'' then stack
      else if seg = ''..'' then
        (if stack \<noteq> [] \<and> last stack \<noteq> ''..'' then butlast stack
         else if rooted then stack else stack @ [''..''])
      else stack @ [seg])"

definition path_clean :: "string \<Rightarrow> string" where
  "path_clean p =
     (if p = [] then ''.''
      else (let rooted = (hd p = CHR ''/'');
                s = (if rooted then ''/'' else []) @ go_join (foldl (clean_step rooted) [] (go_split p ''/'')) ''/''
            in if s = [] then ''.'' else s))"

definition safe_archive_path :: "string \<Rightarrow> string option" where
  "safe_archive_path name =
     (if name = [] \<or> go_contains name [CHR 0x5C] \<or> go_has_prefix name ''/'' then None
      else (let clean = path_clean name in
        if clean \<noteq> name \<or> clean = ''.'' \<or> go_has_prefix clean ''../'' \<or> clean = ''..'' then None
        else if list_ex (\<lambda>seg. seg = [] \<or> seg = ''.'' \<or> seg = ''..'') (go_split clean ''/'') then None
        else Some clean))"

fun read_members :: "package_limits \<Rightarrow> zip_member list \<Rightarrow> int \<Rightarrow> file_map \<Rightarrow> string + file_map" where
  "read_members l [] used files = Inr files"
| "read_members l (m # ms) used files =
     (case safe_archive_path (zm_name m) of
        None \<Rightarrow> Inl ''unsafe archive path''
      | Some name \<Rightarrow>
          if zm_symlink m then Inl ''symlink is not allowed''
          else if zm_directory m then Inl ''directory member is not allowed''
          else if int (zm_size m) > pl_file l then Inl ''file exceeds limit''
          else (case zm_read m (pl_file l + 1) of
              None \<Rightarrow> Inl ''read archive member''
            | Some b \<Rightarrow>
                if int (length b) > pl_file l then Inl ''file exceeds limit''
                else (let used' = used + int (length b) in
                  if used' > pl_package l then Inl ''expanded archive exceeds package limit''
                  else if map_of files name \<noteq> None then Inl ''duplicate member''
                  else read_members l ms used' (files @ [(name, b)]))))"

definition read_archive :: "(string \<Rightarrow> zip_member list option) \<Rightarrow> string \<Rightarrow> package_limits \<Rightarrow> string + file_map" where
  "read_archive unzip data l =
     (if pl_package l \<le> 0 \<or> pl_file l \<le> 0 \<or> pl_files l \<le> 0 then Inl ''invalid archive limits''
      else if int (length data) > pl_package l then Inl ''archive exceeds package limit''
      else (case unzip data of
          None \<Rightarrow> Inl ''open archive''
        | Some ms \<Rightarrow> if int (length ms) > pl_files l then Inl ''archive has too many files''
            else read_members l ms 0 []))"

subsection \<open>Validation\<close>

record package_manifest =
  pm_id :: string
  pm_version :: string
  pm_digest :: digest
  pm_inventory :: "inventory_entry list"
  pm_status :: string
  pm_provenance :: string
  pm_trust :: string

record skill_package =
  pk_manifest :: package_manifest
  pk_manifest_bytes :: string
  pk_files :: file_map
  pk_digest :: string
  pk_manifest_digest :: string

text \<open>What does not change: SHA-256, the ZIP reader and the decoding of a manifest.\<close>

record package_codec =
  pc_hash :: "string \<Rightarrow> string"
  pc_zip :: "string \<Rightarrow> zip_member list option"
  pc_manifest :: "string \<Rightarrow> package_manifest option"

definition without_manifest :: "file_map \<Rightarrow> file_map" where
  "without_manifest files = filter (\<lambda>(name, _). name \<noteq> manifest_name) files"

definition validate_package :: "package_codec \<Rightarrow> file_map \<Rightarrow> string + skill_package" where
  "validate_package pc files =
     (case map_of files manifest_name of
        None \<Rightarrow> Inl ''manifest.json is required''
      | Some bytes \<Rightarrow> (case map_of files skill_name of
          None \<Rightarrow> Inl ''SKILL.md is required''
        | Some skill \<Rightarrow> (case pc_manifest pc bytes of
            None \<Rightarrow> Inl ''invalid manifest''
          | Some m \<Rightarrow>
              if pm_id m = [] \<or> pm_version m = [] \<or> dg_value (pm_digest m) = [] then Inl ''manifest identity and digest are required''
              else if pm_trust m \<noteq> ''operator_asserted'' then Inl ''only operator_asserted trust is accepted''
              else if pm_status m \<noteq> ''screening'' \<and> pm_status m \<noteq> ''approved'' then Inl ''package is not in a reviewable state''
              else if validate_core skill = None then Inl ''validate SKILL.md''
              else (case package_digest (pc_hash pc) (pm_inventory m) of
                  Inl e \<Rightarrow> Inl e
                | Inr d \<Rightarrow>
                    if d \<noteq> dg_value (pm_digest m) then Inl ''inventory digest mismatch''
                    else (case verify_package (pc_hash pc) bytes (without_manifest files) (pm_inventory m) (dg_value (pm_digest m))
                               (pc_hash pc bytes) (int (length bytes)) of
                        Some e \<Rightarrow> Inl e
                      | None \<Rightarrow> Inr \<lparr>pk_manifest = m, pk_manifest_bytes = bytes, pk_files = files, pk_digest = d,
                                     pk_manifest_digest = pc_hash pc bytes\<rparr>)))))"

definition screening_markers :: "string list" where
  "screening_markers = [''curl '', ''wget '', ''exfiltrate'', ''send your password'', ''ignore previous instructions'']"

text \<open>The names of the files with a finding; \<open>ScreenText\<close> reports one of them.\<close>

definition screen_text :: "(nat \<Rightarrow> nat) \<Rightarrow> skill_package \<Rightarrow> string list" where
  "screen_text ul p =
     map fst (filter (\<lambda>(name, b). name \<noteq> manifest_name \<and> list_ex (go_contains (go_tolower ul b)) screening_markers) (pk_files p))"

subsection \<open>Retrieval\<close>

text \<open>The answers of the authorizer, the catalog and the artifact store while one artifact is retrieved;
  \<open>rw_open\<close> is \<open>None\<close> where the artifact cannot be opened, else the result of reading up to a limit.\<close>

record retrieval_world =
  rw_decide :: authorizer
  rw_get :: "artifact_ref \<Rightarrow> catalog_record option"
  rw_open :: "artifact_ref \<Rightarrow> (int \<Rightarrow> string option) option"

record envelope =
  en_record :: catalog_record
  en_bytes :: string

definition retrieve ::
  "retrieval_world \<Rightarrow> principal_rec \<Rightarrow> artifact_ref \<Rightarrow> int \<Rightarrow> string + envelope" where
  "retrieve w p ref max_bytes =
     (case rw_decide w p action_read ref of
        None \<Rightarrow> Inl ''authorize retrieval''
      | Some d \<Rightarrow>
          if \<not> dc_allowed d then Inl ''retrieval denied''
          else (case rw_get w ref of
              None \<Rightarrow> Inl ''load record''
            | Some r \<Rightarrow>
                if pn_workspace p = [] \<or> ar_workspace ref \<noteq> pn_workspace p \<or> cr_ref r \<noteq> ref \<or> \<not> listed_state (cr_state r)
                then Inl ''artifact identity, workspace or admission invalid''
                else (case rw_open w ref of
                    None \<Rightarrow> Inl ''open artifact''
                  | Some reader \<Rightarrow>
                      (let limit = (if max_bytes \<le> 0 then 64 * 2 ^ 20 else max_bytes) in
                       case reader (limit + 1) of
                         None \<Rightarrow> Inl ''read artifact''
                       | Some b \<Rightarrow> if int (length b) > limit then Inl ''retrieval budget exceeded''
                           else Inr \<lparr>en_record = r, en_bytes = b\<rparr>))))"

definition valid_pin_digest :: "digest \<Rightarrow> bool" where
  "valid_pin_digest d \<longleftrightarrow> dg_algorithm d = ''sha256'' \<and> length (dg_value d) = 64 \<and> list_all is_lower_hex (dg_value d)"

definition same_artifact :: "catalog_record \<Rightarrow> catalog_record \<Rightarrow> bool" where
  "same_artifact a b \<longleftrightarrow> cr_ref a = cr_ref b \<and> cr_digest a = cr_digest b \<and> cr_manifest_digest a = cr_manifest_digest b
     \<and> cr_package_digest a = cr_package_digest b"

text \<open>\<open>now\<close> is the world during the retrieval, \<open>later\<close> the world at the checks repeated after the reading.\<close>

definition retrieve_skill ::
  "package_codec \<Rightarrow> retrieval_world \<Rightarrow> retrieval_world \<Rightarrow> principal_rec \<Rightarrow> artifact_pin \<Rightarrow> package_limits \<Rightarrow> string + skill_package" where
  "retrieve_skill pc now later p pin l =
     (let ref = ap_ref pin in
      if pn_subject p = [] \<or> pn_workspace p = [] \<or> ar_workspace ref \<noteq> pn_workspace p \<or> ar_kind ref \<noteq> kind_skill
         \<or> ar_id ref = [] \<or> ar_version ref = [] then Inl ''invalid skill identity or workspace''
      else if \<not> valid_pin_digest (ap_digest pin) \<or> \<not> valid_pin_digest (ap_manifest pin) then Inl ''trusted sha256 pins required''
      else if pl_package l \<le> 0 \<or> pl_file l \<le> 0 \<or> pl_files l \<le> 0 then Inl ''invalid archive limits''
      else (case retrieve now p ref (pl_package l) of
          Inl e \<Rightarrow> Inl e
        | Inr env \<Rightarrow>
            (let r = en_record env in
             if cr_ref r \<noteq> ref \<or> \<not> listed_state (cr_state r) \<or> cr_digest r \<noteq> ap_digest pin \<or> cr_manifest_digest r \<noteq> ap_manifest pin
             then Inl ''current record does not match admitted trusted pin''
             else if pc_hash pc (en_bytes env) \<noteq> dg_value (ap_digest pin) then Inl ''artifact digest mismatch''
             else (case read_archive (pc_zip pc) (en_bytes env) l of
                 Inl e \<Rightarrow> Inl e
               | Inr files \<Rightarrow> (case validate_package pc files of
                     Inl e \<Rightarrow> Inl e
                   | Inr pkg \<Rightarrow>
                       if pm_id (pk_manifest pkg) \<noteq> ar_id ref \<or> pm_version (pk_manifest pkg) \<noteq> ar_version ref
                         \<or> pk_manifest_digest pkg \<noteq> dg_value (ap_manifest pin) then Inl ''manifest identity or digest mismatch''
                       else if dg_algorithm (cr_package_digest r) \<noteq> []
                         \<and> (dg_algorithm (cr_package_digest r) \<noteq> ''sha256'' \<or> dg_value (cr_package_digest r) \<noteq> pk_digest pkg)
                       then Inl ''package closure mismatch''
                       else (case rw_get later ref of
                           None \<Rightarrow> Inl ''load record''
                         | Some current \<Rightarrow>
                             if \<not> same_artifact current r \<or> \<not> listed_state (cr_state current)
                             then Inl ''artifact changed during retrieval''
                             else (case rw_decide later p action_read ref of
                                 None \<Rightarrow> Inl ''authorize retrieval''
                               | Some d \<Rightarrow> if \<not> dc_allowed d then Inl ''retrieval denied'' else Inr pkg)))))))"

subsection \<open>Paths\<close>

text \<open>Resolving the segments of an archive name under any directory only appends them: a member cannot be
  written outside the directory an archive is unpacked to.\<close>

definition stays_inside :: "string \<Rightarrow> bool" where
  "stays_inside name \<longleftrightarrow>
     (\<forall>rooted base. foldl (clean_step rooted) base (go_split name ''/'') = base @ go_split name ''/'')
     \<and> (\<forall>seg \<in> set (go_split name ''/''). plain_segment seg) \<and> CHR 0x5C \<notin> set name"

lemma clean_plain: "list_all plain_segment segs \<Longrightarrow> foldl (clean_step rooted) base segs = base @ segs"
  by (induction segs arbitrary: base) (auto simp: clean_step_def plain_segment_def)

lemma index_char: "go_index s [c] = None \<longleftrightarrow> c \<notin> set s"
  by (induction s) auto

lemma safe_archive_path_inside:
  assumes "safe_archive_path name = Some n"
  shows "n = name \<and> n \<noteq> [] \<and> stays_inside n"
proof -
  have n: "n = name" and ne: "name \<noteq> []" and nb: "\<not> go_contains name [CHR 0x5C]"
    and segs: "\<not> list_ex (\<lambda>seg. seg = [] \<or> seg = ''.'' \<or> seg = ''..'') (go_split name ''/'')"
    using assms by (auto simp: safe_archive_path_def Let_def split: if_splits)
  have "list_all plain_segment (go_split name ''/'')"
    using segs by (simp add: plain_segment_def list_all_iff list_ex_iff)
  with nb ne n show ?thesis
    by (auto simp: stays_inside_def clean_plain list_all_iff go_contains_def index_char)
qed

lemma split_path_split: "split_path s = go_split s ''/''"
proof -
  have "split_aux ''/'' s cur = (case split_path s of [] \<Rightarrow> [] | p # ps \<Rightarrow> (cur @ p) # ps)" for cur
  proof (induction s arbitrary: cur)
    case (Cons c cs)
    have "split_path cs \<noteq> []" by (cases cs) (auto split: list.splits)
    with Cons show ?case by (auto split: list.splits)
  qed simp
  moreover have "split_path s \<noteq> []" by (cases s) (auto split: list.splits)
  ultimately show ?thesis by (simp add: go_split_def split: list.splits)
qed

subsection \<open>What an archive and a package are made of\<close>

definition within_limits :: "package_limits \<Rightarrow> file_map \<Rightarrow> bool" where
  "within_limits l files \<longleftrightarrow>
     distinct (map fst files) \<and> int (length files) \<le> pl_files l
     \<and> (\<Sum>f\<leftarrow>files. int (length (snd f))) \<le> pl_package l
     \<and> (\<forall>(name, b) \<in> set files. name \<noteq> [] \<and> stays_inside name \<and> int (length b) \<le> pl_file l)"

lemma read_members_ok:
  assumes "read_members l ms used files = Inr out"
    and "distinct (map fst files)" "(\<Sum>f\<leftarrow>files. int (length (snd f))) = used" "used \<le> pl_package l"
    and "\<forall>(name, b) \<in> set files. name \<noteq> [] \<and> stays_inside name \<and> int (length b) \<le> pl_file l"
  shows "distinct (map fst out) \<and> length out = length files + length ms \<and> (\<Sum>f\<leftarrow>out. int (length (snd f))) \<le> pl_package l
    \<and> (\<forall>(name, b) \<in> set out. name \<noteq> [] \<and> stays_inside name \<and> int (length b) \<le> pl_file l)"
  using assms
proof (induction l ms used files rule: read_members.induct)
  case (2 l m ms used files)
  from "2.prems"(1) obtain name b where nm: "safe_archive_path (zm_name m) = Some name"
    and rd: "zm_read m (pl_file l + 1) = Some b"
    and ok: "\<not> zm_symlink m" "\<not> zm_directory m" "\<not> int (zm_size m) > pl_file l" "\<not> int (length b) > pl_file l"
      "\<not> used + int (length b) > pl_package l" "map_of files name = None"
    and rest: "read_members l ms (used + int (length b)) (files @ [(name, b)]) = Inr out"
    by (auto simp: Let_def split: option.splits if_splits)
  have fresh: "name \<notin> fst ` set files" using ok(6) by (simp add: map_of_eq_None_iff)
  have "distinct (map fst out) \<and> length out = length (files @ [(name, b)]) + length ms
      \<and> (\<Sum>f\<leftarrow>out. int (length (snd f))) \<le> pl_package l
      \<and> (\<forall>(name, b) \<in> set out. name \<noteq> [] \<and> stays_inside name \<and> int (length b) \<le> pl_file l)"
    using "2.prems" ok fresh safe_archive_path_inside [OF nm]
    by (intro "2.IH" [OF nm ok(1,2,3) rd ok(4) refl ok(5)] rest) auto
  then show ?case by simp
qed simp

lemma read_archive_within: "read_archive unzip data l = Inr files \<Longrightarrow> within_limits l files"
  using read_members_ok [of l _ 0 "[]" files]
  by (fastforce simp: read_archive_def within_limits_def split: if_splits option.splits)

lemma entries_error_none:
  "entries_error seen es = None \<Longrightarrow>
     distinct (map iv_path es) \<and> set (map iv_path es) \<inter> set seen = {} \<and> (\<forall>e \<in> set es. iv_path e \<noteq> [] \<and> validate_path (iv_path e))"
  by (induction seen es rule: entries_error.induct) (auto split: if_splits)

lemma canonical_inventory_ok:
  assumes "canonical_inventory es = Inr b"
  shows "distinct (map iv_path es)" "e \<in> set es \<Longrightarrow> iv_path e \<noteq> [] \<and> validate_path (iv_path e)"
proof -
  have none: "entries_error [] (sort_key iv_path es) = None"
    using assms by (simp add: canonical_inventory_def Let_def split: option.splits)
  have "mset (map iv_path (sort_key iv_path es)) = mset (map iv_path es)" by simp
  with entries_error_none [OF none] show "distinct (map iv_path es)" by (metis mset_eq_imp_distinct_iff)
  show "e \<in> set es \<Longrightarrow> iv_path e \<noteq> [] \<and> validate_path (iv_path e)"
    using entries_error_none [OF none] by simp
qed

lemma declared_entry: "declared es p = Some e \<Longrightarrow> e \<in> set es \<and> iv_path e = p"
  by (auto simp: declared_def dest: map_of_SomeD)

lemma files_error_none:
  "files_error hash decl fs = None \<Longrightarrow> (p, b) \<in> set fs \<Longrightarrow>
     p \<noteq> manifest_name \<and> (\<exists>e. decl p = Some e \<and> int (length b) = iv_size e \<and> hash b = iv_sha e)"
  by (induction hash decl fs rule: files_error.induct) (auto split: if_splits option.splits)

text \<open>Beside its manifest a package has exactly the files of its inventory, each with the declared size and digest.\<close>

definition closed_package :: "(string \<Rightarrow> string) \<Rightarrow> skill_package \<Rightarrow> bool" where
  "closed_package hash p \<longleftrightarrow>
     fst ` set (pk_files p) = insert manifest_name (iv_path ` set (pm_inventory (pk_manifest p)))
     \<and> distinct (map iv_path (pm_inventory (pk_manifest p)))
     \<and> (\<forall>e \<in> set (pm_inventory (pk_manifest p)). iv_path e \<noteq> manifest_name \<and> validate_path (iv_path e)
           \<and> (\<exists>b. map_of (pk_files p) (iv_path e) = Some b \<and> int (length b) = iv_size e \<and> hash b = iv_sha e))
     \<and> map_of (pk_files p) manifest_name = Some (pk_manifest_bytes p)
     \<and> pk_manifest_digest p = hash (pk_manifest_bytes p)
     \<and> package_digest hash (pm_inventory (pk_manifest p)) = Inr (pk_digest p)"

lemma map_of_without: "k \<noteq> manifest_name \<Longrightarrow> map_of (without_manifest fs) k = map_of fs k"
  by (induction fs) (auto simp: without_manifest_def)

lemma validate_package_closed:
  assumes v: "validate_package pc files = Inr p"
  shows "closed_package (pc_hash pc) p \<and> pk_files p = files \<and> pc_manifest pc (pk_manifest_bytes p) = Some (pk_manifest p)"
proof -
  from v obtain bytes m where bytes: "map_of files manifest_name = Some bytes" and m: "pc_manifest pc bytes = Some m"
    and dg: "package_digest (pc_hash pc) (pm_inventory m) = Inr (pk_digest p)"
    and ver: "verify_package (pc_hash pc) bytes (without_manifest files) (pm_inventory m) (dg_value (pm_digest m)) (pc_hash pc bytes) (int (length bytes)) = None"
    and p: "pk_manifest p = m" "pk_manifest_bytes p = bytes" "pk_files p = files" "pk_manifest_digest p = pc_hash pc bytes"
    by (auto simp: validate_package_def split: option.splits sum.splits if_splits)
  have canon: "distinct (map iv_path (pm_inventory m))" "\<And>e. e \<in> set (pm_inventory m) \<Longrightarrow> validate_path (iv_path e)"
    using dg canonical_inventory_ok by (auto simp: package_digest_def split: sum.splits)
  have fe: "files_error (pc_hash pc) (declared (pm_inventory m)) (without_manifest files) = None"
    and all: "\<And>e. e \<in> set (pm_inventory m) \<Longrightarrow> map_of (without_manifest files) (iv_path e) \<noteq> None"
    using ver by (auto simp: verify_package_def list_ex_iff split: sum.splits option.splits if_splits)
  have member: "p \<noteq> manifest_name \<and> (\<exists>e \<in> set (pm_inventory m). iv_path e = p \<and> int (length b) = iv_size e \<and> pc_hash pc b = iv_sha e)"
    if "(p, b) \<in> set (without_manifest files)" for p b
    using files_error_none [OF fe that] by (auto dest: declared_entry)
  have entry: "iv_path e \<noteq> manifest_name \<and> (\<exists>b. map_of files (iv_path e) = Some b \<and> int (length b) = iv_size e \<and> pc_hash pc b = iv_sha e)"
    if e: "e \<in> set (pm_inventory m)" for e
  proof -
    from all [OF e] obtain b where b: "map_of (without_manifest files) (iv_path e) = Some b" by auto
    then obtain e' where e': "e' \<in> set (pm_inventory m)" "iv_path e' = iv_path e" "int (length b) = iv_size e'" "pc_hash pc b = iv_sha e'"
      and nm: "iv_path e \<noteq> manifest_name"
      using member [OF map_of_SomeD [OF b]] by auto
    have "e' = e" using canon(1) e e'(1,2) by (auto simp: distinct_map inj_on_def)
    with e' nm b show ?thesis by (auto simp: map_of_without)
  qed
  have "fst ` set files = insert manifest_name (iv_path ` set (pm_inventory m))"
  proof
    show "fst ` set files \<subseteq> insert manifest_name (iv_path ` set (pm_inventory m))"
      using member by (fastforce simp: without_manifest_def)
    show "insert manifest_name (iv_path ` set (pm_inventory m)) \<subseteq> fst ` set files"
      using bytes entry by (force dest!: map_of_SomeD)
  qed
  with canon entry bytes dg p m show ?thesis by (auto simp: closed_package_def)
qed

subsection \<open>Sources of packages\<close>

text \<open>The contract of a source of verified packages, and what a client that unpacks them relies on: the
  declared sizes are what is written, so they are within the limits together.\<close>

locale package_source =
  fixes hash :: "string \<Rightarrow> string" and fetch :: "'q \<Rightarrow> package_limits \<Rightarrow> string + skill_package"
  assumes limited: "fetch q l = Inr p \<Longrightarrow> within_limits l (pk_files p)"
    and closed: "fetch q l = Inr p \<Longrightarrow> closed_package hash p"
begin

lemma file_sizes:
  assumes "fetch q l = Inr p"
  shows "(\<Sum>f\<leftarrow>pk_files p. int (length (snd f)))
    = int (length (pk_manifest_bytes p)) + (\<Sum>e\<leftarrow>pm_inventory (pk_manifest p). iv_size e)"
proof -
  let ?fs = "pk_files p" and ?inv = "pm_inventory (pk_manifest p)"
  let ?size = "\<lambda>k. int (length (the (map_of ?fs k)))"
  have d: "distinct (map fst ?fs)" using limited [OF assms] by (simp add: within_limits_def)
  have c: "fst ` set ?fs = insert manifest_name (iv_path ` set ?inv)" "distinct (map iv_path ?inv)"
    "map_of ?fs manifest_name = Some (pk_manifest_bytes p)"
    "\<And>e. e \<in> set ?inv \<Longrightarrow> iv_path e \<noteq> manifest_name \<and> ?size (iv_path e) = iv_size e"
    using closed [OF assms] by (auto simp: closed_package_def)
  have nm: "manifest_name \<notin> iv_path ` set ?inv" using c(4) by fastforce
  have "(\<Sum>f\<leftarrow>?fs. int (length (snd f))) = (\<Sum>f\<leftarrow>?fs. ?size (fst f))"
    using d by (intro arg_cong [where f = sum_list] map_cong refl) (auto simp: map_of_is_SomeI)
  also have "\<dots> = sum ?size (fst ` set ?fs)"
    using d sum_list_distinct_conv_sum_set [of "map fst ?fs" ?size] by (simp add: o_def)
  also have "\<dots> = ?size manifest_name + sum ?size (iv_path ` set ?inv)"
    unfolding c(1) using nm by (intro sum.insert) simp_all
  also have "sum ?size (iv_path ` set ?inv) = (\<Sum>e\<leftarrow>?inv. ?size (iv_path e))"
    using c(2) sum_list_distinct_conv_sum_set [of "map iv_path ?inv" ?size] by (simp add: o_def)
  also have "\<dots> = (\<Sum>e\<leftarrow>?inv. iv_size e)"
    using c(4) by (intro arg_cong [where f = sum_list] map_cong refl) simp
  finally show ?thesis using c(3) by simp
qed

lemma declared_within:
  "fetch q l = Inr p \<Longrightarrow>
     int (length (pk_manifest_bytes p)) + (\<Sum>e\<leftarrow>pm_inventory (pk_manifest p). iv_size e) \<le> pl_package l"
  using limited [of q l p] file_sizes [of q l p] by (simp add: within_limits_def)

lemma declared_file:
  "fetch q l = Inr p \<Longrightarrow> e \<in> set (pm_inventory (pk_manifest p)) \<Longrightarrow>
     \<exists>b. (iv_path e, b) \<in> set (pk_files p) \<and> hash b = iv_sha e \<and> int (length b) = iv_size e \<and> stays_inside (iv_path e)"
proof -
  assume f: "fetch q l = Inr p" and e: "e \<in> set (pm_inventory (pk_manifest p))"
  from closed [OF f] e obtain b where b: "map_of (pk_files p) (iv_path e) = Some b" "int (length b) = iv_size e" "hash b = iv_sha e"
    unfolding closed_package_def by blast
  from map_of_SomeD [OF b(1)] have m: "(iv_path e, b) \<in> set (pk_files p)" .
  have "stays_inside (iv_path e)" using limited [OF f] m by (auto simp: within_limits_def)
  with m b show ?thesis by blast
qed

end

lemma retrieve_skill_parts:
  assumes "retrieve_skill pc now later p pin l = Inr pkg"
  obtains r current bytes where
    "ar_workspace (ap_ref pin) = pn_workspace p"
    "\<exists>d. rw_decide now p action_read (ap_ref pin) = Some d \<and> dc_allowed d"
    "\<exists>d. rw_decide later p action_read (ap_ref pin) = Some d \<and> dc_allowed d"
    "rw_get now (ap_ref pin) = Some r" "rw_get later (ap_ref pin) = Some current"
    "listed_state (cr_state r)" "listed_state (cr_state current)" "same_artifact current r"
    "cr_ref r = ap_ref pin" "cr_digest r = ap_digest pin" "cr_manifest_digest r = ap_manifest pin"
    "pc_hash pc bytes = dg_value (ap_digest pin)"
    "read_archive (pc_zip pc) bytes l = Inr (pk_files pkg)" "validate_package pc (pk_files pkg) = Inr pkg"
    "pm_id (pk_manifest pkg) = ar_id (ap_ref pin)" "pm_version (pk_manifest pkg) = ar_version (ap_ref pin)"
    "pk_manifest_digest pkg = dg_value (ap_manifest pin)"
proof -
  from assms obtain env files current d where env: "retrieve now p (ap_ref pin) (pl_package l) = Inr env"
    and ra: "read_archive (pc_zip pc) (en_bytes env) l = Inr files" and v: "validate_package pc files = Inr pkg"
    and ids: "ar_workspace (ap_ref pin) = pn_workspace p" "cr_ref (en_record env) = ap_ref pin" "listed_state (cr_state (en_record env))"
      "cr_digest (en_record env) = ap_digest pin" "cr_manifest_digest (en_record env) = ap_manifest pin"
    and h: "pc_hash pc (en_bytes env) = dg_value (ap_digest pin)"
    and man: "pm_id (pk_manifest pkg) = ar_id (ap_ref pin)" "pm_version (pk_manifest pkg) = ar_version (ap_ref pin)"
      "pk_manifest_digest pkg = dg_value (ap_manifest pin)"
    and cur: "rw_get later (ap_ref pin) = Some current" "same_artifact current (en_record env)" "listed_state (cr_state current)"
      "rw_decide later p action_read (ap_ref pin) = Some d" "dc_allowed d"
    by (auto simp: retrieve_skill_def Let_def split: if_splits sum.splits option.splits)
  have fl: "pk_files pkg = files" using validate_package_closed [OF v] by simp
  from env have get: "rw_get now (ap_ref pin) = Some (en_record env)"
    and al: "\<exists>d. rw_decide now p action_read (ap_ref pin) = Some d \<and> dc_allowed d"
    by (auto simp: retrieve_def Let_def split: option.splits if_splits)
  have al': "\<exists>d. rw_decide later p action_read (ap_ref pin) = Some d \<and> dc_allowed d" using cur by blast
  show thesis
    by (rule that [OF ids(1) al al' get cur(1) ids(3) cur(3) cur(2) ids(2,4,5) h]) (use ra v fl man in simp_all)
qed

interpretation retriever: package_source "pc_hash pc"
  "\<lambda>(now, later, p, pin) l. retrieve_skill pc now later p pin l" for pc
proof unfold_locales
  fix q l pkg
  assume "(case q of (now, later, p, pin) \<Rightarrow> \<lambda>l. retrieve_skill pc now later p pin l) l = Inr pkg"
  then obtain now later p pin where "retrieve_skill pc now later p pin l = Inr pkg" by (cases q) auto
  then obtain bytes where r: "read_archive (pc_zip pc) bytes l = Inr (pk_files pkg)" and v: "validate_package pc (pk_files pkg) = Inr pkg"
    by (rule retrieve_skill_parts) auto
  show "within_limits l (pk_files pkg)" using r by (rule read_archive_within)
  show "closed_package (pc_hash pc) pkg" using validate_package_closed [OF v] by simp
qed

subsection \<open>A retrieved package\<close>

text \<open>A small archive: a manifest and a skill, with a digest that is the same for all bytes.\<close>

definition zero_digest :: digest where
  "zero_digest = \<lparr>dg_algorithm = ''sha256'', dg_value = replicate 64 (CHR ''0'')\<rparr>"

definition note_skill :: string where
  "note_skill = ''---'' @ newline @ ''name: note'' @ newline @ ''description: d'' @ newline @ ''---'' @ newline"

definition note_manifest :: package_manifest where
  "note_manifest = \<lparr>pm_id = ''n'', pm_version = ''1'', pm_digest = zero_digest,
     pm_inventory = [\<lparr>iv_path = skill_name, iv_size = int (length note_skill), iv_sha = dg_value zero_digest, iv_media = ''t''\<rparr>],
     pm_status = ''approved'', pm_provenance = [], pm_trust = ''operator_asserted''\<rparr>"

definition note_codec :: package_codec where
  "note_codec = \<lparr>pc_hash = (\<lambda>_. dg_value zero_digest),
     pc_zip = (\<lambda>_. Some [\<lparr>zm_name = manifest_name, zm_symlink = False, zm_directory = False, zm_size = 1, zm_read = (\<lambda>_. Some ''m'')\<rparr>,
        \<lparr>zm_name = skill_name, zm_symlink = False, zm_directory = False, zm_size = 1, zm_read = (\<lambda>_. Some note_skill)\<rparr>]),
     pc_manifest = (\<lambda>_. Some note_manifest)\<rparr>"

definition note_pin :: artifact_pin where
  "note_pin = \<lparr>ap_ref = \<lparr>ar_workspace = ''w'', ar_kind = kind_skill, ar_id = ''n'', ar_version = ''1''\<rparr>,
     ap_digest = zero_digest, ap_manifest = zero_digest\<rparr>"

definition note_record :: catalog_record where
  "note_record = \<lparr>cr_ref = ap_ref note_pin, cr_state = ''published'', cr_digest = zero_digest, cr_manifest_digest = zero_digest,
     cr_document_digest = zero_digest, cr_package_digest = zero_digest, cr_object_key = [], cr_artifact_size = 1, cr_metadata = []\<rparr>"

definition note_world :: retrieval_world where
  "note_world = \<lparr>rw_decide = (\<lambda>_ _ _. Some \<lparr>dc_allowed = True, dc_status = 200, dc_reason = []\<rparr>),
     rw_get = (\<lambda>_. Some note_record), rw_open = (\<lambda>_. Some (\<lambda>_. Some ''z''))\<rparr>"

definition note_reader :: principal_rec where
  "note_reader = \<lparr>pn_issuer = [], pn_subject = ''u'', pn_audience = [], pn_workspace = ''w'', pn_scopes = [], pn_generation = 0,
     pn_subject_type = []\<rparr>"

definition note_package :: skill_package where
  "note_package = \<lparr>pk_manifest = note_manifest, pk_manifest_bytes = ''m'', pk_files = [(manifest_name, ''m''), (skill_name, note_skill)],
     pk_digest = dg_value zero_digest, pk_manifest_digest = dg_value zero_digest\<rparr>"

lemma zero_digest_valid: "valid_sha (dg_value zero_digest)" "valid_pin_digest zero_digest"
proof -
  have "is_lower_hex CHR ''0''" by code_simp
  then show "valid_sha (dg_value zero_digest)" "valid_pin_digest zero_digest"
    by (simp_all add: valid_sha_def valid_pin_digest_def zero_digest_def list_all_iff)
qed

lemma note_archive: "read_archive (pc_zip note_codec) ''z'' default_limits = Inr [(manifest_name, ''m''), (skill_name, note_skill)]"
proof -
  have "safe_archive_path manifest_name = Some manifest_name" "safe_archive_path skill_name = Some skill_name" by code_simp+
  moreover have "manifest_name \<noteq> skill_name" by code_simp
  moreover have "length note_skill = 34" by code_simp
  ultimately show ?thesis by (simp add: read_archive_def note_codec_def default_limits_def Let_def)
qed

lemma note_validates: "validate_package note_codec [(manifest_name, ''m''), (skill_name, note_skill)] = Inr note_package"
proof -
  have v: "validate_core note_skill \<noteq> None" "validate_path skill_name" "skill_name \<noteq> manifest_name" "skill_name \<noteq> []" by code_simp+
  then show ?thesis using zero_digest_valid(1)
    by (simp add: validate_package_def note_codec_def note_manifest_def note_package_def package_digest_def canonical_inventory_def
        verify_package_def without_manifest_def declared_def Let_def) (simp add: zero_digest_def)
qed

lemma note_retrieved:
  "retrieve_skill note_codec note_world note_world note_reader note_pin default_limits = Inr note_package"
  using zero_digest_valid note_archive note_validates
  by (simp add: retrieve_skill_def retrieve_def note_world_def note_reader_def note_pin_def note_record_def Let_def listed_state_def
      same_artifact_def note_package_def note_manifest_def default_limits_def note_codec_def) (simp add: zero_digest_def)

text \<open>C25. A retrieved skill is the pinned one. The caller could read it before and after the reading, the
  record carried exactly the pinned digests both times and was admitted, the archive's bytes have the pinned
  digest, and the package is closed: beside the manifest, whose digest is pinned, it has exactly the files of
  the inventory, each with its declared size and digest, all together within the limits; and no member's
  path leaves the directory it is unpacked to.\<close>

theorem retrieved_package_sound:
  assumes "retrieve_skill pc now later p pin l = Inr pkg"
  shows "(\<forall>w \<in> {now, later}. \<exists>r d. rw_get w (ap_ref pin) = Some r \<and> listed_state (cr_state r) \<and> cr_ref r = ap_ref pin
            \<and> cr_digest r = ap_digest pin \<and> cr_manifest_digest r = ap_manifest pin
            \<and> rw_decide w p action_read (ap_ref pin) = Some d \<and> dc_allowed d)
     \<and> ar_workspace (ap_ref pin) = pn_workspace p
     \<and> (\<exists>bytes. pc_hash pc bytes = dg_value (ap_digest pin) \<and> read_archive (pc_zip pc) bytes l = Inr (pk_files pkg))
     \<and> pk_manifest_digest pkg = dg_value (ap_manifest pin)
     \<and> pm_id (pk_manifest pkg) = ar_id (ap_ref pin) \<and> pm_version (pk_manifest pkg) = ar_version (ap_ref pin)
     \<and> closed_package (pc_hash pc) pkg \<and> within_limits l (pk_files pkg)
     \<and> int (length (pk_manifest_bytes pkg)) + (\<Sum>e\<leftarrow>pm_inventory (pk_manifest pkg). iv_size e) \<le> pl_package l"
proof -
  have f: "(case (now, later, p, pin) of (now, later, p, pin) \<Rightarrow> \<lambda>l. retrieve_skill pc now later p pin l) l = Inr pkg"
    using assms by simp
  note client = retriever.declared_within [OF f] retriever.closed [OF f] retriever.limited [OF f]
  show ?thesis
    using assms by (rule retrieve_skill_parts) (use client in \<open>auto simp: same_artifact_def\<close>)
qed

theorem retrieved_package_sound_witness:
  "closed_package (pc_hash note_codec) note_package \<and> within_limits default_limits (pk_files note_package)"
  using retrieved_package_sound [OF note_retrieved] by blast

end
