(* ===== verification/AssemblyProperties.thy ===== *)
theory AssemblyProperties
  imports Assembly RecipeProperties
begin

text \<open>
  What a ready preparation guarantees: every selected binding was verified against the pinned artifacts, the
  members of a connection group share one connection, a step is disabled exactly when it cannot run, and the
  answer was confirmed twice by the authority within its freshness.
\<close>

subsection \<open>Results that stop an assembly carry no bundle\<close>

named_theorems bare

definition bare_stop :: "'a phase \<Rightarrow> bool" where
  "bare_stop x \<longleftrightarrow> (\<forall>res. x = Inl (Inr res) \<longrightarrow> pr_bundle res = None)"

lemma bare_stops [bare]: "bare_stop (Inr a)" "bare_stop (stop_error e)" "bare_stop (stop_status rs st)"
  by (simp_all add: bare_stop_def stop_error_def stop_status_def status_result_def)

lemma bare_and_then [bare]: "bare_stop x \<Longrightarrow> (\<And>a. bare_stop (k a)) \<Longrightarrow> bare_stop (and_then x k)"
  by (auto simp: bare_stop_def and_then_def split: sum.splits)

lemma bare_load_recipe [bare]: "bare_stop (load_recipe cx w rq)"
  by (simp add: load_recipe_def Let_def bare split: sum.splits option.splits)

lemma bare_load_contracts [bare]: "bare_stop (load_contracts cx w rq rs i todo cs)"
  by (induction cx w rq rs i todo cs rule: load_contracts.induct) (simp_all add: bare split: sum.splits)

lemma bare_keep_candidates [bare]: "bare_stop (keep_candidates cx w rq rs i r j seen cs)"
  by (induction cx w rq rs i r j seen cs rule: keep_candidates.induct) (auto simp: bare split: option.splits intro!: bare)

lemma bare_find_candidates [bare]: "bare_stop (find_candidates cx w rq rs i used todo cands)"
  by (induction todo arbitrary: i used cands) (auto simp: bare split: sum.splits intro!: bare)

lemma bare_connect_groups [bare]: "bare_stop (connect_groups d gs ev cands)"
  by (induction d gs ev cands rule: connect_groups.induct) (auto simp: bare split: option.splits list.splits)

lemma bare_select_candidates [bare]: "bare_stop (select_candidates rs cands todo sel fs missing)"
  by (induction rs cands todo sel fs missing rule: select_candidates.induct) (auto simp: bare split: list.splits)

lemma bare_collect_tools [bare]: "bare_stop (collect_tools cx w rq rs sel i seen todo)"
  by (induction todo arbitrary: i seen) (auto simp: bare split: sum.splits option.splits intro!: bare)

lemma bare_assemble_selected [bare]: "bare_stop (assemble_selected cx w rq pkg d cs cands)"
  by (auto simp: assemble_selected_def Let_def bare split: prod.splits intro!: bare)

lemma bare_assemble_phases: "bare_stop (assemble_phases cx w rq)"
  by (auto simp: assemble_phases_def Let_def bare split: prod.splits option.splits intro!: bare)

lemma and_then_Inr: "and_then x k = Inr y \<longleftrightarrow> (\<exists>a. x = Inr a \<and> k a = Inr y)"
  by (auto simp: and_then_def split: sum.splits)

lemma stops_not_Inr [simp]: "stop_error e \<noteq> Inr a" "stop_status rs st \<noteq> Inr a"
  by (simp_all add: stop_error_def stop_status_def)

lemma assemble_bundle:
  assumes "assemble cx w rq = Inr res" "pr_bundle res = Some b"
  shows "assemble_phases cx w rq = Inr res"
  using assms bare_assemble_phases [of cx w rq] by (auto simp: assemble_def bare_stop_def split: sum.splits)

subsection \<open>Candidates carry evidence\<close>

text \<open>The evidence for a candidate of a requirement: it was in a complete lookup, admitted, and the binding,
  the tool and the provider it names were retrieved and matched their pins.\<close>

definition candidate_evidence :: "prep_codec \<Rightarrow> assembly_world \<Rightarrow> prep_request \<Rightarrow> requirement \<Rightarrow> binding_candidate \<Rightarrow> bool" where
  "candidate_evidence cx w rq r c \<longleftrightarrow>
     (\<exists>i j found. aw_lookup w i \<lparr>bq_principal = pq_principal rq, bq_runtime = pq_runtime rq, bq_requirement = r, bq_limit = 64\<rparr> = Inr found
        \<and> br_complete found \<and> c \<in> set (br_items found) \<and> bc_admitted c \<and> candidate_shape_ok rq c
        \<and> verify_candidate cx w i j (pq_principal rq) r c = None
        \<and> (\<forall>s. map_of (pq_selections rq) (rq_key r) = Some s \<longrightarrow> s = bc_binding c)
        \<and> (\<forall>k. map_of (pq_connections rq) (rq_key r) = Some k \<longrightarrow> k = bc_connection c))"

lemma keep_candidates_evidence:
  "keep_candidates cx w rq rs i r j seen cs = Inr kept \<Longrightarrow> c \<in> set kept \<Longrightarrow>
     c \<in> set cs \<and> bc_admitted c \<and> candidate_shape_ok rq c \<and> (\<exists>j. verify_candidate cx w i j (pq_principal rq) r c = None)
     \<and> (\<forall>s. map_of (pq_selections rq) (rq_key r) = Some s \<longrightarrow> s = bc_binding c)
     \<and> (\<forall>k. map_of (pq_connections rq) (rq_key r) = Some k \<longrightarrow> k = bc_connection c)"
proof (induction cx w rq rs i r j seen cs arbitrary: kept rule: keep_candidates.induct)
  case (2 cx w rq rs i r j seen x cs)
  show ?case
  proof (cases "bc_admitted x")
    case False
    with "2.prems" "2.IH"(1) show ?thesis by simp
  next
    case adm: True
    have shape: "candidate_shape_ok rq x" and new: "candidate_key x \<notin> set seen"
      and v: "verify_candidate cx w i j (pq_principal rq) r x = None"
      using "2.prems"(1) adm by (auto split: if_splits option.splits)
    then obtain kept' where k: "keep_candidates cx w rq rs i r (Suc j) (candidate_key x # seen) cs = Inr kept'"
      and kept: "kept = (if (case map_of (pq_selections rq) (rq_key r) of None \<Rightarrow> False | Some s \<Rightarrow> s \<noteq> bc_binding x) then kept'
                  else if (case map_of (pq_connections rq) (rq_key r) of None \<Rightarrow> False | Some k \<Rightarrow> k \<noteq> bc_connection x) then kept'
                  else x # kept')"
      using "2.prems"(1) adm by (auto simp: and_then_Inr)
    note IH = "2.IH"(2) [OF _ _ new v k]
    show ?thesis
    proof (cases "c \<in> set kept'")
      case True
      with IH adm shape show ?thesis by simp
    next
      case False
      with "2.prems"(2) kept have "c = x" "(case map_of (pq_selections rq) (rq_key r) of None \<Rightarrow> False | Some s \<Rightarrow> s \<noteq> bc_binding x) = False"
        "(case map_of (pq_connections rq) (rq_key r) of None \<Rightarrow> False | Some k \<Rightarrow> k \<noteq> bc_connection x) = False"
        by (auto split: if_splits)
      with adm shape v show ?thesis by (auto split: option.splits)
    qed
  qed
qed simp

lemma find_candidates_evidence:
  "find_candidates cx w rq rs i used todo cands = Inr out \<Longrightarrow> c \<in> set (out k) \<Longrightarrow>
     c \<in> set (cands k) \<or> (\<exists>r \<in> set todo. rq_key r = k \<and> candidate_evidence cx w rq r c)"
proof (induction todo arbitrary: i used cands)
  case (Cons r rest)
  obtain found where found: "aw_lookup w i \<lparr>bq_principal = pq_principal rq, bq_runtime = pq_runtime rq, bq_requirement = r, bq_limit = 64\<rparr> = Inr found"
    "br_complete found" using Cons.prems(1) by (auto split: if_splits sum.splits)
  then obtain kept where kept: "keep_candidates cx w rq rs i r 0 [] (br_items found) = Inr kept"
    and rest: "find_candidates cx w rq rs (Suc i) (used + length (br_items found)) rest (cands(rq_key r := cands (rq_key r) @ kept)) = Inr out"
    using Cons.prems(1) by (auto simp: and_then_Inr split: if_splits)
  have "candidate_evidence cx w rq r c" if "c \<in> set kept"
    using keep_candidates_evidence [OF kept that] found unfolding candidate_evidence_def by blast
  with Cons.IH [OF rest Cons.prems(2)] show ?case by (auto split: if_splits)
qed simp

subsection \<open>Groups share a connection\<close>

lemma viable_None:
  "viable_connections d cands h ks v = None \<longleftrightarrow>
     v = None \<and> (\<forall>k \<in> set ks. rq_optional (requirement_of d k) \<and> (h \<or> cands k = []))"
  by (induction ks arbitrary: v) (simp_all add: Let_def)

lemma set_all_member [simp]: "set_all ks f cands k = (if k \<in> set ks then f (cands k) else cands k)"
  by (simp add: set_all_def)

definition shares_connection :: "req_group \<Rightarrow> group_evidence list \<Rightarrow> (string \<Rightarrow> binding_candidate list) \<Rightarrow> bool" where
  "shares_connection g ev out \<longleftrightarrow>
     (\<exists>conn. \<forall>k \<in> set (gr_requirements g). \<forall>c \<in> set (out k).
        bc_connection c = conn \<and> \<lparr>ge_group = gr_id g, ge_connection = conn\<rparr> \<in> set ev)"

lemma shares_connectionI:
  "(\<And>k c. k \<in> set (gr_requirements g) \<Longrightarrow> c \<in> set (out k) \<Longrightarrow>
      bc_connection c = conn \<and> \<lparr>ge_group = gr_id g, ge_connection = conn\<rparr> \<in> set ev) \<Longrightarrow> shares_connection g ev out"
  by (auto simp: shares_connection_def)

text \<open>A group either keeps its candidates empty, empties them, or keeps those of one connection.\<close>

lemma connect_group_step:
  assumes "connect_groups d (g # gs) ev cands = Inr (ev', out)"
  obtains ev1 cands1 where "connect_groups d gs ev1 cands1 = Inr (ev', out)" "set ev \<subseteq> set ev1"
    "\<And>k. set (cands1 k) \<subseteq> set (cands k)" "\<And>k. k \<notin> set (gr_requirements g) \<Longrightarrow> cands1 k = cands k"
    "shares_connection g ev1 cands1"
proof (cases "viable_connections d cands (has_required d g) (gr_requirements g) None")
  case None
  then have "\<not> has_required d g" by (auto simp: viable_None has_required_def list_ex_iff)
  with None have e: "cands k = []" if "k \<in> set (gr_requirements g)" for k using that by (auto simp: viable_None)
  show thesis
    by (rule that [of ev cands]) (use assms None e in \<open>auto intro: shares_connectionI\<close>)
next
  case (Some v)
  show thesis
  proof (cases v)
    case Nil
    with Some assms have nr: "\<not> has_required d g" by (auto split: if_splits)
    show thesis
      by (rule that [of ev "set_all (gr_requirements g) (\<lambda>_. []) cands"])
         (use assms Some Nil nr in \<open>auto intro: shares_connectionI\<close>)
  next
    case (Cons conn rest)
    with Some assms have "rest = []" by (auto split: list.splits)
    with Some Cons assms show thesis
      by (intro that [of "ev @ [\<lparr>ge_group = gr_id g, ge_connection = conn\<rparr>]" "set_all (gr_requirements g) (filter (\<lambda>x. bc_connection x = conn)) cands"])
         (auto intro!: shares_connectionI [where conn = conn])
  qed
qed

lemma connect_groups_shrinks:
  "connect_groups d gs ev cands = Inr (ev', out) \<Longrightarrow> set ev \<subseteq> set ev' \<and> set (out k) \<subseteq> set (cands k)"
proof (induction gs arbitrary: ev cands)
  case (Cons g gs)
  show ?case using Cons.prems
    by (rule connect_group_step) (use Cons.IH in blast)
qed simp

lemma connect_groups_keeps:
  "connect_groups d gs ev cands = Inr (ev', out) \<Longrightarrow> k \<notin> set (concat (map gr_requirements gs)) \<Longrightarrow> out k = cands k"
proof (induction gs arbitrary: ev cands)
  case (Cons g gs)
  show ?case using Cons.prems(1)
    by (rule connect_group_step) (use Cons.IH Cons.prems(2) in auto)
qed simp

lemma shares_connection_mono:
  assumes "shares_connection g ev cands" "set ev \<subseteq> set ev'" "\<And>k. k \<in> set (gr_requirements g) \<Longrightarrow> set (out k) \<subseteq> set (cands k)"
  shows "shares_connection g ev' out"
  using assms unfolding shares_connection_def by blast

lemma connect_groups_share:
  "connect_groups d gs ev cands = Inr (ev', out) \<Longrightarrow> g \<in> set gs \<Longrightarrow> shares_connection g ev' out"
proof (induction gs arbitrary: ev cands)
  case (Cons x gs)
  from Cons.prems(1) show ?case
  proof (rule connect_group_step)
    fix ev1 cands1
    assume run: "connect_groups d gs ev1 cands1 = Inr (ev', out)" and s: "shares_connection x ev1 cands1"
    show ?thesis
    proof (cases "g \<in> set gs")
      case True
      show ?thesis using Cons.IH [OF run True] .
    next
      case False
      with Cons.prems(2) have "g = x" by simp
      with s connect_groups_shrinks [OF run] show ?thesis by (blast intro: shares_connection_mono)
    qed
  qed
qed simp

subsection \<open>Selection\<close>

definition finding_of :: "(string \<Rightarrow> binding_candidate list) \<Rightarrow> requirement \<Rightarrow> prep_finding" where
  "finding_of cands r = (case cands (rq_key r) of
       [] \<Rightarrow> \<lparr>pf_requirement = rq_key r, pf_status = ''optional_unavailable'', pf_selected = None\<rparr>
     | c # _ \<Rightarrow> \<lparr>pf_requirement = rq_key r, pf_status = ''ready'', pf_selected = Some c\<rparr>)"

lemma select_candidates_spec:
  "select_candidates rs cands todo sel fs missing = Inr (sel', fs', missing') \<Longrightarrow>
     (\<forall>r \<in> set todo. (cands (rq_key r) = [] \<and> rq_optional r) \<or> (\<exists>c. cands (rq_key r) = [c]))
     \<and> (\<forall>k. map_of sel' k = (if k \<in> rq_key ` set todo \<and> cands k \<noteq> [] then Some (hd (cands k)) else map_of sel k))
     \<and> fs' = fs @ map (finding_of cands) todo
     \<and> set missing' = set missing \<union> rq_key ` {r \<in> set todo. cands (rq_key r) = []}"
proof (induction todo arbitrary: sel fs missing)
  case (Cons r rest)
  show ?case
  proof (cases "cands (rq_key r)")
    case Nil
    with Cons.prems have opt: "rq_optional r"
      and run: "select_candidates rs cands rest sel (fs @ [finding_of cands r]) (rq_key r # missing) = Inr (sel', fs', missing')"
      by (auto simp: finding_of_def split: if_splits)
    from Cons.IH [OF run] Nil opt show ?thesis by auto
  next
    case (Cons c cs)
    with Cons.prems have cs: "cs = []"
      and run: "select_candidates rs cands rest (AList.update (rq_key r) c sel) (fs @ [finding_of cands r]) missing = Inr (sel', fs', missing')"
      by (auto simp: finding_of_def split: list.splits)
    from Cons.IH [OF run] Cons cs show ?thesis by (auto simp: update_conv')
  qed
qed simp

subsection \<open>Disabled steps\<close>

text \<open>A step cannot run when its requirement is missing or a step before it cannot run.\<close>

inductive cannot_run :: "recipe_step list \<Rightarrow> string set \<Rightarrow> string \<Rightarrow> bool" for steps missing where
  lacking: "s \<in> set steps \<Longrightarrow> st_requirement s \<in> missing \<Longrightarrow> cannot_run steps missing (st_id s)"
| following: "s \<in> set steps \<Longrightarrow> p \<in> set (st_after s) \<Longrightarrow> cannot_run steps missing p \<Longrightarrow> cannot_run steps missing (st_id s)"

lemma disable_pass_sound:
  "\<forall>i \<in> set disabled. cannot_run steps missing i \<Longrightarrow> set ss \<subseteq> set steps \<Longrightarrow>
     \<forall>i \<in> set (disable_pass ss disabled). cannot_run steps missing i"
  unfolding disable_pass_def
proof (induction ss arbitrary: disabled)
  case (Cons s ss)
  have "\<forall>i \<in> set (disable_step disabled s). cannot_run steps missing i"
    using Cons.prems by (auto simp: disable_step_def list_ex_iff intro: following)
  with Cons show ?case by simp
qed simp

lemma disable_pass_closed:
  assumes "set (disable_pass steps disabled) = set disabled" "s \<in> set steps" "p \<in> set (st_after s)" "p \<in> set disabled"
  shows "st_id s \<in> set disabled"
proof -
  from assms(2) obtain xs ys where st: "steps = xs @ s # ys" by (auto dest: split_list)
  let ?mid = "disable_pass xs disabled"
  have "p \<in> set ?mid" using assms(4) disable_pass_grows [of disabled xs] by blast
  with assms(3) have "st_id s \<in> set (disable_step ?mid s)" by (auto simp: disable_step_def list_ex_iff)
  moreover have "set (disable_step ?mid s) \<subseteq> set (disable_pass ys (disable_step ?mid s))"
    using disable_pass_grows by blast
  moreover have "disable_pass ys (disable_step ?mid s) = disable_pass steps disabled"
    by (simp add: disable_pass_def st)
  ultimately show ?thesis using assms(1) by auto
qed

lemma disable_loop_exact:
  assumes "\<forall>i \<in> set disabled. cannot_run steps missing i"
    and "\<forall>s \<in> set steps. st_requirement s \<in> missing \<longrightarrow> st_id s \<in> set disabled"
  shows "i \<in> set (disable_loop steps disabled) \<longleftrightarrow> cannot_run steps missing i"
  using assms
proof (induction steps disabled rule: disable_loop.induct)
  case (1 steps disabled)
  let ?next = "disable_pass steps disabled"
  show ?case
  proof (cases "set ?next = set disabled")
    case True
    have "i \<in> set disabled" if "cannot_run steps missing i" for i
      using that by induction (use "1.prems"(2) disable_pass_closed [OF True] in blast)+
    with "1.prems"(1) True show ?thesis by (subst disable_loop.simps) (auto simp: Let_def)
  next
    case False
    have "\<forall>s \<in> set steps. st_requirement s \<in> missing \<longrightarrow> st_id s \<in> set ?next"
      using "1.prems"(2) disable_pass_grows [of disabled steps] by blast
    with False "1.IH" [OF refl False disable_pass_sound [OF "1.prems"(1) subset_refl]] show ?thesis
      by (subst disable_loop.simps) (simp add: Let_def)
  qed
qed

lemma initially_disabled_exact:
  "\<forall>i \<in> set (initially_disabled missing steps). cannot_run steps (set missing) i"
  "\<forall>s \<in> set steps. st_requirement s \<in> set missing \<longrightarrow> st_id s \<in> set (initially_disabled missing steps)"
  by (auto simp: initially_disabled_def intro: lacking)

lemma requirement_map_of: "distinct (map rq_key rs) \<Longrightarrow> r \<in> set rs \<Longrightarrow> requirement_map rs (rq_key r) = Some r"
  by (simp add: requirement_map_def comp_def map_of_eq_Some_iff)

text \<open>In an accepted recipe only optional requirements stop a step.\<close>

lemma cannot_run_optional:
  assumes v: "validate env d cs = None"
    and missing: "\<forall>k \<in> missing. \<exists>r \<in> set (rc_requirements d). rq_key r = k \<and> rq_optional r"
    and c: "cannot_run (rc_steps d) missing i"
  shows "\<forall>s \<in> set (rc_steps d). st_id s = i \<longrightarrow> is_optional (requirement_map (rc_requirements d)) (st_requirement s)"
  using c
proof induction
  case (lacking s)
  have ids: "distinct (map st_id (rc_steps d))" and keys: "distinct (map rq_key (rc_requirements d))"
    using steps_error_none [OF validate_checks(3) [OF v]] requirements_error_keys [OF validate_checks(1) [OF v]] by blast+
  obtain r where r: "r \<in> set (rc_requirements d)" "rq_key r = st_requirement s" "rq_optional r" using missing lacking(2) by blast
  have "is_optional (requirement_map (rc_requirements d)) (st_requirement s)"
    using requirement_map_of [OF keys r(1)] r by (simp add: is_optional_def)
  moreover have "t = s" if "t \<in> set (rc_steps d)" "st_id t = st_id s" for t
    using that lacking(1) ids by (auto simp: distinct_map inj_on_def)
  ultimately show ?case by blast
next
  case (following s p)
  have ids: "distinct (map st_id (rc_steps d))"
    using steps_error_none [OF validate_checks(3) [OF v]] by blast
  obtain rank where g: "graph_ok (step_map (rc_steps d)) (requirement_map (rc_requirements d)) rank s"
    using validate_graph [OF v] following(1) by blast
  then obtain q where q: "step_map (rc_steps d) p = Some q"
    "\<not> (is_optional (requirement_map (rc_requirements d)) (st_requirement q) \<and> \<not> is_optional (requirement_map (rc_requirements d)) (st_requirement s))"
    using following(2) unfolding graph_ok_def by blast
  have "is_optional (requirement_map (rc_requirements d)) (st_requirement s)"
    using following.IH step_map_in [OF q(1)] q(2) by blast
  moreover have "t = s" if "t \<in> set (rc_steps d)" "st_id t = st_id s" for t
    using that following(1) ids by (auto simp: distinct_map inj_on_def)
  ultimately show ?case by blast
qed

subsection \<open>Tools\<close>

lemma collect_tools_selected:
  "collect_tools cx w rq rs sel i seen todo = Inr ts \<Longrightarrow> t \<in> set ts \<Longrightarrow>
     \<exists>r \<in> set todo. \<exists>c. map_of sel (rq_key r) = Some c \<and> pt_pin t = bc_tool c \<and> pt_connection t = bc_connection c"
proof (induction todo arbitrary: i seen ts)
  case (Cons r rest)
  show ?case
  proof (cases "map_of sel (rq_key r)")
    case None
    with Cons show ?thesis by auto
  next
    case (Some c)
    show ?thesis
    proof (cases "tool_key c \<in> set seen")
      case True
      with Some Cons show ?thesis by auto
    next
      case False
      with Some Cons.prems(1) obtain ts' inp out where "collect_tools cx w rq rs sel (Suc i) (tool_key c # seen) rest = Inr ts'"
        "ts = \<lparr>pt_pin = bc_tool c, pt_connection = bc_connection c, pt_input = inp, pt_output = out\<rparr> # ts'"
        by (auto simp: and_then_Inr split: sum.splits if_splits option.splits prod.splits)
      with Some Cons.IH Cons.prems(2) show ?thesis by auto
    qed
  qed
qed simp

subsection \<open>Bundles\<close>

definition package_pinned :: "prep_codec \<Rightarrow> prep_request \<Rightarrow> prep_bundle \<Rightarrow> bool" where
  "package_pinned cx rq b \<longleftrightarrow>
     (\<exists>pkg. validate_package (px_package cx) (pb_files b) = Inr pkg
        \<and> pk_manifest_digest pkg = dg_value (ap_manifest (pq_skill rq)) \<and> closed_package (px_hash cx) pkg
        \<and> px_document cx (file_text (pb_files b) asset_path) = Some (pb_document b))"

definition selection_sound :: "prep_codec \<Rightarrow> assembly_world \<Rightarrow> prep_request \<Rightarrow> prep_bundle \<Rightarrow> bool" where
  "selection_sound cx w rq b \<longleftrightarrow>
     (\<forall>r \<in> set (rc_requirements (pb_document b)).
        case map_of (pb_selected b) (rq_key r) of None \<Rightarrow> rq_optional r | Some c \<Rightarrow> candidate_evidence cx w rq r c)"

definition groups_connected :: "prepared \<Rightarrow> prep_bundle \<Rightarrow> bool" where
  "groups_connected res b \<longleftrightarrow>
     (\<forall>g \<in> set (rc_groups (pb_document b)). \<exists>conn. \<forall>k \<in> set (gr_requirements g). \<forall>c. map_of (pb_selected b) k = Some c \<longrightarrow>
        bc_connection c = conn \<and> \<lparr>ge_group = gr_id g, ge_connection = conn\<rparr> \<in> set (pr_groups res))"

definition unselected :: "prep_bundle \<Rightarrow> string set" where
  "unselected b = rq_key ` {r \<in> set (rc_requirements (pb_document b)). map_of (pb_selected b) (rq_key r) = None}"

definition disabled_exact :: "prep_bundle \<Rightarrow> bool" where
  "disabled_exact b \<longleftrightarrow>
     (\<forall>i. i \<in> set (pb_disabled b) \<longleftrightarrow> cannot_run (rc_steps (pb_document b)) (unselected b) i)
     \<and> (\<forall>s \<in> set (rc_steps (pb_document b)). st_id s \<in> set (pb_disabled b) \<longrightarrow>
           is_optional (requirement_map (rc_requirements (pb_document b))) (st_requirement s))"

definition tools_selected :: "prep_bundle \<Rightarrow> bool" where
  "tools_selected b \<longleftrightarrow>
     (\<forall>t \<in> set (pb_tools b). \<exists>r \<in> set (rc_requirements (pb_document b)). \<exists>c. map_of (pb_selected b) (rq_key r) = Some c
        \<and> pt_pin t = bc_tool c \<and> pt_connection t = bc_connection c)"

lemma load_recipe_ok:
  assumes "load_recipe cx w rq = Inr (pkg, d)"
  shows "validate_package (px_package cx) (pk_files pkg) = Inr pkg" "pk_manifest_digest pkg = dg_value (ap_manifest (pq_skill rq))"
    "px_document cx (file_text (pk_files pkg) asset_path) = Some d" "limits_fit (rc_limits d) (pq_limits rq)"
proof -
  from assms obtain files where "validate_package (px_package cx) files = Inr pkg"
    "pk_manifest_digest pkg = dg_value (ap_manifest (pq_skill rq))" "px_document cx (file_text (pk_files pkg) asset_path) = Some d"
    "limits_fit (rc_limits d) (pq_limits rq)"
    by (auto simp: load_recipe_def Let_def split: sum.splits if_splits option.splits)
  moreover from this(1) have "pk_files pkg = files" using validate_package_closed by blast
  ultimately show "validate_package (px_package cx) (pk_files pkg) = Inr pkg" "pk_manifest_digest pkg = dg_value (ap_manifest (pq_skill rq))"
    "px_document cx (file_text (pk_files pkg) asset_path) = Some d" "limits_fit (rc_limits d) (pq_limits rq)" by simp_all
qed

text \<open>The pieces a ready assembly is made of.\<close>

lemma assemble_parts:
  assumes "assemble_phases cx w rq = Inr res"
  obtains pkg d cs cands groups cands' sel fs missing tools b where
    "load_recipe cx w rq = Inr (pkg, d)" "validate (validation_of cx) d (map_of cs) = None"
    "find_candidates cx w rq (rc_requirements d) 0 0 (rc_requirements d) (\<lambda>_. []) = Inr cands"
    "connect_groups d (rc_groups d) [] cands = Inr (groups, cands')"
    "select_candidates (rc_requirements d) cands' (rc_requirements d) [] [] [] = Inr (sel, fs, missing)"
    "collect_tools cx w rq (rc_requirements d) sel 0 [] (rc_requirements d) = Inr tools"
    "pr_status res = ''ready''" "pr_findings res = fs" "pr_groups res = groups" "pr_bundle res = Some b"
    "pb_files b = pk_files pkg" "pb_document b = d" "pb_contracts b = cs" "pb_selected b = sel" "pb_tools b = tools"
    "pb_disabled b = sort (disable_loop (rc_steps d) (initially_disabled missing (rc_steps d)))"
    "pb_guide b = guide_text (pk_files pkg)" "int (length (pb_guide b)) \<le> li_max_guide_bytes (pq_limits rq)"
proof -
  obtain pkg d cs cands where lr: "load_recipe cx w rq = Inr (pkg, d)" and v: "validate (validation_of cx) d (map_of cs) = None"
    and fc: "find_candidates cx w rq (rc_requirements d) 0 0 (rc_requirements d) (\<lambda>_. []) = Inr cands"
    and sel: "assemble_selected cx w rq pkg d cs cands = Inr res"
    using assms by (auto simp: assemble_phases_def and_then_Inr Let_def split: prod.splits option.splits if_splits)
  from sel obtain groups cands' selected fs missing tools where
    parts: "connect_groups d (rc_groups d) [] cands = Inr (groups, cands')"
      "select_candidates (rc_requirements d) cands' (rc_requirements d) [] [] [] = Inr (selected, fs, missing)"
      "collect_tools cx w rq (rc_requirements d) selected 0 [] (rc_requirements d) = Inr tools"
    and gl: "\<not> int (length (guide_text (pk_files pkg))) > li_max_guide_bytes (pq_limits rq)"
    and res: "res = \<lparr>pr_status = ''ready'', pr_findings = fs, pr_groups = groups,
                 pr_bundle = Some \<lparr>pb_files = pk_files pkg, pb_document = d,
                   pb_digest = px_hash cx (file_text (pk_files pkg) asset_path), pb_skill = pq_skill rq, pb_contracts = cs,
                   pb_selected = selected, pb_tools = tools,
                   pb_disabled = sort (disable_loop (rc_steps d) (initially_disabled missing (rc_steps d))),
                   pb_guide = guide_text (pk_files pkg)\<rparr>,
                 pr_scope = [], pr_policy_generation = [], pr_task_generation = [], pr_valid_until = 0\<rparr>"
    unfolding assemble_selected_def by (auto simp: and_then_Inr Let_def split: if_splits)
  show thesis by (rule that [OF lr v fc parts]) (use res gl in auto)
qed

lemma assemble_ready:
  assumes "assemble_phases cx w rq = Inr res" "pr_bundle res = Some b"
  shows "package_pinned cx rq b" "validate (validation_of cx) (pb_document b) (map_of (pb_contracts b)) = None"
    "selection_sound cx w rq b" "groups_connected res b" "disabled_exact b" "tools_selected b"
    "int (length (pb_guide b)) \<le> li_max_guide_bytes (pq_limits rq)"
proof -
  from assms(1) obtain pkg d cs cands groups cands' sel fs missing tools b' where
    lr: "load_recipe cx w rq = Inr (pkg, d)" and v: "validate (validation_of cx) d (map_of cs) = None"
    and fc: "find_candidates cx w rq (rc_requirements d) 0 0 (rc_requirements d) (\<lambda>_. []) = Inr cands"
    and cg: "connect_groups d (rc_groups d) [] cands = Inr (groups, cands')"
    and sc: "select_candidates (rc_requirements d) cands' (rc_requirements d) [] [] [] = Inr (sel, fs, missing)"
    and ct: "collect_tools cx w rq (rc_requirements d) sel 0 [] (rc_requirements d) = Inr tools"
    and b': "pr_bundle res = Some b'" "pr_groups res = groups" "pb_files b' = pk_files pkg" "pb_document b' = d" "pb_contracts b' = cs"
      "pb_selected b' = sel" "pb_tools b' = tools"
      "pb_disabled b' = sort (disable_loop (rc_steps d) (initially_disabled missing (rc_steps d)))"
      "int (length (pb_guide b')) \<le> li_max_guide_bytes (pq_limits rq)"
    by (rule assemble_parts) blast
  have b: "b' = b" using b'(1) assms(2) by simp
  note f = b' [unfolded b]
  have keys: "distinct (map rq_key (rc_requirements d))" using requirements_error_keys [OF validate_checks(1) [OF v]] by blast
  note spec = select_candidates_spec [OF sc]
  have sel: "map_of sel k = (if k \<in> rq_key ` set (rc_requirements d) \<and> cands' k \<noteq> [] then Some (hd (cands' k)) else None)" for k
    using spec by simp
  have evidence: "candidate_evidence cx w rq r c" if r: "r \<in> set (rc_requirements d)" and c: "map_of sel (rq_key r) = Some c" for r c
  proof -
    have "c \<in> set (cands' (rq_key r))" using c sel by (auto split: if_splits)
    then have "c \<in> set (cands (rq_key r))" using connect_groups_shrinks [OF cg] by blast
    with find_candidates_evidence [OF fc] obtain r' where r': "r' \<in> set (rc_requirements d)" "rq_key r' = rq_key r" "candidate_evidence cx w rq r' c"
      by force
    have "r' = r" using keys r r'(1,2) by (auto simp: distinct_map inj_on_def)
    with r'(3) show ?thesis by simp
  qed
  have opt: "rq_optional r" if "r \<in> set (rc_requirements d)" "map_of sel (rq_key r) = None" for r
    using spec that sel by (auto split: if_splits)
  show "package_pinned cx rq b"
    using load_recipe_ok [OF lr] validate_package_closed [OF load_recipe_ok(1) [OF lr]] f by (auto simp: package_pinned_def)
  show "validate (validation_of cx) (pb_document b) (map_of (pb_contracts b)) = None" using v f by simp
  show "selection_sound cx w rq b"
    using evidence opt f by (auto simp: selection_sound_def split: option.splits)
  show "groups_connected res b"
    unfolding groups_connected_def
  proof
    fix g assume "g \<in> set (rc_groups (pb_document b))"
    then have "shares_connection g groups cands'" using connect_groups_share [OF cg] f by simp
    then obtain conn where conn: "\<And>k c. k \<in> set (gr_requirements g) \<Longrightarrow> c \<in> set (cands' k) \<Longrightarrow>
        bc_connection c = conn \<and> \<lparr>ge_group = gr_id g, ge_connection = conn\<rparr> \<in> set groups"
      unfolding shares_connection_def by blast
    have "c \<in> set (cands' k)" if "map_of sel k = Some c" for k c using that sel by (auto split: if_splits)
    with conn f show "\<exists>conn. \<forall>k \<in> set (gr_requirements g). \<forall>c. map_of (pb_selected b) k = Some c \<longrightarrow>
        bc_connection c = conn \<and> \<lparr>ge_group = gr_id g, ge_connection = conn\<rparr> \<in> set (pr_groups res)"
      by (intro exI [of _ conn]) auto
  qed
  have un: "unselected b = set missing" using spec sel f by (auto simp: unselected_def split: if_splits)
  have dis: "i \<in> set (pb_disabled b) \<longleftrightarrow> cannot_run (rc_steps d) (set missing) i" for i
    using disable_loop_exact [OF initially_disabled_exact] f by simp
  have mopt: "\<forall>k \<in> set missing. \<exists>r \<in> set (rc_requirements d). rq_key r = k \<and> rq_optional r"
    using spec by fastforce
  show "disabled_exact b"
    using dis un f cannot_run_optional [OF v mopt] by (auto simp: disabled_exact_def)
  show "tools_selected b" using collect_tools_selected [OF ct] f by (auto simp: tools_selected_def)
  show "int (length (pb_guide b)) \<le> li_max_guide_bytes (pq_limits rq)" using f by simp
qed

subsection \<open>Preparations\<close>

lemma status_result_not_ready: "status_result st fs = res \<Longrightarrow> pr_status res = st"
  by (auto simp: status_result_def)

lemma prepare_inner_ready:
  assumes "prepare_inner cx ps rq0 = Inr res" "pr_status res = ''ready''"
  obtains first again ar b d final where
    "assemble cx (ps_first ps) (sorted_scopes rq0) = Inr first" "pr_bundle first = Some b"
    "assemble cx (ps_last ps) (sorted_scopes rq0) = Inr again" "px_result cx first = px_result cx again"
    "au_scope ar = px_hash cx (px_scope cx (sorted_scopes rq0) b)" "au_selected ar = pb_selected b"
    "au_principal ar = pq_principal (sorted_scopes rq0)" "au_runtime ar = pq_runtime rq0" "au_skill ar = pq_skill rq0"
    "ps_check_first ps ar = Inr d" "ps_check_last ps ar = Inr final" "ad_ready d" "ad_ready final"
    "decision_fresh final (au_scope ar) (ps_now_last ps) (ps_max_age ps)" "decision_fresh d (au_scope ar) (ps_now_last ps) (ps_max_age ps)"
    "ad_policy_generation final = ad_policy_generation d" "ad_task_generation final = ad_task_generation d"
    "res = first\<lparr>pr_scope := au_scope ar, pr_policy_generation := ad_policy_generation final,
       pr_task_generation := ad_task_generation final, pr_valid_until := min (ad_valid_until d) (ad_valid_until final)\<rparr>"
proof -
  let ?rq = "sorted_scopes rq0"
  obtain first b where first: "assemble cx (ps_first ps) ?rq = Inr first" and b: "pr_bundle first = Some b" and st: "pr_status first = ''ready''"
    using assms by (auto simp: prepare_inner_def Let_def status_result_def split: if_splits sum.splits option.splits)
  define ar where "ar = \<lparr>au_principal = pq_principal ?rq, au_runtime = pq_runtime ?rq, au_scope = px_hash cx (px_scope cx ?rq b), au_task = pq_task ?rq,
                        au_skill = pq_skill ?rq, au_digest = pb_digest b, au_selected = pb_selected b\<rparr>"
  obtain d where d: "ps_check_first ps ar = Inr d" "ad_ready d" and c: "confirm cx ps ?rq first ar d = Inr res"
    using assms first b st
    by (auto simp: prepare_inner_def Let_def status_result_def ar_def split: if_splits sum.splits)
  obtain again final where again: "assemble cx (ps_last ps) ?rq = Inr again" "px_result cx first = px_result cx again"
    and final: "ps_check_last ps ar = Inr final" "ad_ready final"
      "decision_fresh final (au_scope ar) (ps_now_last ps) (ps_max_age ps)" "decision_fresh d (au_scope ar) (ps_now_last ps) (ps_max_age ps)"
      "ad_policy_generation final = ad_policy_generation d" "ad_task_generation final = ad_task_generation d"
    and res: "res = first\<lparr>pr_scope := au_scope ar, pr_policy_generation := ad_policy_generation final,
       pr_task_generation := ad_task_generation final,
       pr_valid_until := (if ad_valid_until d < ad_valid_until final then ad_valid_until d else ad_valid_until final)\<rparr>"
    using c assms(2) by (auto simp: confirm_def Let_def status_result_def split: if_splits sum.splits option.splits)
  have m: "(if ad_valid_until d < ad_valid_until final then ad_valid_until d else ad_valid_until final) = min (ad_valid_until d) (ad_valid_until final)"
    by (simp add: min_def)
  show thesis
    by (rule that [OF first b again _ _ _ _ _ d(1) final(1) d(2) final(2-6) res [unfolded m]])
       (simp_all add: ar_def sorted_scopes_def)
qed

lemma prepare_ready:
  assumes "prepare cx ps rq0 = Inr res" "pr_status res = ''ready''"
  shows "prepare_inner cx ps rq0 = Inr res" "\<exists>e. px_result cx res = Some e \<and> int (length e) \<le> pq_max_bytes rq0"
  using assms by (auto simp: prepare_def Let_def status_result_def split: if_splits sum.splits option.splits)


text \<open>Exactly the steps that cannot run are disabled: a step is in the disabled list of a ready bundle just
  when its requirement has no selected candidate or a step before it is disabled, and no step of a required
  requirement ever is.\<close>

theorem prepared_steps_disabled:
  assumes "prepare cx ps rq0 = Inr res" "pr_status res = ''ready''" "pr_bundle res = Some b"
  shows "(i \<in> set (pb_disabled b) \<longleftrightarrow> cannot_run (rc_steps (pb_document b)) (unselected b) i)
     \<and> (s \<in> set (rc_steps (pb_document b)) \<and> st_id s \<in> set (pb_disabled b) \<longrightarrow>
           is_optional (requirement_map (rc_requirements (pb_document b))) (st_requirement s))"
proof -
  obtain first where f: "assemble cx (ps_first ps) (sorted_scopes rq0) = Inr first" and "pr_bundle res = pr_bundle first"
    using prepare_inner_ready [OF prepare_ready(1) [OF assms(1,2)] assms(2)] by (metis prepared.select_convs(4) prepared.surjective prepared.update_convs(5-8))
  with assms(3) have "pr_bundle first = Some b" by simp
  from assemble_ready(5) [OF assemble_bundle [OF f this] this] show ?thesis by (auto simp: disabled_exact_def)
qed

text \<open>C28. A ready answer was confirmed twice. Two assemblies in their own worlds gave results with the same
  encoding, the authority said ready to the same request before and after the second, with the same
  generations, for the digest of exactly this request and bundle, and both decisions were still fresh at the
  end; the answer is valid no longer than either, and within the byte budget.\<close>

theorem prepared_answer_confirmed:
  assumes "prepare cx ps rq0 = Inr res" "pr_status res = ''ready''"
  shows "\<exists>first again b ar d final e.
     assemble cx (ps_first ps) (sorted_scopes rq0) = Inr first \<and> assemble cx (ps_last ps) (sorted_scopes rq0) = Inr again
     \<and> px_result cx first = px_result cx again \<and> pr_bundle first = Some b \<and> pr_bundle res = Some b
     \<and> pr_scope res = px_hash cx (px_scope cx (sorted_scopes rq0) b) \<and> au_scope ar = pr_scope res \<and> au_selected ar = pb_selected b
     \<and> ps_check_first ps ar = Inr d \<and> ps_check_last ps ar = Inr final \<and> ad_ready d \<and> ad_ready final
     \<and> (\<forall>x \<in> {d, final}. decision_fresh x (pr_scope res) (ps_now_last ps) (ps_max_age ps)
          \<and> ad_policy_generation x = pr_policy_generation res \<and> ad_task_generation x = pr_task_generation res
          \<and> pr_valid_until res \<le> ad_valid_until x)
     \<and> pr_valid_until res > ps_now_last ps \<and> px_result cx res = Some e \<and> int (length e) \<le> pq_max_bytes rq0"
proof -
  obtain e where e: "px_result cx res = Some e" "int (length e) \<le> pq_max_bytes rq0" using prepare_ready(2) [OF assms] by blast
  obtain first again ar b d final where
    f: "assemble cx (ps_first ps) (sorted_scopes rq0) = Inr first" "pr_bundle first = Some b"
      "assemble cx (ps_last ps) (sorted_scopes rq0) = Inr again" "px_result cx first = px_result cx again"
    and ar: "au_scope ar = px_hash cx (px_scope cx (sorted_scopes rq0) b)" "au_selected ar = pb_selected b"
    and d: "ps_check_first ps ar = Inr d" "ps_check_last ps ar = Inr final" "ad_ready d" "ad_ready final"
      "decision_fresh final (au_scope ar) (ps_now_last ps) (ps_max_age ps)" "decision_fresh d (au_scope ar) (ps_now_last ps) (ps_max_age ps)"
      "ad_policy_generation final = ad_policy_generation d" "ad_task_generation final = ad_task_generation d"
    and res: "res = first\<lparr>pr_scope := au_scope ar, pr_policy_generation := ad_policy_generation final,
       pr_task_generation := ad_task_generation final, pr_valid_until := min (ad_valid_until d) (ad_valid_until final)\<rparr>"
    by (rule prepare_inner_ready [OF prepare_ready(1) [OF assms] assms(2)]) (rule that; assumption)
  have until: "pr_valid_until res > ps_now_last ps" using d(5,6) res by (simp add: decision_fresh_def)
  show ?thesis
    using f ar d e until res
    by (intro exI [of _ first] exI [of _ again] exI [of _ b] exI [of _ ar] exI [of _ d] exI [of _ final] exI [of _ e]) simp
qed

end
