(* ===== verification/PreparationExample.thy ===== *)
theory PreparationExample
  imports AssemblyProperties
begin

text \<open>
  A concrete preparation: the two-step recipe of \<open>RecipeProperties\<close> with one binding for its required
  requirement and none for its optional one. All digests are the same; documents are told apart by their bytes.
\<close>

definition tidy_recipe :: recipe where
  "tidy_recipe = demo_recipe\<lparr>rc_limits := demo_limits\<lparr>li_max_guide_bytes := 1000\<rparr>\<rparr>"

definition tidy_manifest :: package_manifest where
  "tidy_manifest = \<lparr>pm_id = ''mail/digest'', pm_version = ''1.0'', pm_digest = zero_digest,
     pm_inventory = [\<lparr>iv_path = skill_name, iv_size = 34, iv_sha = dg_value zero_digest, iv_media = ''t''\<rparr>,
        \<lparr>iv_path = asset_path, iv_size = 1, iv_sha = dg_value zero_digest, iv_media = ''t''\<rparr>],
     pm_status = ''approved'', pm_provenance = [], pm_trust = ''operator_asserted''\<rparr>"

definition tidy_files :: file_map where
  "tidy_files = [(manifest_name, ''m''), (skill_name, note_skill), (asset_path, ''r'')]"

definition tidy_package :: skill_package where
  "tidy_package = \<lparr>pk_manifest = tidy_manifest, pk_manifest_bytes = ''m'', pk_files = tidy_files,
     pk_digest = dg_value zero_digest, pk_manifest_digest = dg_value zero_digest\<rparr>"

definition tidy_codec :: prep_codec where
  "tidy_codec = \<lparr>px_package = note_codec\<lparr>pc_manifest := (\<lambda>_. Some tidy_manifest)\<rparr>,
     px_document = (\<lambda>_. Some tidy_recipe), px_contract = ve_decode demo_env, px_value = (\<lambda>_. Some demo_task),
     px_requirements = (\<lambda>_. Some \<lparr>mr_required = [(''mail.list'', ''1'', False), (''mail.send'', ''1'', True)], mr_local = False, mr_filesystem = []\<rparr>),
     px_identity = (\<lambda>b. Some (if b = ''L'' then ''mail.list'' else if b = ''S'' then ''mail.send'' else b, ''1'')),
     px_binding = (\<lambda>_. Some \<lparr>bd_capability = ''mail.list@1'', bd_tool = ''t@1'', bd_provider = ''p@1'', bd_adapter = ''1'', bd_fixture = zero_digest,
        bd_conformance = ''passed'', bd_exact = True\<rparr>),
     px_tool = (\<lambda>_. Some (''{}'', ''{}'')), px_object = (\<lambda>_. True), px_result = (\<lambda>_. Some ''r''), px_scope = (\<lambda>_ _. [])\<rparr>"

definition tidy_pin :: "string \<Rightarrow> string \<Rightarrow> artifact_pin" where
  "tidy_pin kind i = \<lparr>ap_ref = \<lparr>ar_workspace = ''w'', ar_kind = kind, ar_id = i, ar_version = ''1''\<rparr>, ap_digest = zero_digest, ap_manifest = zero_digest\<rparr>"

definition tidy_candidate :: binding_candidate where
  "tidy_candidate = \<lparr>bc_binding = tidy_pin kind_binding ''b'', bc_tool = tidy_pin kind_tool ''t'', bc_provider = tidy_pin kind_provider ''p'',
     bc_contract_digest = dg_value zero_digest, bc_adapter_version = ''1'', bc_fixture_digest = dg_value zero_digest,
     bc_connection = \<lparr>tc_scope = ''w'', tc_id = ''c'', tc_version = ''1'', tc_account = ''a'', tc_generation = ''g''\<rparr>, bc_admitted = True\<rparr>"

text \<open>Every artifact is there, published, with the bytes that name it.\<close>

definition tidy_bytes :: "artifact_ref \<Rightarrow> string" where
  "tidy_bytes ref = (if ar_id ref = ''mail.list'' then ''L'' else if ar_id ref = ''mail.send'' then ''S'' else ar_id ref)"

definition tidy_envelope :: "artifact_ref \<Rightarrow> envelope" where
  "tidy_envelope ref = \<lparr>en_record = \<lparr>cr_ref = ref, cr_state = ''published'', cr_digest = zero_digest, cr_manifest_digest = zero_digest,
     cr_document_digest = zero_digest, cr_package_digest = zero_digest, cr_object_key = [], cr_artifact_size = 1, cr_metadata = tidy_bytes ref\<rparr>,
     en_bytes = tidy_bytes ref\<rparr>"

definition tidy_world :: assembly_world where
  "tidy_world = \<lparr>aw_skill = (\<lambda>_ _ _. Inr tidy_package), aw_retrieve = (\<lambda>_ _ ref _. Inr (tidy_envelope ref)),
     aw_lookup = (\<lambda>i _. Inr \<lparr>br_items = (if i = 0 then [tidy_candidate] else []), br_complete = True\<rparr>),
     aw_live_contract = (\<lambda>_. True), aw_live_lookup = (\<lambda>_. True)\<rparr>"

definition tidy_request :: prep_request where
  "tidy_request = \<lparr>pq_principal = note_reader, pq_runtime = ''rt'',
     pq_skill = \<lparr>ap_ref = \<lparr>ar_workspace = ''w'', ar_kind = kind_skill, ar_id = ''mail/digest'', ar_version = ''1.0''\<rparr>,
        ap_digest = zero_digest, ap_manifest = zero_digest\<rparr>,
     pq_task = ''{}'', pq_versions = [recipe_version], pq_selections = [], pq_connections = [],
     pq_limits = demo_limits\<lparr>li_max_guide_bytes := 1000\<rparr>, pq_max_bytes = 100\<rparr>"

definition tidy_decision :: "authority_request \<Rightarrow> string + authority_decision" where
  "tidy_decision ar = Inr \<lparr>ad_scope = au_scope ar, ad_policy_generation = ''p'', ad_task_generation = ''t'', ad_ready = True,
     ad_checked_at = 1, ad_valid_until = 9\<rparr>"

definition tidy_schedule :: prep_schedule where
  "tidy_schedule = \<lparr>ps_configured = True, ps_max_age = 5, ps_first = tidy_world, ps_last = tidy_world,
     ps_check_first = tidy_decision, ps_check_last = tidy_decision, ps_now_first = 1, ps_now_last = 2,
     ps_live_first = True, ps_live_last = True\<rparr>"

definition tidy_sel :: "(string \<times> binding_candidate) list" where
  "tidy_sel = [(''l'', tidy_candidate)]"

definition tidy_contracts :: "(string \<times> contract) list" where
  "tidy_contracts = [(''l'', list_contract), (''s'', send_contract)]"

definition tidy_bundle :: prep_bundle where
  "tidy_bundle = \<lparr>pb_files = tidy_files, pb_document = tidy_recipe, pb_digest = dg_value zero_digest, pb_skill = pq_skill tidy_request,
     pb_contracts = tidy_contracts, pb_selected = tidy_sel,
     pb_tools = [\<lparr>pt_pin = tidy_pin kind_tool ''t'', pt_connection = bc_connection tidy_candidate, pt_input = ''{}'', pt_output = ''{}''\<rparr>],
     pb_disabled = [''b''], pb_guide = guide_text tidy_files\<rparr>"

definition tidy_first :: prepared where
  "tidy_first = \<lparr>pr_status = ''ready'',
     pr_findings = [\<lparr>pf_requirement = ''l'', pf_status = ''ready'', pf_selected = Some tidy_candidate\<rparr>,
        \<lparr>pf_requirement = ''s'', pf_status = ''optional_unavailable'', pf_selected = None\<rparr>],
     pr_groups = [], pr_bundle = Some tidy_bundle, pr_scope = [], pr_policy_generation = [], pr_task_generation = [], pr_valid_until = 0\<rparr>"

definition tidy_result :: prepared where
  "tidy_result = tidy_first\<lparr>pr_scope := dg_value zero_digest, pr_policy_generation := ''p'', pr_task_generation := ''t'', pr_valid_until := 9\<rparr>"

lemma zero_digest_ok: "digest_valid (dg_value zero_digest)" "dg_algorithm zero_digest = ''sha256''"
  using zero_digest_valid(1) by (simp_all add: digest_valid_def valid_sha_def zero_digest_def)

lemma tidy_hash [simp]: "px_hash tidy_codec b = dg_value zero_digest"
  by (simp add: tidy_codec_def note_codec_def)

lemma tidy_rq [simp]: "sorted_scopes tidy_request = tidy_request"
  by (simp add: sorted_scopes_def tidy_request_def note_reader_def)

lemma tidy_ids: "identifier_ok ''b'' True" "identifier_ok ''t'' True" "identifier_ok ''p'' True" "identifier_ok ''1'' False"
    "identifier_ok ''mail/digest'' True" "identifier_ok ''1.0'' False"
  by code_simp+

lemma tidy_pin_valid:
  "identifier_ok i True \<Longrightarrow> pin_valid (tidy_pin kind i) ''w'' kind"
  using zero_digest_ok tidy_ids(4) by (simp add: pin_valid_def tidy_pin_def)

lemma tidy_verify:
  assumes "ar_workspace ref = ''w''" "ar_version ref = ''1''" "ar_id ref \<notin> {''L'', ''S''}"
  shows "verify_envelope tidy_codec (tidy_envelope ref) ref (dg_value zero_digest) None"
    "ap_ref pin = ref \<Longrightarrow> ap_digest pin = zero_digest \<Longrightarrow> ap_manifest pin = zero_digest \<Longrightarrow>
       verify_envelope tidy_codec (tidy_envelope ref) ref (dg_value zero_digest) (Some pin)"
  using assms zero_digest_ok
  by (auto simp: verify_envelope_def logical_digest_def tidy_envelope_def tidy_bytes_def listed_state_def Let_def)
     (auto simp: tidy_codec_def)

lemma tidy_validates: "validate_package (px_package tidy_codec) tidy_files = Inr tidy_package"
proof -
  have v: "validate_core note_skill \<noteq> None" "validate_path skill_name" "validate_path asset_path" "skill_name \<noteq> manifest_name"
    "asset_path \<noteq> manifest_name" "asset_path \<noteq> skill_name" "skill_name \<noteq> []" "asset_path \<noteq> []" "length note_skill = 34"
    by code_simp+
  have less: "skill_name < asset_path" by (simp add: skill_name_def asset_path_def less_char_def)
  then have ord: "sort_key iv_path (pm_inventory tidy_manifest) = pm_inventory tidy_manifest"
    by (simp add: tidy_manifest_def)
  have "skill_name \<noteq> asset_path" using less by simp
  with ord zero_digest_valid(1) v show ?thesis
    by (simp add: validate_package_def note_codec_def tidy_codec_def tidy_files_def tidy_package_def package_digest_def
        canonical_inventory_def verify_package_def without_manifest_def declared_def Let_def tidy_manifest_def less less_imp_le not_le)
       (simp add: zero_digest_def)
qed

lemma tidy_loads: "load_recipe tidy_codec tidy_world tidy_request = Inr (tidy_package, tidy_recipe)"
proof -
  have b: "bounded_files tidy_files" by code_simp
  have m: "manifest_matches tidy_codec ''m'' tidy_recipe = None" by code_simp
  have l: "valid_limits (rc_limits tidy_recipe)" "limits_fit (rc_limits tidy_recipe) (pq_limits tidy_request)" by code_simp+
  have r: "length (rc_requirements tidy_recipe) = 2" "length (rc_steps tidy_recipe) = 2" "rc_groups tidy_recipe = []"
    "rc_schema_version tidy_recipe = recipe_version" "rc_skill_id tidy_recipe = ''mail/digest''" "rc_skill_version tidy_recipe = ''1.0''"
    by (simp_all add: tidy_recipe_def demo_recipe_def)
  have d: "px_document tidy_codec x = Some tidy_recipe" for x by (simp add: tidy_codec_def)
  show ?thesis
    using b m l r d tidy_validates
    by (simp add: load_recipe_def tidy_world_def tidy_package_def Let_def tidy_manifest_def) (simp add: tidy_request_def)
qed

lemma tidy_requirements: "rc_requirements tidy_recipe =
    [\<lparr>rq_key = ''l'', rq_capability = ''mail.list'', rq_contract_version = ''1'', rq_contract_digest = dg_value zero_digest, rq_optional = False\<rparr>,
     \<lparr>rq_key = ''s'', rq_capability = ''mail.send'', rq_contract_version = ''1'', rq_contract_digest = dg_value zero_digest, rq_optional = True\<rparr>]"
  by (simp add: tidy_recipe_def demo_recipe_def demo_digest_def zero_digest_def)

lemma tidy_contract_loads:
  "load_contracts tidy_codec tidy_world tidy_request rs 0 (rc_requirements tidy_recipe) [] = Inr tidy_contracts"
proof -
  have c: "parse_contract (px_contract tidy_codec) ''L'' = Inr list_contract" "parse_contract (px_contract tidy_codec) ''S'' = Inr send_contract"
    by code_simp+
  have v: "verify_envelope tidy_codec (tidy_envelope ref) ref (dg_value zero_digest) None"
    if "ar_workspace ref = ''w''" "ar_version ref = ''1''" "ar_id ref \<in> {''mail.list'', ''mail.send''}" for ref
    using tidy_verify(1) [of ref] that by auto
  have w: "aw_retrieve tidy_world site p ref n = Inr (tidy_envelope ref)" "aw_live_contract tidy_world i" for site p ref n i
    by (simp_all add: tidy_world_def)
  let ?ref = "\<lambda>i. \<lparr>ar_workspace = ''w'', ar_kind = kind_capability, ar_id = i, ar_version = ''1''\<rparr>"
  have r: "contract_ref tidy_request \<lparr>rq_key = k, rq_capability = i, rq_contract_version = ''1'', rq_contract_digest = d, rq_optional = opt\<rparr> = ?ref i"
    for k i d opt by (simp add: contract_ref_def tidy_request_def note_reader_def)
  have e: "en_bytes (tidy_envelope (?ref ''mail.list'')) = ''L''" "en_bytes (tidy_envelope (?ref ''mail.send'')) = ''S''"
    by (simp_all add: tidy_envelope_def tidy_bytes_def)
  show ?thesis
    unfolding tidy_requirements tidy_contracts_def using c by (simp add: w r v e)
qed

lemma tidy_accepted: "validate (validation_of tidy_codec) tidy_recipe (map_of tidy_contracts) = None"
proof -
  have e: "validation_of tidy_codec = demo_env"
    by (simp add: validation_of_def tidy_codec_def note_codec_def demo_env_def demo_digest_def zero_digest_def fun_eq_iff)
  have c: "map_of tidy_contracts = demo_contracts"
    by (simp add: tidy_contracts_def demo_contracts_def fun_eq_iff)
  show ?thesis unfolding e c by code_simp
qed

lemma tidy_task: "validate_value tidy_codec (rc_task_schema tidy_recipe) (pq_task tidy_request) (li_max_input_bytes (pq_limits tidy_request)) = None"
  by code_simp

definition tidy_cands :: "string \<Rightarrow> binding_candidate list" where
  "tidy_cands = (\<lambda>k. if k = ''l'' then [tidy_candidate] else [])"

lemma tidy_retrieve: "aw_retrieve tidy_world site p ref n = Inr (tidy_envelope ref)"
  by (simp add: tidy_world_def)

lemma tidy_pin_verifies:
  "i \<notin> {''L'', ''S''} \<Longrightarrow>
     verify_envelope tidy_codec (tidy_envelope (ap_ref (tidy_pin kind i))) (ap_ref (tidy_pin kind i)) (dg_value (ap_digest (tidy_pin kind i)))
       (Some (tidy_pin kind i))"
  using tidy_verify(2) [of "ap_ref (tidy_pin kind i)" "tidy_pin kind i"] by (simp add: tidy_pin_def)

lemma tidy_verified:
  assumes "rq_capability r = ''mail.list''" "rq_contract_version r = ''1''" "rq_contract_digest r = dg_value zero_digest"
  shows "verify_candidate tidy_codec tidy_world i j (pq_principal tidy_request) r tidy_candidate = None"
proof -
  have ws: "pn_workspace (pq_principal tidy_request) = ''w''" by (simp add: tidy_request_def note_reader_def)
  have pins: "bc_binding tidy_candidate = tidy_pin kind_binding ''b''" "bc_tool tidy_candidate = tidy_pin kind_tool ''t''"
      "bc_provider tidy_candidate = tidy_pin kind_provider ''p''" "bc_contract_digest tidy_candidate = dg_value zero_digest"
      "bc_adapter_version tidy_candidate = ''1''" "bc_fixture_digest tidy_candidate = dg_value zero_digest"
    by (simp_all add: tidy_candidate_def)
  have parts: "ref_parts ''mail.list@1'' \<noteq> None" "ref_parts ''t@1'' \<noteq> None" "ref_parts ''p@1'' \<noteq> None" by code_simp+
  obtain d where d: "px_binding tidy_codec b = Some d" "binding_conforms r tidy_candidate d" for b
  proof
    show "px_binding tidy_codec b = Some \<lparr>bd_capability = ''mail.list@1'', bd_tool = ''t@1'', bd_provider = ''p@1'', bd_adapter = ''1'',
        bd_fixture = zero_digest, bd_conformance = ''passed'', bd_exact = True\<rparr>" for b by (simp add: tidy_codec_def)
    show "binding_conforms r tidy_candidate \<lparr>bd_capability = ''mail.list@1'', bd_tool = ''t@1'', bd_provider = ''p@1'', bd_adapter = ''1'',
        bd_fixture = zero_digest, bd_conformance = ''passed'', bd_exact = True\<rparr>"
      using assms parts zero_digest_ok(2) pins by (simp add: binding_conforms_def capability_pin_def tidy_pin_def)
  qed
  show ?thesis
    using tidy_ids d zero_digest_ok assms(3)
    by (simp add: verify_candidate_def Let_def ws pins tidy_pin_valid tidy_retrieve tidy_pin_verifies pinned_artifact_def)
qed

lemma tidy_shape: "candidate_shape_ok tidy_request tidy_candidate"
  using tidy_ids zero_digest_ok tidy_pin_valid
  by (simp add: candidate_shape_ok_def tidy_candidate_def tidy_request_def note_reader_def connection_parts_def Let_def)

lemma tidy_found:
  "find_candidates tidy_codec tidy_world tidy_request rs 0 0 (rc_requirements tidy_recipe) (\<lambda>_. []) = Inr tidy_cands"
proof -
  have adm: "bc_admitted tidy_candidate" by (simp add: tidy_candidate_def)
  have sel: "pq_selections tidy_request = []" "pq_connections tidy_request = []" by (simp_all add: tidy_request_def)
  have look: "aw_lookup tidy_world i q = Inr \<lparr>br_items = (if i = 0 then [tidy_candidate] else []), br_complete = True\<rparr>"
    "aw_live_lookup tidy_world i" for i q
    by (simp_all add: tidy_world_def)
  show ?thesis
    unfolding tidy_requirements
    by (simp add: look adm sel tidy_shape tidy_verified and_then_def tidy_cands_def fun_eq_iff)
qed

lemma tidy_assembles: "assemble tidy_codec tidy_world tidy_request = Inr tidy_first"
proof -
  have steps: "disable_loop (rc_steps tidy_recipe) (initially_disabled [''s''] (rc_steps tidy_recipe)) = [''b'']" by code_simp
  have guide: "length (guide_text tidy_files) \<le> 1000" by code_simp
  have lim: "li_max_guide_bytes (rc_limits tidy_recipe) = 1000" "li_max_guide_bytes (pq_limits tidy_request) = 1000"
    "rc_groups tidy_recipe = []" "pk_files tidy_package = tidy_files"
    by (simp_all add: tidy_recipe_def tidy_request_def demo_recipe_def tidy_package_def)
  have tools: "collect_tools tidy_codec tidy_world tidy_request (rc_requirements tidy_recipe) tidy_sel 0 [] (rc_requirements tidy_recipe)
      = Inr [\<lparr>pt_pin = tidy_pin kind_tool ''t'', pt_connection = bc_connection tidy_candidate, pt_input = ''{}'', pt_output = ''{}''\<rparr>]"
  proof -
    have "bc_tool tidy_candidate = tidy_pin kind_tool ''t''" by (simp add: tidy_candidate_def)
    moreover have "px_tool tidy_codec b = Some (''{}'', ''{}'')" "px_object tidy_codec b" for b by (simp_all add: tidy_codec_def)
    ultimately show ?thesis
      unfolding tidy_requirements by (simp add: tidy_sel_def tidy_retrieve tidy_pin_verifies and_then_def)
  qed
  have sel: "select_candidates (rc_requirements tidy_recipe) tidy_cands (rc_requirements tidy_recipe) [] [] []
      = Inr (tidy_sel, pr_findings tidy_first, [''s''])"
    unfolding tidy_requirements by (simp add: tidy_cands_def tidy_sel_def tidy_first_def)
  have known: "selections_known tidy_request tidy_contracts" by (simp add: selections_known_def tidy_request_def)
  have need: "\<not> list_ex (\<lambda>r. \<not> rq_optional r \<and> tidy_cands (rq_key r) = []) (rc_requirements tidy_recipe)"
    unfolding tidy_requirements by (simp add: tidy_cands_def)
  have "assemble_selected tidy_codec tidy_world tidy_request tidy_package tidy_recipe tidy_contracts tidy_cands = Inr tidy_first"
    unfolding assemble_selected_def Let_def if_not_P [OF need] and_then_def
    using steps guide lim tools sel by (simp add: tidy_first_def tidy_bundle_def)
  then show ?thesis
    by (simp add: assemble_def assemble_phases_def and_then_def tidy_loads tidy_contract_loads tidy_accepted tidy_task tidy_found known Let_def)
qed

lemma tidy_prepares: "prepare tidy_codec tidy_schedule tidy_request = Inr tidy_result"
proof -
  have rb: "request_bounded tidy_request" by code_simp
  have pv: "pin_valid (pq_skill tidy_request) ''w'' kind_skill"
    using zero_digest_ok tidy_ids by (simp add: pin_valid_def tidy_request_def)
  have vl: "valid_limits (pq_limits tidy_request)" by code_simp
  have q: "pn_workspace (pq_principal tidy_request) = ''w''" "pn_subject (pq_principal tidy_request) = ''u''" "pq_runtime tidy_request = ''rt''"
    "pq_versions tidy_request = [recipe_version]" "pq_max_bytes tidy_request = 100"
    by (simp_all add: tidy_request_def note_reader_def)
  have e: "px_result tidy_codec r = Some ''r''" for r by (simp add: tidy_codec_def)
  have f: "pr_status tidy_first = ''ready''" "pr_bundle tidy_first = Some tidy_bundle" by (simp_all add: tidy_first_def)
  have "prepare_inner tidy_codec tidy_schedule tidy_request = Inr tidy_result"
    using rb pv vl
    by (simp add: prepare_inner_def confirm_def tidy_schedule_def tidy_assembles q e f Let_def tidy_decision_def decision_fresh_def
        tidy_result_def)
  then show ?thesis by (simp add: prepare_def q e)
qed

lemma tidy_ready: "pr_status tidy_result = ''ready''" "pr_bundle tidy_result = Some tidy_bundle"
  by (simp_all add: tidy_result_def tidy_first_def)


theorem prepared_steps_disabled_witness:
  "cannot_run (rc_steps tidy_recipe) (unselected tidy_bundle) ''b''
   \<and> is_optional (requirement_map (rc_requirements tidy_recipe)) (st_requirement demo_send)"
proof -
  have m: "demo_send \<in> set (rc_steps tidy_recipe)" "st_id demo_send = ''b''" "''b'' \<in> set (pb_disabled tidy_bundle)" "pb_document tidy_bundle = tidy_recipe"
    by (simp_all add: tidy_recipe_def demo_recipe_def demo_send_def tidy_bundle_def)
  show ?thesis
    using prepared_steps_disabled [OF tidy_prepares tidy_ready, of "''b''" demo_send] m by simp
qed

theorem prepared_answer_confirmed_witness:
  "pr_valid_until tidy_result > ps_now_last tidy_schedule"
  using prepared_answer_confirmed [OF tidy_prepares tidy_ready(1)] by blast

end
