(* ===== verification/OAuthStore.thy ===== *)
theory OAuthStore
  imports Prelude
begin

text \<open>
  The grant store of the reference authorization server: the records and the persistence port of
  \<open>hosted/internal/oauth/server.go\<close> and its PostgreSQL implementation
  \<open>hosted/internal/storage/oauth.go\<close> over the tables of \<open>hosted/migrations\<close> (001, 003, 007).

  A table is a partial function from its primary key, a nullable time stamp an option. Every
  operation but the ones on clients runs in one transaction of a workspace (\<open>WithTenant\<close>): row-level
  security shows it the rows of that workspace only, the row locks of \<open>SELECT ... FOR UPDATE\<close> make it
  atomic, and an error rolls it back. \<open>db_env\<close> holds what the database decides: whether the
  transaction fails, the value of \<open>now()\<close> and the identifier \<open>gen_random_uuid()\<close> draws. A key that
  exists already makes an \<open>INSERT\<close> fail, whatever rows are visible. The error type of the check a caller
  passes is the parameter \<open>'e\<close>.
\<close>

subsection \<open>Records\<close>

record oauth_client =
  oc_id :: string
  oc_name :: string
  oc_redirects :: "string list"
  oc_scopes :: "string list"
  oc_audience :: string
  oc_created :: int

record auth_code =
  ac_hash :: string
  ac_client :: string
  ac_subject :: string
  ac_workspace :: string
  ac_redirect :: string
  ac_resource :: string
  ac_scopes :: "string list"
  ac_challenge :: string
  ac_issued :: int
  ac_expires :: int

record refresh_family =
  rf_id :: string
  rf_client :: string
  rf_subject :: string
  rf_workspace :: string
  rf_resource :: string
  rf_scopes :: "string list"
  rf_code :: string

record refresh_token =
  rt_hash :: string
  rt_issued :: int
  rt_expires :: int

text \<open>\<open>grantError\<close>, the error the checks of the token endpoint return.\<close>

record grant_error =
  ge_status :: nat
  ge_code :: string
  ge_description :: string

datatype 'e grant_store_error = Not_found | Grant_reused | Family_revoked | Rejected 'e | Store_failed string

record code_row =
  cr_code :: auth_code
  cr_consumed :: "int option"

record family_row =
  fr_family :: refresh_family
  fr_revoked :: "int option"

record token_row =
  tr_token :: refresh_token
  tr_family :: string
  tr_consumed :: "int option"

record oauth_db =
  db_clients :: "string \<rightharpoonup> oauth_client"
  db_codes :: "string \<rightharpoonup> code_row"
  db_families :: "string \<rightharpoonup> family_row"
  db_tokens :: "string \<rightharpoonup> token_row"

record db_env =
  de_fails :: bool
  de_now :: int
  de_uuid :: string

definition empty_db :: oauth_db where
  "empty_db = \<lparr>db_clients = Map.empty, db_codes = Map.empty, db_families = Map.empty, db_tokens = Map.empty\<rparr>"

subsection \<open>Clients\<close>

definition create_client :: "db_env \<Rightarrow> oauth_client \<Rightarrow> oauth_db \<Rightarrow> ('e grant_store_error + unit) \<times> oauth_db" where
  "create_client e c db =
     (if oc_id c = [] \<or> oc_redirects c = [] \<or> oc_scopes c = [] \<or> oc_audience c = []
      then (Inl (Store_failed ''storage: incomplete oauth client''), db)
      else if de_fails e \<or> oc_id c \<in> dom (db_clients db)
      then (Inl (Store_failed ''create oauth client''), db)
      else (Inr (), db\<lparr>db_clients := (db_clients db)(oc_id c \<mapsto> c)\<rparr>))"

definition get_client :: "db_env \<Rightarrow> string \<Rightarrow> oauth_db \<Rightarrow> 'e grant_store_error + oauth_client" where
  "get_client e i db =
     (if i = [] then Inl Not_found
      else if de_fails e then Inl (Store_failed ''get oauth client'')
      else case db_clients db i of None \<Rightarrow> Inl Not_found | Some c \<Rightarrow> Inr c)"

subsection \<open>Authorization codes\<close>

definition save_code :: "db_env \<Rightarrow> auth_code \<Rightarrow> oauth_db \<Rightarrow> ('e grant_store_error + unit) \<times> oauth_db" where
  "save_code e c db =
     (if ac_hash c = [] \<or> ac_workspace c = []
      then (Inl (Store_failed ''storage: incomplete authorization code''), db)
      else if de_fails e \<or> ac_hash c \<in> dom (db_codes db) \<or> ac_client c \<notin> dom (db_clients db)
      then (Inl (Store_failed ''save authorization code''), db)
      else (Inr (), db\<lparr>db_codes := (db_codes db)(ac_hash c \<mapsto> \<lparr>cr_code = c, cr_consumed = None\<rparr>)\<rparr>))"

text \<open>\<open>COALESCE(revoked_at, now())\<close> on the visible rows that satisfy a condition.\<close>

definition revoke_row :: "int \<Rightarrow> family_row \<Rightarrow> family_row" where
  "revoke_row t r = r\<lparr>fr_revoked := (case fr_revoked r of None \<Rightarrow> Some t | Some u \<Rightarrow> Some u)\<rparr>"

definition revoke_where :: "db_env \<Rightarrow> string \<Rightarrow> (refresh_family \<Rightarrow> bool) \<Rightarrow> oauth_db \<Rightarrow> oauth_db" where
  "revoke_where e w p db = db\<lparr>db_families := (\<lambda>i. map_option
     (\<lambda>r. if rf_workspace (fr_family r) = w \<and> p (fr_family r) then revoke_row (de_now e) r else r) (db_families db i))\<rparr>"

definition visible_code :: "string \<Rightarrow> string \<Rightarrow> oauth_db \<Rightarrow> code_row option" where
  "visible_code w h db = (case db_codes db h of
     Some r \<Rightarrow> if ac_workspace (cr_code r) = w then Some r else None | None \<Rightarrow> None)"

definition consume_code :: "db_env \<Rightarrow> string \<Rightarrow> code_row \<Rightarrow> oauth_db \<Rightarrow> oauth_db" where
  "consume_code e h r db = db\<lparr>db_codes := (db_codes db)(h \<mapsto> r\<lparr>cr_consumed := Some (de_now e)\<rparr>)\<rparr>"

definition family_of_code :: "string \<Rightarrow> auth_code \<Rightarrow> refresh_family" where
  "family_of_code i c = \<lparr>rf_id = i, rf_client = ac_client c, rf_subject = ac_subject c, rf_workspace = ac_workspace c,
     rf_resource = ac_resource c, rf_scopes = ac_scopes c, rf_code = ac_hash c\<rparr>"

definition insert_family :: "string \<Rightarrow> auth_code \<Rightarrow> oauth_db \<Rightarrow> oauth_db option" where
  "insert_family i c db =
     (if i \<in> dom (db_families db) \<or> ac_client c \<notin> dom (db_clients db) then None
      else Some (db\<lparr>db_families := (db_families db)(i \<mapsto> \<lparr>fr_family = family_of_code i c, fr_revoked = None\<rparr>)\<rparr>))"

definition insert_token :: "string \<Rightarrow> refresh_token \<Rightarrow> oauth_db \<Rightarrow> oauth_db option" where
  "insert_token i t db =
     (if rt_hash t \<in> dom (db_tokens db) then None
      else Some (db\<lparr>db_tokens := (db_tokens db)(rt_hash t \<mapsto> \<lparr>tr_token = t, tr_family = i, tr_consumed = None\<rparr>)\<rparr>))"

definition redeem_code :: "db_env \<Rightarrow> string \<Rightarrow> string \<Rightarrow> (auth_code \<Rightarrow> 'e option) \<Rightarrow> refresh_token \<Rightarrow> oauth_db
    \<Rightarrow> ('e grant_store_error + auth_code \<times> string) \<times> oauth_db" where
  "redeem_code e w h check first db =
     (if w = [] \<or> h = [] \<or> rt_hash first = [] then (Inl Not_found, db)
      else if de_fails e then (Inl (Store_failed ''load authorization code''), db)
      else case visible_code w h db of
        None \<Rightarrow> (Inl Not_found, db)
      | Some r \<Rightarrow>
          if cr_consumed r \<noteq> None then (Inl Grant_reused, revoke_where e w (\<lambda>f. rf_code f = h) db)
          else let db1 = consume_code e h r db in
            case check (cr_code r) of
              Some x \<Rightarrow> (Inl (Rejected x), db1)
            | None \<Rightarrow>
                (case insert_family (de_uuid e) (cr_code r) db1 of
                   None \<Rightarrow> (Inl (Store_failed ''create refresh family''), db)
                 | Some db2 \<Rightarrow>
                     (case insert_token (de_uuid e) first db2 of
                        None \<Rightarrow> (Inl (Store_failed ''create refresh token''), db)
                      | Some db3 \<Rightarrow> (Inr (cr_code r, de_uuid e), db3))))"

subsection \<open>Refresh tokens\<close>

definition visible_family :: "string \<Rightarrow> string \<Rightarrow> oauth_db \<Rightarrow> family_row option" where
  "visible_family w i db = (case db_families db i of
     Some r \<Rightarrow> if rf_workspace (fr_family r) = w then Some r else None | None \<Rightarrow> None)"

definition visible_token :: "string \<Rightarrow> string \<Rightarrow> oauth_db \<Rightarrow> (token_row \<times> family_row) option" where
  "visible_token w h db = (case db_tokens db h of
     None \<Rightarrow> None
   | Some t \<Rightarrow> map_option (Pair t) (visible_family w (tr_family t) db))"

definition consume_token :: "db_env \<Rightarrow> string \<Rightarrow> token_row \<Rightarrow> oauth_db \<Rightarrow> oauth_db" where
  "consume_token e h t db = db\<lparr>db_tokens := (db_tokens db)(h \<mapsto> t\<lparr>tr_consumed := Some (de_now e)\<rparr>)\<rparr>"

definition rotate_refresh :: "db_env \<Rightarrow> string \<Rightarrow> string \<Rightarrow> (refresh_family \<Rightarrow> refresh_token \<Rightarrow> 'e option) \<Rightarrow> refresh_token
    \<Rightarrow> oauth_db \<Rightarrow> ('e grant_store_error + refresh_family) \<times> oauth_db" where
  "rotate_refresh e w h check nxt db =
     (if w = [] \<or> h = [] \<or> rt_hash nxt = [] then (Inl Not_found, db)
      else if de_fails e then (Inl (Store_failed ''load refresh token''), db)
      else case visible_token w h db of
        None \<Rightarrow> (Inl Not_found, db)
      | Some (t, f) \<Rightarrow>
          if fr_revoked f \<noteq> None then (Inl Family_revoked, db)
          else if tr_consumed t \<noteq> None then (Inl Grant_reused, revoke_where e w (\<lambda>g. rf_id g = tr_family t) db)
          else case check (fr_family f) (tr_token t) of
            Some x \<Rightarrow> (Inl (Rejected x), db)
          | None \<Rightarrow>
              (case insert_token (tr_family t) nxt (consume_token e h t db) of
                 None \<Rightarrow> (Inl (Store_failed ''rotate refresh token''), db)
               | Some db1 \<Rightarrow> (Inr (fr_family f), db1)))"

definition revoke_family :: "db_env \<Rightarrow> string \<Rightarrow> string \<Rightarrow> oauth_db \<Rightarrow> ('e grant_store_error + unit) \<times> oauth_db" where
  "revoke_family e w i db =
     (if w = [] \<or> i = [] then (Inl Not_found, db)
      else if de_fails e then (Inl (Store_failed ''revoke refresh family''), db)
      else (Inr (), revoke_where e w (\<lambda>f. rf_id f = i) db))"

definition revoke_refresh :: "db_env \<Rightarrow> string \<Rightarrow> string \<Rightarrow> string \<Rightarrow> oauth_db \<Rightarrow> ('e grant_store_error + unit) \<times> oauth_db" where
  "revoke_refresh e w h i db =
     (if w = [] \<or> h = [] \<or> i = [] then (Inl Not_found, db)
      else if de_fails e then (Inl (Store_failed ''revoke refresh token''), db)
      else case visible_token w h db of
        None \<Rightarrow> (Inl Not_found, db)
      | Some (t, f) \<Rightarrow>
          if rf_client (fr_family f) = i then (Inr (), revoke_where e w (\<lambda>g. rf_id g = tr_family t) db)
          else (Inl Not_found, db))"

end
