(* ===== verification/Base64.thy ===== *)
theory Base64
  imports GoStrings
begin

text \<open>
  \<open>base64.RawURLEncoding\<close> of the Go standard library, as the hosted registry uses it for opaque
  credentials, PKCE challenges and signed cookies: the URL alphabet, no padding, three bytes to four
  digits. The decoder skips carriage returns and line feeds, ignores the unused low bits of the last
  digit (the encoding is not strict) and rejects any other byte outside the alphabet and a single
  digit left over.
\<close>

definition b64_digit :: "nat \<Rightarrow> char" where
  "b64_digit n = char_of (if n < 26 then 65 + n else if n < 52 then 71 + n else if n < 62 then n - 4
     else if n = 62 then 45 else 95)"

definition b64_value :: "char \<Rightarrow> nat option" where
  "b64_value c = (let b = byte c in
     if 65 \<le> b \<and> b \<le> 90 then Some (b - 65)
     else if 97 \<le> b \<and> b \<le> 122 then Some (b - 71)
     else if 48 \<le> b \<and> b \<le> 57 then Some (b + 4)
     else if b = 45 then Some 62 else if b = 95 then Some 63 else None)"

lemma b64_value_digit [simp]: "n < 64 \<Longrightarrow> b64_value (b64_digit n) = Some n"
  unfolding b64_digit_def b64_value_def Let_def byte_char_of by (simp split: if_split) linarith

lemma b64_value_less: "b64_value c = Some n \<Longrightarrow> n < 64"
  by (auto simp: b64_value_def Let_def split: if_splits)

fun b64_encode :: "string \<Rightarrow> string" where
  "b64_encode [] = []"
| "b64_encode [a] = [b64_digit (byte a div 4), b64_digit (byte a mod 4 * 16)]"
| "b64_encode [a, b] = [b64_digit (byte a div 4), b64_digit (byte a mod 4 * 16 + byte b div 16),
     b64_digit (byte b mod 16 * 4)]"
| "b64_encode (a # b # c # r) = b64_digit (byte a div 4) # b64_digit (byte a mod 4 * 16 + byte b div 16)
     # b64_digit (byte b mod 16 * 4 + byte c div 64) # b64_digit (byte c mod 64) # b64_encode r"

text \<open>The decoder on the values of the digits.\<close>

fun b64_groups :: "nat list \<Rightarrow> string option" where
  "b64_groups [] = Some []"
| "b64_groups [_] = None"
| "b64_groups [w, x] = Some [char_of (w * 4 + x div 16)]"
| "b64_groups [w, x, y] = Some [char_of (w * 4 + x div 16), char_of (x mod 16 * 16 + y div 4)]"
| "b64_groups (w # x # y # z # r) = map_option
     (\<lambda>t. char_of (w * 4 + x div 16) # char_of (x mod 16 * 16 + y div 4) # char_of (y mod 4 * 64 + z) # t)
     (b64_groups r)"

fun b64_values :: "string \<Rightarrow> nat list option" where
  "b64_values [] = Some []"
| "b64_values (c # cs) = (case b64_value c of None \<Rightarrow> None | Some v \<Rightarrow> map_option ((#) v) (b64_values cs))"

definition b64_decode :: "string \<Rightarrow> string option" where
  "b64_decode s = (case b64_values (filter (\<lambda>c. byte c \<noteq> 10 \<and> byte c \<noteq> 13) s) of
     None \<Rightarrow> None | Some vs \<Rightarrow> b64_groups vs)"

definition is_b64_char :: "char \<Rightarrow> bool" where
  "is_b64_char c \<longleftrightarrow> b64_value c \<noteq> None"

lemma is_b64_digit [simp]: "n < 64 \<Longrightarrow> is_b64_char (b64_digit n)"
  by (simp add: is_b64_char_def)

lemma is_b64_char_printable: "is_b64_char c \<Longrightarrow> 45 \<le> byte c \<and> byte c \<noteq> 46"
  by (auto simp: is_b64_char_def b64_value_def Let_def split: if_splits)

lemma b64_quot [simp]: "byte c div 4 < 64" "byte c mod 4 * 16 + byte d div 16 < 64" "byte c mod 4 * 16 < 64"
  "byte c mod 16 * 4 < 64" "byte c mod 16 * 4 + byte d div 64 < 64"
  using byte_less [of c] byte_less [of d] by linarith+

lemma b64_encode_chars: "c \<in> set (b64_encode s) \<Longrightarrow> is_b64_char c"
  by (induction s rule: b64_encode.induct) auto

lemma b64_encode_no_dot: "CHR ''.'' \<notin> set (b64_encode s)"
  using b64_encode_chars is_b64_char_printable [of "CHR ''.''"] by (auto simp: byte_def)

lemma b64_encode_unbroken: "filter (\<lambda>c. byte c \<noteq> 10 \<and> byte c \<noteq> 13) (b64_encode s) = b64_encode s"
  using b64_encode_chars is_b64_char_printable by (fastforce intro: filter_True)

lemma length_b64_encode: "length (b64_encode s) = (4 * length s + 2) div 3"
  by (induction s rule: b64_encode.induct) auto

lemma length_b64_encode_32: "length s = 32 \<Longrightarrow> length (b64_encode s) = 43"
  by (simp add: length_b64_encode)

lemma b64_encode_Nil_iff [simp]: "b64_encode s = [] \<longleftrightarrow> s = []"
  by (cases s rule: b64_encode.cases) auto

lemma b64_pack: "y < m \<Longrightarrow> (x * m + y) div m = x" "y < m \<Longrightarrow> (x * m + y) mod m = y" for x y m :: nat
  by simp_all

lemma b64_top: "byte c div 16 < 16" "byte c div 64 < 4"
  using byte_less [of c] by linarith+

lemma b64_regroup: "byte a div 4 * 4 + (byte a mod 4 * 16 + byte b div 16) div 16 = byte a"
  "(byte a mod 4 * 16 + byte b div 16) mod 16 * 16 + (byte b mod 16 * 4 + byte c div 64) div 4 = byte b"
  "(byte b mod 16 * 4 + byte c div 64) mod 4 * 64 + byte c mod 64 = byte c"
  unfolding b64_pack [OF b64_top(1)] b64_pack [OF b64_top(2)] by (simp_all add: mult.commute)

lemma b64_regroup_last: "byte a div 4 * 4 + byte a mod 4 * 16 div 16 = byte a"
  "(byte a mod 4 * 16 + byte b div 16) mod 16 * 16 + byte b mod 16 * 4 div 4 = byte b"
  unfolding b64_pack [OF b64_top(1)] by simp_all

lemma b64_values_encode: "\<exists>vs. b64_values (b64_encode s) = Some vs \<and> b64_groups vs = Some s"
proof (induction s rule: b64_encode.induct)
  case (2 a)
  show ?case using b64_regroup_last(1) [of a] by simp
next
  case (3 a b)
  show ?case using b64_regroup(1) [of a b] b64_regroup_last(2) [of a b] by simp
next
  case (4 a b c r)
  then obtain vs where "b64_values (b64_encode r) = Some vs" "b64_groups vs = Some r" by blast
  then show ?case using b64_regroup(1) [of a b] b64_regroup(2) [of a b c] b64_regroup(3) [of b c] by simp
qed simp

lemma b64_decode_encode [simp]: "b64_decode (b64_encode s) = Some s"
  using b64_values_encode [of s] by (auto simp: b64_decode_def b64_encode_unbroken)

lemma b64_encode_inject [simp]: "b64_encode s = b64_encode t \<longleftrightarrow> s = t"
  by (metis b64_decode_encode option.inject)

subsection \<open>Splitting at a byte\<close>

lemma split_aux_single: "d \<notin> set xs \<Longrightarrow> split_aux [d] (xs @ d # ys) cur = (cur @ xs) # split_aux [d] ys []"
  by (induction xs arbitrary: cur) auto

lemma split_aux_none: "d \<notin> set xs \<Longrightarrow> split_aux [d] xs cur = [cur @ xs]"
  by (induction xs arbitrary: cur) auto

lemma go_split_single: "d \<notin> set xs \<Longrightarrow> go_split (xs @ d # ys) [d] = xs # go_split ys [d]"
  by (simp add: go_split_def split_aux_single)

lemma go_split_none: "d \<notin> set xs \<Longrightarrow> go_split xs [d] = [xs]"
  by (simp add: go_split_def split_aux_none)

lemma go_cut_single: "d \<notin> set xs \<Longrightarrow> go_cut (xs @ d # ys) [d] = (xs, ys, True)"
proof -
  assume "d \<notin> set xs"
  then have "go_index (xs @ d # ys) [d] = Some (length xs)" by (induction xs) auto
  then show ?thesis by (simp add: go_cut_def)
qed

end
