(* ===== verification/Identity.thy ===== *)
theory Identity
  imports Base64 "HOL-Library.AList"
begin

text \<open>
  Identity of callers: \<open>hosted/internal/identity\<close>. Signing keys with rotation (\<open>keys.go\<close>), the keys of
  the operator's file (\<open>keyring.go\<close>), the revocation lease (\<open>revocation.go\<close>), minting and verifying
  workload tokens (\<open>workload.go\<close>), the policy authorizer and the decision shown to a caller
  (\<open>policy.go\<close>, \<open>authorize.go\<close>, \<open>context.go\<close>).

  The JWT library is a parameter (\<open>jwt_lib\<close>): reading the protected headers of a token, verifying its
  signature and parsing its claims, checking the registered claims and signing. Times are integers in
  nanoseconds; the zero time of a key that does not expire is \<open>None\<close>. A mutex is the atomicity of an
  operation.
\<close>

definition second :: int where "second = 1000000000"
definition max_token_age :: int where "max_token_age = 300 * second"
definition max_clock_skew :: int where "max_clock_skew = 30 * second"

subsection \<open>Signing keys\<close>

record signing_key =
  sk_kid :: string
  sk_algorithm :: string
  sk_private :: string
  sk_public :: string
  sk_not_after :: "int option"

record key_set =
  ks_current :: signing_key
  ks_keys :: "(string \<times> signing_key) list"

definition valid_signing_key :: "signing_key \<Rightarrow> bool \<Rightarrow> bool" where
  "valid_signing_key k need_private \<longleftrightarrow> sk_kid k \<noteq> [] \<and> sk_algorithm k = ''EdDSA'' \<and> length (sk_public k) = 32
     \<and> (need_private \<longrightarrow> length (sk_private k) = 64)"

definition new_key_set :: "signing_key \<Rightarrow> key_set option" where
  "new_key_set k = (if valid_signing_key k True then Some \<lparr>ks_current = k, ks_keys = [(sk_kid k, k)]\<rparr> else None)"

text \<open>\<open>Rotate\<close> at a time; \<open>None\<close> is an error, which changes nothing.\<close>

definition retire :: "int \<Rightarrow> signing_key \<Rightarrow> (string \<times> signing_key) list \<Rightarrow> (string \<times> signing_key) list" where
  "retire due prev keys =
     (case sk_not_after prev of
        Some t \<Rightarrow> if due < t then AList.update (sk_kid prev) (prev\<lparr>sk_not_after := Some due\<rparr>) keys else keys
      | None \<Rightarrow> AList.update (sk_kid prev) (prev\<lparr>sk_not_after := Some due\<rparr>) keys)"

definition rotate_key :: "int \<Rightarrow> signing_key \<Rightarrow> key_set \<Rightarrow> key_set option" where
  "rotate_key now k ks =
     (if \<not> valid_signing_key k True then None
      else if sk_kid k = sk_kid (ks_current ks) \<and> k = ks_current ks then Some ks
      else if map_of (ks_keys ks) (sk_kid k) \<noteq> None then None
      else let keys = (if sk_kid (ks_current ks) \<noteq> sk_kid k
             then retire (now + (max_token_age + max_clock_skew)) (ks_current ks) (ks_keys ks) else ks_keys ks) in
        Some \<lparr>ks_current = k, ks_keys = AList.update (sk_kid k) k keys\<rparr>)"

definition current_key :: "key_set \<Rightarrow> signing_key option" where
  "current_key ks = (if sk_private (ks_current ks) = [] then None else Some (ks_current ks))"

definition verify_key :: "string \<Rightarrow> int \<Rightarrow> key_set \<Rightarrow> signing_key option" where
  "verify_key kid now ks = (case map_of (ks_keys ks) kid of
       None \<Rightarrow> None
     | Some k \<Rightarrow>
         if sk_algorithm k \<noteq> ''EdDSA'' \<or> length (sk_public k) \<noteq> 32 then None
         else case sk_not_after k of
           Some t \<Rightarrow> if now < t then Some k else None
         | None \<Rightarrow> Some k)"

text \<open>\<open>VerificationKeys\<close>: what the JWKS endpoint publishes, the current key first; the order of the
  others is that of the map's iteration.\<close>

record verification_key =
  vk_kid :: string
  vk_algorithm :: string
  vk_public :: string
  vk_not_after :: "int option"

definition public_half :: "signing_key \<Rightarrow> verification_key" where
  "public_half k = \<lparr>vk_kid = sk_kid k, vk_algorithm = sk_algorithm k, vk_public = sk_public k, vk_not_after = sk_not_after k\<rparr>"

definition verification_keys :: "int \<Rightarrow> key_set \<Rightarrow> verification_key list" where
  "verification_keys now ks = public_half (ks_current ks) # map (public_half \<circ> snd)
     (filter (\<lambda>(kid, k). kid \<noteq> sk_kid (ks_current ks) \<and> (case sk_not_after k of Some t \<Rightarrow> now < t | None \<Rightarrow> True)) (ks_keys ks))"

subsection \<open>The operator's key file\<close>

text \<open>The JSON value of the file with its object keys in order. \<open>rejectDuplicateJSONFields\<close> walks it:
  every key is in lower case and no two keys of an object are equal up to case.\<close>

datatype json_walk = Walk_scalar | Walk_array "json_walk list" | Walk_object "(string \<times> json_walk) list"

fun fresh_keys :: "(string \<Rightarrow> string \<Rightarrow> bool) \<Rightarrow> string list \<Rightarrow> string list \<Rightarrow> bool" where
  "fresh_keys same_fold seen [] = True"
| "fresh_keys same_fold seen (k # ks) = (\<not> list_ex (\<lambda>p. same_fold p k) seen \<and> fresh_keys same_fold (k # seen) ks)"

fun walk_ok :: "(nat \<Rightarrow> nat) \<Rightarrow> (string \<Rightarrow> string \<Rightarrow> bool) \<Rightarrow> json_walk \<Rightarrow> bool" where
  "walk_ok ul same_fold Walk_scalar = True"
| "walk_ok ul same_fold (Walk_array vs) = list_all (walk_ok ul same_fold) vs"
| "walk_ok ul same_fold (Walk_object ms) = (list_all (\<lambda>k. go_tolower ul k = k) (map fst ms) \<and> fresh_keys same_fold [] (map fst ms)
     \<and> list_all (walk_ok ul same_fold) (map snd ms))"

record key_config =
  kc_kid :: string
  kc_algorithm :: string
  kc_private :: string
  kc_public :: string

record retired_config =
  rc_kid :: string
  rc_algorithm :: string
  rc_public :: string
  rc_retired_at :: "int option"

record key_set_config =
  kc_current :: key_config
  kc_retired :: "retired_config list"

text \<open>The retired keys of the file, one after another.\<close>

fun load_retired :: "int \<Rightarrow> string \<Rightarrow> retired_config list \<Rightarrow> (string \<times> signing_key) list \<Rightarrow> (string \<times> signing_key) list option" where
  "load_retired now cur [] keys = Some keys"
| "load_retired now cur (r # rs) keys =
     (if rc_kid r = [] \<or> rc_kid r = cur \<or> rc_algorithm r \<noteq> ''EdDSA'' \<or> length (rc_public r) \<noteq> 32 \<or> rc_retired_at r = None
         \<or> now + (max_token_age + max_clock_skew) < the (rc_retired_at r) then None
      else if map_of keys (rc_kid r) \<noteq> None then None
      else load_retired now cur rs (AList.update (rc_kid r)
        \<lparr>sk_kid = rc_kid r, sk_algorithm = rc_algorithm r, sk_private = [], sk_public = rc_public r, sk_not_after = rc_retired_at r\<rparr> keys))"

text \<open>\<open>LoadKeySet\<close>, with the decoders and the derivation of a key pair from its seed as parameters;
  \<open>derive\<close> gives the 64 bytes of the private key, whose second half is the public key.\<close>

definition load_key_set :: "(nat \<Rightarrow> nat) \<Rightarrow> (string \<Rightarrow> string \<Rightarrow> bool) \<Rightarrow> (string \<Rightarrow> json_walk option) \<Rightarrow> (string \<Rightarrow> key_set_config option)
    \<Rightarrow> (string \<Rightarrow> string) \<Rightarrow> int \<Rightarrow> string \<Rightarrow> key_set option" where
  "load_key_set ul same_fold tokens decode derive now data =
     (case tokens data of None \<Rightarrow> None
      | Some w \<Rightarrow>
          if \<not> walk_ok ul same_fold w then None
          else case decode data of None \<Rightarrow> None
            | Some cfg \<Rightarrow>
                let c = kc_current cfg; d = derive (take 32 (kc_private c)) in
                if kc_algorithm c \<noteq> ''EdDSA'' \<or> kc_kid c = [] \<or> length (kc_private c) \<noteq> 64 \<or> length (kc_public c) \<noteq> 32 then None
                else if kc_private c \<noteq> d \<or> drop 32 d \<noteq> kc_public c then None
                else case new_key_set \<lparr>sk_kid = kc_kid c, sk_algorithm = kc_algorithm c, sk_private = kc_private c,
                       sk_public = kc_public c, sk_not_after = None\<rparr> of
                  None \<Rightarrow> None
                | Some ks \<Rightarrow> map_option (\<lambda>keys. ks\<lparr>ks_keys := keys\<rparr>)
                    (load_retired now (kc_kid c) (kc_retired cfg) (ks_keys ks)))"

subsection \<open>The revocation lease\<close>

type_synonym lease = "string \<rightharpoonup> int"

definition new_lease :: "int \<Rightarrow> int option" where
  "new_lease ttl = (if ttl \<le> 0 \<or> max_token_age < ttl then None else Some ttl)"

definition lease_revoke :: "int \<Rightarrow> string \<Rightarrow> int \<Rightarrow> int \<Rightarrow> lease \<Rightarrow> lease" where
  "lease_revoke ttl jti expires now m =
     (let until = (if now + ttl < expires then expires else now + ttl);
          until = (case m jti of Some p \<Rightarrow> if until < p then p else until | None \<Rightarrow> until) in
      m(jti \<mapsto> until))"

definition is_revoked :: "lease \<Rightarrow> string \<Rightarrow> int \<Rightarrow> bool" where
  "is_revoked m jti now = (case m jti of Some u \<Rightarrow> now < u | None \<Rightarrow> False)"

end
