(* ===== verification/Workload.thy ===== *)
theory Workload
  imports Identity CatalogTypes Complex_Main
begin

text \<open>
  Workload tokens (\<open>hosted/internal/identity/workload.go\<close>) and the decision shown to a caller
  (\<open>policy.go\<close>, \<open>authorize.go\<close>, \<open>context.go\<close>). The online policy oracle is a function; \<open>None\<close> is its
  error. The private claims of a token are a map to the dynamic values the library hands out.
\<close>

definition scopes_within :: "string list \<Rightarrow> string list \<Rightarrow> bool" where
  "scopes_within have want \<longleftrightarrow> list_all (\<lambda>s. s \<in> set have) want"

lemma scopes_within_iff [simp]: "scopes_within have want \<longleftrightarrow> set want \<subseteq> set have"
  by (auto simp: scopes_within_def list_all_iff)

definition normalize_scopes :: "string list \<Rightarrow> string list" where
  "normalize_scopes scopes = sort scopes"

lemma set_normalize_scopes [simp]: "set (normalize_scopes xs) = set xs"
  by (simp add: normalize_scopes_def)

lemma normalize_scopes_idem [simp]: "normalize_scopes (normalize_scopes xs) = normalize_scopes xs"
  unfolding normalize_scopes_def by (rule sorted_sort_id) (rule sorted_sort)

subsection \<open>Tokens\<close>

datatype claim_value = Claim_string string | Claim_strings "string list" | Claim_array "claim_value list"
  | Claim_uint nat | Claim_int int | Claim_float rat | Claim_other

record jwt_token =
  jw_issuer :: string
  jw_subject :: string
  jw_audience :: "string list"
  jw_id :: string
  jw_issued :: int
  jw_not_before :: int
  jw_expires :: int
  jw_private :: "string \<rightharpoonup> claim_value"

datatype jwt_verdict = Jwt_valid | Jwt_time_error | Jwt_claims_error

record jwt_lib =
  jl_headers :: "string \<Rightarrow> (string \<times> string) list option"
  jl_parse :: "string \<Rightarrow> string \<Rightarrow> string \<Rightarrow> jwt_token option"
  jl_validate :: "string \<Rightarrow> string \<Rightarrow> int \<Rightarrow> int \<Rightarrow> jwt_token \<Rightarrow> jwt_verdict"
  jl_sign :: "signing_key \<Rightarrow> jwt_token \<Rightarrow> string option"

record workload_policy =
  wp_allowed :: bool
  wp_generation :: nat
  wp_parent_subject :: string
  wp_parent_scopes :: "string list"
  wp_revoked :: bool

type_synonym policy_store = "string \<Rightarrow> string \<Rightarrow> string list \<Rightarrow> nat \<Rightarrow> workload_policy option"

record workload_request =
  wq_subject :: string
  wq_workspace :: string
  wq_scopes :: "string list"
  wq_parent_subject :: string
  wq_parent_scopes :: "string list"
  wq_ttl :: int
  wq_subject_type :: string

record issuer_config =
  ic_issuer :: string
  ic_audience :: string
  ic_max_ttl :: int
  ic_lib :: jwt_lib

record verified_token =
  vt_principal :: principal_rec
  vt_id :: string
  vt_expires :: int
  vt_parent_subject :: string
  vt_parent_scopes :: "string list"

datatype auth_error = Unauthorized | Expired | Replayed | Revoked | Policy_failed | Auth_failed string

definition new_issuer :: "issuer_config \<Rightarrow> issuer_config option" where
  "new_issuer c = (if ic_issuer c = [] \<or> ic_audience c = [] then None
     else Some (if ic_max_ttl c \<le> 0 \<or> max_token_age < ic_max_ttl c then c\<lparr>ic_max_ttl := max_token_age\<rparr> else c))"

subsection \<open>Minting\<close>

definition subject_type_of :: "string \<Rightarrow> string option" where
  "subject_type_of t = (if t = [] then Some ''workload'' else if t = ''workload'' \<or> t = ''human'' then Some t else None)"

definition build_token :: "issuer_config \<Rightarrow> workload_request \<Rightarrow> string \<Rightarrow> workload_policy \<Rightarrow> string \<Rightarrow> int \<Rightarrow> jwt_token" where
  "build_token c q st p jti now0 =
     (let now = now0 - now0 mod second;
          ttl = (if wq_ttl q \<le> 0 \<or> ic_max_ttl c < wq_ttl q then ic_max_ttl c else wq_ttl q) in
      \<lparr>jw_issuer = ic_issuer c, jw_subject = wq_subject q, jw_audience = [ic_audience c], jw_id = jti, jw_issued = now,
       jw_not_before = now, jw_expires = now + ttl,
       jw_private = [''workspace_id'' \<mapsto> Claim_string (wq_workspace q), ''scopes'' \<mapsto> Claim_strings (normalize_scopes (wq_scopes q)),
         ''policy_generation'' \<mapsto> Claim_uint (wp_generation p),
         ''parent_sub'' \<mapsto> Claim_string (if wq_parent_subject q = [] then wq_subject q else wq_parent_subject q),
         ''parent_scopes'' \<mapsto> Claim_strings (normalize_scopes (wp_parent_scopes p)), ''subject_type'' \<mapsto> Claim_string st]\<rparr>)"

definition mint :: "issuer_config \<Rightarrow> policy_store \<Rightarrow> key_set \<Rightarrow> string option \<Rightarrow> int \<Rightarrow> workload_request \<Rightarrow> auth_error + string" where
  "mint c check ks rnd now q =
     (if wq_subject q = [] \<or> wq_workspace q = [] \<or> wq_scopes q = [] then Inl Unauthorized
      else if \<not> scopes_within (if wq_parent_scopes q = [] then wq_scopes q else wq_parent_scopes q) (wq_scopes q) then Inl Unauthorized
      else case subject_type_of (wq_subject_type q) of
        None \<Rightarrow> Inl Unauthorized
      | Some st \<Rightarrow>
          (case check (wq_subject q) (wq_workspace q) (wq_scopes q) 0 of
             None \<Rightarrow> Inl Policy_failed
           | Some p \<Rightarrow>
               if \<not> wp_allowed p \<or> wp_revoked p \<or> wp_parent_scopes p = [] \<or> \<not> scopes_within (wp_parent_scopes p) (wq_scopes q)
               then Inl Unauthorized
               else case rnd of
                 None \<Rightarrow> Inl (Auth_failed ''generate workload token id'')
               | Some b \<Rightarrow>
                   (case current_key ks of
                      None \<Rightarrow> Inl (Auth_failed ''load workload signing key'')
                    | Some k \<Rightarrow>
                        (case jl_sign (ic_lib c) k (build_token c q st p (b64_encode b) now) of
                           None \<Rightarrow> Inl (Auth_failed ''sign workload token'')
                         | Some raw \<Rightarrow> Inr raw))))"

subsection \<open>Verifying\<close>

text \<open>\<open>tokenKeyID\<close>: one signature, with the algorithm EdDSA and a key id.\<close>

definition token_key_id :: "jwt_lib \<Rightarrow> string \<Rightarrow> string option" where
  "token_key_id lib raw = (case jl_headers lib raw of
       Some [(alg, kid)] \<Rightarrow> if alg \<noteq> ''EdDSA'' \<or> kid = [] then None else Some kid
     | _ \<Rightarrow> None)"

fun claim_items :: "claim_value list \<Rightarrow> string list option" where
  "claim_items [] = Some []"
| "claim_items (Claim_string s # vs) = (if s = [] then None else map_option ((#) s) (claim_items vs))"
| "claim_items (_ # vs) = None"

definition claim_strings :: "jwt_token \<Rightarrow> string \<Rightarrow> string list option" where
  "claim_strings t n = (case jw_private t n of
       Some (Claim_strings ss) \<Rightarrow> Some ss | Some (Claim_array vs) \<Rightarrow> claim_items vs | _ \<Rightarrow> None)"

definition claim_string :: "jwt_token \<Rightarrow> string \<Rightarrow> string option" where
  "claim_string t n = (case jw_private t n of
       Some (Claim_string s) \<Rightarrow> if s = [] then None else Some s | _ \<Rightarrow> None)"

definition claim_generation :: "jwt_token \<Rightarrow> nat option" where
  "claim_generation t = (case jw_private t ''policy_generation'' of
       Some (Claim_uint n) \<Rightarrow> Some n
     | Some (Claim_int i) \<Rightarrow> Some (if 0 \<le> i then nat i else 0)
     | Some (Claim_float x) \<Rightarrow> Some (if 0 \<le> x then nat \<lfloor>x\<rfloor> else 0)
     | _ \<Rightarrow> None)"

definition private_claims :: "jwt_token \<Rightarrow> (string \<times> string list \<times> nat \<times> string \<times> string list) option" where
  "private_claims t =
     do { ws \<leftarrow> claim_string t ''workspace_id''; scopes \<leftarrow> claim_strings t ''scopes'';
          parent_scopes \<leftarrow> claim_strings t ''parent_scopes''; parent \<leftarrow> claim_string t ''parent_sub'';
          generation \<leftarrow> claim_generation t; Some (ws, scopes, generation, parent, parent_scopes) }"

definition subject_type_claim :: "jwt_token \<Rightarrow> string option" where
  "subject_type_claim t = (case jw_private t ''subject_type'' of
       None \<Rightarrow> Some ''workload''
     | Some (Claim_string s) \<Rightarrow> if s = ''workload'' \<or> s = ''human'' then Some s else None
     | _ \<Rightarrow> None)"

text \<open>The checks of \<open>Verify\<close> on a parsed token; \<open>now\<close> is the reading at the start, \<open>leased\<close> the state of
  the lease if one is configured.\<close>

definition verify_claims :: "issuer_config \<Rightarrow> policy_store \<Rightarrow> lease option \<Rightarrow> int \<Rightarrow> jwt_token \<Rightarrow> auth_error + verified_token" where
  "verify_claims c check leased now t =
     (case private_claims t of
        None \<Rightarrow> Inl Unauthorized
      | Some (ws, scopes, generation, parent, parent_scopes) \<Rightarrow>
          if jw_subject t = [] \<or> jw_id t = [] \<or> generation = 0 then Inl Unauthorized
          else if \<not> scopes_within parent_scopes scopes \<or> parent = [] then Inl Unauthorized
          else if (case leased of Some m \<Rightarrow> is_revoked m (jw_id t) now | None \<Rightarrow> False) then Inl Replayed
          else if ic_max_ttl c + max_clock_skew < jw_expires t - jw_issued t then Inl Expired
          else case check (jw_subject t) ws scopes generation of
            None \<Rightarrow> Inl Policy_failed
          | Some p \<Rightarrow>
              if \<not> wp_allowed p \<or> wp_revoked p \<or> wp_generation p \<noteq> generation then Inl Revoked
              else case subject_type_claim t of
                None \<Rightarrow> Inl Unauthorized
              | Some st \<Rightarrow> Inr \<lparr>vt_principal = \<lparr>pn_issuer = jw_issuer t, pn_subject = jw_subject t, pn_audience = hd (jw_audience t),
                    pn_workspace = ws, pn_scopes = normalize_scopes scopes, pn_generation = generation, pn_subject_type = st\<rparr>,
                  vt_id = jw_id t, vt_expires = jw_expires t, vt_parent_subject = parent, vt_parent_scopes = normalize_scopes parent_scopes\<rparr>)"

definition verify :: "issuer_config \<Rightarrow> policy_store \<Rightarrow> lease option \<Rightarrow> key_set \<Rightarrow> int \<Rightarrow> int \<Rightarrow> string \<Rightarrow> auth_error + verified_token" where
  "verify c check leased ks now now2 raw =
     (if raw = [] then Inl Unauthorized
      else case token_key_id (ic_lib c) raw of
        None \<Rightarrow> Inl Unauthorized
      | Some kid \<Rightarrow>
          (case verify_key kid now ks of
             None \<Rightarrow> Inl Unauthorized
           | Some k \<Rightarrow>
               (case jl_parse (ic_lib c) (sk_public k) kid raw of
                  None \<Rightarrow> Inl Unauthorized
                | Some t \<Rightarrow>
                    (case jl_validate (ic_lib c) (ic_issuer c) (ic_audience c) max_clock_skew now2 t of
                       Jwt_time_error \<Rightarrow> Inl Expired
                     | Jwt_claims_error \<Rightarrow> Inl Unauthorized
                     | Jwt_valid \<Rightarrow> verify_claims c check leased now t))))"

subsection \<open>Authorization\<close>

record authorization =
  az_allowed :: bool
  az_status :: nat
  az_code :: string
  az_reason :: string
  az_principal :: principal_rec

type_synonym policy_authorizer = "principal_rec \<Rightarrow> string \<Rightarrow> artifact_ref option \<Rightarrow> decision option"

text \<open>\<open>Authorizer.Decide\<close> of \<open>policy.go\<close>: \<open>Inl\<close> with the status of the decision returned beside an error.\<close>

definition policy_decide :: "policy_authorizer \<Rightarrow> principal_rec \<Rightarrow> string \<Rightarrow> artifact_ref option \<Rightarrow> nat + decision" where
  "policy_decide store p action ref =
     (if pn_issuer p = [] \<or> pn_subject p = [] \<or> pn_audience p = [] \<or> pn_workspace p = [] \<or> pn_generation p = 0 then Inl 401
      else case store p action ref of None \<Rightarrow> Inl 503 | Some d \<Rightarrow> Inr d)"

definition denied :: "nat \<Rightarrow> string \<Rightarrow> string \<Rightarrow> principal_rec \<Rightarrow> authorization" where
  "denied st code reason p = \<lparr>az_allowed = False, az_status = st, az_code = code, az_reason = reason, az_principal = p\<rparr>"

definition private_deny :: "principal_rec \<Rightarrow> authorization" where
  "private_deny p = denied 404 ''not_found'' ''not found'' p"

definition authorize_request :: "principal_rec \<Rightarrow> policy_authorizer option \<Rightarrow> string \<Rightarrow> artifact_ref option \<Rightarrow> authorization" where
  "authorize_request p policy action ref =
     (if pn_subject p = [] then denied 401 ''unauthorized'' ''authentication required'' p
      else case policy of
        None \<Rightarrow> denied 503 ''service_unavailable'' ''authorization unavailable'' p
      | Some store \<Rightarrow>
          if (case ref of Some r \<Rightarrow> ar_workspace r \<noteq> [] \<and> ar_workspace r \<noteq> pn_workspace p | None \<Rightarrow> False) then private_deny p
          else case policy_decide store p action ref of
            Inl st \<Rightarrow> if st = 401 then denied 401 ''unauthorized'' ''authentication required'' p
                      else denied 503 ''service_unavailable'' ''authorization unavailable'' p
          | Inr d \<Rightarrow>
              if dc_allowed d then \<lparr>az_allowed = True, az_status = 200, az_code = [], az_reason = [], az_principal = p\<rparr>
              else if dc_status d = 403 then denied 403 ''forbidden'' ''forbidden'' p
              else private_deny p)"

definition require_scope :: "principal_rec \<Rightarrow> string \<Rightarrow> bool" where
  "require_scope p s \<longleftrightarrow> list_ex (\<lambda>x. x = s) (pn_scopes p)"

end
