(* ===== verification/OAuthServer.thy ===== *)
theory OAuthServer
  imports OAuthStore Workload
begin

text \<open>
  The token and revocation endpoints of the reference authorization server:
  \<open>hosted/internal/oauth/server.go\<close> (credentials and scopes), \<open>token.go\<close>, \<open>refresh.go\<close> and
  \<open>revoke.go\<close>.

  A request is what the handler reads of it: two headers, the raw query and the parsed form (\<open>None\<close>
  when \<open>ParseForm\<close> fails). \<open>token_env\<close> is everything else a request meets: the readings of the clock,
  random bytes (\<open>None\<close> when the source fails), SHA-256, the access minter, what the database decides in
  each of the three store calls, and what other requests do to the store between them. Times and
  durations are integers in nanoseconds.
\<close>

subsection \<open>Scopes\<close>

text \<open>\<open>validScopeToken\<close>: the runes of RFC 6749 section 3.3.\<close>

definition valid_scope_token :: "string \<Rightarrow> bool" where
  "valid_scope_token s \<longleftrightarrow> s \<noteq> [] \<and> length s \<le> 128
     \<and> (\<forall>(c, b) \<in> set (go_runes s). 33 \<le> c \<and> c \<le> 126 \<and> c \<noteq> 34 \<and> c \<noteq> 92)"

fun parse_scope_loop :: "string list \<Rightarrow> string list \<Rightarrow> string list option" where
  "parse_scope_loop [] out = Some out"
| "parse_scope_loop (s # ss) out =
     (if s = [] then parse_scope_loop ss out
      else if \<not> valid_scope_token s then None
      else parse_scope_loop ss (if s \<in> set out then out else out @ [s]))"

definition parse_scope :: "string \<Rightarrow> string list option" where
  "parse_scope raw = parse_scope_loop (go_split raw '' '') []"

definition contains_all :: "string list \<Rightarrow> string list \<Rightarrow> bool" where
  "contains_all have want \<longleftrightarrow> list_all (\<lambda>s. s \<in> set have) want"

definition contains_str :: "string list \<Rightarrow> string \<Rightarrow> bool" where
  "contains_str xs v \<longleftrightarrow> list_ex (\<lambda>s. s = v) xs"

lemma contains_all_iff: "contains_all have want \<longleftrightarrow> set want \<subseteq> set have"
  by (auto simp: contains_all_def list_all_iff)

lemma contains_str_iff [simp]: "contains_str xs v \<longleftrightarrow> v \<in> set xs"
  by (auto simp: contains_str_def list_ex_iff)

lemma parse_scope_loop_sound:
  "parse_scope_loop ss out = Some res \<Longrightarrow> distinct out \<Longrightarrow> list_all valid_scope_token out
    \<Longrightarrow> distinct res \<and> list_all valid_scope_token res \<and> set res = set out \<union> {s \<in> set ss. s \<noteq> []}"
  by (induction ss out rule: parse_scope_loop.induct) (auto split: if_splits)

subsection \<open>Opaque credentials\<close>

text \<open>\<open>newOpaque\<close> and \<open>parseOpaque\<close>: a prefix, the workspace and 32 random bytes.\<close>

definition new_opaque :: "string \<Rightarrow> string \<Rightarrow> string option \<Rightarrow> string option" where
  "new_opaque pre ws rnd = (case rnd of None \<Rightarrow> None
     | Some b \<Rightarrow> Some (pre @ ''.'' @ b64_encode ws @ ''.'' @ b64_encode b))"

definition parse_opaque :: "string \<Rightarrow> string \<Rightarrow> string option" where
  "parse_opaque pre raw = (case go_split raw ''.'' of
       [p, w, r] \<Rightarrow>
         if p \<noteq> pre \<or> length r \<noteq> 43 then None
         else (case b64_decode w of None \<Rightarrow> None
           | Some ws \<Rightarrow> if length ws = 0 \<or> length ws > 256 then None else Some ws)
     | _ \<Rightarrow> None)"

definition code_prefix :: string where "code_prefix = ''gc1''"
definition refresh_prefix :: string where "refresh_prefix = ''gr1''"

lemma prefix_no_dot [simp]: "CHR ''.'' \<notin> set code_prefix" "CHR ''.'' \<notin> set refresh_prefix"
  by (simp_all add: code_prefix_def refresh_prefix_def)

lemma parse_opaque_new:
  assumes "CHR ''.'' \<notin> set pre" and "length b = 32" and "new_opaque pre ws (Some b) = Some raw"
  shows "parse_opaque pre raw = (if ws \<noteq> [] \<and> length ws \<le> 256 then Some ws else None)"
proof -
  have "go_split raw ''.'' = [pre, b64_encode ws, b64_encode b]"
    using assms go_split_single [OF assms(1), of "b64_encode ws @ ''.'' @ b64_encode b"]
      go_split_single [OF b64_encode_no_dot [of ws], of "b64_encode b"] go_split_none [OF b64_encode_no_dot [of b]]
    by (simp add: new_opaque_def)
  then show ?thesis using assms(2) by (simp add: parse_opaque_def length_b64_encode_32)
qed

subsection \<open>Requests\<close>

type_synonym form_values = "(string \<times> string list) list"

definition form_get :: "form_values \<Rightarrow> string \<Rightarrow> string" where
  "form_get f k = (case map_of f k of Some (v # vs) \<Rightarrow> v | _ \<Rightarrow> [])"

definition form_has :: "form_values \<Rightarrow> string \<Rightarrow> bool" where
  "form_has f k \<longleftrightarrow> map_of f k \<noteq> None"

record token_post =
  tp_content_type :: string
  tp_form :: "form_values option"
  tp_query :: string
  tp_authorization :: string

record access_token =
  at_token :: string
  at_expires :: int

record token_response =
  tr_access :: string
  tr_type :: string
  tr_expires_in :: int
  tr_refresh :: string
  tr_scope :: string

record server_config =
  sv_issuer :: string
  sv_resources :: "string list"
  sv_scopes :: "string list"
  sv_login :: string
  sv_code_ttl :: int
  sv_refresh_ttl :: int
  sv_consent_ttl :: int

record token_env =
  te_fold :: "nat \<Rightarrow> nat"
  te_now :: int
  te_now_response :: int
  te_random :: "string option"
  te_sha :: "string \<Rightarrow> string"
  te_mint :: "string \<Rightarrow> workload_request \<Rightarrow> access_token option"
  te_client :: db_env
  te_store :: db_env
  te_revoke :: db_env
  te_before :: "oauth_db \<Rightarrow> oauth_db"
  te_between :: "oauth_db \<Rightarrow> oauth_db"

definition resource_allowed :: "server_config \<Rightarrow> string \<Rightarrow> bool" where
  "resource_allowed cfg r \<longleftrightarrow> list_ex (\<lambda>x. x = r) (sv_resources cfg)"

definition grant_err :: "nat \<Rightarrow> string \<Rightarrow> string \<Rightarrow> grant_error" where
  "grant_err st c d = \<lparr>ge_status = st, ge_code = c, ge_description = d\<rparr>"

definition invalid_grant :: "string \<Rightarrow> grant_error" where
  "invalid_grant d = grant_err 400 ''invalid_grant'' d"

definition unavailable :: grant_error where
  "unavailable = grant_err 503 ''temporarily_unavailable'' []"

text \<open>\<open>tokenRequest\<close>: the form and the registered public client.\<close>

definition token_request :: "token_env \<Rightarrow> token_post \<Rightarrow> oauth_db \<Rightarrow> grant_error + form_values \<times> oauth_client" where
  "token_request e r db =
     (if \<not> go_has_prefix (go_tolower (te_fold e) (tp_content_type r)) ''application/x-www-form-urlencoded''
      then Inl (grant_err 400 ''invalid_request'' ''requests must be application/x-www-form-urlencoded'')
      else case tp_form r of
        None \<Rightarrow> Inl (grant_err 400 ''invalid_request'' ''malformed form body'')
      | Some f \<Rightarrow>
          if tp_query r \<noteq> [] then Inl (grant_err 400 ''invalid_request'' ''parameters must be sent in the request body'')
          else case find (\<lambda>(k, vs). length vs > 1) f of
            Some (k, vs) \<Rightarrow> Inl (grant_err 400 ''invalid_request'' (''the request repeats '' @ k))
          | None \<Rightarrow>
              if tp_authorization r \<noteq> []
              then Inl (grant_err 401 ''invalid_client'' ''only public clients (token_endpoint_auth_method=none) are supported'')
              else if form_get f ''client_id'' = [] then Inl (grant_err 401 ''invalid_client'' ''client_id is required'')
              else (case get_client (te_client e) (form_get f ''client_id'') db :: grant_error grant_store_error + oauth_client of
                  Inl Not_found \<Rightarrow> Inl (grant_err 401 ''invalid_client'' ''unknown client'')
                | Inl _ \<Rightarrow> Inl unavailable
                | Inr c \<Rightarrow> Inr (f, c)))"

subsection \<open>The code grant\<close>

definition is_unreserved :: "char \<Rightarrow> bool" where
  "is_unreserved c \<longleftrightarrow> is_b64_char c \<or> c = CHR ''.'' \<or> c = CHR ''~''"

text \<open>\<open>verifierPattern\<close>.\<close>

definition verifier_ok :: "string \<Rightarrow> bool" where
  "verifier_ok v \<longleftrightarrow> 43 \<le> length v \<and> length v \<le> 128 \<and> list_all is_unreserved v"

definition pkce_matches :: "(string \<Rightarrow> string) \<Rightarrow> string \<Rightarrow> string \<Rightarrow> bool" where
  "pkce_matches sha v challenge \<longleftrightarrow> b64_encode (sha v) = challenge"

text \<open>\<open>Duration.Round\<close>: to the nearest multiple, halves away from zero.\<close>

definition duration_round :: "int \<Rightarrow> int \<Rightarrow> int" where
  "duration_round d m =
     (if d < 0 then let r = (- d) mod m in if r + r < m then d + r else d + r - m
      else let r = d mod m in if r + r < m then d - r else d + m - r)"

definition make_token_response :: "int \<Rightarrow> access_token \<Rightarrow> string \<Rightarrow> string list \<Rightarrow> token_response" where
  "make_token_response now a refresh scopes =
     \<lparr>tr_access = at_token a, tr_type = ''Bearer'',
      tr_expires_in = max 0 (duration_round (at_expires a - now) second div second),
      tr_refresh = refresh, tr_scope = go_join scopes '' ''\<rparr>"

definition mint_access :: "token_env \<Rightarrow> string \<Rightarrow> string \<Rightarrow> string \<Rightarrow> string list \<Rightarrow> grant_error + access_token" where
  "mint_access e resource subject ws scopes =
     (case te_mint e resource \<lparr>wq_subject = subject, wq_workspace = ws, wq_scopes = scopes,
          wq_parent_subject = [], wq_parent_scopes = [], wq_ttl = 0, wq_subject_type = ''human''\<rparr> of
        None \<Rightarrow> Inl (invalid_grant ''the grant is no longer authorized'')
      | Some a \<Rightarrow> Inr a)"

definition fresh_token :: "server_config \<Rightarrow> token_env \<Rightarrow> string \<Rightarrow> refresh_token" where
  "fresh_token cfg e raw = \<lparr>rt_hash = te_sha e raw, rt_issued = te_now e, rt_expires = te_now e + sv_refresh_ttl cfg\<rparr>"

text \<open>The check \<open>redeemCode\<close> passes to the store; it runs on the locked row.\<close>

definition code_check :: "token_env \<Rightarrow> form_values \<Rightarrow> oauth_client \<Rightarrow> string \<Rightarrow> auth_code \<Rightarrow> grant_error option" where
  "code_check e f cl ws c =
     (if ac_workspace c \<noteq> ws then Some (invalid_grant ''authorization code is invalid'')
      else if \<not> te_now e < ac_expires c then Some (invalid_grant ''authorization code expired'')
      else if ac_client c \<noteq> oc_id cl then Some (invalid_grant ''authorization code was issued to another client'')
      else if ac_redirect c \<noteq> form_get f ''redirect_uri''
      then Some (invalid_grant ''redirect_uri does not match the authorization request'')
      else if \<not> pkce_matches (te_sha e) (form_get f ''code_verifier'') (ac_challenge c)
      then Some (invalid_grant ''code_verifier does not match the code challenge'')
      else if form_has f ''resource'' \<and> form_get f ''resource'' \<noteq> ac_resource c
      then Some (grant_err 400 ''invalid_target'' ''resource does not match the authorization request'')
      else None)"

definition redeem_error :: "grant_error grant_store_error \<Rightarrow> grant_error" where
  "redeem_error x = (case x of
       Rejected g \<Rightarrow> g
     | Grant_reused \<Rightarrow> invalid_grant ''authorization code was already used; grants issued from it are revoked''
     | Not_found \<Rightarrow> invalid_grant ''authorization code is invalid''
     | _ \<Rightarrow> unavailable)"

definition redeem_grant :: "server_config \<Rightarrow> token_env \<Rightarrow> form_values \<Rightarrow> oauth_client \<Rightarrow> oauth_db
    \<Rightarrow> (grant_error + token_response) \<times> oauth_db" where
  "redeem_grant cfg e f cl db =
     (let raw = form_get f ''code'' in
      if raw = [] \<or> form_get f ''redirect_uri'' = [] \<or> form_get f ''code_verifier'' = []
      then (Inl (grant_err 400 ''invalid_request'' ''code, redirect_uri and code_verifier are required''), db)
      else if \<not> verifier_ok (form_get f ''code_verifier'') then (Inl (invalid_grant ''code_verifier is malformed''), db)
      else if form_has f ''resource'' \<and> \<not> resource_allowed cfg (form_get f ''resource'')
      then (Inl (grant_err 400 ''invalid_target'' ''unknown resource''), db)
      else case parse_opaque code_prefix raw of
        None \<Rightarrow> (Inl (invalid_grant ''authorization code is invalid''), db)
      | Some ws \<Rightarrow>
          (case new_opaque refresh_prefix ws (te_random e) of
             None \<Rightarrow> (Inl (grant_err 500 ''server_error'' []), db)
           | Some refresh \<Rightarrow>
               (case redeem_code (te_store e) ws (te_sha e raw) (code_check e f cl ws) (fresh_token cfg e refresh) db of
                  (Inl x, db1) \<Rightarrow> (Inl (redeem_error x), db1)
                | (Inr (code, fam), db1) \<Rightarrow>
                    (case mint_access e (ac_resource code) (ac_subject code) (ac_workspace code) (ac_scopes code) of
                       Inl g \<Rightarrow> (Inl g, snd (revoke_family (te_revoke e) (ac_workspace code) fam (te_between e db1)
                                    :: (grant_error grant_store_error + unit) \<times> oauth_db))
                     | Inr a \<Rightarrow> (Inr (make_token_response (te_now_response e) a refresh (ac_scopes code)), db1)))))"

subsection \<open>The refresh grant\<close>

definition refresh_check :: "token_env \<Rightarrow> form_values \<Rightarrow> oauth_client \<Rightarrow> string \<Rightarrow> string list option
    \<Rightarrow> refresh_family \<Rightarrow> refresh_token \<Rightarrow> grant_error option" where
  "refresh_check e f cl ws requested fam t =
     (if rf_workspace fam \<noteq> ws then Some (invalid_grant ''refresh token is invalid'')
      else if rf_client fam \<noteq> oc_id cl then Some (invalid_grant ''refresh token was issued to another client'')
      else if \<not> te_now e < rt_expires t then Some (invalid_grant ''refresh token expired'')
      else if requested \<noteq> None \<and> \<not> contains_all (rf_scopes fam) (the requested)
      then Some (grant_err 400 ''invalid_scope'' ''requested scope exceeds the original grant'')
      else if form_has f ''resource'' \<and> form_get f ''resource'' \<noteq> rf_resource fam
      then Some (grant_err 400 ''invalid_target'' ''resource does not match the original grant'')
      else None)"

definition refresh_error :: "grant_error grant_store_error \<Rightarrow> grant_error" where
  "refresh_error x = (case x of
       Rejected g \<Rightarrow> g
     | Grant_reused \<Rightarrow> invalid_grant ''refresh token reuse detected; the grant is revoked''
     | Family_revoked \<Rightarrow> invalid_grant ''refresh token is invalid or revoked''
     | Not_found \<Rightarrow> invalid_grant ''refresh token is invalid or revoked''
     | Store_failed m \<Rightarrow> unavailable)"

text \<open>The scope parameter of a refresh: absent, malformed, or a non-empty list.\<close>

definition requested_scopes :: "form_values \<Rightarrow> grant_error + string list option" where
  "requested_scopes f =
     (if form_has f ''scope''
      then (case parse_scope (form_get f ''scope'') of
          None \<Rightarrow> Inl (grant_err 400 ''invalid_scope'' ''scope is malformed'')
        | Some [] \<Rightarrow> Inl (grant_err 400 ''invalid_scope'' ''scope is malformed'')
        | Some p \<Rightarrow> Inr (Some p))
      else Inr None)"

definition refresh_grant :: "server_config \<Rightarrow> token_env \<Rightarrow> form_values \<Rightarrow> oauth_client \<Rightarrow> oauth_db
    \<Rightarrow> (grant_error + token_response) \<times> oauth_db" where
  "refresh_grant cfg e f cl db =
     (let raw = form_get f ''refresh_token'' in
      if raw = [] then (Inl (grant_err 400 ''invalid_request'' ''refresh_token is required''), db)
      else case parse_opaque refresh_prefix raw of
        None \<Rightarrow> (Inl (invalid_grant ''refresh token is invalid''), db)
      | Some ws \<Rightarrow>
          (case requested_scopes f of
             Inl g \<Rightarrow> (Inl g, db)
           | Inr requested \<Rightarrow>
               if form_has f ''resource'' \<and> \<not> resource_allowed cfg (form_get f ''resource'')
               then (Inl (grant_err 400 ''invalid_target'' ''unknown resource''), db)
               else case new_opaque refresh_prefix ws (te_random e) of
                 None \<Rightarrow> (Inl (grant_err 500 ''server_error'' []), db)
               | Some nxt \<Rightarrow>
                   (case rotate_refresh (te_store e) ws (te_sha e raw) (refresh_check e f cl ws requested)
                        (fresh_token cfg e nxt) db of
                      (Inl x, db1) \<Rightarrow> (Inl (refresh_error x), db1)
                    | (Inr fam, db1) \<Rightarrow>
                        (let scopes = (case requested of None \<Rightarrow> rf_scopes fam | Some p \<Rightarrow> p) in
                         case mint_access e (rf_resource fam) (rf_subject fam) (rf_workspace fam) scopes of
                           Inl g \<Rightarrow> (Inl g, snd (revoke_family (te_revoke e) (rf_workspace fam) (rf_id fam) (te_between e db1)
                                        :: (grant_error grant_store_error + unit) \<times> oauth_db))
                         | Inr a \<Rightarrow> (Inr (make_token_response (te_now_response e) a nxt scopes), db1)))))"

subsection \<open>The endpoints\<close>

text \<open>\<open>handleToken\<close>; \<open>te_before\<close> is what other requests do between the look-up of the client and the
  store transaction.\<close>

definition handle_token :: "server_config \<Rightarrow> token_env \<Rightarrow> token_post \<Rightarrow> oauth_db \<Rightarrow> (grant_error + token_response) \<times> oauth_db" where
  "handle_token cfg e r db =
     (case token_request e r db of
        Inl g \<Rightarrow> (Inl g, db)
      | Inr (f, cl) \<Rightarrow>
          (let t = form_get f ''grant_type'' in
           if t = ''authorization_code'' then redeem_grant cfg e f cl (te_before e db)
           else if t = ''refresh_token'' then refresh_grant cfg e f cl (te_before e db)
           else if t = [] then (Inl (grant_err 400 ''invalid_request'' ''grant_type is required''), db)
           else (Inl (grant_err 400 ''unsupported_grant_type'' ''grant_type is not supported''), db)))"

text \<open>\<open>handleRevoke\<close>: the error it writes, or an empty object.\<close>

definition handle_revoke :: "token_env \<Rightarrow> token_post \<Rightarrow> oauth_db \<Rightarrow> (grant_error + unit) \<times> oauth_db" where
  "handle_revoke e r db =
     (case token_request e r db of
        Inl g \<Rightarrow> (Inl g, db)
      | Inr (f, cl) \<Rightarrow>
          (let raw = form_get f ''token'' in
           if raw = [] then (Inl (grant_err 400 ''invalid_request'' ''token is required''), db)
           else case parse_opaque refresh_prefix raw of
             None \<Rightarrow>
               if form_get f ''token_type_hint'' = ''access_token''
                  \<or> (\<not> go_has_prefix raw (refresh_prefix @ ''.'') \<and> count_list raw CHR ''.'' = 2)
               then (Inl (grant_err 400 ''unsupported_token_type'' ''access tokens expire on their own and cannot be revoked individually''), db)
               else (Inr (), db)
           | Some ws \<Rightarrow>
               (case revoke_refresh (te_store e) ws (te_sha e raw) (oc_id cl) (te_before e db)
                       :: (grant_error grant_store_error + unit) \<times> oauth_db of
                  (Inl Not_found, db1) \<Rightarrow> (Inr (), db1)
                | (Inl x, db1) \<Rightarrow> (Inl unavailable, db1)
                | (Inr u, db1) \<Rightarrow> (Inr (), db1))))"

end
