(* ===== verification/OAuthConsent.thy ===== *)
theory OAuthConsent
  imports OAuthServer
begin

text \<open>
  The browser side of the authorization server: registration of clients
  (\<open>hosted/internal/oauth/registration.go\<close>), the authorization request (\<open>authorize.go\<close>), the consent
  form (\<open>consent.go\<close>), session cookies (\<open>session.go\<close>), minting for a resource (\<open>minter.go\<close>) and the
  metadata and routes (\<open>metadata.go\<close>, \<open>server.go\<close>).

  A page is its status and message, a redirect its URI with the parameters added to its query in order.
  \<open>url.Parse\<close>, JSON, HMAC with the server's secret, Unicode case folding and the session authenticator are
  parameters (\<open>web_env\<close>).
\<close>

record go_url =
  u_scheme :: string
  u_host :: string
  u_hostname :: string
  u_port :: string
  u_path :: string
  u_escaped_path :: string
  u_raw_query :: string
  u_force_query :: bool
  u_fragment :: string
  u_has_user :: bool

type_synonym url_parser = "string \<Rightarrow> go_url option"

subsection \<open>Redirect URIs\<close>

text \<open>\<open>strconv.Atoi\<close> as far as the range check needs it: a value that overflows is out of range.\<close>

fun digits_value :: "nat \<Rightarrow> string \<Rightarrow> nat option" where
  "digits_value acc [] = Some acc"
| "digits_value acc (c # cs) = (if 48 \<le> byte c \<and> byte c \<le> 57 then digits_value (acc * 10 + (byte c - 48)) cs else None)"

definition go_atoi :: "string \<Rightarrow> int option" where
  "go_atoi s = (case s of
       [] \<Rightarrow> None
     | c # cs \<Rightarrow>
         if c = CHR ''-'' \<or> c = CHR ''+''
         then (if cs = [] then None else map_option (\<lambda>n. if c = CHR ''-'' then - int n else int n) (digits_value 0 cs))
         else map_option int (digits_value 0 s))"

definition go_trim_suffix :: "string \<Rightarrow> string \<Rightarrow> string" where
  "go_trim_suffix s x = (if suffix x s then take (length s - length x) s else s)"

definition go_contains_any :: "string \<Rightarrow> string \<Rightarrow> bool" where
  "go_contains_any s cs \<longleftrightarrow> list_ex (\<lambda>c. c \<in> set cs) s"

definition loopback_host :: "string \<Rightarrow> bool" where
  "loopback_host h \<longleftrightarrow> h = ''127.0.0.1'' \<or> h = ''[::1]''"

definition is_loopback_http :: "go_url \<Rightarrow> bool" where
  "is_loopback_http u \<longleftrightarrow> u_scheme u = ''http'' \<and>
     (if u_port u \<noteq> []
      then (case go_atoi (u_port u) of None \<Rightarrow> False | Some n \<Rightarrow> 1 \<le> n \<and> n \<le> 65535) \<and> loopback_host (go_trim_suffix (u_host u) ('':'' @ u_port u))
      else \<not> go_has_suffix (u_host u) '':'' \<and> loopback_host (u_host u))"

definition white_space :: string where
  "white_space = [CHR '' '', CHR 0x09, CHR 0x0D, CHR 0x0A]"

text \<open>\<open>validRedirectURI\<close>: the message of its error, or none.\<close>

definition valid_redirect_uri :: "url_parser \<Rightarrow> string \<Rightarrow> string option" where
  "valid_redirect_uri parse uri =
     (if length uri > 2048 then Some ''redirect_uri is too long''
      else case parse uri of
        None \<Rightarrow> Some ''redirect_uri must be an absolute URI''
      | Some u \<Rightarrow>
          if u_scheme u = [] then Some ''redirect_uri must be an absolute URI''
          else if u_scheme u \<noteq> ''https'' \<and> \<not> is_loopback_http u
          then Some ''redirect_uri must use https, or http on the 127.0.0.1 or [::1] loopback''
          else if u_host u = [] \<or> u_hostname u = [] \<or> go_contains (u_hostname u) ''*'' then Some ''redirect_uri must name a host''
          else if u_fragment u \<noteq> [] \<or> go_contains uri ''#'' \<or> u_has_user u then Some ''redirect_uri must not carry a fragment or credentials''
          else if go_contains_any uri white_space then Some ''redirect_uri contains whitespace''
          else None)"

definition same_loopback :: "go_url \<Rightarrow> go_url \<Rightarrow> bool" where
  "same_loopback a b \<longleftrightarrow> u_hostname a = u_hostname b \<and> u_escaped_path a = u_escaped_path b \<and> u_raw_query a = u_raw_query b
     \<and> u_force_query a = u_force_query b"

definition redirect_registered :: "url_parser \<Rightarrow> string list \<Rightarrow> string \<Rightarrow> bool" where
  "redirect_registered parse registered uri =
     (if contains_str registered uri then True
      else if valid_redirect_uri parse uri \<noteq> None then False
      else case parse uri of
        None \<Rightarrow> False
      | Some req \<Rightarrow> is_loopback_http req
          \<and> list_ex (\<lambda>r. case parse r of None \<Rightarrow> False | Some reg \<Rightarrow> is_loopback_http reg \<and> same_loopback reg req) registered)"

subsection \<open>Registration\<close>

record registration =
  rg_redirects :: "string list"
  rg_name :: string
  rg_scope :: "string option"
  rg_grants :: "string list"
  rg_responses :: "string list"
  rg_auth :: string

fun check_redirects :: "url_parser \<Rightarrow> string list \<Rightarrow> string list \<Rightarrow> string + string list" where
  "check_redirects parse [] out = Inr out"
| "check_redirects parse (u # us) out = (case valid_redirect_uri parse u of
       Some m \<Rightarrow> Inl m
     | None \<Rightarrow> check_redirects parse us (if u \<in> set out then out else out @ [u]))"

definition bad_metadata :: "string \<Rightarrow> grant_error" where
  "bad_metadata d = grant_err 400 ''invalid_client_metadata'' d"

definition registered_scopes :: "server_config \<Rightarrow> string option \<Rightarrow> grant_error + string list" where
  "registered_scopes cfg sc = (case sc of
       None \<Rightarrow> Inr (sv_scopes cfg)
     | Some raw \<Rightarrow> (case parse_scope raw of
           None \<Rightarrow> Inl (bad_metadata ''scope is malformed'')
         | Some p \<Rightarrow>
             if p = [] then Inl (bad_metadata ''scope is malformed'')
             else (case find (\<lambda>s. s \<notin> set (sv_scopes cfg)) p of
                 Some s \<Rightarrow> Inl (bad_metadata (''unsupported scope '' @ s))
               | None \<Rightarrow> Inr p)))"

definition client_name :: "string \<Rightarrow> string" where
  "client_name raw = (let n = go_trim_space raw in if n = [] then ''Unnamed client'' else n)"

definition registration_client :: "server_config \<Rightarrow> url_parser \<Rightarrow> registration \<Rightarrow> grant_error + (string \<times> string list \<times> string list)" where
  "registration_client cfg parse q =
     (if rg_redirects q = [] \<or> length (rg_redirects q) > 10
      then Inl (grant_err 400 ''invalid_redirect_uri'' ''between 1 and 10 redirect_uris are required'')
      else case check_redirects parse (rg_redirects q) [] of
        Inl m \<Rightarrow> Inl (grant_err 400 ''invalid_redirect_uri'' m)
      | Inr redirects \<Rightarrow>
          if length (go_trim_space (rg_name q)) > 200 \<or> go_contains_any (go_trim_space (rg_name q)) [CHR 0x0D, CHR 0x0A, CHR 0x00]
          then Inl (bad_metadata ''client_name is too long or contains control characters'')
          else if rg_auth q \<noteq> [] \<and> rg_auth q \<noteq> ''none''
          then Inl (bad_metadata ''only public clients (token_endpoint_auth_method=none) are supported'')
          else case find (\<lambda>g. g \<noteq> ''authorization_code'' \<and> g \<noteq> ''refresh_token'') (rg_grants q) of
            Some g \<Rightarrow> Inl (bad_metadata (''unsupported grant_type '' @ g))
          | None \<Rightarrow> (case find (\<lambda>t. t \<noteq> ''code'') (rg_responses q) of
              Some t \<Rightarrow> Inl (bad_metadata (''unsupported response_type '' @ t))
            | None \<Rightarrow> map_sum id (\<lambda>s. (client_name (rg_name q), redirects, s)) (registered_scopes cfg (rg_scope q))))"

text \<open>\<open>handleRegister\<close>; the body is decoded by the parameter \<open>req\<close> (\<open>None\<close> when it is malformed), \<open>rnd\<close> are
  24 random bytes.\<close>

definition handle_register :: "server_config \<Rightarrow> (nat \<Rightarrow> nat) \<Rightarrow> url_parser \<Rightarrow> db_env \<Rightarrow> string option \<Rightarrow> int \<Rightarrow> string \<Rightarrow> registration option
    \<Rightarrow> oauth_db \<Rightarrow> (grant_error + oauth_client) \<times> oauth_db" where
  "handle_register cfg fld parse e rnd now content_type req db =
     (if \<not> go_has_prefix (go_tolower fld content_type) ''application/json'' then (Inl (bad_metadata ''registration requires application/json''), db)
      else case req of
        None \<Rightarrow> (Inl (bad_metadata ''malformed registration request''), db)
      | Some q \<Rightarrow>
          (case registration_client cfg parse q of
             Inl g \<Rightarrow> (Inl g, db)
           | Inr (name, redirects, scopes) \<Rightarrow>
               (case rnd of
                  None \<Rightarrow> (Inl (grant_err 500 ''server_error'' []), db)
                | Some b \<Rightarrow>
                    (let c = \<lparr>oc_id = ''gc_'' @ b64_encode b, oc_name = name, oc_redirects = redirects, oc_scopes = scopes,
                         oc_audience = hd (sv_resources cfg), oc_created = now\<rparr> in
                     case create_client e c db :: (grant_error grant_store_error + unit) \<times> oauth_db of
                       (Inl x, db1) \<Rightarrow> (Inl unavailable, db1)
                     | (Inr u, db1) \<Rightarrow> (Inr c, db1)))))"

subsection \<open>The authorization request\<close>

record grant_request =
  gq_client :: string
  gq_redirect :: string
  gq_resource :: string
  gq_scopes :: "string list"
  gq_challenge :: string
  gq_state :: string
  gq_subject :: string
  gq_session :: string
  gq_expires :: int

record login_session =
  ls_id :: string
  ls_subject :: string
  ls_workspaces :: "string list"
  ls_expires :: int

record consent_view =
  cv_client :: string
  cv_host :: string
  cv_resource :: string
  cv_scopes :: "string list"
  cv_workspaces :: "string list"
  cv_request :: string
  cv_csrf :: string

datatype page = Error_page nat string | Redirect string "(string \<times> string) list" | Login_page string string | Consent_page consent_view

record web_env =
  we_parse :: url_parser
  we_mac :: "string list \<Rightarrow> string"
  we_marshal :: "grant_request \<Rightarrow> string"
  we_unmarshal :: "string \<Rightarrow> grant_request option"
  we_session :: "login_session option"
  we_policy :: policy_store
  we_same_fold :: "string \<Rightarrow> string \<Rightarrow> bool"
  we_sha :: "string \<Rightarrow> string"
  we_random :: "string option"
  we_now_unseal :: int
  we_now :: int
  we_client :: db_env
  we_save :: db_env
  we_others :: "oauth_db \<Rightarrow> oauth_db"

definition unix_seconds :: "int \<Rightarrow> int" where
  "unix_seconds t = t div second"

definition challenge_ok :: "string \<Rightarrow> bool" where
  "challenge_ok c \<longleftrightarrow> length c = 43 \<and> list_all is_b64_char c"

text \<open>\<open>validateAuthorize\<close>: the request, or the code and description of an \<open>authorizeError\<close>.\<close>

definition authorize_scopes :: "form_values \<Rightarrow> oauth_client \<Rightarrow> (string \<times> string) + string list" where
  "authorize_scopes q cl = (if form_has q ''scope''
     then (case parse_scope (form_get q ''scope'') of
         None \<Rightarrow> Inl (''invalid_scope'', ''scope is malformed'')
       | Some p \<Rightarrow> if p = [] then Inl (''invalid_scope'', ''scope is malformed'') else Inr p)
     else Inr (oc_scopes cl))"

definition validate_authorize :: "server_config \<Rightarrow> form_values \<Rightarrow> oauth_client \<Rightarrow> (string \<times> string) + grant_request" where
  "validate_authorize cfg q cl =
     (if form_get q ''response_type'' \<noteq> ''code'' then Inl (''unsupported_response_type'', ''only response_type=code is supported'')
      else if form_get q ''code_challenge_method'' \<noteq> ''S256'' then Inl (''invalid_request'', ''PKCE with code_challenge_method=S256 is required'')
      else if \<not> challenge_ok (form_get q ''code_challenge'') then Inl (''invalid_request'', ''code_challenge must be an S256 challenge'')
      else if form_get q ''resource'' = [] \<or> \<not> resource_allowed cfg (form_get q ''resource'')
      then Inl (''invalid_target'', ''resource must name a protected resource served by this authorization server'')
      else case authorize_scopes q cl of
        Inl x \<Rightarrow> Inl x
      | Inr scopes \<Rightarrow>
          (case find (\<lambda>s. s \<notin> set (sv_scopes cfg) \<or> \<not> contains_str (oc_scopes cl) s) scopes of
             Some s \<Rightarrow> Inl (''invalid_scope'', ''scope '' @ s @ '' is not available to this client'')
           | None \<Rightarrow> Inr \<lparr>gq_client = oc_id cl, gq_redirect = form_get q ''redirect_uri'', gq_resource = form_get q ''resource'',
               gq_scopes = scopes, gq_challenge = form_get q ''code_challenge'', gq_state = [], gq_subject = [], gq_session = [],
               gq_expires = 0\<rparr>))"

text \<open>\<open>redirect\<close> and \<open>redirectError\<close>.\<close>

definition redirect_to :: "server_config \<Rightarrow> url_parser \<Rightarrow> string \<Rightarrow> string \<Rightarrow> (string \<times> string) list \<Rightarrow> page" where
  "redirect_to cfg parse uri state params =
     (case parse uri of
        None \<Rightarrow> Error_page 400 ''The redirect URI is invalid.''
      | Some u \<Rightarrow> Redirect uri (params @ (if state \<noteq> [] then [(''state'', state)] else []) @ [(''iss'', sv_issuer cfg)]))"

definition redirect_error :: "server_config \<Rightarrow> url_parser \<Rightarrow> string \<Rightarrow> string \<Rightarrow> string \<times> string \<Rightarrow> page" where
  "redirect_error cfg parse uri state x = redirect_to cfg parse uri state
     ((''error'', fst x) # (if snd x \<noteq> [] then [(''error_description'', snd x)] else []))"

definition seal :: "web_env \<Rightarrow> grant_request \<Rightarrow> string" where
  "seal e q = (let payload = b64_encode (we_marshal e q) in payload @ ''.'' @ b64_encode (we_mac e [''consent-request'', payload]))"

definition unseal :: "web_env \<Rightarrow> string \<Rightarrow> grant_request option" where
  "unseal e sealed =
     (case go_cut sealed ''.'' of (payload, sig, found) \<Rightarrow>
        if \<not> found \<or> b64_decode sig \<noteq> Some (we_mac e [''consent-request'', payload]) then None
        else case b64_decode payload of
          None \<Rightarrow> None
        | Some raw \<Rightarrow>
            (case we_unmarshal e raw of
               None \<Rightarrow> None
             | Some q \<Rightarrow> if gq_expires q \<le> unix_seconds (we_now_unseal e) then None else Some q))"

definition csrf_token :: "web_env \<Rightarrow> string \<Rightarrow> string \<Rightarrow> string" where
  "csrf_token e sid sealed = b64_encode (we_mac e [''csrf'', sid, sealed])"

definition host_of :: "url_parser \<Rightarrow> string \<Rightarrow> string" where
  "host_of parse raw = (case parse raw of None \<Rightarrow> [] | Some u \<Rightarrow> u_host u)"

text \<open>\<open>handleAuthorize\<close>; \<open>uri\<close> is the request's own URI, shown to the login page. It changes nothing.\<close>

definition handle_authorize :: "server_config \<Rightarrow> web_env \<Rightarrow> form_values \<Rightarrow> string \<Rightarrow> oauth_db \<Rightarrow> page" where
  "handle_authorize cfg e q uri db =
     (case find (\<lambda>(k, vs). length vs > 1) q of
        Some (k, vs) \<Rightarrow> Error_page 400 (''The request repeats the '' @ k @ '' parameter.'')
      | None \<Rightarrow>
          (case get_client (we_client e) (form_get q ''client_id'') db :: grant_error grant_store_error + oauth_client of
             Inl x \<Rightarrow> Error_page 400 ''The client is not registered.''
           | Inr cl \<Rightarrow>
               (let ru = form_get q ''redirect_uri''; state = form_get q ''state'' in
                if ru = [] \<or> \<not> redirect_registered (we_parse e) (oc_redirects cl) ru
                then Error_page 400 ''The redirect URI is not registered for this client.''
                else if length state > 1024 then Error_page 400 ''The state parameter is too long.''
                else case validate_authorize cfg q cl of
                  Inl x \<Rightarrow> redirect_error cfg (we_parse e) ru state x
                | Inr g \<Rightarrow>
                    (case we_session e of
                       None \<Rightarrow> if sv_login cfg \<noteq> [] then Login_page (sv_login cfg) (sv_issuer cfg @ uri)
                                else Error_page 401 ''Sign in to Gist, then retry the connection.''
                     | Some s \<Rightarrow>
                         (let sealed = seal e (g\<lparr>gq_state := state, gq_subject := ls_subject s, gq_session := ls_id s,
                                gq_expires := unix_seconds (we_now e + sv_consent_ttl cfg)\<rparr>) in
                          Consent_page \<lparr>cv_client = oc_name cl, cv_host = host_of (we_parse e) ru, cv_resource = gq_resource g,
                            cv_scopes = gq_scopes g, cv_workspaces = ls_workspaces s, cv_request = sealed,
                            cv_csrf = csrf_token e (ls_id s) sealed\<rparr>)))))"

subsection \<open>The consent form\<close>

record consent_post =
  cp_fetch_site :: string
  cp_origin :: string
  cp_form :: "form_values option"

definition same_origin :: "server_config \<Rightarrow> web_env \<Rightarrow> consent_post \<Rightarrow> bool" where
  "same_origin cfg e r =
     (if cp_fetch_site r \<noteq> [] \<and> cp_fetch_site r \<noteq> ''same-origin'' \<and> cp_fetch_site r \<noteq> ''none'' then False
      else if cp_origin r = [] \<or> cp_origin r = ''null'' then cp_origin r = []
      else we_same_fold e (cp_origin r) (sv_issuer cfg))"

definition check_membership :: "web_env \<Rightarrow> string \<Rightarrow> string \<Rightarrow> string list \<Rightarrow> (string \<times> string) option" where
  "check_membership e subject ws scopes =
     (case we_policy e subject ws scopes 0 of
        None \<Rightarrow> Some (''access_denied'', ''no active membership in the selected workspace'')
      | Some p \<Rightarrow>
          if wp_revoked p then Some (''access_denied'', ''membership is revoked'')
          else if wp_parent_scopes p \<noteq> [] \<and> \<not> contains_all (wp_parent_scopes p) scopes
          then Some (''invalid_scope'', ''requested scope exceeds your role in the selected workspace'')
          else if \<not> wp_allowed p then Some (''access_denied'', ''membership does not allow this request'')
          else None)"

definition consent_code :: "server_config \<Rightarrow> web_env \<Rightarrow> grant_request \<Rightarrow> login_session \<Rightarrow> string \<Rightarrow> string \<Rightarrow> auth_code" where
  "consent_code cfg e q s ws raw =
     \<lparr>ac_hash = we_sha e raw, ac_client = gq_client q, ac_subject = ls_subject s, ac_workspace = ws, ac_redirect = gq_redirect q,
      ac_resource = gq_resource q, ac_scopes = gq_scopes q, ac_challenge = gq_challenge q, ac_issued = we_now e,
      ac_expires = we_now e + sv_code_ttl cfg\<rparr>"

text \<open>The allowed branch of \<open>handleConsent\<close>.\<close>

definition issue_code :: "server_config \<Rightarrow> web_env \<Rightarrow> grant_request \<Rightarrow> login_session \<Rightarrow> string \<Rightarrow> oauth_db \<Rightarrow> page \<times> oauth_db" where
  "issue_code cfg e q s ws db =
     (let err = redirect_error cfg (we_parse e) (gq_redirect q) (gq_state q) in
      if ws = [] \<or> \<not> contains_str (ls_workspaces s) ws
      then (err (''access_denied'', ''the selected workspace is not available to this session''), db)
      else case check_membership e (ls_subject s) ws (gq_scopes q) of
        Some x \<Rightarrow> (err x, db)
      | None \<Rightarrow>
          (case new_opaque code_prefix ws (we_random e) of
             None \<Rightarrow> (err (''server_error'', []), db)
           | Some raw \<Rightarrow>
               (case save_code (we_save e) (consent_code cfg e q s ws raw) db :: (grant_error grant_store_error + unit) \<times> oauth_db of
                  (Inl x, db1) \<Rightarrow> (err (''temporarily_unavailable'', []), db1)
                | (Inr u, db1) \<Rightarrow> (redirect_to cfg (we_parse e) (gq_redirect q) (gq_state q) [(''code'', raw)], db1))))"

definition handle_consent :: "server_config \<Rightarrow> web_env \<Rightarrow> consent_post \<Rightarrow> oauth_db \<Rightarrow> page \<times> oauth_db" where
  "handle_consent cfg e r db =
     (if \<not> same_origin cfg e r then (Error_page 403 ''Cross-site consent requests are refused.'', db)
      else case cp_form r of
        None \<Rightarrow> (Error_page 400 ''The consent form is malformed.'', db)
      | Some f \<Rightarrow>
          (case find (\<lambda>(k, vs). length vs > 1) f of
             Some (k, vs) \<Rightarrow> (Error_page 400 (''The consent form repeats the '' @ k @ '' field.''), db)
           | None \<Rightarrow>
               (case we_session e of
                  None \<Rightarrow> (Error_page 401 ''Your session has ended. Sign in and retry the connection.'', db)
                | Some s \<Rightarrow>
                    (case unseal e (form_get f ''request'') of
                       None \<Rightarrow> (Error_page 403 ''The consent request is invalid or expired.'', db)
                     | Some q \<Rightarrow>
                         if gq_session q \<noteq> ls_id s \<or> gq_subject q \<noteq> ls_subject s
                         then (Error_page 403 ''The consent request is invalid or expired.'', db)
                         else if b64_decode (form_get f ''csrf'') \<noteq> Some (we_mac e [''csrf'', ls_id s, form_get f ''request''])
                         then (Error_page 403 ''The consent form failed its CSRF check.'', db)
                         else case get_client (we_client e) (gq_client q) db :: grant_error grant_store_error + oauth_client of
                           Inl x \<Rightarrow> (Error_page 400 ''The client is no longer registered.'', db)
                         | Inr cl \<Rightarrow>
                             if \<not> redirect_registered (we_parse e) (oc_redirects cl) (gq_redirect q)
                             then (Error_page 400 ''The client is no longer registered.'', db)
                             else if form_get f ''decision'' = ''deny''
                             then (redirect_error cfg (we_parse e) (gq_redirect q) (gq_state q) (''access_denied'', ''the user denied the request''), db)
                             else if form_get f ''decision'' \<noteq> ''allow'' then (Error_page 400 ''The consent decision is missing.'', db)
                             else issue_code cfg e q s (form_get f ''workspace'') (we_others e db)))))"

subsection \<open>Session cookies\<close>

record session_claims =
  sc_id :: string
  sc_subject :: string
  sc_workspaces :: "string list"
  sc_expires :: int

record cookie_codec =
  ck_mac :: "string list \<Rightarrow> string"
  ck_marshal :: "session_claims \<Rightarrow> string"
  ck_unmarshal :: "string \<Rightarrow> session_claims option"

definition cookie_sign :: "cookie_codec \<Rightarrow> string \<Rightarrow> string" where
  "cookie_sign k payload = ck_mac k [''gist-oauth-session'' @ [CHR 0x00], payload]"

definition max_session_ttl :: int where "max_session_ttl = 12 * 3600 * second"

text \<open>\<open>Issue\<close>: the value of the cookie and its expiry.\<close>

definition issue_session :: "cookie_codec \<Rightarrow> string option \<Rightarrow> int \<Rightarrow> string \<Rightarrow> string list \<Rightarrow> int \<Rightarrow> (string \<times> int) option" where
  "issue_session k rnd now subject wss ttl0 =
     (if subject = [] \<or> wss = [] \<or> list_ex (\<lambda>w. w = []) wss then None
      else case rnd of
        None \<Rightarrow> None
      | Some b \<Rightarrow>
          (let ttl = (if ttl0 \<le> 0 \<or> max_session_ttl < ttl0 then max_session_ttl else ttl0);
               expires = (now + ttl) - (now + ttl) mod second;
               payload = b64_encode (ck_marshal k \<lparr>sc_id = b64_encode b, sc_subject = subject, sc_workspaces = wss,
                   sc_expires = unix_seconds expires\<rparr>) in
           Some (payload @ ''.'' @ b64_encode (cookie_sign k payload), expires)))"

text \<open>\<open>Authenticate\<close> on the value of the request's cookie; a failure is \<open>ErrNoSession\<close>.\<close>

definition authenticate_session :: "cookie_codec \<Rightarrow> int \<Rightarrow> string option \<Rightarrow> login_session option" where
  "authenticate_session k now cookie =
     (case cookie of
        None \<Rightarrow> None
      | Some v \<Rightarrow>
          (case go_cut v ''.'' of (payload, sig, found) \<Rightarrow>
             if \<not> found \<or> b64_decode sig \<noteq> Some (cookie_sign k payload) then None
             else case b64_decode payload of
               None \<Rightarrow> None
             | Some raw \<Rightarrow>
                 (case ck_unmarshal k raw of
                    None \<Rightarrow> None
                  | Some c \<Rightarrow>
                      if sc_id c = [] \<or> sc_subject c = [] \<or> sc_workspaces c = [] then None
                      else if \<not> now < sc_expires c * second then None
                      else Some \<lparr>ls_id = sc_id c, ls_subject = sc_subject c, ls_workspaces = sc_workspaces c,
                          ls_expires = sc_expires c * second\<rparr>)))"

lemma session_roundtrip:
  assumes json: "ck_unmarshal k (ck_marshal k c) = Some c" and c: "c = \<lparr>sc_id = b64_encode b, sc_subject = subject, sc_workspaces = wss,
      sc_expires = unix_seconds expires\<rparr>" and iss: "issue_session k (Some b) now subject wss ttl = Some (v, expires)"
    and live: "b \<noteq> []" "later < expires"
  shows "authenticate_session k later (Some v) = Some \<lparr>ls_id = b64_encode b, ls_subject = subject, ls_workspaces = wss, ls_expires = expires\<rparr>"
proof -
  let ?p = "b64_encode (ck_marshal k c)"
  have v: "v = ?p @ ''.'' @ b64_encode (cookie_sign k ?p)" and ne: "subject \<noteq> []" "wss \<noteq> []" and ex: "expires mod second = 0"
    using iss c by (auto simp: issue_session_def Let_def second_def split: if_splits)
  have "go_cut v ''.'' = (?p, b64_encode (cookie_sign k ?p), True)"
    unfolding v using go_cut_single [OF b64_encode_no_dot [of "ck_marshal k c"], of "b64_encode (cookie_sign k ?p)"] by simp
  moreover have "unix_seconds expires * second = expires"
    using ex by (simp add: unix_seconds_def) (metis dvd_div_mult_self mod_0_imp_dvd)
  ultimately show ?thesis using json live ne by (simp add: authenticate_session_def c)
qed

subsection \<open>Minting for a resource\<close>

record identity_record =
  ir_issuer :: string
  ir_subject :: string
  ir_workspace :: string
  ir_subject_type :: string
  ir_scopes :: "string list"
  ir_generation :: nat
  ir_expires :: int

record minter_env =
  me_issuers :: "string \<Rightarrow> issuer_config option"
  me_record :: "(identity_record \<Rightarrow> bool) option"
  me_policy :: policy_store
  me_lease :: "lease option"
  me_keys :: key_set
  me_random :: "string option"
  me_now_mint :: int
  me_now_verify :: int

definition identity_of :: "verified_token \<Rightarrow> identity_record" where
  "identity_of v = (let p = vt_principal v in \<lparr>ir_issuer = pn_issuer p, ir_subject = pn_subject p, ir_workspace = pn_workspace p,
     ir_subject_type = pn_subject_type p, ir_scopes = pn_scopes p, ir_generation = pn_generation p, ir_expires = unix_seconds (vt_expires v)\<rparr>)"

text \<open>\<open>MintAccess\<close>; the recorder tells whether it stored the identity.\<close>

definition mint_for_resource :: "minter_env \<Rightarrow> string \<Rightarrow> workload_request \<Rightarrow> auth_error + access_token" where
  "mint_for_resource m resource q =
     (case me_issuers m resource of
        None \<Rightarrow> Inl Unauthorized
      | Some c \<Rightarrow>
          (case me_record m of
             None \<Rightarrow> Inl (Auth_failed ''oauth: identity recorder is unavailable'')
           | Some record \<Rightarrow>
               (case mint c (me_policy m) (me_keys m) (me_random m) (me_now_mint m) q of
                  Inl x \<Rightarrow> Inl x
                | Inr raw \<Rightarrow>
                    (case verify c (me_policy m) (me_lease m) (me_keys m) (me_now_verify m) (me_now_verify m) raw of
                       Inl x \<Rightarrow> Inl x
                     | Inr v \<Rightarrow>
                         if \<not> record (identity_of v) then Inl (Auth_failed ''record identity'')
                         else Inr \<lparr>at_token = raw, at_expires = vt_expires v\<rparr>))))"

definition minter_answer :: "minter_env \<Rightarrow> string \<Rightarrow> workload_request \<Rightarrow> access_token option" where
  "minter_answer m resource q = (case mint_for_resource m resource q of Inl x \<Rightarrow> None | Inr a \<Rightarrow> Some a)"

subsection \<open>Routes, metadata and keys\<close>

text \<open>\<open>New\<close>: the configuration with its defaults, or an error. \<open>wired\<close> tells that store, minter, policy, sessions,
  keys and clock are present.\<close>

definition exact_https_origin :: "url_parser \<Rightarrow> string \<Rightarrow> bool" where
  "exact_https_origin parse raw = (case parse raw of None \<Rightarrow> False
     | Some u \<Rightarrow> u_scheme u = ''https'' \<and> u_host u \<noteq> [] \<and> u_path u = [] \<and> u_raw_query u = [] \<and> u_fragment u = [] \<and> \<not> u_has_user u)"

definition https_url :: "url_parser \<Rightarrow> string \<Rightarrow> bool" where
  "https_url parse raw = (case parse raw of None \<Rightarrow> False
     | Some u \<Rightarrow> u_scheme u = ''https'' \<and> u_host u \<noteq> [] \<and> u_fragment u = [] \<and> \<not> u_has_user u \<and> \<not> go_contains_any raw white_space)"

definition server_defaults :: "server_config \<Rightarrow> server_config" where
  "server_defaults c = c\<lparr>
     sv_code_ttl := if sv_code_ttl c \<le> 0 \<or> 600 * second < sv_code_ttl c then 60 * second else sv_code_ttl c,
     sv_refresh_ttl := if sv_refresh_ttl c \<le> 0 then 30 * 24 * 3600 * second else sv_refresh_ttl c,
     sv_consent_ttl := if sv_consent_ttl c \<le> 0 then 600 * second else sv_consent_ttl c\<rparr>"

definition new_server :: "url_parser \<Rightarrow> bool \<Rightarrow> string \<Rightarrow> server_config \<Rightarrow> string + server_config" where
  "new_server parse wired secret c =
     (if \<not> exact_https_origin parse (sv_issuer c) then Inl ''oauth: issuer''
      else if sv_resources c = [] then Inl ''oauth: at least one resource is required''
      else case find (\<lambda>r. \<not> https_url parse r) (sv_resources c) of
        Some r \<Rightarrow> Inl (''oauth: resource '' @ r)
      | None \<Rightarrow>
          if sv_scopes c = [] then Inl ''oauth: supported scopes are required''
          else if \<not> wired then Inl ''oauth: store, minter, policy, sessions, keys and clock are required''
          else if sv_login c \<noteq> [] \<and> \<not> https_url parse (sv_login c) then Inl ''oauth: login URL''
          else if length secret < 32 then Inl ''oauth: secret must be at least 32 bytes''
          else case find (\<lambda>s. \<not> valid_scope_token s) (sv_scopes c) of
            Some s \<Rightarrow> Inl (''oauth: invalid supported scope '' @ s)
          | None \<Rightarrow> Inr (server_defaults c))"

datatype endpoint = At_as_metadata | At_pr_metadata | At_jwks | At_authorize | At_consent | At_register | At_token | At_revoke

datatype routed = Not_routed | Method_not_allowed string | Serve endpoint

definition path_as_metadata :: string where "path_as_metadata = ''/.well-known/oauth-authorization-server''"
definition path_pr_metadata :: string where "path_pr_metadata = ''/.well-known/oauth-protected-resource''"
definition path_authorize :: string where "path_authorize = ''/oauth/authorize''"
definition path_consent :: string where "path_consent = ''/oauth/consent''"
definition path_token :: string where "path_token = ''/oauth/token''"
definition path_register :: string where "path_register = ''/oauth/register''"
definition path_revoke :: string where "path_revoke = ''/oauth/revoke''"
definition path_jwks :: string where "path_jwks = ''/oauth/jwks''"

lemmas path_defs = path_as_metadata_def path_pr_metadata_def path_authorize_def path_consent_def path_token_def path_register_def
  path_revoke_def path_jwks_def

definition only_get :: "string \<Rightarrow> endpoint \<Rightarrow> routed" where
  "only_get verb h = (if verb \<noteq> ''GET'' \<and> verb \<noteq> ''HEAD'' then Method_not_allowed ''GET, HEAD'' else Serve h)"

definition only_post :: "string \<Rightarrow> endpoint \<Rightarrow> routed" where
  "only_post verb h = (if verb \<noteq> ''POST'' then Method_not_allowed ''POST'' else Serve h)"

definition route :: "string \<Rightarrow> string \<Rightarrow> routed" where
  "route path verb =
     (if path = path_as_metadata then only_get verb At_as_metadata
      else if path = path_pr_metadata then only_get verb At_pr_metadata
      else if path = path_jwks then only_get verb At_jwks
      else if path = path_authorize then only_get verb At_authorize
      else if path = path_consent then only_post verb At_consent
      else if path = path_register then only_post verb At_register
      else if path = path_token then only_post verb At_token
      else if path = path_revoke then only_post verb At_revoke
      else Not_routed)"

definition handles_path :: "string \<Rightarrow> bool" where
  "handles_path path \<longleftrightarrow> go_has_prefix path ''/oauth/'' \<or> path = path_as_metadata \<or> path = path_pr_metadata"

record as_metadata =
  md_issuer :: string
  md_authorization :: string
  md_token :: string
  md_registration :: string
  md_revocation :: string
  md_jwks :: string
  md_scopes :: "string list"
  md_challenge_methods :: "string list"
  md_grant_types :: "string list"
  md_resources :: "string list"

definition server_metadata :: "server_config \<Rightarrow> as_metadata" where
  "server_metadata cfg = (let iss = sv_issuer cfg in
     \<lparr>md_issuer = iss, md_authorization = iss @ path_authorize, md_token = iss @ path_token, md_registration = iss @ path_register,
      md_revocation = iss @ path_revoke, md_jwks = iss @ path_jwks, md_scopes = sv_scopes cfg, md_challenge_methods = [''S256''],
      md_grant_types = [''authorization_code'', ''refresh_token''], md_resources = sv_resources cfg\<rparr>)"

definition prm_url :: "url_parser \<Rightarrow> string \<Rightarrow> string" where
  "prm_url parse resource = (case parse resource of None \<Rightarrow> []
     | Some u \<Rightarrow> u_scheme u @ ''://'' @ u_host u @ path_pr_metadata @ go_trim_suffix (u_path u) ''/'')"

definition bearer_challenge :: "string \<Rightarrow> string \<Rightarrow> string" where
  "bearer_challenge url code = ''Bearer realm=\"gist\", resource_metadata=\"'' @ url @ ''\"'' @
     (if code \<noteq> [] then '', error=\"'' @ code @ ''\"'' else [])"

record jwk =
  jk_x :: string
  jk_kid :: string

definition jwks_keys :: "verification_key list \<Rightarrow> jwk list" where
  "jwks_keys ks = map (\<lambda>k. \<lparr>jk_x = b64_encode (vk_public k), jk_kid = vk_kid k\<rparr>)
     (filter (\<lambda>k. vk_algorithm k = ''EdDSA'' \<and> vk_public k \<noteq> []) ks)"

end
