(* ===== verification/OAuthGrants.thy ===== *)
theory OAuthGrants
  imports OAuthStore
begin

text \<open>
  What the grant store promises. The locale \<open>grant_store\<close> is the \<open>Store\<close> interface of
  \<open>hosted/internal/oauth/server.go\<close> with the promises its comments make, in terms of four
  observations: a code is spent, a refresh token is used, a family is revoked, a family was issued
  from a code. Its lemmas follow runs of the store (any interleaving of operations): a grant is
  redeemed once, a token is rotated once, and a replay ends every family of the code for good. The
  PostgreSQL store is shown to satisfy the interface, on the states its operations reach.
\<close>

subsection \<open>The interface\<close>

locale grant_store =
  fixes step :: "'s \<Rightarrow> 's \<Rightarrow> bool"
    and redeem :: "'n \<Rightarrow> string \<Rightarrow> string \<Rightarrow> (auth_code \<Rightarrow> 'e option) \<Rightarrow> refresh_token \<Rightarrow> 's \<Rightarrow> ('e grant_store_error + auth_code \<times> string) \<times> 's"
    and rotate :: "'n \<Rightarrow> string \<Rightarrow> string \<Rightarrow> (refresh_family \<Rightarrow> refresh_token \<Rightarrow> 'e option) \<Rightarrow> refresh_token \<Rightarrow> 's \<Rightarrow> ('e grant_store_error + refresh_family) \<times> 's"
    and ok :: "'s \<Rightarrow> bool"
    and spent :: "'s \<Rightarrow> string \<Rightarrow> bool"
    and used :: "'s \<Rightarrow> string \<Rightarrow> bool"
    and revoked :: "'s \<Rightarrow> string \<Rightarrow> bool"
    and issued :: "'s \<Rightarrow> string \<Rightarrow> string \<Rightarrow> bool"
    and holds :: "'s \<Rightarrow> string \<Rightarrow> string \<Rightarrow> bool"
  assumes step_ok: "step s s' \<Longrightarrow> ok s \<Longrightarrow> ok s'"
    and step_spent: "step s s' \<Longrightarrow> ok s \<Longrightarrow> spent s h \<Longrightarrow> spent s' h"
    and step_used: "step s s' \<Longrightarrow> ok s \<Longrightarrow> used s h \<Longrightarrow> used s' h"
    and step_revoked: "step s s' \<Longrightarrow> ok s \<Longrightarrow> revoked s i \<Longrightarrow> revoked s' i"
    and step_issued: "step s s' \<Longrightarrow> ok s \<Longrightarrow> issued s h i \<Longrightarrow> issued s' h i"
    and step_holds: "step s s' \<Longrightarrow> ok s \<Longrightarrow> holds s h i \<Longrightarrow> holds s' h i"
    and redeem_step: "step s (snd (redeem n w h chk first s))"
    and rotate_step: "step s (snd (rotate n w h rchk first s))"
    and redeem_fresh: "ok s \<Longrightarrow> redeem n w h chk first s = (Inr (c, i), s') \<Longrightarrow>
          \<not> spent s h \<and> spent s' h \<and> issued s' h i \<and> holds s' (rt_hash first) i \<and> chk c = None"
    and redeem_rejected: "ok s \<Longrightarrow> redeem n w h chk first s = (Inl (Rejected x), s') \<Longrightarrow> spent s' h"
    and redeem_replayed: "ok s \<Longrightarrow> redeem n w h chk first s = (Inl Grant_reused, s') \<Longrightarrow> issued s' h i \<Longrightarrow> revoked s' i"
    and rotate_live: "ok s \<Longrightarrow> rotate n w h rchk nxt s = (Inr f, s') \<Longrightarrow>
          \<not> used s h \<and> used s' h \<and> holds s h (rf_id f) \<and> holds s' (rt_hash nxt) (rf_id f) \<and> \<not> revoked s (rf_id f)"
    and rotate_reused: "ok s \<Longrightarrow> rotate n w h rchk nxt s = (Inl Grant_reused, s') \<Longrightarrow> holds s h i \<Longrightarrow> revoked s' i"
    and holds_unique: "ok s \<Longrightarrow> holds s h i \<Longrightarrow> holds s h j \<Longrightarrow> i = j"
begin

lemma run_ok: "step\<^sup>*\<^sup>* s s' \<Longrightarrow> ok s \<Longrightarrow> ok s'"
  by (induction rule: rtranclp_induct) (auto intro: step_ok)

lemma run_keeps:
  assumes "step\<^sup>*\<^sup>* s s'" and "ok s" and "P s"
    and keep: "\<And>a b. step a b \<Longrightarrow> ok a \<Longrightarrow> P a \<Longrightarrow> P b"
  shows "P s'"
  using assms(1-3) by (induction rule: rtranclp_induct) (blast intro: keep run_ok)+

lemma redeem_ok: "ok s \<Longrightarrow> redeem n w h chk first s = (r, s') \<Longrightarrow> ok s'"
  by (metis redeem_step snd_conv step_ok)

lemma rotate_ok: "ok s \<Longrightarrow> rotate n w h rchk nxt s = (r, s') \<Longrightarrow> ok s'"
  by (metis rotate_step snd_conv step_ok)

text \<open>A code that was presented, with success or not, is never redeemed again.\<close>

lemma redeem_once:
  assumes "ok s" and "redeem n w h chk first s = (r, s1)" and "r = Inr y \<or> r = Inl (Rejected x)"
    and "step\<^sup>*\<^sup>* s1 s2"
  shows "fst (redeem n' w' h chk' first' s2) \<noteq> Inr z"
proof
  assume "fst (redeem n' w' h chk' first' s2) = Inr z"
  then obtain c i s3 where "redeem n' w' h chk' first' s2 = (Inr (c, i), s3)" by (metis prod.collapse)
  moreover have "ok s1" by (rule redeem_ok [OF assms(1,2)])
  moreover have "spent s1 h"
    using assms(3) redeem_fresh [OF assms(1)] redeem_rejected [OF assms(1)] assms(2) by (metis prod.collapse)
  moreover have "spent s2 h" using run_keeps [OF assms(4), of "\<lambda>s. spent s h"] calculation(2,3) step_spent by blast
  ultimately show False using redeem_fresh run_ok [OF assms(4)] by blast
qed

lemma rotate_once:
  assumes "ok s" and "rotate n w h chk nxt s = (Inr f, s1)" and "step\<^sup>*\<^sup>* s1 s2"
  shows "fst (rotate n' w' h chk' nxt' s2) \<noteq> Inr g"
proof
  assume "fst (rotate n' w' h chk' nxt' s2) = Inr g"
  then obtain s3 where "rotate n' w' h chk' nxt' s2 = (Inr g, s3)" by (metis prod.collapse)
  moreover have "ok s1" by (rule rotate_ok [OF assms(1,2)])
  moreover have "used s1 h" using rotate_live [OF assms(1,2)] by blast
  moreover have "used s2 h" using run_keeps [OF assms(3), of "\<lambda>s. used s h"] calculation(2,3) step_used by blast
  ultimately show False using rotate_live run_ok [OF assms(3)] by blast
qed

text \<open>A revoked family stays so, and none of its tokens is rotated.\<close>

lemma revoked_for_good:
  assumes "ok s" and "revoked s i" and "step\<^sup>*\<^sup>* s s'" and "holds s' h i"
  shows "fst (rotate n w h chk nxt s') \<noteq> Inr f"
proof
  assume "fst (rotate n w h chk nxt s') = Inr f"
  then obtain s2 where rot: "rotate n w h chk nxt s' = (Inr f, s2)" by (metis prod.collapse)
  have ok: "ok s'" by (rule run_ok [OF assms(3,1)])
  have "revoked s' i" using run_keeps [OF assms(3,1), of "\<lambda>s. revoked s i"] assms(2) step_revoked by blast
  moreover have "rf_id f = i" using rotate_live [OF ok rot] holds_unique [OF ok] assms(4) by blast
  ultimately show False using rotate_live [OF ok rot] by blast
qed

text \<open>A second presentation of a redeemed code ends the family of the first one, however many
  rotations and other operations lie between and after.\<close>

lemma replay_ends_family:
  assumes "ok s" and "redeem n w h chk first s = (Inr (c, i), s1)" and "step\<^sup>*\<^sup>* s1 s2"
    and "redeem n' w' h chk' first' s2 = (Inl Grant_reused, s3)" and "step\<^sup>*\<^sup>* s3 s4" and "holds s4 t i"
  shows "fst (rotate n'' w'' t chk'' nxt s4) \<noteq> Inr f"
proof -
  have ok1: "ok s1" by (rule redeem_ok [OF assms(1,2)])
  then have ok2: "ok s2" by (rule run_ok [OF assms(3)])
  then have ok3: "ok s3" using assms(4) by (rule redeem_ok)
  have "issued s1 h i" using redeem_fresh [OF assms(1,2)] by blast
  then have "issued s2 h i" using run_keeps [OF assms(3) ok1, of "\<lambda>s. issued s h i"] step_issued by blast
  then have "issued s3 h i" by (metis assms(4) ok2 redeem_step snd_conv step_issued)
  then have "revoked s3 i" by (rule redeem_replayed [OF ok2 assms(4)])
  then show ?thesis by (rule revoked_for_good [OF ok3 _ assms(5,6)])
qed

lemma reuse_ends_family:
  assumes "ok s" and "rotate n w h chk nxt s = (Inl Grant_reused, s1)" and "holds s h i"
    and "step\<^sup>*\<^sup>* s1 s2" and "holds s2 t i"
  shows "fst (rotate n' w' t chk' nxt' s2) \<noteq> Inr f"
  using rotate_ok [OF assms(1,2)] rotate_reused [OF assms(1-3)] assms(4,5) by (rule revoked_for_good)

end

subsection \<open>Runs of the PostgreSQL store\<close>

text \<open>A step is one operation on the store, with any arguments and whatever the database decides.\<close>

inductive db_step :: "oauth_db \<Rightarrow> oauth_db \<Rightarrow> bool" where
  create: "create_client e c db = (r :: grant_error grant_store_error + unit, db') \<Longrightarrow> db_step db db'"
| save: "save_code e c db = (r :: grant_error grant_store_error + unit, db') \<Longrightarrow> db_step db db'"
| redeem: "redeem_code e w h chk first db = (r :: grant_error grant_store_error + auth_code \<times> string, db') \<Longrightarrow> db_step db db'"
| rotate: "rotate_refresh e w h rchk nxt db = (r :: grant_error grant_store_error + refresh_family, db') \<Longrightarrow> db_step db db'"
| revoke_fam: "revoke_family e w i db = (r :: grant_error grant_store_error + unit, db') \<Longrightarrow> db_step db db'"
| revoke_tok: "revoke_refresh e w h cl db = (r :: grant_error grant_store_error + unit, db') \<Longrightarrow> db_step db db'"

inductive_cases db_stepE: "db_step db db'"

definition code_spent :: "oauth_db \<Rightarrow> string \<Rightarrow> bool" where
  "code_spent db h \<longleftrightarrow> (case db_codes db h of Some r \<Rightarrow> cr_consumed r \<noteq> None | None \<Rightarrow> False)"

definition token_used :: "oauth_db \<Rightarrow> string \<Rightarrow> bool" where
  "token_used db h \<longleftrightarrow> (case db_tokens db h of Some t \<Rightarrow> tr_consumed t \<noteq> None | None \<Rightarrow> False)"

definition family_revoked :: "oauth_db \<Rightarrow> string \<Rightarrow> bool" where
  "family_revoked db i \<longleftrightarrow> (case db_families db i of Some r \<Rightarrow> fr_revoked r \<noteq> None | None \<Rightarrow> False)"

definition family_issued :: "oauth_db \<Rightarrow> string \<Rightarrow> string \<Rightarrow> bool" where
  "family_issued db h i \<longleftrightarrow> (case db_families db i of Some r \<Rightarrow> rf_code (fr_family r) = h | None \<Rightarrow> False)"

definition family_holds :: "oauth_db \<Rightarrow> string \<Rightarrow> string \<Rightarrow> bool" where
  "family_holds db h i \<longleftrightarrow> (case db_tokens db h of Some t \<Rightarrow> tr_family t = i | None \<Rightarrow> False)"

text \<open>Well-formed tables: rows stand under their keys; a family is an exact copy of the bounds of
  a consumed code, the only one of that code; a token belongs to a family, and at most one token
  of a family is not consumed.\<close>

definition codes_ok :: "oauth_db \<Rightarrow> bool" where
  "codes_ok db \<longleftrightarrow> (\<forall>h r. db_codes db h = Some r \<longrightarrow> ac_hash (cr_code r) = h \<and> ac_client (cr_code r) \<in> dom (db_clients db))"

definition families_ok :: "oauth_db \<Rightarrow> bool" where
  "families_ok db \<longleftrightarrow> (\<forall>i f. db_families db i = Some f \<longrightarrow> (\<exists>c. db_codes db (rf_code (fr_family f)) = Some c
     \<and> cr_consumed c \<noteq> None \<and> fr_family f = family_of_code i (cr_code c)))"

definition single_family :: "oauth_db \<Rightarrow> bool" where
  "single_family db \<longleftrightarrow> (\<forall>i j f g. db_families db i = Some f \<longrightarrow> db_families db j = Some g
     \<longrightarrow> rf_code (fr_family f) = rf_code (fr_family g) \<longrightarrow> i = j)"

definition tokens_ok :: "oauth_db \<Rightarrow> bool" where
  "tokens_ok db \<longleftrightarrow> (\<forall>h t. db_tokens db h = Some t \<longrightarrow> rt_hash (tr_token t) = h \<and> tr_family t \<in> dom (db_families db))"

definition single_token :: "oauth_db \<Rightarrow> bool" where
  "single_token db \<longleftrightarrow> (\<forall>h k t u. db_tokens db h = Some t \<longrightarrow> db_tokens db k = Some u
     \<longrightarrow> tr_family t = tr_family u \<longrightarrow> tr_consumed t = None \<longrightarrow> tr_consumed u = None \<longrightarrow> h = k)"

definition db_ok :: "oauth_db \<Rightarrow> bool" where
  "db_ok db \<longleftrightarrow> codes_ok db \<and> families_ok db \<and> single_family db \<and> tokens_ok db \<and> single_token db"

lemmas db_ok_defs = db_ok_def codes_ok_def families_ok_def single_family_def tokens_ok_def single_token_def

lemma db_ok_code: "db_ok db \<Longrightarrow> db_codes db h = Some r \<Longrightarrow> ac_hash (cr_code r) = h \<and> ac_client (cr_code r) \<in> dom (db_clients db)"
  unfolding db_ok_def codes_ok_def by blast

lemma db_ok_family: "db_ok db \<Longrightarrow> db_families db i = Some f \<Longrightarrow>
    \<exists>c. db_codes db (rf_code (fr_family f)) = Some c \<and> cr_consumed c \<noteq> None \<and> fr_family f = family_of_code i (cr_code c)"
  unfolding db_ok_def families_ok_def by blast

lemma db_ok_token: "db_ok db \<Longrightarrow> db_tokens db h = Some t \<Longrightarrow> rt_hash (tr_token t) = h \<and> tr_family t \<in> dom (db_families db)"
  unfolding db_ok_def tokens_ok_def by blast

lemma db_ok_one_family: "db_ok db \<Longrightarrow> db_families db i = Some f \<Longrightarrow> db_families db j = Some g
    \<Longrightarrow> rf_code (fr_family f) = rf_code (fr_family g) \<Longrightarrow> i = j"
  unfolding db_ok_def single_family_def by blast

lemma db_ok_one_token: "db_ok db \<Longrightarrow> db_tokens db h = Some t \<Longrightarrow> db_tokens db k = Some u
    \<Longrightarrow> tr_family t = tr_family u \<Longrightarrow> tr_consumed t = None \<Longrightarrow> tr_consumed u = None \<Longrightarrow> h = k"
  unfolding db_ok_def single_token_def by blast

lemma db_ok_empty: "db_ok empty_db"
  by (simp add: db_ok_defs empty_db_def)

text \<open>What an operation may do to the tables, whatever it is: the order on states in which the
  observations only grow.\<close>

definition db_grows :: "oauth_db \<Rightarrow> oauth_db \<Rightarrow> bool" where
  "db_grows db db' \<longleftrightarrow>
     (\<forall>h r. db_codes db h = Some r \<longrightarrow> (\<exists>r'. db_codes db' h = Some r' \<and> cr_code r' = cr_code r
        \<and> (cr_consumed r \<noteq> None \<longrightarrow> cr_consumed r' \<noteq> None)))
   \<and> (\<forall>i f. db_families db i = Some f \<longrightarrow> (\<exists>f'. db_families db' i = Some f' \<and> fr_family f' = fr_family f
        \<and> (fr_revoked f \<noteq> None \<longrightarrow> fr_revoked f' \<noteq> None)))
   \<and> (\<forall>h t. db_tokens db h = Some t \<longrightarrow> (\<exists>t'. db_tokens db' h = Some t' \<and> tr_token t' = tr_token t
        \<and> tr_family t' = tr_family t \<and> (tr_consumed t \<noteq> None \<longrightarrow> tr_consumed t' \<noteq> None)))"

lemma db_grows_refl [simp, intro]: "db_grows db db"
  by (simp add: db_grows_def)

lemma db_grows_code: "db_grows a b \<Longrightarrow> db_codes a h = Some r \<Longrightarrow>
    \<exists>r'. db_codes b h = Some r' \<and> cr_code r' = cr_code r \<and> (cr_consumed r \<noteq> None \<longrightarrow> cr_consumed r' \<noteq> None)"
  unfolding db_grows_def by (drule conjunct1) blast

lemma db_grows_family: "db_grows a b \<Longrightarrow> db_families a i = Some f \<Longrightarrow>
    \<exists>f'. db_families b i = Some f' \<and> fr_family f' = fr_family f \<and> (fr_revoked f \<noteq> None \<longrightarrow> fr_revoked f' \<noteq> None)"
  unfolding db_grows_def by (drule conjunct2, drule conjunct1) blast

lemma db_grows_token: "db_grows a b \<Longrightarrow> db_tokens a h = Some t \<Longrightarrow>
    \<exists>t'. db_tokens b h = Some t' \<and> tr_token t' = tr_token t \<and> tr_family t' = tr_family t \<and> (tr_consumed t \<noteq> None \<longrightarrow> tr_consumed t' \<noteq> None)"
  unfolding db_grows_def by (drule conjunct2, drule conjunct2) blast

lemma db_growsI:
  assumes "\<And>h r. db_codes a h = Some r \<Longrightarrow>
      \<exists>r'. db_codes b h = Some r' \<and> cr_code r' = cr_code r \<and> (cr_consumed r \<noteq> None \<longrightarrow> cr_consumed r' \<noteq> None)"
    and "\<And>i f. db_families a i = Some f \<Longrightarrow>
      \<exists>f'. db_families b i = Some f' \<and> fr_family f' = fr_family f \<and> (fr_revoked f \<noteq> None \<longrightarrow> fr_revoked f' \<noteq> None)"
    and "\<And>h t. db_tokens a h = Some t \<Longrightarrow>
      \<exists>t'. db_tokens b h = Some t' \<and> tr_token t' = tr_token t \<and> tr_family t' = tr_family t \<and> (tr_consumed t \<noteq> None \<longrightarrow> tr_consumed t' \<noteq> None)"
  shows "db_grows a b"
  unfolding db_grows_def using assms by blast

lemma db_grows_trans: "db_grows a b \<Longrightarrow> db_grows b c \<Longrightarrow> db_grows a c"
  by (rule db_growsI)
    ((drule (1) db_grows_code db_grows_family db_grows_token, elim exE conjE)+, simp)+

lemma observed_iff: "code_spent db h \<longleftrightarrow> (\<exists>r. db_codes db h = Some r \<and> cr_consumed r \<noteq> None)"
  "token_used db h \<longleftrightarrow> (\<exists>t. db_tokens db h = Some t \<and> tr_consumed t \<noteq> None)"
  "family_revoked db i \<longleftrightarrow> (\<exists>f. db_families db i = Some f \<and> fr_revoked f \<noteq> None)"
  "family_issued db h i \<longleftrightarrow> (\<exists>f. db_families db i = Some f \<and> rf_code (fr_family f) = h)"
  "family_holds db h i \<longleftrightarrow> (\<exists>t. db_tokens db h = Some t \<and> tr_family t = i)"
  by (auto simp: code_spent_def token_used_def family_revoked_def family_issued_def family_holds_def split: option.splits)

lemma db_grows_spent: "db_grows a b \<Longrightarrow> code_spent a h \<Longrightarrow> code_spent b h"
  unfolding observed_iff by (meson db_grows_code)

lemma db_grows_used: "db_grows a b \<Longrightarrow> token_used a h \<Longrightarrow> token_used b h"
  unfolding observed_iff by (meson db_grows_token)

lemma db_grows_revoked: "db_grows a b \<Longrightarrow> family_revoked a i \<Longrightarrow> family_revoked b i"
  unfolding observed_iff by (meson db_grows_family)

lemma db_grows_issued: "db_grows a b \<Longrightarrow> family_issued a h i \<Longrightarrow> family_issued b h i"
  unfolding observed_iff by (metis db_grows_family)

lemma db_grows_holds: "db_grows a b \<Longrightarrow> family_holds a h i \<Longrightarrow> family_holds b h i"
  unfolding observed_iff by (metis db_grows_token)

subsection \<open>The elementary updates\<close>

lemma revoke_row_simps [simp]: "fr_family (revoke_row t r) = fr_family r" "fr_revoked (revoke_row t r) \<noteq> None"
  "\<exists>u. fr_revoked (revoke_row t r) = Some u"
  by (simp_all add: revoke_row_def split: option.splits)

lemma revoke_where_same [simp]: "db_codes (revoke_where e w p db) = db_codes db"
  "db_tokens (revoke_where e w p db) = db_tokens db" "db_clients (revoke_where e w p db) = db_clients db"
  by (simp_all add: revoke_where_def)

lemma revoke_where_family: "db_families (revoke_where e w p db) i = Some f \<longleftrightarrow>
    (\<exists>g. db_families db i = Some g \<and> f = (if rf_workspace (fr_family g) = w \<and> p (fr_family g) then revoke_row (de_now e) g else g))"
  by (cases "db_families db i") (auto simp: revoke_where_def)

lemma revoke_where_keeps: "db_families (revoke_where e w p db) i = Some f \<Longrightarrow> \<exists>g. db_families db i = Some g \<and> fr_family f = fr_family g"
  unfolding revoke_where_family by force

lemma dom_revoke_where [simp]: "dom (db_families (revoke_where e w p db)) = dom (db_families db)"
  by (auto simp: revoke_where_def dom_def)

lemma grows_revoke_where [intro]: "db_grows db (revoke_where e w p db)"
  by (rule db_growsI) (use revoke_row_simps in \<open>auto simp: revoke_where_family simp del: not_None_eq\<close>)

lemma ok_revoke_where: assumes ok: "db_ok db" shows "db_ok (revoke_where e w p db)"
proof -
  note [simp] = db_ok_defs
  have "families_ok (revoke_where e w p db)"
    unfolding families_ok_def revoke_where_same
  proof (intro allI impI)
    fix i f assume "db_families (revoke_where e w p db) i = Some f"
    from revoke_where_keeps [OF this] obtain g where "db_families db i = Some g" "fr_family f = fr_family g" by blast
    then show "\<exists>c. db_codes db (rf_code (fr_family f)) = Some c \<and> cr_consumed c \<noteq> None
        \<and> fr_family f = family_of_code i (cr_code c)" using ok by simp
  qed
  moreover have "single_family (revoke_where e w p db)"
    unfolding single_family_def by (metis (no_types, lifting) db_ok_def ok revoke_where_keeps single_family_def)
  moreover have "codes_ok (revoke_where e w p db)" "single_token (revoke_where e w p db)" using ok by simp_all
  moreover have "tokens_ok (revoke_where e w p db)"
    using ok unfolding db_ok_def tokens_ok_def dom_revoke_where revoke_where_same by blast
  ultimately show ?thesis unfolding db_ok_def by blast
qed

lemma grows_consume_code [intro]: "db_codes db h = Some r \<Longrightarrow> db_grows db (consume_code e h r db)"
  by (rule db_growsI) (auto simp: consume_code_def)

lemma grows_consume_token [intro]: "db_tokens db h = Some t \<Longrightarrow> db_grows db (consume_token e h t db)"
  by (rule db_growsI) (auto simp: consume_token_def)

lemma insert_family_Some: "insert_family i c db = Some db' \<longleftrightarrow> i \<notin> dom (db_families db) \<and> ac_client c \<in> dom (db_clients db)
    \<and> db' = db\<lparr>db_families := (db_families db)(i \<mapsto> \<lparr>fr_family = family_of_code i c, fr_revoked = None\<rparr>)\<rparr>"
  by (auto simp: insert_family_def)

lemma insert_token_Some: "insert_token i t db = Some db' \<longleftrightarrow> rt_hash t \<notin> dom (db_tokens db)
    \<and> db' = db\<lparr>db_tokens := (db_tokens db)(rt_hash t \<mapsto> \<lparr>tr_token = t, tr_family = i, tr_consumed = None\<rparr>)\<rparr>"
  by (auto simp: insert_token_def)

lemma grows_insert_family: "insert_family i c db = Some db' \<Longrightarrow> db_grows db db'"
  by (rule db_growsI) (auto simp: insert_family_Some)

lemma grows_insert_token: "insert_token i t db = Some db' \<Longrightarrow> db_grows db db'"
  by (rule db_growsI) (auto simp: insert_token_Some)

lemma family_of_code_sel [simp]: "rf_id (family_of_code i c) = i" "rf_code (family_of_code i c) = ac_hash c"
  "rf_workspace (family_of_code i c) = ac_workspace c"
  by (simp_all add: family_of_code_def)

lemma visible_code_Some: "visible_code w h db = Some r \<longleftrightarrow> db_codes db h = Some r \<and> ac_workspace (cr_code r) = w"
  by (auto simp: visible_code_def split: option.splits)

lemma visible_token_Some: "visible_token w h db = Some (t, f) \<longleftrightarrow>
    db_tokens db h = Some t \<and> db_families db (tr_family t) = Some f \<and> rf_workspace (fr_family f) = w"
  by (auto simp: visible_token_def visible_family_def split: option.splits)

lemma ok_consume_code:
  assumes ok: "db_ok db" and row: "db_codes db h = Some r"
  shows "db_ok (consume_code e h r db)"
proof -
  have "codes_ok (consume_code e h r db)" "single_family (consume_code e h r db)" "tokens_ok (consume_code e h r db)"
    "single_token (consume_code e h r db)"
    using ok row by (simp_all add: db_ok_defs consume_code_def)
  moreover have "families_ok (consume_code e h r db)"
    using ok row unfolding db_ok_def families_ok_def consume_code_def by fastforce
  ultimately show ?thesis by (simp add: db_ok_def)
qed

text \<open>A family opened for a code just consumed, with its first token.\<close>

lemma ok_open_family:
  assumes ok: "db_ok db" and row: "db_codes db h = Some r" "cr_consumed r = None"
    and fam: "insert_family i (cr_code r) (consume_code e h r db) = Some db2"
    and tok: "insert_token i t db2 = Some db3"
  shows "db_ok db3"
proof -
  have hash: "ac_hash (cr_code r) = h" using ok row by (simp add: db_ok_def codes_ok_def)
  have none: "rf_code (fr_family f) \<noteq> h" if "db_families db j = Some f" for j f
    using ok that row unfolding db_ok_def families_ok_def by force
  have new: "i \<notin> dom (db_families db)" using fam by (simp add: insert_family_Some consume_code_def)
  have notok: "\<not> (db_tokens db k = Some u \<and> tr_family u = i)" for k u
    using ok new unfolding db_ok_def tokens_ok_def by blast
  have db3: "db3 = db\<lparr>db_codes := (db_codes db)(h \<mapsto> r\<lparr>cr_consumed := Some (de_now e)\<rparr>),
      db_families := (db_families db)(i \<mapsto> \<lparr>fr_family = family_of_code i (cr_code r), fr_revoked = None\<rparr>),
      db_tokens := (db_tokens db)(rt_hash t \<mapsto> \<lparr>tr_token = t, tr_family = i, tr_consumed = None\<rparr>)\<rparr>"
    using fam tok by (simp add: insert_family_Some insert_token_Some consume_code_def)
  have "codes_ok db3" unfolding codes_ok_def db3
    using db_ok_code [OF ok] db_ok_code [OF ok row(1)] by (auto split: if_splits)
  moreover have "families_ok db3" unfolding families_ok_def db3
    using db_ok_family [OF ok] none hash by (simp add: fun_upd_def)
  moreover have "single_family db3" unfolding single_family_def db3
    using db_ok_one_family [OF ok] none hash by (simp add: fun_upd_def) blast
  moreover have "tokens_ok db3" unfolding tokens_ok_def db3
    using db_ok_token [OF ok] by (auto split: if_splits)
  moreover have "single_token db3" unfolding single_token_def db3
    using db_ok_one_token [OF ok] notok by (simp add: fun_upd_def) blast
  ultimately show ?thesis by (simp add: db_ok_def)
qed

lemma ok_rotate_token:
  assumes ok: "db_ok db" and row: "db_tokens db h = Some t" "tr_consumed t = None"
    and tok: "insert_token (tr_family t) n (consume_token e h t db) = Some db'"
  shows "db_ok db'"
proof -
  have db': "db' = db\<lparr>db_tokens := (db_tokens db)(h \<mapsto> t\<lparr>tr_consumed := Some (de_now e)\<rparr>,
      rt_hash n \<mapsto> \<lparr>tr_token = n, tr_family = tr_family t, tr_consumed = None\<rparr>)\<rparr>"
    using tok by (simp add: insert_token_Some consume_token_def)
  have other: "tr_consumed u \<noteq> None" if "db_tokens db k = Some u" "k \<noteq> h" "tr_family u = tr_family t" for k u
    using ok that row unfolding db_ok_def single_token_def by metis
  have "codes_ok db'" "families_ok db'" "single_family db'" using ok unfolding db' by (simp_all add: db_ok_defs)
  moreover have "tokens_ok db'" unfolding tokens_ok_def db'
    using db_ok_token [OF ok] db_ok_token [OF ok row(1)] by (auto split: if_splits)
  moreover have "single_token db'" unfolding single_token_def db'
    using db_ok_one_token [OF ok] other by (auto simp: fun_upd_def split: if_splits)
  ultimately show ?thesis by (simp add: db_ok_def)
qed

subsection \<open>The operations, case by case\<close>

lemma redeem_code_cases:
  assumes "redeem_code e w h chk first db = (res, db')"
  obtains (failed) x where "res = Inl x" "db' = db" "x = Not_found \<or> (\<exists>m. x = Store_failed m)"
  | (replayed) r u where "db_codes db h = Some r" "ac_workspace (cr_code r) = w" "cr_consumed r = Some u"
      "res = Inl Grant_reused" "db' = revoke_where e w (\<lambda>f. rf_code f = h) db"
  | (rejected) r x where "db_codes db h = Some r" "ac_workspace (cr_code r) = w" "cr_consumed r = None"
      "chk (cr_code r) = Some x" "res = Inl (Rejected x)" "db' = consume_code e h r db"
  | (redeemed) r db2 where "db_codes db h = Some r" "ac_workspace (cr_code r) = w" "cr_consumed r = None"
      "chk (cr_code r) = None" "insert_family (de_uuid e) (cr_code r) (consume_code e h r db) = Some db2"
      "insert_token (de_uuid e) first db2 = Some db'" "res = Inr (cr_code r, de_uuid e)"
proof (cases "w = [] \<or> h = [] \<or> rt_hash first = [] \<or> de_fails e \<or> visible_code w h db = None")
  case True
  with assms failed show ?thesis by (auto simp: redeem_code_def split: if_splits)
next
  case False
  then obtain r where vis: "visible_code w h db = Some r" by auto
  then have row: "db_codes db h = Some r" "ac_workspace (cr_code r) = w" by (simp_all add: visible_code_Some)
  show ?thesis
  proof (cases "cr_consumed r")
    case (Some u)
    with assms False vis row show ?thesis by (intro replayed [of r u]) (auto simp: redeem_code_def)
  next
    case None
    note open_code = this
    show ?thesis
    proof (cases "chk (cr_code r)")
      case (Some x)
      with assms False vis row open_code show ?thesis by (intro rejected [of r x]) (auto simp: redeem_code_def)
    next
      case None
      with assms False vis row open_code failed redeemed show ?thesis
        by (auto simp: redeem_code_def split: option.splits)
    qed
  qed
qed

lemma rotate_refresh_cases:
  assumes "rotate_refresh e w h chk nxt db = (res, db')"
  obtains (failed) x where "res = Inl x" "db' = db" "x \<noteq> Grant_reused"
  | (reused) t f u where "db_tokens db h = Some t" "db_families db (tr_family t) = Some f" "rf_workspace (fr_family f) = w"
      "fr_revoked f = None" "tr_consumed t = Some u" "res = Inl Grant_reused"
      "db' = revoke_where e w (\<lambda>g. rf_id g = tr_family t) db"
  | (rotated) t f where "db_tokens db h = Some t" "db_families db (tr_family t) = Some f" "rf_workspace (fr_family f) = w"
      "fr_revoked f = None" "tr_consumed t = None" "chk (fr_family f) (tr_token t) = None"
      "insert_token (tr_family t) nxt (consume_token e h t db) = Some db'" "res = Inr (fr_family f)"
proof (cases "w = [] \<or> h = [] \<or> rt_hash nxt = [] \<or> de_fails e \<or> visible_token w h db = None")
  case True
  with assms failed show ?thesis by (auto simp: rotate_refresh_def split: if_splits)
next
  case False
  then obtain t f where vis: "visible_token w h db = Some (t, f)" by auto
  then have row: "db_tokens db h = Some t" "db_families db (tr_family t) = Some f" "rf_workspace (fr_family f) = w"
    by (simp_all add: visible_token_Some)
  show ?thesis
  proof (cases "fr_revoked f = None")
    case live: True
    show ?thesis
    proof (cases "tr_consumed t")
      case (Some u)
      with assms False vis row live show ?thesis by (intro reused [of t f u]) (auto simp: rotate_refresh_def)
    next
      case None
      with assms False vis row live failed rotated show ?thesis
        by (auto simp: rotate_refresh_def split: option.splits)
    qed
  qed (use assms False vis failed in \<open>auto simp: rotate_refresh_def split: if_splits\<close>)
qed

lemma redeem_keeps: "redeem_code e w h chk first db = (res, db') \<Longrightarrow> db_ok db \<Longrightarrow> db_ok db' \<and> db_grows db db'"
proof (erule redeem_code_cases)
  assume ok: "db_ok db"
  fix r db2
  assume r: "db_codes db h = Some r" "cr_consumed r = None"
    and ins: "insert_family (de_uuid e) (cr_code r) (consume_code e h r db) = Some db2"
      "insert_token (de_uuid e) first db2 = Some db'"
  have "db_ok db'" by (rule ok_open_family [OF ok r ins])
  moreover have "db_grows db db'"
    using grows_consume_code [OF r(1)] grows_insert_family [OF ins(1)] grows_insert_token [OF ins(2)]
    by (meson db_grows_trans)
  ultimately show ?thesis by blast
qed (auto intro: ok_revoke_where ok_consume_code)

lemma rotate_keeps: "rotate_refresh e w h chk nxt db = (res, db') \<Longrightarrow> db_ok db \<Longrightarrow> db_ok db' \<and> db_grows db db'"
proof (erule rotate_refresh_cases)
  assume ok: "db_ok db"
  fix t f
  assume t: "db_tokens db h = Some t" "tr_consumed t = None"
    and ins: "insert_token (tr_family t) nxt (consume_token e h t db) = Some db'"
  have "db_ok db'" by (rule ok_rotate_token [OF ok t ins])
  moreover have "db_grows db db'"
    using grows_consume_token [OF t(1)] grows_insert_token [OF ins] by (meson db_grows_trans)
  ultimately show ?thesis by blast
qed (auto intro: ok_revoke_where)

lemma create_keeps: "create_client e c db = (res, db') \<Longrightarrow> db_ok db \<Longrightarrow> db_ok db' \<and> db_grows db db'"
proof (cases "db' = db")
  case False
  assume cr: "create_client e c db = (res, db')" and ok: "db_ok db"
  with False have db': "db' = db\<lparr>db_clients := (db_clients db)(oc_id c \<mapsto> c)\<rparr>"
    by (auto simp: create_client_def split: if_splits)
  have "codes_ok db'" unfolding codes_ok_def db' using db_ok_code [OF ok] by (fastforce simp: dom_def)
  moreover have "families_ok db'" "single_family db'" "tokens_ok db'" "single_token db'"
    using ok unfolding db' by (simp_all add: db_ok_defs)
  moreover have "db_grows db db'" unfolding db' by (intro db_growsI) auto
  ultimately show ?thesis by (simp add: db_ok_def)
qed auto

lemma save_keeps: "save_code e c db = (res, db') \<Longrightarrow> db_ok db \<Longrightarrow> db_ok db' \<and> db_grows db db'"
proof (cases "db' = db")
  case False
  assume sv: "save_code e c db = (res, db')" and ok: "db_ok db"
  with False have new: "ac_hash c \<notin> dom (db_codes db)" and cl: "ac_client c \<in> dom (db_clients db)"
    and db': "db' = db\<lparr>db_codes := (db_codes db)(ac_hash c \<mapsto> \<lparr>cr_code = c, cr_consumed = None\<rparr>)\<rparr>"
    by (auto simp: save_code_def split: if_splits)
  have "codes_ok db'" unfolding codes_ok_def db' using db_ok_code [OF ok] cl by (auto split: if_splits)
  moreover have "families_ok db'" unfolding families_ok_def db'
    using db_ok_family [OF ok] new by (fastforce simp: fun_upd_def)
  moreover have "single_family db'" "tokens_ok db'" "single_token db'" using ok unfolding db' by (simp_all add: db_ok_defs)
  moreover have "db_grows db db'" using new unfolding db' by (intro db_growsI) auto
  ultimately show ?thesis by (simp add: db_ok_def)
qed auto

lemma revoke_keeps: "revoke_family e w i db = (res, db') \<Longrightarrow> db_ok db \<Longrightarrow> db_ok db' \<and> db_grows db db'"
  "revoke_refresh e w h cl db = (res', db') \<Longrightarrow> db_ok db \<Longrightarrow> db_ok db' \<and> db_grows db db'"
  by (auto simp: revoke_family_def revoke_refresh_def intro: ok_revoke_where split: if_splits option.splits)

lemma db_step_keeps: "db_step db db' \<Longrightarrow> db_ok db \<Longrightarrow> db_ok db' \<and> db_grows db db'"
  by (erule db_stepE) (blast dest: create_keeps save_keeps redeem_keeps rotate_keeps revoke_keeps)+

lemma db_run_keeps: "db_step\<^sup>*\<^sup>* db db' \<Longrightarrow> db_ok db \<Longrightarrow> db_ok db' \<and> db_grows db db'"
  by (induction rule: rtranclp_induct) (blast dest: db_step_keeps intro: db_grows_trans)+

subsection \<open>The store satisfies the interface\<close>

interpretation pg: grant_store db_step
    "redeem_code :: db_env \<Rightarrow> string \<Rightarrow> string \<Rightarrow> (auth_code \<Rightarrow> grant_error option) \<Rightarrow> refresh_token \<Rightarrow> oauth_db \<Rightarrow> (grant_error grant_store_error + auth_code \<times> string) \<times> oauth_db"
    rotate_refresh db_ok code_spent token_used family_revoked family_issued family_holds
proof unfold_locales
  fix db db' h i
  assume st: "db_step db db'" and ok: "db_ok db"
  then have "db_grows db db'" by (blast dest: db_step_keeps)
  then show "code_spent db h \<Longrightarrow> code_spent db' h" "token_used db h \<Longrightarrow> token_used db' h"
    "family_revoked db i \<Longrightarrow> family_revoked db' i" "family_issued db h i \<Longrightarrow> family_issued db' h i"
    "family_holds db h i \<Longrightarrow> family_holds db' h i"
    by (metis db_grows_spent, metis db_grows_used, metis db_grows_revoked, metis db_grows_issued, metis db_grows_holds)
  show "db_ok db'" using st ok by (blast dest: db_step_keeps)
next
  fix e w h db and chk :: "auth_code \<Rightarrow> grant_error option" and first
  show "db_step db (snd (redeem_code e w h chk first db))" by (metis db_step.redeem prod.collapse)
next
  fix e w h db and chk :: "refresh_family \<Rightarrow> refresh_token \<Rightarrow> grant_error option" and nxt
  show "db_step db (snd (rotate_refresh e w h chk nxt db))" by (metis db_step.rotate prod.collapse)
next
  fix e w h db db' c i and chk :: "auth_code \<Rightarrow> grant_error option" and first
  assume ok: "db_ok db" and "redeem_code e w h chk first db = (Inr (c, i), db')"
  from this(2) show "\<not> code_spent db h \<and> code_spent db' h \<and> family_issued db' h i \<and> family_holds db' (rt_hash first) i \<and> chk c = None"
    using db_ok_code [OF ok]
    by (cases rule: redeem_code_cases)
      (auto simp: code_spent_def family_issued_def family_holds_def insert_family_Some insert_token_Some consume_code_def)
next
  fix e w h db db' x and chk :: "auth_code \<Rightarrow> grant_error option" and first
  assume "db_ok db" and "redeem_code e w h chk first db = (Inl (Rejected x), db')"
  from this(2) show "code_spent db' h"
    by (cases rule: redeem_code_cases) (auto simp: code_spent_def consume_code_def)
next
  fix e w h db db' i and chk :: "auth_code \<Rightarrow> grant_error option" and first
  assume ok: "db_ok db" and rd: "redeem_code e w h chk first db = (Inl Grant_reused, db')" and iss: "family_issued db' h i"
  from rd show "family_revoked db' i"
  proof (cases rule: redeem_code_cases)
    case (replayed r u)
    from iss obtain f where "db_families db' i = Some f" "rf_code (fr_family f) = h" by (auto simp: observed_iff)
    then obtain g where g: "db_families db i = Some g" "rf_code (fr_family g) = h"
      using revoke_where_keeps unfolding replayed by metis
    with db_ok_family [OF ok g(1)] replayed(1,2) have "rf_workspace (fr_family g) = w" by auto
    with g show ?thesis unfolding observed_iff replayed by (simp add: revoke_where_def)
  qed auto
next
  fix e w h db db' f and chk :: "refresh_family \<Rightarrow> refresh_token \<Rightarrow> grant_error option" and nxt
  assume ok: "db_ok db" and "rotate_refresh e w h chk nxt db = (Inr f, db')"
  from this(2) show "\<not> token_used db h \<and> token_used db' h \<and> family_holds db h (rf_id f) \<and> family_holds db' (rt_hash nxt) (rf_id f)
      \<and> \<not> family_revoked db (rf_id f)"
  proof (cases rule: rotate_refresh_cases)
    case (rotated t g)
    from db_ok_family [OF ok rotated(2)] have "rf_id (fr_family g) = tr_family t" by auto
    with rotated show ?thesis
      by (auto simp: token_used_def family_holds_def family_revoked_def insert_token_Some consume_token_def)
  qed auto
next
  fix e w h db db' i and chk :: "refresh_family \<Rightarrow> refresh_token \<Rightarrow> grant_error option" and nxt
  assume ok: "db_ok db" and "rotate_refresh e w h chk nxt db = (Inl Grant_reused, db')" and "family_holds db h i"
  from this(2,3) show "family_revoked db' i"
  proof (cases rule: rotate_refresh_cases)
    case (reused t f u)
    from db_ok_family [OF ok reused(2)] have "rf_id (fr_family f) = tr_family t" by auto
    with reused show ?thesis using \<open>family_holds db h i\<close> by (simp add: observed_iff revoke_where_def)
  qed auto
next
  fix db h i j
  assume "family_holds db h i" "family_holds db h j"
  then show "i = j" by (auto simp: observed_iff)
qed

end
