(* ===== verification/OAuthProperties.thy ===== *)
theory OAuthProperties
  imports OAuthServer OAuthGrants
begin

text \<open>
  The token endpoint over the grant store: what a successful exchange needs and leaves behind, that
  grants are redeemed once, that a replay ends them, and that no access token exceeds the grant a
  person consented to.
\<close>

subsection \<open>Successful exchanges\<close>

lemma code_check_None: "code_check e f cl ws c = None \<longleftrightarrow>
    ac_workspace c = ws \<and> te_now e < ac_expires c \<and> ac_client c = oc_id cl \<and> ac_redirect c = form_get f ''redirect_uri''
    \<and> pkce_matches (te_sha e) (form_get f ''code_verifier'') (ac_challenge c)
    \<and> (form_has f ''resource'' \<longrightarrow> form_get f ''resource'' = ac_resource c)"
  by (simp add: code_check_def)

lemma refresh_check_None: "refresh_check e f cl ws q fam t = None \<longleftrightarrow>
    rf_workspace fam = ws \<and> rf_client fam = oc_id cl \<and> te_now e < rt_expires t
    \<and> (\<forall>p. q = Some p \<longrightarrow> set p \<subseteq> set (rf_scopes fam))
    \<and> (form_has f ''resource'' \<longrightarrow> form_get f ''resource'' = rf_resource fam)"
  by (auto simp: refresh_check_def contains_all_iff)

lemma token_request_Inr: "token_request e r db = Inr (f, cl) \<Longrightarrow>
    tp_form r = Some f \<and> db_clients db (form_get f ''client_id'') = Some cl"
  by (auto simp: token_request_def get_client_def split: if_splits option.splits sum.splits grant_store_error.splits)

lemma redeem_grant_Inr:
  assumes "redeem_grant cfg e f cl db = (Inr resp, db')"
  obtains ws refresh code fam a where "parse_opaque code_prefix (form_get f ''code'') = Some ws"
    "new_opaque refresh_prefix ws (te_random e) = Some refresh"
    "redeem_code (te_store e) ws (te_sha e (form_get f ''code'')) (code_check e f cl ws) (fresh_token cfg e refresh) db = (Inr (code, fam), db')"
    "te_mint e (ac_resource code) \<lparr>wq_subject = ac_subject code, wq_workspace = ac_workspace code, wq_scopes = ac_scopes code,
        wq_parent_subject = [], wq_parent_scopes = [], wq_ttl = 0, wq_subject_type = ''human''\<rparr> = Some a"
    "resp = make_token_response (te_now_response e) a refresh (ac_scopes code)"
  using assms that
  by (auto simp: redeem_grant_def mint_access_def Let_def split: if_splits option.splits sum.splits prod.splits)

lemma requested_scopes_Inr: "requested_scopes f = Inr (Some p) \<Longrightarrow> p \<noteq> []"
  by (auto simp: requested_scopes_def split: if_splits option.splits list.splits)

lemma refresh_grant_Inr:
  assumes "refresh_grant cfg e f cl db = (Inr resp, db')"
  obtains ws q nxt fam a where "parse_opaque refresh_prefix (form_get f ''refresh_token'') = Some ws"
    "requested_scopes f = Inr q" "new_opaque refresh_prefix ws (te_random e) = Some nxt"
    "rotate_refresh (te_store e) ws (te_sha e (form_get f ''refresh_token'')) (refresh_check e f cl ws q) (fresh_token cfg e nxt) db = (Inr fam, db')"
    "te_mint e (rf_resource fam) \<lparr>wq_subject = rf_subject fam, wq_workspace = rf_workspace fam,
        wq_scopes = (case q of None \<Rightarrow> rf_scopes fam | Some p \<Rightarrow> p), wq_parent_subject = [], wq_parent_scopes = [], wq_ttl = 0, wq_subject_type = ''human''\<rparr> = Some a"
    "resp = make_token_response (te_now_response e) a nxt (case q of None \<Rightarrow> rf_scopes fam | Some p \<Rightarrow> p)"
  using assms that
  by (auto simp: refresh_grant_def mint_access_def Let_def split: if_splits option.splits sum.splits prod.splits)

subsection \<open>Every handler is a run of the store\<close>

definition others_run :: "token_env \<Rightarrow> bool" where
  "others_run e \<longleftrightarrow> (\<forall>db. db_step\<^sup>*\<^sup>* db (te_before e db) \<and> db_step\<^sup>*\<^sup>* db (te_between e db))"

lemma redeem_run: "redeem_code n w h (chk :: auth_code \<Rightarrow> grant_error option) first db = (x, db') \<Longrightarrow> db_step\<^sup>*\<^sup>* db db'"
  by (auto intro: db_step.redeem)

lemma rotate_run: "rotate_refresh n w h (chk :: refresh_family \<Rightarrow> refresh_token \<Rightarrow> grant_error option) nxt db = (x, db') \<Longrightarrow> db_step\<^sup>*\<^sup>* db db'"
  by (auto intro: db_step.rotate)

lemma revoke_run: "db_step\<^sup>*\<^sup>* db (snd (revoke_family n w i db :: (grant_error grant_store_error + unit) \<times> oauth_db))"
  by (metis db_step.revoke_fam prod.collapse r_into_rtranclp)

lemma revoke_after: "others_run e \<Longrightarrow> db_step\<^sup>*\<^sup>* db db1 \<Longrightarrow>
    db_step\<^sup>*\<^sup>* db (snd (revoke_family n w i (te_between e db1) :: (grant_error grant_store_error + unit) \<times> oauth_db))"
  unfolding others_run_def by (meson revoke_run rtranclp_trans)

lemma redeem_grant_run: "others_run e \<Longrightarrow> redeem_grant cfg e f cl db = (res, db') \<Longrightarrow> db_step\<^sup>*\<^sup>* db db'"
  by (auto simp: redeem_grant_def Let_def split: if_splits option.splits sum.splits prod.splits
      intro: redeem_run revoke_after)

lemma refresh_grant_run: "others_run e \<Longrightarrow> refresh_grant cfg e f cl db = (res, db') \<Longrightarrow> db_step\<^sup>*\<^sup>* db db'"
  by (auto simp: refresh_grant_def Let_def split: if_splits option.splits sum.splits prod.splits
      intro: rotate_run revoke_after)

lemma handle_token_run: "others_run e \<Longrightarrow> handle_token cfg e r db = (res, db') \<Longrightarrow> db_step\<^sup>*\<^sup>* db db'"
proof -
  assume oth: "others_run e" and h: "handle_token cfg e r db = (res, db')"
  have "db' = db \<or> (\<exists>f cl. redeem_grant cfg e f cl (te_before e db) = (res, db') \<or> refresh_grant cfg e f cl (te_before e db) = (res, db'))"
    using h by (auto simp: handle_token_def Let_def split: sum.splits prod.splits if_splits)
  moreover have "db_step\<^sup>*\<^sup>* db (te_before e db)" using oth by (simp add: others_run_def)
  ultimately show ?thesis by (metis (no_types, opaque_lifting) oth redeem_grant_run refresh_grant_run rtranclp.rtrancl_refl rtranclp_trans)
qed

lemma handle_token_Inr:
  assumes "handle_token cfg e r db = (Inr resp, db')"
  obtains f cl where "token_request e r db = Inr (f, cl)"
    "form_get f ''grant_type'' = ''authorization_code'' \<and> redeem_grant cfg e f cl (te_before e db) = (Inr resp, db')
     \<or> form_get f ''grant_type'' = ''refresh_token'' \<and> refresh_grant cfg e f cl (te_before e db) = (Inr resp, db')"
  using assms that by (auto simp: handle_token_def Let_def split: sum.splits prod.splits if_splits)

subsection \<open>Grants\<close>

lemma reach_ok: "db_step\<^sup>*\<^sup>* empty_db db \<Longrightarrow> db_ok db"
  using db_run_keeps [OF _ db_ok_empty] by blast

lemma others_before: "others_run e \<Longrightarrow> db_step\<^sup>*\<^sup>* db (te_before e db)"
  by (simp add: others_run_def)

lemma before_ok: "others_run e \<Longrightarrow> db_ok db \<Longrightarrow> db_ok (te_before e db)"
  using db_run_keeps others_before by blast

text \<open>The credential a token request presents.\<close>

definition credential :: "form_values \<Rightarrow> string" where
  "credential f = (if form_get f ''grant_type'' = ''authorization_code'' then form_get f ''code'' else form_get f ''refresh_token'')"

text \<open>The family a presented credential belongs to.\<close>

definition grant_family :: "oauth_db \<Rightarrow> form_values \<Rightarrow> string \<Rightarrow> string \<Rightarrow> bool" where
  "grant_family db f h i = (if form_get f ''grant_type'' = ''authorization_code'' then family_issued db h i else family_holds db h i)"

lemma error_texts: "redeem_error x = redeem_error Grant_reused \<Longrightarrow> x = Grant_reused \<or> x = Rejected (redeem_error Grant_reused)"
  "refresh_error x = refresh_error Grant_reused \<Longrightarrow> x = Grant_reused \<or> x = Rejected (refresh_error Grant_reused)"
  "code_check e f cl ws c \<noteq> Some (redeem_error Grant_reused)"
  "refresh_check e f cl ws q fam t \<noteq> Some (refresh_error Grant_reused)"
  by (cases x; simp add: redeem_error_def refresh_error_def code_check_def refresh_check_def invalid_grant_def grant_err_def unavailable_def)+

lemma redeem_rejects: "redeem_code n w h chk first db = (Inl (Rejected g), db') \<Longrightarrow> \<exists>c. chk c = Some g"
  by (erule redeem_code_cases) auto

lemma rotate_rejects: "rotate_refresh n w h chk nxt db = (Inl (Rejected g), db') \<Longrightarrow> \<exists>fam t. chk fam t = Some g"
  by (simp add: rotate_refresh_def split: if_splits option.splits prod.splits) blast

lemma reused_error_redeem:
  assumes "redeem_grant cfg e f cl db = (Inl (redeem_error Grant_reused), db')"
  shows "\<exists>ws first. redeem_code (te_store e) ws (te_sha e (form_get f ''code'')) (code_check e f cl ws) first db = (Inl Grant_reused, db')"
proof -
  have "\<exists>ws first x. redeem_code (te_store e) ws (te_sha e (form_get f ''code'')) (code_check e f cl ws) first db = (Inl x, db')
      \<and> redeem_error x = redeem_error Grant_reused"
    using assms
    by (simp add: redeem_grant_def Let_def mint_access_def split: if_splits option.splits sum.splits prod.splits)
      (auto simp: redeem_error_def invalid_grant_def grant_err_def)
  then show ?thesis using error_texts(1,3) redeem_rejects by metis
qed

lemma requested_scopes_Inl: "requested_scopes f \<noteq> Inl (refresh_error Grant_reused)"
  by (auto simp: requested_scopes_def refresh_error_def invalid_grant_def grant_err_def split: option.splits list.splits)

lemma reused_error_refresh:
  assumes "refresh_grant cfg e f cl db = (Inl (refresh_error Grant_reused), db')"
  shows "\<exists>ws q nxt. rotate_refresh (te_store e) ws (te_sha e (form_get f ''refresh_token'')) (refresh_check e f cl ws q) nxt db = (Inl Grant_reused, db')"
proof -
  have "\<exists>ws q nxt x. rotate_refresh (te_store e) ws (te_sha e (form_get f ''refresh_token'')) (refresh_check e f cl ws q) nxt db = (Inl x, db')
      \<and> refresh_error x = refresh_error Grant_reused"
    using assms requested_scopes_Inl [of f]
    by (simp add: refresh_grant_def Let_def mint_access_def split: if_splits option.splits sum.splits prod.splits)
      (auto simp: refresh_error_def invalid_grant_def grant_err_def)
  then show ?thesis using error_texts(2,4) rotate_rejects by metis
qed

lemma handle_token_form: "token_request e r db = Inr (f, cl) \<Longrightarrow> tp_form r = Some g \<Longrightarrow> f = g"
  by (auto dest: token_request_Inr)

lemma handle_token_exchanged:
  assumes "handle_token cfg e r db = (Inr resp, db')" and "tp_form r = Some f"
  obtains (code) ws chk first y where "form_get f ''grant_type'' = ''authorization_code''"
      "redeem_code (te_store e) ws (te_sha e (credential f)) (chk :: auth_code \<Rightarrow> grant_error option) first (te_before e db) = (Inr y, db')"
  | (refresh) ws chk nxt y where "form_get f ''grant_type'' = ''refresh_token''"
      "rotate_refresh (te_store e) ws (te_sha e (credential f)) (chk :: refresh_family \<Rightarrow> refresh_token \<Rightarrow> grant_error option) nxt (te_before e db) = (Inr y, db')"
proof -
  obtain f' cl where req: "token_request e r db = Inr (f', cl)"
    and alt: "form_get f' ''grant_type'' = ''authorization_code'' \<and> redeem_grant cfg e f' cl (te_before e db) = (Inr resp, db')
      \<or> form_get f' ''grant_type'' = ''refresh_token'' \<and> refresh_grant cfg e f' cl (te_before e db) = (Inr resp, db')"
    by (rule handle_token_Inr [OF assms(1)])
  have "f' = f" by (rule handle_token_form [OF req assms(2)])
  with alt have "form_get f ''grant_type'' = ''authorization_code'' \<and> redeem_grant cfg e f cl (te_before e db) = (Inr resp, db')
      \<or> form_get f ''grant_type'' = ''refresh_token'' \<and> refresh_grant cfg e f cl (te_before e db) = (Inr resp, db')"
    by blast
  then show ?thesis
  proof (elim disjE conjE)
    assume gt: "form_get f ''grant_type'' = ''authorization_code''" and g: "redeem_grant cfg e f cl (te_before e db) = (Inr resp, db')"
    have cr: "form_get f ''code'' = credential f" using gt by (simp add: credential_def)
    obtain ws first y where "redeem_code (te_store e) ws (te_sha e (form_get f ''code'')) (code_check e f cl ws) first (te_before e db) = (Inr y, db')"
      by (rule redeem_grant_Inr [OF g]) blast
    then show ?thesis unfolding cr by (rule code [OF gt])
  next
    assume gt: "form_get f ''grant_type'' = ''refresh_token''" and g: "refresh_grant cfg e f cl (te_before e db) = (Inr resp, db')"
    have cr: "form_get f ''refresh_token'' = credential f" using gt by (simp add: credential_def)
    obtain ws q nxt y where "rotate_refresh (te_store e) ws (te_sha e (form_get f ''refresh_token'')) (refresh_check e f cl ws q) nxt (te_before e db) = (Inr y, db')"
      by (rule refresh_grant_Inr [OF g]) blast
    then show ?thesis unfolding cr by (rule refresh [OF gt])
  qed
qed

lemma not_reused: "grant_err st c d \<notin> {redeem_error Grant_reused, refresh_error Grant_reused}" if "c \<noteq> ''invalid_grant''"
  using that by (simp add: redeem_error_def refresh_error_def invalid_grant_def grant_err_def)

lemma token_request_not_reused: "token_request e r db = Inl g \<Longrightarrow> g \<notin> {redeem_error Grant_reused, refresh_error Grant_reused}"
  by (auto simp: token_request_def unavailable_def redeem_error_def refresh_error_def invalid_grant_def grant_err_def
      split: if_splits option.splits sum.splits grant_store_error.splits)

lemma redeem_not_refresh_error: "redeem_grant cfg e f cl db \<noteq> (Inl (refresh_error Grant_reused), db')"
proof
  assume "redeem_grant cfg e f cl db = (Inl (refresh_error Grant_reused), db')"
  then have "\<exists>ws first x. redeem_code (te_store e) ws (te_sha e (form_get f ''code'')) (code_check e f cl ws) first db = (Inl x, db')
      \<and> redeem_error x = refresh_error Grant_reused"
    by (simp add: redeem_grant_def Let_def mint_access_def split: if_splits option.splits sum.splits prod.splits)
      (auto simp: refresh_error_def invalid_grant_def grant_err_def)
  then show False
    using redeem_rejects by (fastforce simp: redeem_error_def refresh_error_def code_check_def invalid_grant_def grant_err_def unavailable_def
        split: grant_store_error.splits if_splits)
qed

lemma refresh_not_redeem_error: "refresh_grant cfg e f cl db \<noteq> (Inl (redeem_error Grant_reused), db')"
proof
  assume "refresh_grant cfg e f cl db = (Inl (redeem_error Grant_reused), db')"
  then have "\<exists>ws q nxt x. rotate_refresh (te_store e) ws (te_sha e (form_get f ''refresh_token'')) (refresh_check e f cl ws q) nxt db = (Inl x, db')
      \<and> refresh_error x = redeem_error Grant_reused"
    by (simp add: refresh_grant_def Let_def mint_access_def split: if_splits option.splits sum.splits prod.splits)
      (auto simp: redeem_error_def invalid_grant_def grant_err_def requested_scopes_def split: if_splits option.splits list.splits)
  then show False
    using rotate_rejects by (fastforce simp: redeem_error_def refresh_error_def refresh_check_def invalid_grant_def grant_err_def unavailable_def
        split: grant_store_error.splits if_splits)
qed

lemma handle_token_reused:
  assumes "handle_token cfg e r db = (Inl g, db')" and "tp_form r = Some f" and "g \<in> {redeem_error Grant_reused, refresh_error Grant_reused}"
  obtains (code) ws chk first where "form_get f ''grant_type'' = ''authorization_code''"
      "redeem_code (te_store e) ws (te_sha e (credential f)) (chk :: auth_code \<Rightarrow> grant_error option) first (te_before e db) = (Inl Grant_reused, db')"
  | (refresh) ws chk nxt where "form_get f ''grant_type'' = ''refresh_token''"
      "rotate_refresh (te_store e) ws (te_sha e (credential f)) (chk :: refresh_family \<Rightarrow> refresh_token \<Rightarrow> grant_error option) nxt (te_before e db) = (Inl Grant_reused, db')"
proof -
  have texts: "redeem_error Grant_reused \<noteq> refresh_error Grant_reused"
    by (simp add: redeem_error_def refresh_error_def invalid_grant_def grant_err_def)
  obtain cl where "form_get f ''grant_type'' = ''authorization_code'' \<and> redeem_grant cfg e f cl (te_before e db) = (Inl g, db')
      \<or> form_get f ''grant_type'' = ''refresh_token'' \<and> refresh_grant cfg e f cl (te_before e db) = (Inl g, db')"
  proof (cases "token_request e r db")
    case (Inl x)
    with assms token_request_not_reused [OF Inl] show ?thesis by (simp add: handle_token_def)
  next
    case (Inr p)
    with handle_token_form assms(2) obtain cl where "token_request e r db = Inr (f, cl)" by (metis prod.collapse)
    with assms(1,3) that show ?thesis
      by (auto simp: handle_token_def Let_def redeem_error_def refresh_error_def invalid_grant_def grant_err_def split: if_splits)
  qed
  then show ?thesis
  proof (elim disjE conjE)
    assume gt: "form_get f ''grant_type'' = ''authorization_code''" and rg: "redeem_grant cfg e f cl (te_before e db) = (Inl g, db')"
    have cr: "form_get f ''code'' = credential f" using gt by (simp add: credential_def)
    have "g = redeem_error Grant_reused" using rg assms(3) redeem_not_refresh_error by blast
    with rg obtain ws first where "redeem_code (te_store e) ws (te_sha e (form_get f ''code'')) (code_check e f cl ws) first (te_before e db) = (Inl Grant_reused, db')"
      using reused_error_redeem by blast
    then show ?thesis unfolding cr by (rule code [OF gt])
  next
    assume gt: "form_get f ''grant_type'' = ''refresh_token''" and rg: "refresh_grant cfg e f cl (te_before e db) = (Inl g, db')"
    have cr: "form_get f ''refresh_token'' = credential f" using gt by (simp add: credential_def)
    have "g = refresh_error Grant_reused" using rg assms(3) refresh_not_redeem_error by blast
    with rg obtain ws q nxt where "rotate_refresh (te_store e) ws (te_sha e (form_get f ''refresh_token'')) (refresh_check e f cl ws q) nxt (te_before e db) = (Inl Grant_reused, db')"
      using reused_error_refresh by blast
    then show ?thesis unfolding cr by (rule refresh [OF gt])
  qed
qed

text \<open>C16. The grant tables of every reachable store, whatever operations interleave: a refresh family is an
  exact copy of the client, subject, workspace, resource and scopes of one consumed authorization code and
  the only family of that code; every refresh token belongs to a family; and no family has two refresh
  tokens that are both unused.\<close>

theorem grants_invariant:
  assumes "db_step\<^sup>*\<^sup>* empty_db db"
  shows "(\<forall>i f. db_families db i = Some f \<longrightarrow> (\<exists>c. db_codes db (rf_code (fr_family f)) = Some c
            \<and> cr_consumed c \<noteq> None \<and> fr_family f = family_of_code i (cr_code c)))
    \<and> (\<forall>i j f g. db_families db i = Some f \<longrightarrow> db_families db j = Some g
            \<longrightarrow> rf_code (fr_family f) = rf_code (fr_family g) \<longrightarrow> i = j)
    \<and> (\<forall>h t. db_tokens db h = Some t \<longrightarrow> tr_family t \<in> dom (db_families db))
    \<and> (\<forall>h k t u. db_tokens db h = Some t \<longrightarrow> db_tokens db k = Some u \<longrightarrow> tr_family t = tr_family u
            \<longrightarrow> tr_consumed t = None \<longrightarrow> tr_consumed u = None \<longrightarrow> h = k)"
  by (intro conjI) (use reach_ok [OF assms] in \<open>blast dest: db_ok_family db_ok_one_family db_ok_token db_ok_one_token\<close>)+

text \<open>C4. A credential is exchanged at most once: after the token endpoint has answered a request that
  presents an authorization code or a refresh token, no later request that presents it for the same grant
  type gets tokens, whatever operations and requests run in between.\<close>

theorem credential_exchanged_once:
  assumes reach: "db_step\<^sup>*\<^sup>* empty_db db" and others: "others_run e" "others_run e'"
    and first: "handle_token cfg e r db = (Inr resp, db1)" "tp_form r = Some f" and run: "db_step\<^sup>*\<^sup>* db1 db2"
    and second: "tp_form r' = Some f'" "form_get f' ''grant_type'' = form_get f ''grant_type''" "credential f' = credential f"
      "te_sha e' = te_sha e"
  shows "fst (handle_token cfg' e' r' db2) \<noteq> Inr resp'"
proof
  assume "fst (handle_token cfg' e' r' db2) = Inr resp'"
  then obtain db3 where again: "handle_token cfg' e' r' db2 = (Inr resp', db3)" by (metis prod.collapse)
  have ok: "db_ok (te_before e db)" by (rule before_ok [OF others(1) reach_ok [OF reach]])
  have later: "db_step\<^sup>*\<^sup>* db1 (te_before e' db2)" using run others_before [OF others(2)] by (rule rtranclp_trans)
  from first show False
  proof (cases rule: handle_token_exchanged)
    case (code ws chk fst' y)
    from again second(1) show False
    proof (cases rule: handle_token_exchanged)
      case again: (code ws' chk' first' z)
      then show False using pg.redeem_once [OF ok code(2) disjI1 [OF refl] later, of "te_store e'" ws' chk' first' z] second(3,4) by simp
    qed (use code(1) second(2) in simp)
  next
    case (refresh ws chk nxt y)
    from again second(1) show False
    proof (cases rule: handle_token_exchanged)
      case again: (refresh ws' chk' nxt' z)
      then show False using pg.rotate_once [OF ok refresh(2) later, of "te_store e'" ws' chk' nxt' z] second(3,4) by simp
    qed (use refresh(1) second(2) in simp)
  qed
qed

text \<open>C9. Reuse is contained: once the token endpoint has reported that a presented code or refresh token was
  used before, no refresh token of the family it belongs to is exchanged ever again.\<close>

theorem reuse_ends_grant:
  assumes reach: "db_step\<^sup>*\<^sup>* empty_db db" and others: "others_run e" "others_run e'"
    and reuse: "handle_token cfg e r db = (Inl g, db1)" "tp_form r = Some f" "g \<in> {redeem_error Grant_reused, refresh_error Grant_reused}"
    and fam: "grant_family db1 f (te_sha e (credential f)) i"
    and run: "db_step\<^sup>*\<^sup>* db1 db2"
    and later: "tp_form r' = Some f'" "form_get f' ''grant_type'' = ''refresh_token''"
      "family_holds (te_before e' db2) (te_sha e' (credential f')) i"
  shows "fst (handle_token cfg' e' r' db2) \<noteq> Inr resp'"
proof
  assume "fst (handle_token cfg' e' r' db2) = Inr resp'"
  then obtain db3 where again: "handle_token cfg' e' r' db2 = (Inr resp', db3)" by (metis prod.collapse)
  have ok: "db_ok (te_before e db)" by (rule before_ok [OF others(1) reach_ok [OF reach]])
  have after: "db_step\<^sup>*\<^sup>* db1 (te_before e' db2)" using run others_before [OF others(2)] by (rule rtranclp_trans)
  have "db_ok db1 \<and> family_revoked db1 i"
    using reuse
  proof (cases rule: handle_token_reused)
    case (code ws chk first)
    then show ?thesis using pg.redeem_replayed [OF ok code(2)] pg.redeem_ok [OF ok code(2)] fam by (simp add: grant_family_def)
  next
    case (refresh ws chk nxt)
    have "family_holds (te_before e db) (te_sha e (credential f)) i"
      using fam refresh by (auto simp: grant_family_def family_holds_def elim!: rotate_refresh_cases)
    then show ?thesis using pg.rotate_reused [OF ok refresh(2)] pg.rotate_ok [OF ok refresh(2)] by blast
  qed
  then have dead: "fst (rotate_refresh n w (te_sha e' (credential f')) chk nxt (te_before e' db2)) \<noteq> Inr y"
    for n w y nxt and chk :: "refresh_family \<Rightarrow> refresh_token \<Rightarrow> grant_error option"
    using pg.revoked_for_good after later(3) by blast
  from again later(1) show False
    by (cases rule: handle_token_exchanged) (use later(2) dead in \<open>auto dest!: arg_cong [of _ _ fst]\<close>)
qed

definition human_request :: "auth_code \<Rightarrow> string list \<Rightarrow> workload_request" where
  "human_request c scopes = \<lparr>wq_subject = ac_subject c, wq_workspace = ac_workspace c, wq_scopes = scopes,
     wq_parent_subject = [], wq_parent_scopes = [], wq_ttl = 0, wq_subject_type = ''human''\<rparr>"

lemma redeem_code_Inr:
  assumes "redeem_code n w h chk first db = (Inr (c, i), db')"
  shows "db_codes db h = Some \<lparr>cr_code = c, cr_consumed = None\<rparr> \<and> ac_workspace c = w \<and> chk c = None
    \<and> db_codes db' h = Some \<lparr>cr_code = c, cr_consumed = Some (de_now n)\<rparr>
    \<and> db_families db' i = Some \<lparr>fr_family = family_of_code i c, fr_revoked = None\<rparr>
    \<and> db_tokens db' (rt_hash first) = Some \<lparr>tr_token = first, tr_family = i, tr_consumed = None\<rparr>"
  using assms by (cases rule: redeem_code_cases)
    (auto simp: insert_family_Some insert_token_Some consume_code_def)

text \<open>No access token exceeds what a person consented to: whenever the token endpoint returns tokens, for a
  code or for a refresh token, it minted the access token for the resource, subject and workspace of one
  consumed authorization code that was issued to the client of the request, with scopes among those of the
  code, and the answer names exactly these scopes.\<close>

lemma token_within_consent:
  assumes reach: "db_step\<^sup>*\<^sup>* empty_db db" and others: "others_run e"
    and tok: "handle_token cfg e r db = (Inr resp, db')" and form: "tp_form r = Some f"
  shows "\<exists>cl k scopes a. db_clients db (form_get f ''client_id'') = Some cl
      \<and> db_codes db' (ac_hash (cr_code k)) = Some k \<and> cr_consumed k \<noteq> None \<and> ac_client (cr_code k) = oc_id cl
      \<and> te_mint e (ac_resource (cr_code k)) (human_request (cr_code k) scopes) = Some a
      \<and> set scopes \<subseteq> set (ac_scopes (cr_code k)) \<and> tr_access resp = at_token a \<and> tr_scope resp = go_join scopes '' ''"
proof -
  obtain f' cl where req: "token_request e r db = Inr (f', cl)"
    and alt: "form_get f' ''grant_type'' = ''authorization_code'' \<and> redeem_grant cfg e f' cl (te_before e db) = (Inr resp, db')
      \<or> form_get f' ''grant_type'' = ''refresh_token'' \<and> refresh_grant cfg e f' cl (te_before e db) = (Inr resp, db')"
    by (rule handle_token_Inr [OF tok])
  have f': "f' = f" by (rule handle_token_form [OF req form])
  have cl: "db_clients db (form_get f ''client_id'') = Some cl" using token_request_Inr [OF req] f' by simp
  have ok: "db_ok (te_before e db)" by (rule before_ok [OF others reach_ok [OF reach]])
  show ?thesis
    using alt unfolding f'
  proof (elim disjE conjE)
    assume "redeem_grant cfg e f cl (te_before e db) = (Inr resp, db')"
    then show ?thesis
    proof (rule redeem_grant_Inr)
      fix ws refresh code fam a
      assume rd: "redeem_code (te_store e) ws (te_sha e (form_get f ''code'')) (code_check e f cl ws) (fresh_token cfg e refresh) (te_before e db) = (Inr (code, fam), db')"
        and mint: "te_mint e (ac_resource code) \<lparr>wq_subject = ac_subject code, wq_workspace = ac_workspace code,
            wq_scopes = ac_scopes code, wq_parent_subject = [], wq_parent_scopes = [], wq_ttl = 0, wq_subject_type = ''human''\<rparr> = Some a"
        and resp: "resp = make_token_response (te_now_response e) a refresh (ac_scopes code)"
      note row = redeem_code_Inr [OF rd]
      have "ac_hash code = te_sha e (form_get f ''code'')" using db_ok_code [OF ok, of _ "\<lparr>cr_code = code, cr_consumed = None\<rparr>"] row by auto
      with row have "db_codes db' (ac_hash code) = Some \<lparr>cr_code = code, cr_consumed = Some (de_now (te_store e))\<rparr>"
        "ac_client code = oc_id cl" by (auto simp: code_check_None)
      with cl mint resp show ?thesis
        by (intro exI [of _ cl] exI [of _ "\<lparr>cr_code = code, cr_consumed = Some (de_now (te_store e))\<rparr>"] exI [of _ "ac_scopes code"] exI [of _ a])
          (simp add: human_request_def make_token_response_def)
    qed
  next
    assume "refresh_grant cfg e f cl (te_before e db) = (Inr resp, db')"
    then show ?thesis
    proof (rule refresh_grant_Inr)
      fix ws q nxt a and fam :: refresh_family
      let ?s = "case q of None \<Rightarrow> rf_scopes fam | Some p \<Rightarrow> p"
      assume rt: "rotate_refresh (te_store e) ws (te_sha e (form_get f ''refresh_token'')) (refresh_check e f cl ws q) (fresh_token cfg e nxt) (te_before e db) = (Inr fam, db')"
        and mint: "te_mint e (rf_resource fam) \<lparr>wq_subject = rf_subject fam, wq_workspace = rf_workspace fam,
            wq_scopes = ?s, wq_parent_subject = [], wq_parent_scopes = [], wq_ttl = 0, wq_subject_type = ''human''\<rparr> = Some a"
        and resp: "resp = make_token_response (te_now_response e) a nxt ?s"
      from rt obtain i g where g: "db_families (te_before e db) i = Some g" "fr_family g = fam" "rf_client fam = oc_id cl"
        and sc: "set ?s \<subseteq> set (rf_scopes fam)"
        by (cases rule: rotate_refresh_cases) (auto simp: refresh_check_None split: option.splits)
      obtain k where k: "db_codes (te_before e db) (rf_code fam) = Some k" "cr_consumed k \<noteq> None" "fam = family_of_code i (cr_code k)"
        using db_ok_family [OF ok g(1)] g(2) by auto
      have "db_grows (te_before e db) db'" using rotate_keeps [OF rt ok] by blast
      with k(1,2) obtain k' where k': "db_codes db' (rf_code fam) = Some k'" "cr_code k' = cr_code k" "cr_consumed k' \<noteq> None"
        by (meson db_grows_code)
      with cl mint resp sc g(3) k(3) show ?thesis
        by (intro exI [of _ cl] exI [of _ k'] exI [of _ ?s] exI [of _ a])
          (simp add: human_request_def make_token_response_def family_of_code_def)
    qed
  qed
qed

text \<open>C26. What an exchange of an authorization code takes: the stored code is unconsumed and not expired, was issued
  to the client of the request for exactly the redirect URI it presents, and the verifier of the request hashes to
  the challenge of the authorization request. Afterwards the code is consumed and one family, with the bounds of
  the code, holds the refresh token of the answer.\<close>

theorem code_exchange_checked:
  assumes reach: "db_step\<^sup>*\<^sup>* empty_db db" and others: "others_run e"
    and tok: "handle_token cfg e r db = (Inr resp, db')"
    and form: "tp_form r = Some f" "form_get f ''grant_type'' = ''authorization_code''"
  shows "\<exists>c i cl. db_codes (te_before e db) (te_sha e (form_get f ''code'')) = Some \<lparr>cr_code = c, cr_consumed = None\<rparr>
      \<and> te_now e < ac_expires c \<and> db_clients db (form_get f ''client_id'') = Some cl \<and> ac_client c = oc_id cl
      \<and> ac_redirect c = form_get f ''redirect_uri'' \<and> b64_encode (te_sha e (form_get f ''code_verifier'')) = ac_challenge c
      \<and> code_spent db' (te_sha e (form_get f ''code''))
      \<and> db_families db' i = Some \<lparr>fr_family = family_of_code i c, fr_revoked = None\<rparr>
      \<and> family_holds db' (te_sha e (tr_refresh resp)) i \<and> \<not> token_used db' (te_sha e (tr_refresh resp))"
proof -
  obtain f' cl where req: "token_request e r db = Inr (f', cl)"
    and alt: "form_get f' ''grant_type'' = ''authorization_code'' \<and> redeem_grant cfg e f' cl (te_before e db) = (Inr resp, db')
      \<or> form_get f' ''grant_type'' = ''refresh_token'' \<and> refresh_grant cfg e f' cl (te_before e db) = (Inr resp, db')"
    by (rule handle_token_Inr [OF tok])
  have f': "f' = f" by (rule handle_token_form [OF req form(1)])
  have cl: "db_clients db (form_get f ''client_id'') = Some cl" using token_request_Inr [OF req] f' by simp
  have "redeem_grant cfg e f cl (te_before e db) = (Inr resp, db')" using alt form(2) unfolding f' by auto
  then show ?thesis
  proof (rule redeem_grant_Inr)
    fix ws refresh code fam a
    assume rd: "redeem_code (te_store e) ws (te_sha e (form_get f ''code'')) (code_check e f cl ws) (fresh_token cfg e refresh) (te_before e db) = (Inr (code, fam), db')"
      and resp: "resp = make_token_response (te_now_response e) a refresh (ac_scopes code)"
    from redeem_code_Inr [OF rd] cl resp show ?thesis
      by (intro exI [of _ code] exI [of _ fam] exI [of _ cl])
        (simp add: code_check_None pkce_matches_def observed_iff make_token_response_def fresh_token_def)
  qed
qed

lemma parse_opaque_Some: "parse_opaque pre raw = Some ws \<Longrightarrow> raw \<noteq> [] \<and> ws \<noteq> [] \<and> length ws \<le> 256"
  by (auto simp: parse_opaque_def go_split_def split: list.splits if_splits option.splits)

definition honest_post :: "token_post \<Rightarrow> form_values \<Rightarrow> bool" where
  "honest_post r f \<longleftrightarrow> tp_content_type r = ''application/x-www-form-urlencoded'' \<and> tp_form r = Some f \<and> tp_query r = []
     \<and> tp_authorization r = [] \<and> list_all (\<lambda>(k, vs). length vs = 1) f"

lemma token_request_honest:
  assumes "honest_post r f" and "form_get f ''client_id'' \<noteq> []" and "db_clients db (form_get f ''client_id'') = Some cl"
    and "\<not> de_fails (te_client e)"
  shows "token_request e r db = Inr (f, cl)"
proof -
  have "find (\<lambda>(k, vs). length vs > 1) f = None"
    using assms(1) by (auto simp: honest_post_def find_None_iff list_all_iff)
  moreover have "go_has_prefix (go_tolower (te_fold e) (tp_content_type r)) ''application/x-www-form-urlencoded''"
    using assms(1) go_tolower_ascii [of "''application/x-www-form-urlencoded''"]
    by (simp add: honest_post_def is_ascii_def go_has_prefix_def lower_char_def byte_def)
  ultimately show ?thesis using assms by (simp add: token_request_def honest_post_def get_client_def)
qed

text \<open>C27. An honest client gets its tokens: if a stored code is unconsumed and passes the checks for the client and
  the form of a well-formed request, the credential parses, the database, the random source and the minter
  answer and the drawn identifiers are new, the token endpoint returns the minted access token with a refresh
  token that a family of the code holds, unused.\<close>

theorem valid_code_is_exchanged:
  assumes reach: "db_step\<^sup>*\<^sup>* empty_db db" and quiet: "te_before e = id"
    and post: "honest_post r f" "form_get f ''grant_type'' = ''authorization_code''"
    and client: "form_get f ''client_id'' \<noteq> []" "db_clients db (form_get f ''client_id'') = Some cl"
    and params: "form_get f ''redirect_uri'' \<noteq> []" "verifier_ok (form_get f ''code_verifier'')"
      "\<not> form_has f ''resource''" "parse_opaque code_prefix (form_get f ''code'') = Some ws"
    and code: "db_codes db (te_sha e (form_get f ''code'')) = Some \<lparr>cr_code = c, cr_consumed = None\<rparr>"
      "code_check e f cl ws c = None"
    and answers: "\<not> de_fails (te_client e)" "\<not> de_fails (te_store e)" "te_random e = Some b"
      "te_mint e (ac_resource c) (human_request c (ac_scopes c)) = Some a"
    and fresh: "te_sha e raw \<noteq> []" "new_opaque refresh_prefix ws (Some b) = Some raw" "te_sha e raw \<notin> dom (db_tokens db)"
      "de_uuid (te_store e) \<notin> dom (db_families db)" "te_sha e (form_get f ''code'') \<noteq> []"
  shows "\<exists>resp db'. handle_token cfg e r db = (Inr resp, db') \<and> tr_access resp = at_token a \<and> tr_refresh resp = raw
      \<and> tr_scope resp = go_join (ac_scopes c) '' '' \<and> code_spent db' (te_sha e (form_get f ''code''))
      \<and> family_issued db' (ac_hash c) (de_uuid (te_store e)) \<and> family_holds db' (te_sha e raw) (de_uuid (te_store e))
      \<and> \<not> token_used db' (te_sha e raw)"
proof -
  let ?h = "te_sha e (form_get f ''code'')" and ?i = "de_uuid (te_store e)"
  have ok: "db_ok db" by (rule reach_ok [OF reach])
  have req: "token_request e r db = Inr (f, cl)" by (rule token_request_honest [OF post(1) client answers(1)])
  have ne: "form_get f ''code'' \<noteq> []" "form_get f ''code_verifier'' \<noteq> []" "ws \<noteq> []"
    using params(2) parse_opaque_Some [OF params(4)] by (auto simp: verifier_ok_def)
  have vis: "visible_code ws ?h db = Some \<lparr>cr_code = c, cr_consumed = None\<rparr>"
    using code by (simp add: visible_code_Some code_check_None)
  have cl: "ac_client c \<in> dom (db_clients db)" using db_ok_code [OF ok code(1)] by simp
  obtain db' where rd: "redeem_code (te_store e) ws ?h (code_check e f cl ws) (fresh_token cfg e raw) db = (Inr (c, ?i), db')"
    using ne(3) fresh answers(2) vis code(2) cl
    by (simp add: redeem_code_def insert_family_def insert_token_def consume_code_def fresh_token_def)
  have "redeem_grant cfg e f cl (te_before e db) = (Inr (make_token_response (te_now_response e) a raw (ac_scopes c)), db')"
    using ne params rd fresh(2) answers(3,4) quiet by (simp add: redeem_grant_def Let_def mint_access_def human_request_def)
  then have "handle_token cfg e r db = (Inr (make_token_response (te_now_response e) a raw (ac_scopes c)), db')"
    using req post(2) by (simp add: handle_token_def Let_def)
  moreover have "ac_hash c = ?h" using db_ok_code [OF ok code(1)] by simp
  ultimately show ?thesis using redeem_code_Inr [OF rd]
    by (simp add: make_token_response_def observed_iff fresh_token_def)
qed

end
