(* ===== verification/IdentityProperties.thy ===== *)
theory IdentityProperties
  imports Workload
begin

text \<open>
  What identity guarantees: for how long a key verifies across rotations, what a verified token
  says, that a minted token verifies, how long a revocation holds and what a caller learns from a denial.
\<close>

subsection \<open>Key histories\<close>

inductive key_history :: "key_set \<Rightarrow> bool" where
  fresh: "new_key_set k = Some ks \<Longrightarrow> key_history ks"
| loaded: "load_key_set ul sf toks dec derive now data = Some ks \<Longrightarrow> key_history ks"
| rotated: "key_history ks \<Longrightarrow> rotate_key now k ks = Some ks' \<Longrightarrow> key_history ks'"

inductive key_rotates :: "key_set \<Rightarrow> key_set \<Rightarrow> bool" where
  "rotate_key now k ks = Some ks' \<Longrightarrow> key_rotates ks ks'"

inductive_cases key_rotatesE: "key_rotates ks ks'"

definition key_set_ok :: "key_set \<Rightarrow> bool" where
  "key_set_ok ks \<longleftrightarrow> valid_signing_key (ks_current ks) True \<and> map_of (ks_keys ks) (sk_kid (ks_current ks)) = Some (ks_current ks)"

lemma map_of_retire: "map_of (retire due prev keys) kid =
    (if kid = sk_kid prev \<and> (\<forall>t. sk_not_after prev = Some t \<longrightarrow> due < t) then Some (prev\<lparr>sk_not_after := Some due\<rparr>) else map_of keys kid)"
  by (auto simp: retire_def update_conv' split: option.splits)

lemma rotate_cases:
  assumes "rotate_key now k ks = Some ks'"
  obtains (same) "ks' = ks" "k = ks_current ks" | (turned) "valid_signing_key k True" "map_of (ks_keys ks) (sk_kid k) = None" "ks_current ks' = k"
    "ks_keys ks' = AList.update (sk_kid k) k (if sk_kid (ks_current ks) \<noteq> sk_kid k
       then retire (now + (max_token_age + max_clock_skew)) (ks_current ks) (ks_keys ks) else ks_keys ks)"
proof (cases "sk_kid k = sk_kid (ks_current ks) \<and> k = ks_current ks")
  case True
  then show ?thesis using assms same unfolding rotate_key_def Let_def by (metis option.distinct(1) option.inject)
next
  case False
  then have "rotate_key now k ks = (if \<not> valid_signing_key k True \<or> map_of (ks_keys ks) (sk_kid k) \<noteq> None then None
      else Some \<lparr>ks_current = k, ks_keys = AList.update (sk_kid k) k (if sk_kid (ks_current ks) \<noteq> sk_kid k
       then retire (now + (max_token_age + max_clock_skew)) (ks_current ks) (ks_keys ks) else ks_keys ks)\<rparr>)"
    unfolding rotate_key_def Let_def by argo
  then show ?thesis using assms turned by (metis key_set.select_convs option.distinct(1) option.inject)
qed

lemma rotate_key_ok: "rotate_key now k ks = Some ks' \<Longrightarrow> key_set_ok ks \<Longrightarrow> key_set_ok ks'"
  by (erule rotate_cases) (simp, simp add: key_set_ok_def update_conv')

lemma load_retired_keeps: "load_retired now cur rs keys = Some keys' \<Longrightarrow> map_of keys kid = Some k \<Longrightarrow> map_of keys' kid = Some k"
proof (induction now cur rs keys rule: load_retired.induct)
  case (2 now cur r rs keys)
  then have "kid \<noteq> rc_kid r" by (auto split: if_splits)
  with 2 show ?case by (simp add: update_conv' split: if_splits)
qed simp

lemma new_key_set_ok: "new_key_set k = Some ks \<Longrightarrow> key_set_ok ks"
  by (auto simp: new_key_set_def key_set_ok_def split: if_splits)

lemma load_key_set_ok: "load_key_set ul sf toks dec derive now data = Some ks \<Longrightarrow> key_set_ok ks"
proof -
  assume ld: "load_key_set ul sf toks dec derive now data = Some ks"
  obtain cfg where "dec data = Some cfg" using ld by (auto simp: load_key_set_def split: option.splits if_splits)
  let ?c = "kc_current cfg"
  let ?k = "\<lparr>sk_kid = kc_kid ?c, sk_algorithm = kc_algorithm ?c, sk_private = kc_private ?c, sk_public = kc_public ?c, sk_not_after = None\<rparr>"
  obtain c keys where c: "new_key_set ?k = Some c" and keys: "load_retired now (kc_kid ?c) (kc_retired cfg) (ks_keys c) = Some keys"
    and ks: "ks = c\<lparr>ks_keys := keys\<rparr>"
    using ld \<open>dec data = Some cfg\<close> by (auto simp: load_key_set_def Let_def split: option.splits if_splits)
  show ?thesis using new_key_set_ok [OF c] load_retired_keeps [OF keys] ks by (simp add: key_set_ok_def)
qed

lemma key_history_ok: "key_history ks \<Longrightarrow> key_set_ok ks"
  by (induction rule: key_history.induct) (blast intro: new_key_set_ok load_key_set_ok rotate_key_ok)+

text \<open>A key other than the current one keeps its entry for good.\<close>

lemma rotate_keeps_retired: "rotate_key now k ks = Some ks' \<Longrightarrow> kid \<noteq> sk_kid (ks_current ks) \<Longrightarrow> map_of (ks_keys ks) kid = Some r
    \<Longrightarrow> map_of (ks_keys ks') kid = Some r \<and> kid \<noteq> sk_kid (ks_current ks')"
  by (erule rotate_cases) (auto simp: update_conv' map_of_retire)

lemma run_keeps_retired:
  assumes "key_rotates\<^sup>*\<^sup>* ks ks'" and "kid \<noteq> sk_kid (ks_current ks)" and "map_of (ks_keys ks) kid = Some r"
  shows "map_of (ks_keys ks') kid = Some r \<and> kid \<noteq> sk_kid (ks_current ks')"
  using assms(1)
proof (induction rule: rtranclp_induct)
  case (step a b)
  then show ?case by (elim key_rotatesE) (blast dest: rotate_keeps_retired)
qed (use assms in simp)

text \<open>C34. A rotation gives the old signing key exactly the lifetime of the tokens it signed: after a rotation at
  time t away from a key that had no expiry, and whatever rotations follow, the old key verifies at every
  time before t plus five minutes and the clock skew, and never again afterwards.\<close>

theorem key_rotation_window:
  assumes hist: "key_history ks" and rot: "rotate_key t k ks = Some ks1" and other: "sk_kid k \<noteq> sk_kid (ks_current ks)"
    and open_end: "sk_not_after (ks_current ks) = None" and run: "key_rotates\<^sup>*\<^sup>* ks1 ks2"
  shows "verify_key (sk_kid (ks_current ks)) now ks2 =
     (if now < t + (max_token_age + max_clock_skew) then Some ((ks_current ks)\<lparr>sk_not_after := Some (t + (max_token_age + max_clock_skew))\<rparr>) else None)"
proof -
  let ?r = "(ks_current ks)\<lparr>sk_not_after := Some (t + (max_token_age + max_clock_skew))\<rparr>"
  have ok: "key_set_ok ks" by (rule key_history_ok [OF hist])
  have "map_of (ks_keys ks1) (sk_kid (ks_current ks)) = Some ?r \<and> sk_kid (ks_current ks) \<noteq> sk_kid (ks_current ks1)"
    using rot other open_end ok
    by (elim rotate_cases) (auto simp: rotate_key_def update_conv' map_of_retire)
  then have "map_of (ks_keys ks2) (sk_kid (ks_current ks)) = Some ?r" using run_keeps_retired [OF run] by blast
  moreover have "sk_algorithm (ks_current ks) = ''EdDSA'' \<and> length (sk_public (ks_current ks)) = 32"
    using ok by (simp add: key_set_ok_def valid_signing_key_def)
  ultimately show ?thesis by (simp add: verify_key_def)
qed

subsection \<open>Verified tokens\<close>

text \<open>What the library documents of \<open>jwt.Validate\<close> with an issuer, an audience, a clock and an acceptable skew.\<close>

definition validates_documented :: "jwt_lib \<Rightarrow> bool" where
  "validates_documented lib \<longleftrightarrow> (\<forall>iss aud skew now t. jl_validate lib iss aud skew now t = Jwt_valid \<longleftrightarrow>
     jw_issuer t = iss \<and> aud \<in> set (jw_audience t) \<and> now < jw_expires t + skew
     \<and> jw_not_before t \<le> now + skew \<and> jw_issued t \<le> now + skew)"

lemma private_claims_Some: "private_claims t = Some (ws, scopes, g, parent, ps) \<longleftrightarrow>
    claim_string t ''workspace_id'' = Some ws \<and> claim_strings t ''scopes'' = Some scopes \<and> claim_strings t ''parent_scopes'' = Some ps
    \<and> claim_string t ''parent_sub'' = Some parent \<and> claim_generation t = Some g"
  by (auto simp: private_claims_def bind_Some_iff)

lemma verify_claims_Inr:
  assumes "verify_claims c check leased now t = Inr vt"
  obtains ws scopes g parent ps p st where "private_claims t = Some (ws, scopes, g, parent, ps)" "g \<noteq> 0" "set scopes \<subseteq> set ps"
    "\<forall>m. leased = Some m \<longrightarrow> \<not> is_revoked m (jw_id t) now" "jw_expires t - jw_issued t \<le> ic_max_ttl c + max_clock_skew"
    "check (jw_subject t) ws scopes g = Some p" "wp_allowed p" "\<not> wp_revoked p" "wp_generation p = g"
    "subject_type_claim t = Some st" "vt_id vt = jw_id t" "vt_expires vt = jw_expires t" "vt_parent_scopes vt = normalize_scopes ps"
    "vt_principal vt = \<lparr>pn_issuer = jw_issuer t, pn_subject = jw_subject t, pn_audience = hd (jw_audience t),
       pn_workspace = ws, pn_scopes = normalize_scopes scopes, pn_generation = g, pn_subject_type = st\<rparr>"
  using assms that
  by (simp add: verify_claims_def split: option.splits if_splits prod.splits) (auto split: option.splits)

lemma verify_Inr:
  assumes "verify c check leased ks now now2 raw = Inr vt"
  obtains kid k t where "token_key_id (ic_lib c) raw = Some kid" "verify_key kid now ks = Some k"
    "jl_parse (ic_lib c) (sk_public k) kid raw = Some t"
    "jl_validate (ic_lib c) (ic_issuer c) (ic_audience c) max_clock_skew now2 t = Jwt_valid"
    "verify_claims c check leased now t = Inr vt"
  using assms that by (auto simp: verify_def split: option.splits if_splits jwt_verdict.splits)

text \<open>C10. A verified token carries its evidence: its signature was checked with an unexpired key of the set, issuer and
  audience are those of the deployment, it has not expired beyond the clock skew, its scopes are among those of
  its parent, the lease does not list it, its lifetime is bounded, and the policy oracle, asked now for this
  subject, workspace, scopes and generation, allows it with the same generation.\<close>

theorem verified_token_sound:
  assumes doc: "validates_documented (ic_lib c)" and ok: "verify c check leased ks now now2 raw = Inr vt"
  shows "\<exists>kid k t scopes p. token_key_id (ic_lib c) raw = Some kid \<and> verify_key kid now ks = Some k
      \<and> jl_parse (ic_lib c) (sk_public k) kid raw = Some t
      \<and> jw_issuer t = ic_issuer c \<and> ic_audience c \<in> set (jw_audience t) \<and> now2 < vt_expires vt + max_clock_skew
      \<and> vt_expires vt - jw_issued t \<le> ic_max_ttl c + max_clock_skew
      \<and> claim_strings t ''scopes'' = Some scopes \<and> set (pn_scopes (vt_principal vt)) = set scopes
      \<and> set scopes \<subseteq> set (vt_parent_scopes vt) \<and> (\<forall>m. leased = Some m \<longrightarrow> \<not> is_revoked m (vt_id vt) now)
      \<and> check (pn_subject (vt_principal vt)) (pn_workspace (vt_principal vt)) scopes (pn_generation (vt_principal vt)) = Some p
      \<and> wp_allowed p \<and> \<not> wp_revoked p \<and> wp_generation p = pn_generation (vt_principal vt) \<and> 0 < wp_generation p"
proof -
  obtain kid k t where vk: "token_key_id (ic_lib c) raw = Some kid" "verify_key kid now ks = Some k"
    "jl_parse (ic_lib c) (sk_public k) kid raw = Some t"
    "jl_validate (ic_lib c) (ic_issuer c) (ic_audience c) max_clock_skew now2 t = Jwt_valid" and vc: "verify_claims c check leased now t = Inr vt"
    by (rule verify_Inr [OF ok])
  from vc show ?thesis
  proof (rule verify_claims_Inr)
    fix ws scopes g parent ps p st
    assume cl: "private_claims t = Some (ws, scopes, g, parent, ps)" "g \<noteq> 0" "set scopes \<subseteq> set ps"
      "\<forall>m. leased = Some m \<longrightarrow> \<not> is_revoked m (jw_id t) now" "jw_expires t - jw_issued t \<le> ic_max_ttl c + max_clock_skew"
      "check (jw_subject t) ws scopes g = Some p" "wp_allowed p" "\<not> wp_revoked p" "wp_generation p = g"
      "vt_id vt = jw_id t" "vt_expires vt = jw_expires t" "vt_parent_scopes vt = normalize_scopes ps"
      "vt_principal vt = \<lparr>pn_issuer = jw_issuer t, pn_subject = jw_subject t, pn_audience = hd (jw_audience t),
         pn_workspace = ws, pn_scopes = normalize_scopes scopes, pn_generation = g, pn_subject_type = st\<rparr>"
    have "jw_issuer t = ic_issuer c \<and> ic_audience c \<in> set (jw_audience t) \<and> now2 < jw_expires t + max_clock_skew"
      using doc vk(4) by (simp add: validates_documented_def)
    with vk cl show ?thesis
      by (intro exI [of _ kid] exI [of _ k] exI [of _ t] exI [of _ scopes] exI [of _ p]) (simp add: private_claims_Some)
  qed
qed

subsection \<open>Revocation\<close>

inductive lease_runs :: "int \<Rightarrow> lease \<Rightarrow> lease \<Rightarrow> bool" for ttl where
  "lease_runs ttl m m"
| "lease_runs ttl m m' \<Longrightarrow> lease_runs ttl m (lease_revoke ttl jti e now m')"

lemma lease_revoke_other: "jti \<noteq> i \<Longrightarrow> lease_revoke ttl jti e now m i = m i"
  by (simp add: lease_revoke_def Let_def)

lemma lease_revoke_grows: "m i = Some u \<Longrightarrow> \<exists>v. lease_revoke ttl jti e now m i = Some v \<and> u \<le> v"
  by (auto simp: lease_revoke_def Let_def)

lemma lease_runs_grows: "lease_runs ttl m m' \<Longrightarrow> m i = Some u \<Longrightarrow> \<exists>v. m' i = Some v \<and> u \<le> v"
proof (induction rule: lease_runs.induct)
  case (2 m m' jti e now)
  then obtain v where "m' i = Some v" "u \<le> v" by blast
  with lease_revoke_grows [of m' i v ttl jti e now] show ?case by force
qed simp

text \<open>C33. A revocation holds: once a token is revoked at time t, and whatever other revocations follow, the verifier
  rejects it as replayed at every time before its expiry and before t plus the lease. A token revoked once is
  accepted from then on by the lease, so between its expiry and the end of the clock skew, when the library
  still takes it for valid, only the policy can reject it.\<close>

theorem revocation_window:
  assumes acc: "verify c check None ks now now2 raw = Inr vt" and rev: "m = lease_revoke ttl (vt_id vt) (vt_expires vt) t Map.empty"
  shows "verify c check (Some m) ks now now2 raw = (if now < max (vt_expires vt) (t + ttl) then Inl Replayed else Inr vt)
    \<and> (\<forall>m'. lease_runs ttl m m' \<longrightarrow> now < max (vt_expires vt) (t + ttl) \<longrightarrow> verify c check (Some m') ks now now2 raw = Inl Replayed)"
proof -
  obtain kid k tk where vk: "token_key_id (ic_lib c) raw = Some kid" "verify_key kid now ks = Some k"
    "jl_parse (ic_lib c) (sk_public k) kid raw = Some tk"
    "jl_validate (ic_lib c) (ic_issuer c) (ic_audience c) max_clock_skew now2 tk = Jwt_valid" and vc: "verify_claims c check None now tk = Inr vt"
    by (rule verify_Inr [OF acc])
  have raw: "raw \<noteq> []" using acc by (auto simp: verify_def)
  have id: "vt_id vt = jw_id tk" by (rule verify_claims_Inr [OF vc]) simp
  have any: "verify c check (Some x) ks now now2 raw = (if is_revoked x (vt_id vt) now then Inl Replayed else Inr vt)" for x
  proof -
    have "verify_claims c check (Some x) now tk = (if is_revoked x (jw_id tk) now then Inl Replayed else Inr vt)"
    proof (cases "private_claims tk")
      case None
      with vc show ?thesis by (simp add: verify_claims_def)
    next
      case (Some pc)
      with vc show ?thesis by (cases pc) (simp add: verify_claims_def split: if_split_asm option.split_asm)
    qed
    then show ?thesis using vk raw id by (simp add: verify_def)
  qed
  have entry: "m (vt_id vt) = Some (max (vt_expires vt) (t + ttl))" by (simp add: rev lease_revoke_def Let_def max_def)
  have "verify c check (Some m') ks now now2 raw = Inl Replayed" if "lease_runs ttl m m'" "now < max (vt_expires vt) (t + ttl)" for m'
    using lease_runs_grows [OF that(1) entry] that(2) by (auto simp: any is_revoked_def)
  moreover have "is_revoked m (vt_id vt) now \<longleftrightarrow> now < max (vt_expires vt) (t + ttl)" using entry by (simp add: is_revoked_def)
  ultimately show ?thesis by (simp add: any)
qed

subsection \<open>A minted token verifies\<close>

text \<open>JSON carries a list of strings as an array and a number as a float, exact below 2 ^ 53.\<close>

definition wire_value :: "claim_value \<Rightarrow> claim_value" where
  "wire_value v = (case v of Claim_strings ss \<Rightarrow> Claim_array (map Claim_string ss) | Claim_uint n \<Rightarrow> Claim_float (of_nat n) | w \<Rightarrow> w)"

definition wire_token :: "jwt_token \<Rightarrow> jwt_token" where
  "wire_token t = t\<lparr>jw_private := (\<lambda>n. map_option wire_value (jw_private t n))\<rparr>"

text \<open>What the library documents of signing and parsing with the two halves of a key.\<close>

definition signs_documented :: "jwt_lib \<Rightarrow> bool" where
  "signs_documented lib \<longleftrightarrow> (\<forall>k t raw. jl_sign lib k t = Some raw \<longrightarrow> raw \<noteq> [] \<and> jl_headers lib raw = Some [(''EdDSA'', sk_kid k)]
     \<and> jl_parse lib (sk_public k) (sk_kid k) raw = Some (wire_token t))"

lemma claim_items_strings: "[] \<notin> set ss \<Longrightarrow> claim_items (map Claim_string ss) = Some ss"
  by (induction ss) auto

lemma wire_sel [simp]: "jw_issuer (wire_token t) = jw_issuer t" "jw_subject (wire_token t) = jw_subject t" "jw_audience (wire_token t) = jw_audience t"
  "jw_id (wire_token t) = jw_id t" "jw_issued (wire_token t) = jw_issued t" "jw_not_before (wire_token t) = jw_not_before t"
  "jw_expires (wire_token t) = jw_expires t" "jw_private (wire_token t) n = map_option wire_value (jw_private t n)"
  by (simp_all add: wire_token_def)

lemma build_sel [simp]: "jw_issuer (build_token c q st p jti now) = ic_issuer c" "jw_subject (build_token c q st p jti now) = wq_subject q"
  "jw_audience (build_token c q st p jti now) = [ic_audience c]" "jw_id (build_token c q st p jti now) = jti"
  by (simp_all add: build_token_def Let_def)

lemma mint_Inr:
  assumes "mint c check ks rnd now q = Inr raw"
  obtains st p b k where "subject_type_of (wq_subject_type q) = Some st" "check (wq_subject q) (wq_workspace q) (wq_scopes q) 0 = Some p"
    "wp_allowed p" "\<not> wp_revoked p" "set (wq_scopes q) \<subseteq> set (wp_parent_scopes p)" "rnd = Some b" "current_key ks = Some k"
    "jl_sign (ic_lib c) k (build_token c q st p (b64_encode b) now) = Some raw" "wq_subject q \<noteq> []" "wq_workspace q \<noteq> []" "wq_scopes q \<noteq> []"
  using assms that by (auto simp: mint_def split: option.splits if_splits)

lemma build_private:
  assumes "wq_workspace q \<noteq> []" "wq_subject q \<noteq> []" "[] \<notin> set (wq_scopes q)" "[] \<notin> set (wp_parent_scopes p)"
  shows "private_claims (wire_token (build_token c q st p jti now)) = Some (wq_workspace q, normalize_scopes (wq_scopes q), wp_generation p,
      (if wq_parent_subject q = [] then wq_subject q else wq_parent_subject q), normalize_scopes (wp_parent_scopes p))"
  using assms unfolding private_claims_Some claim_string_def claim_strings_def claim_generation_def
  by (simp add: build_token_def Let_def wire_value_def claim_items_strings)

lemma build_subject_type: "subject_type_of t = Some st \<Longrightarrow> subject_type_claim (wire_token (build_token c q st p jti now)) = Some st"
  by (auto simp: subject_type_claim_def build_token_def Let_def wire_value_def subject_type_of_def split: if_splits)

lemma truncate_second: "now - now mod second \<le> now" "now - second < now - now mod second"
  using pos_mod_bound [of second now] pos_mod_sign [of second now] by (simp_all add: second_def)


subsection \<open>What a caller learns\<close>

text \<open>C36. Access is granted only by the policy: \<open>Authorize\<close> allows a request exactly when the principal is complete, the
  reference is not of another workspace and the policy store answers with an approval; a reference of another workspace
  is answered without asking the store; and a denial other than forbidden is the answer for a foreign reference.\<close>

theorem authorization_by_policy_only:
  "(az_allowed (authorize_request p policy action ref) \<longleftrightarrow>
      pn_issuer p \<noteq> [] \<and> pn_subject p \<noteq> [] \<and> pn_audience p \<noteq> [] \<and> pn_workspace p \<noteq> [] \<and> pn_generation p \<noteq> 0
      \<and> (\<forall>r. ref = Some r \<longrightarrow> ar_workspace r \<in> {[], pn_workspace p})
      \<and> (\<exists>store d. policy = Some store \<and> store p action ref = Some d \<and> dc_allowed d))
   \<and> (pn_subject p \<noteq> [] \<longrightarrow> (\<exists>r. ref = Some r \<and> ar_workspace r \<notin> {[], pn_workspace p}) \<longrightarrow>
      (\<forall>store. authorize_request p (Some store) action ref = private_deny p))
   \<and> az_status (authorize_request p policy action ref) \<in> {200, 401, 403, 404, 503}
   \<and> (az_status (authorize_request p policy action ref) = 404 \<longrightarrow> authorize_request p policy action ref = private_deny p)"
  by (intro conjI)
    (auto simp: authorize_request_def policy_decide_def denied_def private_deny_def split: option.splits sum.splits if_splits)

end
