(* ===== verification/OAuthFlow.thy ===== *)
theory OAuthFlow
  imports OAuthConsent OAuthProperties IdentityProperties
begin

text \<open>
  The authorization server end to end: what a consent stores, what the consent page and its form agree
  on, whom a registration admits, and what an access token of the token endpoint proves to the
  resource it was minted for.
\<close>

subsection \<open>Consent\<close>

lemma redirect_to_Redirect: "redirect_to cfg parse uri state ps = Redirect u qs \<longleftrightarrow>
    u = uri \<and> parse uri \<noteq> None \<and> qs = ps @ (if state \<noteq> [] then [(''state'', state)] else []) @ [(''iss'', sv_issuer cfg)]"
  by (cases "parse uri") (auto simp: redirect_to_def)

lemma redirect_error_no_code: "redirect_error cfg parse uri state x = Redirect u ps \<Longrightarrow> (''code'', raw) \<notin> set ps"
  by (cases "snd x = []"; cases "state = []"; auto simp: redirect_error_def redirect_to_Redirect)

lemma check_membership_None: "check_membership e subject ws scopes = None \<longleftrightarrow>
    (\<exists>p. we_policy e subject ws scopes 0 = Some p \<and> wp_allowed p \<and> \<not> wp_revoked p
       \<and> (wp_parent_scopes p \<noteq> [] \<longrightarrow> set scopes \<subseteq> set (wp_parent_scopes p)))"
  by (auto simp: check_membership_def contains_all_iff split: option.splits)

lemma go_cut_found: "go_cut s sep = (a, b, True) \<Longrightarrow> s = a @ sep @ b"
proof -
  assume cut: "go_cut s sep = (a, b, True)"
  then obtain i where i: "go_index s sep = Some i" "a = take i s" "b = drop (i + length sep) s"
    by (auto simp: go_cut_def split: option.splits)
  have "i + length sep \<le> length s" "subseg s i (i + length sep) = sep" using go_index_Some [OF i(1)] by simp_all
  then show ?thesis using subseg_infix [of i "i + length sep" s] i by simp
qed

lemma unseal_Some:
  assumes "unseal e x = Some q"
  shows "\<exists>payload sig. x = payload @ ''.'' @ sig \<and> b64_decode sig = Some (we_mac e [''consent-request'', payload])
     \<and> b64_decode payload \<bind> we_unmarshal e = Some q \<and> unix_seconds (we_now_unseal e) < gq_expires q"
proof -
  obtain payload sig found where cut: "go_cut x ''.'' = (payload, sig, found)" by (metis prod_cases3)
  with assms have "found" "b64_decode sig = Some (we_mac e [''consent-request'', payload])"
    "b64_decode payload \<bind> we_unmarshal e = Some q" "unix_seconds (we_now_unseal e) < gq_expires q"
    by (auto simp: unseal_def split: if_splits option.splits)
  then show ?thesis using go_cut_found [of x "''.''" payload sig] cut by (intro exI [of _ payload] exI [of _ sig]) simp
qed

lemma save_code_Inr: "save_code n c db = (Inr u, db') \<Longrightarrow>
    db_codes db' (ac_hash c) = Some \<lparr>cr_code = c, cr_consumed = None\<rparr> \<and> db_codes db (ac_hash c) = None"
  by (auto simp: save_code_def split: if_splits)

lemma issue_code_Redirect:
  assumes "issue_code cfg e q s ws db = (Redirect u ps, db')" and "(''code'', raw) \<in> set ps"
  shows "u = gq_redirect q \<and> ws \<in> set (ls_workspaces s) \<and> check_membership e (ls_subject s) ws (gq_scopes q) = None
     \<and> new_opaque code_prefix ws (we_random e) = Some raw \<and> db_codes db (we_sha e raw) = None
     \<and> db_codes db' (we_sha e raw) = Some \<lparr>cr_code = consent_code cfg e q s ws raw, cr_consumed = None\<rparr>"
proof -
  have err: "redirect_error cfg (we_parse e) (gq_redirect q) (gq_state q) x \<noteq> Redirect u ps" for x
    using redirect_error_no_code assms(2) by blast
  obtain rw v where ok: "ws \<in> set (ls_workspaces s)" "check_membership e (ls_subject s) ws (gq_scopes q) = None"
    "new_opaque code_prefix ws (we_random e) = Some rw" "save_code (we_save e) (consent_code cfg e q s ws rw) db = (Inr v :: grant_error grant_store_error + unit, db')"
    "redirect_to cfg (we_parse e) (gq_redirect q) (gq_state q) [(''code'', rw)] = Redirect u ps"
    using assms(1) err by (auto simp: issue_code_def Let_def split: if_splits option.splits prod.splits sum.splits)
  have "rw = raw" "u = gq_redirect q" using ok(5) assms(2) by (auto simp: redirect_to_Redirect split: if_splits)
  with ok save_code_Inr [OF ok(4)] show ?thesis by (simp add: consent_code_def)
qed

text \<open>C11. A code is issued only by the person's consent, and exactly for what the consent page showed: when the
  consent endpoint redirects with a code, the post was not cross-site, came with the session that saw the page
  and the CSRF token of that session and page, said allow, and the sealed request carries a valid signature,
  belongs to this session and person and is not expired; the redirect URI is registered for the client; the
  workspace is one of the session's and the policy allows the person these scopes there now. The stored code is
  new and carries client, redirect URI, resource, scopes and challenge of the sealed request.\<close>

theorem consent_binds_code:
  assumes post: "handle_consent cfg e r db = (Redirect uri ps, db')" and code: "(''code'', raw) \<in> set ps"
  shows "\<exists>f s q cl ws payload sig. cp_form r = Some f \<and> same_origin cfg e r \<and> we_session e = Some s \<and> form_get f ''decision'' = ''allow''
      \<and> form_get f ''request'' = payload @ ''.'' @ sig \<and> b64_decode sig = Some (we_mac e [''consent-request'', payload])
      \<and> b64_decode payload \<bind> we_unmarshal e = Some q \<and> unix_seconds (we_now_unseal e) < gq_expires q
      \<and> gq_session q = ls_id s \<and> gq_subject q = ls_subject s
      \<and> b64_decode (form_get f ''csrf'') = Some (we_mac e [''csrf'', ls_id s, form_get f ''request''])
      \<and> db_clients db (gq_client q) = Some cl \<and> redirect_registered (we_parse e) (oc_redirects cl) (gq_redirect q) \<and> uri = gq_redirect q
      \<and> ws \<in> set (ls_workspaces s) \<and> check_membership e (ls_subject s) ws (gq_scopes q) = None
      \<and> new_opaque code_prefix ws (we_random e) = Some raw \<and> db_codes (we_others e db) (we_sha e raw) = None
      \<and> db_codes db' (we_sha e raw) = Some \<lparr>cr_code = consent_code cfg e q s ws raw, cr_consumed = None\<rparr>"
proof -
  have err: "redirect_error cfg (we_parse e) ru st x \<noteq> Redirect uri ps" for ru st x
    using redirect_error_no_code code by blast
  obtain f s q cl where ok: "cp_form r = Some f" "same_origin cfg e r" "we_session e = Some s" "unseal e (form_get f ''request'') = Some q"
    "gq_session q = ls_id s" "gq_subject q = ls_subject s"
    "b64_decode (form_get f ''csrf'') = Some (we_mac e [''csrf'', ls_id s, form_get f ''request''])"
    "get_client (we_client e) (gq_client q) db = (Inr cl :: grant_error grant_store_error + oauth_client)"
    "redirect_registered (we_parse e) (oc_redirects cl) (gq_redirect q)" "form_get f ''decision'' = ''allow''"
    "issue_code cfg e q s (form_get f ''workspace'') (we_others e db) = (Redirect uri ps, db')"
    using post err by (auto simp: handle_consent_def split: if_splits option.splits sum.splits)
  have "db_clients db (gq_client q) = Some cl" using ok(8) by (auto simp: get_client_def split: if_splits option.splits)
  moreover obtain payload sig where "form_get f ''request'' = payload @ ''.'' @ sig" "b64_decode sig = Some (we_mac e [''consent-request'', payload])"
    "b64_decode payload \<bind> we_unmarshal e = Some q" "unix_seconds (we_now_unseal e) < gq_expires q"
    using unseal_Some [OF ok(4)] by blast
  ultimately show ?thesis using issue_code_Redirect [OF ok(11) code] ok(1-3,5-7,9,10)
    by (intro exI [of _ f] exI [of _ s] exI [of _ q] exI [of _ cl] exI [of _ "form_get f ''workspace''"] exI [of _ payload] exI [of _ sig]) simp
qed

subsection \<open>The consent page and its form\<close>

lemma unseal_seal:
  assumes "we_mac e' = we_mac e" and "we_unmarshal e' (we_marshal e q) = Some q" and "unix_seconds (we_now_unseal e') < gq_expires q"
  shows "unseal e' (seal e q) = Some q"
  using assms go_cut_single [OF b64_encode_no_dot [of "we_marshal e q"]]
  by (simp add: unseal_def seal_def Let_def)

lemma seal_inject: "seal e g = seal e h \<Longrightarrow> we_marshal e g = we_marshal e h"
proof -
  assume "seal e g = seal e h"
  then have "go_cut (seal e g) ''.'' = go_cut (seal e h) ''.''" by simp
  then show ?thesis by (simp add: seal_def Let_def go_cut_single [OF b64_encode_no_dot])
qed

lemma handle_authorize_page:
  assumes "handle_authorize cfg e q uri db = Consent_page cv"
  obtains cl g s where "db_clients db (form_get q ''client_id'') = Some cl" "redirect_registered (we_parse e) (oc_redirects cl) (form_get q ''redirect_uri'')"
    "validate_authorize cfg q cl = Inr g" "we_session e = Some s"
    "cv_request cv = seal e (g\<lparr>gq_state := form_get q ''state'', gq_subject := ls_subject s, gq_session := ls_id s,
        gq_expires := unix_seconds (we_now e + sv_consent_ttl cfg)\<rparr>)"
    "cv_csrf cv = csrf_token e (ls_id s) (cv_request cv)" "cv_scopes cv = gq_scopes g" "cv_resource cv = gq_resource g" "cv_workspaces cv = ls_workspaces s"
proof -
  have err: "redirect_error cfg (we_parse e) ru st x \<noteq> Consent_page cv" for ru st x
    by (simp add: redirect_error_def redirect_to_def split: option.split)
  obtain cl where cl: "get_client (we_client e) (form_get q ''client_id'') db = (Inr cl :: grant_error grant_store_error + oauth_client)"
    using assms by (auto simp: handle_authorize_def split: option.splits sum.splits)
  with assms err that show ?thesis
    by (auto simp: handle_authorize_def Let_def get_client_def split: if_splits option.splits sum.splits)
qed

lemma validate_authorize_Inr: "validate_authorize cfg q cl = Inr g \<Longrightarrow> gq_client g = oc_id cl \<and> gq_redirect g = form_get q ''redirect_uri''
    \<and> challenge_ok (gq_challenge g) \<and> gq_challenge g = form_get q ''code_challenge'' \<and> resource_allowed cfg (gq_resource g)
    \<and> set (gq_scopes g) \<subseteq> set (sv_scopes cfg) \<inter> set (oc_scopes cl)"
  by (auto simp: validate_authorize_def find_None_iff split: if_splits sum.splits option.splits)

text \<open>C22. What the page shows is what the form grants: if the person who saw a consent page posts it back from the same session
  in time, allows it for one of the listed workspaces where the policy permits it, and the database answers, the client
  is sent back to its redirect URI with a code, and the stored code has exactly the resource and the scopes the
  page listed, the chosen workspace and the challenge of the client's request, which are all supported by the server and
  registered for the client.\<close>

theorem consent_page_grants:
  assumes page: "handle_authorize cfg e q uri db = Consent_page cv" and json: "\<And>g. cv_request cv = seal e g \<Longrightarrow> we_unmarshal e' (we_marshal e g) = Some g"
    and same: "we_mac e' = we_mac e" "we_parse e' = we_parse e" "we_session e' = we_session e"
    and post: "same_origin cfg e' r" "cp_form r = Some f" "list_all (\<lambda>(k, vs). length vs = 1) f" "form_get f ''request'' = cv_request cv"
      "form_get f ''csrf'' = cv_csrf cv" "form_get f ''decision'' = ''allow''" "form_get f ''workspace'' = ws"
    and choice: "ws \<noteq> []" "ws \<in> set (cv_workspaces cv)" "\<And>s. we_session e = Some s \<Longrightarrow> check_membership e' (ls_subject s) ws (cv_scopes cv) = None"
    and time: "unix_seconds (we_now_unseal e') < unix_seconds (we_now e + sv_consent_ttl cfg)"
    and client: "form_get q ''client_id'' \<noteq> []" "db_clients db1 = db_clients db" "db_clients (we_others e' db1) = db_clients db"
      "\<And>cl. db_clients db (form_get q ''client_id'') = Some cl \<Longrightarrow> oc_id cl = form_get q ''client_id''"
    and answers: "\<not> de_fails (we_client e')" "\<not> de_fails (we_save e')" "new_opaque code_prefix ws (we_random e') = Some raw"
      "we_sha e' raw \<noteq> []" "we_sha e' raw \<notin> dom (db_codes (we_others e' db1))" "we_parse e (form_get q ''redirect_uri'') \<noteq> None"
  shows "\<exists>ps db2 c. handle_consent cfg e' r db1 = (Redirect (form_get q ''redirect_uri'') ps, db2) \<and> (''code'', raw) \<in> set ps
     \<and> db_codes db2 (we_sha e' raw) = Some \<lparr>cr_code = c, cr_consumed = None\<rparr> \<and> ac_scopes c = cv_scopes cv \<and> ac_resource c = cv_resource cv
     \<and> ac_workspace c = ws \<and> ac_client c = form_get q ''client_id'' \<and> ac_challenge c = form_get q ''code_challenge''
     \<and> set (ac_scopes c) \<subseteq> set (sv_scopes cfg)"
proof -
  obtain cl g s where au: "db_clients db (form_get q ''client_id'') = Some cl" "redirect_registered (we_parse e) (oc_redirects cl) (form_get q ''redirect_uri'')"
    "validate_authorize cfg q cl = Inr g" "we_session e = Some s"
    "cv_request cv = seal e (g\<lparr>gq_state := form_get q ''state'', gq_subject := ls_subject s, gq_session := ls_id s,
        gq_expires := unix_seconds (we_now e + sv_consent_ttl cfg)\<rparr>)"
    "cv_csrf cv = csrf_token e (ls_id s) (cv_request cv)" "cv_scopes cv = gq_scopes g" "cv_resource cv = gq_resource g" "cv_workspaces cv = ls_workspaces s"
    by (rule handle_authorize_page [OF page])
  let ?q = "g\<lparr>gq_state := form_get q ''state'', gq_subject := ls_subject s, gq_session := ls_id s,
        gq_expires := unix_seconds (we_now e + sv_consent_ttl cfg)\<rparr>"
  note g = validate_authorize_Inr [OF au(3)]
  have id: "oc_id cl = form_get q ''client_id''" by (rule client(4) [OF au(1)])
  have un: "unseal e' (form_get f ''request'') = Some ?q" unfolding post(4) au(5) using same(1) json [OF au(5)] time by (intro unseal_seal) simp_all
  have csrf: "b64_decode (form_get f ''csrf'') = Some (we_mac e' [''csrf'', ls_id s, form_get f ''request''])"
    unfolding post(4,5) au(6) csrf_token_def same(1) by simp
  have single: "find (\<lambda>(k, vs). length vs > 1) f = None" using post(3) by (auto simp: find_None_iff list_all_iff)
  have got: "get_client (we_client e') (gq_client ?q) db1 = (Inr cl :: grant_error grant_store_error + oauth_client)"
    using answers(1) client(1,2) au(1) g id by (simp add: get_client_def)
  have consent: "handle_consent cfg e' r db1 = issue_code cfg e' ?q s ws (we_others e' db1)"
    using post same au(2,4) un csrf single got g by (simp add: handle_consent_def)
  let ?c = "consent_code cfg e' ?q s ws raw"
  obtain db2 where save: "save_code (we_save e') ?c (we_others e' db1) = (Inr () :: grant_error grant_store_error + unit, db2)"
    using answers choice(1) client(2,3) domI [of "db_clients db", OF au(1)] g id by (simp add: save_code_def consent_code_def)
  have "issue_code cfg e' ?q s ws (we_others e' db1) = (redirect_to cfg (we_parse e') (gq_redirect ?q) (gq_state ?q) [(''code'', raw)], db2)"
    using choice au answers(3) save by (simp add: issue_code_def Let_def)
  moreover obtain ps where "redirect_to cfg (we_parse e') (gq_redirect ?q) (gq_state ?q) [(''code'', raw)] = Redirect (form_get q ''redirect_uri'') ps"
    "(''code'', raw) \<in> set ps" using answers(6) same(2) g by (auto simp: redirect_to_Redirect)
  ultimately show ?thesis using consent save_code_Inr [OF save] g id au(7,8)
    by (intro exI [of _ ps] exI [of _ db2] exI [of _ ?c]) (auto simp: consent_code_def)
qed

subsection \<open>The access token at the resource\<close>

lemma claim_items_back: "claim_items (map Claim_string ss) = Some r \<Longrightarrow> r = ss"
  by (induction ss arbitrary: r) (auto split: if_splits)

text \<open>A minted token, verified with the same keys, says what the request said.\<close>

lemma minted_principal:
  assumes lib: "signs_documented (ic_lib c)" and ks: "key_set_ok ks"
    and minted: "mint c check ks rnd now q = Inr raw" and ok: "verify c check' leased ks n n2 raw = Inr v"
  shows "pn_issuer (vt_principal v) = ic_issuer c \<and> pn_audience (vt_principal v) = ic_audience c
      \<and> pn_subject (vt_principal v) = wq_subject q \<and> pn_workspace (vt_principal v) = wq_workspace q
      \<and> pn_scopes (vt_principal v) = normalize_scopes (wq_scopes q)"
proof -
  obtain st p b k where m: "current_key ks = Some k" "jl_sign (ic_lib c) k (build_token c q st p (b64_encode b) now) = Some raw"
    using mint_Inr [OF minted] by metis
  have k: "k = ks_current ks" using m(1) by (simp add: current_key_def split: if_splits)
  obtain kid k2 t where v: "token_key_id (ic_lib c) raw = Some kid" "verify_key kid n ks = Some k2"
    "jl_parse (ic_lib c) (sk_public k2) kid raw = Some t" "verify_claims c check' leased n t = Inr v"
    by (rule verify_Inr [OF ok])
  let ?t = "wire_token (build_token c q st p (b64_encode b) now)"
  have signed: "jl_headers (ic_lib c) raw = Some [(''EdDSA'', sk_kid k)]" "jl_parse (ic_lib c) (sk_public k) (sk_kid k) raw = Some ?t"
    using lib m(2) unfolding signs_documented_def by auto
  have "kid = sk_kid k" using v(1) signed(1) by (simp add: token_key_id_def split: if_splits)
  moreover have "k2 = k" using v(2) ks k calculation by (simp add: verify_key_def key_set_ok_def split: option.splits if_splits)
  ultimately have t: "t = ?t" using v(3) signed(2) by simp
  obtain ws scopes g parent ps where pc: "private_claims ?t = Some (ws, scopes, g, parent, ps)" and
    vp: "vt_principal v = \<lparr>pn_issuer = jw_issuer ?t, pn_subject = jw_subject ?t, pn_audience = hd (jw_audience ?t),
       pn_workspace = ws, pn_scopes = normalize_scopes scopes, pn_generation = g, pn_subject_type = pn_subject_type (vt_principal v)\<rparr>"
    by (rule verify_claims_Inr [OF v(4) [unfolded t]]) auto
  have "ws = wq_workspace q" "scopes = normalize_scopes (wq_scopes q)"
    using pc unfolding private_claims_Some claim_string_def claim_strings_def
    by (auto simp: build_token_def Let_def wire_value_def dest: claim_items_back split: if_splits)
  then show ?thesis using vp by (metis build_sel(1-3) hd_conv_nth list.sel(1) normalize_scopes_idem principal_rec.select_convs wire_sel(1-3))
qed

lemma mint_for_resource_Inr:
  assumes "minter_answer m resource q = Some a"
  obtains c raw v where "me_issuers m resource = Some c" "mint c (me_policy m) (me_keys m) (me_random m) (me_now_mint m) q = Inr raw"
    "verify c (me_policy m) (me_lease m) (me_keys m) (me_now_verify m) (me_now_verify m) raw = Inr v" "a = \<lparr>at_token = raw, at_expires = vt_expires v\<rparr>"
  using assms that by (auto simp: minter_answer_def mint_for_resource_def split: option.splits sum.splits if_splits)

text \<open>C2. The access token proves the consent to the resource: when the token endpoint, minting with the workload issuers,
  returns tokens, its access token verifies at the issuer of one resource, and the principal a verifier obtains is the
  person who consented, in the workspace chosen there, for the audience of that resource, with scopes among
  those of a consumed authorization code issued to the requesting client for that resource.\<close>

theorem access_token_proves_consent:
  assumes reach: "db_step\<^sup>*\<^sup>* empty_db db" and others: "others_run e" and minter: "te_mint e = minter_answer m"
    and lib: "\<forall>res c. me_issuers m res = Some c \<longrightarrow> signs_documented (ic_lib c)" and keys: "key_history (me_keys m)"
    and tok: "handle_token cfg e r db = (Inr resp, db')" and form: "tp_form r = Some f"
  shows "\<exists>k cl c v. db_codes db' (ac_hash (cr_code k)) = Some k \<and> cr_consumed k \<noteq> None
      \<and> db_clients db (form_get f ''client_id'') = Some cl \<and> ac_client (cr_code k) = oc_id cl
      \<and> me_issuers m (ac_resource (cr_code k)) = Some c
      \<and> verify c (me_policy m) (me_lease m) (me_keys m) (me_now_verify m) (me_now_verify m) (tr_access resp) = Inr v
      \<and> pn_subject (vt_principal v) = ac_subject (cr_code k) \<and> pn_workspace (vt_principal v) = ac_workspace (cr_code k)
      \<and> pn_audience (vt_principal v) = ic_audience c \<and> set (pn_scopes (vt_principal v)) \<subseteq> set (ac_scopes (cr_code k))"
proof -
  obtain cl k scopes a where cl: "db_clients db (form_get f ''client_id'') = Some cl" "ac_client (cr_code k) = oc_id cl"
    and k: "db_codes db' (ac_hash (cr_code k)) = Some k" "cr_consumed k \<noteq> None"
    and ans: "te_mint e (ac_resource (cr_code k)) (human_request (cr_code k) scopes) = Some a"
    and sc: "set scopes \<subseteq> set (ac_scopes (cr_code k))" and acc: "tr_access resp = at_token a"
    using token_within_consent [OF reach others tok form] by blast
  from ans have ans': "minter_answer m (ac_resource (cr_code k)) (human_request (cr_code k) scopes) = Some a" by (simp add: minter)
  obtain c raw v where c: "me_issuers m (ac_resource (cr_code k)) = Some c"
    and mi: "mint c (me_policy m) (me_keys m) (me_random m) (me_now_mint m) (human_request (cr_code k) scopes) = Inr raw"
    and ve: "verify c (me_policy m) (me_lease m) (me_keys m) (me_now_verify m) (me_now_verify m) raw = Inr v"
    and a: "a = \<lparr>at_token = raw, at_expires = vt_expires v\<rparr>"
    by (rule mint_for_resource_Inr [OF ans'])
  have "pn_audience (vt_principal v) = ic_audience c \<and> pn_subject (vt_principal v) = ac_subject (cr_code k)
      \<and> pn_workspace (vt_principal v) = ac_workspace (cr_code k) \<and> pn_scopes (vt_principal v) = normalize_scopes scopes"
    using minted_principal [OF lib [rule_format, OF c] key_history_ok [OF keys] mi ve] by (simp add: human_request_def)
  with cl k c ve sc acc a show ?thesis
    by (intro exI [of _ k] exI [of _ cl] exI [of _ c] exI [of _ v]) simp
qed

subsection \<open>Registration\<close>

lemma check_redirects_Inr: "check_redirects parse us out = Inr res \<Longrightarrow> distinct out \<Longrightarrow>
    (\<forall>u \<in> set out. valid_redirect_uri parse u = None) \<Longrightarrow>
    distinct res \<and> set res = set out \<union> set us \<and> (\<forall>u \<in> set res. valid_redirect_uri parse u = None) \<and> length res \<le> length out + length us"
  by (induction parse us out rule: check_redirects.induct) (force split: if_splits option.splits)+

lemma map_sum_Inr: "map_sum id f x = Inr y \<longleftrightarrow> (\<exists>z. x = Inr z \<and> y = f z)"
  by (cases x) auto

text \<open>C35. Registration admits only public clients with safe redirects: a client the endpoint stores has between one and ten
  distinct redirect URIs, each an absolute URI over https, or over http to a loopback address on a valid port, without
  fragment, credentials or white space, and scopes the server supports, as many as it asked for and not trimmed; an
  unsupported scope or an invalid redirect URI is an error that stores nothing.\<close>

theorem registration_sound:
  assumes "handle_register cfg fld parse e rnd now ct req db = (res, db')"
  shows "(\<forall>c. res = Inr c \<longrightarrow> (\<exists>q. req = Some q \<and> db_clients db' = (db_clients db)(oc_id c \<mapsto> c) \<and> oc_id c \<notin> dom (db_clients db)
        \<and> oc_redirects c \<noteq> [] \<and> length (oc_redirects c) \<le> 10 \<and> distinct (oc_redirects c) \<and> set (oc_redirects c) = set (rg_redirects q)
        \<and> (\<forall>u \<in> set (oc_redirects c). \<exists>p. parse u = Some p \<and> (u_scheme p = ''https'' \<or> is_loopback_http p) \<and> u_host p \<noteq> []
              \<and> u_fragment p = [] \<and> \<not> u_has_user p \<and> \<not> go_contains u ''#'')
        \<and> set (oc_scopes c) \<subseteq> set (sv_scopes cfg) \<and> (\<forall>raw. rg_scope q = Some raw \<longrightarrow> parse_scope raw = Some (oc_scopes c))))
     \<and> (\<forall>x. res = Inl x \<longrightarrow> db' = db)"
proof (intro conjI allI impI)
  fix c assume res: "res = Inr c"
  obtain q name redirects scopes b where q: "req = Some q" and rc: "registration_client cfg parse q = Inr (name, redirects, scopes)"
    and c: "c = \<lparr>oc_id = ''gc_'' @ b64_encode b, oc_name = name, oc_redirects = redirects, oc_scopes = scopes,
                         oc_audience = hd (sv_resources cfg), oc_created = now\<rparr>"
    and cr: "create_client e c db = (Inr () :: grant_error grant_store_error + unit, db')"
    using assms res by (auto simp: handle_register_def Let_def split: if_splits option.splits sum.splits prod.splits)
  have reds: "check_redirects parse (rg_redirects q) [] = Inr redirects" "length (rg_redirects q) \<le> 10"
    and sc: "registered_scopes cfg (rg_scope q) = Inr scopes"
    using rc by (auto simp: registration_client_def map_sum_Inr split: if_splits option.splits sum.splits)
  have valid: "\<exists>p. parse u = Some p \<and> (u_scheme p = ''https'' \<or> is_loopback_http p) \<and> u_host p \<noteq> []
      \<and> u_fragment p = [] \<and> \<not> u_has_user p \<and> \<not> go_contains u ''#''" if "valid_redirect_uri parse u = None" for u
    using that by (auto simp: valid_redirect_uri_def split: if_splits option.splits)
  have "set scopes \<subseteq> set (sv_scopes cfg)" "\<forall>raw. rg_scope q = Some raw \<longrightarrow> parse_scope raw = Some scopes"
    using sc by (auto simp: registered_scopes_def find_None_iff split: option.splits if_splits)
  moreover have "db_clients db' = (db_clients db)(oc_id c \<mapsto> c) \<and> oc_id c \<notin> dom (db_clients db) \<and> oc_redirects c \<noteq> []"
    using cr by (auto simp: create_client_def split: if_splits)
  ultimately show "\<exists>q. req = Some q \<and> db_clients db' = (db_clients db)(oc_id c \<mapsto> c) \<and> oc_id c \<notin> dom (db_clients db)
        \<and> oc_redirects c \<noteq> [] \<and> length (oc_redirects c) \<le> 10 \<and> distinct (oc_redirects c) \<and> set (oc_redirects c) = set (rg_redirects q)
        \<and> (\<forall>u \<in> set (oc_redirects c). \<exists>p. parse u = Some p \<and> (u_scheme p = ''https'' \<or> is_loopback_http p) \<and> u_host p \<noteq> []
              \<and> u_fragment p = [] \<and> \<not> u_has_user p \<and> \<not> go_contains u ''#'')
        \<and> set (oc_scopes c) \<subseteq> set (sv_scopes cfg) \<and> (\<forall>raw. rg_scope q = Some raw \<longrightarrow> parse_scope raw = Some (oc_scopes c))"
    using q check_redirects_Inr [OF reds(1)] reds(2) valid by (intro exI [of _ q]) (simp add: c)
next
  fix x assume "res = Inl x"
  then show "db' = db"
    using assms by (auto simp: handle_register_def Let_def create_client_def split: if_splits option.splits sum.splits prod.splits)
qed

end
