(* ===== verification/OAuthExample.thy ===== *)
theory OAuthExample
  imports OAuthProperties
begin

text \<open>
  A concrete run of the authorization server: one client, one authorization code, its exchange, a
  replay of the code and a refresh. SHA-256 is instantiated by the identity.
\<close>

definition demo_client :: oauth_client where
  "demo_client = \<lparr>oc_id = ''gc_1'', oc_name = ''cli'', oc_redirects = [''https://c/cb''], oc_scopes = [''read'', ''write''],
     oc_audience = ''https://r'', oc_created = 0\<rparr>"

definition demo_raw :: string where
  "demo_raw = ''gc1.dw.'' @ replicate 43 CHR ''A''"

definition demo_refresh :: string where
  "demo_refresh = ''gr1.dw.'' @ replicate 43 CHR ''A''"

definition demo_verifier :: string where
  "demo_verifier = replicate 43 CHR ''v''"

definition demo_grant :: auth_code where
  "demo_grant = \<lparr>ac_hash = demo_raw, ac_client = ''gc_1'', ac_subject = ''ann'', ac_workspace = ''w'', ac_redirect = ''https://c/cb'',
     ac_resource = ''https://r'', ac_scopes = [''read''], ac_challenge = b64_encode demo_verifier, ac_issued = 0, ac_expires = 60\<rparr>"

definition demo_de :: db_env where
  "demo_de = \<lparr>de_fails = False, de_now = 5, de_uuid = ''f1''\<rparr>"

definition demo_cfg :: server_config where
  "demo_cfg = \<lparr>sv_issuer = ''https://i'', sv_resources = [''https://r''], sv_scopes = [''read'', ''write''], sv_login = [],
     sv_code_ttl = 60, sv_refresh_ttl = 1000, sv_consent_ttl = 600\<rparr>"

definition demo_env :: token_env where
  "demo_env = \<lparr>te_fold = id, te_now = 10, te_now_response = 11, te_random = Some (replicate 32 (char_of (0 :: nat))), te_sha = id,
     te_mint = (\<lambda>r q. Some \<lparr>at_token = ''jwt'', at_expires = 3600000000011\<rparr>), te_client = demo_de, te_store = demo_de,
     te_revoke = demo_de, te_before = id, te_between = id\<rparr>"

definition demo_form :: form_values where
  "demo_form = [(''grant_type'', [''authorization_code'']), (''client_id'', [''gc_1'']), (''code'', [demo_raw]),
     (''redirect_uri'', [''https://c/cb'']), (''code_verifier'', [demo_verifier])]"

definition refresh_form :: form_values where
  "refresh_form = [(''grant_type'', [''refresh_token'']), (''client_id'', [''gc_1'']), (''refresh_token'', [demo_refresh])]"

definition demo_post :: "form_values \<Rightarrow> token_post" where
  "demo_post f = \<lparr>tp_content_type = ''application/x-www-form-urlencoded'', tp_form = Some f, tp_query = [], tp_authorization = []\<rparr>"

definition demo_db :: oauth_db where
  "demo_db = empty_db\<lparr>db_clients := [''gc_1'' \<mapsto> demo_client], db_codes := [demo_raw \<mapsto> \<lparr>cr_code = demo_grant, cr_consumed = None\<rparr>]\<rparr>"

lemma demo_reach: "db_step\<^sup>*\<^sup>* empty_db demo_db"
proof -
  have c: "create_client demo_de demo_client empty_db = (Inr () :: grant_error grant_store_error + unit, empty_db\<lparr>db_clients := [''gc_1'' \<mapsto> demo_client]\<rparr>)"
    by (simp add: create_client_def demo_client_def demo_de_def empty_db_def)
  have s: "save_code demo_de demo_grant (empty_db\<lparr>db_clients := [''gc_1'' \<mapsto> demo_client]\<rparr>) = (Inr () :: grant_error grant_store_error + unit, demo_db)"
    by (simp add: save_code_def demo_grant_def demo_de_def empty_db_def demo_db_def demo_raw_def)
  show ?thesis
    using db_step.create [OF c] db_step.save [OF s] by (blast intro: converse_rtranclp_into_rtranclp)
qed

lemma demo_others: "others_run demo_env"
  by (simp add: others_run_def demo_env_def)

lemma demo_opaque: "parse_opaque code_prefix demo_raw = Some ''w''" "parse_opaque refresh_prefix demo_refresh = Some ''w''"
  "new_opaque refresh_prefix ''w'' (Some (replicate 32 (char_of (0 :: nat)))) = Some demo_refresh"
  "new_opaque code_prefix ''w'' (Some (replicate 32 (char_of (0 :: nat)))) = Some demo_raw"
  by code_simp+

definition demo_db1 :: oauth_db where
  "demo_db1 = snd (handle_token demo_cfg demo_env (demo_post demo_form) demo_db)"

definition demo_response :: token_response where
  "demo_response = \<lparr>tr_access = ''jwt'', tr_type = ''Bearer'', tr_expires_in = 3600, tr_refresh = demo_refresh, tr_scope = ''read''\<rparr>"

lemma demo_exchange: "fst (handle_token demo_cfg demo_env (demo_post demo_form) demo_db) = Inr demo_response"
  by code_simp

lemma demo_replay: "fst (handle_token demo_cfg demo_env (demo_post demo_form) demo_db1) = Inl (redeem_error Grant_reused)"
  by code_simp

definition demo_db2 :: oauth_db where
  "demo_db2 = snd (handle_token demo_cfg demo_env (demo_post demo_form) demo_db1)"

lemma demo_runs: "handle_token demo_cfg demo_env (demo_post demo_form) demo_db = (Inr demo_response, demo_db1)"
  "handle_token demo_cfg demo_env (demo_post demo_form) demo_db1 = (Inl (redeem_error Grant_reused), demo_db2)"
  using demo_exchange demo_replay by (simp_all add: demo_db1_def [symmetric] demo_db2_def [symmetric] prod_eq_iff)

lemma demo_reach1: "db_step\<^sup>*\<^sup>* empty_db demo_db1"
  by (rule rtranclp_trans [OF demo_reach handle_token_run [OF demo_others demo_runs(1)]])

lemma demo_post_form [simp]: "tp_form (demo_post f) = Some f"
  by (simp add: demo_post_def)

lemma demo_forms: "form_get demo_form ''grant_type'' = ''authorization_code''" "form_get demo_form ''client_id'' = ''gc_1''"
  "form_get demo_form ''code'' = demo_raw" "form_get demo_form ''redirect_uri'' = ''https://c/cb''"
  "form_get demo_form ''code_verifier'' = demo_verifier" "\<not> form_has demo_form ''resource''"
  "form_get refresh_form ''grant_type'' = ''refresh_token''" "form_get refresh_form ''refresh_token'' = demo_refresh"
  by (simp_all add: demo_form_def refresh_form_def form_get_def form_has_def)

lemma demo_env_sel [simp]: "te_sha demo_env = id" "te_before demo_env = id" "te_now demo_env = 10"
  "te_client demo_env = demo_de" "te_store demo_env = demo_de" "te_random demo_env = Some (replicate 32 (char_of (0 :: nat)))"
  by (simp_all add: demo_env_def)

lemma demo_issued: "family_issued demo_db2 demo_raw ''f1''" "family_holds demo_db2 demo_refresh ''f1''"
  by code_simp+

theorem grants_invariant_witness: "tr_family (the (db_tokens demo_db1 demo_refresh)) \<in> dom (db_families demo_db1)"
proof -
  have "family_holds demo_db1 demo_refresh ''f1''" by code_simp
  then obtain t where "db_tokens demo_db1 demo_refresh = Some t" by (auto simp: observed_iff)
  then show ?thesis using grants_invariant [OF demo_reach1] by auto
qed

theorem credential_exchanged_once_witness:
  "\<exists>resp db1. handle_token demo_cfg demo_env (demo_post demo_form) demo_db = (Inr resp, db1)
     \<and> fst (handle_token demo_cfg demo_env (demo_post demo_form) db1) \<noteq> Inr resp"
  using credential_exchanged_once [OF demo_reach demo_others demo_others demo_runs(1) demo_post_form rtranclp.rtrancl_refl
      demo_post_form refl refl refl, of demo_cfg demo_response] demo_runs(1) by blast

theorem reuse_ends_grant_witness:
  "fst (handle_token demo_cfg demo_env (demo_post refresh_form) demo_db2) \<noteq> Inr demo_response"
  by (rule reuse_ends_grant [OF demo_reach1 demo_others demo_others demo_runs(2) demo_post_form _ _ rtranclp.rtrancl_refl
      demo_post_form demo_forms(7), of "''f1''"])
    (use demo_issued in \<open>simp_all add: grant_family_def credential_def demo_forms\<close>)

theorem code_exchange_checked_witness:
  "\<exists>i. family_holds demo_db1 demo_refresh i \<and> \<not> token_used demo_db1 demo_refresh"
  using code_exchange_checked [OF demo_reach demo_others demo_runs(1) demo_post_form demo_forms(1)]
  by (auto simp: demo_response_def)

theorem valid_code_is_exchanged_witness:
  "\<exists>resp db'. handle_token demo_cfg demo_env (demo_post demo_form) demo_db = (Inr resp, db') \<and> tr_access resp = ''jwt''
     \<and> tr_refresh resp = demo_refresh"
proof -
  have sel: "demo_db = \<lparr>db_clients = [''gc_1'' \<mapsto> demo_client], db_codes = [demo_raw \<mapsto> \<lparr>cr_code = demo_grant, cr_consumed = None\<rparr>],
      db_families = Map.empty, db_tokens = Map.empty\<rparr>"
    by (simp add: demo_db_def empty_db_def)
  have "\<exists>resp db'. handle_token demo_cfg demo_env (demo_post demo_form) demo_db = (Inr resp, db')
      \<and> tr_access resp = at_token \<lparr>at_token = ''jwt'', at_expires = 3600000000011\<rparr> \<and> tr_refresh resp = demo_refresh
      \<and> tr_scope resp = go_join (ac_scopes demo_grant) '' '' \<and> code_spent db' (te_sha demo_env (form_get demo_form ''code''))
      \<and> family_issued db' (ac_hash demo_grant) (de_uuid (te_store demo_env))
      \<and> family_holds db' (te_sha demo_env demo_refresh) (de_uuid (te_store demo_env))
      \<and> \<not> token_used db' (te_sha demo_env demo_refresh)"
  proof (rule valid_code_is_exchanged [OF demo_reach])
    show "code_check demo_env demo_form demo_client ''w'' demo_grant = None"
      by (simp add: code_check_None demo_grant_def demo_client_def demo_forms pkce_matches_def)
    show "verifier_ok (form_get demo_form ''code_verifier'')" unfolding demo_forms by code_simp
    show "honest_post (demo_post demo_form) demo_form" by (simp add: honest_post_def demo_post_def demo_form_def)
    show "parse_opaque code_prefix (form_get demo_form ''code'') = Some ''w''" unfolding demo_forms by (rule demo_opaque(1))
    show "te_mint demo_env (ac_resource demo_grant) (human_request demo_grant (ac_scopes demo_grant))
        = Some \<lparr>at_token = ''jwt'', at_expires = 3600000000011\<rparr>" by (simp add: demo_env_def)
    show "new_opaque refresh_prefix ''w'' (Some (replicate 32 (char_of (0 :: nat)))) = Some demo_refresh" by (rule demo_opaque(3))
  qed (simp_all add: demo_forms sel demo_de_def demo_raw_def demo_refresh_def)
  then show ?thesis by auto
qed

end
