(* ===== verification/IdentityExample.thy ===== *)
theory IdentityExample
  imports IdentityProperties
begin

text \<open>A concrete issuer: one key, one request, and a token library that knows this one token.\<close>

definition sample_key :: signing_key where
  "sample_key = \<lparr>sk_kid = ''k1'', sk_algorithm = ''EdDSA'', sk_private = replicate 64 CHR ''s'', sk_public = replicate 32 CHR ''p'', sk_not_after = None\<rparr>"

definition next_key :: signing_key where
  "next_key = sample_key\<lparr>sk_kid := ''k2''\<rparr>"

definition sample_keys :: key_set where
  "sample_keys = \<lparr>ks_current = sample_key, ks_keys = [(''k1'', sample_key)]\<rparr>"

definition sample_workload :: workload_request where
  "sample_workload = \<lparr>wq_subject = ''ann'', wq_workspace = ''w'', wq_scopes = [''b'', ''a''], wq_parent_subject = [], wq_parent_scopes = [],
     wq_ttl = 0, wq_subject_type = ''human''\<rparr>"

definition sample_policy :: workload_policy where
  "sample_policy = \<lparr>wp_allowed = True, wp_generation = 3, wp_parent_subject = [], wp_parent_scopes = [''a'', ''b'', ''c''], wp_revoked = False\<rparr>"

definition sample_jti :: string where
  "sample_jti = replicate 16 CHR ''j''"

definition plain_issuer :: issuer_config where
  "plain_issuer = \<lparr>ic_issuer = ''https://i'', ic_audience = ''https://r'', ic_max_ttl = 300 * second,
     ic_lib = \<lparr>jl_headers = \<lambda>r. None, jl_parse = \<lambda>p i r. None, jl_validate = \<lambda>i a s n t. Jwt_claims_error, jl_sign = \<lambda>k t. None\<rparr>\<rparr>"

definition sample_token :: jwt_token where
  "sample_token = build_token plain_issuer sample_workload ''human'' sample_policy (b64_encode sample_jti) 0"

definition sample_lib :: jwt_lib where
  "sample_lib = \<lparr>jl_headers = (\<lambda>r. if r = ''jwt'' then Some [(''EdDSA'', ''k1'')] else None),
     jl_parse = (\<lambda>p i r. if r = ''jwt'' \<and> p = sk_public sample_key then Some (wire_token sample_token) else None),
     jl_validate = (\<lambda>i a s n t. if jw_issuer t = i \<and> a \<in> set (jw_audience t) \<and> n < jw_expires t + s \<and> jw_not_before t \<le> n + s
        \<and> jw_issued t \<le> n + s then Jwt_valid else Jwt_claims_error),
     jl_sign = (\<lambda>k t. if k = sample_key \<and> t = sample_token then Some ''jwt'' else None)\<rparr>"

definition sample_issuer :: issuer_config where
  "sample_issuer = plain_issuer\<lparr>ic_lib := sample_lib\<rparr>"

lemma sample_build: "build_token sample_issuer sample_workload ''human'' sample_policy (b64_encode sample_jti) 0 = sample_token"
  by (simp add: sample_token_def build_token_def sample_issuer_def plain_issuer_def)

lemma sample_documented: "signs_documented (ic_lib sample_issuer)" "validates_documented (ic_lib sample_issuer)"
  by (simp_all add: signs_documented_def validates_documented_def sample_issuer_def sample_lib_def sample_key_def)

lemma sample_history: "key_history sample_keys"
proof (rule key_history.fresh)
  show "new_key_set sample_key = Some sample_keys" by (simp add: new_key_set_def valid_signing_key_def sample_keys_def sample_key_def)
qed

theorem key_rotation_window_witness:
  "\<exists>ks1. rotate_key 7 next_key sample_keys = Some ks1 \<and> verify_key ''k1'' (330000000007) ks1 = None \<and> verify_key ''k1'' (330000000006) ks1 \<noteq> None"
proof -
  have "rotate_key 7 next_key sample_keys \<noteq> None"
    by (simp add: rotate_key_def Let_def valid_signing_key_def sample_keys_def sample_key_def next_key_def)
  then obtain ks1 where r: "rotate_key 7 next_key sample_keys = Some ks1" by auto
  have "verify_key (sk_kid (ks_current sample_keys)) now ks1 = (if now < 7 + (max_token_age + max_clock_skew)
      then Some ((ks_current sample_keys)\<lparr>sk_not_after := Some (7 + (max_token_age + max_clock_skew))\<rparr>) else None)" for now
    by (rule key_rotation_window [OF sample_history r]) (simp_all add: sample_keys_def sample_key_def next_key_def)
  from this [of 330000000007] this [of 330000000006] r show ?thesis
    by (simp add: sample_keys_def sample_key_def max_token_age_def max_clock_skew_def second_def)
qed

definition sample_check :: policy_store where
  "sample_check s w sc g = Some sample_policy"

lemma sample_sel: "wq_subject sample_workload = ''ann''" "wq_workspace sample_workload = ''w''" "wq_scopes sample_workload = [''b'', ''a'']"
  "wq_parent_subject sample_workload = []" "wq_parent_scopes sample_workload = []" "wq_ttl sample_workload = 0"
  "wq_subject_type sample_workload = ''human''" "wp_allowed sample_policy" "\<not> wp_revoked sample_policy" "wp_generation sample_policy = 3"
  "wp_parent_scopes sample_policy = [''a'', ''b'', ''c'']" "current_key sample_keys = Some sample_key"
  "ic_issuer sample_issuer = ''https://i''" "ic_audience sample_issuer = ''https://r''" "ic_max_ttl sample_issuer = 300 * second"
  by (simp_all add: sample_workload_def sample_policy_def current_key_def sample_keys_def sample_key_def sample_issuer_def plain_issuer_def)

lemma sample_sign: "jl_sign (ic_lib sample_issuer) sample_key sample_token = Some ''jwt''"
  by (simp add: sample_issuer_def sample_lib_def)

lemma sample_minted: "mint sample_issuer sample_check sample_keys (Some sample_jti) 0 sample_workload = Inr ''jwt''"
  by (simp add: mint_def sample_sel sample_check_def subject_type_of_def sample_build sample_sign)


definition sample_verified_token :: verified_token where
  "sample_verified_token = \<lparr>vt_principal = \<lparr>pn_issuer = ''https://i'', pn_subject = ''ann'', pn_audience = ''https://r'', pn_workspace = ''w'',
      pn_scopes = [''a'', ''b''], pn_generation = 3, pn_subject_type = ''human''\<rparr>, vt_id = b64_encode sample_jti,
     vt_expires = 300000000000, vt_parent_subject = ''ann'', vt_parent_scopes = [''a'', ''b'', ''c'']\<rparr>"

lemma sample_claims: "verify_claims sample_issuer sample_check None 5 (wire_token sample_token) = Inr sample_verified_token"
proof -
  have "private_claims (wire_token sample_token) = Some (''w'', normalize_scopes [''b'', ''a''], 3, ''ann'', normalize_scopes [''a'', ''b'', ''c''])"
    unfolding sample_token_def by (subst build_private) (simp_all add: sample_sel)
  moreover have "subject_type_claim (wire_token sample_token) = Some ''human''"
    using build_subject_type [of "''human''" "''human''"] by (simp add: sample_token_def subject_type_of_def)
  moreover have "normalize_scopes [''b'', ''a''] = [''a'', ''b'']" "normalize_scopes [''a'', ''b'', ''c''] = [''a'', ''b'', ''c'']"
    "normalize_scopes [''a'', ''b''] = [''a'', ''b'']" by code_simp+
  moreover have "jw_subject sample_token = ''ann''" "jw_id sample_token = b64_encode sample_jti" "jw_issuer sample_token = ''https://i''"
    "jw_audience sample_token = [''https://r'']" "jw_issued sample_token = 0" "jw_expires sample_token = 300000000000"
    by (simp_all add: sample_token_def build_token_def Let_def sample_sel plain_issuer_def second_def)
  ultimately show ?thesis
    by (simp add: verify_claims_def sample_check_def sample_sel sample_verified_token_def second_def max_clock_skew_def sample_jti_def)
qed

lemma sample_verified: "0 \<le> n \<Longrightarrow> n < 330000000000 \<Longrightarrow> verify sample_issuer sample_check None sample_keys 5 n ''jwt'' = Inr sample_verified_token"
proof -
  assume n: "0 \<le> n" "n < 330000000000"
  have "token_key_id (ic_lib sample_issuer) ''jwt'' = Some ''k1''" "verify_key ''k1'' 5 sample_keys = Some sample_key"
    "jl_parse (ic_lib sample_issuer) (sk_public sample_key) ''k1'' ''jwt'' = Some (wire_token sample_token)"
    by (simp_all add: token_key_id_def sample_issuer_def sample_lib_def verify_key_def sample_keys_def sample_key_def)
  moreover have "jl_validate (ic_lib sample_issuer) (ic_issuer sample_issuer) (ic_audience sample_issuer) max_clock_skew n (wire_token sample_token) = Jwt_valid"
    using n by (simp add: sample_issuer_def sample_lib_def plain_issuer_def sample_token_def build_token_def Let_def sample_sel second_def max_clock_skew_def)
  ultimately show ?thesis by (simp add: verify_def sample_claims)
qed

theorem verified_token_sound_witness:
  "\<exists>t. jl_parse sample_lib (sk_public sample_key) ''k1'' ''jwt'' = Some t \<and> jw_issuer t = ''https://i'' \<and> 5 < vt_expires sample_verified_token + max_clock_skew"
proof -
  have "ic_lib sample_issuer = sample_lib" "token_key_id sample_lib ''jwt'' = Some ''k1''" "verify_key ''k1'' 5 sample_keys = Some sample_key"
    by (simp_all add: token_key_id_def sample_issuer_def sample_lib_def verify_key_def sample_keys_def sample_key_def)
  then show ?thesis using verified_token_sound [OF sample_documented(2) sample_verified [of 5]] by (auto simp: sample_sel)
qed

theorem revocation_window_witness:
  "verify sample_issuer sample_check (Some (lease_revoke 30000000000 (vt_id sample_verified_token) (vt_expires sample_verified_token) 0 Map.empty))
     sample_keys 5 5 ''jwt'' = Inl Replayed"
  using conjunct1 [OF revocation_window [OF sample_verified [of 5] refl, of 30000000000 0]] by (simp add: sample_verified_token_def)

theorem authorization_by_policy_only_witness:
  "az_allowed (authorize_request (vt_principal sample_verified_token) (Some (\<lambda>p a r. Some \<lparr>dc_allowed = True, dc_status = 200, dc_reason = []\<rparr>)) action_read None)"
  using authorization_by_policy_only [of "vt_principal sample_verified_token" "Some (\<lambda>p a r. Some \<lparr>dc_allowed = True, dc_status = 200, dc_reason = []\<rparr>)" action_read None]
  by (simp add: sample_verified_token_def)

end
