(* ===== verification/OAuthFlowExample.thy ===== *)
theory OAuthFlowExample
  imports OAuthFlow OAuthExample IdentityExample
begin

text \<open>A concrete browser session: the consent page, the posted form and the access token it leads to.\<close>

definition web_url :: go_url where
  "web_url = \<lparr>u_scheme = ''https'', u_host = ''c'', u_hostname = ''c'', u_port = [], u_path = ''/cb'', u_escaped_path = ''/cb'', u_raw_query = [],
     u_force_query = False, u_fragment = [], u_has_user = False\<rparr>"

definition web_session :: login_session where
  "web_session = \<lparr>ls_id = ''s1'', ls_subject = ''ann'', ls_workspaces = [''w''], ls_expires = 900000000000\<rparr>"

definition web_challenge :: string where
  "web_challenge = replicate 43 CHR ''a''"

definition web_request :: grant_request where
  "web_request = \<lparr>gq_client = ''gc_1'', gq_redirect = ''https://c/cb'', gq_resource = ''https://r'', gq_scopes = [''read''], gq_challenge = web_challenge,
     gq_state = ''x'', gq_subject = ''ann'', gq_session = ''s1'', gq_expires = 600\<rparr>"

definition web_cfg :: server_config where
  "web_cfg = demo_cfg\<lparr>sv_consent_ttl := 600 * second\<rparr>"

definition web_demo :: web_env where
  "web_demo = \<lparr>we_parse = (\<lambda>u. if u = ''https://c/cb'' then Some web_url else None), we_mac = concat,
     we_marshal = (\<lambda>g. if g = web_request then ''q'' else []), we_unmarshal = (\<lambda>r. if r = ''q'' then Some web_request else None),
     we_session = Some web_session, we_policy = (\<lambda>s w sc g. Some (sample_policy\<lparr>wp_parent_scopes := [''read'']\<rparr>)), we_same_fold = (=), we_sha = id,
     we_random = Some (replicate 32 (char_of (0 :: nat))), we_now_unseal = 5, we_now = 7, we_client = demo_de, we_save = demo_de, we_others = id\<rparr>"

definition web_query :: form_values where
  "web_query = [(''client_id'', [''gc_1'']), (''redirect_uri'', [''https://c/cb'']), (''state'', [''x'']), (''response_type'', [''code'']),
     (''code_challenge_method'', [''S256'']), (''code_challenge'', [web_challenge]), (''resource'', [''https://r'']), (''scope'', [''read''])]"

definition web_db :: oauth_db where
  "web_db = empty_db\<lparr>db_clients := [''gc_1'' \<mapsto> demo_client]\<rparr>"

definition web_view :: consent_view where
  "web_view = \<lparr>cv_client = ''cli'', cv_host = ''c'', cv_resource = ''https://r'', cv_scopes = [''read''], cv_workspaces = [''w''],
     cv_request = seal web_demo web_request, cv_csrf = csrf_token web_demo ''s1'' (seal web_demo web_request)\<rparr>"

lemma web_query_get: "form_get web_query ''client_id'' = ''gc_1''" "form_get web_query ''redirect_uri'' = ''https://c/cb''"
  "form_get web_query ''state'' = ''x''" "form_get web_query ''response_type'' = ''code''" "form_get web_query ''code_challenge_method'' = ''S256''"
  "form_get web_query ''code_challenge'' = web_challenge" "form_get web_query ''resource'' = ''https://r''" "form_has web_query ''scope''"
  "form_get web_query ''scope'' = ''read''" "find (\<lambda>(k, vs). Suc 0 < length vs) web_query = None"
  by (simp_all add: web_query_def form_get_def form_has_def)

lemma web_sel: "ls_id web_session = ''s1''" "ls_subject web_session = ''ann''" "ls_workspaces web_session = [''w'']"
  "oc_id demo_client = ''gc_1''" "oc_name demo_client = ''cli''" "oc_redirects demo_client = [''https://c/cb'']" "oc_scopes demo_client = [''read'', ''write'']"
  "web_request\<lparr>gq_state := ''x'', gq_subject := ''ann'', gq_session := ''s1'', gq_expires := 600\<rparr> = web_request"
  "gq_resource web_request = ''https://r''" "gq_scopes web_request = [''read'']" "gq_client web_request = ''gc_1''"
  by (simp_all add: web_session_def demo_client_def web_request_def)

lemma web_read_scope: "parse_scope ''read'' = Some [''read'']" and web_challenge_ok: "challenge_ok web_challenge"
  by code_simp+

lemma web_page: "handle_authorize web_cfg web_demo web_query ''/u'' web_db = Consent_page web_view"
proof -
  have "validate_authorize web_cfg web_query demo_client = Inr (web_request\<lparr>gq_state := [], gq_subject := [], gq_session := [], gq_expires := 0\<rparr>)"
    by (simp add: validate_authorize_def web_query_get web_challenge_ok resource_allowed_def authorize_scopes_def web_read_scope web_cfg_def
        demo_cfg_def demo_client_def web_request_def)
  moreover have "unix_seconds (we_now web_demo + sv_consent_ttl web_cfg) = 600"
    by (simp add: web_demo_def web_cfg_def unix_seconds_def second_def)
  moreover have "get_client (we_client web_demo) ''gc_1'' web_db = (Inr demo_client :: grant_error grant_store_error + oauth_client)"
    by (simp add: get_client_def web_demo_def demo_de_def web_db_def)
  moreover have "redirect_registered (we_parse web_demo) (oc_redirects demo_client) ''https://c/cb''"
    by (simp add: redirect_registered_def demo_client_def)
  moreover have "host_of (we_parse web_demo) ''https://c/cb'' = ''c''" by (simp add: host_of_def web_demo_def web_url_def)
  moreover have "we_session web_demo = Some web_session" by (simp add: web_demo_def)
  ultimately show ?thesis
    by (simp add: handle_authorize_def web_query_get Let_def web_view_def web_sel)
qed

definition web_form :: form_values where
  "web_form = [(''request'', [cv_request web_view]), (''csrf'', [cv_csrf web_view]), (''decision'', [''allow'']), (''workspace'', [''w''])]"

definition web_post :: consent_post where
  "web_post = \<lparr>cp_fetch_site = ''same-origin'', cp_origin = [], cp_form = Some web_form\<rparr>"

lemma web_form_get: "form_get web_form ''request'' = cv_request web_view" "form_get web_form ''csrf'' = cv_csrf web_view"
  "form_get web_form ''decision'' = ''allow''" "form_get web_form ''workspace'' = ''w''"
  by (simp_all add: web_form_def form_get_def)

lemma web_env_sel: "we_sha web_demo = id" "we_client web_demo = demo_de" "we_save web_demo = demo_de" "we_others web_demo = id"
  "we_session web_demo = Some web_session" "we_parse web_demo ''https://c/cb'' = Some web_url" "we_now_unseal web_demo = 5" "we_now web_demo = 7"
  by (simp_all add: web_demo_def)

lemma web_view_sel: "cv_workspaces web_view = [''w'']" "cv_scopes web_view = [''read'']" "cv_resource web_view = ''https://r''"
  by (simp_all add: web_view_def)

lemma web_db_sel: "db_clients web_db = [''gc_1'' \<mapsto> demo_client]" "db_codes web_db = Map.empty"
  by (simp_all add: web_db_def empty_db_def)

lemma demo_de_sel: "\<not> de_fails demo_de"
  by (simp add: demo_de_def)

lemma web_form_single: "list_all (\<lambda>(k, vs). length vs = Suc 0) web_form"
  by (simp add: web_form_def)

lemma web_expiry: "unix_seconds 5 < unix_seconds (7 + sv_consent_ttl web_cfg)"
  by (simp add: web_cfg_def unix_seconds_def second_def)

lemma web_raw: "new_opaque code_prefix ''w'' (we_random web_demo) = Some demo_raw"
  using demo_opaque(4) by (simp only: web_demo_def web_env.select_convs)

theorem consent_page_grants_witness:
  "\<exists>ps db2 c. handle_consent web_cfg web_demo web_post web_db = (Redirect ''https://c/cb'' ps, db2)
     \<and> db_codes db2 demo_raw = Some \<lparr>cr_code = c, cr_consumed = None\<rparr> \<and> ac_scopes c = [''read'']"
proof -
  have "\<exists>ps db2 c. handle_consent web_cfg web_demo web_post web_db = (Redirect (form_get web_query ''redirect_uri'') ps, db2)
     \<and> (''code'', demo_raw) \<in> set ps \<and> db_codes db2 (we_sha web_demo demo_raw) = Some \<lparr>cr_code = c, cr_consumed = None\<rparr>
     \<and> ac_scopes c = cv_scopes web_view \<and> ac_resource c = cv_resource web_view \<and> ac_workspace c = ''w''
     \<and> ac_client c = form_get web_query ''client_id'' \<and> ac_challenge c = form_get web_query ''code_challenge''
     \<and> set (ac_scopes c) \<subseteq> set (sv_scopes web_cfg)"
  proof (rule consent_page_grants [OF web_page, where f = web_form])
    fix g assume "cv_request web_view = seal web_demo g"
    then have "we_marshal web_demo g = we_marshal web_demo web_request" by (intro seal_inject) (simp add: web_view_def)
    then show "we_unmarshal web_demo (we_marshal web_demo g) = Some g" by (simp add: web_demo_def split: if_splits)
  next
    show "new_opaque code_prefix ''w'' (we_random web_demo) = Some demo_raw" by (rule web_raw)
  next
    fix s assume "we_session web_demo = Some s"
    then show "check_membership web_demo (ls_subject s) ''w'' (cv_scopes web_view) = None"
      by (simp add: check_membership_None web_demo_def web_view_def sample_policy_def)
  qed (simp_all add: web_env_sel web_view_sel web_form_get web_query_get web_db_sel web_post_def same_origin_def demo_raw_def web_form_single
      web_expiry demo_de_sel web_sel)
  then show ?thesis unfolding web_query_get by (auto simp: web_env_sel web_view_sel)
qed

lemma web_consented: "\<exists>ps db2. handle_consent web_cfg web_demo web_post web_db = (Redirect ''https://c/cb'' ps, db2) \<and> (''code'', demo_raw) \<in> set ps"
proof -
  have un: "unseal web_demo (cv_request web_view) = Some web_request"
    unfolding web_view_def consent_view.select_convs
    by (rule unseal_seal) (simp_all add: web_demo_def web_request_def unix_seconds_def second_def)
  have csrf: "b64_decode (cv_csrf web_view) = Some (we_mac web_demo [''csrf'', ''s1'', cv_request web_view])"
    by (simp add: web_view_def csrf_token_def)
  have single: "find (\<lambda>(k, vs). Suc 0 < length vs) web_form = None" by (simp add: web_form_def)
  have got: "get_client demo_de ''gc_1'' web_db = (Inr demo_client :: grant_error grant_store_error + oauth_client)"
    by (simp add: get_client_def demo_de_sel web_db_sel)
  have red: "redirect_registered (we_parse web_demo) [''https://c/cb''] ''https://c/cb''" by (simp add: redirect_registered_def)
  have mem: "check_membership web_demo ''ann'' ''w'' [''read''] = None"
    by (simp add: check_membership_None web_demo_def sample_policy_def)
  have q: "gq_redirect web_request = ''https://c/cb''" "gq_session web_request = ''s1''" "gq_subject web_request = ''ann''"
    by (simp_all add: web_request_def)
  have ne: "demo_raw \<noteq> []" by (simp add: demo_raw_def)
  obtain db2 where save: "save_code demo_de (consent_code web_cfg web_demo web_request web_session ''w'' demo_raw) web_db
      = (Inr () :: grant_error grant_store_error + unit, db2)"
    by (simp add: save_code_def consent_code_def demo_de_sel web_db_sel web_env_sel web_sel ne)
  show ?thesis
    by (simp add: handle_consent_def issue_code_def web_post_def same_origin_def single web_form_get web_env_sel web_sel un csrf got red q mem web_raw
        save redirect_to_Redirect)
qed

theorem consent_binds_code_witness:
  "\<exists>ps db2 q. handle_consent web_cfg web_demo web_post web_db = (Redirect ''https://c/cb'' ps, db2)
     \<and> db_codes db2 demo_raw = Some \<lparr>cr_code = consent_code web_cfg web_demo q web_session ''w'' demo_raw, cr_consumed = None\<rparr>"
proof -
  obtain ps db2 where run: "handle_consent web_cfg web_demo web_post web_db = (Redirect ''https://c/cb'' ps, db2)" "(''code'', demo_raw) \<in> set ps"
    using web_consented by blast
  show ?thesis using consent_binds_code [OF run] run(1) by (auto simp: web_env_sel web_sel)
qed

definition web_registration :: registration where
  "web_registration = \<lparr>rg_redirects = [''https://c/cb'', ''https://c/cb''], rg_name = ''cli'', rg_scope = Some ''read'', rg_grants = [], rg_responses = [''code''], rg_auth = ''none''\<rparr>"

theorem registration_sound_witness:
  "\<exists>c db2. handle_register web_cfg id (we_parse web_demo) demo_de (Some ''0123'') 5 ''application/json'' (Some web_registration) empty_db = (Inr c, db2)
     \<and> set (oc_redirects c) = {''https://c/cb''} \<and> length (oc_redirects c) \<le> 10 \<and> set (oc_scopes c) \<subseteq> {''read'', ''write''}"
proof -
  let ?h = "handle_register web_cfg id (we_parse web_demo) demo_de (Some ''0123'') 5 ''application/json'' (Some web_registration) empty_db"
  have "case fst ?h of Inr c \<Rightarrow> True | Inl x \<Rightarrow> False" by code_simp
  then obtain c db2 where run: "?h = (Inr c, db2)" by (cases ?h) (auto split: sum.splits)
  then show ?thesis using registration_sound [OF run] by (auto simp: web_registration_def web_cfg_def demo_cfg_def)
qed

subsection \<open>The access token\<close>

definition grant_request_jwt :: workload_request where
  "grant_request_jwt = human_request demo_grant [''read'']"

definition grant_policy :: workload_policy where
  "grant_policy = sample_policy\<lparr>wp_parent_scopes := [''read'']\<rparr>"

definition grant_token :: jwt_token where
  "grant_token = build_token plain_issuer grant_request_jwt ''human'' grant_policy (b64_encode sample_jti) 0"

definition grant_issuer :: issuer_config where
  "grant_issuer = plain_issuer\<lparr>ic_lib := sample_lib\<lparr>
     jl_parse := (\<lambda>p i r. if r = ''jwt'' \<and> p = sk_public sample_key then Some (wire_token grant_token) else None),
     jl_sign := (\<lambda>k t. if k = sample_key \<and> t = grant_token then Some ''jwt'' else None)\<rparr>\<rparr>"

definition grant_minter :: minter_env where
  "grant_minter = \<lparr>me_issuers = (\<lambda>r. if r = ''https://r'' then Some grant_issuer else None), me_record = Some (\<lambda>i. True),
     me_policy = (\<lambda>s w sc g. Some grant_policy), me_lease = None, me_keys = sample_keys, me_random = Some sample_jti, me_now_mint = 0,
     me_now_verify = 5\<rparr>"

lemma grant_sel: "ic_issuer grant_issuer = ''https://i''" "ic_audience grant_issuer = ''https://r''" "ic_max_ttl grant_issuer = 300 * second"
  "wq_subject grant_request_jwt = ''ann''" "wq_workspace grant_request_jwt = ''w''" "wq_scopes grant_request_jwt = [''read'']"
  "wq_parent_subject grant_request_jwt = []" "wq_parent_scopes grant_request_jwt = []" "wq_ttl grant_request_jwt = 0"
  "wq_subject_type grant_request_jwt = ''human''" "wp_allowed grant_policy" "\<not> wp_revoked grant_policy" "wp_generation grant_policy = 3"
  "wp_parent_scopes grant_policy = [''read'']"
  by (simp_all add: grant_issuer_def plain_issuer_def grant_request_jwt_def human_request_def demo_grant_def grant_policy_def sample_policy_def)

lemma grant_documented: "signs_documented (ic_lib grant_issuer)"
  by (simp add: signs_documented_def grant_issuer_def sample_lib_def sample_key_def)

lemma grant_minted: "mint grant_issuer (\<lambda>s w sc g. Some grant_policy) sample_keys (Some sample_jti) 0 grant_request_jwt = Inr ''jwt''"
proof -
  have "build_token grant_issuer grant_request_jwt ''human'' grant_policy (b64_encode sample_jti) 0 = grant_token"
    by (simp add: grant_token_def build_token_def grant_issuer_def plain_issuer_def)
  moreover have "jl_sign (ic_lib grant_issuer) sample_key grant_token = Some ''jwt''" by (simp add: grant_issuer_def)
  ultimately show ?thesis by (simp add: mint_def grant_sel subject_type_of_def sample_sel)
qed

lemma grant_answer: "minter_answer grant_minter ''https://r'' grant_request_jwt \<noteq> None"
proof -
  have "private_claims (wire_token grant_token) = Some (''w'', normalize_scopes [''read''], 3, ''ann'', normalize_scopes [''read''])"
    unfolding grant_token_def by (subst build_private) (simp_all add: grant_sel)
  moreover have "subject_type_claim (wire_token grant_token) = Some ''human''"
    using build_subject_type [of "''human''" "''human''"] by (simp add: grant_token_def subject_type_of_def)
  moreover have "jw_subject grant_token = ''ann''" "jw_id grant_token = b64_encode sample_jti" "jw_issued grant_token = 0" "jw_expires grant_token = 300000000000"
    by (simp_all add: grant_token_def build_token_def Let_def grant_sel plain_issuer_def second_def)
  moreover have "normalize_scopes [''read''] = [''read'']" by (simp add: normalize_scopes_def)
  ultimately have "\<exists>v. verify_claims grant_issuer (\<lambda>s w sc g. Some grant_policy) None 5 (wire_token grant_token) = Inr v"
    by (simp add: verify_claims_def grant_sel second_def max_clock_skew_def sample_jti_def)
  moreover have "token_key_id (ic_lib grant_issuer) ''jwt'' = Some ''k1''" "verify_key ''k1'' 5 sample_keys = Some sample_key"
    "jl_parse (ic_lib grant_issuer) (sk_public sample_key) ''k1'' ''jwt'' = Some (wire_token grant_token)"
    by (simp_all add: token_key_id_def grant_issuer_def sample_lib_def verify_key_def sample_keys_def sample_key_def)
  moreover have "jl_validate (ic_lib grant_issuer) ''https://i'' ''https://r'' max_clock_skew 5 (wire_token grant_token) = Jwt_valid"
    by (simp add: grant_issuer_def sample_lib_def plain_issuer_def grant_token_def build_token_def Let_def grant_sel second_def max_clock_skew_def)
  ultimately have "\<exists>v. verify grant_issuer (\<lambda>s w sc g. Some grant_policy) None sample_keys 5 5 ''jwt'' = Inr v"
    by (simp add: verify_def grant_sel)
  then show ?thesis using grant_minted by (auto simp: minter_answer_def mint_for_resource_def grant_minter_def)
qed

definition grant_env :: token_env where
  "grant_env = demo_env\<lparr>te_mint := minter_answer grant_minter\<rparr>"

lemma grant_exchange: "\<exists>resp db'. handle_token demo_cfg grant_env (demo_post demo_form) demo_db = (Inr resp, db')"
proof -
  have e: "te_sha grant_env = id" "te_before grant_env = id" "te_now grant_env = 10" "te_client grant_env = demo_de" "te_store grant_env = demo_de"
    "te_random grant_env = Some (replicate 32 (char_of (0 :: nat)))" "te_mint grant_env = minter_answer grant_minter"
    by (simp_all only: grant_env_def demo_env_sel token_env.simps) (simp_all add: demo_env_def)
  have db: "db_clients demo_db = [''gc_1'' \<mapsto> demo_client]" "db_codes demo_db = [demo_raw \<mapsto> \<lparr>cr_code = demo_grant, cr_consumed = None\<rparr>]"
    "db_families demo_db = Map.empty" "db_tokens demo_db = Map.empty"
    by (simp_all add: demo_db_def empty_db_def)
  have req: "token_request grant_env (demo_post demo_form) demo_db = Inr (demo_form, demo_client)"
    by (rule token_request_honest) (simp_all add: honest_post_def demo_post_def demo_forms e db demo_de_sel, simp add: demo_form_def)
  have chk: "code_check grant_env demo_form demo_client ''w'' demo_grant = None"
    by (simp add: code_check_None demo_grant_def demo_client_def demo_forms pkce_matches_def e)
  have vis: "visible_code ''w'' demo_raw demo_db = Some \<lparr>cr_code = demo_grant, cr_consumed = None\<rparr>"
    by (simp add: visible_code_Some db demo_grant_def)
  have ne: "demo_raw \<noteq> []" "demo_refresh \<noteq> []" "demo_verifier \<noteq> []" by (simp_all add: demo_raw_def demo_refresh_def demo_verifier_def)
  obtain db' where rd: "redeem_code demo_de ''w'' demo_raw (code_check grant_env demo_form demo_client ''w'') (fresh_token demo_cfg grant_env demo_refresh) demo_db
      = (Inr (demo_grant, ''f1''), db')"
    using chk vis by (simp add: redeem_code_def insert_family_def insert_token_def consume_code_def fresh_token_def e db ne demo_de_def demo_grant_def)
  obtain a where a: "minter_answer grant_minter ''https://r'' grant_request_jwt = Some a" using grant_answer by blast
  have "mint_access grant_env (ac_resource demo_grant) (ac_subject demo_grant) (ac_workspace demo_grant) (ac_scopes demo_grant) = Inr a"
    using a by (simp add: mint_access_def e grant_request_jwt_def human_request_def demo_grant_def)
  moreover have "verifier_ok demo_verifier" by code_simp
  ultimately show ?thesis using rd req demo_opaque(1,3)
    by (simp add: handle_token_def redeem_grant_def Let_def demo_forms ne e)
qed

theorem access_token_proves_consent_witness:
  "\<exists>resp db' v. handle_token demo_cfg grant_env (demo_post demo_form) demo_db = (Inr resp, db')
     \<and> verify grant_issuer (\<lambda>s w sc g. Some grant_policy) None sample_keys 5 5 (tr_access resp) = Inr v"
proof -
  obtain resp db' where run: "handle_token demo_cfg grant_env (demo_post demo_form) demo_db = (Inr resp, db')" using grant_exchange by blast
  have oth: "others_run grant_env" by (simp add: others_run_def grant_env_def demo_env_def)
  have mint: "te_mint grant_env = minter_answer grant_minter" by (simp add: grant_env_def)
  have lib: "\<forall>res c. me_issuers grant_minter res = Some c \<longrightarrow> signs_documented (ic_lib c)"
    using grant_documented by (simp add: grant_minter_def split: if_splits)
  have keys: "key_history (me_keys grant_minter)" using sample_history by (simp add: grant_minter_def)
  obtain k :: code_row and c :: issuer_config and v :: verified_token where "me_issuers grant_minter (ac_resource (cr_code k)) = Some c"
    "verify c (me_policy grant_minter) (me_lease grant_minter) (me_keys grant_minter) (me_now_verify grant_minter) (me_now_verify grant_minter) (tr_access resp) = Inr v"
    using access_token_proves_consent [OF demo_reach oth mint lib keys run demo_post_form] by blast
  then have "verify grant_issuer (\<lambda>s w sc g. Some grant_policy) None sample_keys 5 5 (tr_access resp) = Inr v"
    by (simp add: grant_minter_def split: if_splits)
  with run show ?thesis by blast
qed

end
