(* ===== verification/Execution.thy ===== *)
theory Execution
  imports Packages Base64
begin

text \<open>
  \<open>security.go\<close>, \<open>executor.go\<close> and \<open>internal/runtime/detect.go\<close>: the policy that code is checked against and the
  executor that writes it to a temporary file and runs it. What the operating system answers (a random name,
  whether a write succeeds, the outcome of a process) is an environment, and what the executor does to the
  outside is a log of effects in order. A panic is \<open>None\<close>; deferred calls run after it. Paths are those of Unix.
\<close>

subsection \<open>The policy\<close>

record exec_policy =
  po_allowed :: "string list"
  po_denied :: "string list"
  po_max_output :: int

definition default_policy :: exec_policy where
  "default_policy = \<lparr>po_allowed = [],
     po_denied = [''rm -rf /'', ''rm -rf /*'', ''sudo '', ''chmod 777'', ''mkfs.'', '':(){:|:&};:'', ''> /dev/sda'',
       ''dd if=/dev/zero'', ''curl | sh'', ''curl | bash'', ''wget | sh'', ''wget | bash''],
     po_max_output = 2 ^ 20\<rparr>"

definition is_shell_lang :: "string \<Rightarrow> bool" where
  "is_shell_lang lang \<longleftrightarrow> lang \<in> {''sh'', ''bash'', ''shell''}"

definition first_token :: "string \<Rightarrow> string" where
  "first_token code0 =
     (let code = go_trim_space code0 in
      if code = [] then [] else case go_fields code of [] \<Rightarrow> [] | w # _ \<Rightarrow> w)"

datatype exec_error =
  Denied_pattern string
| Command_not_allowed string
| Runtime_missing string
| Unsupported_language string
| Temp_failed
| Write_failed
| Close_failed
| Root_failed
| Temp_path_failed
| Escapes_root
| Run_failed string

definition policy_check :: "(nat \<Rightarrow> nat) \<Rightarrow> exec_policy option \<Rightarrow> string \<Rightarrow> string \<Rightarrow> exec_error option" where
  "policy_check ul p lang code =
     (case p of
        None \<Rightarrow> None
      | Some q \<Rightarrow>
          (case find (\<lambda>d. go_contains (go_tolower ul code) (go_tolower ul d)) (po_denied q) of
             Some d \<Rightarrow> Some (Denied_pattern d)
           | None \<Rightarrow>
               if po_allowed q \<noteq> [] \<and> is_shell_lang lang \<and> first_token code \<noteq> [] \<and> first_token code \<notin> set (po_allowed q)
               then Some (Command_not_allowed (first_token code)) else None))"

subsection \<open>Runtimes and paths\<close>

text \<open>What the operating system answers during one call of \<open>Execute\<close>. \<open>oe_random\<close> is the random part of the temporary
  file's name, none if the file cannot be created; \<open>ro_deadline\<close> says whether the context had expired when the
  error of the process was examined.\<close>

datatype run_failure = Exit_error int | Not_run string

record run_outcome =
  ro_stdout :: string
  ro_stderr :: string
  ro_failure :: "run_failure option"
  ro_deadline :: bool
  ro_duration :: int

record os_env =
  oe_look_path :: "string \<Rightarrow> string option"
  oe_temp_dir :: string
  oe_random :: "string option"
  oe_write_ok :: bool
  oe_close_ok :: bool
  oe_wd :: "string option"
  oe_run :: "string \<Rightarrow> string list \<Rightarrow> string \<Rightarrow> int \<Rightarrow> run_outcome"

definition look_path :: "os_env \<Rightarrow> string \<Rightarrow> string list \<Rightarrow> exec_error + string \<times> string list" where
  "look_path os bin args = (case oe_look_path os bin of None \<Rightarrow> Inl (Runtime_missing bin) | Some p \<Rightarrow> Inr (p, args))"

definition detect :: "os_env \<Rightarrow> string \<Rightarrow> exec_error + string \<times> string list" where
  "detect os lang =
     (if lang \<in> {''sh'', ''bash'', ''shell''} then look_path os ''sh'' []
      else if lang \<in> {''python'', ''python3''} then look_path os ''python3'' []
      else if lang = ''go'' then look_path os ''go'' [''run'']
      else if lang \<in> {''node'', ''javascript'', ''js''} then look_path os ''node'' []
      else Inl (Unsupported_language lang))"

definition lang_extension :: "string \<Rightarrow> string" where
  "lang_extension lang =
     (if lang \<in> {''sh'', ''bash'', ''shell''} then ''.sh''
      else if lang \<in> {''python'', ''python3''} then ''.py''
      else if lang = ''go'' then ''.go''
      else if lang \<in> {''node'', ''javascript'', ''js''} then ''.js''
      else ''.tmp'')"

definition truncate_output :: "string \<Rightarrow> int \<Rightarrow> string" where
  "truncate_output s n = (if n \<le> 0 \<or> int (length s) \<le> n then s else take (nat n) s)"

text \<open>\<open>os.CreateTemp\<close>: the name it makes of a directory and the two parts of the pattern; \<open>filepath.Abs\<close>; and
  whether \<open>filepath.Rel\<close> fails, which on Unix needs a relative base or a base that starts with \<open>..\<close> where the paths part.\<close>

definition temp_name :: "os_env \<Rightarrow> string \<Rightarrow> string \<Rightarrow> string \<Rightarrow> string \<Rightarrow> string" where
  "temp_name os dir0 pre r suf =
     (let dir = (if dir0 = [] then oe_temp_dir os else dir0) in
      (if go_has_suffix dir ''/'' then dir else dir @ ''/'') @ pre @ r @ suf)"

definition abs_path :: "os_env \<Rightarrow> string \<Rightarrow> string option" where
  "abs_path os p = (if go_has_prefix p ''/'' then Some (path_clean p)
     else map_option (\<lambda>wd. path_clean (wd @ ''/'' @ p)) (oe_wd os))"

fun rel_stuck :: "string list \<Rightarrow> string list \<Rightarrow> bool" where
  "rel_stuck (b # bs) (t # ts) = (if b = t then rel_stuck bs ts else b = ''..'')"
| "rel_stuck _ _ = False"

definition rel_fails :: "string \<Rightarrow> string \<Rightarrow> bool" where
  "rel_fails base0 targ0 =
     (let base = path_clean base0; targ = path_clean targ0; b = (if base = ''.'' then [] else base) in
      targ \<noteq> base \<and> (go_has_prefix b ''/'' \<noteq> go_has_prefix targ ''/'' \<or> rel_stuck (go_split b ''/'') (go_split targ ''/'')))"

subsection \<open>The executor\<close>

record exec_result =
  xr_stdout :: string
  xr_stderr :: string
  xr_exit :: int
  xr_duration :: int

record executor =
  xc_root :: string
  xc_timeout :: int
  xc_policy :: "exec_policy option"

datatype executor_option = With_timeout int | With_policy "exec_policy option"

fun apply_executor_option :: "executor_option \<Rightarrow> executor \<Rightarrow> executor" where
  "apply_executor_option (With_timeout d) e = (if d > 0 then e\<lparr>xc_timeout := d\<rparr> else e)"
| "apply_executor_option (With_policy p) e = e\<lparr>xc_policy := p\<rparr>"

definition new_executor :: "string \<Rightarrow> executor_option list \<Rightarrow> executor" where
  "new_executor root opts =
     fold apply_executor_option opts \<lparr>xc_root = root, xc_timeout = 30 * 10 ^ 9, xc_policy = Some default_policy\<rparr>"

text \<open>The effects of a call, in order; a process runs with a program, its arguments, a directory and a time limit.\<close>

datatype exec_effect =
  Created string
| Wrote string string
| Closed string
| Ran string "string list" string int
| Removed string

text \<open>The answer for a finished process. Reading \<open>MaxOutputBytes\<close> of a nil policy panics.\<close>

definition run_answer :: "exec_policy option \<Rightarrow> run_outcome \<Rightarrow> (exec_error + exec_result) option" where
  "run_answer pol out =
     (case ro_failure out of
        Some f \<Rightarrow>
          if ro_deadline out
          then map_option (\<lambda>p. Inr \<lparr>xr_stdout = truncate_output (ro_stdout out) (po_max_output p),
                xr_stderr = ''execution timed out'', xr_exit = -1, xr_duration = ro_duration out\<rparr>) pol
          else (case f of
              Exit_error n \<Rightarrow>
                map_option (\<lambda>p. Inr \<lparr>xr_stdout = truncate_output (ro_stdout out) (po_max_output p),
                  xr_stderr = truncate_output (ro_stderr out) (po_max_output p), xr_exit = n, xr_duration = ro_duration out\<rparr>) pol
            | Not_run m \<Rightarrow> Some (Inl (Run_failed m)))
      | None \<Rightarrow>
          map_option (\<lambda>p. Inr \<lparr>xr_stdout = truncate_output (ro_stdout out) (po_max_output p),
            xr_stderr = truncate_output (ro_stderr out) (po_max_output p), xr_exit = 0, xr_duration = ro_duration out\<rparr>) pol)"

definition run_file :: "os_env \<Rightarrow> executor \<Rightarrow> string \<Rightarrow> string list \<Rightarrow> string \<Rightarrow> (exec_error + exec_result) option \<times> exec_effect list" where
  "run_file os e bin args path =
     (case abs_path os (xc_root e) of
        None \<Rightarrow> (Some (Inl Root_failed), [])
      | Some root \<Rightarrow>
          (case abs_path os path of
             None \<Rightarrow> (Some (Inl Temp_path_failed), [])
           | Some file \<Rightarrow>
               if rel_fails root file then (Some (Inl Escapes_root), [])
               else (run_answer (xc_policy e) (oe_run os bin (args @ [file]) (xc_root e) (xc_timeout e)),
                     [Ran bin (args @ [file]) (xc_root e) (xc_timeout e)])))"

definition execute ::
  "(nat \<Rightarrow> nat) \<Rightarrow> os_env \<Rightarrow> executor \<Rightarrow> string \<Rightarrow> string \<Rightarrow> (exec_error + exec_result) option \<times> exec_effect list" where
  "execute ul os e lang code =
     (case policy_check ul (xc_policy e) lang code of
        Some x \<Rightarrow> (Some (Inl x), [])
      | None \<Rightarrow>
          (case detect os lang of
             Inl x \<Rightarrow> (Some (Inl x), [])
           | Inr (bin, args) \<Rightarrow>
               (case oe_random os of
                  None \<Rightarrow> (Some (Inl Temp_failed), [])
                | Some r \<Rightarrow>
                    let path = temp_name os (xc_root e) ''gist-exec-'' r (lang_extension lang) in
                    if \<not> oe_write_ok os then (Some (Inl Write_failed), [Created path, Closed path, Removed path])
                    else if \<not> oe_close_ok os then (Some (Inl Close_failed), [Created path, Wrote path code, Closed path, Removed path])
                    else (case run_file os e bin args path of
                        (res, evs) \<Rightarrow> (res, [Created path, Wrote path code, Closed path] @ evs @ [Removed path])))))"


subsection \<open>What the policy decides\<close>

lemma policy_check_exact:
  "policy_check ul p lang code = None \<longleftrightarrow> (\<forall>q. p = Some q \<longrightarrow>
     (\<forall>d \<in> set (po_denied q). \<not> sublist (go_tolower ul d) (go_tolower ul code))
     \<and> (po_allowed q \<noteq> [] \<longrightarrow> is_shell_lang lang \<longrightarrow> first_token code \<in> insert [] (set (po_allowed q))))"
proof (cases p)
  case (Some q)
  have "find (\<lambda>d. go_contains (go_tolower ul code) (go_tolower ul d)) (po_denied q) = None \<longleftrightarrow>
      (\<forall>d \<in> set (po_denied q). \<not> sublist (go_tolower ul d) (go_tolower ul code))"
    by (auto simp: find_None_iff go_contains_iff_sublist)
  with Some show ?thesis
    by (cases "find (\<lambda>d. go_contains (go_tolower ul code) (go_tolower ul d)) (po_denied q)") (auto simp: policy_check_def)
qed (simp add: policy_check_def)

text \<open>\<open>AllowedCommands\<close> is documented as the commands that may appear in the code; only its first word is compared.\<close>

lemma second_command_allowed:
  "policy_check id (Some \<lparr>po_allowed = [''echo''], po_denied = [], po_max_output = 0\<rparr>) ''sh'' ''echo; reboot'' = Some (Command_not_allowed ''echo;'')"
  "policy_check id (Some \<lparr>po_allowed = [''echo''], po_denied = [], po_max_output = 0\<rparr>) ''sh'' ''echo ; reboot'' = None"
  by code_simp+

subsection \<open>Where the file lies\<close>

lemma go_split_join: "xs \<noteq> [] \<Longrightarrow> \<forall>x \<in> set xs. d \<notin> set x \<Longrightarrow> go_split (go_join xs [d]) [d] = xs"
proof (induction xs)
  case (Cons x xs)
  then show ?case by (cases xs) (auto simp: go_split_none go_split_single)
qed simp

lemma split_aux_snoc: "d \<notin> set ys \<Longrightarrow> split_aux [d] (xs @ d # ys) cur = split_aux [d] xs cur @ [ys]"
  by (induction "[d]" xs cur rule: split_aux.induct) (auto simp: split_aux_none)

lemma split_aux_segments: "d \<notin> set cur \<Longrightarrow> seg \<in> set (split_aux [d] xs cur) \<Longrightarrow> d \<notin> set seg"
  by (induction "[d]" xs cur rule: split_aux.induct) (auto split: if_splits)

lemma go_split_snoc: "d \<notin> set ys \<Longrightarrow> go_split (xs @ d # ys) [d] = go_split xs [d] @ [ys]"
  by (simp add: go_split_def split_aux_snoc)

lemma go_split_segments: "seg \<in> set (go_split xs [d]) \<Longrightarrow> d \<notin> set seg"
  using split_aux_segments [of d "[]" seg xs] by (simp add: go_split_def)

text \<open>The segments of a cleaned absolute path.\<close>

definition path_stack :: "string \<Rightarrow> string list" where
  "path_stack p = foldl (clean_step True) [] (go_split p ''/'')"

lemma clean_absolute: "go_has_prefix p ''/'' \<Longrightarrow> path_clean p = ''/'' @ go_join (path_stack p) ''/''"
  by (cases p) (auto simp: path_clean_def path_stack_def go_has_prefix_def Let_def)

lemma clean_stack: "\<forall>s \<in> set st \<union> set segs. CHR ''/'' \<notin> set s \<Longrightarrow> ''..'' \<notin> set st \<Longrightarrow>
    (\<forall>s \<in> set (foldl (clean_step True) st segs). CHR ''/'' \<notin> set s \<and> s \<noteq> ''..'')"
proof (induction segs arbitrary: st)
  case (Cons seg segs)
  have "set (clean_step True st seg) \<subseteq> set st \<union> {seg}" "''..'' \<notin> set (clean_step True st seg)"
    using Cons.prems by (auto simp: clean_step_def dest: in_set_butlastD)
  with Cons.prems Cons.IH [of "clean_step True st seg"] show ?case by fastforce
qed auto

lemma path_stack_plain: "s \<in> set (path_stack p) \<Longrightarrow> CHR ''/'' \<notin> set s \<and> s \<noteq> ''..''"
  using clean_stack [of "[]" "go_split p ''/''"] go_split_segments [of _ p "CHR ''/''"] by (auto simp: path_stack_def)

lemma rel_stuck_plain: "''..'' \<notin> set bs \<Longrightarrow> \<not> rel_stuck bs ts"
  by (induction bs ts rule: rel_stuck.induct) auto

text \<open>The check that the temporary file lies in the project root compares two absolute paths with \<open>filepath.Rel\<close>, which
  relates any two of them, the one outside the other or not: it never fails.\<close>

lemma root_check_never_fails:
  assumes "go_has_prefix root ''/''" "go_has_prefix file ''/''"
  shows "\<not> rel_fails root file"
proof -
  have "''..'' \<notin> set (go_split (path_clean root) ''/'')"
  proof (cases "path_stack root = []")
    case True
    then show ?thesis using assms(1) by (simp add: clean_absolute go_split_def)
  next
    case False
    then have "go_split (path_clean root) ''/'' = [] # path_stack root"
      using assms(1) path_stack_plain [of _ root] go_split_join [of "path_stack root" "CHR ''/''"] go_split_single [of "CHR ''/''" "[]"]
      by (simp add: clean_absolute)
    then show ?thesis using path_stack_plain [of "''..''" root] by auto
  qed
  moreover have "path_clean root \<noteq> ''.''" using assms(1) by (simp add: clean_absolute)
  ultimately show ?thesis using assms by (simp add: rel_fails_def Let_def rel_stuck_plain clean_absolute go_has_prefix_def)
qed


text \<open>The temporary file is made directly in the project root, whatever the root's spelling.\<close>

lemma path_stack_child:
  assumes "CHR ''/'' \<notin> set name" "plain_segment name"
  shows "path_stack (root @ CHR ''/'' # name) = path_stack root @ [name]"
  using assms by (simp add: path_stack_def go_split_snoc clean_step_def plain_segment_def)

lemma path_stack_slash: "path_stack (root @ ''/'') = path_stack root"
  by (simp add: path_stack_def go_split_snoc clean_step_def)

definition child_path :: "string \<Rightarrow> string \<Rightarrow> string" where
  "child_path dir name = (if dir = ''/'' then ''/'' @ name else dir @ ''/'' @ name)"

lemma go_join_snoc: "xs \<noteq> [] \<Longrightarrow> go_join (xs @ [y]) sep = go_join xs sep @ sep @ y"
  by (induction xs sep rule: go_join.induct) auto

lemma path_stack_nonempty: "[] \<notin> set (path_stack p)"
proof -
  have step: "[] \<notin> set st \<Longrightarrow> [] \<notin> set (clean_step True st seg)" for st seg
    by (auto simp: clean_step_def dest: in_set_butlastD)
  have "[] \<notin> set st \<Longrightarrow> [] \<notin> set (foldl (clean_step True) st segs)" for st segs
    by (induction segs arbitrary: st) (simp_all add: step)
  then show ?thesis by (simp add: path_stack_def)
qed

lemma clean_child:
  assumes "go_has_prefix root ''/''" "CHR ''/'' \<notin> set name" "plain_segment name"
  shows "path_clean (root @ ''/'' @ name) = child_path (path_clean root) name"
proof -
  have "go_has_prefix (root @ ''/'' @ name) ''/''" using assms(1) by (auto simp: go_has_prefix_def prefix_def)
  moreover have "go_join (path_stack root) ''/'' = [] \<longleftrightarrow> path_stack root = []"
  proof
    assume e: "go_join (path_stack root) ''/'' = []"
    show "path_stack root = []"
    proof (rule ccontr)
      assume ne: "path_stack root \<noteq> []"
      have "go_split (go_join (path_stack root) ''/'') ''/'' = path_stack root"
        using ne path_stack_plain [of _ root] by (intro go_split_join) auto
      then have "path_stack root = [[]]" by (simp add: e go_split_def)
      with path_stack_nonempty [of root] show False by simp
    qed
  qed simp
  moreover have "path_stack (root @ ''/'' @ name) = path_stack root @ [name]" using path_stack_child [OF assms(2,3)] by simp
  ultimately have c: "path_clean (root @ ''/'' @ name) = ''/'' @ go_join (path_stack root @ [name]) ''/''"
    and empty: "go_join (path_stack root) ''/'' = [] \<longleftrightarrow> path_stack root = []" using clean_absolute by auto
  show ?thesis
  proof (cases "path_stack root = []")
    case True
    then show ?thesis unfolding c clean_absolute [OF assms(1)] child_path_def by simp
  next
    case False
    then show ?thesis unfolding c clean_absolute [OF assms(1)] child_path_def using empty by (simp add: go_join_snoc)
  qed
qed


lemma slash_append: "go_has_prefix x ''/'' \<Longrightarrow> go_has_prefix (x @ y) ''/''"
  and slash_append_iff: "x \<noteq> [] \<Longrightarrow> go_has_prefix (x @ y) ''/'' \<longleftrightarrow> go_has_prefix x ''/''"
  by (cases x; simp add: go_has_prefix_def)+

lemma abs_path_prefix:
  assumes "\<forall>wd. oe_wd os = Some wd \<longrightarrow> go_has_prefix wd ''/''" "abs_path os p = Some a"
  shows "go_has_prefix a ''/''"
proof -
  have "go_has_prefix (path_clean q) ''/''" if "go_has_prefix q ''/''" for q
    using that by (simp add: clean_absolute) (simp add: go_has_prefix_def)
  with assms show ?thesis by (auto simp: abs_path_def slash_append split: if_splits)
qed

definition temp_file :: "string \<Rightarrow> string \<Rightarrow> string" where
  "temp_file r lang = ''gist-exec-'' @ r @ lang_extension lang"

lemma temp_file_plain: "CHR ''/'' \<notin> set r \<Longrightarrow> CHR ''/'' \<notin> set (temp_file r lang) \<and> plain_segment (temp_file r lang)"
  by (auto simp: temp_file_def lang_extension_def plain_segment_def)

text \<open>With or without a slash at the end of the root, the file's absolute path is its name in the absolute root.\<close>

lemma temp_path_in_root:
  assumes wd: "\<forall>wd. oe_wd os = Some wd \<longrightarrow> go_has_prefix wd ''/''" and root: "root \<noteq> []" and r: "CHR ''/'' \<notin> set r"
    and a: "abs_path os root = Some a"
  shows "abs_path os (temp_name os root ''gist-exec-'' r (lang_extension lang)) = Some (child_path a (temp_file r lang))"
proof -
  let ?n = "temp_file r lang"
  have n: "CHR ''/'' \<notin> set ?n" "plain_segment ?n" using temp_file_plain [OF r] by auto
  obtain d where d: "temp_name os root ''gist-exec-'' r (lang_extension lang) = d @ ''/'' @ ?n"
    and cl: "\<And>q. go_has_prefix (q @ root) ''/'' \<Longrightarrow> path_clean (q @ root) = path_clean (q @ d) \<and> go_has_prefix (q @ d) ''/''
        \<or> q @ root = ''/'' \<and> q @ d = []"
    and pre: "go_has_prefix root ''/'' = go_has_prefix (d @ ''/'' @ ?n) ''/''"
  proof (cases "go_has_suffix root ''/''")
    case True
    then obtain d where rd: "root = d @ ''/''" by (auto simp: go_has_suffix_def suffix_def)
    show thesis
    proof (rule that [of d])
      show "temp_name os root ''gist-exec-'' r (lang_extension lang) = d @ ''/'' @ ?n"
        using True root rd by (simp add: temp_name_def temp_file_def)
      show "go_has_prefix root ''/'' = go_has_prefix (d @ ''/'' @ ?n) ''/''"
        by (cases d) (auto simp: rd go_has_prefix_def)
      fix q assume pr: "go_has_prefix (q @ root) ''/''"
      show "path_clean (q @ root) = path_clean (q @ d) \<and> go_has_prefix (q @ d) ''/'' \<or> q @ root = ''/'' \<and> q @ d = []"
      proof (cases "q @ d = []")
        case False
        then have "go_has_prefix (q @ d) ''/''" using pr rd slash_append_iff [OF False, of "''/''"] by simp
        with pr show ?thesis using path_stack_slash [of "q @ d"] by (simp add: clean_absolute rd)
      qed (simp add: rd)
    qed
  next
    case False
    show thesis
      by (rule that [of root]) (use False root in \<open>auto simp: temp_name_def temp_file_def go_has_prefix_def prefix_def neq_Nil_conv\<close>)
  qed
  have clean: "path_clean (q @ d @ ''/'' @ ?n) = child_path (path_clean (q @ root)) ?n" if "go_has_prefix (q @ root) ''/''" for q
    using cl [OF that]
  proof
    assume "path_clean (q @ root) = path_clean (q @ d) \<and> go_has_prefix (q @ d) ''/''"
    then show ?thesis using clean_child [of "q @ d", OF _ n] by simp
  next
    assume e: "q @ root = ''/'' \<and> q @ d = []"
    then have qd: "q = []" "d = []" by auto
    have "path_stack (''/'' @ ?n) = [?n]" using path_stack_child [OF n, of "[]"] by (simp add: path_stack_def go_split_def clean_step_def)
    then have "path_clean (''/'' @ ?n) = ''/'' @ ?n" using clean_absolute [of "''/'' @ ?n"] by (simp add: go_has_prefix_def)
    moreover have "path_clean ''/'' = ''/''" by code_simp
    ultimately show ?thesis using e qd by (simp add: child_path_def)
  qed
  show ?thesis
  proof (cases "go_has_prefix root ''/''")
    case True
    then show ?thesis using a clean [of "[]"] pre by (simp add: abs_path_def d)
  next
    case False
    then obtain w where w: "oe_wd os = Some w" "a = path_clean (w @ ''/'' @ root)" using a by (auto simp: abs_path_def)
    then have "go_has_prefix ((w @ ''/'') @ root) ''/''" using wd by (simp add: slash_append)
    from clean [OF this] show ?thesis using False w pre by (simp add: abs_path_def d)
  qed
qed


subsection \<open>What a call does\<close>

definition runs :: "exec_effect list \<Rightarrow> bool" where
  "runs evs \<longleftrightarrow> (\<exists>bin args dir t. Ran bin args dir t \<in> set evs)"

lemma run_file_effects:
  "run_file os e bin args path = (res, evs) \<Longrightarrow>
     (\<exists>x. res = Some (Inl x) \<and> evs = []) \<or> (\<exists>root file. abs_path os (xc_root e) = Some root \<and> abs_path os path = Some file
       \<and> evs = [Ran bin (args @ [file]) (xc_root e) (xc_timeout e)]
       \<and> res = run_answer (xc_policy e) (oe_run os bin (args @ [file]) (xc_root e) (xc_timeout e)))"
  by (auto simp: run_file_def split: option.splits if_splits)

lemma execute_cases:
  assumes "execute ul os e lang code = (res, evs)"
  obtains (refused) x where "res = Some (Inl x)" "evs = []"
  | (unwritten) x path mid where "res = Some (Inl x)" "evs = [Created path] @ mid @ [Closed path, Removed path]" "set mid \<subseteq> {Wrote path code}"
  | (unrun) x path where "res = Some (Inl x)" "evs = [Created path, Wrote path code, Closed path, Removed path]"
  | (ran) bin args r root temp where "policy_check ul (xc_policy e) lang code = None" "detect os lang = Inr (bin, args)"
      "oe_random os = Some r" "abs_path os (xc_root e) = Some root"
      "abs_path os (temp_name os (xc_root e) ''gist-exec-'' r (lang_extension lang)) = Some temp"
      "evs = (let path = temp_name os (xc_root e) ''gist-exec-'' r (lang_extension lang) in
         [Created path, Wrote path code, Closed path, Ran bin (args @ [temp]) (xc_root e) (xc_timeout e), Removed path])"
      "res = run_answer (xc_policy e) (oe_run os bin (args @ [temp]) (xc_root e) (xc_timeout e))"
proof (cases "policy_check ul (xc_policy e) lang code")
  case (Some x)
  with assms refused show thesis by (auto simp: execute_def)
next
  case ok: None
  show thesis
  proof (cases "detect os lang")
    case (Inl x)
    with ok assms refused show thesis by (auto simp add: execute_def)
  next
    case (Inr ba)
    then obtain bin args where rt: "detect os lang = Inr (bin, args)" by (cases ba) auto
    show thesis
    proof (cases "oe_random os")
      case None
      with ok rt assms refused show thesis by (auto simp add: execute_def)
    next
      case (Some r)
      define path where "path = temp_name os (xc_root e) ''gist-exec-'' r (lang_extension lang)"
      obtain ra ea where rf: "run_file os e bin args path = (ra, ea)" by (metis prod.exhaust)
      have ex: "(res, evs) = (if \<not> oe_write_ok os then (Some (Inl Write_failed), [Created path, Closed path, Removed path])
          else if \<not> oe_close_ok os then (Some (Inl Close_failed), [Created path, Wrote path code, Closed path, Removed path])
          else (ra, [Created path, Wrote path code, Closed path] @ ea @ [Removed path]))"
        using assms ok rt Some rf by (simp add: execute_def path_def [symmetric] Let_def split: if_split_asm)
      show thesis
      proof (cases "oe_write_ok os \<and> oe_close_ok os")
        case False
        with ex unwritten [of _ path "[]"] unwritten [of _ path "[Wrote path code]"] show thesis by (auto split: if_splits)
      next
        case True
        with ex have r': "res = ra" "evs = [Created path, Wrote path code, Closed path] @ ea @ [Removed path]" by auto
        from run_file_effects [OF rf] show thesis
          by (elim disjE exE conjE) (use r' unrun ran ok rt Some in \<open>auto simp: path_def Let_def\<close>)
      qed
    qed
  qed
qed

lemma truncate_output_bound: "0 < n \<Longrightarrow> int (length (truncate_output s n)) \<le> n"
  by (simp add: truncate_output_def)

lemma run_answer_bounds:
  "run_answer pol out = Some (Inr x) \<Longrightarrow> \<exists>q. pol = Some q \<and> (0 < po_max_output q \<longrightarrow> int (length (xr_stdout x)) \<le> po_max_output q
     \<and> (xr_stderr x = ''execution timed out'' \<and> xr_exit x = -1 \<or> int (length (xr_stderr x)) \<le> po_max_output q))"
  by (auto simp: run_answer_def truncate_output_bound split: option.splits if_splits run_failure.splits)

lemma run_answer_returns: "\<exists>r. run_answer (Some q) out = Some r"
  by (simp add: run_answer_def split: option.split run_failure.split)

text \<open>C14. The executor runs only code its policy allows, from a file it made for it: a process is started only when the policy
  accepts the code and a runtime for the language exists; it is started once, in the project root and under the time
  limit, on a file that lies directly in the project root and holds exactly the code. Every file a call creates is
  removed as its last effect, whatever fails. Output is cut to the policy's limit, and with a policy no call panics.\<close>

theorem executor_runs_checked_code:
  assumes run: "execute ul os e lang code = (res, evs)" and wd: "\<forall>wd. oe_wd os = Some wd \<longrightarrow> go_has_prefix wd ''/''"
    and names: "\<forall>r. oe_random os = Some r \<longrightarrow> CHR ''/'' \<notin> set r" and root: "xc_root e \<noteq> []"
  shows "(\<forall>bin args dir t. Ran bin args dir t \<in> set evs \<longrightarrow> policy_check ul (xc_policy e) lang code = None
      \<and> dir = xc_root e \<and> t = xc_timeout e \<and> (\<exists>base d r path. detect os lang = Inr (bin, base) \<and> oe_random os = Some r
        \<and> abs_path os (xc_root e) = Some d \<and> args = base @ [child_path d (temp_file r lang)]
        \<and> abs_path os path = Some (child_path d (temp_file r lang))
        \<and> evs = [Created path, Wrote path code, Closed path, Ran bin args dir t, Removed path]))
    \<and> (\<forall>p. Created p \<in> set evs \<longrightarrow> last evs = Removed p \<and> (\<forall>q. Created q \<in> set evs \<longrightarrow> q = p))
    \<and> (\<forall>x. res = Some (Inr x) \<longrightarrow> runs evs \<and> (\<exists>q. xc_policy e = Some q \<and> (0 < po_max_output q \<longrightarrow>
        int (length (xr_stdout x)) \<le> po_max_output q
        \<and> (xr_stderr x = ''execution timed out'' \<and> xr_exit x = -1 \<or> int (length (xr_stderr x)) \<le> po_max_output q))))
    \<and> (xc_policy e \<noteq> None \<longrightarrow> res \<noteq> None)"
  using run
proof (cases rule: execute_cases)
  case (ran bin args r d temp)
  have temp: "temp = child_path d (temp_file r lang)"
    using temp_path_in_root [OF wd root _ ran(4), of r lang] names ran(3,5) by simp
  have "\<exists>q. xc_policy e = Some q" if "res \<noteq> None" "\<exists>x. res = Some (Inr x)" using that ran(7) run_answer_bounds by metis
  then show ?thesis
    using ran run_answer_bounds [of "xc_policy e"] run_answer_returns
    by (auto simp: Let_def runs_def temp)
qed (auto simp: runs_def)

text \<open>\<open>WithPolicy(nil)\<close> is accepted, and the check of a nil policy allows everything; the process runs and then the read of
  its output limit panics.\<close>

definition plain_env :: "run_outcome \<Rightarrow> os_env" where
  "plain_env out = \<lparr>oe_look_path = Some, oe_temp_dir = ''/tmp'', oe_random = Some ''7'', oe_write_ok = True, oe_close_ok = True,
     oe_wd = Some ''/'', oe_run = (\<lambda>_ _ _ _. out)\<rparr>"

definition quiet_run :: run_outcome where
  "quiet_run = \<lparr>ro_stdout = ''ok'', ro_stderr = ''no'', ro_failure = None, ro_deadline = False, ro_duration = 1\<rparr>"

lemma nil_policy_panics:
  "execute id (plain_env quiet_run) (new_executor ''/w'' [With_policy None]) ''sh'' ''reboot''
     = (None, [Created ''/w/gist-exec-7.sh'', Wrote ''/w/gist-exec-7.sh'' ''reboot'', Closed ''/w/gist-exec-7.sh'',
          Ran ''sh'' [''/w/gist-exec-7.sh''] ''/w'' (30 * 10 ^ 9), Removed ''/w/gist-exec-7.sh''])"
  by code_simp

text \<open>The limit is documented for the combined output and applied to each stream.\<close>

lemma output_limit_per_stream:
  "\<exists>x evs. execute id (plain_env quiet_run) (new_executor ''/w'' [With_policy (Some \<lparr>po_allowed = [], po_denied = [], po_max_output = 2\<rparr>)]) ''sh'' ''x''
     = (Some (Inr x), evs) \<and> length (xr_stdout x) + length (xr_stderr x) = 4"
  by (intro exI conjI, code_simp) simp

theorem executor_runs_checked_code_witness:
  "runs (snd (execute id (plain_env quiet_run) (new_executor ''/w'' []) ''sh'' ''ls''))
     \<and> policy_check id (Some default_policy) ''sh'' ''ls'' = None"
proof -
  let ?os = "plain_env quiet_run" and ?e = "new_executor ''/w'' []"
  obtain res evs where ex: "execute id ?os ?e ''sh'' ''ls'' = (res, evs)" by (metis prod.exhaust)
  have "Ran ''sh'' [''/w/gist-exec-7.sh''] ''/w'' (30 * 10 ^ 9) \<in> set (snd (execute id ?os ?e ''sh'' ''ls''))" by code_simp
  then have mem: "Ran ''sh'' [''/w/gist-exec-7.sh''] ''/w'' (30 * 10 ^ 9) \<in> set evs" by (simp add: ex)
  have sel: "\<forall>wd. oe_wd ?os = Some wd \<longrightarrow> go_has_prefix wd ''/''" "\<forall>r. oe_random ?os = Some r \<longrightarrow> CHR ''/'' \<notin> set r"
      "xc_root ?e \<noteq> []" "xc_policy ?e = Some default_policy"
    by (simp_all add: plain_env_def new_executor_def go_has_prefix_def)
  have "policy_check id (xc_policy ?e) ''sh'' ''ls'' = None"
    using executor_runs_checked_code [OF ex sel(1-3)] mem by blast
  moreover have "runs evs" using mem by (auto simp: runs_def)
  ultimately show ?thesis unfolding ex sel(4) snd_conv by (intro conjI)
qed

end
