(* ===== verification/SessionSnapshot.thy ===== *)
theory SessionSnapshot
  imports Snippet GoJson "HOL-Library.AList"
begin

text \<open>
  \<open>session.go\<close> and \<open>snapshot.go\<close>: the events of a session, and a prioritised summary of them rendered into a token
  budget. Times are nanoseconds. The session's mutex makes each of its methods atomic, but a snapshot calls five of
  them, so other goroutines may add events in between: each call sees the events of its own moment.
\<close>

subsection \<open>Formatting\<close>

text \<open>\<open>strconv.Quote\<close>; \<open>ip\<close> says which runes beyond ASCII are printable.\<close>

definition hex_pad :: "nat \<Rightarrow> nat \<Rightarrow> string" where
  "hex_pad k n = map (\<lambda>i. hex_digit (n div 16 ^ (k - Suc i) mod 16)) [0..<k]"

definition quote_rune :: "(nat \<Rightarrow> bool) \<Rightarrow> nat \<times> string \<Rightarrow> string" where
  "quote_rune ip rb = (case rb of (r, b) \<Rightarrow>
     if r = rune_error \<and> length b = 1 then CHR 0x5C # ''x'' @ hex_pad 2 (byte (hd b))
     else if r = 34 \<or> r = 92 then CHR 0x5C # b
     else if (if r < 128 then 32 \<le> r \<and> r \<le> 126 else ip r) then b
     else if 7 \<le> r \<and> r \<le> 13 then [CHR 0x5C, ''abtnvfr'' ! (r - 7)]
     else if r < 32 \<or> r = 127 then CHR 0x5C # ''x'' @ hex_pad 2 r
     else if r < 65536 then CHR 0x5C # ''u'' @ hex_pad 4 r
     else CHR 0x5C # ''U'' @ hex_pad 8 r)"

definition go_quote :: "(nat \<Rightarrow> bool) \<Rightarrow> string \<Rightarrow> string" where
  "go_quote ip s = [CHR 0x22] @ concat (map (quote_rune ip) (go_runes s)) @ [CHR 0x22]"

text \<open>\<open>Duration.String\<close>: a decimal fraction without trailing zeros, in the unit its size asks for.\<close>

definition digits_pad :: "nat \<Rightarrow> nat \<Rightarrow> string" where
  "digits_pad k n = map (\<lambda>i. char_of (48 + n div 10 ^ (k - Suc i) mod 10)) [0..<k]"

definition fmt_frac :: "nat \<Rightarrow> nat \<Rightarrow> string" where
  "fmt_frac u prec = (let d = go_trim_right (digits_pad prec (u mod 10 ^ prec)) ''0'' in if d = [] then [] else ''.'' @ d)"

definition micro_sign :: string where
  "micro_sign = [CHR 0xC2, CHR 0xB5]"

definition duration_string :: "int \<Rightarrow> string" where
  "duration_string d =
     (let u = nat \<bar>d\<bar>;
          unit_of = (\<lambda>prec s. go_itoa (u div 10 ^ prec) @ fmt_frac u prec @ s);
          s = u div 10 ^ 9;
          body = (if u = 0 then ''0s''
            else if u < 10 ^ 3 then unit_of 0 ''ns''
            else if u < 10 ^ 6 then unit_of 3 (micro_sign @ ''s'')
            else if u < 10 ^ 9 then unit_of 6 ''ms''
            else (if s div 3600 > 0 then go_itoa (s div 3600) @ ''h'' else [])
              @ (if s div 60 > 0 then go_itoa (s div 60 mod 60) @ ''m'' else [])
              @ go_itoa (s mod 60) @ fmt_frac u 9 @ ''s'')
      in (if d < 0 then ''-'' else []) @ body)"

text \<open>\<open>Time.Sub\<close> saturates at the range of 64 bits.\<close>

definition time_sub :: "int \<Rightarrow> int \<Rightarrow> int" where
  "time_sub a b = max (- (2 ^ 63)) (min (2 ^ 63 - 1) (a - b))"

subsection \<open>Sessions\<close>

text \<open>\<open>Event\<close> is an interface; \<open>Other_event\<close> is a value of a type of another package, of any type name.\<close>

datatype event =
  Index_event string int int
| Search_event string int string int
| Error_event string string int
| Other_event string int

fun event_type :: "event \<Rightarrow> string" where
  "event_type (Index_event _ _ _) = ''index''"
| "event_type (Search_event _ _ _ _) = ''search''"
| "event_type (Error_event _ _ _) = ''error''"
| "event_type (Other_event t _) = t"

fun timestamp :: "event \<Rightarrow> int" where
  "timestamp (Index_event _ _ t) = t"
| "timestamp (Search_event _ _ _ t) = t"
| "timestamp (Error_event _ _ t) = t"
| "timestamp (Other_event _ t) = t"

record session =
  ss_id :: string
  ss_events :: "event list"

definition new_session :: "string \<Rightarrow> session" where
  "new_session i = \<lparr>ss_id = i, ss_events = []\<rparr>"

definition add_event :: "event \<Rightarrow> session \<Rightarrow> session" where
  "add_event e s = s\<lparr>ss_events := ss_events s @ [e]\<rparr>"

definition events_by_type :: "string \<Rightarrow> session \<Rightarrow> event list" where
  "events_by_type t s = filter (\<lambda>e. event_type e = t) (ss_events s)"

definition events_since :: "int \<Rightarrow> session \<Rightarrow> event list" where
  "events_since t s = filter (\<lambda>e. timestamp e > t) (ss_events s)"

definition session_duration :: "session \<Rightarrow> int" where
  "session_duration s =
     (if length (ss_events s) < 2 then 0 else time_sub (timestamp (last (ss_events s))) (timestamp (hd (ss_events s))))"

record session_summary =
  sy_counts :: "(string \<times> nat) list"
  sy_duration :: int

definition count_event :: "string \<Rightarrow> (string \<times> nat) list \<Rightarrow> (string \<times> nat) list" where
  "count_event t cs = AList.update t (case map_of cs t of None \<Rightarrow> 1 | Some n \<Rightarrow> n + 1) cs"

definition summary :: "session \<Rightarrow> session_summary" where
  "summary s = \<lparr>sy_counts = fold (\<lambda>e. count_event (event_type e)) (ss_events s) [],
     sy_duration = (if length (ss_events s) \<ge> 2
       then time_sub (timestamp (last (ss_events s))) (timestamp (hd (ss_events s))) else 0)\<rparr>"

subsection \<open>Snapshots\<close>

datatype tier = Tier_critical | Tier_high | Tier_medium | Tier_low

fun tier_rank :: "tier \<Rightarrow> nat" where
  "tier_rank Tier_critical = 0"
| "tier_rank Tier_high = 1"
| "tier_rank Tier_medium = 2"
| "tier_rank Tier_low = 3"

record snapshot_section =
  sx_tier :: tier
  sx_title :: string
  sx_content :: string
  sx_tokens :: nat

definition snapshot_part :: "tier \<Rightarrow> string \<Rightarrow> string list \<Rightarrow> snapshot_section" where
  "snapshot_part t title lines = (let c = go_join lines [CHR 0x0A] in
     \<lparr>sx_tier = t, sx_title = title, sx_content = c, sx_tokens = estimate_tokens c\<rparr>)"

fun format_event :: "(nat \<Rightarrow> bool) \<Rightarrow> event \<Rightarrow> string" where
  "format_event ip (Index_event src n _) = ''indexed '' @ go_quote ip src @ '' ('' @ json_int n @ '' chunks)''"
| "format_event ip (Search_event q n l _) = ''searched '' @ go_quote ip q @ '' ('' @ json_int n @ '' results, '' @ l @ '')''"
| "format_event ip (Error_event m c _) = ''error: '' @ m @ '' ('' @ c @ '')''"
| "format_event ip (Other_event t _) = t"

text \<open>The lines of the sections; a type assertion that fails leaves the zero value.\<close>

definition error_line :: "event \<Rightarrow> string" where
  "error_line e = (case e of Error_event m c _ \<Rightarrow> ''- ['' @ c @ ''] '' @ m | _ \<Rightarrow> ''- [] '')"

definition recent_line :: "(nat \<Rightarrow> bool) \<Rightarrow> event \<Rightarrow> string" where
  "recent_line ip e = ''- ['' @ event_type e @ ''] '' @ format_event ip e"

definition search_line :: "(nat \<Rightarrow> bool) \<Rightarrow> event \<Rightarrow> string" where
  "search_line ip e = (case e of
       Search_event q n l _ \<Rightarrow> ''- query='' @ go_quote ip q @ '' results='' @ json_int n @ '' layer='' @ l
     | _ \<Rightarrow> ''- query='' @ go_quote ip [] @ '' results=0 layer='')"

definition index_line :: "(nat \<Rightarrow> bool) \<Rightarrow> event \<Rightarrow> string" where
  "index_line ip e = (case e of
       Index_event src n _ \<Rightarrow> ''- source='' @ go_quote ip src @ '' chunks='' @ json_int n
     | _ \<Rightarrow> ''- source='' @ go_quote ip [] @ '' chunks=0'')"

text \<open>\<open>sess i\<close> is the session at the \<open>i\<close>th call of one of its methods, \<open>mo\<close> the order in which the map of counts is walked.\<close>

definition build_snapshot ::
  "(nat \<Rightarrow> bool) \<Rightarrow> ((string \<times> nat) list \<Rightarrow> (string \<times> nat) list) \<Rightarrow> (nat \<Rightarrow> session) \<Rightarrow> snapshot_section list" where
  "build_snapshot ip mo sess =
     (let events = ss_events (sess 0);
          errors = events_by_type ''error'' (sess 1);
          searches = events_by_type ''search'' (sess 2);
          indexed = events_by_type ''index'' (sess 3);
          sy = summary (sess 4)
      in (if errors = [] then [] else [snapshot_part Tier_critical ''Errors'' (map error_line errors)])
       @ (if events = [] then []
          else [snapshot_part Tier_critical ''Recent Activity'' (map (recent_line ip) (drop (length events - 5) events))])
       @ (if searches = [] then [] else [snapshot_part Tier_high ''Search Summary'' (map (search_line ip) searches)])
       @ (if indexed = [] then [] else [snapshot_part Tier_medium ''Indexed Sources'' (map (index_line ip) indexed)])
       @ [snapshot_part Tier_low ''Session Metadata''
            ([''- session_id='' @ go_quote ip (ss_id (sess 0)), ''- duration='' @ duration_string (sy_duration sy),
              ''- total_events='' @ go_itoa (length events)]
             @ map (\<lambda>(t, n). ''- '' @ t @ ''_count='' @ go_itoa n) (mo (sy_counts sy)))])"

subsection \<open>Rendering\<close>

definition write_section :: "string \<Rightarrow> string \<Rightarrow> string \<Rightarrow> string" where
  "write_section b title text =
     b @ (if b \<noteq> [] then [CHR 0x0A, CHR 0x0A] else []) @ ''## '' @ title @ [CHR 0x0A] @ text"

fun render_loop :: "int \<Rightarrow> snapshot_section list \<Rightarrow> int \<Rightarrow> string \<Rightarrow> string option" where
  "render_loop m [] used b = Some b"
| "render_loop m (s # ss) used b =
     (let tokens = int (estimate_tokens (sx_content s)) in
      if m > 0 \<and> used + tokens > m then
        (let remaining = m - used in
         if remaining \<le> 0 then Some b
         else do {
           trimmed \<leftarrow> trim_to_token_budget (sx_content s) (word_of_int remaining);
           if trimmed = [] then Some b else Some (write_section b (sx_title s) trimmed)
         })
      else render_loop m ss (used + tokens) (write_section b (sx_title s) (sx_content s)))"

definition render :: "snapshot_section list \<Rightarrow> go_int \<Rightarrow> string option" where
  "render ss m = render_loop (sint m) ss 0 []"


subsection \<open>What a rendering holds\<close>

text \<open>The text of a list of titled pieces, and the tokens of their contents.\<close>

definition written :: "string \<Rightarrow> (string \<times> string) list \<Rightarrow> string" where
  "written b ps = foldl (\<lambda>b (t, c). write_section b t c) b ps"

definition whole :: "snapshot_section \<Rightarrow> string \<times> string" where
  "whole s = (sx_title s, sx_content s)"

definition cost :: "(string \<times> string) list \<Rightarrow> nat" where
  "cost ps = sum_list (map (estimate_tokens \<circ> snd) ps)"

lemma written_simps [simp]: "written b [] = b" "written b ((t, c) # ps) = written (write_section b t c) ps"
  by (simp_all add: written_def)

lemma cost_simps [simp]: "cost [] = 0" "cost (p # ps) = estimate_tokens (snd p) + cost ps" "cost (ps @ qs) = cost ps + cost qs"
  by (simp_all add: cost_def)

lemma whole_simps [simp]: "written b (whole s # ps) = written (write_section b (sx_title s) (sx_content s)) ps"
    "snd (whole s) = sx_content s"
  by (simp_all add: whole_def)

text \<open>A piece kept of the section after the last whole one: nothing, or a beginning of its content.\<close>

definition kept_part :: "snapshot_section list \<Rightarrow> nat \<Rightarrow> (string \<times> string) list \<Rightarrow> bool" where
  "kept_part ss k rest \<longleftrightarrow> rest = [] \<or>
     (k < length ss \<and> (\<exists>t. rest = [(sx_title (ss ! k), t)] \<and> t \<noteq> [] \<and> prefix t (sx_content (ss ! k))))"

lemma trim_remaining:
  assumes "0 < r" "r < int (estimate_tokens t)" "length t < 2 ^ 62"
  shows "\<exists>x. trim_to_token_budget t (word_of_int r) = Some x \<and> prefix x t \<and> int (estimate_tokens x) \<le> r"
proof -
  have "r < 2 ^ 61" using assms(2,3) by (auto simp: estimate_tokens_def split: if_splits)
  then have w: "sint (word_of_int r :: go_int) = r" using assms(1) by (simp add: sint_sbintrunc' signed_take_bit_int_eq_self)
  with \<open>r < 2 ^ 61\<close> show ?thesis using trim_to_token_budget_spec [of "word_of_int r" t] assms(1) by auto
qed

lemma render_loop_spec:
  assumes "\<forall>s \<in> set ss. length (sx_content s) < 2 ^ 62" "0 < m \<longrightarrow> used \<le> m"
  shows "\<exists>k rest. k \<le> length ss \<and> kept_part ss k rest
     \<and> render_loop m ss used b = Some (written b (map whole (take k ss) @ rest))
     \<and> (0 < m \<longrightarrow> used + int (cost (map whole (take k ss) @ rest)) \<le> m)
     \<and> (m \<le> 0 \<or> used + int (cost (map whole ss)) \<le> m \<longrightarrow> k = length ss)"
  using assms
proof (induction ss arbitrary: used b)
  case Nil
  then show ?case by (auto simp: kept_part_def)
next
  case (Cons s ss)
  let ?t = "int (estimate_tokens (sx_content s))"
  show ?case
  proof (cases "m > 0 \<and> used + ?t > m")
    case False
    with Cons.prems have "\<exists>k rest. k \<le> length ss \<and> kept_part ss k rest
       \<and> render_loop m ss (used + ?t) (write_section b (sx_title s) (sx_content s))
         = Some (written (write_section b (sx_title s) (sx_content s)) (map whole (take k ss) @ rest))
       \<and> (0 < m \<longrightarrow> used + ?t + int (cost (map whole (take k ss) @ rest)) \<le> m)
       \<and> (m \<le> 0 \<or> used + ?t + int (cost (map whole ss)) \<le> m \<longrightarrow> k = length ss)"
      by (intro Cons.IH) auto
    then obtain k rest where k: "k \<le> length ss" "kept_part ss k rest"
      "render_loop m ss (used + ?t) (write_section b (sx_title s) (sx_content s))
         = Some (written (write_section b (sx_title s) (sx_content s)) (map whole (take k ss) @ rest))"
      "0 < m \<longrightarrow> used + ?t + int (cost (map whole (take k ss) @ rest)) \<le> m"
      "m \<le> 0 \<or> used + ?t + int (cost (map whole ss)) \<le> m \<longrightarrow> k = length ss" by blast
    have run: "render_loop m (s # ss) used b = render_loop m ss (used + ?t) (write_section b (sx_title s) (sx_content s))"
      using False by (auto simp: Let_def)
    show ?thesis
      by (rule exI [of _ "Suc k"], rule exI [of _ rest], unfold run) (use k in \<open>auto simp: kept_part_def\<close>)
  next
    case True
    show ?thesis
    proof (cases "m - used \<le> 0")
      case out: True
      then show ?thesis using True Cons.prems(2) by (intro exI [of _ 0] exI [of _ "[]"]) (auto simp: kept_part_def Let_def)
    next
      case False
      then obtain x where x: "trim_to_token_budget (sx_content s) (word_of_int (m - used)) = Some x" "prefix x (sx_content s)"
          "int (estimate_tokens x) \<le> m - used"
        using trim_remaining [of "m - used" "sx_content s"] True Cons.prems(1) by auto
      show ?thesis
        using True False x by (intro exI [of _ 0] exI [of _ "if x = [] then [] else [(sx_title s, x)]"])
          (auto simp: kept_part_def Let_def)
    qed
  qed
qed

lemma sorted_tiers: "sorted (map (tier_rank \<circ> sx_tier) (build_snapshot ip mo sess))"
  by (simp add: build_snapshot_def Let_def snapshot_part_def)


definition two_errors :: session where
  "two_errors = \<lparr>ss_id = ''s'', ss_events = [Error_event ''boom'' ''index'' 5, Index_event ''a.md'' 3 7]\<rparr>"

text \<open>A session of two events, rendered into a budget of four tokens: one section, whose heading is not counted.\<close>

lemma heading_not_counted:
  "render (build_snapshot (\<lambda>_. True) id (\<lambda>_. two_errors)) 4 = Some (''## Errors'' @ [CHR 0x0A] @ ''- [index] boom'')
     \<and> estimate_tokens (''## Errors'' @ [CHR 0x0A] @ ''- [index] boom'') = 6"
  by code_simp


subsection \<open>Counts\<close>

lemma map_of_count_event: "map_of (count_event t cs) u =
    (if u = t then Some (case map_of cs t of None \<Rightarrow> 1 | Some n \<Rightarrow> n + 1) else map_of cs u)"
  by (simp add: count_event_def update_conv')

text \<open>The summary counts each type's events, the types that occur and no others.\<close>

lemma summary_counts:
  "map_of (sy_counts (summary s)) t = (let n = length (events_by_type t s) in if n = 0 then None else Some n)"
proof -
  have "map_of (fold (\<lambda>e. count_event (event_type e)) es cs) t =
      (let n = length (filter (\<lambda>e. event_type e = t) es) in
        if n = 0 then map_of cs t else Some (n + (case map_of cs t of None \<Rightarrow> 0 | Some k \<Rightarrow> k)))" for es cs
    by (induction es arbitrary: cs) (auto simp: map_of_count_event Let_def split: option.splits)
  then show ?thesis by (simp add: summary_def events_by_type_def Let_def)
qed

end
