(* ===== verification/LocalMcp.thy ===== *)
theory LocalMcp
  imports GistApi GoJson
begin

text \<open>
  \<open>mcp/server.go\<close> and \<open>mcp/tools.go\<close>: the local server that reads JSON-RPC requests from its input, one per line, and
  answers them over a \<open>Gist\<close>. Decoding and encoding of JSON values, and the texts of the library's errors, are the
  parameter \<open>mcp_codec\<close>; the identifier of a request is kept as the raw text the server echoes. The server is one
  loop, so a run is a function of its input, of the moments at which its context is cancelled, and of the Gist.
\<close>

subsection \<open>Messages\<close>

record rpc_request =
  rq_id :: string
  rq_method :: string
  rq_params :: string

record tool_property =
  tp_key :: string
  tp_type :: string
  tp_description :: string

record tool =
  tl_name :: string
  tl_description :: string
  tl_properties :: "tool_property list"
  tl_required :: "string list"

datatype tool_value = Indexed index_result | Found "search_result list" nat | Statistics gist_stats

datatype rpc_result =
  Initialize_result string string string
| Tools_result "tool list"
| Tool_result string bool

record rpc_response =
  rs_id :: string
  rs_body :: "(int \<times> string) + rpc_result"

record index_args =
  ia_content :: string
  ia_source :: string
  ia_format :: string

record search_args =
  sa_query :: string
  sa_limit :: int
  sa_source :: string
  sa_budget :: int

record mcp_codec =
  mj_request :: "string \<Rightarrow> rpc_request option"
  mj_call :: "string \<Rightarrow> (string \<times> string) option"
  mj_index :: "string \<Rightarrow> string + index_args"
  mj_search :: "string \<Rightarrow> string + search_args"
  mj_value :: "tool_value \<Rightarrow> string option"
  mj_response :: "rpc_response \<Rightarrow> string option"
  mj_index_error :: "store_error \<Rightarrow> string"
  mj_search_error :: "store_error \<Rightarrow> string"

definition code_parse_error :: int where "code_parse_error = -32700"

definition code_method_not_found :: int where "code_method_not_found = -32601"

definition code_invalid_params :: int where "code_invalid_params = -32602"

definition tool_definitions :: "tool list" where
  "tool_definitions =
     [\<lparr>tl_name = ''gist_index'',
       tl_description = ''Index content for later search. Chunks and stores content with optional source label and format.'',
       tl_properties = [\<lparr>tp_key = ''content'', tp_type = ''string'', tp_description = ''The content to index''\<rparr>,
         \<lparr>tp_key = ''source'', tp_type = ''string'', tp_description = ''Source label (e.g., file path)''\<rparr>,
         \<lparr>tp_key = ''format'', tp_type = ''string'', tp_description = ''Content format: markdown, json, or plaintext''\<rparr>],
       tl_required = [''content'']\<rparr>,
      \<lparr>tl_name = ''gist_search'',
       tl_description = ''Search indexed content using three-tier search (porter stemming, trigram, fuzzy correction). Returns results with bytes_used per result and total.'',
       tl_properties = [\<lparr>tp_key = ''query'', tp_type = ''string'', tp_description = ''Search query''\<rparr>,
         \<lparr>tp_key = ''limit'', tp_type = ''integer'', tp_description = ''Maximum number of results (default 5)''\<rparr>,
         \<lparr>tp_key = ''source'', tp_type = ''string'', tp_description = ''Filter results to a specific source''\<rparr>,
         \<lparr>tp_key = ''budget'', tp_type = ''integer'', tp_description = ''Token budget for results''\<rparr>],
       tl_required = [''query'']\<rparr>,
      \<lparr>tl_name = ''gist_stats'', tl_description = ''Return indexing and search statistics.'', tl_properties = [], tl_required = []\<rparr>]"

subsection \<open>Tools\<close>

text \<open>What the library needs besides the codec: parsers, case table, edit distance and sorting.\<close>

record 's gist_env =
  ge_parsers :: parsers
  ge_lower :: "nat \<Rightarrow> nat"
  ge_distance :: "string \<Rightarrow> string \<Rightarrow> nat"
  ge_sort :: "fuzzy_result list \<Rightarrow> fuzzy_result list"
  ge_ops :: "'s store_ops"

definition parse_format :: "(nat \<Rightarrow> nat) \<Rightarrow> string \<Rightarrow> string + format" where
  "parse_format ul s =
     (let l = go_tolower ul s in
      if l \<in> {''markdown'', ''md''} then Inr FormatMarkdown
      else if l = ''json'' then Inr FormatJSON
      else if l \<in> {''plaintext'', ''plain'', ''text''} then Inr FormatPlainText
      else Inl (''unknown format: '' @ s @ '' (use markdown, json, or plaintext)''))"

definition index_options :: "(nat \<Rightarrow> nat) \<Rightarrow> index_args \<Rightarrow> string + index_option list" where
  "index_options ul a =
     (let src = (if ia_source a \<noteq> [] then [WithSource (ia_source a)] else []) in
      if ia_format a = [] then Inr src
      else case parse_format ul (ia_format a) of Inl e \<Rightarrow> Inl e | Inr f \<Rightarrow> Inr (src @ [WithFormat f]))"

definition handle_index :: "mcp_codec \<Rightarrow> 's gist_env \<Rightarrow> string \<Rightarrow> 's gist \<Rightarrow> ((string + tool_value) \<times> 's gist) option" where
  "handle_index mj ge args g =
     (case mj_index mj args of
        Inl e \<Rightarrow> Some (Inl (''invalid arguments: '' @ e), g)
      | Inr a \<Rightarrow>
          if ia_content a = [] then Some (Inl ''content is required'', g)
          else (case index_options (ge_lower ge) a of
              Inl e \<Rightarrow> Some (Inl e, g)
            | Inr opts \<Rightarrow> do {
                r \<leftarrow> gist_index (ge_parsers ge) (ge_lower ge) (ge_ops ge) g (ia_content a) opts;
                Some (case r of (Inl e, g') \<Rightarrow> (Inl (mj_index_error mj e), g') | (Inr x, g') \<Rightarrow> (Inr (Indexed x), g'))
              }))"

definition search_options :: "search_args \<Rightarrow> search_option list" where
  "search_options a = (if sa_limit a > 0 then [WithLimit (sa_limit a)] else [])
     @ (if sa_source a \<noteq> [] then [WithSourceFilter (sa_source a)] else [])
     @ (if sa_budget a > 0 then [WithBudget (sa_budget a)] else [])"

definition handle_search :: "mcp_codec \<Rightarrow> 's gist_env \<Rightarrow> string \<Rightarrow> 's gist \<Rightarrow> ((string + tool_value) \<times> 's gist) option" where
  "handle_search mj ge args g =
     (case mj_search mj args of
        Inl e \<Rightarrow> Some (Inl (''invalid arguments: '' @ e), g)
      | Inr a \<Rightarrow>
          if sa_query a = [] then Some (Inl ''query is required'', g)
          else do {
            r \<leftarrow> gist_search (ge_distance ge) (ge_lower ge) (ge_sort ge) (ge_ops ge) g (sa_query a) (search_options a);
            Some (case r of (Inl e, g') \<Rightarrow> (Inl (mj_search_error mj e), g')
              | (Inr rs, g') \<Rightarrow> (Inr (Found rs (sum_list (map sr_bytes_used rs))), g'))
          })"

definition dispatch_tool ::
  "mcp_codec \<Rightarrow> 's gist_env \<Rightarrow> string \<Rightarrow> string \<Rightarrow> 's gist \<Rightarrow> ((string + tool_value) \<times> 's gist) option" where
  "dispatch_tool mj ge name args g =
     (if name = ''gist_index'' then handle_index mj ge args g
      else if name = ''gist_search'' then handle_search mj ge args g
      else if name = ''gist_stats'' then Some (Inr (Statistics (gist_stats_of g)), g)
      else Some (Inl (''unknown tool: '' @ name), g))"

subsection \<open>Requests\<close>

definition handle_tools_call :: "mcp_codec \<Rightarrow> 's gist_env \<Rightarrow> rpc_request \<Rightarrow> 's gist \<Rightarrow> (rpc_response \<times> 's gist) option" where
  "handle_tools_call mj ge q g =
     (case mj_call mj (rq_params q) of
        None \<Rightarrow> Some (\<lparr>rs_id = rq_id q, rs_body = Inl (code_invalid_params, ''invalid params'')\<rparr>, g)
      | Some (name, args) \<Rightarrow> do {
          (r, g') \<leftarrow> dispatch_tool mj ge name args g;
          Some (\<lparr>rs_id = rq_id q, rs_body = (case r of
              Inl e \<Rightarrow> Inr (Tool_result (json_object [(''error'', Some (json_string e))]) True)
            | Inr v \<Rightarrow> (case mj_value mj v of
                None \<Rightarrow> Inl (-32603, ''internal error'')
              | Some t \<Rightarrow> Inr (Tool_result t False)))\<rparr>, g')
        })"

definition is_notification :: "rpc_request \<Rightarrow> bool" where
  "is_notification q \<longleftrightarrow> rq_id q = [] \<or> rq_id q = ''null''"

definition handle_request ::
  "mcp_codec \<Rightarrow> 's gist_env \<Rightarrow> rpc_request \<Rightarrow> 's gist \<Rightarrow> (rpc_response option \<times> 's gist) option" where
  "handle_request mj ge q g =
     (if rq_method q = ''initialize'' then
        Some (Some \<lparr>rs_id = rq_id q, rs_body = Inr (Initialize_result ''2024-11-05'' ''gist'' ''0.1.0'')\<rparr>, g)
      else if rq_method q \<in> {''initialized'', ''notifications/initialized''} then Some (None, g)
      else if rq_method q = ''tools/list'' then Some (Some \<lparr>rs_id = rq_id q, rs_body = Inr (Tools_result tool_definitions)\<rparr>, g)
      else if rq_method q = ''tools/call'' then map_option (\<lambda>(r, g'). (Some r, g')) (handle_tools_call mj ge q g)
      else if is_notification q then Some (None, g)
      else Some (Some \<lparr>rs_id = rq_id q, rs_body = Inl (code_method_not_found, ''method not found: '' @ rq_method q)\<rparr>, g))"

definition handle_line :: "mcp_codec \<Rightarrow> 's gist_env \<Rightarrow> string \<Rightarrow> 's gist \<Rightarrow> (rpc_response option \<times> 's gist) option" where
  "handle_line mj ge line g =
     (if line = [] then Some (None, g)
      else case mj_request mj line of
        None \<Rightarrow> Some (Some \<lparr>rs_id = [], rs_body = Inl (code_parse_error, ''parse error'')\<rparr>, g)
      | Some q \<Rightarrow> handle_request mj ge q g)"

definition write_response :: "mcp_codec \<Rightarrow> rpc_response \<Rightarrow> string list" where
  "write_response mj r = (case mj_response mj r of None \<Rightarrow> [] | Some d \<Rightarrow> [d @ [CHR 0x0A]])"

subsection \<open>The loop\<close>

text \<open>\<open>bufio.Scanner\<close> with \<open>ScanLines\<close>: a line loses a carriage return before its end; a line that does not fit into the
  buffer with its end, or at the end of the input fills it, stops the scan.\<close>

definition drop_cr :: "string \<Rightarrow> string" where
  "drop_cr s = (if s \<noteq> [] \<and> last s = CHR 0x0D then butlast s else s)"

function scan_lines :: "nat \<Rightarrow> string \<Rightarrow> string list \<times> bool" where
  "scan_lines m s =
     (if s = [] then ([], True)
      else case go_index s [CHR 0x0A] of
        None \<Rightarrow> if length s < m then ([drop_cr s], True) else ([], False)
      | Some i \<Rightarrow> if i < m then (let (ls, ok) = scan_lines m (drop (Suc i) s) in (drop_cr (take i s) # ls, ok)) else ([], False))"
  by pat_completeness auto
termination by (relation "measure (\<lambda>(m, s). length s)") (auto simp: neq_Nil_conv)

declare scan_lines.simps [simp del]

definition line_limit :: nat where
  "line_limit = 10 * 1024 * 1024"

datatype serve_end = Input_ended | Line_too_long | Cancelled | Crashed

fun serve_lines :: "mcp_codec \<Rightarrow> 's gist_env \<Rightarrow> (nat \<Rightarrow> bool) \<Rightarrow> nat \<Rightarrow> string list \<Rightarrow> bool \<Rightarrow> 's gist
    \<Rightarrow> string list \<times> 's gist \<times> serve_end" where
  "serve_lines mj ge stop i [] ok g = ([], g, if ok then Input_ended else Line_too_long)"
| "serve_lines mj ge stop i (l # ls) ok g =
     (if stop i then ([], g, Cancelled)
      else case handle_line mj ge l g of
        None \<Rightarrow> ([], g, Crashed)
      | Some (r, g') \<Rightarrow>
          (case serve_lines mj ge stop (Suc i) ls ok g' of
             (out, g'', e) \<Rightarrow> ((case r of None \<Rightarrow> [] | Some x \<Rightarrow> write_response mj x) @ out, g'', e)))"

definition serve :: "mcp_codec \<Rightarrow> 's gist_env \<Rightarrow> (nat \<Rightarrow> bool) \<Rightarrow> string \<Rightarrow> 's gist \<Rightarrow> string list \<times> 's gist \<times> serve_end" where
  "serve mj ge stop input g = (case scan_lines line_limit input of (ls, ok) \<Rightarrow> serve_lines mj ge stop 0 ls ok g)"

subsection \<open>What a run keeps\<close>

text \<open>Over the memory store every call of the library keeps the store reachable and only adds to its chunks.\<close>

definition grows_store :: "memory_store gist \<Rightarrow> memory_store gist \<Rightarrow> bool" where
  "grows_store g g' \<longleftrightarrow> memory_reachable (g_store g') \<and> prefix (ms_chunks (g_store g)) (ms_chunks (g_store g'))
     \<and> prefix (map src_id (ms_sources (g_store g))) (map src_id (ms_sources (g_store g')))"

lemma prefix_trans: "prefix a b \<Longrightarrow> prefix b c \<Longrightarrow> prefix a c"
  by (auto simp: prefix_def)

lemma grows_refl: "memory_reachable (g_store g) \<Longrightarrow> grows_store g g"
  by (simp add: grows_store_def)

lemma grows_trans: "grows_store a b \<Longrightarrow> grows_store b c \<Longrightarrow> grows_store a c"
  by (meson grows_store_def prefix_trans)

lemma grows_save_source:
  assumes "memory_reachable m" "ms_save_source m l f = (r, m')"
  shows "memory_reachable m' \<and> ms_chunks m' = ms_chunks m \<and> prefix (map src_id (ms_sources m)) (map src_id (ms_sources m'))
     \<and> (\<forall>src. r = Inr src \<longrightarrow> src_id src \<in> src_id ` set (ms_sources m'))"
  using assms reach_step [OF assms(1) step_source, of l f] by (auto simp: ms_save_source_def Let_def split: if_splits)

lemma grows_index_chunk:
  assumes "memory_reachable (g_store g)" "i \<in> src_id ` set (ms_sources (g_store g))"
    and "index_chunk ul (memory_ops ul srt) i f cc g = (e, g')"
  shows "grows_store g g' \<and> i \<in> src_id ` set (ms_sources (g_store g'))"
proof -
  let ?c = "chunk_from i f cc"
  have step: "memory_reachable (snd (ms_save_chunk (g_store g) ?c))"
    using assms(2) by (intro reach_step [OF assms(1) step_chunk]) (simp add: chunk_from_def)
  have keeps: "prefix (ms_chunks (g_store g)) (ms_chunks (snd (ms_save_chunk (g_store g) ?c)))
      \<and> map src_id (ms_sources (snd (ms_save_chunk (g_store g) ?c))) = map src_id (ms_sources (g_store g))"
    by (simp add: ms_save_chunk_def Let_def)
  then have ids: "src_id ` set (ms_sources (snd (ms_save_chunk (g_store g) ?c))) = src_id ` set (ms_sources (g_store g))"
    by (metis list.set_map)
  have "g_store g' = snd (ms_save_chunk (g_store g) ?c)"
    using assms(3) by (auto simp: index_chunk_def memory_ops_def split: sum.splits prod.splits)
  then show ?thesis using step keeps ids assms(2) by (simp add: grows_store_def)
qed

lemma grows_index_chunks:
  "memory_reachable (g_store g) \<Longrightarrow> i \<in> src_id ` set (ms_sources (g_store g)) \<Longrightarrow>
    index_chunks ul (memory_ops ul srt) i f ccs n g = (r, g') \<Longrightarrow> grows_store g g'"
proof (induction ccs arbitrary: n g)
  case Nil
  then show ?case by (simp add: grows_refl)
next
  case (Cons cc ccs)
  obtain e g1 where one: "index_chunk ul (memory_ops ul srt) i f cc g = (e, g1)" by (metis prod.exhaust)
  have g1: "grows_store g g1" "i \<in> src_id ` set (ms_sources (g_store g1))"
    using grows_index_chunk [OF Cons.prems(1,2) one] by auto
  show ?case
  proof (cases e)
    case None
    then have "grows_store g1 g'" using Cons.prems(3) one g1 by (intro Cons.IH) (auto simp: grows_store_def)
    with g1 show ?thesis by (blast intro: grows_trans)
  next
    case Some
    then show ?thesis using Cons.prems(3) one g1 by simp
  qed
qed

lemma grows_gist_index:
  assumes "memory_reachable (g_store g)" "gist_index pa ul (memory_ops ul srt) g content opts = Some (r, g')"
  shows "grows_store g g'"
proof -
  obtain ccs where ix: "(case so_save_source (memory_ops ul srt) (g_store g) (ic_source (index_config_of opts)) (ic_format (index_config_of opts)) of
            (Inl e, s) \<Rightarrow> (Inl e, g\<lparr>g_store := s\<rparr>)
          | (Inr src, s) \<Rightarrow>
              (case index_chunks ul (memory_ops ul srt) (src_id src) (ic_format (index_config_of opts)) ccs 0 (g\<lparr>g_store := s\<rparr>) of
                 (Inl e, g') \<Rightarrow> (Inl e, g')
               | (Inr code, g') \<Rightarrow>
                   (Inr \<lparr>ir_source_id = src_id src, ir_label = ic_source (index_config_of opts),
                         ir_total_chunks = length ccs, ir_code_chunks = code\<rparr>,
                    count_index (length ccs) (length content) g'))) = (r, g')"
    using assms(2) by (auto simp: gist_index_def Let_def bind_Some_iff)
  obtain z s where sv: "ms_save_source (g_store g) (ic_source (index_config_of opts)) (ic_format (index_config_of opts)) = (z, s)"
    by (metis prod.exhaust)
  have saved: "memory_reachable s" "ms_chunks s = ms_chunks (g_store g)"
      "prefix (map src_id (ms_sources (g_store g))) (map src_id (ms_sources s))"
      "\<forall>src. z = Inr src \<longrightarrow> src_id src \<in> src_id ` set (ms_sources s)"
    using grows_save_source [OF assms(1) sv] by auto
  have first: "grows_store g (g\<lparr>g_store := s\<rparr>)" using saved by (simp add: grows_store_def)
  show ?thesis
  proof (cases z)
    case (Inl e)
    then show ?thesis using ix sv first by (auto simp: memory_ops_def)
  next
    case (Inr src)
    obtain n g2 where cs: "index_chunks ul (memory_ops ul srt) (src_id src) (ic_format (index_config_of opts)) ccs 0 (g\<lparr>g_store := s\<rparr>) = (n, g2)"
      by (metis prod.exhaust)
    have "grows_store (g\<lparr>g_store := s\<rparr>) g2" using grows_index_chunks [OF _ _ cs] saved Inr by simp
    moreover have "g_store g' = g_store g2"
      using ix sv Inr cs by (auto simp: memory_ops_def count_index_def split: sum.splits)
    ultimately show ?thesis using first by (auto simp: grows_store_def intro: prefix_trans)
  qed
qed


lemma gist_search_store: "gist_search ed ul fs ops g q opts = Some (r, g') \<Longrightarrow> g_store g' = g_store g"
  unfolding gist_search_def Let_def bind_Some_iff by (elim exE conjE, rename_tac x, case_tac x) auto

lemma grows_dispatch:
  assumes "memory_reachable (g_store g)" "ge_ops ge = memory_ops (ge_lower ge) srt" "dispatch_tool mj ge name args g = Some (r, g')"
  shows "grows_store g g'"
proof -
  have index: "grows_store g g'" if h: "handle_index mj ge args g = Some (r, g')"
  proof (cases "\<exists>a opts. mj_index mj args = Inr a \<and> ia_content a \<noteq> [] \<and> index_options (ge_lower ge) a = Inr opts")
    case True
    then obtain a opts where a: "mj_index mj args = Inr a" "ia_content a \<noteq> []" "index_options (ge_lower ge) a = Inr opts" by blast
    then obtain z g2 where z: "gist_index (ge_parsers ge) (ge_lower ge) (ge_ops ge) g (ia_content a) opts = Some (z, g2)"
      using h by (auto simp: handle_index_def bind_Some_iff)
    with a h have "g' = g2" by (cases z) (auto simp: handle_index_def)
    then show ?thesis using grows_gist_index [OF assms(1)] z assms(2) by simp
  next
    case False
    then have "g' = g" using h by (auto simp: handle_index_def split: sum.split_asm if_split_asm)
    then show ?thesis using grows_refl [OF assms(1)] by simp
  qed
  have search: "grows_store g g'" if h: "handle_search mj ge args g = Some (r, g')"
  proof (cases "\<exists>a. mj_search mj args = Inr a \<and> sa_query a \<noteq> []")
    case True
    then obtain a where a: "mj_search mj args = Inr a" "sa_query a \<noteq> []" by blast
    then obtain z g2 where z: "gist_search (ge_distance ge) (ge_lower ge) (ge_sort ge) (ge_ops ge) g (sa_query a) (search_options a) = Some (z, g2)"
      using h by (auto simp: handle_search_def bind_Some_iff)
    with a h have "g' = g2" by (cases z) (auto simp: handle_search_def)
    then show ?thesis using gist_search_store [OF z] assms(1) by (simp add: grows_store_def)
  next
    case False
    then have "g' = g" using h by (auto simp: handle_search_def split: sum.split_asm if_split_asm)
    then show ?thesis using grows_refl [OF assms(1)] by simp
  qed
  show ?thesis using assms index search by (auto simp: dispatch_tool_def grows_refl split: if_splits)
qed

text \<open>The lines that get no answer: empty ones, and notifications.\<close>

definition answered_methods :: "string list" where
  "answered_methods = [''initialize'', ''tools/list'', ''tools/call'']"

definition silent :: "mcp_codec \<Rightarrow> string \<Rightarrow> bool" where
  "silent mj l \<longleftrightarrow> l = [] \<or> (\<exists>q. mj_request mj l = Some q \<and> rq_method q \<notin> set answered_methods
     \<and> (rq_method q \<in> {''initialized'', ''notifications/initialized''} \<or> is_notification q))"

definition answers_line :: "mcp_codec \<Rightarrow> string \<Rightarrow> rpc_response option \<Rightarrow> bool" where
  "answers_line mj l r \<longleftrightarrow> (case r of
       None \<Rightarrow> silent mj l
     | Some x \<Rightarrow> \<not> silent mj l \<and> (case mj_request mj l of
         None \<Rightarrow> rs_id x = [] \<and> rs_body x = Inl (code_parse_error, ''parse error'')
       | Some q \<Rightarrow> rs_id x = rq_id q \<and> (rq_method q \<notin> set answered_methods \<longrightarrow> (\<exists>m. rs_body x = Inl (code_method_not_found, m)))))"

lemma handle_tools_call_id: "handle_tools_call mj ge q g = Some (x, g') \<Longrightarrow> rs_id x = rq_id q"
  by (auto simp: handle_tools_call_def bind_Some_iff split: option.splits)

lemma handle_tools_call_grows:
  assumes "memory_reachable (g_store g)" "ge_ops ge = memory_ops (ge_lower ge) srt" "handle_tools_call mj ge q g = Some (x, g')"
  shows "grows_store g g'"
  using assms grows_dispatch [OF assms(1,2)] by (auto simp: handle_tools_call_def bind_Some_iff grows_refl split: option.splits)

lemma handle_line_spec:
  assumes "memory_reachable (g_store g)" "ge_ops ge = memory_ops (ge_lower ge) srt" "handle_line mj ge l g = Some (r, g')"
  shows "grows_store g g' \<and> answers_line mj l r"
proof (cases "l = [] \<or> mj_request mj l = None")
  case True
  then show ?thesis using assms by (cases "l = []") (auto simp: handle_line_def answers_line_def silent_def grows_refl)
next
  case False
  then obtain q where q: "l \<noteq> []" "mj_request mj l = Some q" by auto
  then have h: "handle_request mj ge q g = Some (r, g')" using assms(3) by (simp add: handle_line_def)
  show ?thesis
  proof (cases "rq_method q = ''tools/call''")
    case True
    then obtain x where "handle_tools_call mj ge q g = Some (x, g')" "r = Some x" using h by (auto simp: handle_request_def)
    then show ?thesis
      using True q handle_tools_call_id handle_tools_call_grows [OF assms(1,2)] by (auto simp: answers_line_def silent_def answered_methods_def)
  next
    case other: False
    have "g' = g" using h other by (auto simp: handle_request_def split: if_splits)
    moreover have "answers_line mj l r"
      using h other q unfolding handle_request_def answers_line_def silent_def answered_methods_def
      by (auto split: if_split_asm)
    ultimately show ?thesis using grows_refl [OF assms(1)] by simp
  qed
qed

definition written_answer :: "mcp_codec \<Rightarrow> rpc_response option \<Rightarrow> string list" where
  "written_answer mj r = (case r of None \<Rightarrow> [] | Some x \<Rightarrow> write_response mj x)"

lemma serve_lines_spec:
  assumes "memory_reachable (g_store g)" "ge_ops ge = memory_ops (ge_lower ge) srt" "serve_lines mj ge stop i ls ok g = (out, g', e)"
  shows "grows_store g g' \<and> (\<exists>k rs. k \<le> length ls \<and> list_all2 (answers_line mj) (take k ls) rs
    \<and> out = concat (map (written_answer mj) rs) \<and> (e \<in> {Input_ended, Line_too_long} \<longrightarrow> k = length ls))"
  using assms
proof (induction ls arbitrary: i g out)
  case Nil
  then show ?case by (auto simp: grows_refl)
next
  case (Cons l ls)
  show ?case
  proof (cases "stop i \<or> handle_line mj ge l g = None")
    case True
    then have "out = []" "g' = g" "e \<in> {Cancelled, Crashed}" using Cons.prems(3) by (auto split: if_splits)
    then show ?thesis using grows_refl [OF Cons.prems(1)] by (intro conjI exI [of _ 0] exI [of _ "[]"]) auto
  next
    case False
    then obtain r g1 where h: "handle_line mj ge l g = Some (r, g1)" by auto
    obtain out2 g2 e2 where rest: "serve_lines mj ge stop (Suc i) ls ok g1 = (out2, g2, e2)" by (metis prod.exhaust)
    have res: "out = written_answer mj r @ out2" "g2 = g'" "e2 = e"
      using Cons.prems(3) False h rest by (auto simp: written_answer_def)
    have one: "grows_store g g1" "answers_line mj l r" using handle_line_spec [OF Cons.prems(1,2) h] by auto
    from Cons.IH [OF _ Cons.prems(2) rest [unfolded res]] one(1)
    obtain k rs where k: "grows_store g1 g'" "k \<le> length ls" "list_all2 (answers_line mj) (take k ls) rs"
      "out2 = concat (map (written_answer mj) rs)" "e \<in> {Input_ended, Line_too_long} \<longrightarrow> k = length ls" by (auto simp: grows_store_def)
    have "grows_store g g'" using one(1) k(1) by (rule grows_trans)
    then show ?thesis using k one res by (intro conjI exI [of _ "Suc k"] exI [of _ "r # rs"]) auto
  qed
qed

text \<open>Lines written with their ends are read back as they are.\<close>

lemma index_newline: "CHR 0x0A \<notin> set l \<Longrightarrow> go_index (l @ CHR 0x0A # s) [CHR 0x0A] = Some (length l)"
  by (induction l) auto

lemma scan_written:
  "\<forall>l \<in> set ls. CHR 0x0A \<notin> set l \<and> length l < m \<and> drop_cr l = l \<Longrightarrow>
     scan_lines m (concat (map (\<lambda>l. l @ [CHR 0x0A]) ls)) = (ls, True)"
proof (induction ls)
  case Nil
  then show ?case by (simp add: scan_lines.simps)
next
  case (Cons l ls)
  then show ?case by (subst scan_lines.simps) (simp add: index_newline)
qed



text \<open>A server whose codec knows three lines: a listing under the identifier 7, statistics under 8, and \<open>initialize\<close> without an
  identifier, which JSON-RPC calls a notification and the comment of \<open>handleRequest\<close> too, and which is answered all the same.\<close>

definition demo_codec :: mcp_codec where
  "demo_codec =
     \<lparr>mj_request = (\<lambda>l. if l = ''list'' then Some \<lparr>rq_id = ''7'', rq_method = ''tools/list'', rq_params = []\<rparr>
        else if l = ''stats'' then Some \<lparr>rq_id = ''8'', rq_method = ''tools/call'', rq_params = ''gist_stats''\<rparr>
        else if l = ''init'' then Some \<lparr>rq_id = [], rq_method = ''initialize'', rq_params = []\<rparr> else None),
      mj_call = (\<lambda>p. Some (p, [])), mj_index = (\<lambda>_. Inl ''none''), mj_search = (\<lambda>_. Inl ''none''), mj_value = (\<lambda>_. Some ''{}''),
      mj_response = (\<lambda>r. Some (rs_id r @ (case rs_body r of Inl _ \<Rightarrow> ''!'' | Inr _ \<Rightarrow> ''.''))),
      mj_index_error = (\<lambda>_. []), mj_search_error = (\<lambda>_. [])\<rparr>"

definition demo_gist_env :: "memory_store gist_env" where
  "demo_gist_env = \<lparr>ge_parsers = no_parsers, ge_lower = id, ge_distance = (\<lambda>a b. 0), ge_sort = id,
     ge_ops = memory_ops id (sort_key (\<lambda>m. - sm_score m))\<rparr>"

lemma initialize_notification_answered:
  "is_notification \<lparr>rq_id = [], rq_method = ''initialize'', rq_params = []\<rparr>
     \<and> map_option (\<lambda>(r, _). r \<noteq> None) (handle_request demo_codec demo_gist_env \<lparr>rq_id = [], rq_method = ''initialize'', rq_params = []\<rparr>
          (new_gist new_memory_store 0)) = Some True"
  by (simp add: is_notification_def handle_request_def)


end
