(* ===== verification/EnrollmentStore.thy ===== *)
theory EnrollmentStore
  imports OAuthConsent
begin

text \<open>
  The store of operator enrollment, \<open>hosted/internal/storage/enrollment.go\<close> over the tables of
  \<open>hosted/migrations\<close> (002, 010): login flows, workspaces, memberships, invitations and the row that records the
  founder. A table is a partial function from its primary key. \<open>en_between\<close> is what other transactions commit after the
  first statement of a transaction has read; a conflict that arises later makes a statement fail (\<open>en_fails\<close>) and the
  transaction is rolled back. Row-level security shows a transaction the rows of its workspace only, and every statement
  names its workspace.
\<close>

record login_flow =
  lf_expires :: int
  lf_consumed :: "int option"

record membership =
  mb_role :: string
  mb_scopes :: "string list"
  mb_active :: bool
  mb_generation :: nat

record invitation =
  iv_account :: string
  iv_role :: string
  iv_scopes :: "string list"
  iv_by :: string
  iv_expires :: int
  iv_consumed :: "int option"

text \<open>Memberships are keyed by workspace, issuer and subject; invitations by workspace and token hash.\<close>

record enroll_db =
  ed_flows :: "string \<rightharpoonup> login_flow"
  ed_workspaces :: "string \<rightharpoonup> string"
  ed_members :: "string \<times> string \<times> string \<rightharpoonup> membership"
  ed_invites :: "string \<times> string \<rightharpoonup> invitation"
  ed_founder :: "(string \<times> string \<times> string) option"

datatype enroll_error = Enroll_denied | Flow_replayed | Enroll_failed string

record enroll_env =
  en_now :: int
  en_fails :: bool
  en_pruned :: "string set option"
  en_between :: "enroll_db \<Rightarrow> enroll_db"

definition empty_enroll_db :: enroll_db where
  "empty_enroll_db = \<lparr>ed_flows = Map.empty, ed_workspaces = Map.empty, ed_members = Map.empty, ed_invites = Map.empty, ed_founder = None\<rparr>"

definition minute :: int where "minute = 60 * second"

subsection \<open>Login flows\<close>

text \<open>The deletion takes at most 500 of the expired rows, those the database picks (\<open>en_pruned\<close>, none if it fails), and
  is committed on its own.\<close>

definition prune_flows :: "int \<Rightarrow> string set \<Rightarrow> enroll_db \<Rightarrow> enroll_db" where
  "prune_flows now picked db = db\<lparr>ed_flows := (\<lambda>h. case ed_flows db h of
       None \<Rightarrow> None | Some f \<Rightarrow> if h \<in> picked \<and> lf_expires f < now then None else Some f)\<rparr>"

definition create_flow :: "enroll_env \<Rightarrow> string \<Rightarrow> int \<Rightarrow> enroll_db \<Rightarrow> enroll_error option \<times> enroll_db" where
  "create_flow e h expires db =
     (if length h \<noteq> 32 \<or> \<not> en_now e < expires \<or> en_now e + 10 * minute < expires
      then (Some (Enroll_failed ''storage: invalid enrollment flow''), db)
      else case en_pruned e of
        None \<Rightarrow> (Some (Enroll_failed ''prune expired GitHub login flows''), db)
      | Some picked \<Rightarrow>
          (let db1 = en_between e (prune_flows (en_now e) picked db) in
           if en_fails e \<or> h \<in> dom (ed_flows db1) then (Some (Enroll_failed ''create GitHub login flow''), db1)
           else (None, db1\<lparr>ed_flows := (ed_flows db1)(h \<mapsto> \<lparr>lf_expires = expires, lf_consumed = None\<rparr>)\<rparr>)))"

definition consume_flow :: "enroll_env \<Rightarrow> string \<Rightarrow> int \<Rightarrow> enroll_db \<Rightarrow> enroll_error option \<times> enroll_db" where
  "consume_flow e h now db =
     (if length h \<noteq> 32 then (Some Flow_replayed, db)
      else if en_fails e then (Some (Enroll_failed ''consume GitHub login flow''), db)
      else case ed_flows db h of
        None \<Rightarrow> (Some Flow_replayed, db)
      | Some f \<Rightarrow>
          if lf_consumed f \<noteq> None \<or> \<not> now < lf_expires f then (Some Flow_replayed, db)
          else (None, db\<lparr>ed_flows := (ed_flows db)(h \<mapsto> f\<lparr>lf_consumed := Some now\<rparr>)\<rparr>))"

subsection \<open>Memberships\<close>

definition add_member :: "string \<Rightarrow> string \<Rightarrow> string \<Rightarrow> string \<Rightarrow> string list \<Rightarrow> enroll_db \<Rightarrow> enroll_db" where
  "add_member ws iss sub role scopes db = db\<lparr>ed_members := (ed_members db)((ws, iss, sub) \<mapsto>
     \<lparr>mb_role = role, mb_scopes = scopes, mb_active = True, mb_generation = 1\<rparr>)\<rparr>"

text \<open>A unique violation of the membership's key, the invitation redeemed before it included, rolls back.\<close>

definition redeem_invitation :: "string \<Rightarrow> string \<Rightarrow> string \<Rightarrow> string \<Rightarrow> int \<Rightarrow> enroll_db \<Rightarrow> (enroll_error + enroll_db)" where
  "redeem_invitation ws iss sub h now db =
     (if length h \<noteq> 32 then Inl Enroll_denied
      else case ed_invites db (ws, h) of
        None \<Rightarrow> Inl Enroll_denied
      | Some i \<Rightarrow>
          if iv_account i \<noteq> sub \<or> iv_consumed i \<noteq> None \<or> \<not> now < iv_expires i then Inl Enroll_denied
          else if (ws, iss, sub) \<in> dom (ed_members db) then Inl (Enroll_failed ''create invited workspace membership'')
          else Inr (add_member ws iss sub (iv_role i) (iv_scopes i)
                 (db\<lparr>ed_invites := (ed_invites db)((ws, h) \<mapsto> i\<lparr>iv_consumed := Some now\<rparr>)\<rparr>)))"

text \<open>The founder's bootstrap: the singleton row, the workspace, the membership. The row's subject must be an account id.\<close>

definition bootstrap_founder :: "string \<Rightarrow> string \<Rightarrow> string \<Rightarrow> string \<Rightarrow> string list \<Rightarrow> enroll_db \<Rightarrow> (enroll_error + enroll_db)" where
  "bootstrap_founder ws iss sub name scopes db =
     (if ed_founder db \<noteq> None then Inl Enroll_denied
      else if ws \<in> dom (ed_workspaces db) then Inl Enroll_denied
      else if (ws, iss, sub) \<in> dom (ed_members db) then Inl (Enroll_failed ''create founder membership'')
      else Inr (add_member ws iss sub ''maintainer'' (normalize_scopes scopes)
             (db\<lparr>ed_founder := Some (ws, iss, sub), ed_workspaces := (ed_workspaces db)(ws \<mapsto> name)\<rparr>)))"

definition complete_login ::
  "enroll_env \<Rightarrow> string \<Rightarrow> string \<Rightarrow> string \<Rightarrow> string \<Rightarrow> string \<Rightarrow> string \<Rightarrow> string list \<Rightarrow> int \<Rightarrow> enroll_db \<Rightarrow> enroll_error option \<times> enroll_db" where
  "complete_login e iss ws sub h founder name scopes now db =
     (if ws = [] \<or> sub = [] \<or> founder = [] \<or> name = [] then (Some (Enroll_failed ''storage: incomplete enrollment''), db)
      else case ed_members db (ws, iss, sub) of
        Some m \<Rightarrow> if en_fails e then (Some (Enroll_failed ''load existing workspace membership''), db)
          else if mb_active m then (None, db) else (Some Enroll_denied, db)
      | None \<Rightarrow>
          (let db1 = en_between e db in
           if en_fails e then (Some (Enroll_failed ''storage: transaction''), db1)
           else case (if h \<noteq> [] then redeem_invitation ws iss sub h now db1
               else if sub \<noteq> founder then Inl Enroll_denied
               else bootstrap_founder ws iss sub name scopes db1) of
             Inl x \<Rightarrow> (Some x, db1)
           | Inr db2 \<Rightarrow> (None, db2)))"

subsection \<open>Invitations\<close>

fun scope_subset_loop :: "string list \<Rightarrow> string list \<Rightarrow> string list \<Rightarrow> bool" where
  "scope_subset_loop allowed seen [] = True"
| "scope_subset_loop allowed seen (s # ss) =
     (if s = [] \<or> s \<in> set seen \<or> s \<notin> set allowed then False else scope_subset_loop allowed (s # seen) ss)"

definition scope_subset :: "string list \<Rightarrow> string list \<Rightarrow> bool" where
  "scope_subset requested allowed = scope_subset_loop allowed [] requested"

definition create_invitation ::
  "enroll_env \<Rightarrow> string \<Rightarrow> string \<Rightarrow> string \<Rightarrow> string \<Rightarrow> string \<Rightarrow> string list \<Rightarrow> string \<Rightarrow> int \<Rightarrow> enroll_db \<Rightarrow> enroll_error option \<times> enroll_db" where
  "create_invitation e iss ws actor account role scopes0 h expires db =
     (if ws = [] \<or> actor = [] \<or> account = [] \<or> role \<notin> {''reader'', ''maintainer''} \<or> length h \<noteq> 32 \<or> scopes0 = []
         \<or> \<not> en_now e < expires \<or> en_now e + 7 * 24 * 60 * minute < expires
      then (Some (Enroll_failed ''storage: invalid workspace invitation''), db)
      else let scopes = normalize_scopes scopes0 in
        case ed_members db (ws, iss, actor) of
          None \<Rightarrow> (Some (if en_fails e then Enroll_failed ''load invitation operator'' else Enroll_denied), db)
        | Some m \<Rightarrow>
            if en_fails e then (Some (Enroll_failed ''storage: transaction''), db)
            else if \<not> mb_active m \<or> mb_role m \<noteq> ''maintainer'' \<or> \<not> scope_subset scopes (mb_scopes m) then (Some Enroll_denied, db)
            else if (ws, iss, account) \<in> dom (ed_members db) then (Some Enroll_denied, db)
            else if (ws, h) \<in> dom (ed_invites db) then (Some (Enroll_failed ''create workspace invitation''), db)
            else (None, db\<lparr>ed_invites := (ed_invites db)((ws, h) \<mapsto>
                \<lparr>iv_account = account, iv_role = role, iv_scopes = scopes, iv_by = actor, iv_expires = expires, iv_consumed = None\<rparr>)\<rparr>))"

end
