(* ===== verification/Enrollment.thy ===== *)
theory Enrollment
  imports EnrollmentStore
begin

text \<open>
  \<open>hosted/internal/enrollment/enrollment.go\<close>: sign-in with a GitHub account (start and callback), and invitations. A
  request is what \<open>net/http\<close> parsed of it, an answer its page with the cookies it sets. AES-GCM, HMAC, SHA-256, JSON,
  \<open>url.Parse\<close> and the two calls to GitHub are the parameter \<open>enroll_web\<close>; so is the moment each call reads from the clock.
\<close>

subsection \<open>Configuration\<close>

record enroll_config =
  ec_client_id :: string
  ec_client_secret :: string
  ec_callback :: string
  ec_origin :: string
  ec_workspace :: string
  ec_workspace_name :: string
  ec_founder :: string
  ec_bootstrap :: "string list"
  ec_allowed :: "string list"
  ec_flow_key :: string
  ec_csrf_key :: string
  ec_flow_ttl :: int
  ec_session_ttl :: int
  ec_invitation_ttl :: int

definition callback_path :: string where "callback_path = ''/auth/github/callback''"

definition max_request_bytes :: nat where "max_request_bytes = 8192"

text \<open>\<open>strconv.ParseInt\<close> in base 10 with 64 bits.\<close>

definition parse_int64 :: "string \<Rightarrow> int option" where
  "parse_int64 s = (case go_atoi s of None \<Rightarrow> None | Some n \<Rightarrow> if - (2 ^ 63) \<le> n \<and> n < 2 ^ 63 then Some n else None)"

definition canonical_id :: "string \<Rightarrow> bool" where
  "canonical_id v \<longleftrightarrow> v \<noteq> [] \<and> length v \<le> 19 \<and> hd v \<noteq> CHR ''0''
     \<and> (case parse_int64 v of None \<Rightarrow> False | Some n \<Rightarrow> n > 0 \<and> go_itoa (nat n) = v)"

definition canonical_token :: "string \<Rightarrow> bool" where
  "canonical_token v \<longleftrightarrow> v \<noteq> [] \<and> length v \<le> 128 \<and> (case b64_decode v of None \<Rightarrow> False | Some b \<Rightarrow> b64_encode b = v)"

fun subset_loop :: "string list \<Rightarrow> string list \<Rightarrow> string list \<Rightarrow> bool" where
  "subset_loop allowed seen [] = True"
| "subset_loop allowed seen (v # vs) =
     (if v = [] \<or> v \<in> set seen \<or> v \<notin> set allowed then False else subset_loop allowed (v # seen) vs)"

definition enroll_subset :: "string list \<Rightarrow> string list \<Rightarrow> bool" where
  "enroll_subset items allowed = subset_loop allowed [] items"

definition callback_ok :: "go_url option \<Rightarrow> bool" where
  "callback_ok cb \<longleftrightarrow> (case cb of None \<Rightarrow> False | Some u \<Rightarrow> u_scheme u = ''https'' \<and> u_host u \<noteq> [] \<and> \<not> u_has_user u
     \<and> u_fragment u = [] \<and> u_raw_query u = [] \<and> u_path u = callback_path)"

definition validate_config :: "url_parser \<Rightarrow> enroll_config \<Rightarrow> string option" where
  "validate_config parse c =
     (if ec_client_id c = [] \<or> ec_client_secret c = [] then Some ''enrollment: GitHub App client credentials are required''
      else if \<not> callback_ok (parse (ec_callback c)) then Some ''enrollment: callback URL must be a fixed HTTPS callback''
      else if (case parse (ec_origin c) of None \<Rightarrow> True | Some o' \<Rightarrow> u_scheme o' \<noteq> ''https'' \<or> u_host o' = [] \<or> u_has_user o'
          \<or> u_path o' \<noteq> [] \<or> u_raw_query o' \<noteq> [] \<or> u_fragment o' \<noteq> [] \<or> u_host (the (parse (ec_callback c))) \<noteq> u_host o')
      then Some ''enrollment: public origin must be an HTTPS origin''
      else if ec_workspace c = [] \<or> ec_workspace_name c = [] \<or> \<not> canonical_id (ec_founder c) \<or> length (ec_flow_key c) \<noteq> 32
          \<or> length (ec_csrf_key c) < 32
      then Some ''enrollment: workspace, founder account, and strong flow/CSRF keys are required''
      else None)"

definition default_scopes :: "string list" where
  "default_scopes = [''catalog:read'', ''catalog:publish'', ''catalog:resolve'']"

text \<open>\<open>New\<close>; \<open>wired\<close> says that the store and both session services are given.\<close>

definition new_enrollment :: "url_parser \<Rightarrow> bool \<Rightarrow> enroll_config \<Rightarrow> string + enroll_config" where
  "new_enrollment parse wired c0 =
     (case validate_config parse c0 of
        Some m \<Rightarrow> Inl m
      | None \<Rightarrow>
          if \<not> wired then Inl ''enrollment: store and session services are required''
          else (let c = c0\<lparr>
              ec_flow_ttl := if ec_flow_ttl c0 \<le> 0 \<or> 10 * minute < ec_flow_ttl c0 then 5 * minute else ec_flow_ttl c0,
              ec_session_ttl := if ec_session_ttl c0 \<le> 0 \<or> 24 * 60 * minute < ec_session_ttl c0 then 8 * 60 * minute else ec_session_ttl c0,
              ec_invitation_ttl := if ec_invitation_ttl c0 \<le> 0 \<or> 7 * 24 * 60 * minute < ec_invitation_ttl c0 then 24 * 60 * minute
                else ec_invitation_ttl c0,
              ec_bootstrap := if ec_bootstrap c0 = [] then default_scopes else ec_bootstrap c0,
              ec_allowed := if ec_allowed c0 = [] then default_scopes else ec_allowed c0\<rparr> in
            if enroll_subset (ec_bootstrap c) (ec_allowed c) then Inr c
            else Inl ''enrollment: bootstrap scopes exceed allowed workspace scopes''))"

subsection \<open>The outside\<close>

record flow_claims =
  fw_state :: string
  fw_verifier :: string
  fw_invitation :: string
  fw_return :: string
  fw_expires :: int

record http_answer =
  ha_status :: nat
  ha_body :: string

text \<open>\<open>ew_open key nonce text aad\<close> is the plaintext, if the text is genuine; the nonce is 12 bytes. \<open>ew_token\<close> and \<open>ew_user\<close>
  decode the first JSON value of a body as the token response and the account number, if nothing follows it.\<close>

record enroll_web =
  ew_seal :: "string \<Rightarrow> string \<Rightarrow> string \<Rightarrow> string \<Rightarrow> string"
  ew_open :: "string \<Rightarrow> string \<Rightarrow> string \<Rightarrow> string \<Rightarrow> string option"
  ew_marshal :: "flow_claims \<Rightarrow> string"
  ew_unmarshal :: "string \<Rightarrow> flow_claims option"
  ew_sha :: "string \<Rightarrow> string"
  ew_mac :: "string \<Rightarrow> string \<Rightarrow> string"
  ew_parse :: url_parser
  ew_query_ok :: "string \<Rightarrow> bool"
  ew_raw_parts :: "string \<Rightarrow> bool"
  ew_equal_fold :: "string \<Rightarrow> string \<Rightarrow> bool"
  ew_exchange :: "(string \<times> string) list \<Rightarrow> http_answer option"
  ew_account :: "string \<Rightarrow> http_answer option"
  ew_token :: "string \<Rightarrow> (string \<times> string) option"
  ew_user :: "string \<Rightarrow> string option"

datatype enroll_page =
  Plain_error nat string
| Found_redirect string
| See_other string
| To_github "(string \<times> string) list"
| Signed_in string
| Invited string int

datatype flow_cookie = Flow_untouched | Flow_cleared | Flow_set string int

record enroll_answer =
  ea_page :: enroll_page
  ea_flow :: flow_cookie
  ea_session :: "(string \<times> int) option"

definition plain_answer :: "nat \<Rightarrow> string \<Rightarrow> enroll_answer" where
  "plain_answer st m = \<lparr>ea_page = Plain_error st m, ea_flow = Flow_untouched, ea_session = None\<rparr>"

subsection \<open>The flow cookie\<close>

definition flow_cookie_name :: string where "flow_cookie_name = ''__Host-gist-enroll-flow''"

definition website_return_target :: "string \<Rightarrow> bool" where
  "website_return_target raw \<longleftrightarrow> raw = ''/library'' \<or> raw = ''/workspace'' \<or> raw = ''/workspace/servers''"

text \<open>\<open>ew_raw_parts\<close> says that the parsed URL has no opaque part, no raw fragment and no raw path, the remaining fields of
  \<open>url.URL\<close> the check looks at.\<close>

definition validate_return_to :: "enroll_config \<Rightarrow> enroll_web \<Rightarrow> string \<Rightarrow> string option" where
  "validate_return_to c w raw =
     (if website_return_target raw then Some raw
      else if raw = [] \<or> length raw > max_request_bytes \<or> go_contains raw ''#'' then None
      else case ew_parse w raw of
        None \<Rightarrow> None
      | Some t \<Rightarrow>
          (case ew_parse w (ec_origin c) of
             None \<Rightarrow> None
           | Some o' \<Rightarrow>
               if u_scheme t \<noteq> u_scheme o' \<or> \<not> ew_equal_fold w (u_host t) (u_host o') \<or> u_has_user t \<or> u_fragment t \<noteq> []
                  \<or> u_path t \<noteq> ''/oauth/authorize'' \<or> u_escaped_path t \<noteq> ''/oauth/authorize'' \<or> \<not> ew_raw_parts w raw then None
               else if \<not> ew_query_ok w (u_raw_query t) then None
               else Some raw))"

definition read_return_to :: "enroll_config \<Rightarrow> enroll_web \<Rightarrow> form_values \<Rightarrow> string option" where
  "read_return_to c w vs = (case map_of vs ''return_to'' of
       None \<Rightarrow> Some []
     | Some [raw] \<Rightarrow> validate_return_to c w raw
     | Some _ \<Rightarrow> None)"

definition seal_flow :: "enroll_config \<Rightarrow> enroll_web \<Rightarrow> string \<Rightarrow> string \<Rightarrow> string \<Rightarrow> string \<Rightarrow> string \<Rightarrow> int \<Rightarrow> string" where
  "seal_flow c w nonce state verifier invite ret expires =
     b64_encode (nonce @ ew_seal w (ec_flow_key c) nonce
       (ew_marshal w \<lparr>fw_state = state, fw_verifier = verifier, fw_invitation = invite, fw_return = ret, fw_expires = unix_seconds expires\<rparr>)
       flow_cookie_name)"

definition open_flow :: "enroll_config \<Rightarrow> enroll_web \<Rightarrow> string \<Rightarrow> flow_claims option" where
  "open_flow c w value =
     (case b64_decode value of
        None \<Rightarrow> None
      | Some sealed \<Rightarrow>
          if length sealed < 12 then None
          else case ew_open w (ec_flow_key c) (take 12 sealed) (drop 12 sealed) flow_cookie_name of
            None \<Rightarrow> None
          | Some raw \<Rightarrow>
              (case ew_unmarshal w raw of
                 None \<Rightarrow> None
               | Some f \<Rightarrow>
                   if \<not> canonical_token (fw_state f) \<or> \<not> canonical_token (fw_verifier f)
                      \<or> (fw_invitation f \<noteq> [] \<and> \<not> canonical_token (fw_invitation f)) then None
                   else if fw_return f = [] then Some f
                   else if validate_return_to c w (fw_return f) = None then None
                   else Some f))"

subsection \<open>Starting a login\<close>

text \<open>\<open>sq_media\<close> is the media type of the body; \<open>sq_form\<close> the parsed body, none if it is malformed or too large.\<close>

record start_request =
  sq_method :: string
  sq_query :: form_values
  sq_origin :: string
  sq_media :: "string option"
  sq_form :: "form_values option"

text \<open>The invitation and the return target of the request, or the refusal.\<close>

definition start_inputs :: "enroll_config \<Rightarrow> enroll_web \<Rightarrow> start_request \<Rightarrow> (nat \<times> string) + string \<times> string" where
  "start_inputs c w r =
     (if sq_method r = ''GET'' then
        (if form_has (sq_query r) ''invite'' then Inl (400, ''invitation must be submitted in a same-origin form'')
         else case read_return_to c w (sq_query r) of
           None \<Rightarrow> Inl (400, ''invalid sign-in return target'')
         | Some ret \<Rightarrow> Inr ([], ret))
      else if sq_method r = ''POST'' then
        (if form_has (sq_query r) ''invite'' \<or> form_has (sq_query r) ''return_to''
         then Inl (400, ''invitation and return target must be submitted in the request body'')
         else if sq_origin r \<noteq> ec_origin c then Inl (403, ''request denied'')
         else if sq_media r \<noteq> Some ''application/x-www-form-urlencoded'' then Inl (415, ''unsupported media type'')
         else case sq_form r of
           None \<Rightarrow> Inl (400, ''invalid invitation'')
         | Some f \<Rightarrow>
             (case map_of f ''invite'' of
                Some [invite] \<Rightarrow>
                  (case read_return_to c w f of
                     None \<Rightarrow> Inl (400, ''invalid sign-in return target'')
                   | Some ret \<Rightarrow> Inr (invite, ret))
              | _ \<Rightarrow> Inl (400, ''invalid invitation'')))
      else Inl (405, ''method not allowed''))"

text \<open>The random bytes drawn for the state, the verifier and the nonce; none if the source fails.\<close>

record start_env =
  sv_state :: "string option"
  sv_verifier :: "string option"
  sv_nonce :: "string option"
  sv_now :: int
  sv_store :: enroll_env

definition start_login :: "enroll_config \<Rightarrow> enroll_web \<Rightarrow> start_env \<Rightarrow> start_request \<Rightarrow> enroll_db \<Rightarrow> enroll_answer \<times> enroll_db" where
  "start_login c w e r db =
     (case start_inputs c w r of
        Inl (st, m) \<Rightarrow> (plain_answer st m, db)
      | Inr (invite, ret) \<Rightarrow>
          if invite \<noteq> [] \<and> map_option length (b64_decode invite) \<noteq> Some 32 then (plain_answer 400 ''invalid invitation'', db)
          else case (sv_state e, sv_verifier e, sv_nonce e) of
            (Some sb, Some vb, Some nonce) \<Rightarrow>
              (let state = b64_encode sb; verifier = b64_encode vb; expires = sv_now e + ec_flow_ttl c;
                   cookie = seal_flow c w nonce state verifier invite ret expires in
               case create_flow (sv_store e) (ew_sha w state) expires db of
                 (Some x, db') \<Rightarrow> (plain_answer 500 ''login unavailable'', db')
               | (None, db') \<Rightarrow>
                   (\<lparr>ea_page = To_github [(''client_id'', ec_client_id c), (''redirect_uri'', ec_callback c), (''state'', state),
                        (''code_challenge'', b64_encode (ew_sha w verifier)), (''code_challenge_method'', ''S256'')],
                     ea_flow = Flow_set cookie expires, ea_session = None\<rparr>, db'))
          | _ \<Rightarrow> (plain_answer 500 ''login unavailable'', db))"

subsection \<open>GitHub\<close>

definition decode_limited :: "nat \<Rightarrow> (string \<Rightarrow> 'a option) \<Rightarrow> string \<Rightarrow> 'a option" where
  "decode_limited limit dec body = (if length body > limit then None else dec body)"

definition github_account :: "enroll_config \<Rightarrow> enroll_web \<Rightarrow> string \<Rightarrow> string \<Rightarrow> string option" where
  "github_account c w code verifier =
     (case ew_exchange w [(''client_id'', ec_client_id c), (''client_secret'', ec_client_secret c), (''code'', code),
          (''redirect_uri'', ec_callback c), (''code_verifier'', verifier)] of
        None \<Rightarrow> None
      | Some a \<Rightarrow>
          if ha_status a \<noteq> 200 then None
          else case decode_limited (16 * 1024) (ew_token w) (ha_body a) of
            None \<Rightarrow> None
          | Some (token, err) \<Rightarrow>
              if token = [] \<or> err \<noteq> [] then None
              else case ew_account w token of
                None \<Rightarrow> None
              | Some u \<Rightarrow>
                  if ha_status u \<noteq> 200 then None
                  else case decode_limited (16 * 1024) (ew_user w) (ha_body u) of
                    None \<Rightarrow> None
                  | Some num \<Rightarrow>
                      (case parse_int64 num of
                         None \<Rightarrow> None
                       | Some n \<Rightarrow> if n \<le> 0 then None else Some (go_itoa (nat n))))"

subsection \<open>The callback\<close>

record callback_request =
  cq_method :: string
  cq_cookie :: "string option"
  cq_query :: form_values

text \<open>\<open>cb_others\<close> is what other requests do between the two store calls; the issuer of sessions takes subject, workspaces and
  lifetime.\<close>

record callback_env =
  cb_now :: int
  cb_now_consume :: int
  cb_now_login :: int
  cb_consume :: enroll_env
  cb_login :: enroll_env
  cb_others :: "enroll_db \<Rightarrow> enroll_db"
  cb_issue :: "string \<Rightarrow> string list \<Rightarrow> int \<Rightarrow> (string \<times> int) option"

definition login_failure :: "string \<Rightarrow> nat \<Rightarrow> string \<Rightarrow> string \<Rightarrow> enroll_page" where
  "login_failure ret st m code = (if website_return_target ret then See_other (''/signin?error='' @ code) else Plain_error st m)"

definition csrf_of :: "enroll_config \<Rightarrow> enroll_web \<Rightarrow> string \<Rightarrow> string" where
  "csrf_of c w subject = b64_encode (ew_mac w (ec_csrf_key c)
     (''gist-enrollment-csrf'' @ [CHR 0x00] @ subject @ [CHR 0x00] @ ec_workspace c))"

definition single :: "form_values \<Rightarrow> string \<Rightarrow> bool" where
  "single q k \<longleftrightarrow> (case map_of q k of Some vs \<Rightarrow> length vs = 1 | None \<Rightarrow> False)"

definition cleared :: "enroll_page \<Rightarrow> (string \<times> int) option \<Rightarrow> enroll_answer" where
  "cleared p s = \<lparr>ea_page = p, ea_flow = Flow_cleared, ea_session = s\<rparr>"

text \<open>After the flow is consumed: the account, the membership, the session.\<close>

definition finish_login ::
  "enroll_config \<Rightarrow> enroll_web \<Rightarrow> string \<Rightarrow> callback_env \<Rightarrow> flow_claims \<Rightarrow> string \<Rightarrow> enroll_db \<Rightarrow> enroll_answer \<times> enroll_db" where
  "finish_login c w iss e f code db =
     (case github_account c w code (fw_verifier f) of
        None \<Rightarrow> (cleared (login_failure (fw_return f) 401 ''login denied'' ''github_failed'') None, db)
      | Some account \<Rightarrow>
          (case complete_login (cb_login e) iss (ec_workspace c) account (if fw_invitation f \<noteq> [] then ew_sha w (fw_invitation f) else [])
               (ec_founder c) (ec_workspace_name c) (ec_bootstrap c) (cb_now_login e) (cb_others e db) of
             (Some Enroll_denied, db') \<Rightarrow> (cleared (login_failure (fw_return f) 403 ''workspace access denied'' ''access_denied'') None, db')
           | (Some _, db') \<Rightarrow> (cleared (login_failure (fw_return f) 500 ''login unavailable'' ''service_unavailable'') None, db')
           | (None, db') \<Rightarrow>
               (case cb_issue e account [ec_workspace c] (ec_session_ttl c) of
                  None \<Rightarrow> (cleared (login_failure (fw_return f) 500 ''login unavailable'' ''service_unavailable'') None, db')
                | Some s \<Rightarrow>
                    (cleared (if fw_return f \<noteq> [] then Found_redirect (fw_return f) else Signed_in (csrf_of c w account)) (Some s), db'))))"

definition callback_login ::
  "enroll_config \<Rightarrow> enroll_web \<Rightarrow> string \<Rightarrow> callback_env \<Rightarrow> callback_request \<Rightarrow> enroll_db \<Rightarrow> enroll_answer \<times> enroll_db" where
  "callback_login c w iss e r db =
     (let q = cq_query r; denied = (cleared (Plain_error 400 ''login denied'') None, db) in
      if cq_method r \<noteq> ''GET'' then (plain_answer 405 ''method not allowed'', db)
      else case cq_cookie r of
        None \<Rightarrow> denied
      | Some cookie \<Rightarrow>
          if \<not> single q ''state'' \<or> \<not> single q ''code'' \<or> form_get q ''code'' = [] \<or> length (form_get q ''code'') > 4096
             \<or> form_get q ''error'' \<noteq> [] then denied
          else case open_flow c w cookie of
            None \<Rightarrow> denied
          | Some f \<Rightarrow>
              if fw_state f \<noteq> form_get q ''state'' \<or> \<not> cb_now e < fw_expires f * second then denied
              else case consume_flow (cb_consume e) (ew_sha w (fw_state f)) (cb_now_consume e) db of
                (Some Flow_replayed, db') \<Rightarrow> (cleared (Plain_error 400 ''login denied'') None, db')
              | (Some _, db') \<Rightarrow> (cleared (login_failure (fw_return f) 500 ''login unavailable'' ''service_unavailable'') None, db')
              | (None, db') \<Rightarrow> finish_login c w iss e f (form_get q ''code'') db')"

subsection \<open>Invitations\<close>

record invite_body =
  ib_account :: string
  ib_role :: string
  ib_scopes :: "string list"

text \<open>The session is the authenticator's answer; the body is decoded without unknown fields and trailing data.\<close>

record invite_request =
  nq_method :: string
  nq_origin :: string
  nq_session :: "login_session option"
  nq_csrf :: string
  nq_body :: "invite_body option"

record invite_env =
  nv_token :: "string option"
  nv_now :: int
  nv_store :: enroll_env

definition invite_body_ok :: "enroll_config \<Rightarrow> invite_body \<Rightarrow> bool" where
  "invite_body_ok c b \<longleftrightarrow> canonical_id (ib_account b) \<and> ib_role b \<in> {''reader'', ''maintainer''} \<and> ib_scopes b \<noteq> []
     \<and> enroll_subset (ib_scopes b) (ec_allowed c)"

definition create_invite ::
  "enroll_config \<Rightarrow> enroll_web \<Rightarrow> string \<Rightarrow> invite_env \<Rightarrow> invite_request \<Rightarrow> enroll_db \<Rightarrow> enroll_answer \<times> enroll_db" where
  "create_invite c w iss e r db =
     (if nq_method r \<noteq> ''POST'' then (plain_answer 405 ''method not allowed'', db)
      else if nq_origin r \<noteq> ec_origin c then (plain_answer 403 ''request denied'', db)
      else case nq_session r of
        None \<Rightarrow> (plain_answer 401 ''authentication required'', db)
      | Some s \<Rightarrow>
          if ls_id s = [] \<or> ls_subject s = [] \<or> \<not> contains_str (ls_workspaces s) (ec_workspace c)
          then (plain_answer 401 ''authentication required'', db)
          else if nq_csrf r \<noteq> csrf_of c w (ls_subject s) then (plain_answer 403 ''request denied'', db)
          else case nq_body r of
            None \<Rightarrow> (plain_answer 400 ''invalid invitation'', db)
          | Some b \<Rightarrow>
              if \<not> invite_body_ok c b then (plain_answer 400 ''invalid invitation'', db)
              else case nv_token e of
                None \<Rightarrow> (plain_answer 500 ''invitation unavailable'', db)
              | Some tb \<Rightarrow>
                  (let raw = b64_encode tb; expires = nv_now e + ec_invitation_ttl c in
                   case create_invitation (nv_store e) iss (ec_workspace c) (ls_subject s) (ib_account b) (ib_role b) (ib_scopes b)
                       (ew_sha w raw) expires db of
                     (None, db') \<Rightarrow> (\<lparr>ea_page = Invited raw expires, ea_flow = Flow_untouched, ea_session = None\<rparr>, db')
                   | (Some Enroll_denied, db') \<Rightarrow> (plain_answer 403 ''request denied'', db')
                   | (Some _, db') \<Rightarrow> (plain_answer 500 ''invitation unavailable'', db')))"

end
