(* ===== verification/EnrollmentProperties.thy ===== *)
theory EnrollmentProperties
  imports Enrollment
begin

text \<open>
  What operator enrollment guarantees: who becomes a member of the workspace and with which scopes, what a sign-in rests
  on, that a login flow is used once, and that an honest sign-in succeeds.
\<close>

subsection \<open>Runs of the store\<close>

text \<open>The committed transitions of the store for one deployment; \<open>fresh\<close> holds the hashes of states that may still be drawn.\<close>

inductive enroll_step :: "string set \<Rightarrow> string \<Rightarrow> string \<Rightarrow> string \<Rightarrow> string list \<Rightarrow> enroll_db \<Rightarrow> enroll_db \<Rightarrow> bool"
  for fresh iss ws founder boot where
  pruned: "enroll_step fresh iss ws founder boot db (prune_flows now picked db)"
| opened: "h \<in> fresh \<Longrightarrow> h \<notin> dom (ed_flows db)
    \<Longrightarrow> enroll_step fresh iss ws founder boot db (db\<lparr>ed_flows := (ed_flows db)(h \<mapsto> \<lparr>lf_expires = x, lf_consumed = None\<rparr>)\<rparr>)"
| consumed: "consume_flow e h now db = (None, db') \<Longrightarrow> enroll_step fresh iss ws founder boot db db'"
| redeemed: "redeem_invitation ws iss sub h now db = Inr db' \<Longrightarrow> enroll_step fresh iss ws founder boot db db'"
| founded: "bootstrap_founder ws iss founder name boot db = Inr db' \<Longrightarrow> enroll_step fresh iss ws founder boot db db'"
| invited: "create_invitation e iss ws actor account role scopes h x db = (None, db') \<Longrightarrow> enroll_step fresh iss ws founder boot db db'"

definition quiet_between :: "string set \<Rightarrow> string \<Rightarrow> string \<Rightarrow> string \<Rightarrow> string list \<Rightarrow> enroll_env \<Rightarrow> bool" where
  "quiet_between fresh iss ws founder boot e \<longleftrightarrow> (\<forall>db. (enroll_step fresh iss ws founder boot)\<^sup>*\<^sup>* db (en_between e db))"

lemma create_flow_run:
  assumes "quiet_between fresh iss ws founder boot e" "h \<in> fresh" "create_flow e h x db = (r, db')"
  shows "(enroll_step fresh iss ws founder boot)\<^sup>*\<^sup>* db db'"
proof (cases "length h \<noteq> 32 \<or> \<not> en_now e < x \<or> en_now e + 10 * minute < x \<or> en_pruned e = None")
  case True
  then show ?thesis using assms(3) by (auto simp: create_flow_def split: option.splits if_splits)
next
  case False
  then obtain picked where p: "en_pruned e = Some picked" by auto
  let ?db1 = "en_between e (prune_flows (en_now e) picked db)"
  have run: "(enroll_step fresh iss ws founder boot)\<^sup>*\<^sup>* db ?db1"
    using pruned assms(1) unfolding quiet_between_def by (meson converse_rtranclp_into_rtranclp)
  show ?thesis
  proof (cases "en_fails e \<or> h \<in> dom (ed_flows ?db1)")
    case True
    then show ?thesis using assms(3) run False p by (auto simp: create_flow_def Let_def)
  next
    case ok: False
    then have "db' = ?db1\<lparr>ed_flows := (ed_flows ?db1)(h \<mapsto> \<lparr>lf_expires = x, lf_consumed = None\<rparr>)\<rparr>"
      using assms(3) False p by (simp add: create_flow_def Let_def)
    moreover have "enroll_step fresh iss ws founder boot ?db1 (?db1\<lparr>ed_flows := (ed_flows ?db1)(h \<mapsto> \<lparr>lf_expires = x, lf_consumed = None\<rparr>)\<rparr>)"
      using opened [OF assms(2)] ok by blast
    ultimately show ?thesis using run by (simp add: rtranclp.rtrancl_into_rtrancl)
  qed
qed

lemma consume_flow_run: "consume_flow e h now db = (r, db') \<Longrightarrow> (enroll_step fresh iss ws founder boot)\<^sup>*\<^sup>* db db'"
  using consumed [of e h now db db']
  by (cases r) (auto simp: consume_flow_def split: if_splits option.splits)

lemma complete_login_run:
  assumes "quiet_between fresh iss ws founder boot e" "complete_login e iss ws sub h founder name boot now db = (r, db')"
  shows "(enroll_step fresh iss ws founder boot)\<^sup>*\<^sup>* db db'"
proof (cases "ws = [] \<or> sub = [] \<or> founder = [] \<or> name = [] \<or> ed_members db (ws, iss, sub) \<noteq> None")
  case True
  then show ?thesis using assms(2) by (auto simp: complete_login_def split: if_splits)
next
  case False
  let ?db1 = "en_between e db"
  define second where "second = (if h \<noteq> [] then redeem_invitation ws iss sub h now ?db1
      else if sub \<noteq> founder then Inl Enroll_denied else bootstrap_founder ws iss sub name boot ?db1)"
  have run: "(enroll_step fresh iss ws founder boot)\<^sup>*\<^sup>* db ?db1" using assms(1) by (simp add: quiet_between_def)
  have eq: "(r, db') = (if en_fails e then (Some (Enroll_failed ''storage: transaction''), ?db1)
      else case second of Inl x \<Rightarrow> (Some x, ?db1) | Inr db2 \<Rightarrow> (None, db2))"
    using assms(2) False unfolding second_def by (simp add: complete_login_def Let_def)
  show ?thesis
  proof (cases second)
    case (Inl x)
    then show ?thesis using eq run by (auto split: if_splits)
  next
    case (Inr db2)
    then have "enroll_step fresh iss ws founder boot ?db1 db2" unfolding second_def by (auto split: if_splits intro: redeemed founded)
    with run have "(enroll_step fresh iss ws founder boot)\<^sup>*\<^sup>* db db2" by (rule rtranclp.rtrancl_into_rtrancl)
    then show ?thesis using eq run Inr by (auto split: if_splits)
  qed
qed

lemma create_invitation_run:
  "create_invitation e iss ws actor account role scopes h x db = (r, db') \<Longrightarrow> (enroll_step fresh iss ws founder boot)\<^sup>*\<^sup>* db db'"
  using invited [of e iss ws actor account role scopes h x db db']
  by (cases r) (auto simp: create_invitation_def Let_def split: if_splits option.splits)

subsection \<open>Delegation\<close>

lemma scope_subset_loop_sound: "scope_subset_loop allowed seen ss \<Longrightarrow> set ss \<subseteq> set allowed \<and> [] \<notin> set ss"
  by (induction allowed seen ss rule: scope_subset_loop.induct) (auto split: if_splits)

lemma scope_subset_sound: "scope_subset req allowed \<Longrightarrow> set req \<subseteq> set allowed"
  using scope_subset_loop_sound by (auto simp: scope_subset_def)

text \<open>A member is the founder, or holds exactly what an invitation says that a maintainer issued for that account and that
  is consumed.\<close>

definition admitted_by :: "string \<Rightarrow> string \<Rightarrow> enroll_db \<Rightarrow> string \<Rightarrow> membership \<Rightarrow> bool" where
  "admitted_by iss ws db sub m \<longleftrightarrow> (\<exists>h i b. ed_invites db (ws, h) = Some i \<and> iv_account i = sub \<and> iv_consumed i \<noteq> None
     \<and> iv_role i = mb_role m \<and> iv_scopes i = mb_scopes m \<and> ed_members db (ws, iss, iv_by i) = Some b \<and> mb_role b = ''maintainer''
     \<and> set (mb_scopes m) \<subseteq> set (mb_scopes b))"

definition enroll_ok :: "string \<Rightarrow> string \<Rightarrow> string \<Rightarrow> string list \<Rightarrow> enroll_db \<Rightarrow> bool" where
  "enroll_ok iss ws founder boot db \<longleftrightarrow>
     (\<forall>k m. ed_members db k = Some m \<longrightarrow> (\<exists>sub. k = (ws, iss, sub) \<and> ed_founder db = Some (ws, iss, founder)
        \<and> mb_role m \<in> {''reader'', ''maintainer''} \<and> set (mb_scopes m) \<subseteq> set boot
        \<and> (sub = founder \<or> admitted_by iss ws db sub m)))
   \<and> (\<forall>w h i. ed_invites db (w, h) = Some i \<longrightarrow> w = ws \<and> iv_role i \<in> {''reader'', ''maintainer''} \<and> set (iv_scopes i) \<subseteq> set boot
        \<and> (\<exists>b. ed_members db (ws, iss, iv_by i) = Some b \<and> mb_role b = ''maintainer'' \<and> set (iv_scopes i) \<subseteq> set (mb_scopes b)))"

lemma enroll_ok_empty: "enroll_ok iss ws founder boot empty_enroll_db"
  by (simp add: enroll_ok_def empty_enroll_db_def)

text \<open>Steps only add members and keep invitations but for their consumption.\<close>

definition enroll_grows :: "enroll_db \<Rightarrow> enroll_db \<Rightarrow> bool" where
  "enroll_grows db db' \<longleftrightarrow> ed_members db \<subseteq>\<^sub>m ed_members db'
     \<and> (\<forall>k i. ed_invites db k = Some i \<longrightarrow> (\<exists>j. ed_invites db' k = Some j \<and> iv_account j = iv_account i \<and> iv_role j = iv_role i
          \<and> iv_scopes j = iv_scopes i \<and> iv_by j = iv_by i \<and> (iv_consumed i \<noteq> None \<longrightarrow> iv_consumed j = iv_consumed i)))"

lemma enroll_grows_same: "ed_members db' = ed_members db \<Longrightarrow> ed_invites db' = ed_invites db \<Longrightarrow> enroll_grows db db'"
  by (simp add: enroll_grows_def)

lemma enroll_grows_member: "enroll_grows db db' \<Longrightarrow> ed_members db k = Some m \<Longrightarrow> ed_members db' k = Some m"
  unfolding enroll_grows_def by (metis map_le_def domI)

lemma admitted_grows: "enroll_grows db db' \<Longrightarrow> admitted_by iss ws db sub m \<Longrightarrow> admitted_by iss ws db' sub m"
proof -
  assume g: "enroll_grows db db'" and "admitted_by iss ws db sub m"
  then obtain h i b where a: "ed_invites db (ws, h) = Some i" "iv_account i = sub" "iv_consumed i \<noteq> None"
     "iv_role i = mb_role m" "iv_scopes i = mb_scopes m" "ed_members db (ws, iss, iv_by i) = Some b" "mb_role b = ''maintainer''"
     "set (mb_scopes m) \<subseteq> set (mb_scopes b)" unfolding admitted_by_def by blast
  from g a(1) obtain j where j: "ed_invites db' (ws, h) = Some j" "iv_account j = iv_account i" "iv_role j = iv_role i"
     "iv_scopes j = iv_scopes i" "iv_by j = iv_by i" "iv_consumed j = iv_consumed i" unfolding enroll_grows_def using a(3) by blast
  show ?thesis unfolding admitted_by_def
    by (intro exI [of _ h] exI [of _ j] exI [of _ b]) (use a j enroll_grows_member [OF g a(6)] in simp)
qed

lemma redeem_invitation_Inr:
  assumes "redeem_invitation ws iss sub h now db = Inr db'"
  obtains i where "ed_invites db (ws, h) = Some i" "iv_account i = sub" "iv_consumed i = None" "now < iv_expires i"
    "(ws, iss, sub) \<notin> dom (ed_members db)" "ed_invites db' = (ed_invites db)((ws, h) \<mapsto> i\<lparr>iv_consumed := Some now\<rparr>)"
    "ed_members db' = (ed_members db)((ws, iss, sub) \<mapsto> \<lparr>mb_role = iv_role i, mb_scopes = iv_scopes i, mb_active = True, mb_generation = 1\<rparr>)"
    "ed_founder db' = ed_founder db"
  using assms by (auto simp: redeem_invitation_def add_member_def split: if_splits option.splits)

lemma bootstrap_founder_Inr:
  assumes "bootstrap_founder ws iss sub name boot db = Inr db'"
  obtains "ed_founder db = None" "(ws, iss, sub) \<notin> dom (ed_members db)" "ed_invites db' = ed_invites db" "ed_founder db' = Some (ws, iss, sub)"
    "ed_members db' = (ed_members db)((ws, iss, sub) \<mapsto> \<lparr>mb_role = ''maintainer'', mb_scopes = normalize_scopes boot, mb_active = True, mb_generation = 1\<rparr>)"
  by (rule that; use assms in \<open>auto simp: bootstrap_founder_def add_member_def split: if_splits\<close>)

lemma create_invitation_None:
  assumes "create_invitation e iss ws actor account role scopes h x db = (None, db')"
  obtains m where "ed_members db (ws, iss, actor) = Some m" "mb_active m" "mb_role m = ''maintainer''" "set scopes \<subseteq> set (mb_scopes m)"
    "role \<in> {''reader'', ''maintainer''}" "(ws, h) \<notin> dom (ed_invites db)" "(ws, iss, account) \<notin> dom (ed_members db)"
    "db' = db\<lparr>ed_invites := (ed_invites db)((ws, h) \<mapsto>
       \<lparr>iv_account = account, iv_role = role, iv_scopes = normalize_scopes scopes, iv_by = actor, iv_expires = x, iv_consumed = None\<rparr>)\<rparr>"
proof -
  obtain m where m: "ed_members db (ws, iss, actor) = Some m" using assms by (auto simp: create_invitation_def Let_def split: if_splits option.splits)
  with assms show ?thesis
    using that [of m] scope_subset_sound [of "normalize_scopes scopes" "mb_scopes m"]
    by (auto simp: create_invitation_def Let_def split: if_splits)
qed

lemma consume_flow_None:
  assumes "consume_flow e h now db = (None, db')"
  obtains f where "ed_flows db h = Some f" "lf_consumed f = None" "now < lf_expires f" "length h = 32"
    "db' = db\<lparr>ed_flows := (ed_flows db)(h \<mapsto> f\<lparr>lf_consumed := Some now\<rparr>)\<rparr>"
  using assms by (auto simp: consume_flow_def split: if_splits option.splits)

lemma enroll_step_grows: "enroll_step fresh iss ws founder boot db db' \<Longrightarrow> enroll_grows db db'"
proof (induction rule: enroll_step.induct)
  case (consumed e h now db db')
  then show ?case by (elim consume_flow_None) (simp add: enroll_grows_same)
next
  case (redeemed sub h now db db')
  then show ?case by (elim redeem_invitation_Inr) (auto simp: enroll_grows_def map_le_def)
next
  case (founded name db db')
  then show ?case by (elim bootstrap_founder_Inr) (auto simp: enroll_grows_def map_le_def)
next
  case (invited e actor account role scopes h x db db')
  then show ?case by (elim create_invitation_None) (auto simp: enroll_grows_def)
qed (simp_all add: prune_flows_def enroll_grows_same)

lemma enroll_ok_same:
  "enroll_ok iss ws founder boot db \<Longrightarrow> ed_members db' = ed_members db \<Longrightarrow> ed_invites db' = ed_invites db \<Longrightarrow> ed_founder db' = ed_founder db
     \<Longrightarrow> enroll_ok iss ws founder boot db'"
  by (simp only: enroll_ok_def admitted_by_def)

lemma enroll_ok_member:
  assumes "enroll_ok iss ws founder boot db" "ed_members db k = Some m"
  obtains sub where "k = (ws, iss, sub)" "ed_founder db = Some (ws, iss, founder)" "mb_role m \<in> {''reader'', ''maintainer''}"
    "set (mb_scopes m) \<subseteq> set boot" "sub = founder \<or> admitted_by iss ws db sub m"
  using assms unfolding enroll_ok_def by blast

lemma enroll_ok_invite:
  assumes "enroll_ok iss ws founder boot db" "ed_invites db (w, h) = Some i"
  obtains b where "w = ws" "iv_role i \<in> {''reader'', ''maintainer''}" "set (iv_scopes i) \<subseteq> set boot"
    "ed_members db (ws, iss, iv_by i) = Some b" "mb_role b = ''maintainer''" "set (iv_scopes i) \<subseteq> set (mb_scopes b)"
  using assms unfolding enroll_ok_def by blast


definition member_fact :: "string \<Rightarrow> string \<Rightarrow> string \<Rightarrow> string list \<Rightarrow> enroll_db \<Rightarrow> enroll_db \<Rightarrow> string \<times> string \<times> string \<Rightarrow> membership \<Rightarrow> bool" where
  "member_fact iss ws founder boot db db' k m \<longleftrightarrow> (\<exists>sub. k = (ws, iss, sub) \<and> ed_founder db = Some (ws, iss, founder)
     \<and> mb_role m \<in> {''reader'', ''maintainer''} \<and> set (mb_scopes m) \<subseteq> set boot \<and> (sub = founder \<or> admitted_by iss ws db' sub m))"

definition invite_fact :: "string \<Rightarrow> string \<Rightarrow> string list \<Rightarrow> enroll_db \<Rightarrow> string \<Rightarrow> invitation \<Rightarrow> bool" where
  "invite_fact iss ws boot db w i \<longleftrightarrow> w = ws \<and> iv_role i \<in> {''reader'', ''maintainer''} \<and> set (iv_scopes i) \<subseteq> set boot
     \<and> (\<exists>b. ed_members db (ws, iss, iv_by i) = Some b \<and> mb_role b = ''maintainer'' \<and> set (iv_scopes i) \<subseteq> set (mb_scopes b))"

lemma enroll_ok_facts: "enroll_ok iss ws founder boot db \<longleftrightarrow>
    (\<forall>k m. ed_members db k = Some m \<longrightarrow> member_fact iss ws founder boot db db k m)
  \<and> (\<forall>w h i. ed_invites db (w, h) = Some i \<longrightarrow> invite_fact iss ws boot db w i)"
  by (simp only: enroll_ok_def member_fact_def invite_fact_def)

text \<open>A member and an invitation that were there stay as they should be.\<close>

lemma old_member: "enroll_ok iss ws founder boot db \<Longrightarrow> enroll_grows db db' \<Longrightarrow> ed_members db k = Some m \<Longrightarrow> member_fact iss ws founder boot db db' k m"
proof -
  assume "enroll_ok iss ws founder boot db" and g: "enroll_grows db db'" and "ed_members db k = Some m"
  then have "member_fact iss ws founder boot db db k m" unfolding enroll_ok_facts by blast
  then show ?thesis unfolding member_fact_def using admitted_grows [OF g, of iss ws] by blast
qed

lemma old_invite: "enroll_ok iss ws founder boot db \<Longrightarrow> enroll_grows db db' \<Longrightarrow> ed_invites db (w, h) = Some i \<Longrightarrow> invite_fact iss ws boot db' w i"
proof -
  assume "enroll_ok iss ws founder boot db" and g: "enroll_grows db db'" and "ed_invites db (w, h) = Some i"
  then have "invite_fact iss ws boot db w i" unfolding enroll_ok_facts by blast
  then show ?thesis unfolding invite_fact_def using enroll_grows_member [OF g] by blast
qed

lemma enroll_ok_redeem:
  assumes ok: "enroll_ok iss ws founder boot db" and st: "redeem_invitation ws iss sub h now db = Inr db'"
  shows "enroll_ok iss ws founder boot db'"
proof -
  have g: "enroll_grows db db'" by (rule enroll_step_grows) (rule enroll_step.redeemed [OF st])
  note old = old_member [OF ok g] and inv = old_invite [OF ok g]
  show ?thesis using st
  proof (rule redeem_invitation_Inr)
    fix i assume i: "ed_invites db (ws, h) = Some i" "iv_account i = sub" "iv_consumed i = None" "now < iv_expires i"
      "(ws, iss, sub) \<notin> dom (ed_members db)" and iv': "ed_invites db' = (ed_invites db)((ws, h) \<mapsto> i\<lparr>iv_consumed := Some now\<rparr>)"
      and mb': "ed_members db' = (ed_members db)((ws, iss, sub) \<mapsto> \<lparr>mb_role = iv_role i, mb_scopes = iv_scopes i, mb_active = True, mb_generation = 1\<rparr>)"
      and fo: "ed_founder db' = ed_founder db"
    obtain b where b: "iv_role i \<in> {''reader'', ''maintainer''}" "set (iv_scopes i) \<subseteq> set boot" "ed_members db (ws, iss, iv_by i) = Some b"
      "mb_role b = ''maintainer''" "set (iv_scopes i) \<subseteq> set (mb_scopes b)" by (rule enroll_ok_invite [OF ok i(1)])
    have founder: "ed_founder db = Some (ws, iss, founder)" by (rule enroll_ok_member [OF ok b(3)])
    have new: "admitted_by iss ws db' sub \<lparr>mb_role = iv_role i, mb_scopes = iv_scopes i, mb_active = True, mb_generation = 1\<rparr>"
      unfolding admitted_by_def using i(2) b(4,5) enroll_grows_member [OF g b(3)]
      by (intro exI [of _ h] exI [of _ "i\<lparr>iv_consumed := Some now\<rparr>"] exI [of _ b]) (simp add: iv')
    have "member_fact iss ws founder boot db' db' k m" if m: "ed_members db' k = Some m" for k m
    proof (cases "k = (ws, iss, sub)")
      case True
      then have "m = \<lparr>mb_role = iv_role i, mb_scopes = iv_scopes i, mb_active = True, mb_generation = 1\<rparr>" using m mb' by simp
      then show ?thesis using True new b(1,2) founder fo by (simp add: member_fact_def)
    next
      case False
      then have "ed_members db k = Some m" using m mb' by simp
      from old [OF this] show ?thesis by (simp only: member_fact_def fo)
    qed
    moreover have "invite_fact iss ws boot db' w j"
      if j: "ed_invites db' (w, l) = Some j" for w l j
    proof (cases "(w, l) = (ws, h)")
      case True
      then have "j = i\<lparr>iv_consumed := Some now\<rparr>" using j iv' by simp
      then show ?thesis using True inv [OF i(1)] by (simp add: invite_fact_def)
    next
      case False
      then have "ed_invites db (w, l) = Some j" using j iv' by auto
      then show ?thesis by (rule inv)
    qed
    ultimately show ?thesis unfolding enroll_ok_facts by blast
  qed
qed

lemma enroll_ok_bootstrap:
  assumes ok: "enroll_ok iss ws founder boot db" and st: "bootstrap_founder ws iss founder name boot db = Inr db'"
  shows "enroll_ok iss ws founder boot db'"
proof -
  have g: "enroll_grows db db'" by (rule enroll_step_grows) (rule enroll_step.founded [OF st])
  note old = old_member [OF ok g] and inv = old_invite [OF ok g]
  show ?thesis using st
  proof (rule bootstrap_founder_Inr)
    assume none: "ed_founder db = None" and mb': "ed_members db' = (ed_members db)((ws, iss, founder) \<mapsto>
        \<lparr>mb_role = ''maintainer'', mb_scopes = normalize_scopes boot, mb_active = True, mb_generation = 1\<rparr>)"
      and iv': "ed_invites db' = ed_invites db" and fo: "ed_founder db' = Some (ws, iss, founder)"
    have "ed_members db k = None" for k
    proof (cases "ed_members db k")
      case (Some m)
      from enroll_ok_member [OF ok this] show ?thesis using none by (metis option.distinct(1))
    qed
    then have "ed_members db' k = Some m \<Longrightarrow> k = (ws, iss, founder)
        \<and> m = \<lparr>mb_role = ''maintainer'', mb_scopes = normalize_scopes boot, mb_active = True, mb_generation = 1\<rparr>" for k m
      by (simp add: mb' split: if_splits)
    then have "member_fact iss ws founder boot db' db' k m" if "ed_members db' k = Some m" for k m
      using that fo unfolding member_fact_def by fastforce
    then show ?thesis using inv unfolding enroll_ok_facts iv' by blast
  qed
qed

lemma enroll_ok_invited:
  assumes ok: "enroll_ok iss ws founder boot db" and st: "create_invitation e iss ws actor account role scopes h x db = (None, db')"
  shows "enroll_ok iss ws founder boot db'"
proof -
  have g: "enroll_grows db db'" by (rule enroll_step_grows) (rule enroll_step.invited [OF st])
  note old = old_member [OF ok g] and inv = old_invite [OF ok g]
  show ?thesis using st
  proof (rule create_invitation_None)
    fix a assume a: "ed_members db (ws, iss, actor) = Some a" "mb_role a = ''maintainer''" "set scopes \<subseteq> set (mb_scopes a)"
      "role \<in> {''reader'', ''maintainer''}"
      and db': "db' = db\<lparr>ed_invites := (ed_invites db)((ws, h) \<mapsto>
        \<lparr>iv_account = account, iv_role = role, iv_scopes = normalize_scopes scopes, iv_by = actor, iv_expires = x, iv_consumed = None\<rparr>)\<rparr>"
    have bt: "set (mb_scopes a) \<subseteq> set boot" by (rule enroll_ok_member [OF ok a(1)])
    have "invite_fact iss ws boot db' w j"
      if j: "ed_invites db' (w, l) = Some j" for w l j
    proof (cases "(w, l) = (ws, h)")
      case True
      then show ?thesis using j a bt by (auto simp: db' invite_fact_def)
    next
      case False
      then have "ed_invites db (w, l) = Some j" using j db' by auto
      then show ?thesis by (rule inv)
    qed
    moreover have "member_fact iss ws founder boot db' db' k m" if m: "ed_members db' k = Some m" for k m
      using old [of k m] m by (simp add: db' member_fact_def)
    ultimately show ?thesis unfolding enroll_ok_facts by blast
  qed
qed

lemma enroll_step_ok: "enroll_step fresh iss ws founder boot db db' \<Longrightarrow> enroll_ok iss ws founder boot db \<Longrightarrow> enroll_ok iss ws founder boot db'"
proof (induction rule: enroll_step.induct)
  case (consumed e h now db db')
  then show ?case by (elim consume_flow_None) (rule enroll_ok_same, simp_all)
next
  case (pruned db now picked)
  then show ?case by (rule enroll_ok_same) (simp_all add: prune_flows_def)
next
  case (opened h db x)
  from opened(3) show ?case by (rule enroll_ok_same) simp_all
qed (blast intro: enroll_ok_redeem enroll_ok_bootstrap enroll_ok_invited)+

lemma enroll_run_ok:
  "(enroll_step fresh iss ws founder boot)\<^sup>*\<^sup>* db db' \<Longrightarrow> enroll_ok iss ws founder boot db \<Longrightarrow> enroll_ok iss ws founder boot db'"
  by (induction rule: rtranclp_induct) (auto intro: enroll_step_ok)


subsection \<open>Sign-in\<close>

text \<open>A flow that is consumed, or whose row is gone.\<close>

definition flow_spent :: "enroll_db \<Rightarrow> string \<Rightarrow> bool" where
  "flow_spent db h \<longleftrightarrow> (\<forall>f. ed_flows db h = Some f \<longrightarrow> lf_consumed f \<noteq> None)"

lemma flow_spent_step: "enroll_step fresh iss ws founder boot db db' \<Longrightarrow> h \<notin> fresh \<Longrightarrow> flow_spent db h \<Longrightarrow> flow_spent db' h"
proof (induction rule: enroll_step.induct)
  case (consumed e l now db db')
  then show ?case by (elim consume_flow_None) (auto simp: flow_spent_def)
next
  case (redeemed sub l now db db')
  then have "ed_flows db' = ed_flows db" by (auto simp: redeem_invitation_def add_member_def split: if_splits option.splits)
  with redeemed show ?case by (simp add: flow_spent_def)
next
  case (founded name db db')
  then have "ed_flows db' = ed_flows db" by (auto simp: bootstrap_founder_def add_member_def split: if_splits)
  with founded show ?case by (simp add: flow_spent_def)
next
  case (invited e actor account role scopes l x db db')
  then show ?case by (elim create_invitation_None) (simp add: flow_spent_def)
qed (auto simp: flow_spent_def prune_flows_def split: option.splits if_splits)

lemma flow_spent_run: "(enroll_step fresh iss ws founder boot)\<^sup>*\<^sup>* db db' \<Longrightarrow> h \<notin> fresh \<Longrightarrow> flow_spent db h \<Longrightarrow> flow_spent db' h"
  by (induction rule: rtranclp_induct) (auto intro: flow_spent_step)

lemma flow_spent_consume: "flow_spent db h \<Longrightarrow> fst (consume_flow e h now db) \<noteq> None"
  by (auto simp: flow_spent_def consume_flow_def split: option.splits)

lemma complete_login_member:
  assumes "complete_login e iss ws sub h founder name boot now db = (None, db')"
  shows "\<exists>m. ed_members db' (ws, iss, sub) = Some m \<and> mb_active m"
proof (cases "ed_members db (ws, iss, sub)")
  case (Some m)
  then show ?thesis using assms by (auto simp: complete_login_def split: if_splits)
next
  case None
  let ?db1 = "en_between e db"
  have "redeem_invitation ws iss sub h now ?db1 = Inr db' \<or> bootstrap_founder ws iss sub name boot ?db1 = Inr db'"
    using assms None by (auto simp: complete_login_def Let_def split: if_splits sum.splits)
  then show ?thesis by (elim disjE redeem_invitation_Inr bootstrap_founder_Inr) auto
qed

text \<open>What a callback that sets a session has gone through.\<close>

lemma callback_session:
  assumes "callback_login c w iss e r db = (a, db')" "ea_session a = Some s"
  obtains cookie f db1 account where "cq_method r = ''GET''" "cq_cookie r = Some cookie" "open_flow c w cookie = Some f"
    "fw_state f = form_get (cq_query r) ''state''" "cb_now e < fw_expires f * second"
    "consume_flow (cb_consume e) (ew_sha w (fw_state f)) (cb_now_consume e) db = (None, db1)"
    "github_account c w (form_get (cq_query r) ''code'') (fw_verifier f) = Some account"
    "complete_login (cb_login e) iss (ec_workspace c) account (if fw_invitation f \<noteq> [] then ew_sha w (fw_invitation f) else [])
       (ec_founder c) (ec_workspace_name c) (ec_bootstrap c) (cb_now_login e) (cb_others e db1) = (None, db')"
    "cb_issue e account [ec_workspace c] (ec_session_ttl c) = Some s"
    "ea_page a = (if fw_return f \<noteq> [] then Found_redirect (fw_return f) else Signed_in (csrf_of c w account))"
proof -
  obtain cookie f where f: "cq_method r = ''GET''" "cq_cookie r = Some cookie" "open_flow c w cookie = Some f"
    "fw_state f = form_get (cq_query r) ''state''" "cb_now e < fw_expires f * second"
    and res: "(case consume_flow (cb_consume e) (ew_sha w (fw_state f)) (cb_now_consume e) db of
                (Some Flow_replayed, db') \<Rightarrow> (cleared (Plain_error 400 ''login denied'') None, db')
              | (Some _, db') \<Rightarrow> (cleared (login_failure (fw_return f) 500 ''login unavailable'' ''service_unavailable'') None, db')
              | (None, db') \<Rightarrow> finish_login c w iss e f (form_get (cq_query r) ''code'') db') = (a, db')"
    using assms by (auto simp: callback_login_def Let_def plain_answer_def cleared_def split: if_splits option.splits)
  obtain db1 where one: "consume_flow (cb_consume e) (ew_sha w (fw_state f)) (cb_now_consume e) db = (None, db1)"
    and fin: "finish_login c w iss e f (form_get (cq_query r) ''code'') db1 = (a, db')"
    using res assms(2) by (auto simp: cleared_def split: prod.splits option.splits enroll_error.splits)
  obtain account where acc: "github_account c w (form_get (cq_query r) ''code'') (fw_verifier f) = Some account"
    using fin assms(2) by (auto simp: finish_login_def cleared_def split: option.splits)
  obtain x db2 where cl: "complete_login (cb_login e) iss (ec_workspace c) account (if fw_invitation f \<noteq> [] then ew_sha w (fw_invitation f) else [])
       (ec_founder c) (ec_workspace_name c) (ec_bootstrap c) (cb_now_login e) (cb_others e db1) = (x, db2)" by (metis prod.exhaust)
  have x: "x = None" using fin assms(2) acc cl by (cases x) (auto simp: finish_login_def cleared_def split: enroll_error.splits)
  then have "cb_issue e account [ec_workspace c] (ec_session_ttl c) = Some s" "db2 = db'"
    "ea_page a = (if fw_return f \<noteq> [] then Found_redirect (fw_return f) else Signed_in (csrf_of c w account))"
    using fin assms(2) acc cl by (auto simp: finish_login_def cleared_def split: option.splits if_splits)
  with f one acc cl x show ?thesis using that by simp
qed


lemma callback_unspent:
  assumes "callback_login c w iss e r db = (a, db')" "ea_session a = Some s"
  shows "\<not> flow_spent db (ew_sha w (form_get (cq_query r) ''state''))"
proof
  assume spent: "flow_spent db (ew_sha w (form_get (cq_query r) ''state''))"
  have "False" if "fw_state f = form_get (cq_query r) ''state''"
    "consume_flow (cb_consume e) (ew_sha w (fw_state f)) (cb_now_consume e) db = (None, db1)" for f db1
    using flow_spent_consume [OF spent, of "cb_consume e" "cb_now_consume e"] that by simp
  then show False by (rule callback_session [OF assms])
qed

text \<open>The other transactions around and inside a callback are steps of the store.\<close>

definition callback_others :: "string set \<Rightarrow> string \<Rightarrow> enroll_config \<Rightarrow> callback_env \<Rightarrow> bool" where
  "callback_others fresh iss c e \<longleftrightarrow> quiet_between fresh iss (ec_workspace c) (ec_founder c) (ec_bootstrap c) (cb_login e)
     \<and> (\<forall>db. (enroll_step fresh iss (ec_workspace c) (ec_founder c) (ec_bootstrap c))\<^sup>*\<^sup>* db (cb_others e db))"

abbreviation enroll_run :: "string set \<Rightarrow> string \<Rightarrow> enroll_config \<Rightarrow> enroll_db \<Rightarrow> enroll_db \<Rightarrow> bool" where
  "enroll_run fresh iss c \<equiv> (enroll_step fresh iss (ec_workspace c) (ec_founder c) (ec_bootstrap c))\<^sup>*\<^sup>*"

lemma callback_after_consume:
  assumes "callback_others fresh iss c e" "complete_login (cb_login e) iss (ec_workspace c) account h (ec_founder c) (ec_workspace_name c)
     (ec_bootstrap c) now (cb_others e db1) = (x, db')"
  shows "enroll_run fresh iss c db1 db'"
  using assms complete_login_run [of fresh iss "ec_workspace c" "ec_founder c" "ec_bootstrap c" "cb_login e"]
  unfolding callback_others_def by (meson rtranclp_trans)

text \<open>C13. Nobody enters the workspace but by the founder's bootstrap or an invitation, and nobody gets more than his sponsor: in
  every store the operations of a deployment reach, in whatever order, each member is the configured founder, or holds exactly
  the role and scopes of a consumed invitation that was issued for his account by a maintainer whose scopes include them; so
  every membership and every invitation stays within the bootstrap scopes.\<close>

theorem enrollment_delegates_within_scopes:
  assumes "enroll_run fresh iss c empty_enroll_db db"
  shows "(\<forall>w i sub m. ed_members db (w, i, sub) = Some m \<longrightarrow> w = ec_workspace c \<and> i = iss \<and> set (mb_scopes m) \<subseteq> set (ec_bootstrap c)
        \<and> ed_founder db = Some (ec_workspace c, iss, ec_founder c) \<and> (sub = ec_founder c \<or> admitted_by iss (ec_workspace c) db sub m))
     \<and> (\<forall>w h i. ed_invites db (w, h) = Some i \<longrightarrow> set (iv_scopes i) \<subseteq> set (ec_bootstrap c)
        \<and> (\<exists>b. ed_members db (ec_workspace c, iss, iv_by i) = Some b \<and> mb_role b = ''maintainer'' \<and> set (iv_scopes i) \<subseteq> set (mb_scopes b)))"
proof -
  have ok: "enroll_ok iss (ec_workspace c) (ec_founder c) (ec_bootstrap c) db" by (rule enroll_run_ok [OF assms enroll_ok_empty])
  show ?thesis
  proof (intro conjI allI impI)
    fix w i sub m assume "ed_members db (w, i, sub) = Some m"
    from enroll_ok_member [OF ok this]
    show "w = ec_workspace c" "i = iss" "set (mb_scopes m) \<subseteq> set (ec_bootstrap c)" "ed_founder db = Some (ec_workspace c, iss, ec_founder c)"
      "sub = ec_founder c \<or> admitted_by iss (ec_workspace c) db sub m" by auto
  next
    fix w h i assume "ed_invites db (w, h) = Some i"
    with ok obtain b where "set (iv_scopes i) \<subseteq> set (ec_bootstrap c)" "ed_members db (ec_workspace c, iss, iv_by i) = Some b"
      "mb_role b = ''maintainer''" "set (iv_scopes i) \<subseteq> set (mb_scopes b)" by (rule enroll_ok_invite)
    then show "set (iv_scopes i) \<subseteq> set (ec_bootstrap c)" "\<exists>b. ed_members db (ec_workspace c, iss, iv_by i) = Some b
       \<and> mb_role b = ''maintainer'' \<and> set (iv_scopes i) \<subseteq> set (mb_scopes b)" by simp_all
  qed
qed

text \<open>C12. A session is evidence: when the callback sets a session cookie, the request carried the sealed flow of this browser with the
  state GitHub returned, unexpired; the flow's row was unused and unexpired and is now spent; GitHub named the account for the
  code and the flow's verifier; the session is for that account and the workspace only; and the account is an active
  member, admitted as the founder or by an invitation for it. Afterwards, whatever else runs while the state is not drawn
  again, no callback with that state sets a session.\<close>

theorem sign_in_evidence:
  assumes reach: "enroll_run UNIV iss c empty_enroll_db db" and others: "callback_others fresh iss c e"
    and once: "ew_sha w (form_get (cq_query r) ''state'') \<notin> fresh" and session: "callback_login c w iss e r db = (a, db')" "ea_session a = Some s"
  shows "(\<exists>cookie f row account m. cq_cookie r = Some cookie \<and> open_flow c w cookie = Some f \<and> fw_state f = form_get (cq_query r) ''state''
      \<and> cb_now e < fw_expires f * second \<and> ed_flows db (ew_sha w (fw_state f)) = Some row \<and> lf_consumed row = None
      \<and> cb_now_consume e < lf_expires row \<and> github_account c w (form_get (cq_query r) ''code'') (fw_verifier f) = Some account
      \<and> cb_issue e account [ec_workspace c] (ec_session_ttl c) = Some s \<and> ed_members db' (ec_workspace c, iss, account) = Some m \<and> mb_active m
      \<and> set (mb_scopes m) \<subseteq> set (ec_bootstrap c) \<and> (account = ec_founder c \<or> admitted_by iss (ec_workspace c) db' account m))
    \<and> (\<forall>e' r' db2. enroll_run fresh iss c db' db2 \<longrightarrow> form_get (cq_query r') ''state'' = form_get (cq_query r) ''state''
        \<longrightarrow> ea_session (fst (callback_login c w iss e' r' db2)) = None)"
proof -
  obtain cookie f db1 account where cb: "cq_cookie r = Some cookie" "open_flow c w cookie = Some f" "fw_state f = form_get (cq_query r) ''state''"
    "cb_now e < fw_expires f * second" and one: "consume_flow (cb_consume e) (ew_sha w (fw_state f)) (cb_now_consume e) db = (None, db1)"
    and acc: "github_account c w (form_get (cq_query r) ''code'') (fw_verifier f) = Some account" "cb_issue e account [ec_workspace c] (ec_session_ttl c) = Some s"
    and cl: "complete_login (cb_login e) iss (ec_workspace c) account (if fw_invitation f \<noteq> [] then ew_sha w (fw_invitation f) else [])
       (ec_founder c) (ec_workspace_name c) (ec_bootstrap c) (cb_now_login e) (cb_others e db1) = (None, db')"
    by (rule callback_session [OF session])
  have run: "enroll_run fresh iss c db1 db'" by (rule callback_after_consume [OF others cl])
  obtain row where row: "ed_flows db (ew_sha w (fw_state f)) = Some row" "lf_consumed row = None" "cb_now_consume e < lf_expires row"
    and spent: "flow_spent db1 (ew_sha w (fw_state f))" by (rule consume_flow_None [OF one]) (simp add: flow_spent_def)
  have "enroll_run fresh iss c db db1" by (rule consume_flow_run [OF one])
  then have ok: "enroll_ok iss (ec_workspace c) (ec_founder c) (ec_bootstrap c) db'"
    using enroll_run_ok [OF rtranclp_trans [OF _ run] enroll_run_ok [OF reach enroll_ok_empty]] by blast
  obtain m where m: "ed_members db' (ec_workspace c, iss, account) = Some m" "mb_active m" using complete_login_member [OF cl] by blast
  have "set (mb_scopes m) \<subseteq> set (ec_bootstrap c) \<and> (account = ec_founder c \<or> admitted_by iss (ec_workspace c) db' account m)"
    by (rule enroll_ok_member [OF ok m(1)]) simp
  moreover have "ea_session (fst (callback_login c w iss e' r' db2)) = None"
    if later: "enroll_run fresh iss c db' db2" and same: "form_get (cq_query r') ''state'' = form_get (cq_query r) ''state''" for e' r' db2
  proof (rule ccontr)
    assume "ea_session (fst (callback_login c w iss e' r' db2)) \<noteq> None"
    then obtain a2 db3 s2 where "callback_login c w iss e' r' db2 = (a2, db3)" "ea_session a2 = Some s2" by (metis eq_fst_iff not_None_eq)
    from callback_unspent [OF this] have "\<not> flow_spent db2 (ew_sha w (form_get (cq_query r) ''state''))" using same by simp
    moreover have "flow_spent db2 (ew_sha w (form_get (cq_query r) ''state''))"
      using flow_spent_run [OF later _ flow_spent_run [OF run _ spent]] once cb(3) by simp
    ultimately show False by simp
  qed
  ultimately show ?thesis using cb row acc m by blast
qed

subsection \<open>An honest sign-in\<close>

definition is_ascii7 :: "string \<Rightarrow> bool" where
  "is_ascii7 s \<longleftrightarrow> list_all (\<lambda>c. byte c < 128) s"

definition flow_ascii :: "flow_claims \<Rightarrow> bool" where
  "flow_ascii f \<longleftrightarrow> is_ascii7 (fw_state f) \<and> is_ascii7 (fw_verifier f) \<and> is_ascii7 (fw_invitation f) \<and> is_ascii7 (fw_return f)"

text \<open>The documented laws of AES-GCM with a 12-byte nonce and of \<open>encoding/json\<close> on ASCII strings.\<close>

definition flow_codec :: "enroll_config \<Rightarrow> enroll_web \<Rightarrow> bool" where
  "flow_codec c w \<longleftrightarrow> (\<forall>n p. length n = 12 \<longrightarrow> ew_open w (ec_flow_key c) n (ew_seal w (ec_flow_key c) n p flow_cookie_name) flow_cookie_name = Some p)
     \<and> (\<forall>f. flow_ascii f \<longrightarrow> ew_unmarshal w (ew_marshal w f) = Some f)"

lemma is_ascii7_b64: "is_ascii7 (b64_encode s)"
proof -
  have "byte c < 128" if "is_b64_char c" for c
    using that by (auto simp: is_b64_char_def b64_value_def Let_def split: if_splits)
  then show ?thesis using b64_encode_chars by (simp add: is_ascii7_def list_all_iff)
qed

lemma canonical_token_ascii: "canonical_token v \<Longrightarrow> is_ascii7 v"
  using is_ascii7_b64 by (auto simp: canonical_token_def split: option.splits)

lemma canonical_token_random: "length b = 32 \<Longrightarrow> canonical_token (b64_encode b)"
  by (auto simp: canonical_token_def length_b64_encode_32)

lemma open_seal_flow:
  assumes codec: "flow_codec c w" and n: "length n = 12" and st: "canonical_token state" and ve: "canonical_token verifier"
    and inv: "invite = [] \<or> canonical_token invite" and ret: "is_ascii7 ret" "ret = [] \<or> validate_return_to c w ret = Some ret"
  shows "open_flow c w (seal_flow c w n state verifier invite ret x)
    = Some \<lparr>fw_state = state, fw_verifier = verifier, fw_invitation = invite, fw_return = ret, fw_expires = unix_seconds x\<rparr>"
proof -
  let ?f = "\<lparr>fw_state = state, fw_verifier = verifier, fw_invitation = invite, fw_return = ret, fw_expires = unix_seconds x\<rparr>"
  have "flow_ascii ?f" using st ve inv ret by (auto simp: flow_ascii_def canonical_token_ascii) (simp add: is_ascii7_def)
  then have "ew_unmarshal w (ew_marshal w ?f) = Some ?f" using codec by (simp add: flow_codec_def)
  moreover have "ew_open w (ec_flow_key c) n (ew_seal w (ec_flow_key c) n (ew_marshal w ?f) flow_cookie_name) flow_cookie_name = Some (ew_marshal w ?f)"
    using codec n by (simp add: flow_codec_def)
  ultimately show ?thesis using n st ve inv ret by (auto simp: open_flow_def seal_flow_def)
qed

text \<open>Whether the account may sign in: it is an active member, or it is none and the invitation is its own, live and unused, or
  it is the founder of a deployment that has none.\<close>

definition may_enter :: "enroll_config \<Rightarrow> enroll_web \<Rightarrow> string \<Rightarrow> string \<Rightarrow> string \<Rightarrow> int \<Rightarrow> enroll_db \<Rightarrow> enroll_db \<Rightarrow> bool" where
  "may_enter c w iss account invite now db db1 \<longleftrightarrow>
     (case ed_members db (ec_workspace c, iss, account) of
        Some m \<Rightarrow> mb_active m
      | None \<Rightarrow> ed_members db1 (ec_workspace c, iss, account) = None
          \<and> (if invite \<noteq> [] then length (ew_sha w invite) = 32 \<and> (\<exists>i. ed_invites db1 (ec_workspace c, ew_sha w invite) = Some i
                \<and> iv_account i = account \<and> iv_consumed i = None \<and> now < iv_expires i)
             else account = ec_founder c \<and> ed_founder db1 = None \<and> ed_workspaces db1 (ec_workspace c) = None))"

lemma complete_login_enters:
  assumes "may_enter c w iss account invite now db (en_between e db)" and "\<not> en_fails e"
    and "ec_workspace c \<noteq> []" "account \<noteq> []" "ec_founder c \<noteq> []" "ec_workspace_name c \<noteq> []"
  obtains db' where "complete_login e iss (ec_workspace c) account (if invite \<noteq> [] then ew_sha w invite else []) (ec_founder c) (ec_workspace_name c)
    (ec_bootstrap c) now db = (None, db')"
proof (cases "ed_members db (ec_workspace c, iss, account)")
  case (Some m)
  then show ?thesis using assms that by (simp add: complete_login_def may_enter_def)
next
  case None
  show ?thesis
  proof (cases "invite = []")
    case True
    then show ?thesis using None assms that by (auto simp: complete_login_def may_enter_def bootstrap_founder_def Let_def domIff)
  next
    case False
    then have "ew_sha w invite \<noteq> []" using None assms(1) by (auto simp: may_enter_def)
    then show ?thesis using None False assms that by (auto simp: complete_login_def may_enter_def redeem_invitation_def Let_def domIff)
  qed
qed

lemma start_login_redirect:
  assumes "start_login c w e rq db = (a, db1)" "ea_page a = To_github ps"
  obtains invite ret sb vb nonce where "start_inputs c w rq = Inr (invite, ret)" "sv_state e = Some sb" "sv_verifier e = Some vb" "sv_nonce e = Some nonce"
    "ea_flow a = Flow_set (seal_flow c w nonce (b64_encode sb) (b64_encode vb) invite ret (sv_now e + ec_flow_ttl c)) (sv_now e + ec_flow_ttl c)"
    "create_flow (sv_store e) (ew_sha w (b64_encode sb)) (sv_now e + ec_flow_ttl c) db = (None, db1)" "map_of ps ''state'' = Some (b64_encode sb)"
proof -
  obtain invite ret where i: "start_inputs c w rq = Inr (invite, ret)"
    using assms by (cases "start_inputs c w rq") (auto simp: start_login_def plain_answer_def split: prod.splits)
  obtain sb vb nonce where r: "sv_state e = Some sb" "sv_verifier e = Some vb" "sv_nonce e = Some nonce"
    using assms i by (auto simp: start_login_def plain_answer_def split: if_splits option.splits)
  obtain x db2 where cf: "create_flow (sv_store e) (ew_sha w (b64_encode sb)) (sv_now e + ec_flow_ttl c) db = (x, db2)" by (metis prod.exhaust)
  then show ?thesis using that [OF i r] assms i r by (cases x) (auto simp: start_login_def plain_answer_def Let_def split: if_splits)
qed

lemma start_inputs_return: "start_inputs c w rq = Inr (invite, ret) \<Longrightarrow> ret = [] \<or> validate_return_to c w ret = Some ret"
proof -
  have same: "validate_return_to c w raw = Some r \<Longrightarrow> r = raw" for raw r
    by (auto simp: validate_return_to_def split: if_splits option.splits)
  have "read_return_to c w vs = Some r \<Longrightarrow> r = [] \<or> validate_return_to c w r = Some r" for vs r
    using same by (fastforce simp: read_return_to_def split: option.splits list.splits)
  then show "start_inputs c w rq = Inr (invite, ret) \<Longrightarrow> ret = [] \<or> validate_return_to c w ret = Some ret"
    by (auto simp: start_inputs_def split: if_splits option.splits list.splits)
qed

lemma create_flow_None:
  assumes "create_flow e h x db = (None, db')"
  shows "length h = 32" "ed_flows db' h = Some \<lparr>lf_expires = x, lf_consumed = None\<rparr>"
  using assms by (auto simp: create_flow_def Let_def split: if_splits option.splits)

text \<open>C21. An honest sign-in succeeds: a browser that was redirected to GitHub comes back with the cookie it was given, the state of the
  redirect and a code that GitHub accepts for the verifier of that cookie, before the flow expires; if no one has touched the
  flow's row since, the stores answer, and the account may enter (an active member, the account of a live invitation
  submitted at the start, or the founder of a fresh deployment), then the callback sets the session the issuer made and
  sends the browser to the return target it asked for, or answers with the account's CSRF token.\<close>

theorem honest_sign_in:
  assumes codec: "flow_codec c w" and inputs: "start_inputs c w rq = Inr (invite, ret)" "is_ascii7 ret" "invite = [] \<or> canonical_token invite"
    and random: "sv_state e0 = Some sb" "sv_verifier e0 = Some vb" "sv_nonce e0 = Some nonce" "length sb = 32" "length vb = 32" "length nonce = 12"
    and started: "start_login c w e0 rq db0 = (a, db1)" "ea_page a = To_github ps" "ea_flow a = Flow_set cookie x"
    and returned: "cq_method r = ''GET''" "cq_cookie r = Some cookie" "cq_query r = [(''code'', [code]), (''state'', [state])]"
      "map_of ps ''state'' = Some state" "code \<noteq> []" "length code \<le> 4096"
    and time: "cb_now e < unix_seconds x * second" "cb_now_consume e < x"
    and row: "ed_flows db (ew_sha w state) = ed_flows db1 (ew_sha w state)" and up: "\<not> en_fails (cb_consume e)" "\<not> en_fails (cb_login e)"
    and github: "github_account c w code (b64_encode vb) = Some account" "account \<noteq> []"
    and named: "ec_workspace c \<noteq> []" "ec_founder c \<noteq> []" "ec_workspace_name c \<noteq> []"
    and enter: "\<And>db2. snd (consume_flow (cb_consume e) (ew_sha w state) (cb_now_consume e) db) = db2 \<Longrightarrow>
      may_enter c w iss account invite (cb_now_login e) (cb_others e db2) (en_between (cb_login e) (cb_others e db2))"
    and issued: "cb_issue e account [ec_workspace c] (ec_session_ttl c) = Some s"
  shows "\<exists>db'. callback_login c w iss e r db
    = (\<lparr>ea_page = (if ret \<noteq> [] then Found_redirect ret else Signed_in (csrf_of c w account)), ea_flow = Flow_cleared, ea_session = Some s\<rparr>, db')"
proof -
  let ?f = "\<lparr>fw_state = b64_encode sb, fw_verifier = b64_encode vb, fw_invitation = invite, fw_return = ret, fw_expires = unix_seconds x\<rparr>"
  have st: "state = b64_encode sb" and ck: "cookie = seal_flow c w nonce (b64_encode sb) (b64_encode vb) invite ret x"
    and cf: "create_flow (sv_store e0) (ew_sha w (b64_encode sb)) x db0 = (None, db1)"
    by (rule start_login_redirect [OF started(1,2)]; use inputs random started(3) returned(4) in simp)+
  have op: "open_flow c w cookie = Some ?f" unfolding ck
    by (rule open_seal_flow [OF codec random(6) canonical_token_random canonical_token_random inputs(3,2) start_inputs_return [OF inputs(1)]])
      (rule random)+
  obtain db2 where one: "consume_flow (cb_consume e) (ew_sha w (b64_encode sb)) (cb_now_consume e) db = (None, db2)"
    using create_flow_None [OF cf] row up(1) time(2) st by (simp add: consume_flow_def)
  obtain db' where two: "complete_login (cb_login e) iss (ec_workspace c) account (if invite \<noteq> [] then ew_sha w invite else []) (ec_founder c)
      (ec_workspace_name c) (ec_bootstrap c) (cb_now_login e) (cb_others e db2) = (None, db')"
    by (rule complete_login_enters [OF enter]) (use one st up(2) named github(2) in simp_all)
  have q: "single (cq_query r) ''state''" "single (cq_query r) ''code''" "form_get (cq_query r) ''code'' = code" "form_get (cq_query r) ''error'' = []"
    "form_get (cq_query r) ''state'' = state" by (simp_all add: returned(3) single_def form_get_def)
  have "finish_login c w iss e ?f code db2 = (cleared (if ret \<noteq> [] then Found_redirect ret else Signed_in (csrf_of c w account)) (Some s), db')"
    unfolding finish_login_def using github(1) issued two by (cases "invite = []") simp_all
  then show ?thesis
    using op one returned(1,2,5,6) q st time(1) by (simp add: callback_login_def cleared_def Let_def)
qed

end
