(* ===== verification/EnrollmentExample.thy ===== *)
theory EnrollmentExample
  imports EnrollmentProperties "HOL-Library.Countable"
begin

text \<open>A concrete deployment: the founder signs in first, invites an account, and the invited account signs in.\<close>

definition ent_cfg :: enroll_config where
  "ent_cfg = \<lparr>ec_client_id = ''id'', ec_client_secret = ''secret'', ec_callback = ''https://g/auth/github/callback'', ec_origin = ''https://g'',
     ec_workspace = ''w'', ec_workspace_name = ''W'', ec_founder = ''42'', ec_bootstrap = default_scopes, ec_allowed = default_scopes,
     ec_flow_key = replicate 32 CHR ''k'', ec_csrf_key = replicate 32 CHR ''c'', ec_flow_ttl = 5 * minute, ec_session_ttl = 480 * minute,
     ec_invitation_ttl = 1440 * minute\<rparr>"

text \<open>A codec that satisfies the laws, and a GitHub that knows one account.\<close>

definition flow_number :: "flow_claims \<Rightarrow> nat" where
  "flow_number f = to_nat (fw_state f, fw_verifier f, fw_invitation f, fw_return f, fw_expires f)"

definition flow_of :: "nat \<Rightarrow> flow_claims" where
  "flow_of n = (case from_nat n of (a, b, d, e, x) \<Rightarrow> \<lparr>fw_state = a, fw_verifier = b, fw_invitation = d, fw_return = e, fw_expires = x\<rparr>)"

lemma flow_of_number [simp]: "flow_of (flow_number f) = f"
  by (simp add: flow_of_def flow_number_def)

definition ent_web :: enroll_web where
  "ent_web = \<lparr>ew_seal = (\<lambda>k n p aad. p), ew_open = (\<lambda>k n t aad. Some t), ew_marshal = (\<lambda>f. replicate (flow_number f) CHR ''x''),
     ew_unmarshal = (\<lambda>r. Some (flow_of (length r))), ew_sha = (\<lambda>v. take 32 v), ew_mac = (\<lambda>k m. m), ew_parse = (\<lambda>u. None),
     ew_query_ok = (\<lambda>q. True), ew_raw_parts = (\<lambda>u. True), ew_equal_fold = (=),
     ew_exchange = (\<lambda>form. Some \<lparr>ha_status = 200, ha_body = ''{}''\<rparr>), ew_account = (\<lambda>t. Some \<lparr>ha_status = 200, ha_body = ''{}''\<rparr>),
     ew_token = (\<lambda>b. Some (''tok'', [])), ew_user = (\<lambda>b. Some ''42'')\<rparr>"

lemma ent_codec: "flow_codec ent_cfg ent_web"
  by (simp add: flow_codec_def ent_web_def)

definition ent_quiet :: enroll_env where
  "ent_quiet = \<lparr>en_now = 0, en_fails = False, en_pruned = Some {}, en_between = id\<rparr>"

definition ent_start :: start_env where
  "ent_start = \<lparr>sv_state = Some (replicate 32 CHR ''s''), sv_verifier = Some (replicate 32 CHR ''v''), sv_nonce = Some (replicate 12 CHR ''n''),
     sv_now = 0, sv_store = ent_quiet\<rparr>"

definition ent_get :: start_request where
  "ent_get = \<lparr>sq_method = ''GET'', sq_query = [(''return_to'', [''/library''])], sq_origin = [], sq_media = None, sq_form = None\<rparr>"

definition ent_state :: string where "ent_state = b64_encode (replicate 32 CHR ''s'')"
definition ent_verifier :: string where "ent_verifier = b64_encode (replicate 32 CHR ''v'')"

definition ent_cookie :: string where
  "ent_cookie = seal_flow ent_cfg ent_web (replicate 12 CHR ''n'') ent_state ent_verifier [] ''/library'' (5 * minute)"

definition ent_db1 :: enroll_db where
  "ent_db1 = empty_enroll_db\<lparr>ed_flows := [take 32 ent_state \<mapsto> \<lparr>lf_expires = 5 * minute, lf_consumed = None\<rparr>]\<rparr>"

lemma ent_inputs: "start_inputs ent_cfg ent_web ent_get = Inr ([], ''/library'')"
  by (simp add: start_inputs_def ent_get_def read_return_to_def form_has_def validate_return_to_def website_return_target_def)

lemma ent_state_len: "length ent_state = 43"
  by (simp add: ent_state_def length_b64_encode_32)

lemma ent_started: "start_login ent_cfg ent_web ent_start ent_get empty_enroll_db
  = (\<lparr>ea_page = To_github [(''client_id'', ''id''), (''redirect_uri'', ''https://g/auth/github/callback''), (''state'', ent_state),
       (''code_challenge'', b64_encode (take 32 ent_verifier)), (''code_challenge_method'', ''S256'')],
      ea_flow = Flow_set ent_cookie (5 * minute), ea_session = None\<rparr>, ent_db1)"
proof -
  have "create_flow ent_quiet (take 32 ent_state) (5 * minute) empty_enroll_db = (None, ent_db1)"
    by (simp add: create_flow_def ent_quiet_def ent_state_len prune_flows_def empty_enroll_db_def ent_db1_def Let_def minute_def second_def)
  then show ?thesis
    by (simp add: start_login_def ent_inputs ent_start_def ent_state_def [symmetric] ent_verifier_def [symmetric] ent_cookie_def [symmetric] Let_def)
      (simp add: ent_cfg_def ent_web_def ent_cookie_def)
qed

definition ent_back :: callback_request where
  "ent_back = \<lparr>cq_method = ''GET'', cq_cookie = Some ent_cookie, cq_query = [(''code'', [''abc'']), (''state'', [ent_state])]\<rparr>"

definition ent_callback :: callback_env where
  "ent_callback = \<lparr>cb_now = 1, cb_now_consume = 2, cb_now_login = 3, cb_consume = ent_quiet, cb_login = ent_quiet, cb_others = id,
     cb_issue = (\<lambda>sub ws ttl. Some (sub, ttl))\<rparr>"

lemma ent_cfg_sel: "ec_workspace ent_cfg = ''w''" "ec_workspace_name ent_cfg = ''W''" "ec_founder ent_cfg = ''42''" "ec_bootstrap ent_cfg = default_scopes"
  "ec_session_ttl ent_cfg = 480 * minute" "ec_allowed ent_cfg = default_scopes"
  by (simp_all add: ent_cfg_def)

lemma ent_github: "github_account ent_cfg ent_web code v = Some ''42''"
proof -
  have "parse_int64 ''42'' = Some 42" "go_itoa (42 :: nat) = ''42''" by code_simp+
  then show ?thesis by (simp add: github_account_def ent_web_def decode_limited_def)
qed

definition ent_db2 :: enroll_db where
  "ent_db2 = empty_enroll_db\<lparr>ed_flows := [take 32 ent_state \<mapsto> \<lparr>lf_expires = 5 * minute, lf_consumed = Some 2\<rparr>]\<rparr>"

lemma ent_consumed: "consume_flow ent_quiet (take 32 ent_state) 2 ent_db1 = (None, ent_db2)"
  by (simp add: consume_flow_def ent_quiet_def ent_state_len ent_db1_def ent_db2_def minute_def second_def)

theorem honest_sign_in_witness:
  "\<exists>db'. callback_login ent_cfg ent_web ''g'' ent_callback ent_back ent_db1
     = (\<lparr>ea_page = Found_redirect ''/library'', ea_flow = Flow_cleared, ea_session = Some (''42'', 480 * minute)\<rparr>, db')"
proof -
  have "\<exists>db'. callback_login ent_cfg ent_web ''g'' ent_callback ent_back ent_db1
     = (\<lparr>ea_page = (if ''/library'' \<noteq> [] then Found_redirect ''/library'' else Signed_in (csrf_of ent_cfg ent_web ''42'')), ea_flow = Flow_cleared,
        ea_session = Some (''42'', 480 * minute)\<rparr>, db')"
  proof (rule honest_sign_in [OF ent_codec ent_inputs _ _ _ _ _ _ _ _ ent_started])
    fix db2 assume "snd (consume_flow (cb_consume ent_callback) (ew_sha ent_web ent_state) (cb_now_consume ent_callback) ent_db1) = db2"
    then have "db2 = ent_db2" by (simp add: ent_callback_def ent_web_def ent_consumed)
    then show "may_enter ent_cfg ent_web ''g'' ''42'' [] (cb_now_login ent_callback) (cb_others ent_callback db2)
      (en_between (cb_login ent_callback) (cb_others ent_callback db2))"
      by (simp add: may_enter_def ent_callback_def ent_quiet_def ent_db2_def empty_enroll_db_def ent_cfg_sel)
  qed (simp_all add: ent_start_def ent_back_def ent_callback_def ent_quiet_def ent_github ent_cfg_sel is_ascii7_def unix_seconds_def second_def minute_def,
      simp_all add: byte_def)
  then show ?thesis by simp
qed

definition ent_db3 :: enroll_db where
  "ent_db3 = ent_db2\<lparr>ed_founder := Some (''w'', ''g'', ''42''), ed_workspaces := [''w'' \<mapsto> ''W''],
     ed_members := [(''w'', ''g'', ''42'') \<mapsto> \<lparr>mb_role = ''maintainer'', mb_scopes = normalize_scopes default_scopes, mb_active = True, mb_generation = 1\<rparr>]\<rparr>"

lemma ent_founded: "bootstrap_founder ''w'' ''g'' ''42'' ''W'' default_scopes ent_db2 = Inr ent_db3"
  by (simp add: bootstrap_founder_def ent_db2_def ent_db3_def add_member_def empty_enroll_db_def)

lemma ent_opened: "open_flow ent_cfg ent_web ent_cookie
  = Some \<lparr>fw_state = ent_state, fw_verifier = ent_verifier, fw_invitation = [], fw_return = ''/library'', fw_expires = unix_seconds (5 * minute)\<rparr>"
  unfolding ent_cookie_def
  by (rule open_seal_flow [OF ent_codec])
    (simp_all add: ent_state_def ent_verifier_def canonical_token_random is_ascii7_def byte_def validate_return_to_def website_return_target_def)

lemma ent_signed_in: "callback_login ent_cfg ent_web ''g'' ent_callback ent_back ent_db1
  = (\<lparr>ea_page = Found_redirect ''/library'', ea_flow = Flow_cleared, ea_session = Some (''42'', 480 * minute)\<rparr>, ent_db3)"
proof -
  have "complete_login ent_quiet ''g'' ''w'' ''42'' [] ''42'' ''W'' default_scopes 3 ent_db2 = (None, ent_db3)"
    using ent_founded by (simp add: complete_login_def ent_quiet_def ent_db2_def empty_enroll_db_def)
  moreover have "1 < unix_seconds (5 * minute) * second" by (simp add: unix_seconds_def minute_def second_def)
  moreover have "ew_sha ent_web ent_state = take 32 ent_state" by (simp add: ent_web_def)
  ultimately show ?thesis
    by (simp add: callback_login_def ent_back_def ent_opened single_def form_get_def ent_callback_def ent_consumed finish_login_def ent_github
        ent_cfg_sel cleared_def Let_def)
qed

lemma ent_reached: "enroll_run UNIV ''g'' ent_cfg empty_enroll_db ent_db1"
proof -
  have "enroll_step UNIV ''g'' ws f b empty_enroll_db (empty_enroll_db\<lparr>ed_flows := (ed_flows empty_enroll_db)(take 32 ent_state \<mapsto>
     \<lparr>lf_expires = 5 * minute, lf_consumed = None\<rparr>)\<rparr>)" for ws f b
    by (rule opened) (simp_all add: empty_enroll_db_def)
  moreover have "empty_enroll_db\<lparr>ed_flows := (ed_flows empty_enroll_db)(take 32 ent_state \<mapsto> \<lparr>lf_expires = 5 * minute, lf_consumed = None\<rparr>)\<rparr> = ent_db1"
    by (simp add: ent_db1_def empty_enroll_db_def)
  ultimately show ?thesis by (metis r_into_rtranclp)
qed

lemma ent_alone: "callback_others fresh iss ent_cfg ent_callback"
  by (simp add: callback_others_def quiet_between_def ent_callback_def ent_quiet_def)

theorem sign_in_evidence_witness:
  "(\<exists>m. ed_members ent_db3 (''w'', ''g'', ''42'') = Some m \<and> mb_active m)
   \<and> ea_session (fst (callback_login ent_cfg ent_web ''g'' ent_callback ent_back ent_db3)) = None"
proof -
  have none: "ew_sha ent_web (form_get (cq_query ent_back) ''state'') \<notin> {}" by simp
  have some: "ea_session \<lparr>ea_page = Found_redirect ''/library'', ea_flow = Flow_cleared, ea_session = Some (''42'', 480 * minute)\<rparr> = Some (''42'', 480 * minute)"
    by simp
  from sign_in_evidence [OF ent_reached ent_alone none ent_signed_in some] show ?thesis
    unfolding ent_github ent_cfg_sel by blast
qed

text \<open>The founder invites account 7.\<close>

definition ent_db4 :: enroll_db where
  "ent_db4 = ent_db3\<lparr>ed_invites := [(''w'', replicate 32 CHR ''i'') \<mapsto> \<lparr>iv_account = ''7'', iv_role = ''reader'',
     iv_scopes = normalize_scopes [''catalog:read''], iv_by = ''42'', iv_expires = 60 * minute, iv_consumed = None\<rparr>]\<rparr>"

definition ent_db5 :: enroll_db where
  "ent_db5 = (case redeem_invitation ''w'' ''g'' ''7'' (replicate 32 CHR ''i'') 9 ent_db4 of Inr db \<Rightarrow> db | Inl x \<Rightarrow> ent_db4)"

lemma ent_invited: "create_invitation ent_quiet ''g'' ''w'' ''42'' ''7'' ''reader'' [''catalog:read''] (replicate 32 CHR ''i'') (60 * minute) ent_db3 = (None, ent_db4)"
proof -
  have "scope_subset (normalize_scopes [''catalog:read'']) (normalize_scopes default_scopes)" by code_simp
  then show ?thesis
    by (simp add: create_invitation_def ent_quiet_def ent_db3_def ent_db4_def ent_db2_def empty_enroll_db_def minute_def second_def)
qed

lemma ent_redeemed: "redeem_invitation ''w'' ''g'' ''7'' (replicate 32 CHR ''i'') 9 ent_db4 = Inr ent_db5"
  "ed_members ent_db5 (''w'', ''g'', ''7'') = Some \<lparr>mb_role = ''reader'', mb_scopes = normalize_scopes [''catalog:read''], mb_active = True, mb_generation = 1\<rparr>"
  by (simp_all add: ent_db5_def redeem_invitation_def ent_db4_def ent_db3_def add_member_def minute_def second_def)

lemma ent_run5: "enroll_run UNIV ''g'' ent_cfg empty_enroll_db ent_db5"
proof -
  have "enroll_run UNIV ''g'' ent_cfg ent_db1 ent_db2" by (rule consume_flow_run [OF ent_consumed])
  moreover have "enroll_run UNIV ''g'' ent_cfg ent_db2 ent_db3" using founded [OF ent_founded] by (simp add: ent_cfg_sel r_into_rtranclp)
  moreover have "enroll_run UNIV ''g'' ent_cfg ent_db3 ent_db4" using create_invitation_run [OF ent_invited] by (simp add: ent_cfg_sel)
  moreover have "enroll_run UNIV ''g'' ent_cfg ent_db4 ent_db5" using redeemed [OF ent_redeemed(1)] by (simp add: ent_cfg_sel r_into_rtranclp)
  ultimately show ?thesis using ent_reached by (meson rtranclp_trans)
qed

theorem enrollment_delegates_within_scopes_witness:
  "admitted_by ''g'' ''w'' ent_db5 ''7'' \<lparr>mb_role = ''reader'', mb_scopes = normalize_scopes [''catalog:read''], mb_active = True, mb_generation = 1\<rparr>
   \<and> set (normalize_scopes [''catalog:read'']) \<subseteq> set default_scopes"
proof -
  from enrollment_delegates_within_scopes [OF ent_run5, THEN conjunct1] ent_redeemed(2)
  have "set (mb_scopes \<lparr>mb_role = ''reader'', mb_scopes = normalize_scopes [''catalog:read''], mb_active = True, mb_generation = 1\<rparr>) \<subseteq> set default_scopes
    \<and> (''7'' = ''42'' \<or> admitted_by ''g'' ''w'' ent_db5 ''7'' \<lparr>mb_role = ''reader'', mb_scopes = normalize_scopes [''catalog:read''], mb_active = True, mb_generation = 1\<rparr>)"
    unfolding ent_cfg_sel by blast
  then show ?thesis by simp
qed

end
