(* ===== verification/TaskPreparation.thy ===== *)
theory TaskPreparation
  imports Complex_Main Assembly Resolution Discovery "HOL-Library.AList"
begin

text \<open>
  \<open>catalog/preparation/preparation.go\<close>: choosing the maintained skill for an intent and assembling its context. Every
  port (catalog, authorizer, retriever, resolver, embedder, readiness and admission of the caller, clock) may answer
  differently at every call: an answer is a function of the calls made before (\<open>task_event\<close>), which every step threads
  and extends. Parameters: those answers, SHA-256, the decoding and encoding of JSON that is not written out, the
  Unicode table and the square root. Scores are exact rationals; a component of a vector is none if it is NaN or infinite.
\<close>

record task_request =
  kq_principal :: principal_rec
  kq_intent :: string
  kq_runtime :: string
  kq_mode :: string
  kq_guide :: bool
  kq_fallback :: string
  kq_max_bytes :: int
  kq_top_k :: int
  kq_catalog_version :: string
  kq_recipe_version :: string

record readiness_scope =
  rd_principal :: string
  rd_runtime :: string
  rd_skill :: artifact_ref
  rd_closure :: string

record readiness_decision =
  ry_scope :: readiness_scope
  ry_ready :: bool
  ry_generation :: string
  ry_checked_at :: int
  ry_valid_until :: int

record admission_decision =
  ay_scope :: string
  ay_admitted :: bool
  ay_generation :: string
  ay_checked_at :: int
  ay_valid_until :: int

record task_service =
  ks_wired :: bool
  ks_model :: string
  ks_embedder :: bool
  ks_readiness :: bool
  ks_clock :: bool
  ks_readiness_age :: int
  ks_admitter :: bool
  ks_admission_age :: int

record contract_bytes =
  cb_ref :: artifact_ref
  cb_digest :: digest
  cb_bytes :: string

record task_bundle =
  kb_skill :: skill_package
  kb_resolution :: res_result
  kb_contracts :: "contract_bytes list"
  kb_guide :: string

text \<open>The fields of \<open>Provenance\<close> that are copied from the request and the service are left out; the rest is in the result.\<close>

record task_result =
  kr_status :: string
  kr_candidates :: "(artifact_ref \<times> rat) list"
  kr_selected :: "task_bundle option"
  kr_findings :: "string list"
  kr_mode :: string
  kr_skill_pin :: "artifact_pin option"
  kr_package_digest :: string
  kr_contracts :: "(artifact_ref \<times> digest) list"

datatype task_event =
  Scanned
| Decided artifact_ref bool
| Fetched artifact_ref
| Lexed
| Embedded string "string list"
| Resolved bool
| Readied readiness_scope
| Admitted string
| Clocked
| Packaged artifact_pin
| Fetched_bytes artifact_ref

type_synonym task_log = "task_event list"

type_synonym vector = "rat option list"

record task_world =
  kw_live :: bool
  kw_scan :: "task_log \<Rightarrow> string + search_page"
  kw_decide :: "task_log \<Rightarrow> principal_rec \<Rightarrow> string \<Rightarrow> artifact_ref \<Rightarrow> string + decision"
  kw_get :: "task_log \<Rightarrow> artifact_ref \<Rightarrow> string + catalog_record"
  kw_lex :: "task_log \<Rightarrow> discovery_env \<times> int"
  kw_embed :: "task_log \<Rightarrow> string \<Rightarrow> string list \<Rightarrow> string + (string \<times> vector list)"
  kw_resolve :: "task_log \<Rightarrow> res_request \<Rightarrow> string + res_result"
  kw_ready :: "task_log \<Rightarrow> readiness_scope \<Rightarrow> res_result \<Rightarrow> string + readiness_decision"
  kw_admit :: "task_log \<Rightarrow> string \<Rightarrow> string + admission_decision"
  kw_now :: "task_log \<Rightarrow> int"
  kw_package :: "task_log \<Rightarrow> retrieval_world \<times> retrieval_world"
  kw_bytes :: "task_log \<Rightarrow> retrieval_world"

text \<open>What does not change: \<open>kc_hash\<close> is the hexadecimal SHA-256; \<open>kc_names\<close> decodes the logical name and summary of a
  record, \<open>kc_requirements\<close> the runtime requirements of a manifest, \<open>kc_schemas\<close> the input and output schema of a tool,
  \<open>kc_object\<close> tells a JSON object from anything else; \<open>kc_manifest\<close> is the manifest embedded from \<open>catalog/skills\<close>.\<close>

record task_codec =
  kc_lower :: "nat \<Rightarrow> nat"
  kc_hash :: "string \<Rightarrow> string"
  kc_package :: package_codec
  kc_manifest :: string
  kc_names :: "string \<Rightarrow> (string \<times> string) option"
  kc_requirements :: "string \<Rightarrow> (bool \<times> string list) option"
  kc_schemas :: "string \<Rightarrow> (string \<times> string) option"
  kc_object :: "string \<Rightarrow> bool"
  kc_root :: "rat \<Rightarrow> rat"
  kc_result :: "task_result \<Rightarrow> string option"

subsection \<open>Calls in sequence\<close>

type_synonym 'a task_run = "task_log \<Rightarrow> (string + 'a) \<times> task_log"

definition run_ret :: "'a \<Rightarrow> 'a task_run" where
  "run_ret x h = (Inr x, h)"

definition run_fail :: "string \<Rightarrow> 'a task_run" where
  "run_fail e h = (Inl e, h)"

definition run_then :: "'a task_run \<Rightarrow> ('a \<Rightarrow> 'b task_run) \<Rightarrow> 'b task_run" where
  "run_then m f h = (case m h of (Inl e, h') \<Rightarrow> (Inl e, h') | (Inr x, h') \<Rightarrow> f x h')"

fun run_each :: "('a \<Rightarrow> unit task_run) \<Rightarrow> 'a list \<Rightarrow> unit task_run" where
  "run_each f [] = run_ret ()"
| "run_each f (x # xs) = run_then (f x) (\<lambda>_. run_each f xs)"

definition fetch_record :: "task_world \<Rightarrow> artifact_ref \<Rightarrow> catalog_record task_run" where
  "fetch_record w ref h = (kw_get w h ref, h @ [Fetched ref])"

definition ask_read :: "task_world \<Rightarrow> principal_rec \<Rightarrow> artifact_ref \<Rightarrow> bool task_run" where
  "ask_read w p ref h =
     (case kw_decide w h p action_read ref of
        Inl e \<Rightarrow> (Inl e, h @ [Decided ref False])
      | Inr d \<Rightarrow> (Inr (dc_allowed d), h @ [Decided ref (dc_allowed d)]))"

definition read_clock :: "task_world \<Rightarrow> int task_run" where
  "read_clock w h = (Inr (kw_now w h), h @ [Clocked])"

definition call_embed :: "task_world \<Rightarrow> string \<Rightarrow> string list \<Rightarrow> (string \<times> vector list) task_run" where
  "call_embed w purpose texts h = (kw_embed w h purpose texts, h @ [Embedded purpose texts])"

definition call_resolve :: "task_world \<Rightarrow> res_request \<Rightarrow> res_result task_run" where
  "call_resolve w rq h = (kw_resolve w h rq, h @ [Resolved (rr_owned_connections rq)])"

subsection \<open>Permission\<close>

definition authorized :: "task_world \<Rightarrow> principal_rec \<Rightarrow> artifact_ref \<Rightarrow> unit task_run" where
  "authorized w p ref = run_then (ask_read w p ref)
     (\<lambda>ok. if ok then run_ret () else run_fail ''preparation: denied current artifact'')"

definition recheck :: "task_world \<Rightarrow> principal_rec \<Rightarrow> catalog_record \<Rightarrow> unit task_run" where
  "recheck w p old = run_then (fetch_record w (cr_ref old)) (\<lambda>now.
     if cr_ref now \<noteq> cr_ref old \<or> cr_digest now \<noteq> cr_digest old \<or> cr_manifest_digest now \<noteq> cr_manifest_digest old
        \<or> cr_package_digest now \<noteq> cr_package_digest old \<or> cr_metadata now \<noteq> cr_metadata old \<or> \<not> listed_state (cr_state now)
     then run_fail ''preparation: candidate changed during preparation''
     else authorized w p (cr_ref old))"

definition sha_matches :: "task_codec \<Rightarrow> string \<Rightarrow> digest \<Rightarrow> bool" where
  "sha_matches cx raw d \<longleftrightarrow> dg_algorithm d = ''sha256'' \<and> dg_value d = kc_hash cx raw"

definition unsupported_words :: "string list" where
  "unsupported_words = [''send '', ''draft '', ''delete '', ''label '', ''mark read'', ''attachment'', ''follow link'', ''click '', ''execute '',
     ''password'', ''secret'']"

definition unsupported_intent :: "task_codec \<Rightarrow> string \<Rightarrow> bool" where
  "unsupported_intent cx intent = list_ex (go_contains (go_tolower (kc_lower cx) intent)) unsupported_words"

definition ref_key :: "artifact_ref \<Rightarrow> string" where
  "ref_key r = ar_kind r @ '':'' @ ar_id r @ ''@'' @ ar_version r"

type_synonym skill_table = "(artifact_ref \<times> catalog_record) list"

text \<open>The records of the page that the caller may read now; \<open>records\<close> of the code.\<close>

fun admit_records :: "task_codec \<Rightarrow> task_world \<Rightarrow> principal_rec \<Rightarrow> catalog_record list \<Rightarrow> skill_table \<Rightarrow> skill_table task_run" where
  "admit_records cx w p [] acc = run_ret acc"
| "admit_records cx w p (r # rs) acc =
     (if ar_workspace (cr_ref r) \<noteq> pn_workspace p then run_fail ''preparation: foreign workspace in index''
      else if ar_kind (cr_ref r) \<noteq> kind_skill \<or> \<not> listed_state (cr_state r) then admit_records cx w p rs acc
      else run_then (ask_read w p (cr_ref r)) (\<lambda>ok.
        if \<not> ok then admit_records cx w p rs acc
        else run_then (fetch_record w (cr_ref r)) (\<lambda>cur.
          if cr_ref cur \<noteq> cr_ref r then run_fail ''preparation: current candidate identity mismatch''
          else if \<not> listed_state (cr_state cur) then admit_records cx w p rs acc
          else if cr_digest cur \<noteq> cr_digest r \<or> cr_manifest_digest cur \<noteq> cr_manifest_digest r then admit_records cx w p rs acc
          else if \<not> sha_matches cx (cr_metadata cur) (cr_manifest_digest cur)
          then run_fail ''preparation: current skill metadata is not immutable manifest bytes''
          else run_then (authorized w p (cr_ref cur)) (\<lambda>_. admit_records cx w p rs (AList.update (cr_ref cur) cur acc)))))"

subsection \<open>Ranking\<close>

definition zero_record :: catalog_record where
  "zero_record = (let d = \<lparr>dg_algorithm = [], dg_value = []\<rparr> in
     \<lparr>cr_ref = \<lparr>ar_workspace = [], ar_kind = [], ar_id = [], ar_version = []\<rparr>, cr_state = [], cr_digest = d, cr_manifest_digest = d,
      cr_document_digest = d, cr_package_digest = d, cr_object_key = [], cr_artifact_size = 0, cr_metadata = []\<rparr>)"

definition record_at :: "skill_table \<Rightarrow> artifact_ref \<Rightarrow> catalog_record" where
  "record_at tb ref = (case map_of tb ref of Some r \<Rightarrow> r | None \<Rightarrow> zero_record)"

definition candidate_before :: "artifact_ref \<times> rat \<Rightarrow> artifact_ref \<times> rat \<Rightarrow> bool" where
  "candidate_before a b = (if snd a \<noteq> snd b then snd a > snd b else ref_key (fst a) < ref_key (fst b))"

definition sort_candidates :: "(artifact_ref \<times> rat) list \<Rightarrow> (artifact_ref \<times> rat) list" where
  "sort_candidates = stable_sort candidate_before"

text \<open>\<open>cosine\<close>: the three sums of the loop, and the quotient.\<close>

fun dot_product :: "vector \<Rightarrow> vector \<Rightarrow> rat option" where
  "dot_product (Some x # xs) (Some y # ys) = map_option (\<lambda>s. x * y + s) (dot_product xs ys)"
| "dot_product [] [] = Some 0"
| "dot_product _ _ = None"

definition cosine :: "(rat \<Rightarrow> rat) \<Rightarrow> vector \<Rightarrow> vector \<Rightarrow> string + rat" where
  "cosine rtf a b =
     (if length a \<noteq> length b \<or> (length a \<noteq> 256 \<and> length a \<noteq> 768) then Inl ''embedding dimension mismatch''
      else case (dot_product a b, dot_product a a, dot_product b b) of
        (Some d, Some aa, Some bb) \<Rightarrow> if aa = 0 \<or> bb = 0 then Inl ''zero embedding'' else Inr (d / rtf (aa * bb))
      | _ \<Rightarrow> Inl ''invalid embedding value'')"

fun score_documents :: "(rat \<Rightarrow> rat) \<Rightarrow> vector \<Rightarrow> (artifact_ref \<times> vector) list \<Rightarrow> string + (artifact_ref \<times> rat) list" where
  "score_documents rtf q [] = Inr []"
| "score_documents rtf q ((ref, v) # rest) =
     (case cosine rtf q v of
        Inl e \<Rightarrow> Inl e
      | Inr s \<Rightarrow> (case score_documents rtf q rest of
            Inl e \<Rightarrow> Inl e
          | Inr cs \<Rightarrow> Inr (if 3 / 10 \<le> s then (ref, s) # cs else cs)))"

definition skill_text :: "task_codec \<Rightarrow> catalog_record \<Rightarrow> string option" where
  "skill_text cx r = (case kc_names cx (cr_metadata r) of None \<Rightarrow> None | Some (n, s) \<Rightarrow> Some (n @ '' '' @ s))"

fun skill_texts :: "task_codec \<Rightarrow> skill_table \<Rightarrow> artifact_ref list \<Rightarrow> string + string list" where
  "skill_texts cx tb [] = Inr []"
| "skill_texts cx tb (ref # refs) =
     (case skill_text cx (record_at tb ref) of
        None \<Rightarrow> Inl ''unmarshal''
      | Some t \<Rightarrow>
          if length t > 8192 then Inl ''catalog description exceeds embedding input budget''
          else (case skill_texts cx tb refs of Inl e \<Rightarrow> Inl e | Inr ts \<Rightarrow> Inr (t # ts)))"

definition run_sum :: "string + 'a \<Rightarrow> 'a task_run" where
  "run_sum r h = (r, h)"

definition semantic_ranking :: "task_codec \<Rightarrow> task_service \<Rightarrow> task_world \<Rightarrow> task_request \<Rightarrow> skill_table \<Rightarrow> (artifact_ref \<times> rat) list task_run" where
  "semantic_ranking cx sv w rq tb =
     (if \<not> ks_embedder sv \<or> ks_model sv = [] then run_fail ''no explicit embedding adapter/model''
      else let refs = sort_key ref_key (map fst tb); again = run_each (\<lambda>ref. recheck w (kq_principal rq) (record_at tb ref)) refs in
        run_then (run_sum (skill_texts cx tb refs)) (\<lambda>texts.
        run_then again (\<lambda>_.
        run_then (call_embed w ''document'' texts) (\<lambda>(dm, dv).
        run_then again (\<lambda>_.
        run_then (call_embed w ''query'' [kq_intent rq]) (\<lambda>(qm, qv).
          if dm \<noteq> ks_model sv \<or> qm \<noteq> ks_model sv \<or> length dv \<noteq> length refs \<or> length qv \<noteq> 1
          then run_fail ''embedding model/index identity mismatch''
          else run_then (run_sum (score_documents (kc_root cx) (hd qv) (zip refs dv))) (\<lambda>cs. run_ret (sort_candidates cs))))))))"

text \<open>Ranks by the lexical index, from one, of the records of the table.\<close>

fun lexical_ranks :: "skill_table \<Rightarrow> nat \<Rightarrow> candidate list \<Rightarrow> (artifact_ref \<times> nat) list \<Rightarrow> (artifact_ref \<times> nat) list" where
  "lexical_ranks tb i [] acc = acc"
| "lexical_ranks tb i (c # cs) acc =
     lexical_ranks tb (Suc i) cs (if map_of tb (cd_ref c) \<noteq> None then AList.update (cd_ref c) (Suc i) acc else acc)"

definition add_score :: "artifact_ref \<Rightarrow> rat \<Rightarrow> (artifact_ref \<times> rat) list \<Rightarrow> (artifact_ref \<times> rat) list" where
  "add_score ref s u = AList.update ref ((case map_of u ref of Some x \<Rightarrow> x | None \<Rightarrow> 0) + s) u"

fun fuse_semantic :: "nat \<Rightarrow> (artifact_ref \<times> rat) list \<Rightarrow> (artifact_ref \<times> rat) list \<Rightarrow> (artifact_ref \<times> rat) list" where
  "fuse_semantic i [] u = u"
| "fuse_semantic i ((ref, _) # cs) u = fuse_semantic (Suc i) cs (add_score ref (1 / of_nat (60 + i + 1)) u)"

definition fuse_ranks :: "(artifact_ref \<times> rat) list \<Rightarrow> (artifact_ref \<times> nat) list \<Rightarrow> (artifact_ref \<times> rat) list" where
  "fuse_ranks semantic ranks = fold (\<lambda>(ref, k). add_score ref (1 / of_nat (60 + k))) ranks (fuse_semantic 0 semantic [])"

definition rank_candidates :: "string \<Rightarrow> (artifact_ref \<times> rat) list \<Rightarrow> (artifact_ref \<times> nat) list \<Rightarrow> (artifact_ref \<times> rat) list" where
  "rank_candidates mode semantic ranks =
     sort_candidates (if mode = ''lexical'' then semantic @ map (\<lambda>(ref, k). (ref, 1 / of_nat k)) ranks
       else if mode = ''hybrid'' then fuse_ranks semantic ranks else semantic)"

definition ambiguous :: "(artifact_ref \<times> rat) list \<Rightarrow> bool" where
  "ambiguous cs = (case cs of (_, a) # (_, b) # _ \<Rightarrow> \<bar>a - b\<bar> < 1 / 10 ^ 12 | _ \<Rightarrow> False)"

subsection \<open>The caller's readiness and admission\<close>

definition json_principal :: "principal_rec \<Rightarrow> string" where
  "json_principal p = json_object [(''Issuer'', Some (json_string (pn_issuer p))), (''Subject'', Some (json_string (pn_subject p))),
     (''Audience'', Some (json_string (pn_audience p))), (''WorkspaceID'', Some (json_string (pn_workspace p))),
     (''Scopes'', Some (if pn_scopes p = [] then ''null'' else json_list (map json_string (pn_scopes p)))),
     (''PolicyGeneration'', Some (json_int (int (pn_generation p)))), (''SubjectType'', Some (json_string (pn_subject_type p)))]"

definition ordered_scopes :: "principal_rec \<Rightarrow> principal_rec" where
  "ordered_scopes p = p\<lparr>pn_scopes := sort (pn_scopes p)\<rparr>"

definition closure_pins :: "res_result \<Rightarrow> res_pin list" where
  "closure_pins r = rs_skill r # concat (map rf_closure (rs_findings r))"

definition readiness_scope_of :: "task_codec \<Rightarrow> task_request \<Rightarrow> artifact_ref \<Rightarrow> res_result \<Rightarrow> readiness_scope" where
  "readiness_scope_of cx rq skill r =
     \<lparr>rd_principal = kc_hash cx (json_principal (ordered_scopes (kq_principal rq))), rd_runtime = kq_runtime rq, rd_skill = skill,
      rd_closure = kc_hash cx (json_list (map json_pin (sort_key (\<lambda>p. rp_kind p @ '':'' @ rp_reference p) (closure_pins r))))\<rparr>"

text \<open>Checked at a time that is not the zero time, not in the future and not too old, and still valid.\<close>

definition still_fresh :: "int \<Rightarrow> int \<Rightarrow> int \<Rightarrow> int \<Rightarrow> bool" where
  "still_fresh checked valid now age \<longleftrightarrow> \<not> checked > now \<and> now - checked \<le> age \<and> valid > now"

definition call_ready :: "task_world \<Rightarrow> readiness_scope \<Rightarrow> res_result \<Rightarrow> readiness_decision task_run" where
  "call_ready w sc r h = (kw_ready w h sc r, h @ [Readied sc])"

definition resolve_input :: "task_request \<Rightarrow> artifact_ref \<Rightarrow> bool \<Rightarrow> res_request" where
  "resolve_input rq skill owned = \<lparr>rr_principal = kq_principal rq, rr_skill = skill, rr_runtime = kq_runtime rq, rr_owned_connections = owned,
     rr_max_bytes = kq_max_bytes rq, rr_lease = 60 * 10 ^ 9\<rparr>"

definition resolve_current :: "task_codec \<Rightarrow> task_service \<Rightarrow> task_world \<Rightarrow> task_request \<Rightarrow> artifact_ref \<Rightarrow> (res_result \<times> string) task_run" where
  "resolve_current cx sv w rq skill =
     run_then (call_resolve w (resolve_input rq skill False)) (\<lambda>baseline.
     if \<not> ks_readiness sv then run_ret (baseline, [])
     else if \<not> ks_clock sv \<or> ks_readiness_age sv \<le> 0 then run_fail ''preparation: current readiness requires explicit clock/freshness''
     else let scope = readiness_scope_of cx rq skill baseline in
       run_then (call_ready w scope baseline) (\<lambda>d.
       run_then (read_clock w) (\<lambda>now.
         if ry_scope d \<noteq> scope \<or> ry_generation d = [] \<or> ry_checked_at d = 0
            \<or> \<not> still_fresh (ry_checked_at d) (ry_valid_until d) now (ks_readiness_age sv)
         then run_fail ''preparation: stale or mismatched current readiness''
         else if \<not> ry_ready d then run_ret (baseline\<lparr>rs_status := status_incomplete\<rparr>, ry_generation d)
         else run_then (call_resolve w (resolve_input rq skill True)) (\<lambda>resolved.
           run_then (read_clock w) (\<lambda>final.
             if \<not> still_fresh (ry_checked_at d) (ry_valid_until d) final (ks_readiness_age sv)
             then run_fail ''preparation: readiness expired during resolution''
             else if readiness_scope_of cx rq skill resolved \<noteq> scope then run_fail ''preparation: closure changed during readiness check''
             else run_ret (resolved, ry_generation d))))))"

definition skill_id :: string where "skill_id = ''zati/inbox-briefing''"
definition skill_version :: string where "skill_version = ''1.0.0''"
definition inbox_capability :: string where "inbox_capability = ''mail/inbox/read''"
definition inbox_capability_version :: string where "inbox_capability_version = ''1.0.0''"

definition admission_query :: "task_request \<Rightarrow> artifact_pin \<Rightarrow> string" where
  "admission_query rq pin = json_object [(''Principal'', Some (json_principal (ordered_scopes (kq_principal rq)))),
     (''Intent'', Some (json_string (kq_intent rq))), (''RuntimeID'', Some (json_string (kq_runtime rq))),
     (''RecipeVersion'', Some (json_string (kq_recipe_version rq))), (''Skill'', Some (json_artifact_pin pin)),
     (''RequiredCapabilities'', Some (json_list [json_ref \<lparr>ar_workspace = pn_workspace (kq_principal rq), ar_kind = kind_capability,
        ar_id = inbox_capability, ar_version = inbox_capability_version\<rparr>])), (''ScopeDigest'', Some (json_string []))]"

definition call_admit :: "task_world \<Rightarrow> string \<Rightarrow> admission_decision task_run" where
  "call_admit w scope h = (kw_admit w h scope, h @ [Admitted scope])"

definition admit_task :: "task_codec \<Rightarrow> task_service \<Rightarrow> task_world \<Rightarrow> task_request \<Rightarrow> artifact_pin \<Rightarrow> (string \<times> bool) task_run" where
  "admit_task cx sv w rq pin =
     (if \<not> ks_admitter sv then run_ret ([], False)
      else if \<not> ks_clock sv \<or> ks_admission_age sv \<le> 0 then run_fail ''preparation: task admission requires explicit clock/freshness''
      else let scope = kc_hash cx (admission_query rq pin) in
        run_then (call_admit w scope) (\<lambda>d.
        run_then (read_clock w) (\<lambda>now.
          if ay_scope d \<noteq> scope \<or> ay_generation d = [] \<or> ay_checked_at d = 0
             \<or> \<not> still_fresh (ay_checked_at d) (ay_valid_until d) now (ks_admission_age sv)
          then run_fail ''preparation: stale or mismatched caller task admission''
          else run_ret (ay_generation d, ay_admitted d))))"

subsection \<open>The contracts of the closure\<close>

definition no_digest_value :: digest where
  "no_digest_value = \<lparr>dg_algorithm = [], dg_value = []\<rparr>"

definition logical_manifest :: "task_codec \<Rightarrow> catalog_record \<Rightarrow> digest" where
  "logical_manifest cx r =
     (if digest_ok (cr_manifest_digest r) then cr_manifest_digest r
      else if ar_kind (cr_ref r) \<noteq> kind_skill \<and> digest_ok (cr_document_digest r) \<and> sha_matches cx (cr_metadata r) (cr_document_digest r)
      then cr_document_digest r
      else no_digest_value)"

definition schemas_complete :: "task_codec \<Rightarrow> string \<Rightarrow> string option" where
  "schemas_complete cx raw =
     (case kc_schemas cx raw of
        None \<Rightarrow> Some ''unmarshal''
      | Some (i, out) \<Rightarrow> if kc_object cx i \<and> kc_object cx out then None
          else Some ''preparation: complete input/output tool schemas required'')"

definition fetch_bytes :: "task_world \<Rightarrow> principal_rec \<Rightarrow> artifact_ref \<Rightarrow> int \<Rightarrow> envelope task_run" where
  "fetch_bytes w p ref m h = (retrieve (kw_bytes w h) p ref m, h @ [Fetched_bytes ref])"

text \<open>The contract with the manifest digest recorded for it.\<close>

type_synonym pinned_contract = "contract_bytes \<times> digest"

definition check_contract :: "task_codec \<Rightarrow> task_world \<Rightarrow> task_request \<Rightarrow> artifact_ref \<Rightarrow> res_pin \<Rightarrow> pinned_contract task_run" where
  "check_contract cx w rq ref item =
     run_then (authorized w (kq_principal rq) ref) (\<lambda>_.
     run_then (fetch_bytes w (kq_principal rq) ref (kq_max_bytes rq)) (\<lambda>env.
       if cr_digest (en_record env) \<noteq> rp_digest item \<or> logical_manifest cx (en_record env) \<noteq> rp_manifest item
          \<or> \<not> sha_matches cx (en_bytes env) (rp_digest item)
       then run_fail ''preparation: contract bytes differ from pinned resolution''
       else case (if ar_kind ref = kind_tool then schemas_complete cx (en_bytes env) else None) of
         Some e \<Rightarrow> run_fail e
       | None \<Rightarrow> run_ret (\<lparr>cb_ref = ref, cb_digest = rp_digest item, cb_bytes = en_bytes env\<rparr>, rp_manifest item)))"

fun collect_items :: "task_codec \<Rightarrow> task_world \<Rightarrow> task_request \<Rightarrow> res_pin list \<Rightarrow> pinned_contract list \<Rightarrow> pinned_contract list task_run" where
  "collect_items cx w rq [] acc = run_ret acc"
| "collect_items cx w rq (item # items) acc =
     (case parse_ref (pn_workspace (kq_principal rq)) (rp_kind item) (rp_reference item) of
        None \<Rightarrow> run_fail ''invalid closure reference''
      | Some ref \<Rightarrow>
          if ref \<in> (cb_ref \<circ> fst) ` set acc then collect_items cx w rq items acc
          else run_then (check_contract cx w rq ref item) (\<lambda>c. collect_items cx w rq items (acc @ [c])))"

fun collect_findings :: "task_codec \<Rightarrow> task_world \<Rightarrow> task_request \<Rightarrow> res_finding list \<Rightarrow> pinned_contract list \<Rightarrow> pinned_contract list task_run" where
  "collect_findings cx w rq [] acc = run_ret acc"
| "collect_findings cx w rq (f # fs) acc =
     (if rf_required f \<and> rf_status f \<noteq> status_ready then run_fail ''preparation: incomplete required closure''
      else run_then (collect_items cx w rq (rf_closure f) acc) (\<lambda>acc'. collect_findings cx w rq fs acc'))"

definition recheck_contract :: "task_codec \<Rightarrow> task_world \<Rightarrow> task_request \<Rightarrow> pinned_contract \<Rightarrow> unit task_run" where
  "recheck_contract cx w rq c =
     run_then (fetch_record w (cb_ref (fst c))) (\<lambda>now.
       if cr_ref now \<noteq> cb_ref (fst c) \<or> logical_manifest cx now \<noteq> snd c \<or> cr_digest now \<noteq> cb_digest (fst c) \<or> \<not> listed_state (cr_state now)
       then run_fail ''preparation: closure changed during assembly''
       else authorized w (kq_principal rq) (cb_ref (fst c)))"

text \<open>The findings are compared by their encoding; a resolution without findings encodes as \<open>null\<close>.\<close>

definition same_resolution :: "res_result \<Rightarrow> res_result \<Rightarrow> bool" where
  "same_resolution a b \<longleftrightarrow> rs_status a = rs_status b \<and> rs_skill a = rs_skill b
     \<and> json_list (map json_finding (rs_findings a)) = json_list (map json_finding (rs_findings b))"

subsection \<open>Preparing\<close>

definition recipe_name :: string where "recipe_name = ''inbox-v1''"

definition task_request_ok :: "task_codec \<Rightarrow> task_service \<Rightarrow> task_request \<Rightarrow> bool" where
  "task_request_ok cx sv rq \<longleftrightarrow> \<not> (\<not> ks_wired sv \<or> pn_workspace (kq_principal rq) = [] \<or> pn_subject (kq_principal rq) = []
     \<or> pn_generation (kq_principal rq) = 0 \<or> go_trim_space (kq_intent rq) = [] \<or> length (kq_intent rq) > 8192
     \<or> kq_max_bytes rq \<le> 0 \<or> kq_max_bytes rq > 65536 \<or> kq_catalog_version rq = [] \<or> kq_runtime rq = []
     \<or> kq_recipe_version rq \<noteq> recipe_name \<or> kq_top_k rq \<le> 0 \<or> kq_top_k rq > 16
     \<or> kq_mode rq \<notin> {''lexical'', ''semantic'', ''hybrid''} \<or> kq_fallback rq \<notin> {''deny'', ''lexical''})"

definition task_status :: "task_request \<Rightarrow> string \<Rightarrow> string list \<Rightarrow> task_result" where
  "task_status rq st fs = \<lparr>kr_status = st, kr_candidates = [], kr_selected = None, kr_findings = fs, kr_mode = kq_mode rq,
     kr_skill_pin = None, kr_package_digest = [], kr_contracts = []\<rparr>"

definition scan_catalog :: "task_world \<Rightarrow> search_page task_run" where
  "scan_catalog w h = (kw_scan w h, h @ [Scanned])"

definition discovery_of :: "task_request \<Rightarrow> discovery_request" where
  "discovery_of rq = \<lparr>dr_principal = kq_principal rq, dr_query = kq_intent rq, dr_kinds = [kind_skill], dr_tags = [], dr_cursor = empty_cursor,
     dr_limit = 100, dr_max_bytes = 65536\<rparr>"

definition search_lexical :: "task_world \<Rightarrow> task_request \<Rightarrow> candidate list task_run" where
  "search_lexical w rq h =
     (case kw_lex w h of (env, now) \<Rightarrow>
       (case discover env now (discovery_of rq) of
          Inl e \<Rightarrow> (Inl ''discovery'', h @ [Lexed])
        | Inr d \<Rightarrow> (Inr (dp_candidates d), h @ [Lexed])))"

definition fetch_package :: "task_codec \<Rightarrow> task_world \<Rightarrow> principal_rec \<Rightarrow> artifact_pin \<Rightarrow> skill_package task_run" where
  "fetch_package cx w p pin h =
     (case kw_package w h of (now, later) \<Rightarrow>
       (retrieve_skill (kc_package cx) now later p pin \<lparr>pl_package = 65536, pl_file = 65536, pl_files = 64\<rparr>, h @ [Packaged pin]))"

definition guide_of :: "artifact_ref \<Rightarrow> skill_package \<Rightarrow> string" where
  "guide_of chosen pkg = ''Recipe inbox-v1: list unread messages, then read at most 20 selected messages; prepare the maintained briefing template. Never send, draft, label, mark read, delete, follow links or fetch attachments. Tool calls remain subject to caller approval.''
     @ [CHR 0x0A] @ ''Sources: '' @ ar_id chosen @ ''@'' @ ar_version chosen @ ''; package sha256:'' @ pk_digest pkg"

text \<open>The end: everything is checked again after all reading, and the size of the answer.\<close>

definition confirm_task ::
  "task_codec \<Rightarrow> task_service \<Rightarrow> task_world \<Rightarrow> task_request \<Rightarrow> skill_table \<Rightarrow> task_result \<Rightarrow> artifact_pin \<Rightarrow> string \<Rightarrow> res_result \<Rightarrow> string
   \<Rightarrow> skill_package \<Rightarrow> pinned_contract list \<Rightarrow> task_result task_run" where
  "confirm_task cx sv w rq tb out pin task_generation resolved connection_generation pkg contracts =
     (let chosen = ap_ref pin; plain = map fst contracts;
          bundle = \<lparr>kb_skill = pkg, kb_resolution = resolved, kb_contracts = plain, kb_guide = (if kq_guide rq then guide_of chosen pkg else [])\<rparr> in
      run_then (run_each (\<lambda>c. recheck w (kq_principal rq) (record_at tb (fst c))) (kr_candidates out)) (\<lambda>_.
      run_then (run_each (recheck_contract cx w rq) contracts) (\<lambda>_.
      run_then (resolve_current cx sv w rq chosen) (\<lambda>(refreshed, final_generation).
        if connection_generation \<noteq> final_generation \<or> \<not> same_resolution resolved refreshed
        then run_fail ''preparation: current bindings or connection changed''
        else run_then (admit_task cx sv w rq pin) (\<lambda>(final_task, admitted).
          if \<not> admitted \<or> final_task \<noteq> task_generation
          then run_fail ''preparation: task-to-recipe admission changed during assembly''
          else let done = out\<lparr>kr_status := ''ready'', kr_selected := Some bundle, kr_skill_pin := Some pin, kr_package_digest := pk_digest pkg,
                 kr_contracts := map (\<lambda>c. (cb_ref c, cb_digest c)) plain\<rparr> in
            case kc_result cx done of
              None \<Rightarrow> run_fail ''encode''
            | Some b \<Rightarrow>
                if int (length b) > kq_max_bytes rq
                then run_ret (done\<lparr>kr_status := ''budget_exceeded'', kr_candidates := [], kr_selected := None,
                  kr_findings := [''complete assets and schemas exceed context budget'']\<rparr>)
                else run_ret done)))))"

definition not_ready_status :: "res_result \<Rightarrow> string" where
  "not_ready_status r = (if list_ex (\<lambda>f. rf_required f \<and> rf_status f = status_unsupported) (rs_findings r)
     then ''unsupported'' else ''requires_connection'')"

definition assemble_task ::
  "task_codec \<Rightarrow> task_service \<Rightarrow> task_world \<Rightarrow> task_request \<Rightarrow> skill_table \<Rightarrow> task_result \<Rightarrow> artifact_pin \<Rightarrow> string \<Rightarrow> task_result task_run" where
  "assemble_task cx sv w rq tb out pin task_generation =
     run_then (resolve_current cx sv w rq (ap_ref pin)) (\<lambda>(resolved, connection_generation).
     if rs_status resolved \<noteq> status_ready
     then run_ret (out\<lparr>kr_status := not_ready_status resolved,
       kr_findings := kr_findings out @ [''exact current capability closure is incomplete'']\<rparr>)
     else run_then (fetch_package cx w (kq_principal rq) pin) (\<lambda>pkg.
       if \<not> sha_matches cx (kc_manifest cx) \<lparr>dg_algorithm = ''sha256'', dg_value = pk_manifest_digest pkg\<rparr>
       then run_ret (out\<lparr>kr_status := ''unsupported'',
         kr_findings := kr_findings out @ [''retrieved package is not the immutable source bound to inbox-v1 recipe'']\<rparr>)
       else if \<not> sha_matches cx (cr_metadata (record_at tb (ap_ref pin))) (cr_manifest_digest (record_at tb (ap_ref pin)))
       then run_fail ''preparation: resolver skill metadata differs from verified manifest''
       else case kc_requirements cx (pk_manifest_bytes pkg) of
         None \<Rightarrow> run_fail ''unmarshal''
       | Some (local, filesystem) \<Rightarrow>
           if local \<or> filesystem \<noteq> []
           then run_ret (out\<lparr>kr_status := ''unsupported'',
             kr_findings := kr_findings out @ [''recipe does not admit local execution or filesystem requirements'']\<rparr>)
           else run_then (collect_findings cx w rq (rs_findings resolved) []) (\<lambda>contracts.
             confirm_task cx sv w rq tb out pin task_generation resolved connection_generation pkg
               (sort_key (\<lambda>c. ref_key (cb_ref (fst c))) contracts))))"

definition choose_task ::
  "task_codec \<Rightarrow> task_service \<Rightarrow> task_world \<Rightarrow> task_request \<Rightarrow> skill_table \<Rightarrow> task_result \<Rightarrow> (artifact_ref \<times> rat) list \<Rightarrow> task_result task_run" where
  "choose_task cx sv w rq tb out ranked =
     run_then (run_each (\<lambda>c. recheck w (kq_principal rq) (record_at tb (fst c))) ranked) (\<lambda>_.
     let out1 = out\<lparr>kr_candidates := take (nat (kq_top_k rq)) ranked\<rparr> in
     case ranked of
       [] \<Rightarrow> run_ret out1
     | (chosen, _) # _ \<Rightarrow>
         if ambiguous ranked then run_ret (out1\<lparr>kr_status := ''requires_selection''\<rparr>)
         else if ar_id chosen \<noteq> skill_id \<or> ar_version chosen \<noteq> skill_version \<or> unsupported_intent cx (kq_intent rq)
         then run_ret (out1\<lparr>kr_status := ''unsupported'', kr_findings := kr_findings out @ [''no maintained recipe covers this intent'']\<rparr>)
         else let r = record_at tb chosen; pin = \<lparr>ap_ref = chosen, ap_digest = cr_digest r, ap_manifest = cr_manifest_digest r\<rparr> in
           run_then (admit_task cx sv w rq pin) (\<lambda>(task_generation, admitted).
             if \<not> admitted
             then run_ret (out1\<lparr>kr_status := ''requires_selection'',
               kr_findings := kr_findings out @ [''positive caller-owned intent-to-maintained-recipe admission is required'']\<rparr>)
             else assemble_task cx sv w rq tb out1 pin task_generation))"

text \<open>The semantic ranking may fail: then the caller's fallback decides. \<open>caught\<close> turns an error into a value.\<close>

definition caught :: "'a task_run \<Rightarrow> (string + 'a) task_run" where
  "caught m h = (case m h of (r, h') \<Rightarrow> (Inr r, h'))"

definition rank_task ::
  "task_codec \<Rightarrow> task_service \<Rightarrow> task_world \<Rightarrow> task_request \<Rightarrow> skill_table \<Rightarrow> (artifact_ref \<times> nat) list \<Rightarrow> task_result task_run" where
  "rank_task cx sv w rq tb ranks =
     (let out = task_status rq ''no_match'' [] in
      if kq_mode rq = ''lexical'' then choose_task cx sv w rq tb out (rank_candidates ''lexical'' [] ranks)
      else run_then (caught (semantic_ranking cx sv w rq tb)) (\<lambda>r. case r of
          Inr semantic \<Rightarrow> choose_task cx sv w rq tb out (rank_candidates (kq_mode rq) semantic ranks)
        | Inl e \<Rightarrow>
            if kq_fallback rq \<noteq> ''lexical'' then run_ret (task_status rq ''unsupported'' [''embedding unavailable: '' @ e])
            else choose_task cx sv w rq tb (out\<lparr>kr_mode := ''lexical'', kr_findings := [''explicit lexical fallback; embedding unavailable'']\<rparr>)
                   (rank_candidates ''lexical'' [] ranks)))"

definition prepare_task :: "task_codec \<Rightarrow> task_service \<Rightarrow> task_world \<Rightarrow> task_request \<Rightarrow> task_result task_run" where
  "prepare_task cx sv w rq =
     (if \<not> task_request_ok cx sv rq then run_fail ''preparation: invalid or unversioned request''
      else if \<not> kw_live w then run_fail ''context''
      else if unsupported_intent cx (kq_intent rq)
      then run_ret (task_status rq ''unsupported'' [''intent outside maintained read-only recipe; no embedding disclosure''])
      else run_then (scan_catalog w) (\<lambda>page.
        if cu_id (pg_next page) \<noteq> [] \<or> length (pg_records page) > 100
        then run_fail ''preparation: complete candidate scan exceeds budget''
        else run_then (admit_records cx w (kq_principal rq) (pg_records page) []) (\<lambda>tb.
          if tb = [] then run_ret (task_status rq ''no_match'' [])
          else run_then (search_lexical w rq) (\<lambda>cs.
            rank_task cx sv w rq tb (lexical_ranks tb 0 cs [])))))"

end
