(* ===== verification/TaskProperties.thy ===== *)
theory TaskProperties
  imports TaskPreparation
begin

text \<open>What a preparation for an intent discloses and what its answer rests on.\<close>

subsection \<open>Reasoning about calls in sequence\<close>

named_theorems adds

text \<open>All calls a step makes satisfy \<open>P\<close>.\<close>

definition run_adds :: "(task_event \<Rightarrow> bool) \<Rightarrow> 'a task_run \<Rightarrow> bool" where
  "run_adds P m \<longleftrightarrow> (\<forall>h. \<exists>e. snd (m h) = h @ e \<and> list_all P e)"

lemma run_then_Inr: "run_then m f h = (Inr y, h') \<longleftrightarrow> (\<exists>x h1. m h = (Inr x, h1) \<and> f x h1 = (Inr y, h'))"
  by (simp add: run_then_def split: prod.split sum.split)

lemma run_ret_Inr [simp]: "run_ret x h = (Inr y, h') \<longleftrightarrow> y = x \<and> h' = h"
  by (auto simp: run_ret_def)

lemma run_fail_Inr [simp]: "run_fail e h \<noteq> (Inr y, h')"
  by (simp add: run_fail_def)

lemma run_sum_Inr [simp]: "run_sum r h = (Inr y, h') \<longleftrightarrow> r = Inr y \<and> h' = h"
  by (auto simp: run_sum_def)

lemma run_addsD: "run_adds P m \<Longrightarrow> m h = (r, h') \<Longrightarrow> \<exists>e. h' = h @ e \<and> list_all P e"
  unfolding run_adds_def by (metis snd_conv)

lemma run_adds_mono: "run_adds P m \<Longrightarrow> (\<And>x. P x \<Longrightarrow> Q x) \<Longrightarrow> run_adds Q m"
  unfolding run_adds_def by (meson list_all_iff)

lemma adds_ret [adds]: "run_adds P (run_ret x)" and adds_fail [adds]: "run_adds P (run_fail e)" and adds_sum [adds]: "run_adds P (run_sum r)"
  by (simp_all add: run_adds_def run_ret_def run_fail_def run_sum_def)

lemma adds_then [adds]:
  assumes "run_adds P m" "\<And>x. run_adds P (f x)"
  shows "run_adds P (run_then m f)"
  unfolding run_adds_def
proof
  fix h
  obtain r h1 where m: "m h = (r, h1)" by (metis prod.exhaust)
  obtain e where e: "h1 = h @ e" "list_all P e" using run_addsD [OF assms(1) m] by blast
  show "\<exists>e. snd (run_then m f h) = h @ e \<and> list_all P e"
  proof (cases r)
    case (Inl x)
    then show ?thesis using m e by (simp add: run_then_def)
  next
    case (Inr x)
    obtain r2 h2 where f: "f x h1 = (r2, h2)" by (metis prod.exhaust)
    obtain e2 where "h2 = h1 @ e2" "list_all P e2" using run_addsD [OF assms(2) f] by blast
    then show ?thesis using m e Inr f by (simp add: run_then_def)
  qed
qed

lemma adds_if [adds]: "(b \<Longrightarrow> run_adds P m) \<Longrightarrow> (\<not> b \<Longrightarrow> run_adds P m') \<Longrightarrow> run_adds P (if b then m else m')"
  by simp

lemma adds_option [adds]: "(x = None \<Longrightarrow> run_adds P m) \<Longrightarrow> (\<And>y. x = Some y \<Longrightarrow> run_adds P (f y)) \<Longrightarrow> run_adds P (case x of None \<Rightarrow> m | Some y \<Rightarrow> f y)"
  by (cases x) auto

lemma adds_prod [adds]: "(\<And>a b. run_adds P (f a b)) \<Longrightarrow> run_adds P (case x of (a, b) \<Rightarrow> f a b)"
  by (cases x) auto

lemma adds_each [adds]: "(\<And>x. run_adds P (f x)) \<Longrightarrow> run_adds P (run_each f xs)"
  by (induction xs) (auto intro: adds)

lemma adds_let [adds]: "(\<And>x. run_adds P (f x)) \<Longrightarrow> run_adds P (let x = a in f x)"
  by simp

lemma adds_fetch [adds]: "P (Fetched ref) \<Longrightarrow> run_adds P (fetch_record w ref)"
  by (simp add: run_adds_def fetch_record_def)

lemma adds_ask [adds]: "(\<And>b. P (Decided ref b)) \<Longrightarrow> run_adds P (ask_read w p ref)"
  by (simp add: run_adds_def ask_read_def split: sum.split)

lemma adds_clock [adds]: "P Clocked \<Longrightarrow> run_adds P (read_clock w)"
  by (simp add: run_adds_def read_clock_def)

lemma adds_embed [adds]: "P (Embedded u ts) \<Longrightarrow> run_adds P (call_embed w u ts)"
  by (simp add: run_adds_def call_embed_def)

lemma adds_resolve [adds]: "P (Resolved (rr_owned_connections rq)) \<Longrightarrow> run_adds P (call_resolve w rq)"
  by (simp add: run_adds_def call_resolve_def)

lemma adds_ready [adds]: "P (Readied sc) \<Longrightarrow> run_adds P (call_ready w sc r)"
  by (simp add: run_adds_def call_ready_def)

lemma adds_admit [adds]: "P (Admitted sc) \<Longrightarrow> run_adds P (call_admit w sc)"
  by (simp add: run_adds_def call_admit_def)

lemma adds_bytes [adds]: "P (Fetched_bytes ref) \<Longrightarrow> run_adds P (fetch_bytes w p ref m)"
  by (simp add: run_adds_def fetch_bytes_def)

lemma adds_package [adds]: "P (Packaged pin) \<Longrightarrow> run_adds P (fetch_package cx w p pin)"
  by (simp add: run_adds_def fetch_package_def split: prod.split)

lemma adds_scan [adds]: "P Scanned \<Longrightarrow> run_adds P (scan_catalog w)"
  by (simp add: run_adds_def scan_catalog_def)

lemma adds_lexical [adds]: "P Lexed \<Longrightarrow> run_adds P (search_lexical w rq)"
  by (simp add: run_adds_def search_lexical_def split: prod.split sum.split)

lemma adds_authorized [adds]: "(\<And>b. P (Decided ref b)) \<Longrightarrow> run_adds P (authorized w p ref)"
  unfolding authorized_def by (intro adds) auto

lemma adds_recheck [adds]: "P (Fetched (cr_ref r)) \<Longrightarrow> (\<And>b. P (Decided (cr_ref r) b)) \<Longrightarrow> run_adds P (recheck w p r)"
  unfolding recheck_def by (intro adds) auto

text \<open>Which kinds of calls the larger steps make.\<close>

fun quiet_event :: "task_event \<Rightarrow> bool" where
  "quiet_event (Embedded u ts) = False"
| "quiet_event _ = True"

fun no_reading :: "task_event \<Rightarrow> bool" where
  "no_reading (Packaged pin) = False"
| "no_reading (Fetched_bytes ref) = False"
| "no_reading (Embedded u ts) = False"
| "no_reading _ = True"

lemma no_reading_quiet: "no_reading x \<Longrightarrow> quiet_event x"
  by (cases x) auto

lemma adds_resolve_current [adds]: "(\<And>x. no_reading x \<Longrightarrow> P x) \<Longrightarrow> run_adds P (resolve_current cx sv w rq ref)"
  unfolding resolve_current_def Let_def by (intro adds) auto

lemma adds_admit_task [adds]: "(\<And>x. no_reading x \<Longrightarrow> P x) \<Longrightarrow> run_adds P (admit_task cx sv w rq pin)"
  unfolding admit_task_def Let_def by (intro adds) auto

lemma adds_recheck_contract [adds]: "(\<And>x. no_reading x \<Longrightarrow> P x) \<Longrightarrow> run_adds P (recheck_contract cx w rq c)"
  unfolding recheck_contract_def by (intro adds) auto

lemma adds_admit_records [adds]: "(\<And>x. no_reading x \<Longrightarrow> P x) \<Longrightarrow> run_adds P (admit_records cx w p rs acc)"
proof (induction rs arbitrary: acc)
  case (Cons r rs)
  then have "run_adds P (admit_records cx w p rs acc)" for acc by blast
  then show ?case unfolding admit_records.simps using Cons.prems by (intro adds) auto
qed (simp add: adds)

lemma adds_check_contract [adds]: "(\<And>x. quiet_event x \<Longrightarrow> P x) \<Longrightarrow> run_adds P (check_contract cx w rq ref item)"
  unfolding check_contract_def by (intro adds) auto

lemma adds_collect_items [adds]: "(\<And>x. quiet_event x \<Longrightarrow> P x) \<Longrightarrow> run_adds P (collect_items cx w rq items acc)"
proof (induction items arbitrary: acc)
  case (Cons item items)
  then have "run_adds P (collect_items cx w rq items acc)" for acc by blast
  then show ?case unfolding collect_items.simps using Cons.prems by (intro adds) auto
qed (simp add: adds)

lemma adds_collect_findings [adds]: "(\<And>x. quiet_event x \<Longrightarrow> P x) \<Longrightarrow> run_adds P (collect_findings cx w rq fs acc)"
proof (induction fs arbitrary: acc)
  case (Cons f fs)
  then have "run_adds P (collect_findings cx w rq fs acc)" for acc by blast
  then show ?case unfolding collect_findings.simps using Cons.prems by (intro adds) auto
qed (simp add: adds)

lemma adds_confirm [adds]: "(\<And>x. no_reading x \<Longrightarrow> P x) \<Longrightarrow> run_adds P (confirm_task cx sv w rq tb out pin g r cg pkg cs)"
  unfolding confirm_task_def Let_def by (intro adds) auto

lemma adds_assemble [adds]: "(\<And>x. quiet_event x \<Longrightarrow> P x) \<Longrightarrow> run_adds P (assemble_task cx sv w rq tb out pin g)"
  unfolding assemble_task_def Let_def by (intro adds) (auto intro: no_reading_quiet)

lemma adds_choose [adds]: "(\<And>x. quiet_event x \<Longrightarrow> P x) \<Longrightarrow> run_adds P (choose_task cx sv w rq tb out cs)"
proof -
  assume P: "\<And>x. quiet_event x \<Longrightarrow> P x"
  then have Q: "\<And>x. no_reading x \<Longrightarrow> P x" by (simp add: no_reading_quiet)
  show ?thesis unfolding choose_task_def Let_def
    by (cases cs; simp; (intro adds); auto intro: P Q)
qed

subsection \<open>Disclosure to the embedder\<close>

lemma authorized_Inr: "authorized w p ref h = (Inr u, h') \<Longrightarrow> h' = h @ [Decided ref True]"
  by (auto simp: authorized_def run_then_Inr ask_read_def run_ret_def run_fail_def split: sum.splits if_splits)

text \<open>A record in the table is a listed skill of the caller's workspace with its manifest's bytes, and its reading was allowed.\<close>

definition shown_skill :: "task_codec \<Rightarrow> principal_rec \<Rightarrow> task_log \<Rightarrow> artifact_ref \<Rightarrow> catalog_record \<Rightarrow> bool" where
  "shown_skill cx p h ref r \<longleftrightarrow> cr_ref r = ref \<and> ar_workspace ref = pn_workspace p \<and> ar_kind ref = kind_skill \<and> listed_state (cr_state r)
     \<and> sha_matches cx (cr_metadata r) (cr_manifest_digest r) \<and> Decided ref True \<in> set h"

definition table_ok :: "task_codec \<Rightarrow> principal_rec \<Rightarrow> skill_table \<Rightarrow> task_log \<Rightarrow> bool" where
  "table_ok cx p tb h \<longleftrightarrow> (\<forall>ref r. map_of tb ref = Some r \<longrightarrow> shown_skill cx p h ref r)"

lemma table_ok_append: "table_ok cx p tb h \<Longrightarrow> table_ok cx p tb (h @ e)"
  by (auto simp: table_ok_def shown_skill_def)

lemma admit_records_ok: "admit_records cx w p rs acc h = (Inr tb, h') \<Longrightarrow> table_ok cx p acc h \<Longrightarrow> table_ok cx p tb h'"
proof (induction rs arbitrary: acc h)
  case (Cons r rs)
  show ?case
  proof (cases "ar_kind (cr_ref r) \<noteq> kind_skill \<or> \<not> listed_state (cr_state r)")
    case True
    then show ?thesis using Cons by (auto split: if_splits)
  next
    case False
    with Cons.prems(1) have ws: "ar_workspace (cr_ref r) = pn_workspace p" by (auto split: if_splits)
    from Cons.prems(1) False obtain ok h1 where ask: "ask_read w p (cr_ref r) h = (Inr ok, h1)"
      and next1: "(if \<not> ok then admit_records cx w p rs acc else run_then (fetch_record w (cr_ref r)) (\<lambda>cur.
          if cr_ref cur \<noteq> cr_ref r then run_fail ''preparation: current candidate identity mismatch''
          else if \<not> listed_state (cr_state cur) then admit_records cx w p rs acc
          else if cr_digest cur \<noteq> cr_digest r \<or> cr_manifest_digest cur \<noteq> cr_manifest_digest r then admit_records cx w p rs acc
          else if \<not> sha_matches cx (cr_metadata cur) (cr_manifest_digest cur)
          then run_fail ''preparation: current skill metadata is not immutable manifest bytes''
          else run_then (authorized w p (cr_ref cur)) (\<lambda>_. admit_records cx w p rs (AList.update (cr_ref cur) cur acc)))) h1 = (Inr tb, h')"
      by (auto simp: run_then_Inr split: if_splits)
    have t1: "table_ok cx p acc h1" using run_addsD [OF adds_ask ask, of "\<lambda>_. True"] Cons.prems(2) table_ok_append by auto
    show ?thesis
    proof (cases ok)
      case False
      then show ?thesis using Cons.IH next1 t1 by simp
    next
      case True
      with next1 obtain cur h2 where get: "fetch_record w (cr_ref r) h1 = (Inr cur, h2)"
        and next2: "(if cr_ref cur \<noteq> cr_ref r then run_fail ''preparation: current candidate identity mismatch''
          else if \<not> listed_state (cr_state cur) then admit_records cx w p rs acc
          else if cr_digest cur \<noteq> cr_digest r \<or> cr_manifest_digest cur \<noteq> cr_manifest_digest r then admit_records cx w p rs acc
          else if \<not> sha_matches cx (cr_metadata cur) (cr_manifest_digest cur)
          then run_fail ''preparation: current skill metadata is not immutable manifest bytes''
          else run_then (authorized w p (cr_ref cur)) (\<lambda>_. admit_records cx w p rs (AList.update (cr_ref cur) cur acc))) h2 = (Inr tb, h')"
        by (auto simp: run_then_Inr)
      have t2: "table_ok cx p acc h2" using run_addsD [OF adds_fetch get, of "\<lambda>_. True"] t1 table_ok_append by auto
      show ?thesis
      proof (cases "listed_state (cr_state cur) \<and> cr_digest cur = cr_digest r \<and> cr_manifest_digest cur = cr_manifest_digest r")
        case no: False
        with next2 have "admit_records cx w p rs acc h2 = (Inr tb, h')" by (simp split: if_splits)
        then show ?thesis using Cons.IH t2 by simp
      next
        case yes: True
        then obtain h3 where same: "cr_ref cur = cr_ref r" "sha_matches cx (cr_metadata cur) (cr_manifest_digest cur)"
          and au: "authorized w p (cr_ref cur) h2 = (Inr (), h3)"
          and rest: "admit_records cx w p rs (AList.update (cr_ref cur) cur acc) h3 = (Inr tb, h')"
          using next2 by (auto simp: run_then_Inr split: if_splits)
        have "table_ok cx p (AList.update (cr_ref cur) cur acc) h3"
          using t2 yes same ws \<open>\<not> (ar_kind (cr_ref r) \<noteq> kind_skill \<or> \<not> listed_state (cr_state r))\<close>
          unfolding authorized_Inr [OF au] by (auto simp: table_ok_def shown_skill_def update_conv')
        with rest show ?thesis by (rule Cons.IH)
      qed
    qed
  qed
qed simp

definition embed_ok :: "task_codec \<Rightarrow> task_request \<Rightarrow> task_log \<Rightarrow> string \<Rightarrow> string list \<Rightarrow> bool" where
  "embed_ok cx rq h u ts \<longleftrightarrow> u = ''query'' \<and> ts = [kq_intent rq]
     \<or> u = ''document'' \<and> (\<forall>t \<in> set ts. \<exists>ref r. skill_text cx r = Some t \<and> length t \<le> 8192 \<and> shown_skill cx (kq_principal rq) h ref r)"

definition discloses :: "task_codec \<Rightarrow> task_request \<Rightarrow> task_log \<Rightarrow> bool" where
  "discloses cx rq h \<longleftrightarrow> (\<forall>i u ts. i < length h \<longrightarrow> h ! i = Embedded u ts \<longrightarrow> embed_ok cx rq (take i h) u ts)"

lemma discloses_snoc: "discloses cx rq h \<Longrightarrow> (\<And>u ts. ev = Embedded u ts \<Longrightarrow> embed_ok cx rq h u ts) \<Longrightarrow> discloses cx rq (h @ [ev])"
  by (auto simp: discloses_def nth_append less_Suc_eq)

lemma discloses_append: "list_all quiet_event e \<Longrightarrow> discloses cx rq h \<Longrightarrow> discloses cx rq (h @ e)"
proof (induction e rule: rev_induct)
  case (snoc ev e)
  then have "discloses cx rq ((h @ e) @ [ev])" by (intro discloses_snoc) auto
  then show ?case by simp
qed simp

definition run_keeps :: "(task_log \<Rightarrow> bool) \<Rightarrow> 'a task_run \<Rightarrow> bool" where
  "run_keeps J m \<longleftrightarrow> (\<forall>h. J h \<longrightarrow> J (snd (m h)))"

lemma keeps_then: "run_keeps J m \<Longrightarrow> (\<And>x. run_keeps J (f x)) \<Longrightarrow> run_keeps J (run_then m f)"
  unfolding run_keeps_def run_then_def by (auto split: prod.split sum.split)

lemma keeps_sum: "(\<And>x. r = Inr x \<Longrightarrow> run_keeps J (f x)) \<Longrightarrow> run_keeps J (run_then (run_sum r) f)"
  unfolding run_keeps_def run_then_def run_sum_def by (auto split: sum.split)

definition told :: "task_codec \<Rightarrow> task_request \<Rightarrow> skill_table \<Rightarrow> task_log \<Rightarrow> bool" where
  "told cx rq tb h \<longleftrightarrow> table_ok cx (kq_principal rq) tb h \<and> discloses cx rq h"

lemma keeps_quiet: "run_adds quiet_event m \<Longrightarrow> run_keeps (told cx rq tb) m"
  unfolding run_keeps_def run_adds_def told_def using table_ok_append discloses_append by metis

lemma keeps_embed: "(\<And>h. table_ok cx (kq_principal rq) tb h \<Longrightarrow> embed_ok cx rq h u ts) \<Longrightarrow> run_keeps (told cx rq tb) (call_embed w u ts)"
  unfolding run_keeps_def told_def call_embed_def by (auto intro: table_ok_append discloses_snoc)

lemma skill_texts_from: "skill_texts cx tb refs = Inr ts \<Longrightarrow> t \<in> set ts \<Longrightarrow> \<exists>ref \<in> set refs. skill_text cx (record_at tb ref) = Some t \<and> length t \<le> 8192"
  by (induction refs arbitrary: ts) (auto split: option.splits if_splits sum.splits)

lemma keeps_if: "(b \<Longrightarrow> run_keeps J m) \<Longrightarrow> (\<not> b \<Longrightarrow> run_keeps J m') \<Longrightarrow> run_keeps J (if b then m else m')"
  by simp

lemma semantic_keeps: "run_keeps (told cx rq tb) (semantic_ranking cx sv w rq tb)"
proof -
  let ?refs = "sort_key ref_key (map fst tb)"
  have again: "run_keeps (told cx rq tb) (run_each (\<lambda>ref. recheck w (kq_principal rq) (record_at tb ref)) ?refs)"
    by (intro keeps_quiet adds_each adds_recheck) auto
  have doc: "run_keeps (told cx rq tb) (call_embed w ''document'' ts)" if "skill_texts cx tb ?refs = Inr ts" for ts
  proof (rule keeps_embed)
    fix h assume ok: "table_ok cx (kq_principal rq) tb h"
    have "\<exists>ref r. skill_text cx r = Some t \<and> length t \<le> 8192 \<and> shown_skill cx (kq_principal rq) h ref r" if mem: "t \<in> set ts" for t
    proof -
      obtain ref where ref: "ref \<in> fst ` set tb" "skill_text cx (record_at tb ref) = Some t" "length t \<le> 8192"
        using skill_texts_from [OF \<open>skill_texts cx tb ?refs = Inr ts\<close> mem] by auto
      then obtain r where "map_of tb ref = Some r" by (metis map_of_eq_None_iff not_Some_eq)
      with ok ref show ?thesis unfolding table_ok_def by (metis option.simps(5) record_at_def)
    qed
    then show "embed_ok cx rq h ''document'' ts" by (simp add: embed_ok_def)
  qed
  have query: "run_keeps (told cx rq tb) (call_embed w ''query'' [kq_intent rq])"
    by (intro keeps_embed) (simp add: embed_ok_def)
  have pure: "run_keeps (told cx rq tb) (run_fail e)" "run_keeps (told cx rq tb) (run_ret x)" for e and x :: "(artifact_ref \<times> rat) list"
    by (auto intro!: keeps_quiet adds)
  show ?thesis
    unfolding semantic_ranking_def Let_def
    by (intro keeps_if keeps_sum pure) (auto intro!: again doc query pure keeps_if keeps_sum keeps_then split: prod.split)
qed

lemma snd_caught: "snd (caught m h) = snd (m h)"
  by (simp add: caught_def split: prod.split)

lemma keeps_caught: "run_keeps J m \<Longrightarrow> run_keeps J (caught m)"
  unfolding run_keeps_def by (simp add: snd_caught)

lemma adds_caught [adds]: "run_adds P m \<Longrightarrow> run_adds P (caught m)"
  unfolding run_adds_def by (simp add: snd_caught)

lemma adds_sum_case [adds]: "(\<And>e. run_adds P (f e)) \<Longrightarrow> (\<And>x. run_adds P (g x)) \<Longrightarrow> run_adds P (case r of Inl e \<Rightarrow> f e | Inr x \<Rightarrow> g x)"
  by (cases r) auto

lemma adds_rank_quiet: "kq_mode rq = ''lexical'' \<or> \<not> ks_embedder sv \<Longrightarrow> run_adds quiet_event (rank_task cx sv w rq tb ranks)"
proof (cases "kq_mode rq = ''lexical''")
  case True
  then show ?thesis unfolding rank_task_def Let_def by (auto intro: adds)
next
  case False
  moreover assume "kq_mode rq = ''lexical'' \<or> \<not> ks_embedder sv"
  ultimately have "run_adds quiet_event (semantic_ranking cx sv w rq tb)" by (simp add: semantic_ranking_def adds)
  then show ?thesis unfolding rank_task_def Let_def by (intro adds) auto
qed

lemma rank_keeps: "run_keeps (told cx rq tb) (rank_task cx sv w rq tb ranks)"
proof (cases "kq_mode rq = ''lexical''")
  case True
  then show ?thesis by (intro keeps_quiet adds_rank_quiet) simp
next
  case False
  have "run_keeps (told cx rq tb) (case r of
          Inr semantic \<Rightarrow> choose_task cx sv w rq tb (task_status rq ''no_match'' []) (rank_candidates (kq_mode rq) semantic ranks)
        | Inl e \<Rightarrow>
            if kq_fallback rq \<noteq> ''lexical'' then run_ret (task_status rq ''unsupported'' [''embedding unavailable: '' @ e])
            else choose_task cx sv w rq tb ((task_status rq ''no_match'' [])\<lparr>kr_mode := ''lexical'', kr_findings := [''explicit lexical fallback; embedding unavailable'']\<rparr>)
                   (rank_candidates ''lexical'' [] ranks))" for r
    by (cases r) (auto intro!: keeps_quiet adds)
  then show ?thesis unfolding rank_task_def Let_def using False by (simp add: keeps_then keeps_caught semantic_keeps)
qed

lemma run_then_cases:
  assumes "run_then m f h = (r, h')"
  obtains e where "m h = (Inl e, h')" | x h1 where "m h = (Inr x, h1)" "f x h1 = (r, h')"
  using assms by (auto simp: run_then_def split: prod.splits sum.splits)

lemma discloses_quiet: "run_adds quiet_event m \<Longrightarrow> discloses cx rq h \<Longrightarrow> m h = (r, h') \<Longrightarrow> discloses cx rq h'"
  using run_addsD discloses_append by metis

lemma quiet_starts: "run_adds quiet_event (scan_catalog w)" "run_adds quiet_event (admit_records cx w p rs [])" "run_adds quiet_event (search_lexical w rq)"
  by (auto intro: adds no_reading_quiet)

text \<open>C19. The embedder sees nothing the caller may not read, and nothing of an intent outside the recipe: in any run of the
  preparation, whatever the ports answer and however it ends, every call of the embedder happens for a supported intent in a
  semantic or hybrid request of a service that has one, and passes either the caller's own intent or descriptions of at most
  8,192 bytes that come from listed skills of the caller's workspace whose manifests are intact and whose reading the
  authorizer had allowed before the call.\<close>

theorem embedding_discloses_readable:
  assumes run: "prepare_task cx sv w rq [] = (res, h)" and call: "i < length h" "h ! i = Embedded u ts"
  shows "embed_ok cx rq (take i h) u ts \<and> \<not> unsupported_intent cx (kq_intent rq) \<and> kq_mode rq \<in> {''semantic'', ''hybrid''} \<and> task_request_ok cx sv rq
    \<and> ks_embedder sv"
proof -
  have ok: "task_request_ok cx sv rq" "\<not> unsupported_intent cx (kq_intent rq)" and live: "kw_live w"
    using run call by (auto simp: prepare_task_def run_fail_def run_ret_def split: if_splits)
  have "\<exists>e. h = [] @ e \<and> list_all quiet_event e" if "kq_mode rq = ''lexical'' \<or> \<not> ks_embedder sv"
  proof (rule run_addsD)
    show "prepare_task cx sv w rq [] = (res, h)" by (rule run)
    show "run_adds quiet_event (prepare_task cx sv w rq)"
      unfolding prepare_task_def by (intro adds quiet_starts adds_rank_quiet that)
  qed
  then have mode: "kq_mode rq \<noteq> ''lexical''" "ks_embedder sv" using call list_all_length [of quiet_event h] by (metis append_Nil quiet_event.simps(1))+
  have empty: "discloses cx rq []" by (simp add: discloses_def)
  have "discloses cx rq h"
  proof (rule run_then_cases)
    show "run_then (scan_catalog w) (\<lambda>page. if cu_id (pg_next page) \<noteq> [] \<or> length (pg_records page) > 100
        then run_fail ''preparation: complete candidate scan exceeds budget''
        else run_then (admit_records cx w (kq_principal rq) (pg_records page) []) (\<lambda>tb.
          if tb = [] then run_ret (task_status rq ''no_match'' [])
          else run_then (search_lexical w rq) (\<lambda>cs. rank_task cx sv w rq tb (lexical_ranks tb 0 cs [])))) [] = (res, h)"
      using run ok live by (simp add: prepare_task_def)
  next
    fix e assume "scan_catalog w [] = (Inl e, h)"
    then show ?thesis by (rule discloses_quiet [OF quiet_starts(1) empty])
  next
    fix page h1 assume s: "scan_catalog w [] = (Inr page, h1)" and rest: "(if cu_id (pg_next page) \<noteq> [] \<or> length (pg_records page) > 100
        then run_fail ''preparation: complete candidate scan exceeds budget''
        else run_then (admit_records cx w (kq_principal rq) (pg_records page) []) (\<lambda>tb.
          if tb = [] then run_ret (task_status rq ''no_match'' [])
          else run_then (search_lexical w rq) (\<lambda>cs. rank_task cx sv w rq tb (lexical_ranks tb 0 cs [])))) h1 = (res, h)"
    have d1: "discloses cx rq h1" by (rule discloses_quiet [OF quiet_starts(1) empty s])
    show ?thesis
    proof (cases "cu_id (pg_next page) \<noteq> [] \<or> length (pg_records page) > 100")
      case True
      then show ?thesis using rest d1 by (simp add: run_fail_def)
    next
      case False
      then have "run_then (admit_records cx w (kq_principal rq) (pg_records page) []) (\<lambda>tb.
          if tb = [] then run_ret (task_status rq ''no_match'' [])
          else run_then (search_lexical w rq) (\<lambda>cs. rank_task cx sv w rq tb (lexical_ranks tb 0 cs []))) h1 = (res, h)"
        using rest by simp
      then show ?thesis
      proof (rule run_then_cases)
        fix e assume "admit_records cx w (kq_principal rq) (pg_records page) [] h1 = (Inl e, h)"
        then show ?thesis by (rule discloses_quiet [OF quiet_starts(2) d1])
      next
        fix tb h2 assume a: "admit_records cx w (kq_principal rq) (pg_records page) [] h1 = (Inr tb, h2)"
          and rest2: "(if tb = [] then run_ret (task_status rq ''no_match'' [])
            else run_then (search_lexical w rq) (\<lambda>cs. rank_task cx sv w rq tb (lexical_ranks tb 0 cs []))) h2 = (res, h)"
        have "table_ok cx (kq_principal rq) tb h2" by (rule admit_records_ok [OF a]) (simp add: table_ok_def)
        then have "told cx rq tb h2" using discloses_quiet [OF quiet_starts(2) d1 a] by (simp add: told_def)
        moreover have "run_keeps (told cx rq tb) (if tb = [] then run_ret (task_status rq ''no_match'' [])
            else run_then (search_lexical w rq) (\<lambda>cs. rank_task cx sv w rq tb (lexical_ranks tb 0 cs [])))"
          by (intro keeps_if keeps_then rank_keeps keeps_quiet [OF quiet_starts(3)] keeps_quiet [OF adds_ret])
        ultimately show ?thesis using rest2 unfolding run_keeps_def told_def by (metis snd_conv)
      qed
    qed
  qed
  then show ?thesis using call ok mode by (auto simp: discloses_def task_request_ok_def)
qed

end
