(* ===== verification/TaskAnswers.thy ===== *)
theory TaskAnswers
  imports TaskProperties
begin

text \<open>What a prepared answer rests on.\<close>

subsection \<open>Repeated checks\<close>

lemma recheck_Inr: "recheck w p r h = (Inr u, h') \<Longrightarrow> h' = h @ [Fetched (cr_ref r), Decided (cr_ref r) True]"
  by (auto simp: recheck_def run_then_Inr fetch_record_def dest!: authorized_Inr split: if_splits)

lemma recheck_contract_Inr:
  "recheck_contract cx w rq c h = (Inr u, h') \<Longrightarrow> h' = h @ [Fetched (cb_ref (fst c)), Decided (cb_ref (fst c)) True]"
  by (auto simp: recheck_contract_def run_then_Inr fetch_record_def dest!: authorized_Inr split: if_splits)

lemma each_decides:
  assumes "\<And>x h u h'. x \<in> set xs \<Longrightarrow> f x h = (Inr u, h') \<Longrightarrow> h' = h @ [Fetched (g x), Decided (g x) True]"
    and "run_each f xs h = (Inr u, h')"
  obtains e where "h' = h @ e" "list_all no_reading e" "\<forall>x \<in> set xs. Decided (g x) True \<in> set e"
  using assms
proof (induction xs arbitrary: h thesis)
  case (Cons x xs)
  then obtain v h1 where x: "f x h = (Inr v, h1)" and xs: "run_each f xs h1 = (Inr u, h')" by (auto simp: run_then_Inr)
  have h1: "h1 = h @ [Fetched (g x), Decided (g x) True]" using Cons.prems(2) x by simp
  obtain e where "h' = h1 @ e" "list_all no_reading e" "\<forall>y \<in> set xs. Decided (g y) True \<in> set e"
    using Cons.IH [OF _ Cons.prems(2) xs] by auto
  then show ?case using Cons.prems(1) [of "[Fetched (g x), Decided (g x) True] @ e"] h1 by auto
qed simp

subsection \<open>Ranked candidates come from the table\<close>

definition refs_of :: "(artifact_ref \<times> 'a) list \<Rightarrow> artifact_ref set" where
  "refs_of xs = set (map fst xs)"

lemma refs_of_simps [simp]: "refs_of [] = {}" "refs_of ((ref, k) # xs) = insert ref (refs_of xs)" "refs_of (xs @ ys) = refs_of xs \<union> refs_of ys"
  "refs_of (sort_candidates cs) = refs_of cs" "refs_of (map (\<lambda>(ref, k). (ref, f k)) zs) = refs_of zs"
  by (auto simp: refs_of_def sort_candidates_def image_image case_prod_beta)

lemma refs_of_update [simp]: "refs_of (AList.update k v xs) = insert k (refs_of xs)"
  by (simp add: refs_of_def dom_update)

lemma refs_of_zip: "refs_of (zip xs ys) \<subseteq> set xs"
  by (auto simp: refs_of_def dest: set_zip_leftD)

lemma refs_of_table: "ref \<in> refs_of tb \<longleftrightarrow> map_of tb ref \<noteq> None"
  unfolding refs_of_def by (metis list.set_map map_of_eq_None_iff)

lemma lexical_ranks_refs: "refs_of (lexical_ranks tb i cs acc) \<subseteq> refs_of tb \<union> refs_of acc"
proof (induction tb i cs acc rule: lexical_ranks.induct)
  case (2 tb i c cs acc)
  then show ?case by (cases "map_of tb (cd_ref c) = None") (auto simp: refs_of_table)
qed simp

lemma refs_of_score [simp]: "refs_of (add_score ref s u) = insert ref (refs_of u)"
  by (simp add: add_score_def)

lemma fuse_semantic_refs: "refs_of (fuse_semantic i cs u) = refs_of cs \<union> refs_of u"
  by (induction i cs u rule: fuse_semantic.induct) auto

lemma fold_score_refs: "refs_of (fold (\<lambda>(ref, k). add_score ref (f k)) ranks u) = refs_of ranks \<union> refs_of u"
proof (induction ranks arbitrary: u)
  case (Cons x xs)
  then show ?case by (cases x) simp
qed simp

lemma rank_candidates_refs: "refs_of (rank_candidates mode sem ranks) \<subseteq> refs_of sem \<union> refs_of ranks"
  by (simp add: rank_candidates_def fuse_ranks_def fold_score_refs fuse_semantic_refs Un_commute)

lemma score_documents_refs: "score_documents rt q rs = Inr cs \<Longrightarrow> refs_of cs \<subseteq> refs_of rs"
proof (induction rt q rs arbitrary: cs rule: score_documents.induct)
  case (2 rt q ref v rest)
  from 2(2) obtain s cs' where s: "cosine rt q v = Inr s" and c: "score_documents rt q rest = Inr cs'" "cs = (if 3 / 10 \<le> s then (ref, s) # cs' else cs')"
    by (auto split: sum.splits)
  from 2(1) [OF s c(1)] c(2) show ?case by auto
qed simp

lemma semantic_refs: "semantic_ranking cx sv w rq tb h = (Inr cs, h') \<Longrightarrow> refs_of cs \<subseteq> refs_of tb"
proof -
  assume "semantic_ranking cx sv w rq tb h = (Inr cs, h')"
  then obtain q dv cs' where "score_documents (kc_root cx) q (zip (sort_key ref_key (map fst tb)) dv) = Inr cs'" "cs = sort_candidates cs'"
    by (auto simp: semantic_ranking_def Let_def run_then_Inr split: if_split_asm prod.split_asm)
  moreover have "refs_of (zip (sort_key ref_key (map fst tb)) dv) \<subseteq> refs_of tb"
    using refs_of_zip [of "sort_key ref_key (map fst tb)" dv] by (simp add: refs_of_def)
  ultimately show ?thesis using score_documents_refs by (metis (no_types) order_trans refs_of_simps(4))
qed

subsection \<open>Admission and readiness\<close>

definition admission_at :: "task_codec \<Rightarrow> task_service \<Rightarrow> task_world \<Rightarrow> task_request \<Rightarrow> artifact_pin \<Rightarrow> string \<Rightarrow> task_log \<Rightarrow> bool" where
  "admission_at cx sv w rq pin g h \<longleftrightarrow> ks_admitter sv \<and> (\<exists>d. let scope = kc_hash cx (admission_query rq pin) in
     kw_admit w h scope = Inr d \<and> ay_scope d = scope \<and> ay_admitted d \<and> ay_generation d = g \<and> g \<noteq> [] \<and> ay_checked_at d \<noteq> 0
     \<and> still_fresh (ay_checked_at d) (ay_valid_until d) (kw_now w (h @ [Admitted scope])) (ks_admission_age sv))"

lemma admit_task_True: "admit_task cx sv w rq pin h = (Inr (g, True), h') \<Longrightarrow>
    admission_at cx sv w rq pin g h \<and> (\<exists>e. h' = h @ Admitted (kc_hash cx (admission_query rq pin)) # e)"
  by (auto simp: admit_task_def admission_at_def Let_def run_then_Inr call_admit_def read_clock_def split: if_split_asm)

text \<open>The resolution is what the resolver answered without owned connections, or, where the caller is asked for readiness, what it
  answered with them between two readings of the clock at which the caller's positive decision for its closure was fresh.\<close>

definition resolved_at ::
  "task_codec \<Rightarrow> task_service \<Rightarrow> task_world \<Rightarrow> task_request \<Rightarrow> artifact_ref \<Rightarrow> res_result \<Rightarrow> string \<Rightarrow> task_log \<Rightarrow> bool" where
  "resolved_at cx sv w rq skill r g h \<longleftrightarrow> rs_status r = status_ready \<and>
     (if \<not> ks_readiness sv then kw_resolve w h (resolve_input rq skill False) = Inr r \<and> g = []
      else \<exists>base d h1 h2 h3. let scope = readiness_scope_of cx rq skill r in
        kw_resolve w h (resolve_input rq skill False) = Inr base \<and> readiness_scope_of cx rq skill base = scope
        \<and> kw_ready w h1 scope base = Inr d \<and> ry_ready d \<and> ry_scope d = scope \<and> ry_generation d = g \<and> g \<noteq> []
        \<and> still_fresh (ry_checked_at d) (ry_valid_until d) (kw_now w h2) (ks_readiness_age sv)
        \<and> kw_resolve w (h2 @ [Clocked]) (resolve_input rq skill True) = Inr r
        \<and> h3 = h2 @ [Clocked, Resolved True] \<and> still_fresh (ry_checked_at d) (ry_valid_until d) (kw_now w h3) (ks_readiness_age sv))"

lemma resolve_current_ready:
  assumes "resolve_current cx sv w rq skill h = (Inr (r, g), h')" "rs_status r = status_ready"
  shows "resolved_at cx sv w rq skill r g h"
proof (cases "ks_readiness sv")
  case False
  then show ?thesis using assms by (simp add: resolve_current_def resolved_at_def run_then_Inr call_resolve_def)
next
  case True
  from assms(1) True obtain base where base: "kw_resolve w h (resolve_input rq skill False) = Inr base"
    and rest: "run_then (call_ready w (readiness_scope_of cx rq skill base) base) (\<lambda>d.
       run_then (read_clock w) (\<lambda>now.
         if ry_scope d \<noteq> readiness_scope_of cx rq skill base \<or> ry_generation d = [] \<or> ry_checked_at d = 0
            \<or> \<not> still_fresh (ry_checked_at d) (ry_valid_until d) now (ks_readiness_age sv)
         then run_fail ''preparation: stale or mismatched current readiness''
         else if \<not> ry_ready d then run_ret (base\<lparr>rs_status := status_incomplete\<rparr>, ry_generation d)
         else run_then (call_resolve w (resolve_input rq skill True)) (\<lambda>resolved.
           run_then (read_clock w) (\<lambda>final.
             if \<not> still_fresh (ry_checked_at d) (ry_valid_until d) final (ks_readiness_age sv)
             then run_fail ''preparation: readiness expired during resolution''
             else if readiness_scope_of cx rq skill resolved \<noteq> readiness_scope_of cx rq skill base then run_fail ''preparation: closure changed during readiness check''
             else run_ret (resolved, ry_generation d))))) (h @ [Resolved False]) = (Inr (r, g), h')"
    by (auto simp: resolve_current_def run_then_Inr call_resolve_def Let_def resolve_input_def split: if_split_asm)
  let ?sc = "readiness_scope_of cx rq skill base" and ?h1 = "h @ [Resolved False]"
  let ?h2 = "?h1 @ [Readied ?sc]"
  obtain d where d: "kw_ready w ?h1 ?sc base = Inr d" "ry_scope d = ?sc" "ry_generation d \<noteq> []"
    "still_fresh (ry_checked_at d) (ry_valid_until d) (kw_now w ?h2) (ks_readiness_age sv)"
    and rest2: "(if \<not> ry_ready d then run_ret (base\<lparr>rs_status := status_incomplete\<rparr>, ry_generation d)
         else run_then (call_resolve w (resolve_input rq skill True)) (\<lambda>resolved.
           run_then (read_clock w) (\<lambda>final.
             if \<not> still_fresh (ry_checked_at d) (ry_valid_until d) final (ks_readiness_age sv)
             then run_fail ''preparation: readiness expired during resolution''
             else if readiness_scope_of cx rq skill resolved \<noteq> ?sc then run_fail ''preparation: closure changed during readiness check''
             else run_ret (resolved, ry_generation d)))) (?h2 @ [Clocked]) = (Inr (r, g), h')"
    using rest by (auto simp: run_then_Inr call_ready_def read_clock_def split: if_split_asm)
  have ready: "ry_ready d" using rest2 assms(2) by (cases "ry_ready d") (auto simp: status_incomplete_def status_ready_def)
  with rest2 have "kw_resolve w (?h2 @ [Clocked]) (resolve_input rq skill True) = Inr r" "g = ry_generation d"
    "still_fresh (ry_checked_at d) (ry_valid_until d) (kw_now w (?h2 @ [Clocked, Resolved True])) (ks_readiness_age sv)"
    "readiness_scope_of cx rq skill r = ?sc"
    by (auto simp: run_then_Inr call_resolve_def read_clock_def resolve_input_def split: if_split_asm)
  moreover have "?h2 @ [Clocked] @ [Resolved True] = ?h2 @ [Clocked, Resolved True]" by simp
  ultimately show ?thesis unfolding resolved_at_def Let_def using True assms(2) base d ready
    by (simp only: if_False not_True_eq_False simp_thms, intro exI [of _ base] exI [of _ d] exI [of _ ?h1] exI [of _ ?h2] exI [of _ "?h2 @ [Clocked, Resolved True]"]) simp
qed

subsection \<open>Contracts\<close>

text \<open>A contract was read from the retriever, and is what the pin of a closure says.\<close>

definition contract_pinned :: "task_codec \<Rightarrow> task_world \<Rightarrow> task_request \<Rightarrow> res_pin set \<Rightarrow> pinned_contract \<Rightarrow> bool" where
  "contract_pinned cx w rq items c \<longleftrightarrow> sha_matches cx (cb_bytes (fst c)) (cb_digest (fst c))
     \<and> (\<exists>item \<in> items. parse_ref (pn_workspace (kq_principal rq)) (rp_kind item) (rp_reference item) = Some (cb_ref (fst c))
          \<and> cb_digest (fst c) = rp_digest item \<and> snd c = rp_manifest item)
     \<and> (\<exists>h env. retrieve (kw_bytes w h) (kq_principal rq) (cb_ref (fst c)) (kq_max_bytes rq) = Inr env \<and> en_bytes env = cb_bytes (fst c))
     \<and> (ar_kind (cb_ref (fst c)) = kind_tool \<longrightarrow> schemas_complete cx (cb_bytes (fst c)) = None)"

definition item_covered :: "task_request \<Rightarrow> pinned_contract list \<Rightarrow> res_pin \<Rightarrow> bool" where
  "item_covered rq cs item \<longleftrightarrow> (\<exists>c \<in> set cs. parse_ref (pn_workspace (kq_principal rq)) (rp_kind item) (rp_reference item) = Some (cb_ref (fst c)))"

lemma check_contract_pinned:
  assumes "check_contract cx w rq ref item h = (Inr c, h')" "parse_ref (pn_workspace (kq_principal rq)) (rp_kind item) (rp_reference item) = Some ref"
  shows "contract_pinned cx w rq {item} c \<and> cb_ref (fst c) = ref"
  using assms by (auto simp: check_contract_def contract_pinned_def run_then_Inr fetch_bytes_def split: if_split_asm option.split_asm)

lemma contract_pinned_mono: "contract_pinned cx w rq I c \<Longrightarrow> I \<subseteq> J \<Longrightarrow> contract_pinned cx w rq J c"
  by (auto simp: contract_pinned_def)

lemma collect_items_ok:
  assumes "collect_items cx w rq items acc h = (Inr cs, h')"
  shows "set acc \<subseteq> set cs \<and> (\<forall>c \<in> set cs - set acc. contract_pinned cx w rq (set items) c) \<and> (\<forall>item \<in> set items. item_covered rq cs item)"
  using assms
proof (induction items arbitrary: acc h)
  case (Cons item items)
  then obtain ref where ref: "parse_ref (pn_workspace (kq_principal rq)) (rp_kind item) (rp_reference item) = Some ref"
    by (auto split: option.splits)
  show ?case
  proof (cases "ref \<in> (cb_ref \<circ> fst) ` set acc")
    case True
    then have run: "collect_items cx w rq items acc h = (Inr cs, h')" using Cons.prems ref by simp
    from True obtain c where "c \<in> set acc" "cb_ref (fst c) = ref" by auto
    then have "item_covered rq cs item" using Cons.IH [OF run] ref by (auto simp: item_covered_def)
    moreover have "contract_pinned cx w rq (set (item # items)) x" if "x \<in> set cs - set acc" for x
      using Cons.IH [OF run] that contract_pinned_mono [of cx w rq "set items" x] by auto
    ultimately show ?thesis using Cons.IH [OF run] by auto
  next
    case False
    then obtain c h1 where c: "check_contract cx w rq ref item h = (Inr c, h1)" and run: "collect_items cx w rq items (acc @ [c]) h1 = (Inr cs, h')"
      using Cons.prems ref by (auto simp: run_then_Inr)
    note pinned = check_contract_pinned [OF c ref]
    have "item_covered rq cs item" using Cons.IH [OF run] pinned ref by (auto simp: item_covered_def)
    moreover have "contract_pinned cx w rq (set (item # items)) x" if "x \<in> set cs - set acc" for x
    proof (cases "x = c")
      case True
      then show ?thesis using pinned contract_pinned_mono [of cx w rq "{item}" x] by simp
    next
      case False
      then have "contract_pinned cx w rq (set items) x" using Cons.IH [OF run] that by simp
      then show ?thesis by (rule contract_pinned_mono) auto
    qed
    ultimately show ?thesis using Cons.IH [OF run] by auto
  qed
qed simp

lemma collect_findings_ok:
  assumes "collect_findings cx w rq fs acc h = (Inr cs, h')"
  shows "set acc \<subseteq> set cs \<and> (\<forall>c \<in> set cs - set acc. contract_pinned cx w rq (\<Union>f \<in> set fs. set (rf_closure f)) c)
    \<and> (\<forall>f \<in> set fs. (rf_required f \<longrightarrow> rf_status f = status_ready) \<and> (\<forall>item \<in> set (rf_closure f). item_covered rq cs item))"
  using assms
proof (induction fs arbitrary: acc h)
  case (Cons f fs)
  then obtain acc1 h1 where f: "rf_required f \<longrightarrow> rf_status f = status_ready" and items: "collect_items cx w rq (rf_closure f) acc h = (Inr acc1, h1)"
    and run: "collect_findings cx w rq fs acc1 h1 = (Inr cs, h')" by (auto simp: run_then_Inr split: if_split_asm)
  note one = collect_items_ok [OF items] and IH = Cons.IH [OF run]
  have "contract_pinned cx w rq (\<Union>f \<in> set (f # fs). set (rf_closure f)) c" if "c \<in> set cs - set acc" for c
  proof (cases "c \<in> set acc1")
    case True
    then show ?thesis using one that contract_pinned_mono [of cx w rq "set (rf_closure f)" c] by auto
  next
    case False
    then show ?thesis using IH that contract_pinned_mono [of cx w rq "\<Union>f \<in> set fs. set (rf_closure f)" c] by auto
  qed
  moreover have "item_covered rq cs item" if "item \<in> set (rf_closure f)" for item
    using one IH that unfolding item_covered_def by (meson subsetD)
  ultimately show ?case using one IH f by auto
qed simp

subsection \<open>The answer\<close>

text \<open>The calls of a successful preparation fall into a reading and a confirming part. In the second nothing is read any more, and
  every candidate and every contract of the answer is allowed again; admission and resolution hold in both parts, under the
  same generations.\<close>

definition task_evidence ::
  "task_codec \<Rightarrow> task_service \<Rightarrow> task_world \<Rightarrow> task_request \<Rightarrow> task_log \<Rightarrow> task_result \<Rightarrow> task_bundle \<Rightarrow> artifact_pin \<Rightarrow> bool" where
  "task_evidence cx sv w rq h out b pin \<longleftrightarrow> (\<exists>reading confirming cs g cg.
     h = reading @ confirming \<and> list_all no_reading confirming \<and> kb_contracts b = map fst cs
     \<and> (\<forall>c \<in> set (kr_candidates out). Decided (fst c) True \<in> set confirming)
     \<and> (\<forall>c \<in> set (kb_contracts b). Decided (cb_ref c) True \<in> set confirming)
     \<and> (\<forall>c \<in> set cs. contract_pinned cx w rq (\<Union>f \<in> set (rs_findings (kb_resolution b)). set (rf_closure f)) c)
     \<and> (\<forall>f \<in> set (rs_findings (kb_resolution b)). (rf_required f \<longrightarrow> rf_status f = status_ready)
          \<and> (\<forall>item \<in> set (rf_closure f). item_covered rq cs item))
     \<and> (\<exists>h1. prefix h1 reading \<and> admission_at cx sv w rq pin g h1)
     \<and> (\<exists>h2. prefix reading h2 \<and> prefix h2 h \<and> admission_at cx sv w rq pin g h2)
     \<and> (\<exists>h1. prefix h1 reading \<and> resolved_at cx sv w rq (ap_ref pin) (kb_resolution b) cg h1)
     \<and> (\<exists>h2 r. prefix reading h2 \<and> prefix h2 h \<and> same_resolution (kb_resolution b) r \<and> resolved_at cx sv w rq (ap_ref pin) r cg h2)
     \<and> (\<exists>h1. prefix h1 reading \<and> retrieve_skill (kc_package cx) (fst (kw_package w h1)) (snd (kw_package w h1)) (kq_principal rq) pin
           \<lparr>pl_package = 65536, pl_file = 65536, pl_files = 64\<rparr> = Inr (kb_skill b)))"

lemma confirm_task_ready:
  assumes run: "confirm_task cx sv w rq tb out pin g r cg pkg cs h = (Inr res, h')"
    and refs: "\<forall>c \<in> set (kr_candidates out). cr_ref (record_at tb (fst c)) = fst c" and ready: "rs_status r = status_ready"
  obtains (exceeded) "kr_status res = ''budget_exceeded''" "kr_selected res = None" "kr_candidates res = []"
  | (complete) e h2 h3 r2 bytes b where "h' = h @ e" "list_all no_reading e" "kr_candidates res = kr_candidates out" "kr_status res = ''ready''"
    "kr_selected res = Some b" "kr_skill_pin res = Some pin" "kb_skill b = pkg" "kb_resolution b = r" "kb_contracts b = map fst cs"
    "\<forall>c \<in> set (kr_candidates out). Decided (fst c) True \<in> set e" "\<forall>c \<in> set cs. Decided (cb_ref (fst c)) True \<in> set e"
    "prefix h h2" "prefix h2 h'" "same_resolution r r2" "resolved_at cx sv w rq (ap_ref pin) r2 cg h2"
    "prefix h h3" "prefix h3 h'" "admission_at cx sv w rq pin g h3" "kc_result cx res = Some bytes" "int (length bytes) \<le> kq_max_bytes rq"
proof -
  define b where "b = \<lparr>kb_skill = pkg, kb_resolution = r, kb_contracts = map fst cs, kb_guide = (if kq_guide rq then guide_of (ap_ref pin) pkg else [])\<rparr>"
  define ok where "ok = out\<lparr>kr_status := ''ready'', kr_selected := Some b, kr_skill_pin := Some pin, kr_package_digest := pk_digest pkg,
    kr_contracts := map (\<lambda>c. (cb_ref c, cb_digest c)) (map fst cs)\<rparr>"
  obtain h1 h2 h3 r2 g2 where one: "run_each (\<lambda>c. recheck w (kq_principal rq) (record_at tb (fst c))) (kr_candidates out) h = (Inr (), h1)"
    and two: "run_each (recheck_contract cx w rq) cs h1 = (Inr (), h2)" and three: "resolve_current cx sv w rq (ap_ref pin) h2 = (Inr (r2, cg), h3)"
    and same: "same_resolution r r2" and four: "admit_task cx sv w rq pin h3 = (Inr (g, True), g2)"
    and rest: "(case kc_result cx ok of None \<Rightarrow> run_fail ''encode''
            | Some b \<Rightarrow> if int (length b) > kq_max_bytes rq
                then run_ret (ok\<lparr>kr_status := ''budget_exceeded'', kr_candidates := [], kr_selected := None,
                  kr_findings := [''complete assets and schemas exceed context budget'']\<rparr>)
                else run_ret ok) g2 = (Inr res, h')"
    using run unfolding confirm_task_def b_def ok_def Let_def by (auto simp: run_then_Inr split: if_split_asm)
  obtain e1 where e1: "h1 = h @ e1" "list_all no_reading e1" "\<forall>c \<in> set (kr_candidates out). Decided (fst c) True \<in> set e1"
    by (rule each_decides [OF _ one, where g = fst]) (use refs recheck_Inr in fastforce)+
  obtain e2 where e2: "h2 = h1 @ e2" "list_all no_reading e2" "\<forall>c \<in> set cs. Decided (cb_ref (fst c)) True \<in> set e2"
    by (rule each_decides [OF _ two, where g = "\<lambda>c. cb_ref (fst c)"]) (use recheck_contract_Inr in fastforce)+
  obtain e3 where e3: "h3 = h2 @ e3" "list_all no_reading e3" using run_addsD [OF adds_resolve_current three, of no_reading] by blast
  obtain e4 where e4: "g2 = h3 @ e4" "list_all no_reading e4" using run_addsD [OF adds_admit_task four, of no_reading] by blast
  have "rs_status r2 = status_ready" using same ready by (simp add: same_resolution_def)
  then have res2: "resolved_at cx sv w rq (ap_ref pin) r2 cg h2" by (rule resolve_current_ready [OF three])
  have adm: "admission_at cx sv w rq pin g h3" using admit_task_True [OF four] by blast
  obtain bytes where bytes: "kc_result cx ok = Some bytes" and h': "h' = g2"
    using rest by (auto split: option.splits if_split_asm)
  show ?thesis
  proof (cases "int (length bytes) > kq_max_bytes rq")
    case True
    then show ?thesis using rest bytes by (intro exceeded) auto
  next
    case False
    then have res: "res = ok" using rest bytes by simp
    show ?thesis
      by (rule complete [of "e1 @ e2 @ e3 @ e4" b h2 r2 h3 bytes])
        (use e1 e2 e3 e4 h' res2 adm same bytes False in \<open>auto simp: res ok_def b_def\<close>)
  qed
qed

text \<open>An answer that is not ready carries no bundle; one that is has its evidence in the calls.\<close>

definition answer_sound :: "task_codec \<Rightarrow> task_service \<Rightarrow> task_world \<Rightarrow> task_request \<Rightarrow> task_log \<Rightarrow> task_result \<Rightarrow> bool" where
  "answer_sound cx sv w rq h out \<longleftrightarrow> (kr_status out \<noteq> ''ready'' \<longrightarrow> kr_selected out = None)
     \<and> (kr_status out = ''ready'' \<longrightarrow> (\<exists>b pin bytes. kr_selected out = Some b \<and> kr_skill_pin out = Some pin \<and> task_evidence cx sv w rq h out b pin
          \<and> ap_ref pin \<in> refs_of (kr_candidates out) \<and> ar_id (ap_ref pin) = skill_id \<and> ar_version (ap_ref pin) = skill_version
          \<and> pk_manifest_digest (kb_skill b) = kc_hash cx (kc_manifest cx) \<and> kc_requirements cx (pk_manifest_bytes (kb_skill b)) = Some (False, [])
          \<and> kc_result cx out = Some bytes \<and> int (length bytes) \<le> kq_max_bytes rq))"

lemma assemble_task_sound:
  assumes run: "assemble_task cx sv w rq tb out pin g h = (Inr res, h')"
    and adm: "admission_at cx sv w rq pin g h0" "prefix h0 h" and refs: "\<forall>c \<in> set (kr_candidates out). cr_ref (record_at tb (fst c)) = fst c"
    and out: "kr_selected out = None" and chosen: "ap_ref pin \<in> refs_of (kr_candidates out)" "ar_id (ap_ref pin) = skill_id" "ar_version (ap_ref pin) = skill_version"
  shows "answer_sound cx sv w rq h' res \<and> (kr_candidates res = kr_candidates out \<or> kr_candidates res = [])"
proof -
  from run obtain r cg h1 where one: "resolve_current cx sv w rq (ap_ref pin) h = (Inr (r, cg), h1)"
    and rest: "(if rs_status r \<noteq> status_ready
     then run_ret (out\<lparr>kr_status := not_ready_status r, kr_findings := kr_findings out @ [''exact current capability closure is incomplete'']\<rparr>)
     else run_then (fetch_package cx w (kq_principal rq) pin) (\<lambda>pkg.
       if \<not> sha_matches cx (kc_manifest cx) \<lparr>dg_algorithm = ''sha256'', dg_value = pk_manifest_digest pkg\<rparr>
       then run_ret (out\<lparr>kr_status := ''unsupported'',
         kr_findings := kr_findings out @ [''retrieved package is not the immutable source bound to inbox-v1 recipe'']\<rparr>)
       else if \<not> sha_matches cx (cr_metadata (record_at tb (ap_ref pin))) (cr_manifest_digest (record_at tb (ap_ref pin)))
       then run_fail ''preparation: resolver skill metadata differs from verified manifest''
       else case kc_requirements cx (pk_manifest_bytes pkg) of
         None \<Rightarrow> run_fail ''unmarshal''
       | Some (local, filesystem) \<Rightarrow>
           if local \<or> filesystem \<noteq> []
           then run_ret (out\<lparr>kr_status := ''unsupported'',
             kr_findings := kr_findings out @ [''recipe does not admit local execution or filesystem requirements'']\<rparr>)
           else run_then (collect_findings cx w rq (rs_findings r) []) (\<lambda>contracts.
             confirm_task cx sv w rq tb out pin g r cg pkg (sort_key (\<lambda>c. ref_key (cb_ref (fst c))) contracts)))) h1 = (Inr res, h')"
    by (auto simp: assemble_task_def run_then_Inr)
  show ?thesis
  proof (cases "rs_status r = status_ready")
    case False
    then have "res = out\<lparr>kr_status := not_ready_status r, kr_findings := kr_findings out @ [''exact current capability closure is incomplete'']\<rparr>"
      using rest by simp
    then show ?thesis using out by (simp add: answer_sound_def not_ready_status_def)
  next
    case ready: True
    with rest obtain pkg h2 where pkg: "fetch_package cx w (kq_principal rq) pin h1 = (Inr pkg, h2)"
      and rest2: "(if \<not> sha_matches cx (kc_manifest cx) \<lparr>dg_algorithm = ''sha256'', dg_value = pk_manifest_digest pkg\<rparr>
       then run_ret (out\<lparr>kr_status := ''unsupported'',
         kr_findings := kr_findings out @ [''retrieved package is not the immutable source bound to inbox-v1 recipe'']\<rparr>)
       else if \<not> sha_matches cx (cr_metadata (record_at tb (ap_ref pin))) (cr_manifest_digest (record_at tb (ap_ref pin)))
       then run_fail ''preparation: resolver skill metadata differs from verified manifest''
       else case kc_requirements cx (pk_manifest_bytes pkg) of
         None \<Rightarrow> run_fail ''unmarshal''
       | Some (local, filesystem) \<Rightarrow>
           if local \<or> filesystem \<noteq> []
           then run_ret (out\<lparr>kr_status := ''unsupported'',
             kr_findings := kr_findings out @ [''recipe does not admit local execution or filesystem requirements'']\<rparr>)
           else run_then (collect_findings cx w rq (rs_findings r) []) (\<lambda>contracts.
             confirm_task cx sv w rq tb out pin g r cg pkg (sort_key (\<lambda>c. ref_key (cb_ref (fst c))) contracts))) h2 = (Inr res, h')"
      by (auto simp: run_then_Inr)
    have unsupported: "answer_sound cx sv w rq h' (out\<lparr>kr_status := ''unsupported'', kr_findings := fs\<rparr>)" for fs
      using out by (simp add: answer_sound_def)
    show ?thesis
    proof (cases "kc_requirements cx (pk_manifest_bytes pkg) = Some (False, [])
        \<and> sha_matches cx (kc_manifest cx) \<lparr>dg_algorithm = ''sha256'', dg_value = pk_manifest_digest pkg\<rparr>")
      case False
      then obtain fs where "res = out\<lparr>kr_status := ''unsupported'', kr_findings := fs\<rparr>"
        using rest2 by (auto split: if_split_asm option.split_asm prod.split_asm)
      then show ?thesis using unsupported by simp
    next
      case True
      then obtain cs0 h3 where cs: "collect_findings cx w rq (rs_findings r) [] h2 = (Inr cs0, h3)"
        and fin: "confirm_task cx sv w rq tb out pin g r cg pkg (sort_key (\<lambda>c. ref_key (cb_ref (fst c))) cs0) h3 = (Inr res, h')"
        using rest2 by (auto simp: run_then_Inr split: if_split_asm)
      obtain e1 where h1: "h1 = h @ e1" using run_addsD [OF adds_resolve_current one, of "\<lambda>_. True"] by auto
      have h2: "h2 = h1 @ [Packaged pin]" and got: "retrieve_skill (kc_package cx) (fst (kw_package w h1)) (snd (kw_package w h1)) (kq_principal rq) pin
          \<lparr>pl_package = 65536, pl_file = 65536, pl_files = 64\<rparr> = Inr pkg"
        using pkg by (auto simp: fetch_package_def split: prod.splits)
      obtain e3 where h3: "h3 = h2 @ e3" using run_addsD [OF adds_collect_findings cs, of "\<lambda>_. True"] by auto
      note found = collect_findings_ok [OF cs]
      let ?cs = "sort_key (\<lambda>c. ref_key (cb_ref (fst c))) cs0"
      from fin refs ready show ?thesis
      proof (cases rule: confirm_task_ready)
        case exceeded
        then show ?thesis by (simp add: answer_sound_def)
      next
        case (complete e k2 k3 r2 bytes b)
        have "task_evidence cx sv w rq h' res b pin"
          unfolding task_evidence_def
        proof (rule exI [of _ h3], rule exI [of _ e], rule exI [of _ ?cs], rule exI [of _ g], rule exI [of _ cg], intro conjI)
          show "h' = h3 @ e" "list_all no_reading e" "kb_contracts b = map fst ?cs" by fact+
          show "\<forall>c \<in> set (kr_candidates res). Decided (fst c) True \<in> set e" using complete by simp
          show "\<forall>c \<in> set (kb_contracts b). Decided (cb_ref c) True \<in> set e" using complete by simp
          show "\<forall>c \<in> set ?cs. contract_pinned cx w rq (\<Union>f \<in> set (rs_findings (kb_resolution b)). set (rf_closure f)) c"
            using found complete by simp
          show "\<forall>f \<in> set (rs_findings (kb_resolution b)). (rf_required f \<longrightarrow> rf_status f = status_ready)
              \<and> (\<forall>item \<in> set (rf_closure f). item_covered rq ?cs item)"
            using found complete by (simp add: item_covered_def)
          show "\<exists>h1. prefix h1 h3 \<and> admission_at cx sv w rq pin g h1" using adm h1 h2 h3 by (intro exI [of _ h0]) (simp add: prefix_prefix)
          show "\<exists>h2. prefix h3 h2 \<and> prefix h2 h' \<and> admission_at cx sv w rq pin g h2" using complete by blast
          show "\<exists>h1. prefix h1 h3 \<and> resolved_at cx sv w rq (ap_ref pin) (kb_resolution b) cg h1"
            using resolve_current_ready [OF one ready] h1 h2 h3 complete by (intro exI [of _ h]) simp
          show "\<exists>h2 r. prefix h3 h2 \<and> prefix h2 h' \<and> same_resolution (kb_resolution b) r \<and> resolved_at cx sv w rq (ap_ref pin) r cg h2"
            using complete by auto
          show "\<exists>h1. prefix h1 h3 \<and> retrieve_skill (kc_package cx) (fst (kw_package w h1)) (snd (kw_package w h1)) (kq_principal rq) pin
             \<lparr>pl_package = 65536, pl_file = 65536, pl_files = 64\<rparr> = Inr (kb_skill b)"
            using got h2 h3 complete by (intro exI [of _ h1]) simp
        qed
        then show ?thesis using complete chosen True by (simp add: answer_sound_def sha_matches_def)
      qed
    qed
  qed
qed

lemma choose_task_sound:
  assumes run: "choose_task cx sv w rq tb out ranked h = (Inr res, h')" and tb: "table_ok cx (kq_principal rq) tb h"
    and refs: "refs_of ranked \<subseteq> refs_of tb" and out: "kr_selected out = None" "kr_status out = ''no_match''" and k: "0 < kq_top_k rq"
  shows "answer_sound cx sv w rq h' res \<and> set (kr_candidates res) \<subseteq> set (take (nat (kq_top_k rq)) ranked)
    \<and> length (kr_candidates res) \<le> nat (kq_top_k rq)"
proof -
  let ?top = "take (nat (kq_top_k rq)) ranked"
  let ?out = "out\<lparr>kr_candidates := ?top\<rparr>"
  obtain h1 where rc: "run_each (\<lambda>c. recheck w (kq_principal rq) (record_at tb (fst c))) ranked h = (Inr (), h1)"
    and rest: "(case ranked of
       [] \<Rightarrow> run_ret ?out
     | (chosen, _) # _ \<Rightarrow>
         if ambiguous ranked then run_ret (?out\<lparr>kr_status := ''requires_selection''\<rparr>)
         else if ar_id chosen \<noteq> skill_id \<or> ar_version chosen \<noteq> skill_version \<or> unsupported_intent cx (kq_intent rq)
         then run_ret (?out\<lparr>kr_status := ''unsupported'', kr_findings := kr_findings out @ [''no maintained recipe covers this intent'']\<rparr>)
         else run_then (admit_task cx sv w rq \<lparr>ap_ref = chosen, ap_digest = cr_digest (record_at tb chosen), ap_manifest = cr_manifest_digest (record_at tb chosen)\<rparr>)
           (\<lambda>(task_generation, admitted).
             if \<not> admitted
             then run_ret (?out\<lparr>kr_status := ''requires_selection'',
               kr_findings := kr_findings out @ [''positive caller-owned intent-to-maintained-recipe admission is required'']\<rparr>)
             else assemble_task cx sv w rq tb ?out \<lparr>ap_ref = chosen, ap_digest = cr_digest (record_at tb chosen), ap_manifest = cr_manifest_digest (record_at tb chosen)\<rparr> task_generation)) h1
      = (Inr res, h')"
    using run unfolding choose_task_def Let_def by (auto simp: run_then_Inr)
  have quiet: "answer_sound cx sv w rq h' (?out\<lparr>kr_status := st, kr_findings := fs\<rparr>)" if "st \<noteq> ''ready''" for st fs
    using out that by (simp add: answer_sound_def)
  have same: "?out\<lparr>kr_status := ''requires_selection''\<rparr> = ?out\<lparr>kr_status := ''requires_selection'', kr_findings := kr_findings out\<rparr>"
    "?out = ?out\<lparr>kr_status := ''no_match'', kr_findings := kr_findings out\<rparr>" using out by simp_all
  show ?thesis
  proof (cases ranked)
    case Nil
    then have "res = ?out" using rest by simp
    then show ?thesis using out by (simp add: answer_sound_def)
  next
    case (Cons c cs)
    obtain chosen s where c: "c = (chosen, s)" by (cases c)
    let ?pin = "\<lparr>ap_ref = chosen, ap_digest = cr_digest (record_at tb chosen), ap_manifest = cr_manifest_digest (record_at tb chosen)\<rparr>"
    show ?thesis
    proof (cases "\<exists>st fs. res = ?out\<lparr>kr_status := st, kr_findings := fs\<rparr> \<and> st \<noteq> ''ready''")
      case True
      then show ?thesis using quiet by auto
    next
      case False
      note no = False
      have amb: "\<not> ambiguous ranked"
      proof
        assume "ambiguous ranked"
        then have "res = ?out\<lparr>kr_status := ''requires_selection''\<rparr>" using rest Cons c by simp
        then have "res = ?out\<lparr>kr_status := ''requires_selection'', kr_findings := kr_findings out\<rparr>" by (rule trans [OF _ same(1)])
        moreover have "''requires_selection'' \<noteq> ''ready''" by simp
        ultimately show False using no by blast
      qed
      have id: "ar_id chosen = skill_id" "ar_version chosen = skill_version"
      proof -
        have "\<not> (ar_id chosen \<noteq> skill_id \<or> ar_version chosen \<noteq> skill_version \<or> unsupported_intent cx (kq_intent rq))"
        proof
          assume "ar_id chosen \<noteq> skill_id \<or> ar_version chosen \<noteq> skill_version \<or> unsupported_intent cx (kq_intent rq)"
          then have "res = ?out\<lparr>kr_status := ''unsupported'', kr_findings := kr_findings out @ [''no maintained recipe covers this intent'']\<rparr>"
            using rest Cons c amb by simp
          then show False using no by auto
        qed
        then show "ar_id chosen = skill_id" "ar_version chosen = skill_version" by auto
      qed
      obtain g admitted h2 where adm: "admit_task cx sv w rq ?pin h1 = (Inr (g, admitted), h2)"
        and fin: "(if \<not> admitted then run_ret (?out\<lparr>kr_status := ''requires_selection'',
               kr_findings := kr_findings out @ [''positive caller-owned intent-to-maintained-recipe admission is required'']\<rparr>)
             else assemble_task cx sv w rq tb ?out ?pin g) h2 = (Inr res, h')"
        using rest Cons c amb id no by (auto simp: run_then_Inr split: if_split_asm)
      have "admitted" using fin no by (auto split: if_split_asm)
      with adm have at: "admission_at cx sv w rq ?pin g h1" and pre: "prefix h1 h2" using admit_task_True by fastforce+
      have "cr_ref (record_at tb (fst x)) = fst x" if "x \<in> set ?top" for x
      proof -
        have "fst x \<in> refs_of tb" using that refs by (auto simp: refs_of_def dest!: in_set_takeD)
        then obtain r where "map_of tb (fst x) = Some r" by (auto simp: refs_of_table)
        then show ?thesis using tb by (simp add: table_ok_def shown_skill_def record_at_def)
      qed
      moreover have "chosen \<in> refs_of ?top" using Cons c k by (cases "nat (kq_top_k rq)") auto
      ultimately have "answer_sound cx sv w rq h' res \<and> (kr_candidates res = kr_candidates ?out \<or> kr_candidates res = [])"
        using fin \<open>admitted\<close> id out by (intro assemble_task_sound [OF _ at pre, of tb ?out]) auto
      then show ?thesis by auto
    qed
  qed
qed

lemma task_status_sound: "st \<noteq> ''ready'' \<Longrightarrow> answer_sound cx sv w rq h (task_status rq st fs)"
  by (simp add: answer_sound_def task_status_def)

lemma rank_task_sound:
  assumes run: "rank_task cx sv w rq tb ranks h = (Inr res, h')" and tb: "table_ok cx (kq_principal rq) tb h"
    and ranks: "refs_of ranks \<subseteq> refs_of tb" and k: "0 < kq_top_k rq"
  shows "answer_sound cx sv w rq h' res \<and> refs_of (kr_candidates res) \<subseteq> refs_of tb \<and> length (kr_candidates res) \<le> nat (kq_top_k rq)"
proof -
  have chosen: "answer_sound cx sv w rq h' res \<and> refs_of (kr_candidates res) \<subseteq> refs_of tb \<and> length (kr_candidates res) \<le> nat (kq_top_k rq)"
    if c: "choose_task cx sv w rq tb out (rank_candidates mode sem ranks) h1 = (Inr res, h')" and t1: "table_ok cx (kq_principal rq) tb h1"
      and sem: "refs_of sem \<subseteq> refs_of tb" and out: "kr_selected out = None" "kr_status out = ''no_match''" for out mode sem h1
  proof -
    have r: "refs_of (rank_candidates mode sem ranks) \<subseteq> refs_of tb" using rank_candidates_refs sem ranks by fastforce
    from choose_task_sound [OF c t1 r out k] have a: "answer_sound cx sv w rq h' res" "length (kr_candidates res) \<le> nat (kq_top_k rq)"
      and s: "set (kr_candidates res) \<subseteq> set (rank_candidates mode sem ranks)" by (auto dest: in_set_takeD)
    have "refs_of (kr_candidates res) \<subseteq> refs_of (rank_candidates mode sem ranks)" using s by (auto simp: refs_of_def)
    with a r show ?thesis by auto
  qed
  have status: "kr_selected (task_status rq ''no_match'' []) = None" "kr_status (task_status rq ''no_match'' []) = ''no_match''"
    by (simp_all add: task_status_def)
  show ?thesis
  proof (cases "kq_mode rq = ''lexical''")
    case True
    then have "choose_task cx sv w rq tb (task_status rq ''no_match'' []) (rank_candidates ''lexical'' [] ranks) h = (Inr res, h')"
      using run by (simp add: rank_task_def)
    then show ?thesis using tb by (rule chosen) (simp_all add: status)
  next
    case False
    obtain r h1 where sem: "semantic_ranking cx sv w rq tb h = (r, h1)" by (metis prod.exhaust)
    have t1: "table_ok cx (kq_principal rq) tb h1"
    proof -
      have adds: "run_adds (\<lambda>_. True) (semantic_ranking cx sv w rq tb)" unfolding semantic_ranking_def Let_def by (intro adds) simp_all
      show ?thesis using run_addsD [OF adds sem] tb table_ok_append by auto
    qed
    show ?thesis
    proof (cases r)
      case (Inl e)
      then have "kq_fallback rq \<noteq> ''lexical'' \<and> res = task_status rq ''unsupported'' [''embedding unavailable: '' @ e]
        \<or> choose_task cx sv w rq tb ((task_status rq ''no_match'' [])\<lparr>kr_mode := ''lexical'', kr_findings := [''explicit lexical fallback; embedding unavailable'']\<rparr>)
                   (rank_candidates ''lexical'' [] ranks) h1 = (Inr res, h')"
        using run False sem by (auto simp: rank_task_def Let_def run_then_Inr caught_def split: if_split_asm)
      then show ?thesis
      proof
        assume "kq_fallback rq \<noteq> ''lexical'' \<and> res = task_status rq ''unsupported'' [''embedding unavailable: '' @ e]"
        then show ?thesis using task_status_sound [of "''unsupported''"] by (simp add: task_status_def)
      next
        assume "choose_task cx sv w rq tb ((task_status rq ''no_match'' [])\<lparr>kr_mode := ''lexical'', kr_findings := [''explicit lexical fallback; embedding unavailable'']\<rparr>)
                   (rank_candidates ''lexical'' [] ranks) h1 = (Inr res, h')"
        then show ?thesis using t1 by (rule chosen) (simp_all add: status)
      qed
    next
      case (Inr semantic)
      then have "choose_task cx sv w rq tb (task_status rq ''no_match'' []) (rank_candidates (kq_mode rq) semantic ranks) h1 = (Inr res, h')"
        using run False sem by (simp add: rank_task_def Let_def run_then_Inr caught_def)
      then show ?thesis using t1 semantic_refs [OF sem [unfolded Inr]] by (rule chosen) (simp_all add: status)
    qed
  qed
qed

text \<open>C8. What a preparation for an intent answers, whatever the ports answer and change meanwhile: at most \<open>TopK\<close> candidates, each a
  listed skill of the caller's workspace with intact manifest whose reading was allowed; a bundle only with the status ready,
  and then every part of it is evidenced by the calls made. The bundle is the maintained skill's package as retrieved under its
  pin, the resolver's complete closure, and for every pin of the closure a contract whose bytes have the pinned digest. After the
  last reading every candidate and contract was allowed once more, the resolution and the caller's decisions (fresh, positive,
  of the same generation) were the same again, and the encoded answer keeps to the caller's budget.\<close>

theorem prepared_task_evidence:
  assumes run: "prepare_task cx sv w rq [] = (Inr out, h)"
  shows "answer_sound cx sv w rq h out \<and> int (length (kr_candidates out)) \<le> max 0 (kq_top_k rq)
    \<and> (\<forall>ref \<in> refs_of (kr_candidates out). \<exists>r. shown_skill cx (kq_principal rq) h ref r)
    \<and> (\<forall>b. kr_selected out = Some b \<longrightarrow> closed_package (pc_hash (kc_package cx)) (kb_skill b))"
proof -
  have sound: "answer_sound cx sv w rq h out \<and> int (length (kr_candidates out)) \<le> max 0 (kq_top_k rq)
    \<and> (\<forall>ref \<in> refs_of (kr_candidates out). \<exists>r. shown_skill cx (kq_principal rq) h ref r)"
  proof (cases "\<exists>st fs. out = task_status rq st fs \<and> st \<noteq> ''ready''")
    case True
    then show ?thesis using task_status_sound by (auto simp: task_status_def)
  next
    case False
    have no: "out \<noteq> task_status rq ''unsupported'' fs" "out \<noteq> task_status rq ''no_match'' fs" for fs
    proof -
      have "''unsupported'' \<noteq> ''ready''" "''no_match'' \<noteq> ''ready''" by simp_all
      then show "out \<noteq> task_status rq ''unsupported'' fs" "out \<noteq> task_status rq ''no_match'' fs" using False by blast+
    qed
    have k: "0 < kq_top_k rq" using run by (auto simp: prepare_task_def task_request_ok_def split: if_split_asm)
    from run no obtain rs tb cs h1 h2 h3 where a: "admit_records cx w (kq_principal rq) rs [] h1 = (Inr tb, h2)"
      and l: "search_lexical w rq h2 = (Inr cs, h3)" and r: "rank_task cx sv w rq tb (lexical_ranks tb 0 cs []) h3 = (Inr out, h)"
      by (auto simp: prepare_task_def run_then_Inr split: if_split_asm)
    have "table_ok cx (kq_principal rq) tb h2" by (rule admit_records_ok [OF a]) (simp add: table_ok_def)
    then have t3: "table_ok cx (kq_principal rq) tb h3" using run_addsD [OF adds_lexical l, of "\<lambda>_. True"] table_ok_append by auto
    have rk: "refs_of (lexical_ranks tb 0 cs []) \<subseteq> refs_of tb" using lexical_ranks_refs [of tb 0 cs "[]"] by simp
    note ranked = rank_task_sound [OF r t3 rk k]
    have adds: "run_adds (\<lambda>_. True) (rank_task cx sv w rq tb ranks)" for ranks
      unfolding rank_task_def semantic_ranking_def Let_def by (intro adds) simp_all
    have th: "table_ok cx (kq_principal rq) tb h" using run_addsD [OF adds r] t3 table_ok_append by blast
    have "\<exists>r. shown_skill cx (kq_principal rq) h ref r" if "ref \<in> refs_of (kr_candidates out)" for ref
    proof -
      have "ref \<in> refs_of tb" using that ranked by auto
      then show ?thesis using th by (auto simp: refs_of_table table_ok_def)
    qed
    then show ?thesis using ranked k by auto
  qed
  moreover have "closed_package (pc_hash (kc_package cx)) (kb_skill b)" if "kr_selected out = Some b" for b
  proof -
    from that sound have "kr_status out = ''ready''" by (auto simp: answer_sound_def)
    with that sound obtain pin where "task_evidence cx sv w rq h out b pin" by (auto simp: answer_sound_def)
    then obtain h1 where "retrieve_skill (kc_package cx) (fst (kw_package w h1)) (snd (kw_package w h1)) (kq_principal rq) pin
           \<lparr>pl_package = 65536, pl_file = 65536, pl_files = 64\<rparr> = Inr (kb_skill b)" unfolding task_evidence_def by blast
    then show ?thesis using retriever.closed [of _ "(fst (kw_package w h1), snd (kw_package w h1), kq_principal rq, pin)"] by simp
  qed
  ultimately show ?thesis by blast
qed

end
