(* ===== verification/TaskExample.thy ===== *)
theory TaskExample
  imports TaskAnswers
begin

text \<open>A preparation that becomes ready: one skill in the catalog, a semantic ranking, one contract in the closure.\<close>

definition unit_vector :: vector where
  "unit_vector = replicate 256 (Some 1)"

definition inbox_manifest :: package_manifest where
  "inbox_manifest = note_manifest\<lparr>pm_id := skill_id, pm_version := skill_version\<rparr>"

definition inbox_codec :: task_codec where
  "inbox_codec = \<lparr>kc_lower = id, kc_hash = (\<lambda>_. dg_value zero_digest), kc_package = note_codec\<lparr>pc_manifest := (\<lambda>_. Some inbox_manifest)\<rparr>,
     kc_manifest = ''m'', kc_names = (\<lambda>_. Some (''inbox'', ''briefing'')), kc_requirements = (\<lambda>_. Some (False, [])), kc_schemas = (\<lambda>_. None),
     kc_object = (\<lambda>_. True), kc_root = (\<lambda>_. 256), kc_result = (\<lambda>_. Some ''{}'')\<rparr>"

definition inbox_service :: task_service where
  "inbox_service = \<lparr>ks_wired = True, ks_model = ''m1'', ks_embedder = True, ks_readiness = True, ks_clock = True, ks_readiness_age = 60,
     ks_admitter = True, ks_admission_age = 60\<rparr>"

definition inbox_reader :: principal_rec where
  "inbox_reader = note_reader\<lparr>pn_generation := 1\<rparr>"

definition inbox_request :: task_request where
  "inbox_request = \<lparr>kq_principal = inbox_reader, kq_intent = ''brief me'', kq_runtime = ''rt'', kq_mode = ''semantic'', kq_guide = False,
     kq_fallback = ''deny'', kq_max_bytes = 1000, kq_top_k = 3, kq_catalog_version = ''1'', kq_recipe_version = recipe_name\<rparr>"

definition inbox_record :: "artifact_ref \<Rightarrow> catalog_record" where
  "inbox_record ref = note_record\<lparr>cr_ref := ref\<rparr>"

definition inbox_skill :: artifact_ref where
  "inbox_skill = \<lparr>ar_workspace = ''w'', ar_kind = kind_skill, ar_id = skill_id, ar_version = skill_version\<rparr>"

definition inbox_pin :: res_pin where
  "inbox_pin = \<lparr>rp_reference = ''mail@1'', rp_kind = kind_capability, rp_digest = zero_digest, rp_manifest = zero_digest\<rparr>"

definition inbox_resolution :: res_result where
  "inbox_resolution = \<lparr>rs_id = ''r'', rs_status = status_ready, rs_skill = inbox_pin,
     rs_findings = [\<lparr>rf_capability = ''mail'', rf_required = True, rf_status = status_ready, rf_binding = None, rf_closure = [inbox_pin],
        rf_provenance = [], rf_reason = []\<rparr>]\<rparr>"

definition inbox_retrieval :: retrieval_world where
  "inbox_retrieval = \<lparr>rw_decide = (\<lambda>_ _ _. Some \<lparr>dc_allowed = True, dc_status = 200, dc_reason = []\<rparr>),
     rw_get = (\<lambda>ref. Some (inbox_record ref)), rw_open = (\<lambda>_. Some (\<lambda>_. Some ''z''))\<rparr>"

definition inbox_world :: task_world where
  "inbox_world = \<lparr>kw_live = True, kw_scan = (\<lambda>h. Inr \<lparr>pg_records = [inbox_record inbox_skill], pg_next = empty_cursor\<rparr>),
     kw_decide = (\<lambda>h p a ref. Inr \<lparr>dc_allowed = True, dc_status = 200, dc_reason = []\<rparr>), kw_get = (\<lambda>h ref. Inr (inbox_record ref)),
     kw_lex = (\<lambda>h. ((sample_env (\<lambda>_. True))\<lparr>de_search := (\<lambda>_. Some \<lparr>pg_records = [], pg_next = empty_cursor\<rparr>)\<rparr>, 0)),
     kw_embed = (\<lambda>h u ts. Inr (''m1'', map (\<lambda>_. unit_vector) ts)), kw_resolve = (\<lambda>h rq. Inr inbox_resolution),
     kw_ready = (\<lambda>h sc r. Inr \<lparr>ry_scope = sc, ry_ready = True, ry_generation = ''g'', ry_checked_at = 5, ry_valid_until = 20\<rparr>),
     kw_admit = (\<lambda>h sc. Inr \<lparr>ay_scope = sc, ay_admitted = True, ay_generation = ''t'', ay_checked_at = 5, ay_valid_until = 20\<rparr>),
     kw_now = (\<lambda>h. 10), kw_package = (\<lambda>h. (inbox_retrieval, inbox_retrieval)), kw_bytes = (\<lambda>h. inbox_retrieval)\<rparr>"

lemma unit_dot: "dot_product (replicate n (Some 1)) (replicate n (Some 1)) = Some (of_nat n)"
  by (induction n) simp_all

lemma unit_cosine: "cosine (\<lambda>_. 256) unit_vector unit_vector = Inr 1"
  by (simp add: cosine_def unit_vector_def unit_dot)

definition inbox_package :: skill_package where
  "inbox_package = note_package\<lparr>pk_manifest := inbox_manifest\<rparr>"

definition inbox_artifact :: artifact_pin where
  "inbox_artifact = \<lparr>ap_ref = inbox_skill, ap_digest = zero_digest, ap_manifest = zero_digest\<rparr>"

lemma inbox_archive: "read_archive (pc_zip (kc_package inbox_codec)) ''z'' \<lparr>pl_package = 65536, pl_file = 65536, pl_files = 64\<rparr>
  = Inr [(manifest_name, ''m''), (skill_name, note_skill)]"
proof -
  have "safe_archive_path manifest_name = Some manifest_name" "safe_archive_path skill_name = Some skill_name" by code_simp+
  moreover have "manifest_name \<noteq> skill_name" by code_simp
  moreover have "length note_skill = 34" by code_simp
  ultimately show ?thesis by (simp add: read_archive_def note_codec_def inbox_codec_def Let_def)
qed

lemma inbox_validates: "validate_package (kc_package inbox_codec) [(manifest_name, ''m''), (skill_name, note_skill)] = Inr inbox_package"
proof -
  have v: "validate_core note_skill \<noteq> None" "validate_path skill_name" "skill_name \<noteq> manifest_name" "skill_name \<noteq> []" by code_simp+
  then show ?thesis using zero_digest_valid(1)
    by (simp add: validate_package_def note_codec_def inbox_codec_def inbox_manifest_def inbox_package_def note_manifest_def note_package_def package_digest_def
        canonical_inventory_def verify_package_def without_manifest_def declared_def Let_def skill_id_def skill_version_def) (simp add: zero_digest_def)
qed

lemma inbox_retrieved: "retrieve_skill (kc_package inbox_codec) inbox_retrieval inbox_retrieval inbox_reader inbox_artifact
  \<lparr>pl_package = 65536, pl_file = 65536, pl_files = 64\<rparr> = Inr inbox_package"
proof -
  have m: "pm_id (pk_manifest inbox_package) = skill_id" "pm_version (pk_manifest inbox_package) = skill_version"
    "pk_manifest_digest inbox_package = dg_value zero_digest" "pk_digest inbox_package = dg_value zero_digest"
    by (simp_all add: inbox_package_def inbox_manifest_def note_package_def)
  have "pc_hash (kc_package inbox_codec) b = dg_value zero_digest" for b by (simp add: inbox_codec_def note_codec_def)
  then show ?thesis using zero_digest_valid(2) inbox_archive inbox_validates m
    by (simp add: retrieve_skill_def retrieve_def inbox_retrieval_def inbox_reader_def note_reader_def inbox_artifact_def inbox_skill_def
        inbox_record_def note_record_def Let_def listed_state_def same_artifact_def skill_id_def skill_version_def) (simp add: zero_digest_def)
qed

lemma inbox_semantic: "score_documents (\<lambda>_. 256) unit_vector [(inbox_skill, unit_vector)] = Inr [(inbox_skill, 1)]"
  by (simp add: unit_cosine)

subsection \<open>The run\<close>

lemma inbox_calls:
  "ask_read inbox_world p ref h = (Inr True, h @ [Decided ref True])"
  "fetch_record inbox_world ref h = (Inr (inbox_record ref), h @ [Fetched ref])"
  "read_clock inbox_world h = (Inr 10, h @ [Clocked])"
  "call_embed inbox_world u ts h = (Inr (''m1'', map (\<lambda>_. unit_vector) ts), h @ [Embedded u ts])"
  "call_resolve inbox_world q h = (Inr inbox_resolution, h @ [Resolved (rr_owned_connections q)])"
  "call_ready inbox_world sc r h = (Inr \<lparr>ry_scope = sc, ry_ready = True, ry_generation = ''g'', ry_checked_at = 5, ry_valid_until = 20\<rparr>, h @ [Readied sc])"
  "call_admit inbox_world g h = (Inr \<lparr>ay_scope = g, ay_admitted = True, ay_generation = ''t'', ay_checked_at = 5, ay_valid_until = 20\<rparr>, h @ [Admitted g])"
  "scan_catalog inbox_world h = (Inr \<lparr>pg_records = [inbox_record inbox_skill], pg_next = empty_cursor\<rparr>, h @ [Scanned])"
  by (simp_all add: ask_read_def fetch_record_def read_clock_def call_embed_def call_resolve_def call_ready_def call_admit_def scan_catalog_def
      inbox_world_def)

lemma inbox_record_sel: "cr_ref (inbox_record ref) = ref" "cr_state (inbox_record ref) = ''published''" "cr_metadata (inbox_record ref) = []"
  "cr_digest (inbox_record ref) = zero_digest" "cr_manifest_digest (inbox_record ref) = zero_digest"
  by (simp_all add: inbox_record_def note_record_def)

lemma inbox_listed [simp]: "listed_state ''published''" by (simp add: listed_state_def)

lemma inbox_matches: "sha_matches inbox_codec raw zero_digest"
  by (simp add: sha_matches_def inbox_codec_def zero_digest_def)

lemma inbox_recheck: "recheck inbox_world p (inbox_record ref) h = (Inr (), h @ [Fetched ref, Decided ref True])"
  by (simp add: recheck_def authorized_def run_then_def run_ret_def inbox_calls inbox_record_sel)

lemma inbox_admitted: "admit_records inbox_codec inbox_world p [inbox_record inbox_skill] [] h
  = (if pn_workspace p = ''w'' then Inr [(inbox_skill, inbox_record inbox_skill)] else Inl ''preparation: foreign workspace in index'',
     if pn_workspace p = ''w'' then h @ [Decided inbox_skill True, Fetched inbox_skill, Decided inbox_skill True] else h)"
  by (simp add: run_then_def run_ret_def run_fail_def inbox_calls inbox_record_sel inbox_matches authorized_def)
    (simp add: inbox_skill_def kind_skill_def)

lemma inbox_request_sel: "kq_principal inbox_request = inbox_reader" "kq_intent inbox_request = ''brief me''" "kq_mode inbox_request = ''semantic''"
  "kq_runtime inbox_request = ''rt''" "kq_guide inbox_request = False" "kq_max_bytes inbox_request = 1000" "kq_top_k inbox_request = 3"
  "pn_workspace inbox_reader = ''w''"
  by (simp_all add: inbox_request_def inbox_reader_def note_reader_def)

lemma inbox_service_sel: "ks_embedder inbox_service" "ks_model inbox_service = ''m1''" "ks_readiness inbox_service" "ks_clock inbox_service"
  "ks_readiness_age inbox_service = 60" "ks_admitter inbox_service" "ks_admission_age inbox_service = 60" "ks_wired inbox_service"
  by (simp_all add: inbox_service_def)

lemma inbox_codec_sel: "kc_root inbox_codec = (\<lambda>_. 256)" "kc_names inbox_codec m = Some (''inbox'', ''briefing'')" "kc_requirements inbox_codec m = Some (False, [])"
  "kc_result inbox_codec r = Some ''{}''" "kc_manifest inbox_codec = ''m''" "kc_lower inbox_codec = id"
  by (simp_all add: inbox_codec_def)

lemma inbox_ranked: "semantic_ranking inbox_codec inbox_service inbox_world inbox_request [(inbox_skill, inbox_record inbox_skill)] h
  = (Inr [(inbox_skill, 1)], h @ [Fetched inbox_skill, Decided inbox_skill True, Embedded ''document'' [''inbox briefing''],
      Fetched inbox_skill, Decided inbox_skill True, Embedded ''query'' [''brief me'']])"
  by (simp add: semantic_ranking_def run_then_def run_ret_def run_sum_def inbox_calls inbox_recheck record_at_def Let_def skill_text_def
      inbox_request_sel inbox_service_sel inbox_codec_sel inbox_record_sel unit_cosine sort_candidates_def stable_sort_def insert_by_def)

lemma inbox_resolved: "\<exists>e. resolve_current inbox_codec inbox_service inbox_world inbox_request ref h = (Inr (inbox_resolution, ''g''), h @ e)"
  by (simp add: resolve_current_def run_then_def run_ret_def inbox_calls inbox_service_sel still_fresh_def Let_def resolve_input_def)

lemma inbox_task_admitted: "\<exists>e. admit_task inbox_codec inbox_service inbox_world inbox_request pin h = (Inr (''t'', True), h @ e)"
  by (simp add: admit_task_def run_then_def run_ret_def inbox_calls inbox_service_sel still_fresh_def Let_def)

lemma inbox_world_sel: "kw_bytes inbox_world h = inbox_retrieval" "kw_package inbox_world h = (inbox_retrieval, inbox_retrieval)" "kw_live inbox_world"
  by (simp_all add: inbox_world_def)

definition mail_contract :: pinned_contract where
  "mail_contract = (\<lparr>cb_ref = \<lparr>ar_workspace = ''w'', ar_kind = kind_capability, ar_id = ''mail'', ar_version = ''1''\<rparr>, cb_digest = zero_digest,
     cb_bytes = ''z''\<rparr>, zero_digest)"

lemma inbox_collected: "\<exists>e. collect_findings inbox_codec inbox_world inbox_request (rs_findings inbox_resolution) [] h = (Inr [mail_contract], h @ e)"
proof -
  have ref: "parse_ref ''w'' kind_capability ''mail@1'' = Some (cb_ref (fst mail_contract))" by code_simp
  have ok: "digest_ok zero_digest" using zero_digest_valid(2) by (simp add: digest_ok_def valid_pin_digest_def)
  have get: "retrieve inbox_retrieval inbox_reader (cb_ref (fst mail_contract)) 1000
    = Inr \<lparr>en_record = inbox_record (cb_ref (fst mail_contract)), en_bytes = ''z''\<rparr>"
    by (simp add: retrieve_def inbox_retrieval_def inbox_reader_def note_reader_def mail_contract_def inbox_record_sel)
  have kind: "ar_kind (cb_ref (fst mail_contract)) \<noteq> kind_tool" by (simp add: mail_contract_def kind_capability_def kind_tool_def)
  have "check_contract inbox_codec inbox_world inbox_request (cb_ref (fst mail_contract)) inbox_pin h
    = (Inr mail_contract, h @ [Decided (cb_ref (fst mail_contract)) True, Fetched_bytes (cb_ref (fst mail_contract))])" for h
    using get kind ok
    by (simp add: check_contract_def authorized_def run_then_def run_ret_def inbox_calls fetch_bytes_def inbox_request_sel inbox_record_sel
        logical_manifest_def inbox_matches inbox_pin_def inbox_world_sel) (simp add: mail_contract_def)
  then show ?thesis using ref by (simp add: inbox_resolution_def run_then_def run_ret_def inbox_request_sel inbox_pin_def)
qed

lemma inbox_packaged: "fetch_package inbox_codec inbox_world inbox_reader inbox_artifact h = (Inr inbox_package, h @ [Packaged inbox_artifact])"
  using inbox_retrieved by (simp add: fetch_package_def inbox_world_sel)

lemma inbox_table: "record_at [(inbox_skill, inbox_record inbox_skill)] inbox_skill = inbox_record inbox_skill"
  by (simp add: record_at_def)

lemma inbox_confirmed: "\<exists>res h'. confirm_task inbox_codec inbox_service inbox_world inbox_request [(inbox_skill, inbox_record inbox_skill)]
    ((task_status inbox_request ''no_match'' [])\<lparr>kr_candidates := [(inbox_skill, 1)]\<rparr>) inbox_artifact ''t'' inbox_resolution ''g'' inbox_package [mail_contract] h
  = (Inr res, h') \<and> kr_status res = ''ready''"
proof -
  obtain e where r: "resolve_current inbox_codec inbox_service inbox_world inbox_request inbox_skill
     (h @ [Fetched inbox_skill, Decided inbox_skill True, Fetched (cb_ref (fst mail_contract)), Decided (cb_ref (fst mail_contract)) True])
     = (Inr (inbox_resolution, ''g''), h @ [Fetched inbox_skill, Decided inbox_skill True, Fetched (cb_ref (fst mail_contract)), Decided (cb_ref (fst mail_contract)) True] @ e)"
    using inbox_resolved by (metis append.assoc)
  obtain e2 where a: "admit_task inbox_codec inbox_service inbox_world inbox_request inbox_artifact
     (h @ [Fetched inbox_skill, Decided inbox_skill True, Fetched (cb_ref (fst mail_contract)), Decided (cb_ref (fst mail_contract)) True] @ e)
     = (Inr (''t'', True), e2)"
    using inbox_task_admitted by metis
  have same: "same_resolution inbox_resolution inbox_resolution" by (simp add: same_resolution_def)
  have c: "recheck_contract inbox_codec inbox_world inbox_request mail_contract k
    = (Inr (), k @ [Fetched (cb_ref (fst mail_contract)), Decided (cb_ref (fst mail_contract)) True])" for k
    using zero_digest_valid(2)
    by (simp add: recheck_contract_def authorized_def run_then_def run_ret_def inbox_calls inbox_record_sel logical_manifest_def digest_ok_def valid_pin_digest_def)
      (simp add: mail_contract_def)
  show ?thesis
    using r a same
    by (simp add: confirm_task_def task_status_def run_then_def run_ret_def inbox_table inbox_recheck c inbox_request_sel inbox_codec_sel Let_def inbox_artifact_def)
qed

lemma inbox_assembled: "\<exists>res h'. assemble_task inbox_codec inbox_service inbox_world inbox_request [(inbox_skill, inbox_record inbox_skill)]
    ((task_status inbox_request ''no_match'' [])\<lparr>kr_candidates := [(inbox_skill, 1)]\<rparr>) inbox_artifact ''t'' h = (Inr res, h') \<and> kr_status res = ''ready''"
proof -
  have skill: "ap_ref inbox_artifact = inbox_skill" by (simp add: inbox_artifact_def)
  obtain e where r: "resolve_current inbox_codec inbox_service inbox_world inbox_request inbox_skill h = (Inr (inbox_resolution, ''g''), h @ e)"
    using inbox_resolved by blast
  obtain h2 where c: "collect_findings inbox_codec inbox_world inbox_request (rs_findings inbox_resolution) [] (h @ e @ [Packaged inbox_artifact])
    = (Inr [mail_contract], h2)" using inbox_collected by blast
  obtain res h' where f: "confirm_task inbox_codec inbox_service inbox_world inbox_request [(inbox_skill, inbox_record inbox_skill)]
    ((task_status inbox_request ''no_match'' [])\<lparr>kr_candidates := [(inbox_skill, 1)]\<rparr>) inbox_artifact ''t'' inbox_resolution ''g'' inbox_package [mail_contract] h2
    = (Inr res, h')" "kr_status res = ''ready''" using inbox_confirmed by blast
  have "sha_matches inbox_codec ''m'' \<lparr>dg_algorithm = ''sha256'', dg_value = pk_manifest_digest inbox_package\<rparr>"
    by (simp add: sha_matches_def inbox_codec_def inbox_package_def note_package_def)
  moreover have "rs_status inbox_resolution = status_ready" by (simp add: inbox_resolution_def)
  ultimately show ?thesis
    using r c f
    by (simp add: assemble_task_def run_then_def run_ret_def skill inbox_packaged inbox_request_sel inbox_codec_sel inbox_table inbox_record_sel inbox_matches)
qed

lemma inbox_lexical: "search_lexical inbox_world inbox_request h = (Inr [], h @ [Lexed])"
proof -
  have "case discover ((sample_env (\<lambda>_. True))\<lparr>de_search := (\<lambda>_. Some \<lparr>pg_records = [], pg_next = empty_cursor\<rparr>)\<rparr>) 0 (discovery_of inbox_request) of
     Inl e \<Rightarrow> False | Inr d \<Rightarrow> dp_candidates d = []" by code_simp
  then show ?thesis by (auto simp: search_lexical_def inbox_world_def split: sum.splits)
qed

lemma inbox_chosen: "\<exists>res e. choose_task inbox_codec inbox_service inbox_world inbox_request [(inbox_skill, inbox_record inbox_skill)]
    (task_status inbox_request ''no_match'' []) [(inbox_skill, 1)] h = (Inr res, h @ e) \<and> kr_status res = ''ready''"
proof -
  obtain e2 where a: "admit_task inbox_codec inbox_service inbox_world inbox_request inbox_artifact
     (h @ [Fetched inbox_skill, Decided inbox_skill True]) = (Inr (''t'', True), (h @ [Fetched inbox_skill, Decided inbox_skill True]) @ e2)"
    using inbox_task_admitted by metis
  obtain res h' where f: "assemble_task inbox_codec inbox_service inbox_world inbox_request [(inbox_skill, inbox_record inbox_skill)]
    ((task_status inbox_request ''no_match'' [])\<lparr>kr_candidates := [(inbox_skill, 1)]\<rparr>) inbox_artifact ''t''
    ((h @ [Fetched inbox_skill, Decided inbox_skill True]) @ e2) = (Inr res, h')" "kr_status res = ''ready''" using inbox_assembled by blast
  obtain e where h': "h' = ((h @ [Fetched inbox_skill, Decided inbox_skill True]) @ e2) @ e" using run_addsD [OF adds_assemble f(1), of "\<lambda>_. True"] by auto
  have pin: "\<lparr>ap_ref = inbox_skill, ap_digest = cr_digest (inbox_record inbox_skill), ap_manifest = cr_manifest_digest (inbox_record inbox_skill)\<rparr> = inbox_artifact"
    by (simp add: inbox_artifact_def inbox_record_sel)
  have id: "ar_id inbox_skill = skill_id" "ar_version inbox_skill = skill_version" by (simp_all add: inbox_skill_def)
  have "\<not> unsupported_intent inbox_codec ''brief me''" by code_simp
  then show ?thesis using a f h'
    by (simp add: choose_task_def run_then_def run_ret_def inbox_table inbox_recheck inbox_request_sel ambiguous_def pin id Let_def)
qed

lemma inbox_ready: "\<exists>res e. prepare_task inbox_codec inbox_service inbox_world inbox_request [] = (Inr res, [Scanned, Decided inbox_skill True,
    Fetched inbox_skill, Decided inbox_skill True, Lexed, Fetched inbox_skill, Decided inbox_skill True, Embedded ''document'' [''inbox briefing'']] @ e)
  \<and> kr_status res = ''ready''"
proof -
  let ?h = "[Scanned, Decided inbox_skill True, Fetched inbox_skill, Decided inbox_skill True, Lexed, Fetched inbox_skill, Decided inbox_skill True,
    Embedded ''document'' [''inbox briefing''], Fetched inbox_skill, Decided inbox_skill True, Embedded ''query'' [''brief me'']]"
  obtain res e where c: "choose_task inbox_codec inbox_service inbox_world inbox_request [(inbox_skill, inbox_record inbox_skill)]
    (task_status inbox_request ''no_match'' []) [(inbox_skill, 1)] ?h = (Inr res, ?h @ e)" "kr_status res = ''ready''" using inbox_chosen by blast
  have "task_request_ok inbox_codec inbox_service inbox_request"
  proof -
    have "go_trim_space ''brief me'' \<noteq> []" by code_simp
    then show ?thesis by (simp add: task_request_ok_def inbox_service_sel inbox_request_def inbox_reader_def note_reader_def)
  qed
  moreover have "\<not> unsupported_intent inbox_codec ''brief me''" by code_simp
  moreover have "rank_task inbox_codec inbox_service inbox_world inbox_request [(inbox_skill, inbox_record inbox_skill)] []
    [Scanned, Decided inbox_skill True, Fetched inbox_skill, Decided inbox_skill True, Lexed] = (Inr res, ?h @ e)"
    using c by (simp add: rank_task_def run_then_def caught_def inbox_ranked inbox_request_sel rank_candidates_def sort_candidates_def stable_sort_def insert_by_def Let_def)
  ultimately show ?thesis using c(2)
    by (simp add: prepare_task_def run_then_def run_ret_def inbox_calls inbox_admitted inbox_lexical inbox_request_sel inbox_world_sel empty_cursor_def del: admit_records.simps)
qed

theorem prepared_task_evidence_witness:
  "\<exists>res h. prepare_task inbox_codec inbox_service inbox_world inbox_request [] = (Inr res, h) \<and> (\<exists>b pin. task_evidence inbox_codec inbox_service inbox_world inbox_request h res b pin)"
proof -
  obtain res e where run: "prepare_task inbox_codec inbox_service inbox_world inbox_request [] = (Inr res, [Scanned, Decided inbox_skill True,
    Fetched inbox_skill, Decided inbox_skill True, Lexed, Fetched inbox_skill, Decided inbox_skill True, Embedded ''document'' [''inbox briefing'']] @ e)"
    and ready: "kr_status res = ''ready''" using inbox_ready by blast
  from prepared_task_evidence [OF run] ready show ?thesis using run unfolding answer_sound_def by blast
qed

theorem embedding_discloses_readable_witness:
  "\<exists>res h. prepare_task inbox_codec inbox_service inbox_world inbox_request [] = (res, h) \<and> h ! 7 = Embedded ''document'' [''inbox briefing'']
     \<and> embed_ok inbox_codec inbox_request (take 7 h) ''document'' [''inbox briefing'']"
proof -
  obtain res e where run: "prepare_task inbox_codec inbox_service inbox_world inbox_request [] = (Inr res, [Scanned, Decided inbox_skill True,
    Fetched inbox_skill, Decided inbox_skill True, Lexed, Fetched inbox_skill, Decided inbox_skill True, Embedded ''document'' [''inbox briefing'']] @ e)"
    using inbox_ready by blast
  let ?h = "[Scanned, Decided inbox_skill True, Fetched inbox_skill, Decided inbox_skill True, Lexed, Fetched inbox_skill, Decided inbox_skill True,
    Embedded ''document'' [''inbox briefing'']] @ e"
  have at: "7 < length ?h" "?h ! 7 = Embedded ''document'' [''inbox briefing'']" by (simp_all add: nth_append)
  from embedding_discloses_readable [OF run at] run at(2) show ?thesis by blast
qed

end
