(* ===== verification/Spec2Isabelle.thy ===== *)
theory Spec2Isabelle
  imports Chunking Snippet StructuredChunks GistApi RemoteSessions Discovery RecipeProperties IndexProperties Semver
    ResolutionProperties PreparationExample OAuthFlowExample Execution SessionSnapshot LocalMcp EnrollmentExample TaskExample
begin

text \<open>
  A verification development for Gist: a library that chunks, indexes and searches text for language
  models, a catalog of skills, tools and bindings with discovery, resolution and composition, and a hosted
  registry that serves the catalog over MCP. The code is Go; paths below are those of the repository.

  \<^bold>\<open>The program and its theories.\<close>

  \<^item> The text library. \<open>gist.go\<close> (\<open>GistApi\<close>) indexes a document: \<open>chunk.go\<close> (\<open>Chunking\<close>) and
    \<open>chunk_json.go\<close>, \<open>chunk_yaml.go\<close> (\<open>StructuredChunks\<close>) cut it into chunks, the store of \<open>store.go\<close>
    (\<open>StoreTypes\<close>, the contract \<open>StoreInterface\<close>) and \<open>store_memory.go\<close> (\<open>MemoryStore\<close>, which interprets the
    contract) keeps them, and the vocabulary of \<open>fuzzy.go\<close> (\<open>Fuzzy\<close>) grows. \<open>search.go\<close> (\<open>Searching\<close>) asks the store
    in tiers, cuts snippets with \<open>snippet.go\<close> (\<open>Snippet\<close>) and fits them into a token budget. \<open>BatchIndex\<close> is a
    step relation that interleaves the goroutines of its worker pool. \<open>session.go\<close> and \<open>snapshot.go\<close>
    (\<open>SessionSnapshot\<close>) record what a session did and render it into a budget, \<open>security.go\<close>, \<open>executor.go\<close> and
    \<open>internal/runtime\<close> (\<open>Execution\<close>) run code under a policy, and \<open>mcp/\<close> (\<open>LocalMcp\<close>) serves the library over
    standard input and output.
  \<^item> The catalog. \<open>internal/cataloglexical\<close> (\<open>Lexical\<close>) scores documents, \<open>catalog/discovery/index.go\<close>
    (\<open>Discovery\<close>) answers queries over catalog pages, \<open>catalog/discovery/scoped_index.go\<close> (\<open>ScopedIndex\<close>,
    \<open>IndexHistory\<close>, \<open>IndexProperties\<close>) is the inverted index of one scope with its concurrent writers,
    \<open>catalog/resolution\<close> (\<open>Resolution\<close>, \<open>ResolutionProperties\<close>) resolves the capabilities of a skill to
    bindings, \<open>catalog/integrity\<close> and \<open>catalog/packages\<close> (\<open>Packages\<close>) check and retrieve the archive of a skill,
    \<open>catalog/composition\<close> validates recipes (\<open>Schema\<close>, \<open>Composition\<close>, \<open>RecipeProperties\<close>) and prepares them for
    a caller (\<open>Assembly\<close>, \<open>AssemblyProperties\<close>, \<open>PreparationExample\<close>): preparation retrieves packages, looks
    bindings up in the scoped index, validates the recipe and asks an authority twice. \<open>catalog/preparation\<close>
    (\<open>TaskPreparation\<close>) prepares the maintained skill for an intent: it ranks what the caller may read, asks for the
    caller's admission and readiness, reads the resolved closure and confirms everything (\<open>TaskProperties\<close>,
    \<open>TaskAnswers\<close>, \<open>TaskExample\<close>).
    \<open>CatalogTypes\<close> holds the data of \<open>catalog/ports\<close> and \<open>GoJson\<close> the JSON encoding whose size is measured.
  \<^item> The hosted registry. \<open>hosted/internal/remotemcp/transport.go\<close> (\<open>RemoteSessions\<close>) keeps the table of MCP
    sessions; \<open>hosted/internal/storage/semver.go\<close> (\<open>Semver\<close>) orders versions. \<open>hosted/internal/identity\<close> holds the
    signing keys and the revocation lease (\<open>Identity\<close>), mints and verifies workload tokens and authorizes requests
    (\<open>Workload\<close>). \<open>hosted/internal/oauth\<close> is an OAuth authorization server: registration, authorization and consent
    with sealed requests and signed sessions (\<open>OAuthConsent\<close>, over the base64url of \<open>Base64\<close>), and the token, refresh
    and revocation endpoints (\<open>OAuthServer\<close>) over the grant tables of \<open>hosted/internal/storage/oauth.go\<close>
    (\<open>OAuthStore\<close>). \<open>OAuthGrants\<close> states what the endpoints rely on as the locale \<open>grant_store\<close> and interprets it on
    the tables; \<open>OAuthProperties\<close>, \<open>OAuthFlow\<close> and \<open>IdentityProperties\<close> prove the endpoints, \<open>OAuthExample\<close>,
    \<open>OAuthFlowExample\<close> and \<open>IdentityExample\<close> run them. \<open>hosted/internal/enrollment\<close> (\<open>Enrollment\<close>) signs accounts of
    GitHub in and invites them, over the tables of \<open>hosted/internal/storage/enrollment.go\<close> (\<open>EnrollmentStore\<close>);
    \<open>EnrollmentProperties\<close> proves it and \<open>EnrollmentExample\<close> runs a deployment.
  \<^item> \<open>Prelude\<close> and \<open>GoStrings\<close> hold what the Go runtime and its \<open>strings\<close>, \<open>unicode/utf8\<close> and \<open>sort\<close>
    packages do, with panics of slicing and indexing as \<open>None\<close>.

  \<^bold>\<open>How code is modelled.\<close> A struct is a record with the code's fields, an error a value of a sum (a message
  or a constructor per error), a Go map an association list without repeated keys or a partial function, a
  mutex the atomicity of an operation. Goroutines and concurrent writers are inductive step relations. A
  call to something that may answer differently each time (authorizer, retriever, index, clock) takes its
  answer from a schedule that gives every call its own answer. Machine integers are words where they can
  overflow (\<open>Snippet\<close>, the generation of \<open>ScopedIndex\<close>) and \<open>int\<close> or \<open>nat\<close> where the code bounds them first.

  \<^bold>\<open>What the lemmas show.\<close> Chunks are bounded and lose nothing; a search over the memory store returns exactly
  the matching chunks; a batch isolates its items and ends; discovery discloses only what the caller may
  read; a search over the scoped index equals a scan and its writers are serialised; an accepted recipe is
  acyclic, well typed and within budget; a resolution is ready, and a preparation answers, only with
  evidence, and tells the embedder only what the caller may read; a retrieved package is the pinned one; the session table refines one list in order of recency;
  an access token proves a consent given on a page that showed its bounds, a credential is exchanged once, its
  reuse ends the grant, and a token verifies only with a live key, the policy's approval and no revocation. A sign-in
  is evidence of an unused flow and an admitted account, and nobody is admitted beyond the scopes of his sponsor. Code
  runs only if its policy allows it, and the local server answers every request once.

  \<^bold>\<open>Parameters.\<close> Unicode case tables, the Markdown parse tree, JSON, YAML and ZIP decoding, SHA-256, edit
  distance, URL parsing, HMAC, AES-GCM, the JWT library, GitHub's answers, the operating system (files, processes), random identifiers and the clock are arguments of the definitions that use them. \<open>sort.Slice\<close>
  is any routine that meets \<open>slice_sort\<close>. The PostgreSQL tables of the grant store are maps; each operation is one
  transaction that may fail without effect, and what other transactions do before, between and after the
  statements of a request is a function of the environment (\<open>te_before\<close>, \<open>te_between\<close>, \<open>we_others\<close>).

  \<^bold>\<open>Bounds and fuel.\<close> The search for cycles in \<open>Composition\<close> recurses at most one level deeper than there are
  steps, and its bound is never reached (\<open>visit_depth\<close>). The scores of \<open>MemoryStore\<close> are exact rationals. All
  other recursions end by a measure; \<open>disable_loop\<close> ends since each round disables another step.

  \<^bold>\<open>Not modelled.\<close> The other PostgreSQL stores and the migrations (SQL evaluated by the database), object stores on
  files and S3, HTTP handlers, HTML pages, process start-up, telemetry, command-line glue and the evaluation
  tools. Planned next: delegated authorization, the publication decoder, the preparation service, enrollment,
  events, the local MCP server, the executor.
\<close>

end
